(* ===== verification/Bt_Prelude.thy ===== *)
theory Bt_Prelude
  imports Main "HOL-Library.Word" "HOL-Library.Monad_Syntax"
begin

text \<open>
  Shared vocabulary of the development: the machine integers of the C sources, the byte-order
  accessors of \<^verbatim>\<open>src/shared/util.h\<close> and \<^verbatim>\<open>lib/bluetooth.h\<close>, a bounds-checked model of
  \<^verbatim>\<open>memcpy\<close> and \<^verbatim>\<open>realloc\<close>, and the generic lemmas on lists and words the components share.
  A result of type \<open>'a option\<close> whose value is \<open>None\<close> stands for a step the C language gives no
  meaning to (a dereference of a pointer that is not allocated, a write past the end of a
  buffer) or for a loop that does not end.
\<close>

unbundle bit_operations_syntax

section \<open>Machine types\<close>

type_synonym u8 = "8 word"
type_synonym u16 = "16 word"
type_synonym u32 = "32 word"
type_synonym u64 = "64 word"
type_synonym bytes = "u8 list"
type_synonym ptr = nat

named_theorems byte_simps "byte-order accessors and buffer writes"
named_theorems refine_intros "one refinement step of an operation"
named_theorems wf_intros "an operation keeps the well-formedness of its state"

section \<open>Byte order: \<^verbatim>\<open>src/shared/util.h\<close>, \<^verbatim>\<open>lib/bluetooth.h\<close>\<close>

text \<open>
  The accessors read from and write to unaligned memory.  A reader takes the bytes from the
  pointer on; every caller of the sources checks that enough bytes are there first.
\<close>

fun get_le16 :: "bytes \<Rightarrow> u16" where
  "get_le16 (b0 # b1 # _) = ucast b0 OR push_bit 8 (ucast b1)"
| "get_le16 _ = 0"

fun get_le32 :: "bytes \<Rightarrow> u32" where
  "get_le32 (b0 # b1 # b2 # b3 # _) =
     ucast b0 OR push_bit 8 (ucast b1) OR push_bit 16 (ucast b2) OR push_bit 24 (ucast b3)"
| "get_le32 _ = 0"

definition put_le16 :: "u16 \<Rightarrow> bytes" where
  "put_le16 v = [ucast v, ucast (drop_bit 8 v)]"

definition put_le32 :: "u32 \<Rightarrow> bytes" where
  "put_le32 v = [ucast v, ucast (drop_bit 8 v), ucast (drop_bit 16 v), ucast (drop_bit 24 v)]"

definition put_be16 :: "u16 \<Rightarrow> bytes" where
  "put_be16 v = [ucast (drop_bit 8 v), ucast v]"

definition put_be32 :: "u32 \<Rightarrow> bytes" where
  "put_be32 v = [ucast (drop_bit 24 v), ucast (drop_bit 16 v), ucast (drop_bit 8 v), ucast v]"

text \<open>\<^verbatim>\<open>bswap_128\<close>: \<open>d[15 - i] = s[i]\<close> for the 16 bytes from the pointer on.\<close>

definition bswap_128 :: "bytes \<Rightarrow> bytes" where
  "bswap_128 s = map (\<lambda>j. s ! (15 - j)) [0..<16]"

section \<open>Memory: bounds-checked copies\<close>

text \<open>
  \<open>buf_write buf off bs\<close> is \<^verbatim>\<open>memcpy(buf + off, bs, n)\<close> for the \<open>n\<close> bytes \<open>bs\<close>: \<open>None\<close> when
  a byte would land outside the buffer.  \<open>realloc_bytes junk buf n\<close> is the contents of
  \<^verbatim>\<open>realloc(buf, n)\<close>: the old bytes are kept up to the smaller size, and what the new bytes
  hold is not specified (the parameter \<open>junk\<close>).
\<close>

definition buf_write :: "bytes \<Rightarrow> nat \<Rightarrow> bytes \<Rightarrow> bytes option" where
  "buf_write buf off bs =
     (if off + length bs \<le> length buf
      then Some (take off buf @ bs @ drop (off + length bs) buf) else None)"

definition realloc_bytes :: "(nat \<Rightarrow> u8) \<Rightarrow> bytes \<Rightarrow> nat \<Rightarrow> bytes" where
  "realloc_bytes junk buf n = take n buf @ map junk [length buf..<n]"

section \<open>Lemmas on the accessors\<close>

lemma length_put_le16 [simp]: "length (put_le16 v) = 2"
  by (simp add: put_le16_def)

lemma length_put_le32 [simp]: "length (put_le32 v) = 4"
  by (simp add: put_le32_def)

lemma length_put_be16 [simp]: "length (put_be16 v) = 2"
  by (simp add: put_be16_def)

lemma length_put_be32 [simp]: "length (put_be32 v) = 4"
  by (simp add: put_be32_def)

lemma length_bswap_128 [simp]: "length (bswap_128 s) = 16"
  by (simp add: bswap_128_def)

lemma get_put_le16 [byte_simps, simp]: "get_le16 (put_le16 v @ bs) = v"
  by (auto simp: put_le16_def intro!: bit_word_eqI simp: bit_simps)

lemma get_put_le16_Nil [byte_simps, simp]: "get_le16 (put_le16 v) = v"
  using get_put_le16 [of v "[]"] by simp

lemma put_get_le16 [byte_simps]: "put_le16 (get_le16 [a, b]) = [a, b]"
  using bit_imp_le_length [of a]
  by (force simp: put_le16_def intro!: bit_word_eqI simp: bit_simps)

lemma get_put_le32 [byte_simps, simp]: "get_le32 (put_le32 v @ bs) = v"
proof (rule bit_word_eqI)
  fix n assume "n < LENGTH(32)"
  then consider "n < 8" | "8 \<le> n" "n < 16" | "16 \<le> n" "n < 24" | "24 \<le> n" "n < 32"
    by force
  then show "bit (get_le32 (put_le32 v @ bs)) n \<longleftrightarrow> bit v n"
    by cases (auto simp: put_le32_def bit_simps)
qed

lemma bswap_128_rev [byte_simps]: "length s = 16 \<Longrightarrow> bswap_128 s = rev s"
  by (rule nth_equalityI) (auto simp: bswap_128_def rev_nth)

lemma bswap_128_take: "16 \<le> length s \<Longrightarrow> bswap_128 s = rev (take 16 s)"
  by (rule nth_equalityI) (auto simp: bswap_128_def rev_nth)

lemma bswap_128_invol [byte_simps, simp]: "length s = 16 \<Longrightarrow> bswap_128 (bswap_128 s) = s"
  by (simp add: bswap_128_rev)

lemma buf_write_length [byte_simps]: "buf_write buf off bs = Some buf' \<Longrightarrow> length buf' = length buf"
  by (auto simp: buf_write_def split: if_splits)

lemma buf_write_Some_iff [byte_simps]:
  "(\<exists>buf'. buf_write buf off bs = Some buf') \<longleftrightarrow> off + length bs \<le> length buf"
  by (auto simp: buf_write_def)

lemma buf_write_take:
  "buf_write buf off bs = Some buf' \<Longrightarrow> take (off + length bs) buf' = take off buf @ bs"
  by (auto simp: buf_write_def split: if_splits)

lemma buf_write_nth:
  "buf_write buf off bs = Some buf' \<Longrightarrow> i < length buf \<Longrightarrow>
   buf' ! i = (if off \<le> i \<and> i < off + length bs then bs ! (i - off) else buf ! i)"
  by (auto simp: buf_write_def nth_append split: if_splits)

lemma length_realloc_bytes [simp]: "length (realloc_bytes junk buf n) = n"
  by (simp add: realloc_bytes_def)

lemma nth_realloc_bytes:
  "i < n \<Longrightarrow> realloc_bytes junk buf n ! i = (if i < length buf then buf ! i else junk i)"
  by (auto simp: realloc_bytes_def nth_append)

section \<open>Lemmas on words\<close>

lemma unat_of_nat_less: "n < 2 ^ LENGTH('a) \<Longrightarrow> unat (of_nat n :: 'a::len word) = n"
  by (simp add: unat_of_nat take_bit_nat_eq_self)

lemma unat_u16_less [simp]: "unat (w :: u16) < 65536"
  using unsigned_less [of w] by simp

lemma unat_u8_less [simp]: "unat (w :: u8) < 256"
  using unsigned_less [of w] by simp

lemma unat_u16_le [simp]: "unat (w :: u16) \<le> 65535"
  using unat_u16_less [of w] by linarith

end
