(* ===== verification/Bt_Queue.thy ===== *)
theory Bt_Queue
  imports Bt_Prelude
begin

text \<open>
  The singly linked queue of \<^verbatim>\<open>src/shared/queue.c\<close> on an explicit heap of entries, and its
  refinement of lists.  A \<^verbatim>\<open>void *\<close> datum is an \<open>'a option\<close> with \<open>None\<close> for \<^verbatim>\<open>NULL\<close>.  Every
  operation returns an \<open>option\<close>: \<open>None\<close> is a dereference of a pointer that is not allocated
  (\<^verbatim>\<open>NULL\<close>, freed or never allocated), a double \<^verbatim>\<open>free\<close>, or a traversal that does not end.
  The locale \<open>list_queue\<close> is the interface the clients of the queue rely on; it is
  interpreted on the heap implementation.
\<close>

section \<open>The heap of entries and the queue object\<close>

record 'a queue_entry =
  qe_data :: "'a option"
  qe_next :: ptr

record queue =
  ref_count :: int
  head :: ptr
  tail :: ptr
  entries :: u32

text \<open>A pointer to the queue object: \<^verbatim>\<open>NULL\<close>, an allocated object, or one that was freed.\<close>

datatype qref = Null | Live queue | Freed

text \<open>
  \<open>cells\<close> holds the allocated entries by address; \<open>brk\<close> is the next fresh address (addresses
  are never reused by the model, and address 0 is \<^verbatim>\<open>NULL\<close>).
\<close>

record 'a qmem =
  cells :: "ptr \<Rightarrow> 'a queue_entry option"
  brk :: ptr
  qobj :: qref

definition deref_queue :: "'a qmem \<Rightarrow> queue option" where
  "deref_queue s = (case qobj s of Live q \<Rightarrow> Some q | _ \<Rightarrow> None)"

definition put_queue :: "'a qmem \<Rightarrow> queue \<Rightarrow> 'a qmem" where
  "put_queue s q = s\<lparr>qobj := Live q\<rparr>"

definition set_next :: "'a qmem \<Rightarrow> ptr \<Rightarrow> ptr \<Rightarrow> 'a qmem option" where
  "set_next s p n =
     (case cells s p of None \<Rightarrow> None
      | Some e \<Rightarrow> Some (s\<lparr>cells := (cells s)(p \<mapsto> e\<lparr>qe_next := n\<rparr>)\<rparr>))"

definition free_entry :: "'a qmem \<Rightarrow> ptr \<Rightarrow> 'a qmem option" where
  "free_entry s p =
     (case cells s p of None \<Rightarrow> None
      | Some _ \<Rightarrow> Some (s\<lparr>cells := (cells s)(p := None)\<rparr>))"

section \<open>Operations\<close>

definition queue_ref :: "'a qmem \<Rightarrow> 'a qmem option" where
  "queue_ref s =
     (if qobj s = Null then Some s
      else do { q \<leftarrow> deref_queue s;
                Some (put_queue s (q\<lparr>ref_count := ref_count q + 1\<rparr>)) })"

definition queue_unref :: "'a qmem \<Rightarrow> 'a qmem option" where
  "queue_unref s =
     do { q \<leftarrow> deref_queue s;
          let c = ref_count q - 1;
          if c \<noteq> 0 then Some (put_queue s (q\<lparr>ref_count := c\<rparr>))
          else Some (s\<lparr>qobj := Freed\<rparr>) }"

definition queue_new :: "'a qmem \<Rightarrow> 'a qmem option" where
  "queue_new s = queue_ref (put_queue s \<lparr>ref_count = 0, head = 0, tail = 0, entries = 0\<rparr>)"

definition queue_entry_new :: "'a qmem \<Rightarrow> 'a option \<Rightarrow> ptr \<times> 'a qmem" where
  "queue_entry_new s d =
     (brk s, s\<lparr>cells := (cells s)(brk s \<mapsto> \<lparr>qe_data = d, qe_next = 0\<rparr>), brk := brk s + 1\<rparr>)"

definition queue_push_tail :: "'a qmem \<Rightarrow> 'a option \<Rightarrow> (bool \<times> 'a qmem) option" where
  "queue_push_tail s d =
     (if qobj s = Null then Some (False, s)
      else do { q \<leftarrow> deref_queue s;
                let (e, s1) = queue_entry_new s d;
                s2 \<leftarrow> (if tail q \<noteq> 0 then set_next s1 (tail q) e else Some s1);
                let q1 = q\<lparr>tail := e\<rparr>;
                let q2 = (if head q1 = 0 then q1\<lparr>head := e\<rparr> else q1);
                Some (True, put_queue s2 (q2\<lparr>entries := entries q2 + 1\<rparr>)) })"

definition queue_push_head :: "'a qmem \<Rightarrow> 'a option \<Rightarrow> (bool \<times> 'a qmem) option" where
  "queue_push_head s d =
     (if qobj s = Null then Some (False, s)
      else do { q \<leftarrow> deref_queue s;
                let (e, s1) = queue_entry_new s d;
                s2 \<leftarrow> set_next s1 e (head q);
                let q1 = q\<lparr>head := e\<rparr>;
                let q2 = (if tail q1 = 0 then q1\<lparr>tail := e\<rparr> else q1);
                Some (True, put_queue s2 (q2\<lparr>entries := entries q2 + 1\<rparr>)) })"

text \<open>The \<^verbatim>\<open>for\<close> loop of \<open>queue_push_after\<close>: the first entry that holds \<open>entry\<close>, or 0.\<close>

partial_function (option) push_after_loop :: "'a qmem \<Rightarrow> ptr \<Rightarrow> 'a option \<Rightarrow> ptr option" where
  "push_after_loop s tmp d =
     (if tmp = 0 then Some 0
      else do { e \<leftarrow> cells s tmp;
                if qe_data e = d then Some tmp else push_after_loop s (qe_next e) d })"

definition queue_push_after ::
    "'a qmem \<Rightarrow> 'a option \<Rightarrow> 'a option \<Rightarrow> (bool \<times> 'a qmem) option" where
  "queue_push_after s entry d =
     (if qobj s = Null then Some (False, s)
      else do { q \<leftarrow> deref_queue s;
                qentry \<leftarrow> push_after_loop s (head q) entry;
                if qentry = 0 then Some (False, s)
                else do { let (new_entry, s1) = queue_entry_new s d;
                          qe \<leftarrow> cells s1 qentry;
                          s2 \<leftarrow> set_next s1 new_entry (qe_next qe);
                          let q1 = (if qe_next qe = 0 then q\<lparr>tail := new_entry\<rparr> else q);
                          s3 \<leftarrow> set_next s2 qentry new_entry;
                          Some (True, put_queue s3 (q1\<lparr>entries := entries q1 + 1\<rparr>)) } })"

definition queue_pop_head :: "'a qmem \<Rightarrow> ('a option \<times> 'a qmem) option" where
  "queue_pop_head s =
     (if qobj s = Null then Some (None, s)
      else do { q \<leftarrow> deref_queue s;
                if head q = 0 then Some (None, s)
                else do { e \<leftarrow> cells s (head q);
                          let q1 = (if qe_next e = 0 then q\<lparr>head := 0, tail := 0\<rparr>
                                    else q\<lparr>head := qe_next e\<rparr>);
                          s1 \<leftarrow> free_entry s (head q);
                          Some (qe_data e, put_queue s1 (q1\<lparr>entries := entries q1 - 1\<rparr>)) } })"

definition queue_peek_head :: "'a qmem \<Rightarrow> 'a option option" where
  "queue_peek_head s =
     (if qobj s = Null then Some None
      else do { q \<leftarrow> deref_queue s;
                if head q = 0 then Some None
                else do { e \<leftarrow> cells s (head q); Some (qe_data e) } })"

definition queue_peek_tail :: "'a qmem \<Rightarrow> 'a option option" where
  "queue_peek_tail s =
     (if qobj s = Null then Some None
      else do { q \<leftarrow> deref_queue s;
                if tail q = 0 then Some None
                else do { e \<leftarrow> cells s (tail q); Some (qe_data e) } })"

text \<open>
  \<open>queue_foreach\<close>: the callback may change the queue (and drop the caller's reference to it),
  so it maps the memory, next to its own state \<open>'u\<close>, to a new one.  The next entry is read
  before the callback runs.
\<close>

partial_function (option) foreach_loop ::
    "('a option \<Rightarrow> 'a qmem \<times> 'u \<Rightarrow> ('a qmem \<times> 'u) option) \<Rightarrow> ptr \<Rightarrow> 'a qmem \<times> 'u
       \<Rightarrow> ('a qmem \<times> 'u) option" where
  "foreach_loop f entry su =
     (if entry = 0 then Some su
      else do { q \<leftarrow> deref_queue (fst su);
                if head q = 0 \<or> ref_count q \<le> 1 then Some su
                else do { e \<leftarrow> cells (fst su) entry;
                          su' \<leftarrow> f (qe_data e) su;
                          foreach_loop f (qe_next e) su' } })"

definition queue_foreach ::
    "'a qmem \<Rightarrow> ('a option \<Rightarrow> 'a qmem \<times> 'u \<Rightarrow> ('a qmem \<times> 'u) option) option \<Rightarrow> 'u
       \<Rightarrow> ('a qmem \<times> 'u) option" where
  "queue_foreach s func u =
     (if qobj s = Null then Some (s, u)
      else case func of None \<Rightarrow> Some (s, u)
      | Some f \<Rightarrow>
          do { q \<leftarrow> deref_queue s;
               if head q = 0 then Some (s, u)
               else do { s1 \<leftarrow> queue_ref s;
                         (s2, u2) \<leftarrow> foreach_loop f (head q) (s1, u);
                         s3 \<leftarrow> queue_unref s2;
                         Some (s3, u2) } })"

definition direct_match :: "'a option \<Rightarrow> 'a option \<Rightarrow> bool" where
  "direct_match a b \<longleftrightarrow> a = b"

partial_function (option) find_loop ::
    "'a qmem \<Rightarrow> ('a option \<Rightarrow> bool) \<Rightarrow> ptr \<Rightarrow> 'a option option" where
  "find_loop s f entry =
     (if entry = 0 then Some None
      else do { e \<leftarrow> cells s entry;
                if f (qe_data e) then Some (qe_data e) else find_loop s f (qe_next e) })"

definition queue_find ::
    "'a qmem \<Rightarrow> ('a option \<Rightarrow> 'a option \<Rightarrow> bool) option \<Rightarrow> 'a option \<Rightarrow> 'a option option" where
  "queue_find s func match_data =
     (if qobj s = Null then Some None
      else do { q \<leftarrow> deref_queue s;
                let f = (case func of None \<Rightarrow> direct_match | Some g \<Rightarrow> g);
                find_loop s (\<lambda>d. f d match_data) (head q) })"

text \<open>
  The loops of \<open>queue_remove\<close> and \<open>queue_remove_if\<close> look for the entry to unlink and the one
  before it; the result is that pair, with 0 for no entry.
\<close>

partial_function (option) remove_loop ::
    "'a qmem \<Rightarrow> ('a option \<Rightarrow> bool) \<Rightarrow> ptr \<Rightarrow> ptr \<Rightarrow> (ptr \<times> ptr) option" where
  "remove_loop s f prev entry =
     (if entry = 0 then Some (prev, 0)
      else do { e \<leftarrow> cells s entry;
                if f (qe_data e) then Some (prev, entry)
                else remove_loop s f entry (qe_next e) })"

text \<open>The unlinking both functions do once the entry is found.\<close>

definition unlink_entry ::
    "'a qmem \<Rightarrow> queue \<Rightarrow> ptr \<Rightarrow> ptr \<Rightarrow> ('a option \<times> 'a qmem) option" where
  "unlink_entry s q prev entry =
     do { e \<leftarrow> cells s entry;
          s1 \<leftarrow> (if prev \<noteq> 0 then set_next s prev (qe_next e) else Some s);
          let q1 = (if prev \<noteq> 0 then q else q\<lparr>head := qe_next e\<rparr>);
          let q2 = (if qe_next e = 0 then q1\<lparr>tail := prev\<rparr> else q1);
          s2 \<leftarrow> free_entry s1 entry;
          Some (qe_data e, put_queue s2 (q2\<lparr>entries := entries q2 - 1\<rparr>)) }"

definition queue_remove :: "'a qmem \<Rightarrow> 'a option \<Rightarrow> (bool \<times> 'a qmem) option" where
  "queue_remove s d =
     (if qobj s = Null then Some (False, s)
      else do { q \<leftarrow> deref_queue s;
                (prev, entry) \<leftarrow> remove_loop s (\<lambda>x. x = d) 0 (head q);
                if entry = 0 then Some (False, s)
                else do { (_, s1) \<leftarrow> unlink_entry s q prev entry; Some (True, s1) } })"

definition queue_remove_if ::
    "'a qmem \<Rightarrow> ('a option \<Rightarrow> bool) option \<Rightarrow> ('a option \<times> 'a qmem) option" where
  "queue_remove_if s func =
     (if qobj s = Null then Some (None, s)
      else case func of None \<Rightarrow> Some (None, s)
      | Some f \<Rightarrow>
          do { q \<leftarrow> deref_queue s;
               (prev, entry) \<leftarrow> remove_loop s f 0 (head q);
               if entry = 0 then Some (None, s) else unlink_entry s q prev entry })"

text \<open>
  \<open>queue_remove_all\<close>: with a match function it calls \<open>queue_remove_if\<close> until the number of
  entries stays the same; without one it empties the queue and frees the old entries.  The
  destroy callback, when there is one, works on its own state \<open>'u\<close>.
\<close>

partial_function (option) remove_all_if_loop ::
    "('a option \<Rightarrow> bool) \<Rightarrow> ('a option \<Rightarrow> 'u \<Rightarrow> 'u) \<Rightarrow> 'a qmem \<Rightarrow> u32 \<Rightarrow> 'u
       \<Rightarrow> (u32 \<times> 'a qmem \<times> 'u) option" where
  "remove_all_if_loop f destroy s count u =
     do { q \<leftarrow> deref_queue s;
          (d, s1) \<leftarrow> queue_remove_if s (Some f);
          q1 \<leftarrow> deref_queue s1;
          if entries q = entries q1 then Some (count, s1, u)
          else remove_all_if_loop f destroy s1 (count + 1) (destroy d u) }"

partial_function (option) remove_all_loop ::
    "('a option \<Rightarrow> 'u \<Rightarrow> 'u) \<Rightarrow> 'a qmem \<Rightarrow> ptr \<Rightarrow> u32 \<Rightarrow> 'u \<Rightarrow> (u32 \<times> 'a qmem \<times> 'u) option" where
  "remove_all_loop destroy s entry count u =
     (if entry = 0 then Some (count, s, u)
      else do { e \<leftarrow> cells s entry;
                let u1 = destroy (qe_data e) u;
                s1 \<leftarrow> free_entry s entry;
                remove_all_loop destroy s1 (qe_next e) (count + 1) u1 })"

definition queue_remove_all ::
    "'a qmem \<Rightarrow> ('a option \<Rightarrow> bool) option \<Rightarrow> ('a option \<Rightarrow> 'u \<Rightarrow> 'u) option \<Rightarrow> 'u
       \<Rightarrow> (u32 \<times> 'a qmem \<times> 'u) option" where
  "queue_remove_all s func destroy u =
     (if qobj s = Null then Some (0, s, u)
      else do { q \<leftarrow> deref_queue s;
                let d = (case destroy of None \<Rightarrow> (\<lambda>_ v. v) | Some g \<Rightarrow> g);
                case func of
                  Some f \<Rightarrow> (if head q = 0 then Some (0, s, u)
                             else remove_all_if_loop f d s 0 u)
                | None \<Rightarrow> remove_all_loop d (put_queue s (q\<lparr>head := 0, tail := 0, entries := 0\<rparr>))
                            (head q) 0 u })"

definition queue_destroy ::
    "'a qmem \<Rightarrow> ('a option \<Rightarrow> 'u \<Rightarrow> 'u) option \<Rightarrow> 'u \<Rightarrow> ('a qmem \<times> 'u) option" where
  "queue_destroy s destroy u =
     (if qobj s = Null then Some (s, u)
      else do { (_, s1, u1) \<leftarrow> queue_remove_all s None destroy u;
                s2 \<leftarrow> queue_unref s1;
                Some (s2, u1) })"

definition queue_get_entries :: "'a qmem \<Rightarrow> ptr option" where
  "queue_get_entries s =
     (if qobj s = Null then Some 0 else do { q \<leftarrow> deref_queue s; Some (head q) })"

definition queue_length :: "'a qmem \<Rightarrow> u32 option" where
  "queue_length s =
     (if qobj s = Null then Some 0 else do { q \<leftarrow> deref_queue s; Some (entries q) })"

definition queue_isempty :: "'a qmem \<Rightarrow> bool option" where
  "queue_isempty s =
     (if qobj s = Null then Some True else do { q \<leftarrow> deref_queue s; Some (entries q = 0) })"


section \<open>Linked segments\<close>

text \<open>
  \<open>lseg h p as r\<close>: following \<open>qe_next\<close> from \<open>p\<close> visits the entries \<open>as\<close> (address and datum) and
  arrives at \<open>r\<close>.
\<close>

fun lseg ::
    "(ptr \<Rightarrow> 'a queue_entry option) \<Rightarrow> ptr \<Rightarrow> (ptr \<times> 'a option) list \<Rightarrow> ptr \<Rightarrow> bool" where
  "lseg h p [] r \<longleftrightarrow> p = r"
| "lseg h p (x # as) r \<longleftrightarrow>
     p = fst x \<and> p \<noteq> 0 \<and>
     (\<exists>n. h p = Some \<lparr>qe_data = snd x, qe_next = n\<rparr> \<and> lseg h n as r)"

lemma lseg_append [simp]:
  "lseg h p (xs @ ys) r \<longleftrightarrow> (\<exists>m. lseg h p xs m \<and> lseg h m ys r)"
  by (induction xs arbitrary: p) auto

lemma lseg_upd [simp]: "a \<notin> fst ` set as \<Longrightarrow> lseg (h(a := v)) p as r = lseg h p as r"
  by (induction as arbitrary: p) auto

lemma lseg_alloc: "lseg h p as r \<Longrightarrow> a \<in> fst ` set as \<Longrightarrow> h a \<noteq> None \<and> a \<noteq> 0"
  by (induction as arbitrary: p) auto

lemma lseg_null [simp]: "lseg h 0 as r \<longleftrightarrow> as = [] \<and> r = 0"
  by (cases as) auto

lemma lseg_head: "lseg h p as 0 \<Longrightarrow> p = (if as = [] then 0 else fst (hd as))"
  by (cases as) auto

definition queue_shape ::
    "(ptr \<Rightarrow> 'a queue_entry option) \<Rightarrow> ptr \<Rightarrow> (ptr \<times> 'a option) list \<Rightarrow> queue \<Rightarrow> bool" where
  "queue_shape h b as q \<longleftrightarrow>
     lseg h (head q) as 0 \<and> distinct (map fst as) \<and>
     tail q = (if as = [] then 0 else fst (last as)) \<and>
     entries q = of_nat (length as) \<and>
     dom h = fst ` set as \<and> (\<forall>p \<in> fst ` set as. p < b) \<and> 0 < b"

text \<open>
  The heap holds the entries of the queue and nothing else (so no entry leaks), all below the
  fresh address.  The abstraction: the queue holds the data \<open>xs\<close>, in order, and \<open>n\<close> references.
\<close>

definition queue_rep :: "'a qmem \<Rightarrow> int \<Rightarrow> 'a option list \<Rightarrow> bool" where
  "queue_rep s n xs \<longleftrightarrow>
     (\<exists>q as. qobj s = Live q \<and> queue_shape (cells s) (brk s) as q \<and> map snd as = xs \<and>
             ref_count q = n)"

lemma queue_repI:
  "queue_shape (cells s) (brk s) as q \<Longrightarrow> qobj s = Live q \<Longrightarrow> ref_count q = n \<Longrightarrow>
   map snd as = xs \<Longrightarrow> queue_rep s n xs"
  by (auto simp: queue_rep_def)

lemma queue_repE:
  assumes "queue_rep s n xs"
  obtains q as where "qobj s = Live q" "deref_queue s = Some q" "ref_count q = n"
    "queue_shape (cells s) (brk s) as q" "xs = map snd as"
  using assms by (auto simp: queue_rep_def deref_queue_def)

lemma put_queue_simps [simp]:
  "qobj (put_queue s q) = Live q" "cells (put_queue s q) = cells s" "brk (put_queue s q) = brk s"
  "deref_queue (put_queue s q) = Some q"
  by (simp_all add: put_queue_def deref_queue_def)

lemma queue_shape_fresh: "queue_shape h b as q \<Longrightarrow> b \<notin> fst ` set as"
  unfolding queue_shape_def using lseg_alloc by fast

lemma queue_shape_empty_iff:
  assumes "queue_shape h b as q"
  shows "head q = 0 \<longleftrightarrow> as = []" and "tail q = 0 \<longleftrightarrow> as = []"
proof -
  show "head q = 0 \<longleftrightarrow> as = []" using assms by (cases as) (auto simp: queue_shape_def)
  show "tail q = 0 \<longleftrightarrow> as = []"
    using assms by (cases as rule: rev_cases) (auto simp: queue_shape_def)
qed

text \<open>Allocating an entry at the fresh address keeps the segments; linking it at either end.\<close>

lemma queue_shape_snoc:
  assumes "queue_shape h b as q" "as = bs @ [x]" "e = \<lparr>qe_data = d, qe_next = 0\<rparr>"
  shows "queue_shape (h(b \<mapsto> e, fst x \<mapsto> \<lparr>qe_data = snd x, qe_next = b\<rparr>)) (Suc b) (as @ [(b, d)])
           (q\<lparr>tail := b, entries := entries q + 1\<rparr>)"
  using assms queue_shape_fresh [OF assms(1)]
  by (auto simp: queue_shape_def less_Suc_eq)

lemma queue_shape_Cons:
  assumes "queue_shape h b as q"
  shows "queue_shape (h(b \<mapsto> \<lparr>qe_data = d, qe_next = head q\<rparr>)) (Suc b) ((b, d) # as)
           (q\<lparr>head := b, tail := (if as = [] then b else tail q), entries := entries q + 1\<rparr>)"
  using assms queue_shape_fresh [OF assms(1)]
  by (auto simp: queue_shape_def less_Suc_eq)

section \<open>The operations refine the list operations\<close>

lemma queue_new_rep:
  assumes "cells s = Map.empty" "0 < brk s"
  shows "\<exists>s'. queue_new s = Some s' \<and> queue_rep s' 1 []"
  using assms
  by (auto simp: queue_new_def queue_ref_def queue_shape_def
      intro!: queue_repI [of _ "[]" "\<lparr>ref_count = 1, head = 0, tail = 0, entries = 0\<rparr>"])

lemma push_tail_rep:
  assumes "queue_rep s n xs"
  shows "\<exists>s'. queue_push_tail s d = Some (True, s') \<and> queue_rep s' n (xs @ [d])"
proof -
  from assms obtain q as where q: "qobj s = Live q" "deref_queue s = Some q" "ref_count q = n"
    and sh: "queue_shape (cells s) (brk s) as q" and xs: "xs = map snd as" by (rule queue_repE)
  show ?thesis
  proof (cases as rule: rev_cases)
    case Nil
    with q xs queue_shape_Cons [OF sh, of d] queue_shape_empty_iff [OF sh] show ?thesis
      by (auto simp: queue_push_tail_def queue_entry_new_def Let_def intro!: queue_repI)
  next
    case (snoc bs b)
    with sh have b: "cells s (fst b) = Some \<lparr>qe_data = snd b, qe_next = 0\<rparr>" "tail q = fst b"
      "fst b \<noteq> brk s" by (auto simp: queue_shape_def)
    from q xs b queue_shape_snoc [OF sh snoc refl, of d] queue_shape_empty_iff [OF sh] snoc
    show ?thesis
      by (auto simp: queue_push_tail_def queue_entry_new_def set_next_def Let_def intro!: queue_repI)
  qed
qed

lemma push_head_rep:
  assumes "queue_rep s n xs"
  shows "\<exists>s'. queue_push_head s d = Some (True, s') \<and> queue_rep s' n (d # xs)"
proof -
  from assms obtain q as where q: "qobj s = Live q" "deref_queue s = Some q" "ref_count q = n"
    and sh: "queue_shape (cells s) (brk s) as q" and xs: "xs = map snd as" by (rule queue_repE)
  from q xs queue_shape_Cons [OF sh, of d] queue_shape_empty_iff [OF sh] show ?thesis
    by (auto simp: queue_push_head_def queue_entry_new_def set_next_def Let_def intro!: queue_repI)
qed

text \<open>The traversals: on a segment that ends in \<^verbatim>\<open>NULL\<close> they terminate and search the list.\<close>

lemma push_after_loop_miss:
  "lseg (cells s) p as 0 \<Longrightarrow> d \<notin> snd ` set as \<Longrightarrow> push_after_loop s p d = Some 0"
  by (induction as arbitrary: p) (auto simp: push_after_loop.simps [of s _ d])

lemma push_after_loop_hit:
  "lseg (cells s) p (xs @ x # ys) 0 \<Longrightarrow> snd x \<notin> snd ` set xs \<Longrightarrow>
   push_after_loop s p (snd x) = Some (fst x)"
  by (induction xs arbitrary: p) (auto simp: push_after_loop.simps [of s _ "snd x"])

lemma find_loop_eq:
  "lseg (cells s) p as 0 \<Longrightarrow>
   find_loop s f p = Some (case find f (map snd as) of None \<Rightarrow> None | Some d \<Rightarrow> d)"
  by (induction as arbitrary: p) (auto simp: find_loop.simps [of s f])

lemma remove_loop_miss:
  "lseg (cells s) p as 0 \<Longrightarrow> \<forall>x \<in> set as. \<not> f (snd x) \<Longrightarrow>
   \<exists>prev'. remove_loop s f prev p = Some (prev', 0)"
  by (induction as arbitrary: p prev) (auto simp: remove_loop.simps [of s f])

lemma remove_loop_hit:
  "lseg (cells s) p (xs @ x # ys) 0 \<Longrightarrow> \<forall>y \<in> set xs. \<not> f (snd y) \<Longrightarrow> f (snd x) \<Longrightarrow>
   remove_loop s f prev p = Some (if xs = [] then prev else fst (last xs), fst x)"
  by (induction xs arbitrary: p prev) (auto simp: remove_loop.simps [of s f])

section \<open>List-level operations\<close>

text \<open>What the operations do to the list of data: the vocabulary of the queue's clients.\<close>

primrec insert_after :: "'d \<Rightarrow> 'd \<Rightarrow> 'd list \<Rightarrow> 'd list" where
  "insert_after y x [] = []"
| "insert_after y x (z # zs) = (if z = y then z # x # zs else z # insert_after y x zs)"

primrec remove_first :: "('d \<Rightarrow> bool) \<Rightarrow> 'd list \<Rightarrow> 'd list" where
  "remove_first f [] = []"
| "remove_first f (z # zs) = (if f z then zs else z # remove_first f zs)"

lemma insert_after_hit:
  "y \<notin> set xs \<Longrightarrow> insert_after y x (xs @ y # ys) = xs @ y # x # ys"
  by (induction xs) auto

lemma remove_first_hit:
  "\<forall>z \<in> set xs. \<not> f z \<Longrightarrow> f x \<Longrightarrow> remove_first f (xs @ x # ys) = xs @ ys"
  by (induction xs) auto

lemma remove_first_miss: "\<forall>z \<in> set xs. \<not> f z \<Longrightarrow> remove_first f xs = xs"
  by (induction xs) auto

lemma find_hit: "\<forall>z \<in> set xs. \<not> f z \<Longrightarrow> f x \<Longrightarrow> find f (xs @ x # ys) = Some x"
  by (induction xs) auto

lemma find_miss: "\<forall>z \<in> set xs. \<not> f z \<Longrightarrow> find f xs = None"
  by (induction xs) auto

lemma remove_first_eq_remove1: "remove_first (\<lambda>z. z = x) xs = remove1 x xs"
  by (induction xs) auto

lemma set_remove_first: "set (remove_first f xs) \<subseteq> set xs"
  by (induction xs) auto

lemma map_remove_first: "map g (remove_first (\<lambda>x. f (g x)) xs) = remove_first f (map g xs)"
  by (induction xs) auto

text \<open>Every list either has no match or splits at the first one.\<close>

lemma first_match_cases:
  obtains (miss) "\<forall>z \<in> set xs. \<not> f z"
  | (hit) ys x zs where "xs = ys @ x # zs" "\<forall>z \<in> set ys. \<not> f z" "f x"
  using split_list_first_prop [of xs f] by blast

section \<open>Unlinking and inserting in the middle\<close>

lemma queue_shape_push_after:
  assumes "queue_shape h b (xs @ x # ys) q"
  shows "\<exists>n. h (fst x) = Some \<lparr>qe_data = snd x, qe_next = n\<rparr> \<and> (n = 0 \<longleftrightarrow> ys = []) \<and> fst x \<noteq> b \<and>
     queue_shape (h(b \<mapsto> \<lparr>qe_data = d, qe_next = n\<rparr>, fst x \<mapsto> \<lparr>qe_data = snd x, qe_next = b\<rparr>))
       (Suc b) (xs @ x # (b, d) # ys)
       (q\<lparr>tail := (if ys = [] then b else tail q), entries := entries q + 1\<rparr>)"
proof -
  from assms obtain n where n: "h (fst x) = Some \<lparr>qe_data = snd x, qe_next = n\<rparr>" "lseg h n ys 0"
    by (auto simp: queue_shape_def)
  then have "n = 0 \<longleftrightarrow> ys = []" by (cases ys) auto
  with n assms queue_shape_fresh [OF assms] show ?thesis
    by (intro exI [of _ n]) (auto simp: queue_shape_def less_Suc_eq image_Un)
qed

lemma push_after_rep:
  assumes "queue_rep s n xs"
  shows "\<exists>s'. queue_push_after s e d = Some (e \<in> set xs, s') \<and> queue_rep s' n (insert_after e d xs)"
proof -
  from assms obtain q as where q: "qobj s = Live q" "deref_queue s = Some q" "ref_count q = n"
    and sh: "queue_shape (cells s) (brk s) as q" and xs: "xs = map snd as" by (rule queue_repE)
  from sh have ls: "lseg (cells s) (head q) as 0" by (simp add: queue_shape_def)
  show ?thesis
  proof (cases rule: first_match_cases [of as "\<lambda>x. snd x = e"])
    case miss
    then have "e \<notin> set xs" "insert_after e d xs = xs" unfolding xs by (auto, induction as) auto
    moreover have "push_after_loop s (head q) e = Some 0"
      by (rule push_after_loop_miss [OF ls]) (use miss in auto)
    ultimately show ?thesis using q assms by (simp add: queue_push_after_def)
  next
    case (hit ys x zs)
    have "snd x \<notin> snd ` set ys" using hit by force
    then have "push_after_loop s (head q) e = Some (fst x)"
      using push_after_loop_hit [of s "head q" ys x zs] ls hit by simp
    moreover have "fst x \<noteq> 0" using ls hit by auto
    moreover have "insert_after e d xs = map snd (ys @ x # (brk s, d) # zs)"
      using hit insert_after_hit [of e "map snd ys" d "map snd zs"] \<open>snd x \<notin> snd ` set ys\<close>
      by (auto simp: xs)
    moreover note queue_shape_push_after [OF sh [unfolded hit(1)], of d]
    moreover have "e \<in> set xs" using hit by (auto simp: xs)
    ultimately show ?thesis using q
      by (auto simp: queue_push_after_def queue_entry_new_def set_next_def Let_def fun_upd_twist
          intro!: queue_repI)
  qed
qed

lemma queue_shape_unlink_hd:
  assumes "queue_shape h b (x # ys) q"
  shows "\<exists>n. h (fst x) = Some \<lparr>qe_data = snd x, qe_next = n\<rparr> \<and> (n = 0 \<longleftrightarrow> ys = []) \<and>
     queue_shape (h(fst x := None)) b ys
        (q\<lparr>head := n, tail := (if ys = [] then 0 else tail q), entries := entries q - 1\<rparr>)"
proof -
  from assms obtain n where n: "h (fst x) = Some \<lparr>qe_data = snd x, qe_next = n\<rparr>" "lseg h n ys 0"
    by (auto simp: queue_shape_def)
  then have "n = 0 \<longleftrightarrow> ys = []" by (cases ys) auto
  with n assms show ?thesis
    by (intro exI [of _ n]) (auto simp: queue_shape_def)
qed

lemma queue_shape_unlink:
  assumes "queue_shape h b (zs @ z # x # ys) q"
  shows "\<exists>n e. h (fst x) = Some \<lparr>qe_data = snd x, qe_next = n\<rparr> \<and> (n = 0 \<longleftrightarrow> ys = []) \<and>
     h (fst z) = Some e \<and> fst z \<noteq> fst x \<and> fst z \<noteq> 0 \<and>
     queue_shape (h(fst z \<mapsto> e\<lparr>qe_next := n\<rparr>, fst x := None)) b (zs @ z # ys)
        (q\<lparr>tail := (if ys = [] then fst z else tail q), entries := entries q - 1\<rparr>)"
proof -
  from assms obtain n where n: "h (fst x) = Some \<lparr>qe_data = snd x, qe_next = n\<rparr>" "lseg h n ys 0"
    by (auto simp: queue_shape_def)
  then have n0: "n = 0 \<longleftrightarrow> ys = []" by (cases ys) auto
  from assms have z: "h (fst z) = Some \<lparr>qe_data = snd z, qe_next = fst x\<rparr>" "fst z \<noteq> 0"
    "fst z \<noteq> fst x" and d: "dom h = fst ` set (zs @ z # x # ys)"
    by (auto simp: queue_shape_def)
  let ?h = "h(fst z \<mapsto> \<lparr>qe_data = snd z, qe_next = n\<rparr>, fst x := None)"
  have dist: "fst z \<notin> fst ` set zs" "fst x \<notin> fst ` set zs" "fst z \<notin> fst ` set ys"
    "fst x \<notin> fst ` set ys" using assms by (auto simp: queue_shape_def)
  have "lseg ?h (head q) (zs @ z # ys) 0"
    using assms n z dist by (auto simp: queue_shape_def)
  moreover have "dom ?h = insert (fst z) (dom h) - {fst x}" by simp
  then have "dom ?h = fst ` set (zs @ z # ys)" unfolding d using z(3) dist
    by (simp add: image_Un insert_Diff_if)
  ultimately have "queue_shape ?h b (zs @ z # ys)
      (q\<lparr>tail := (if ys = [] then fst z else tail q), entries := entries q - 1\<rparr>)"
    using assms by (auto simp: queue_shape_def)
  with n n0 z show ?thesis by auto
qed

lemma unlink_rep:
  assumes "queue_shape (cells s) (brk s) (xs @ x # ys) q" "qobj s = Live q"
  shows "\<exists>s'. unlink_entry s q (if xs = [] then 0 else fst (last xs)) (fst x) = Some (snd x, s') \<and>
             queue_rep s' (ref_count q) (map snd (xs @ ys))"
proof (cases xs rule: rev_cases)
  case Nil
  with assms queue_shape_unlink_hd [of "cells s" "brk s" x ys q] show ?thesis
    by (auto simp: unlink_entry_def free_entry_def Let_def intro!: queue_repI)
next
  case (snoc zs z)
  with assms queue_shape_unlink [of "cells s" "brk s" zs z x ys q] show ?thesis
    by (auto simp: unlink_entry_def set_next_def free_entry_def Let_def intro!: queue_repI)
qed

lemma pop_head_rep:
  assumes "queue_rep s n xs"
  shows "\<exists>s'. queue_pop_head s = Some (if xs = [] then None else hd xs, s') \<and> queue_rep s' n (tl xs)"
proof -
  from assms obtain q as where q: "qobj s = Live q" "deref_queue s = Some q" "ref_count q = n"
    and sh: "queue_shape (cells s) (brk s) as q" and xs: "xs = map snd as" by (rule queue_repE)
  show ?thesis
  proof (cases as)
    case Nil
    then show ?thesis using q xs assms queue_shape_empty_iff [OF sh] by (simp add: queue_pop_head_def)
  next
    case (Cons x ys)
    then have hd: "head q = fst x" "fst x \<noteq> 0" using sh by (auto simp: queue_shape_def)
    from queue_shape_unlink_hd [of "cells s" "brk s" x ys q] sh Cons q xs hd show ?thesis
      by (auto simp: queue_pop_head_def free_entry_def Let_def intro!: queue_repI)
  qed
qed

lemma peek_rep:
  assumes "queue_rep s n xs"
  shows "queue_peek_head s = Some (if xs = [] then None else hd xs)"
    and "queue_peek_tail s = Some (if xs = [] then None else last xs)"
proof -
  from assms obtain q as where q: "qobj s = Live q" "deref_queue s = Some q" "ref_count q = n"
    and sh: "queue_shape (cells s) (brk s) as q" and xs: "xs = map snd as" by (rule queue_repE)
  show "queue_peek_head s = Some (if xs = [] then None else hd xs)"
    using q sh xs by (cases as) (auto simp: queue_peek_head_def queue_shape_def)
  show "queue_peek_tail s = Some (if xs = [] then None else last xs)"
    using q sh xs by (cases as rule: rev_cases) (auto simp: queue_peek_tail_def queue_shape_def)
qed

lemma find_rep:
  assumes "queue_rep s n xs"
  shows "queue_find s (Some g) m = Some (case find (\<lambda>d. g d m) xs of None \<Rightarrow> None | Some d \<Rightarrow> d)"
    and "queue_find s None m = Some (if m \<in> set xs then m else None)"
proof -
  from assms obtain q as where q: "qobj s = Live q" "deref_queue s = Some q" "ref_count q = n"
    and sh: "queue_shape (cells s) (brk s) as q" and xs: "xs = map snd as" by (rule queue_repE)
  from sh have ls: "lseg (cells s) (head q) as 0" by (simp add: queue_shape_def)
  show "queue_find s (Some g) m = Some (case find (\<lambda>d. g d m) xs of None \<Rightarrow> None | Some d \<Rightarrow> d)"
    using q by (simp add: queue_find_def find_loop_eq [OF ls] xs)
  have "find (\<lambda>d. d = m) xs = (if m \<in> set xs then Some m else None)"
    by (induction xs) auto
  then show "queue_find s None m = Some (if m \<in> set xs then m else None)"
    using q by (simp add: queue_find_def direct_match_def find_loop_eq [OF ls] xs)
qed

lemma remove_if_rep:
  assumes "queue_rep s n xs"
  shows "\<exists>s'. queue_remove_if s (Some f) =
               Some (case find f xs of None \<Rightarrow> None | Some d \<Rightarrow> d, s') \<and>
             queue_rep s' n (remove_first f xs) \<and> ((\<forall>d \<in> set xs. \<not> f d) \<longrightarrow> s' = s)"
proof -
  from assms obtain q as where q: "qobj s = Live q" "deref_queue s = Some q" "ref_count q = n"
    and sh: "queue_shape (cells s) (brk s) as q" and xs: "xs = map snd as" by (rule queue_repE)
  from sh have ls: "lseg (cells s) (head q) as 0" by (simp add: queue_shape_def)
  show ?thesis
  proof (cases rule: first_match_cases [of as "\<lambda>x. f (snd x)"])
    case miss
    then have m: "\<forall>d \<in> set xs. \<not> f d" by (simp add: xs)
    with remove_loop_miss [OF ls miss, of 0] q assms show ?thesis
      by (auto simp: queue_remove_if_def find_miss [OF m] remove_first_miss [OF m])
  next
    case (hit ys x zs)
    have m: "\<forall>d \<in> set (map snd ys). \<not> f d" using hit by simp
    have "fst x \<noteq> 0" using ls hit by auto
    moreover have "remove_loop s f 0 (head q) = Some (if ys = [] then 0 else fst (last ys), fst x)"
      using remove_loop_hit [of s "head q" ys x zs f 0] ls hit by auto
    ultimately show ?thesis
      using unlink_rep [OF sh [unfolded hit(1)] q(1)] q hit
        find_hit [OF m hit(3), of "map snd zs"] remove_first_hit [OF m hit(3), of "map snd zs"]
      by (auto simp: queue_remove_if_def xs)
  qed
qed

lemma remove_rep:
  assumes "queue_rep s n xs"
  shows "\<exists>s'. queue_remove s d = Some (d \<in> set xs, s') \<and> queue_rep s' n (remove1 d xs)"
proof -
  from assms obtain q as where q: "qobj s = Live q" "deref_queue s = Some q" "ref_count q = n"
    and sh: "queue_shape (cells s) (brk s) as q" and xs: "xs = map snd as" by (rule queue_repE)
  from sh have ls: "lseg (cells s) (head q) as 0" by (simp add: queue_shape_def)
  show ?thesis
  proof (cases rule: first_match_cases [of as "\<lambda>x. snd x = d"])
    case miss
    then have "d \<notin> set xs" by (auto simp: xs)
    with remove_loop_miss [OF ls, of "\<lambda>x. x = d" 0] miss q assms show ?thesis
      by (auto simp: queue_remove_def remove1_idem)
  next
    case (hit ys x zs)
    have "fst x \<noteq> 0" using ls hit by auto
    moreover have "remove_loop s (\<lambda>x. x = d) 0 (head q) =
        Some (if ys = [] then 0 else fst (last ys), fst x)"
      using remove_loop_hit [of s "head q" ys x zs "\<lambda>x. x = d" 0] ls hit by auto
    moreover have "remove1 d xs = map snd (ys @ zs)"
      using hit by (auto simp: xs remove1_append)
    ultimately show ?thesis
      using unlink_rep [OF sh [unfolded hit(1)] q(1)] q hit by (auto simp: queue_remove_def xs)
  qed
qed

lemma rep_entries:
  "queue_rep s n xs \<Longrightarrow> \<exists>q. deref_queue s = Some q \<and> entries q = of_nat (length xs) \<and>
     qobj s = Live q \<and> ref_count q = n \<and> (head q = 0 \<longleftrightarrow> xs = [])"
  using queue_shape_empty_iff by (auto simp: queue_rep_def queue_shape_def deref_queue_def)

lemma filter_remove_first:
  "filter (\<lambda>x. \<not> f x) (remove_first f xs) = filter (\<lambda>x. \<not> f x) xs"
  "find f xs = Some x \<Longrightarrow> filter f xs = x # filter f (remove_first f xs)"
  "find f xs = Some x \<Longrightarrow> length xs = Suc (length (remove_first f xs))"
  by (induction xs) (auto split: if_splits)

lemma remove_all_if_rep:
  assumes "queue_rep s n xs"
  shows "\<exists>s'. remove_all_if_loop f g s c u =
               Some (c + of_nat (length (filter f xs)), s', fold g (filter f xs) u) \<and>
             queue_rep s' n (filter (\<lambda>x. \<not> f x) xs)"
  using assms
proof (induction "length (filter f xs)" arbitrary: s xs c u)
  case 0
  then have m: "\<forall>x \<in> set xs. \<not> f x" by (simp add: filter_empty_conv)
  from remove_if_rep [OF "0.prems", of f] m rep_entries [OF "0.prems"] "0.prems" find_miss [OF m]
  show ?case by (subst remove_all_if_loop.simps) (auto simp: filter_True)
next
  case (Suc k)
  then have "\<not> (\<forall>x \<in> set xs. \<not> f x)" by (metis filter_False list.size(3) nat.distinct(1))
  then obtain x where x: "find f xs = Some x" by (cases "find f xs") (auto simp: find_None_iff)
  from remove_if_rep [OF Suc.prems, of f] x obtain s1 where
    s1: "queue_remove_if s (Some f) = Some (x, s1)" "queue_rep s1 n (remove_first f xs)" by auto
  note flt = filter_remove_first(2,3) [OF x]
  from flt Suc.hyps(2) have "k = length (filter f (remove_first f xs))" by simp
  from Suc.hyps(1) [OF this s1(2), of "c + 1" "g x u"] obtain s2 where
    "remove_all_if_loop f g s1 (c + 1) (g x u) =
       Some (c + of_nat (length (filter f xs)), s2, fold g (filter f xs) u)"
    "queue_rep s2 n (filter (\<lambda>x. \<not> f x) xs)"
    by (auto simp: flt filter_remove_first(1) algebra_simps)
  then show ?case using s1 rep_entries [OF Suc.prems] rep_entries [OF s1(2)] flt
    by (subst remove_all_if_loop.simps) auto
qed

lemma remove_all_loop_lseg:
  assumes "lseg (cells s) p as 0" "distinct (map fst as)"
  shows "\<exists>s'. remove_all_loop g s p c u =
               Some (c + of_nat (length as), s', fold g (map snd as) u) \<and>
             qobj s' = qobj s \<and> brk s' = brk s \<and>
             (\<forall>a. cells s' a = (if a \<in> fst ` set as then None else cells s a))"
  using assms
proof (induction as arbitrary: s p c u)
  case Nil
  then show ?case by (subst remove_all_loop.simps) simp
next
  case (Cons x as)
  then obtain m where m: "cells s p = Some \<lparr>qe_data = snd x, qe_next = m\<rparr>" "p = fst x" "p \<noteq> 0"
    "lseg (cells s) m as 0" by auto
  let ?s = "s\<lparr>cells := (cells s)(p := None)\<rparr>"
  have "lseg (cells ?s) m as 0" "distinct (map fst as)" using m Cons.prems by auto
  from Cons.IH [OF this, of "c + 1" "g (snd x) u"] m Cons.prems show ?case
    by (subst remove_all_loop.simps) (auto simp: free_entry_def Let_def algebra_simps)
qed

lemma remove_all_rep:
  assumes "queue_rep s n xs"
    and g_def: "g = (case destroy of None \<Rightarrow> (\<lambda>_ v. v) | Some h \<Rightarrow> h)"
  shows "\<exists>s'. queue_remove_all s None destroy u = Some (of_nat (length xs), s', fold g xs u) \<and>
              queue_rep s' n []"
    and "\<exists>s'. queue_remove_all s (Some f) destroy u =
                 Some (of_nat (length (filter f xs)), s', fold g (filter f xs) u) \<and>
              queue_rep s' n (filter (\<lambda>x. \<not> f x) xs)"
proof -
  from assms(1) obtain q as where q: "qobj s = Live q" "deref_queue s = Some q" "ref_count q = n"
    and sh: "queue_shape (cells s) (brk s) as q" and xs: "xs = map snd as" by (rule queue_repE)
  let ?s = "put_queue s (q\<lparr>head := 0, tail := 0, entries := 0\<rparr>)"
  have "lseg (cells ?s) (head q) as 0" "distinct (map fst as)" using sh by (auto simp: queue_shape_def)
  from remove_all_loop_lseg [OF this, of g 0 u] obtain s1 where
    s1: "remove_all_loop g ?s (head q) 0 u = Some (of_nat (length as), s1, fold g (map snd as) u)"
      "qobj s1 = Live (q\<lparr>head := 0, tail := 0, entries := 0\<rparr>)" "brk s1 = brk s"
      "\<forall>a. cells s1 a = (if a \<in> fst ` set as then None else cells s a)" by auto
  have "cells s1 = Map.empty" using s1(4) sh by (auto simp: queue_shape_def fun_eq_iff dom_def)
  then have "queue_rep s1 n []" using s1(2,3) sh q
    by (intro queue_repI [of _ "[]" "q\<lparr>head := 0, tail := 0, entries := 0\<rparr>"])
       (auto simp: queue_shape_def)
  with s1(1) q xs
  show "\<exists>s'. queue_remove_all s None destroy u = Some (of_nat (length xs), s', fold g xs u) \<and>
              queue_rep s' n []"
    by (simp add: queue_remove_all_def Let_def g_def)
 from remove_all_if_rep [OF assms(1), of f g 0 u] q xs assms(1) queue_shape_empty_iff [OF sh]
  show "\<exists>s'. queue_remove_all s (Some f) destroy u =
                 Some (of_nat (length (filter f xs)), s', fold g (filter f xs) u) \<and>
              queue_rep s' n (filter (\<lambda>x. \<not> f x) xs)"
    by (auto simp: queue_remove_all_def Let_def g_def)
qed

lemma length_rep:
  assumes "queue_rep s n xs"
  shows "queue_length s = Some (of_nat (length xs))"
    and "queue_isempty s = Some ((of_nat (length xs) :: u32) = 0)"
  using rep_entries [OF assms] by (auto simp: queue_length_def queue_isempty_def)

lemma rep_Nil_cells: "queue_rep s n [] \<Longrightarrow> cells s = Map.empty"
  by (auto simp: queue_rep_def queue_shape_def)

lemma destroy_rep:
  assumes "queue_rep s 1 xs"
  shows "\<exists>s'. queue_destroy s (Some g) u = Some (s', fold g xs u) \<and> qobj s' = Freed \<and>
             cells s' = Map.empty"
proof -
  from remove_all_rep(1) [OF assms, of g "Some g" u] obtain s1 where
    s1: "queue_remove_all s None (Some g) u = Some (of_nat (length xs), s1, fold g xs u)"
      "queue_rep s1 1 []" by auto
  with rep_entries [OF assms] rep_entries [OF s1(2)] rep_Nil_cells [OF s1(2)] show ?thesis
    by (auto simp: queue_destroy_def queue_unref_def)
qed

lemmas queue_refinement [refine_intros] =
  push_tail_rep push_head_rep push_after_rep pop_head_rep remove_rep remove_if_rep

text \<open>
  \<open>queue_foreach\<close> with a callback that leaves the queue alone folds the callback over the data,
  in order.
\<close>

lemma foreach_loop_fold:
  assumes "lseg (cells s) p as 0" "deref_queue s = Some q" "head q \<noteq> 0" "1 < ref_count q"
  shows "foreach_loop (\<lambda>d (s, u). Some (s, g d u)) p (s, u) = Some (s, fold g (map snd as) u)"
  using assms
proof (induction as arbitrary: p u)
  case Nil
  then show ?case by (subst foreach_loop.simps) simp
next
  case (Cons x as)
  then show ?case by (subst foreach_loop.simps) auto
qed

lemma foreach_rep:
  assumes "queue_rep s n xs" "0 < n"
  shows "queue_foreach s (Some (\<lambda>d (s, u). Some (s, g d u))) u = Some (s, fold g xs u)"
proof -
  from assms obtain q as where q: "qobj s = Live q" "deref_queue s = Some q" "ref_count q = n"
    and sh: "queue_shape (cells s) (brk s) as q" and xs: "xs = map snd as" by (auto elim: queue_repE)
  let ?s = "put_queue s (q\<lparr>ref_count := ref_count q + 1\<rparr>)"
  have restore: "put_queue ?s q = s" using q by (simp add: put_queue_def)
  from sh have "lseg (cells ?s) (head q) as 0" by (simp add: queue_shape_def)
  note foreach_loop_fold [OF this, of "q\<lparr>ref_count := ref_count q + 1\<rparr>" g u]
  then show ?thesis
    using q assms(2) xs restore queue_shape_empty_iff [OF sh]
    by (auto simp: queue_foreach_def queue_ref_def queue_unref_def Let_def)
qed

text \<open>
  A callback that destroys the queue it is called from: the extra reference of \<open>queue_foreach\<close>
  keeps the object alive until the loop has seen that no other reference is left.
\<close>

lemma foreach_destroy_rep:
  assumes "queue_rep s 1 (x # xs)"
  shows "\<exists>s'. queue_foreach s (Some (\<lambda>d (s, u). queue_destroy s (Some g) (h d u))) u =
               Some (s', fold g (x # xs) (h x u)) \<and> qobj s' = Freed \<and> cells s' = Map.empty"
proof -
  from assms obtain q as where q: "qobj s = Live q" "deref_queue s = Some q" "ref_count q = 1"
    and sh: "queue_shape (cells s) (brk s) as q" and xs: "x # xs = map snd as" by (rule queue_repE)
  let ?q = "q\<lparr>ref_count := 2\<rparr>" and ?s = "put_queue s (q\<lparr>ref_count := 2\<rparr>)"
  obtain a as' m where as: "as = (a, x) # as'" "head q = a" "a \<noteq> 0"
    "cells s a = Some \<lparr>qe_data = x, qe_next = m\<rparr>"
    using sh xs by (cases as) (auto simp: queue_shape_def)
  have rep2: "queue_rep ?s 2 (x # xs)"
    using sh xs by (intro queue_repI [of _ as ?q]) (auto simp: queue_shape_def)
  from remove_all_rep(1) [OF rep2, of g "Some g" "h x u"] obtain s1 where
    s1: "queue_remove_all ?s None (Some g) (h x u) =
           Some (of_nat (length (x # xs)), s1, fold g (x # xs) (h x u))" "queue_rep s1 2 []" by auto
  from rep_entries [OF s1(2)] obtain q1 where q1: "deref_queue s1 = Some q1" "ref_count q1 = 2"
    "head q1 = 0" by auto
  have d: "queue_destroy ?s (Some g) (h x u) =
      Some (put_queue s1 (q1\<lparr>ref_count := 1\<rparr>), fold g (x # xs) (h x u))"
    using s1 q1 by (simp add: queue_destroy_def queue_unref_def Let_def)
  let ?f = "\<lambda>d (s, u). queue_destroy s (Some g) (h d u)"
  have "foreach_loop ?f a (?s, u) = foreach_loop ?f m (put_queue s1 (q1\<lparr>ref_count := 1\<rparr>),
      fold g (x # xs) (h x u))"
    by (subst foreach_loop.simps) (simp add: as d)
  also have "\<dots> = Some (put_queue s1 (q1\<lparr>ref_count := 1\<rparr>), fold g (x # xs) (h x u))"
    by (subst foreach_loop.simps) (simp add: q1)
  finally show ?thesis
    using q as rep_Nil_cells [OF s1(2)]
    by (simp add: queue_foreach_def queue_ref_def queue_unref_def Let_def)
qed

section \<open>The interface of the queue\<close>

text \<open>
  What the clients of the queue use: operations on a state that represents a list.  The laws
  say that an operation returns (it neither faults nor loops) and what it does to the list.
\<close>

primrec push_list :: "('s \<Rightarrow> 'd \<Rightarrow> (bool \<times> 's) option) \<Rightarrow> 's \<Rightarrow> 'd list \<Rightarrow> 's option" where
  "push_list push s [] = Some s"
| "push_list push s (x # xs) = do { (_, s1) \<leftarrow> push s x; push_list push s1 xs }"

primrec pop_list :: "('s \<Rightarrow> ('d \<times> 's) option) \<Rightarrow> 's \<Rightarrow> nat \<Rightarrow> ('d list \<times> 's) option" where
  "pop_list pop s 0 = Some ([], s)"
| "pop_list pop s (Suc n) =
     do { (x, s1) \<leftarrow> pop s; (xs, s2) \<leftarrow> pop_list pop s1 n; Some (x # xs, s2) }"

locale list_queue =
  fixes rep :: "'s \<Rightarrow> 'd list \<Rightarrow> bool"
    and null :: 'd
    and push_tail :: "'s \<Rightarrow> 'd \<Rightarrow> (bool \<times> 's) option"
    and push_head :: "'s \<Rightarrow> 'd \<Rightarrow> (bool \<times> 's) option"
    and pop_head :: "'s \<Rightarrow> ('d \<times> 's) option"
    and remove_if :: "'s \<Rightarrow> ('d \<Rightarrow> bool) \<Rightarrow> ('d \<times> 's) option"
  assumes push_tail_law:
      "rep s xs \<Longrightarrow> \<exists>s'. push_tail s x = Some (True, s') \<and> rep s' (xs @ [x])"
    and push_head_law:
      "rep s xs \<Longrightarrow> \<exists>s'. push_head s x = Some (True, s') \<and> rep s' (x # xs)"
    and pop_head_law:
      "rep s xs \<Longrightarrow> \<exists>s'. pop_head s = Some (if xs = [] then null else hd xs, s') \<and> rep s' (tl xs)"
    and remove_if_law:
      "rep s xs \<Longrightarrow> \<exists>s'. remove_if s f = Some (case find f xs of None \<Rightarrow> null | Some d \<Rightarrow> d, s') \<and>
                         rep s' (remove_first f xs)"
begin

lemma push_list_rep:
  "rep s xs \<Longrightarrow> \<exists>s'. push_list push_tail s ys = Some s' \<and> rep s' (xs @ ys)"
proof (induction ys arbitrary: s xs)
  case Nil
  then show ?case by simp
next
  case (Cons y ys)
  from push_tail_law [OF Cons.prems] obtain s1 where "push_tail s y = Some (True, s1)"
    "rep s1 (xs @ [y])" by blast
  with Cons.IH show ?case by fastforce
qed

lemma pop_list_rep:
  "rep s (xs @ ys) \<Longrightarrow> \<exists>s'. pop_list pop_head s (length xs) = Some (xs, s') \<and> rep s' ys"
proof (induction xs arbitrary: s)
  case Nil
  then show ?case by simp
next
  case (Cons x xs)
  from pop_head_law [OF Cons.prems] obtain s1 where "pop_head s = Some (x, s1)" "rep s1 (xs @ ys)"
    by auto
  with Cons.IH show ?case by fastforce
qed

lemma fifo:
  assumes "rep s []"
  shows "\<exists>s'. do { s1 \<leftarrow> push_list push_tail s xs; pop_list pop_head s1 (length xs) } = Some (xs, s') \<and>
             rep s' []"
  using push_list_rep [OF assms, of xs] pop_list_rep [of _ xs "[]"] by fastforce

lemma push_head_then_pop:
  "rep s xs \<Longrightarrow> \<exists>s'. do { (_, s1) \<leftarrow> push_head s x; pop_head s1 } = Some (x, s') \<and> rep s' xs"
  using push_head_law [of s xs x] pop_head_law [of _ "x # xs"] by fastforce

end

interpretation heap_queue: list_queue "\<lambda>s xs. queue_rep s n xs" None queue_push_tail queue_push_head
    queue_pop_head "\<lambda>s f. queue_remove_if s (Some f)"
proof
  fix s :: "'a qmem" and xs f
  assume "queue_rep s n xs"
  from remove_if_rep [OF this, of f]
  show "\<exists>s'. queue_remove_if s (Some f) = Some (case find f xs of None \<Rightarrow> None | Some d \<Rightarrow> d, s') \<and>
             queue_rep s' n (remove_first f xs)" by blast
qed (rule queue_refinement; assumption)+

section \<open>Sequences of operations\<close>

datatype 'd qop =
    Push_tail 'd | Push_head 'd | Push_after 'd 'd | Pop_head | Peek_head | Peek_tail
  | Find "'d \<Rightarrow> bool" | Remove 'd | Remove_if "'d \<Rightarrow> bool" | Remove_all "('d \<Rightarrow> bool) option"
  | Length | Is_empty

datatype 'd qres = Flag bool | Data 'd | Count u32

fun queue_exec :: "'a option qop \<Rightarrow> 'a qmem \<Rightarrow> ('a option qres \<times> 'a qmem) option" where
  "queue_exec (Push_tail d) s = do { (b, s1) \<leftarrow> queue_push_tail s d; Some (Flag b, s1) }"
| "queue_exec (Push_head d) s = do { (b, s1) \<leftarrow> queue_push_head s d; Some (Flag b, s1) }"
| "queue_exec (Push_after e d) s = do { (b, s1) \<leftarrow> queue_push_after s e d; Some (Flag b, s1) }"
| "queue_exec Pop_head s = do { (d, s1) \<leftarrow> queue_pop_head s; Some (Data d, s1) }"
| "queue_exec Peek_head s = do { d \<leftarrow> queue_peek_head s; Some (Data d, s) }"
| "queue_exec Peek_tail s = do { d \<leftarrow> queue_peek_tail s; Some (Data d, s) }"
| "queue_exec (Find f) s = do { d \<leftarrow> queue_find s (Some (\<lambda>d _. f d)) None; Some (Data d, s) }"
| "queue_exec (Remove d) s = do { (b, s1) \<leftarrow> queue_remove s d; Some (Flag b, s1) }"
| "queue_exec (Remove_if f) s = do { (d, s1) \<leftarrow> queue_remove_if s (Some f); Some (Data d, s1) }"
| "queue_exec (Remove_all f) s =
     do { (c, s1, _) \<leftarrow> queue_remove_all s f None (); Some (Count c, s1) }"
| "queue_exec Length s = do { n \<leftarrow> queue_length s; Some (Count n, s) }"
| "queue_exec Is_empty s = do { b \<leftarrow> queue_isempty s; Some (Flag b, s) }"

text \<open>The same operations on a plain list; the number of entries is a 32-bit counter.\<close>

fun list_exec :: "'a option qop \<Rightarrow> 'a option list \<Rightarrow> 'a option qres \<times> 'a option list" where
  "list_exec (Push_tail d) xs = (Flag True, xs @ [d])"
| "list_exec (Push_head d) xs = (Flag True, d # xs)"
| "list_exec (Push_after e d) xs = (Flag (e \<in> set xs), insert_after e d xs)"
| "list_exec Pop_head xs = (Data (if xs = [] then None else hd xs), tl xs)"
| "list_exec Peek_head xs = (Data (if xs = [] then None else hd xs), xs)"
| "list_exec Peek_tail xs = (Data (if xs = [] then None else last xs), xs)"
| "list_exec (Find f) xs = (Data (case find f xs of None \<Rightarrow> None | Some d \<Rightarrow> d), xs)"
| "list_exec (Remove d) xs = (Flag (d \<in> set xs), remove1 d xs)"
| "list_exec (Remove_if f) xs =
     (Data (case find f xs of None \<Rightarrow> None | Some d \<Rightarrow> d), remove_first f xs)"
| "list_exec (Remove_all None) xs = (Count (of_nat (length xs)), [])"
| "list_exec (Remove_all (Some f)) xs =
     (Count (of_nat (length (filter f xs))), filter (\<lambda>x. \<not> f x) xs)"
| "list_exec Length xs = (Count (of_nat (length xs)), xs)"
| "list_exec Is_empty xs = (Flag ((of_nat (length xs) :: u32) = 0), xs)"

primrec queue_run ::
    "'a qmem \<Rightarrow> 'a option qop list \<Rightarrow> ('a option qres list \<times> 'a qmem) option" where
  "queue_run s [] = Some ([], s)"
| "queue_run s (c # cs) =
     do { (r, s1) \<leftarrow> queue_exec c s; (rs, s2) \<leftarrow> queue_run s1 cs; Some (r # rs, s2) }"

primrec list_run ::
    "'a option list \<Rightarrow> 'a option qop list \<Rightarrow> 'a option qres list \<times> 'a option list" where
  "list_run xs [] = ([], xs)"
| "list_run xs (c # cs) =
     (let (r, xs1) = list_exec c xs; (rs, xs2) = list_run xs1 cs in (r # rs, xs2))"

lemma queue_exec_rep:
  assumes "queue_rep s n xs"
  shows "\<exists>s'. queue_exec c s = Some (fst (list_exec c xs), s') \<and>
             queue_rep s' n (snd (list_exec c xs))"
proof (cases c)
  case (Remove_all f)
  show ?thesis
  proof (cases f)
    case None
    with Remove_all remove_all_rep(1) [OF assms refl, where destroy = None and u = "()"]
    show ?thesis by auto
  next
    case (Some g)
    with Remove_all remove_all_rep(2) [OF assms refl, where destroy = None and u = "()" and f = g]
    show ?thesis by auto
  qed
next
  case (Push_tail d)
  with push_tail_rep [OF assms, of d] show ?thesis by auto
next
  case (Push_head d)
  with push_head_rep [OF assms, of d] show ?thesis by auto
next
  case (Push_after e d)
  with push_after_rep [OF assms, of e d] show ?thesis by auto
next
  case Pop_head
  with pop_head_rep [OF assms] show ?thesis by auto
next
  case (Find f)
  with find_rep(1) [OF assms, of "\<lambda>d _. f d" None] assms show ?thesis by auto
next
  case (Remove d)
  with remove_rep [OF assms, of d] show ?thesis by auto
next
  case (Remove_if f)
  with remove_if_rep [OF assms, of f] show ?thesis by auto
qed (use assms peek_rep [OF assms] length_rep [OF assms] in auto)

lemma queue_run_rep:
  assumes "queue_rep s n xs"
  shows "\<exists>s'. queue_run s cs = Some (fst (list_run xs cs), s') \<and> queue_rep s' n (snd (list_run xs cs))"
  using assms
proof (induction cs arbitrary: s xs)
  case Nil
  then show ?case by simp
next
  case (Cons c cs)
  from queue_exec_rep [OF Cons.prems, of c] obtain s1 where
    s1: "queue_exec c s = Some (fst (list_exec c xs), s1)" "queue_rep s1 n (snd (list_exec c xs))"
    by blast
  from Cons.IH [OF s1(2)] s1(1) show ?case by (auto simp: case_prod_beta Let_def)
qed

text \<open>The empty memory, before \<open>queue_new\<close>.\<close>

definition empty_qmem :: "'a qmem" where
  "empty_qmem = \<lparr>cells = Map.empty, brk = 1, qobj = Null\<rparr>"

lemma queue_new_empty: "\<exists>s. queue_new empty_qmem = Some s \<and> queue_rep s 1 []"
  by (rule queue_new_rep) (simp_all add: empty_qmem_def)

section \<open>Properties\<close>

text \<open>
  C8: a queue made by \<open>queue_new\<close> behaves as a list under every sequence of operations: no
  operation dereferences a bad pointer, frees twice or loops, every result is the one of the
  list operation, and the linked structure keeps representing the list, with no entry leaked.
\<close>

theorem queue_refines_list:
  "\<exists>s'. do { s \<leftarrow> queue_new empty_qmem; queue_run s cs } = Some (fst (list_run [] cs), s') \<and>
        queue_rep s' 1 (snd (list_run [] cs))"
proof -
  obtain s :: "'a qmem" where "queue_new empty_qmem = Some s" "queue_rep s 1 []"
    using queue_new_empty by blast
  with queue_run_rep [of s 1 "[]" cs] show ?thesis by auto
qed

text \<open>
  Data pushed at the tail come out at the head in the order they went in, and the queue is
  empty afterwards (through the queue interface, for the linked implementation).
\<close>

theorem queue_fifo:
  "\<exists>s'. do { s \<leftarrow> queue_new empty_qmem;
             s1 \<leftarrow> push_list queue_push_tail s xs;
             pop_list queue_pop_head s1 (length xs) } = Some (xs, s') \<and> queue_rep s' 1 []"
proof -
  obtain s :: "'a qmem" where s: "queue_new empty_qmem = Some s" "queue_rep s 1 []"
    using queue_new_empty by blast
  from heap_queue.fifo [OF s(2), of xs] s(1) show ?thesis by auto
qed

text \<open>
  C22: \<open>queue_foreach\<close> is safe when its callback destroys the very queue it walks: the callback
  runs on the first datum, every datum is handed to the destroy function once and in order, the
  walk stops, the object is freed at the end, and no entry is left in memory.
\<close>

theorem queue_foreach_destroy_safe:
  "\<exists>s'. do { s \<leftarrow> queue_new empty_qmem;
             s1 \<leftarrow> push_list queue_push_tail s (x # xs);
             queue_foreach s1 (Some (\<lambda>d (m, u). queue_destroy m (Some g) (h d u))) u } =
           Some (s', fold g (x # xs) (h x u)) \<and> qobj s' = Freed \<and> cells s' = Map.empty"
proof -
  obtain s :: "'a qmem" where s: "queue_new empty_qmem = Some s" "queue_rep s 1 []"
    using queue_new_empty by blast
  from heap_queue.push_list_rep [OF s(2), of "x # xs"] obtain s1 where
    s1: "push_list queue_push_tail s (x # xs) = Some s1" "queue_rep s1 1 (x # xs)" by auto
  from foreach_destroy_rep [OF s1(2), of g h u] s(1) s1(1) show ?thesis
    by (simp del: push_list.simps fold_simps)
qed

end
