(* ===== verification/Bt_Ringbuf.thy ===== *)
theory Bt_Ringbuf
  imports Bt_Prelude
begin

text \<open>
  The byte ring buffer of \<^verbatim>\<open>src/shared/ringbuf.c\<close>.  Indices are 64-bit \<^verbatim>\<open>size_t\<close> words that run
  freely and are masked with \<open>size - 1\<close> on every access.  The kernel's \<^verbatim>\<open>writev\<close> and \<^verbatim>\<open>readv\<close>
  and the C library's \<^verbatim>\<open>vasprintf\<close> are parameters.  The contents of the buffer are a list of
  bytes (\<open>ring_list\<close>); the operations append to it and drop from it.
\<close>

section \<open>State and operations\<close>

record ringbuf =
  rb_buffer :: bytes
  rb_size :: u64
  rb_in :: u64
  rb_out :: u64
  rb_in_tracing :: "nat option"
  rb_in_data :: nat

text \<open>A call of the tracing callback: the callback, the bytes it is shown, its user data.\<close>

datatype trace_call = Trace nat bytes nat

definition RINGBUF_RESET :: u64 where
  "RINGBUF_RESET = 0"

definition builtin_clz :: "u32 \<Rightarrow> nat" where
  "builtin_clz x = length (takeWhile (\<lambda>i. \<not> bit x i) (rev [0..<32]))"

definition fls :: "u32 \<Rightarrow> nat" where
  "fls x = (if x \<noteq> 0 then 4 * 8 - builtin_clz x else 0)"

text \<open>
  A shift by the width of \<^verbatim>\<open>int\<close> or more has no defined result in C; a shift into the sign bit has the value
  GNU C gives it.
\<close>

definition align_power2 :: "u32 \<Rightarrow> u32 option" where
  "align_power2 u = (if fls (u - 1) < 32 then Some (push_bit (fls (u - 1)) 1) else None)"

definition ringbuf_new :: "bool \<Rightarrow> (nat \<Rightarrow> u8) \<Rightarrow> u64 \<Rightarrow> ringbuf option option" where
  "ringbuf_new mem junk sz =
     (if sz < 2 \<or> sz > 0xFFFFFFFF then Some None
      else do { real_size \<leftarrow> align_power2 (ucast sz);
                if \<not> mem then Some None
                else Some (Some \<lparr>rb_buffer = map junk [0..<unat real_size],
                                rb_size = ucast real_size,
                                rb_in = RINGBUF_RESET, rb_out = RINGBUF_RESET,
                                rb_in_tracing = None, rb_in_data = 0\<rparr>) })"

definition ringbuf_set_input_tracing ::
    "ringbuf option \<Rightarrow> nat option \<Rightarrow> nat \<Rightarrow> bool \<times> ringbuf option" where
  "ringbuf_set_input_tracing rb callback user_data =
     (case rb of None \<Rightarrow> (False, None)
      | Some r \<Rightarrow> (True, Some (r\<lparr>rb_in_tracing := callback, rb_in_data := user_data\<rparr>)))"

definition ringbuf_capacity :: "ringbuf option \<Rightarrow> u64" where
  "ringbuf_capacity rb = (case rb of None \<Rightarrow> 0 | Some r \<Rightarrow> rb_size r)"

definition ringbuf_len :: "ringbuf option \<Rightarrow> u64" where
  "ringbuf_len rb = (case rb of None \<Rightarrow> 0 | Some r \<Rightarrow> rb_in r - rb_out r)"

text \<open>Both indices go back to the start once everything is consumed.\<close>

definition reset_if_empty :: "ringbuf \<Rightarrow> ringbuf" where
  "reset_if_empty r =
     (if rb_out r = rb_in r then r\<lparr>rb_in := RINGBUF_RESET, rb_out := RINGBUF_RESET\<rparr> else r)"

definition ringbuf_drain :: "ringbuf option \<Rightarrow> u64 \<Rightarrow> u64 \<times> ringbuf option" where
  "ringbuf_drain rb count =
     (case rb of None \<Rightarrow> (0, None)
      | Some r \<Rightarrow>
          let len = min count (rb_in r - rb_out r)
          in if len = 0 then (0, Some r)
             else (len, Some (reset_if_empty (r\<lparr>rb_out := rb_out r + len\<rparr>))))"

text \<open>\<open>ringbuf_peek\<close> returns a position in the buffer and the bytes that follow it unwrapped.\<close>

definition ringbuf_peek :: "ringbuf option \<Rightarrow> u64 \<Rightarrow> (u64 \<times> u64) option" where
  "ringbuf_peek rb offset =
     (case rb of None \<Rightarrow> None
      | Some r \<Rightarrow>
          let offset = (rb_out r + offset) AND (rb_size r - 1);
              len = rb_in r - rb_out r
          in Some (offset, min len (rb_size r - offset)))"

text \<open>
  \<^verbatim>\<open>writev\<close> takes the first bytes of its two vectors in order and says how many; those bytes, which
  leave through the descriptor, are the last component of the result.
\<close>

definition ringbuf_write ::
    "ringbuf option \<Rightarrow> int \<Rightarrow> (bytes \<Rightarrow> bytes \<Rightarrow> int) \<Rightarrow> int \<times> ringbuf option \<times> bytes" where
  "ringbuf_write rb fd writev =
     (case rb of None \<Rightarrow> (-1, None, [])
      | Some r \<Rightarrow>
          if fd < 0 then (-1, Some r, [])
          else let len = rb_in r - rb_out r
            in if len = 0 then (0, Some r, [])
               else let offset = rb_out r AND (rb_size r - 1);
                        end = min len (rb_size r - offset);
                        iov0 = take (unat end) (drop (unat offset) (rb_buffer r));
                        iov1 = take (unat (len - end)) (rb_buffer r);
                        consumed = writev iov0 iov1
                 in if consumed < 0 then (-1, Some r, [])
                    else (consumed,
                          Some (reset_if_empty (r\<lparr>rb_out := rb_out r + word_of_int consumed\<rparr>)),
                          take (nat consumed) (iov0 @ iov1)))"

definition ringbuf_avail :: "ringbuf option \<Rightarrow> u64" where
  "ringbuf_avail rb = (case rb of None \<Rightarrow> 0 | Some r \<Rightarrow> rb_size r - rb_in r + rb_out r)"

definition trace :: "ringbuf \<Rightarrow> bytes \<Rightarrow> trace_call list" where
  "trace r bs = (case rb_in_tracing r of None \<Rightarrow> [] | Some cb \<Rightarrow> [Trace cb bs (rb_in_data r)])"

definition ringbuf_vprintf ::
    "ringbuf option \<Rightarrow> 'f option \<Rightarrow> ('f \<Rightarrow> bytes option)
       \<Rightarrow> (int \<times> ringbuf option \<times> trace_call list) option" where
  "ringbuf_vprintf rb format vasprintf =
     (case (rb, format) of
        (Some r, Some fmt) \<Rightarrow>
          let avail = rb_size r - rb_in r + rb_out r
          in if avail = 0 then Some (-1, rb, [])
             else (case vasprintf fmt of None \<Rightarrow> Some (-1, rb, [])
             | Some str \<Rightarrow>
                 if length str > unat avail then Some (-1, rb, [])
                 else let len = length str;
                          offset = unat (rb_in r AND (rb_size r - 1));
                          end = min len (unat (rb_size r) - offset)
                   in do { b1 \<leftarrow> buf_write (rb_buffer r) offset (take end str);
                           let t1 = trace r (take end str);
                           b2 \<leftarrow> (if len - end > 0 then buf_write b1 0 (drop end str) else Some b1);
                           let t2 = (if len - end > 0 then trace r (drop end str) else []);
                           Some (int len,
                                 Some (r\<lparr>rb_buffer := b2, rb_in := rb_in r + of_nat len\<rparr>),
                                 t1 @ t2) })
      | _ \<Rightarrow> Some (-1, rb, []))"

text \<open>\<^verbatim>\<open>readv\<close> is told the sizes of its two vectors and fills them in order.\<close>

definition ringbuf_read ::
    "ringbuf option \<Rightarrow> int \<Rightarrow> (nat \<Rightarrow> nat \<Rightarrow> bytes option)
       \<Rightarrow> (int \<times> ringbuf option \<times> trace_call list) option" where
  "ringbuf_read rb fd readv =
     (case rb of None \<Rightarrow> Some (-1, None, [])
      | Some r \<Rightarrow>
          if fd < 0 then Some (-1, rb, [])
          else let avail = rb_size r - rb_in r + rb_out r
            in if avail = 0 then Some (-1, rb, [])
               else let offset = unat (rb_in r AND (rb_size r - 1));
                        end = min (unat avail) (unat (rb_size r) - offset)
                 in (case readv end (unat avail - end) of None \<Rightarrow> Some (-1, rb, [])
                     | Some data \<Rightarrow>
                         do { b1 \<leftarrow> buf_write (rb_buffer r) offset (take end data);
                              b2 \<leftarrow> buf_write b1 0 (drop end data);
                              let t1 = trace r (take end data);
                              let t2 = (if length data - end > 0 then trace r (drop end data) else []);
                              Some (int (length data),
                                    Some (r\<lparr>rb_buffer := b2, rb_in := rb_in r + of_nat (length data)\<rparr>),
                                    t1 @ t2) }))"

section \<open>The contents of the ring\<close>

definition ring_nat :: "nat \<Rightarrow> bytes \<Rightarrow> nat \<Rightarrow> nat \<Rightarrow> bytes" where
  "ring_nat N buf p n = map (\<lambda>i. buf ! ((p + i) mod N)) [0..<n]"

definition ring_list :: "ringbuf \<Rightarrow> bytes" where
  "ring_list r = ring_nat (unat (rb_size r)) (rb_buffer r) (unat (rb_out r))
                   (unat (rb_in r - rb_out r))"

definition ring_ok :: "ringbuf \<Rightarrow> bool" where
  "ring_ok r \<longleftrightarrow>
     (\<exists>k. 1 \<le> k \<and> k < 32 \<and> rb_size r = 2 ^ k) \<and> length (rb_buffer r) = unat (rb_size r) \<and>
     unat (rb_in r - rb_out r) \<le> unat (rb_size r)"

lemma length_ring_list [simp]: "length (ring_list r) = unat (rb_in r - rb_out r)"
  by (simp add: ring_list_def ring_nat_def)

lemma unat_and_mask: "unat (x AND (2 ^ k - 1) :: u64) = unat x mod 2 ^ k"
proof -
  have "x AND (2 ^ k - 1) = take_bit k x" by (simp add: take_bit_eq_mask mask_eq_decr_exp)
  then show ?thesis by (simp only: unsigned_take_bit_eq take_bit_eq_mod [of k "unat x"])
qed

lemma unat_pow2: "k < 64 \<Longrightarrow> unat (2 ^ k :: u64) = 2 ^ k"
  using unat_of_nat_less [where 'a = 64, of "2 ^ k"] power_strict_increasing [of k 64 "2::nat"]
  by simp

lemma ring_okE:
  assumes "ring_ok r"
  obtains k where "1 \<le> k" "k < 32" "rb_size r = 2 ^ k" "unat (rb_size r) = 2 ^ k"
    "length (rb_buffer r) = 2 ^ k" "unat (rb_in r - rb_out r) \<le> 2 ^ k"
  using assms unat_pow2 by (auto simp: ring_ok_def)

text \<open>Positions: masking is reduction modulo the size, and the write index is the read index plus
  the number of bytes held, also when the 64-bit indices wrap around.\<close>

lemma mod_pow2_u64: "k < 64 \<Longrightarrow> unat (x + y :: u64) mod 2 ^ k = (unat x + unat y) mod 2 ^ k"
  using mod_mod_cancel [OF le_imp_power_dvd [of k 64 "2::nat"]] by (simp add: unat_word_ariths)

lemma in_position:
  assumes "k < 64"
  shows "unat (rb_in r) mod 2 ^ k = (unat (rb_out r) + unat (rb_in r - rb_out r)) mod 2 ^ k"
  using mod_pow2_u64 [OF assms, of "rb_out r" "rb_in r - rb_out r"] by simp

lemma ring_nat_append: "ring_nat N buf p (m + n) = ring_nat N buf p m @ ring_nat N buf (p + m) n"
  by (rule nth_equalityI) (auto simp: ring_nat_def nth_append add.assoc)

lemma ring_nat_mod: "ring_nat N buf (p mod N) n = ring_nat N buf p n"
  by (simp add: ring_nat_def mod_add_left_eq)

lemma drop_ring_nat: "m \<le> n \<Longrightarrow> drop m (ring_nat N buf p n) = ring_nat N buf (p + m) (n - m)"
  by (rule nth_equalityI) (auto simp: ring_nat_def add.assoc)

text \<open>The two copies: up to the end of the buffer, the rest from its beginning.\<close>

definition ring_put :: "bytes \<Rightarrow> nat \<Rightarrow> bytes \<Rightarrow> bytes option" where
  "ring_put buf off bs =
     (let e = min (length bs) (length buf - off)
      in do { b1 \<leftarrow> buf_write buf off (take e bs); buf_write b1 0 (drop e bs) })"

lemma ring_put_nth:
  assumes "off < length buf" "length bs \<le> length buf"
  shows "\<exists>buf'. ring_put buf off bs = Some buf' \<and> length buf' = length buf \<and>
    (\<forall>j < length buf. buf' ! ((off + j) mod length buf) =
        (if j < length bs then bs ! j else buf ! ((off + j) mod length buf)))"
proof -
  define e where "e = min (length bs) (length buf - off)"
  have e: "e \<le> length bs" "off + e \<le> length buf" "length bs - e \<le> off"
    "e < length bs \<Longrightarrow> off + e = length buf" using assms by (auto simp: e_def)
  from e(1,2) obtain b1 where b1: "buf_write buf off (take e bs) = Some b1" "length b1 = length buf"
    using buf_write_Some_iff [of buf off "take e bs"] by (auto dest: buf_write_length)
  from e(3) assms b1 obtain b2 where b2: "buf_write b1 0 (drop e bs) = Some b2" "length b2 = length buf"
    using buf_write_Some_iff [of b1 0 "drop e bs"] buf_write_length [of b1 0 "drop e bs"] by auto
  have "b2 ! ((off + j) mod length buf) =
      (if j < length bs then bs ! j else buf ! ((off + j) mod length buf))" if j: "j < length buf" for j
  proof (cases "off + j < length buf")
    case True
    then show ?thesis using e buf_write_nth [OF b1(1)] buf_write_nth [OF b2(1)] b1(2)
      by auto
  next
    case False
    then have "(off + j) mod length buf = off + j - length buf" using assms(1) j by (simp add: mod_if)
    moreover have "off + j - length buf < length bs - e \<longleftrightarrow> j < length bs"
      "j < length bs \<Longrightarrow> e + (off + j - length buf) = j" using False e by linarith+
    moreover have "off + j - length buf < off" using False j assms(1) by linarith
    ultimately show ?thesis using e buf_write_nth [OF b1(1)] buf_write_nth [OF b2(1)] b1(2) assms(1)
      by auto
  qed
  with b1 b2 show ?thesis by (auto simp: ring_put_def e_def Let_def)
qed

lemma ring_put_append:
  assumes "m + length bs \<le> length buf" "0 < length buf" "ring_put buf ((p + m) mod length buf) bs = Some buf'"
  shows "ring_nat (length buf) buf' p (m + length bs) = ring_nat (length buf) buf p m @ bs"
    and "length buf' = length buf"
proof -
  let ?N = "length buf" and ?off = "(p + m) mod length buf"
  have off: "?off < ?N" using assms(2) by simp
  from ring_put_nth [OF off, of bs] assms have len: "length buf' = ?N" and
    new: "\<And>j. j < ?N \<Longrightarrow> buf' ! ((?off + j) mod ?N) =
        (if j < length bs then bs ! j else buf ! ((?off + j) mod ?N))" by auto
  show "length buf' = length buf" by (rule len)
  have shift: "(?off + j) mod ?N = (p + m + j) mod ?N" for j by (simp add: mod_add_left_eq)
  have old: "buf' ! ((p + i) mod ?N) = buf ! ((p + i) mod ?N)" if "i < m" for i
  proof -
    have "p + m + (?N - m + i) = p + i + ?N" using assms(1) by linarith
    then have "(?off + (?N - m + i)) mod ?N = (p + i) mod ?N" by (simp only: shift mod_add_self2)
    moreover have "?N - m + i < ?N" "\<not> ?N - m + i < length bs" using that assms(1) by auto
    ultimately show ?thesis using new [of "?N - m + i"] by simp
  qed
  have "ring_nat ?N buf' (p + m) (length bs) = bs"
    using new assms(1) by (intro nth_equalityI) (auto simp: ring_nat_def shift)
  moreover have "ring_nat ?N buf' p m = ring_nat ?N buf p m"
    using old by (auto simp: ring_nat_def)
  ultimately show "ring_nat ?N buf' p (m + length bs) = ring_nat ?N buf p m @ bs"
    by (simp add: ring_nat_append)
qed

lemma unat_avail:
  assumes "ring_ok r" "rb_size r = 2 ^ k" "k < 32"
  shows "unat (rb_size r - rb_in r + rb_out r) = 2 ^ k - unat (rb_in r - rb_out r)"
proof -
  have "rb_size r - rb_in r + rb_out r = rb_size r - (rb_in r - rb_out r)" by simp
  moreover have "rb_in r - rb_out r \<le> rb_size r" using assms by (auto simp: ring_ok_def word_le_nat_alt)
  ultimately show ?thesis using assms(2,3) unat_pow2 [of k] by (simp only: unat_sub)
qed

lemma unat_add_small: "unat x + n < 2 ^ 64 \<Longrightarrow> unat (x + of_nat n :: u64) = unat x + n"
  by (simp add: unat_word_ariths unat_of_nat_less)

text \<open>Appending bytes that fit, the way both writers do it.\<close>

lemma ring_append:
  assumes ok: "ring_ok r" and k: "rb_size r = 2 ^ k" "k < 32"
    and fit: "length bs \<le> 2 ^ k - unat (rb_in r - rb_out r)"
  shows "\<exists>b. ring_put (rb_buffer r) (unat (rb_in r AND (rb_size r - 1))) bs = Some b \<and>
    ring_ok (r\<lparr>rb_buffer := b, rb_in := rb_in r + of_nat (length bs)\<rparr>) \<and>
    ring_list (r\<lparr>rb_buffer := b, rb_in := rb_in r + of_nat (length bs)\<rparr>) = ring_list r @ bs"
proof -
  let ?m = "unat (rb_in r - rb_out r)" and ?N = "2 ^ k :: nat" and ?p = "unat (rb_out r)"
  from ok k have len: "length (rb_buffer r) = ?N" and sz: "unat (rb_size r) = ?N" and m: "?m \<le> ?N"
    using unat_pow2 [of k] by (auto simp: ring_ok_def)
  have off: "unat (rb_in r AND (rb_size r - 1)) = (?p + ?m) mod ?N"
    using in_position [of k r] k by (simp add: unat_and_mask)
  have N: "?N \<le> 2 ^ 32" using k by (intro power_increasing) auto
  have eq: "rb_in r + of_nat (length bs) - rb_out r = (rb_in r - rb_out r) + of_nat (length bs)"
    by simp
  have m': "unat (rb_in r + of_nat (length bs) - rb_out r) = ?m + length bs"
    unfolding eq using N fit m by (intro unat_add_small) simp
  have "length bs \<le> length (rb_buffer r)" using fit len by linarith
  then obtain b where b: "ring_put (rb_buffer r) ((?p + ?m) mod ?N) bs = Some b"
    using ring_put_nth [of "(?p + ?m) mod ?N" "rb_buffer r" bs] len by auto
  from ring_put_append [of ?m bs "rb_buffer r" ?p b] b len fit m
  have "ring_nat ?N b ?p (?m + length bs) = ring_nat ?N (rb_buffer r) ?p ?m @ bs" "length b = ?N"
    by auto
  with b off m' fit m ok k len sz show ?thesis
    by (auto simp: ring_list_def ring_ok_def)
qed

lemma ring_drop:
  assumes ok: "ring_ok r" and n: "n \<le> unat (rb_in r - rb_out r)"
  defines "r' \<equiv> reset_if_empty (r\<lparr>rb_out := rb_out r + of_nat n\<rparr>)"
  shows "ring_ok r'" and "ring_list r' = drop n (ring_list r)" and "rb_size r' = rb_size r"
proof -
  let ?m = "unat (rb_in r - rb_out r)" and ?r = "r\<lparr>rb_out := rb_out r + of_nat n\<rparr>"
  obtain k where k: "k < 32" "rb_size r = 2 ^ k" "unat (rb_size r) = 2 ^ k" using ok by (rule ring_okE)
  have n64: "unat (of_nat n :: u64) = n" using n unsigned_less [where 'a = nat, of "rb_in r - rb_out r"]
    by (intro unat_of_nat_less) simp
  have eq: "rb_in r - (rb_out r + of_nat n) = (rb_in r - rb_out r) - of_nat n" by simp
  have m': "unat (rb_in r - (rb_out r + of_nat n)) = ?m - n"
    unfolding eq using n n64 by (simp add: unat_sub word_le_nat_alt)
  have pos: "unat (rb_out r + of_nat n) mod 2 ^ k = (unat (rb_out r) + n) mod 2 ^ k"
    using mod_pow2_u64 [of k "rb_out r" "of_nat n"] k n64 by simp
  have "ring_nat (2 ^ k) (rb_buffer r) (unat (rb_out r + of_nat n)) (?m - n) =
      ring_nat (2 ^ k) (rb_buffer r) (unat (rb_out r) + n) (?m - n)"
    using pos ring_nat_mod by metis
  then have l: "ring_list ?r = drop n (ring_list r)" and o: "ring_ok ?r"
    using m' ok n k by (auto simp: ring_list_def drop_ring_nat ring_ok_def)
  have "rb_out r + of_nat n = rb_in r \<Longrightarrow> ?m - n = 0" using m' by simp
  then have "rb_out r + of_nat n = rb_in r \<Longrightarrow> ?m \<le> n" by simp
  with l o show "ring_ok r'" "ring_list r' = drop n (ring_list r)" "rb_size r' = rb_size r"
    by (auto simp: r'_def reset_if_empty_def RINGBUF_RESET_def ring_ok_def ring_list_def ring_nat_def)
qed

section \<open>Each operation on the contents\<close>

lemma vprintf_ring:
  assumes ok: "ring_ok r" and str: "vasprintf fmt = Some str"
  shows "if length (ring_list r) < unat (rb_size r) \<and>
            length (ring_list r) + length str \<le> unat (rb_size r)
         then \<exists>r' t. ringbuf_vprintf (Some r) (Some fmt) vasprintf = Some (int (length str), Some r', t) \<and>
                ring_ok r' \<and> ring_list r' = ring_list r @ str \<and> rb_size r' = rb_size r
         else ringbuf_vprintf (Some r) (Some fmt) vasprintf = Some (-1, Some r, [])"
proof -
  obtain k where k: "k < 32" "rb_size r = 2 ^ k" "unat (rb_size r) = 2 ^ k"
    "length (rb_buffer r) = 2 ^ k" "unat (rb_in r - rb_out r) \<le> 2 ^ k" using ok by (rule ring_okE)
  note av = unat_avail [OF ok k(2,1)]
  have av0: "rb_size r - rb_in r + rb_out r = 0 \<longleftrightarrow> unat (rb_in r - rb_out r) = 2 ^ k"
    using av k(5) by (metis diff_diff_cancel diff_self_eq_0 diff_zero unat_eq_zero)
  show ?thesis
  proof (cases "unat (rb_in r - rb_out r) < 2 ^ k \<and> unat (rb_in r - rb_out r) + length str \<le> 2 ^ k")
    case True
    then have "length str \<le> 2 ^ k - unat (rb_in r - rb_out r)" by linarith
    from ring_append [OF ok k(2,1) this] obtain b where
      b: "ring_put (rb_buffer r) (unat (rb_in r AND (rb_size r - 1))) str = Some b"
        "ring_ok (r\<lparr>rb_buffer := b, rb_in := rb_in r + of_nat (length str)\<rparr>)"
        "ring_list (r\<lparr>rb_buffer := b, rb_in := rb_in r + of_nat (length str)\<rparr>) = ring_list r @ str"
      by blast
    let ?off = "unat (rb_in r AND (rb_size r - 1))"
    let ?e = "min (length str) (2 ^ k - ?off)"
    from b(1) obtain b1 where b1: "buf_write (rb_buffer r) ?off (take ?e str) = Some b1"
      "buf_write b1 0 (drop ?e str) = Some b"
      using k(4) by (auto simp: ring_put_def Let_def split: Option.bind_splits)
    have "(if length str - ?e > 0 then buf_write b1 0 (drop ?e str) else Some b1) = Some b"
      using b1(2) by (auto simp: buf_write_def split: if_splits)
    with True str av av0 b b1 k(3) show ?thesis
      by (auto simp: ringbuf_vprintf_def Let_def)
  next
    case False
    then show ?thesis using str av av0 k
      by (auto simp: ringbuf_vprintf_def Let_def)
  qed
qed

lemma read_ring:
  assumes ok: "ring_ok r" and fd: "0 \<le> fd"
  shows "if length (ring_list r) < unat (rb_size r)
         then let d = take (unat (rb_size r) - length (ring_list r)) input
              in \<exists>r' t. ringbuf_read (Some r) fd (\<lambda>n0 n1. Some (take (n0 + n1) input)) =
                     Some (int (length d), Some r', t) \<and>
                   ring_ok r' \<and> ring_list r' = ring_list r @ d \<and> rb_size r' = rb_size r
         else ringbuf_read (Some r) fd (\<lambda>n0 n1. Some (take (n0 + n1) input)) = Some (-1, Some r, [])"
proof -
  obtain k where k: "k < 32" "rb_size r = 2 ^ k" "unat (rb_size r) = 2 ^ k"
    "length (rb_buffer r) = 2 ^ k" "unat (rb_in r - rb_out r) \<le> 2 ^ k" using ok by (rule ring_okE)
  note av = unat_avail [OF ok k(2,1)]
  let ?a = "2 ^ k - unat (rb_in r - rb_out r)" and ?off = "unat (rb_in r AND (rb_size r - 1))"
  have av0: "rb_size r - rb_in r + rb_out r = 0 \<longleftrightarrow> unat (rb_in r - rb_out r) = 2 ^ k"
    using av k(5) by (metis diff_diff_cancel diff_self_eq_0 diff_zero unat_eq_zero)
  show ?thesis
  proof (cases "unat (rb_in r - rb_out r) < 2 ^ k")
    case True
    let ?d = "take ?a input" and ?e = "min ?a (2 ^ k - ?off)"
    have off: "?off < 2 ^ k" using k by (simp add: unat_and_mask)
    have "length ?d \<le> ?a" by simp
    from ring_append [OF ok k(2,1) this] obtain b where
      b: "ring_put (rb_buffer r) ?off ?d = Some b"
        "ring_ok (r\<lparr>rb_buffer := b, rb_in := rb_in r + of_nat (length ?d)\<rparr>)"
        "ring_list (r\<lparr>rb_buffer := b, rb_in := rb_in r + of_nat (length ?d)\<rparr>) = ring_list r @ ?d"
      by blast
    have tk: "take (min (length ?d) (2 ^ k - ?off)) ?d = take ?e ?d"
      "drop (min (length ?d) (2 ^ k - ?off)) ?d = drop ?e ?d" by (auto simp: min_def)
    from b(1) obtain b1 where b1: "buf_write (rb_buffer r) ?off (take ?e ?d) = Some b1"
      "buf_write b1 0 (drop ?e ?d) = Some b"
      using k(4) unfolding ring_put_def Let_def tk k(4) by (auto split: Option.bind_splits)
    have "?e + (?a - ?e) = ?a" by simp
    with True fd av av0 b b1 k(3) show ?thesis
      by (auto simp: ringbuf_read_def Let_def simp del: take_take drop_take length_take)
  next
    case False
    then show ?thesis using fd av av0 k by (auto simp: ringbuf_read_def Let_def)
  qed
qed

lemma ring_nat_two_chunks:
  assumes "off < length buf" "m \<le> length buf"
  shows "take (min m (length buf - off)) (drop off buf) @ take (m - min m (length buf - off)) buf =
         ring_nat (length buf) buf off m"
proof (rule nth_equalityI)
  show "length (take (min m (length buf - off)) (drop off buf) @
      take (m - min m (length buf - off)) buf) = length (ring_nat (length buf) buf off m)"
    using assms by (auto simp: ring_nat_def)
next
  fix i assume "i < length (take (min m (length buf - off)) (drop off buf) @
      take (m - min m (length buf - off)) buf)"
  then have i: "i < m" using assms by auto
  show "(take (min m (length buf - off)) (drop off buf) @ take (m - min m (length buf - off)) buf) ! i =
        ring_nat (length buf) buf off m ! i"
  proof (cases "off + i < length buf")
    case True
    then show ?thesis using i assms by (auto simp: ring_nat_def nth_append)
  next
    case False
    then have "(off + i) mod length buf = off + i - length buf" "min m (length buf - off) = length buf - off"
      using i assms by (auto simp: mod_if)
    then show ?thesis using False i assms by (auto simp: ring_nat_def nth_append add.commute)
  qed
qed

text \<open>The two vectors handed to \<^verbatim>\<open>writev\<close> hold the contents of the ring, in order.\<close>

lemma write_ring:
  assumes ok: "ring_ok r" and fd: "0 \<le> fd"
    and accepts: "\<And>bs. w bs \<le> int (length bs)"
  shows "ringbuf_write (Some r) fd (\<lambda>iov0 iov1. w (iov0 @ iov1)) =
     (if ring_list r = [] then (0, Some r, [])
      else if w (ring_list r) < 0 then (-1, Some r, [])
      else (w (ring_list r),
            Some (reset_if_empty (r\<lparr>rb_out := rb_out r + of_nat (nat (w (ring_list r)))\<rparr>)),
            take (nat (w (ring_list r))) (ring_list r)))"
proof -
  obtain k where k: "k < 32" "rb_size r = 2 ^ k" "unat (rb_size r) = 2 ^ k"
    "length (rb_buffer r) = 2 ^ k" "unat (rb_in r - rb_out r) \<le> 2 ^ k" using ok by (rule ring_okE)
  let ?len = "rb_in r - rb_out r" and ?off = "rb_out r AND (rb_size r - 1)"
  have off: "unat ?off = unat (rb_out r) mod 2 ^ k" using k by (simp add: unat_and_mask)
  have lt: "unat ?off < 2 ^ k" by (simp add: off)
  have sub: "unat (rb_size r - ?off) = 2 ^ k - unat ?off"
    using lt k(3) by (simp add: unat_sub word_le_nat_alt)
  have e: "unat (min ?len (rb_size r - ?off)) = min (unat ?len) (2 ^ k - unat ?off)"
    by (simp only: sub [symmetric] min_def word_le_nat_alt if_distrib [of unat])
  have le: "min ?len (rb_size r - ?off) \<le> ?len" by simp
  have "take (min (unat ?len) (2 ^ k - unat ?off)) (drop (unat ?off) (rb_buffer r)) @
      take (unat ?len - min (unat ?len) (2 ^ k - unat ?off)) (rb_buffer r) = ring_list r"
    using ring_nat_two_chunks [of "unat ?off" "rb_buffer r" "unat ?len"] k(3-5) lt
    unfolding ring_list_def by (simp add: off ring_nat_mod)
  moreover have "ring_list r = [] \<longleftrightarrow> ?len = 0"
    using length_ring_list [of r] by (metis length_0_conv unat_eq_zero)
  moreover have "word_of_int i = (of_nat (nat i) :: u64)" if "0 \<le> i" for i
    using that by (metis int_nat_eq of_int_of_nat_eq)
  ultimately show ?thesis using fd
    by (simp add: ringbuf_write_def Let_def e unat_sub [OF le])
qed

lemma drain_ring:
  assumes "ring_ok r"
    and n_def: "n = min (unat c) (length (ring_list r))"
  shows "\<exists>r'. ringbuf_drain (Some r) c = (of_nat n, Some r') \<and> ring_ok r' \<and>
     ring_list r' = drop n (ring_list r) \<and> rb_size r' = rb_size r"
proof -
  have n: "min c (rb_in r - rb_out r) = of_nat n"
    by (auto simp: n_def min_def word_le_nat_alt)
  have le: "n \<le> unat (rb_in r - rb_out r)" by (simp add: n_def)
  have z: "of_nat n = (0::u64) \<longleftrightarrow> n = 0"
    unfolding n [symmetric] by (auto simp: n_def min_def word_le_nat_alt unat_eq_0)
  show ?thesis using ring_drop [OF assms(1) le] z assms(1)
    by (cases "n = 0") (auto simp: ringbuf_drain_def Let_def n)
qed

section \<open>Creation\<close>

lemma builtin_clz_eq:
  assumes "n \<le> 32" "\<And>i. n \<le> i \<Longrightarrow> i < 32 \<Longrightarrow> \<not> bit x i" "0 < n" "bit x (n - 1)"
  shows "builtin_clz x = 32 - n"
proof -
  obtain m where m: "n = Suc m" using assms(3) by (cases n) auto
  have "[0..<32] = [0..<n] @ [n..<32]" using assms(1) upt_add_eq_append [of 0 n "32 - n"] by simp
  then have "rev [0..<32] = rev [n..<32] @ m # rev [0..<m]" using m by simp
  moreover have "takeWhile (\<lambda>i. \<not> bit x i) (rev [n..<32] @ m # rev [0..<m]) = rev [n..<32]"
    using assms m by (subst takeWhile_append2) auto
  ultimately show ?thesis unfolding builtin_clz_def by (simp del: upt_Suc)
qed

lemma fls_bounds:
  assumes "x \<noteq> 0"
  shows "1 \<le> fls x" "fls x \<le> 32" "2 ^ (fls x - 1) \<le> unat x" "unat x < 2 ^ fls x"
proof -
  from assms have ex: "\<exists>i. bit x i" by (auto simp: bit_eq_iff)
  have fin: "bit x i \<Longrightarrow> i < 32" for i using bit_imp_le_length [of x i] by simp
  define m where "m = Max {i. bit x i}"
  have "finite {i. bit x i}" using fin finite_subset [of "{i. bit x i}" "{..<32}"] by auto
  then have m: "bit x m" "\<And>i. bit x i \<Longrightarrow> i \<le> m"
    using ex Max_in [of "{i. bit x i}"] by (auto simp: m_def)
  then have "builtin_clz x = 32 - Suc m" using fin m
    by (intro builtin_clz_eq) (auto simp: Suc_le_eq dest!: m(2))
  with fin [OF m(1)] assms have f: "fls x = Suc m" by (simp add: fls_def)
  then show "1 \<le> fls x" "fls x \<le> 32" using fin [OF m(1)] by auto
  have "take_bit (Suc m) x = x" using m(2) by (intro bit_word_eqI) (auto simp: bit_simps less_Suc_eq_le)
  then have "take_bit (Suc m) (unat x) = unat x" by (metis unsigned_take_bit_eq)
  then show "unat x < 2 ^ fls x" unfolding f by (metis take_bit_nat_less_exp)
  have "bit (unat x) m" using m(1) by (simp add: bit_unsigned_iff)
  then show "2 ^ (fls x - 1) \<le> unat x" unfolding f
    by (metis diff_Suc_1 bit_iff_odd div_less not_le even_zero)
qed

lemma unat_ucast_size: "sz \<le> 0xFFFFFFFF \<Longrightarrow> unat (ucast (sz :: u64) :: u32) = unat sz"
  by (simp add: word_le_nat_alt unsigned_ucast_eq take_bit_nat_eq_self)

lemma fls_size:
  assumes "2 \<le> sz" "sz \<le> (0xFFFFFFFF :: u64)"
  defines "f \<equiv> fls (ucast sz - 1)"
  shows "1 \<le> f" "f \<le> 32" "unat sz \<le> 2 ^ f" "2 ^ (f - 1) < unat sz"
proof -
  let ?x = "ucast sz - 1 :: u32"
  have sz: "2 \<le> unat sz" using assms(1) by (simp add: word_le_nat_alt)
  have u: "unat (ucast sz :: u32) = unat sz" by (rule unat_ucast_size [OF assms(2)])
  then have le: "(1 :: u32) \<le> ucast sz" using sz by (simp add: word_le_nat_alt)
  have x: "unat ?x = unat sz - 1" using u by (simp add: unat_sub [OF le])
  then have "?x \<noteq> 0" using sz by (metis One_nat_def Suc_1 diff_is_0_eq not_less_eq_eq unat_0)
  from fls_bounds [OF this] x sz show "1 \<le> f" "f \<le> 32" "unat sz \<le> 2 ^ f" "2 ^ (f - 1) < unat sz"
    by (auto simp: f_def)
qed

lemma ringbuf_new_ok:
  assumes "2 \<le> sz" "sz \<le> 2 ^ 31"
  shows "\<exists>r. ringbuf_new True junk sz = Some (Some r) \<and> ring_ok r \<and> ring_list r = [] \<and>
     unat sz \<le> unat (rb_size r) \<and> unat (rb_size r) < 2 * unat sz"
proof -
  let ?f = "fls (ucast sz - 1)"
  have "sz \<le> 0xFFFFFFFF" using assms(2) by (simp add: word_le_nat_alt)
  note f = fls_size [OF assms(1) this]
  have "unat sz \<le> 2 ^ 31" using assms(2) by (simp add: word_le_nat_alt)
  with f(4) have "(2::nat) ^ (?f - 1) < 2 ^ 31" by linarith
  then have "?f - 1 < 31" by (rule power_less_imp_less_exp [rotated]) simp
  then have f31: "?f < 32" by linarith
  have real: "unat (push_bit ?f 1 :: u32) = 2 ^ ?f"
    using f31 unat_of_nat_less [where 'a = 32, of "2 ^ ?f"] power_strict_increasing [of ?f 32 "2::nat"]
    by (simp add: push_bit_eq_mult)
  then have size: "ucast (push_bit ?f 1 :: u32) = (2 ^ ?f :: u64)"
    using f31 unat_pow2 [of ?f] power_strict_increasing [of ?f 64 "2::nat"]
    by (simp add: word_unat_eq_iff unsigned_ucast_eq take_bit_nat_eq_self)
  have "2 ^ ?f = 2 * (2::nat) ^ (?f - 1)" using f(1) by (cases ?f) auto
  with f f31 real size assms \<open>sz \<le> 0xFFFFFFFF\<close> unat_pow2 [of ?f] show ?thesis
    by (auto simp: ringbuf_new_def align_power2_def ring_ok_def ring_list_def ring_nat_def
        RINGBUF_RESET_def not_less)
qed

section \<open>Sequences of operations\<close>

text \<open>
  The operations of a client: a print of a formatted string (\<open>None\<close> when formatting fails), a drain, a
  write of which the kernel takes at most \<open>n\<close> bytes (a negative \<open>n\<close> is its error), a read that the kernel
  serves from \<open>input\<close> as far as it fits (\<open>None\<close> is its error), and the two questions for the fill level.
  Each shows the value the C function returns and the bytes that leave through the descriptor.
\<close>

datatype rb_op = Printf "bytes option" | Drain u64 | Write_fd int | Read_fd "bytes option" | Len | Avail

fun ring_exec :: "rb_op \<Rightarrow> ringbuf \<Rightarrow> ((int \<times> bytes) \<times> ringbuf option) option" where
  "ring_exec (Printf str) r =
     map_option (\<lambda>(n, r', _). ((n, []), r')) (ringbuf_vprintf (Some r) (Some ()) (\<lambda>_. str))"
| "ring_exec (Drain c) r = (let (n, r') = ringbuf_drain (Some r) c in Some ((uint n, []), r'))"
| "ring_exec (Write_fd n) r =
     (let (k, r', out) = ringbuf_write (Some r) 0 (\<lambda>iov0 iov1. min n (int (length (iov0 @ iov1))))
      in Some ((k, out), r'))"
| "ring_exec (Read_fd input) r =
     map_option (\<lambda>(n, r', _). ((n, []), r'))
       (ringbuf_read (Some r) 0 (\<lambda>n0 n1. map_option (take (n0 + n1)) input))"
| "ring_exec Len r = Some ((uint (ringbuf_len (Some r)), []), Some r)"
| "ring_exec Avail r = Some ((uint (ringbuf_avail (Some r)), []), Some r)"

text \<open>The specification: a byte queue of fixed capacity.\<close>

fun fifo_exec :: "nat \<Rightarrow> rb_op \<Rightarrow> bytes \<Rightarrow> (int \<times> bytes) \<times> bytes" where
  "fifo_exec cap (Printf str) xs =
     (case str of None \<Rightarrow> ((-1, []), xs)
      | Some str \<Rightarrow> if length xs < cap \<and> length xs + length str \<le> cap then ((int (length str), []), xs @ str)
                    else ((-1, []), xs))"
| "fifo_exec cap (Drain c) xs =
     (let n = min (unat c) (length xs) in ((int n, []), drop n xs))"
| "fifo_exec cap (Write_fd n) xs =
     (if xs \<noteq> [] \<and> n < 0 then ((-1, []), xs)
      else let k = min (nat n) (length xs) in ((int k, take k xs), drop k xs))"
| "fifo_exec cap (Read_fd input) xs =
     (case input of None \<Rightarrow> ((-1, []), xs)
      | Some input \<Rightarrow>
          if length xs < cap
          then ((int (length (take (cap - length xs) input)), []), xs @ take (cap - length xs) input)
          else ((-1, []), xs))"
| "fifo_exec cap Len xs = ((int (length xs), []), xs)"
| "fifo_exec cap Avail xs = ((int (cap - length xs), []), xs)"

primrec ring_run :: "ringbuf \<Rightarrow> rb_op list \<Rightarrow> ((int \<times> bytes) list \<times> ringbuf) option" where
  "ring_run r [] = Some ([], r)"
| "ring_run r (c # cs) =
     do { (n, q) \<leftarrow> ring_exec c r; r1 \<leftarrow> q; (ns, r2) \<leftarrow> ring_run r1 cs; Some (n # ns, r2) }"

primrec fifo_run :: "nat \<Rightarrow> bytes \<Rightarrow> rb_op list \<Rightarrow> (int \<times> bytes) list \<times> bytes" where
  "fifo_run cap xs [] = ([], xs)"
| "fifo_run cap xs (c # cs) =
     (let (n, xs1) = fifo_exec cap c xs; (ns, xs2) = fifo_run cap xs1 cs in (n # ns, xs2))"

lemma vprintf_failed: "ringbuf_vprintf (Some r) (Some f) (\<lambda>_. None) = Some (-1, Some r, [])"
  by (simp add: ringbuf_vprintf_def Let_def)

lemma read_failed: "ringbuf_read (Some r) fd (\<lambda>_ _. None) = Some (-1, Some r, [])"
  by (simp add: ringbuf_read_def Let_def)

lemma ring_levels:
  assumes "ring_ok r"
  shows "uint (ringbuf_len (Some r)) = int (length (ring_list r))"
    "uint (ringbuf_avail (Some r)) = int (unat (rb_size r) - length (ring_list r))"
proof -
  obtain k where k: "k < 32" "rb_size r = 2 ^ k" "unat (rb_size r) = 2 ^ k" using assms by (rule ring_okE)
  show "uint (ringbuf_len (Some r)) = int (length (ring_list r))"
    unfolding ringbuf_len_def option.case uint_nat length_ring_list ..
  show "uint (ringbuf_avail (Some r)) = int (unat (rb_size r) - length (ring_list r))"
    unfolding ringbuf_avail_def option.case uint_nat length_ring_list unat_avail [OF assms k(2,1)] k(3) ..
qed

lemma ring_exec_fifo:
  assumes "ring_ok r"
  shows "\<exists>r'. ring_exec c r = Some (fst (fifo_exec (unat (rb_size r)) c (ring_list r)), Some r') \<and>
     ring_ok r' \<and> ring_list r' = snd (fifo_exec (unat (rb_size r)) c (ring_list r)) \<and>
     rb_size r' = rb_size r"
proof (cases c)
  case (Printf str)
  show ?thesis
  proof (cases str)
    case None
    with Printf assms show ?thesis by (simp add: vprintf_failed)
  next
    case (Some s)
    with Printf vprintf_ring [OF assms, of "\<lambda>_. Some s" "()" s] assms show ?thesis by (auto split: if_splits)
  qed
next
  case (Drain n)
  have "unat (of_nat (min (unat n) (length (ring_list r))) :: u64) = min (unat n) (length (ring_list r))"
    by (rule unat_of_nat_less) (use unsigned_less [where 'a = nat, of n] in auto)
  then have "uint (of_nat (min (unat n) (length (ring_list r))) :: u64) =
      int (min (unat n) (length (ring_list r)))" by (metis uint_nat)
  with Drain drain_ring [OF assms refl, of n] show ?thesis by (auto simp: Let_def)
next
  case (Write_fd n)
  let ?n = "min (nat n) (length (ring_list r))"
  have le: "?n \<le> unat (rb_in r - rb_out r)" by simp
  have "nat (min n (int (length (ring_list r)))) = ?n" by (simp add: min_def nat_le_iff)
  then show ?thesis using Write_fd assms ring_drop [OF assms le]
      write_ring [OF assms, of 0 "\<lambda>bs. min n (int (length bs))"]
    by (auto simp: Let_def simp del: length_ring_list)
next
  case (Read_fd input)
  show ?thesis
  proof (cases input)
    case None
    with Read_fd assms show ?thesis by (simp add: read_failed)
  next
    case (Some bs)
    with Read_fd read_ring [OF assms, of 0 bs] assms show ?thesis
      by (auto simp: Let_def split: if_splits)
  qed
qed (use ring_levels [OF assms] assms in simp_all)

lemma ring_run_fifo:
  assumes "ring_ok r"
  shows "\<exists>r'. ring_run r cs = Some (fst (fifo_run (unat (rb_size r)) (ring_list r) cs), r') \<and>
     ring_ok r' \<and> ring_list r' = snd (fifo_run (unat (rb_size r)) (ring_list r) cs)"
  using assms
proof (induction cs arbitrary: r)
  case Nil
  then show ?case by simp
next
  case (Cons c cs)
  from ring_exec_fifo [OF Cons.prems, of c] obtain r1 where
    "ring_exec c r = Some (fst (fifo_exec (unat (rb_size r)) c (ring_list r)), Some r1)" "ring_ok r1"
    "ring_list r1 = snd (fifo_exec (unat (rb_size r)) c (ring_list r))" "rb_size r1 = rb_size r"
    by blast
  with Cons.IH [of r1] show ?case by (auto simp: case_prod_beta Let_def)
qed

section \<open>Properties\<close>

text \<open>
  C25: a ring buffer made by \<open>ringbuf_new\<close> for any size from 2 to \<open>2 ^ 31\<close> is a byte queue: its
  capacity is the next power of two, and under every sequence of prints, drains, writes to and
  reads from a file descriptor and questions for the fill level, failing ones included, no copy
  leaves the buffer, every returned value is the one of a bounded byte queue of that capacity, each
  write puts the oldest bytes of that queue on the descriptor in order, and the ring holds that
  queue's bytes in order.
\<close>

theorem ringbuf_refines_fifo:
  assumes "2 \<le> sz" "sz \<le> 2 ^ 31"
  shows "\<exists>r r'. ringbuf_new True junk sz = Some (Some r) \<and>
     unat sz \<le> unat (rb_size r) \<and> unat (rb_size r) < 2 * unat sz \<and>
     (\<exists>k. rb_size r = 2 ^ k) \<and>
     ring_run r cs = Some (fst (fifo_run (unat (rb_size r)) [] cs), r') \<and>
     ring_list r' = snd (fifo_run (unat (rb_size r)) [] cs)"
proof -
  from ringbuf_new_ok [OF assms, of junk] obtain r where
    r: "ringbuf_new True junk sz = Some (Some r)" "ring_ok r" "ring_list r = []"
      "unat sz \<le> unat (rb_size r)" "unat (rb_size r) < 2 * unat sz" by blast
  from ring_run_fifo [OF r(2), of cs] r show ?thesis by (auto elim!: ring_okE)
qed

text \<open>Witness of \<open>ringbuf_refines_fifo\<close>: the second print wraps around, and a write sends it behind the rest of the first.\<close>

definition ring_example :: "rb_op list" where
  "ring_example = [Printf (Some [1, 2, 3, 4, 5, 6]), Drain 5, Printf (Some [7, 8, 9, 10]), Len, Write_fd (-1), Write_fd 4]"

theorem ringbuf_refines_fifo_witness:
  "\<exists>r r'. ringbuf_new True (\<lambda>_. 0) 7 = Some (Some r) \<and> unat (rb_size r) < 14 \<and>
     ring_run r ring_example =
       Some ([(6, []), (5, []), (4, []), (5, []), (-1, []), (4, [6, 7, 8, 9])], r') \<and> ring_list r' = [10]"
proof -
  have "fifo_run n [] ring_example =
      ([(6, []), (5, []), (4, []), (5, []), (-1, []), (4, [6, 7, 8, 9])], [10])" if "7 \<le> n" for n
    using that by (simp add: ring_example_def Let_def)
  moreover from ringbuf_refines_fifo [of 7 "\<lambda>_. 0" ring_example] obtain r r' where
    "ringbuf_new True (\<lambda>_. 0) 7 = Some (Some r)" "7 \<le> unat (rb_size r)" "unat (rb_size r) < 14"
    "ring_run r ring_example = Some (fst (fifo_run (unat (rb_size r)) [] ring_example), r')"
    "ring_list r' = snd (fifo_run (unat (rb_size r)) [] ring_example)" by (simp, blast)
  ultimately show ?thesis by (intro exI [of _ r] exI [of _ r']) simp
qed

text \<open>
  \<open>ringbuf_write\<close> hands the kernel exactly the bytes the ring holds, oldest first, split at
  the end of the buffer, and afterwards holds what the kernel did not take; on an error nothing
  changes.
\<close>

theorem ringbuf_write_contents:
  assumes "ring_ok r" "0 \<le> fd" "\<And>bs. w bs \<le> int (length bs)"
  shows "\<exists>r'. ringbuf_write (Some r) fd (\<lambda>iov0 iov1. w (iov0 @ iov1)) =
       (if ring_list r = [] then 0 else if w (ring_list r) < 0 then -1 else w (ring_list r), Some r',
        if ring_list r = [] then [] else take (nat (w (ring_list r))) (ring_list r)) \<and>
     ring_ok r' \<and>
     ring_list r' = (if ring_list r = [] then [] else drop (nat (w (ring_list r))) (ring_list r))"
proof -
  have "nat (w (ring_list r)) \<le> unat (rb_in r - rb_out r)"
    using assms(3) [of "ring_list r"] by (simp add: nat_le_iff)
  from ring_drop [OF assms(1) this] write_ring [OF assms] assms(1) show ?thesis
    by (auto simp del: length_ring_list)
qed

theorem ringbuf_write_contents_witness:
  "let r = \<lparr>rb_buffer = [10, 11, 12, 13], rb_size = 4, rb_in = 5, rb_out = 2,
            rb_in_tracing = None, rb_in_data = 0\<rparr>
   in ring_list r = [12, 13, 10] \<and>
      (\<exists>r'. ringbuf_write (Some r) 0 (\<lambda>iov0 iov1. int (min 2 (length (iov0 @ iov1)))) = (2, Some r', [12, 13]) \<and>
            ring_ok r' \<and> ring_list r' = [10])"
proof -
  let ?r = "\<lparr>rb_buffer = [10, 11, 12, 13], rb_size = 4, rb_in = 5, rb_out = 2,
             rb_in_tracing = None, rb_in_data = 0\<rparr>"
  have l: "ring_list ?r = [12, 13, 10]"
    by (simp add: ring_list_def ring_nat_def upt_rec)
  have ok: "ring_ok ?r" by (auto simp: ring_ok_def intro!: exI [of _ 2])
  from ringbuf_write_contents [OF ok, of 0 "\<lambda>bs. int (min 2 (length bs))"]
  show ?thesis by (simp add: l)
qed

text \<open>
  For a requested size above \<open>2 ^ 31\<close> that \<open>ringbuf_new\<close> accepts (it rejects only sizes above
  \<^verbatim>\<open>UINT_MAX\<close>), the rounding shifts an \<^verbatim>\<open>int\<close> by 32 bits, which C does not define.
\<close>

theorem ringbuf_new_shift_undefined:
  assumes "2 ^ 31 < sz" "sz \<le> 0xFFFFFFFF"
  shows "ringbuf_new mem junk sz = None"
proof -
  have "2 \<le> sz" using assms(1) by (simp add: word_le_nat_alt word_less_nat_alt)
  note f = fls_size [OF this assms(2)]
  have "2 ^ 31 < unat sz" using assms(1) by (simp add: word_less_nat_alt)
  with f(3) have "(2::nat) ^ 31 < 2 ^ fls (ucast sz - 1)" by linarith
  then have "31 < fls (ucast sz - 1)" by (rule power_less_imp_less_exp [rotated]) simp
  with assms \<open>2 \<le> sz\<close> show ?thesis by (simp add: ringbuf_new_def align_power2_def not_less)
qed

theorem ringbuf_new_shift_undefined_witness: "ringbuf_new True (\<lambda>_. 0) 0x80000001 = None"
  by (rule ringbuf_new_shift_undefined) simp_all

end
