(* ===== verification/Bt_Uuid.thy ===== *)
theory Bt_Uuid
  imports Bt_Prelude
begin

text \<open>
  Bluetooth UUIDs: \<^verbatim>\<open>lib/uuid.c\<close> and \<^verbatim>\<open>lib/uuid.h\<close>.  The tagged union \<^verbatim>\<open>bt_uuid_t\<close> is a datatype;
  a 128-bit UUID is stored as sixteen bytes, most significant first.  The parts of \<^verbatim>\<open>snprintf\<close>,
  \<^verbatim>\<open>sscanf\<close>, \<^verbatim>\<open>strtol\<close> and \<^verbatim>\<open>memcmp\<close> that the file uses are written out first.
\<close>

section \<open>The C library functions the file uses\<close>

text \<open>
  The result of \<^verbatim>\<open>memcmp\<close> is only ever compared with zero: its sign is that of the first
  difference.
\<close>

fun memcmp :: "bytes \<Rightarrow> bytes \<Rightarrow> int" where
  "memcmp (a # as) (b # bs) = (if a < b then -1 else if b < a then 1 else memcmp as bs)"
| "memcmp _ _ = 0"

definition isspace :: "char \<Rightarrow> bool" where
  "isspace c \<longleftrightarrow> c \<in> {CHR '' '', CHR 0x09, CHR 0x0A, CHR 0x0B, CHR 0x0C, CHR 0x0D}"

definition hex_digits :: string where
  "hex_digits = ''0123456789abcdef''"

definition hex_digit :: "nat \<Rightarrow> char" where
  "hex_digit n = hex_digits ! (n mod 16)"

definition hex_val :: "char \<Rightarrow> nat option" where
  "hex_val c =
     (let n = of_char c :: nat
      in if 48 \<le> n \<and> n \<le> 57 then Some (n - 48)
         else if 97 \<le> n \<and> n \<le> 102 then Some (n - 87)
         else if 65 \<le> n \<and> n \<le> 70 then Some (n - 55) else None)"

text \<open>\<^verbatim>\<open>%.<w>x\<close> of a value of \<open>4 * w\<close> bits: exactly \<open>w\<close> lower case digits.\<close>

primrec print_x :: "nat \<Rightarrow> nat \<Rightarrow> string" where
  "print_x 0 v = []"
| "print_x (Suc w) v = print_x w (v div 16) @ [hex_digit v]"

text \<open>At most \<open>w\<close> hexadecimal digits, their value and what follows them.\<close>

fun scan_digits :: "nat \<Rightarrow> nat \<Rightarrow> string \<Rightarrow> nat \<times> string" where
  "scan_digits (Suc w) acc (c # cs) =
     (case hex_val c of Some d \<Rightarrow> scan_digits w (16 * acc + d) cs | None \<Rightarrow> (acc, c # cs))"
| "scan_digits _ acc cs = (acc, cs)"

definition starts_hex :: "string \<Rightarrow> bool" where
  "starts_hex s = (case s of c # _ \<Rightarrow> hex_val c \<noteq> None | [] \<Rightarrow> False)"

text \<open>A sign and a \<open>0x\<close> prefix count towards the field width.\<close>

definition scan_sign :: "nat \<Rightarrow> string \<Rightarrow> bool \<times> nat \<times> string" where
  "scan_sign w s =
     (case s of c # cs \<Rightarrow> if 0 < w \<and> c = CHR ''-'' then (True, w - 1, cs)
                         else if 0 < w \<and> c = CHR ''+'' then (False, w - 1, cs) else (False, w, s)
      | [] \<Rightarrow> (False, w, s))"

definition scan_prefix :: "nat \<Rightarrow> string \<Rightarrow> nat \<times> string" where
  "scan_prefix w s =
     (case s of c # x # cs \<Rightarrow>
          if 2 < w \<and> c = CHR ''0'' \<and> (x = CHR ''x'' \<or> x = CHR ''X'') \<and> starts_hex cs
          then (w - 2, cs) else (w, s)
      | _ \<Rightarrow> (w, s))"

text \<open>\<^verbatim>\<open>%<w>x\<close>: leading space is skipped; \<open>None\<close> is a matching failure.\<close>

definition scan_x :: "nat \<Rightarrow> string \<Rightarrow> (int \<times> string) option" where
  "scan_x w s =
     (let (neg, w, s) = scan_sign w (dropWhile isspace s);
          (w, s) = scan_prefix w s
      in if 0 < w \<and> starts_hex s
         then let (v, rest) = scan_digits w 0 s in Some (if neg then - int v else int v, rest)
         else None)"

text \<open>A literal of the format string, and \<^verbatim>\<open>%1[..]\<close>.\<close>

fun scan_lit :: "string \<Rightarrow> string \<Rightarrow> string option" where
  "scan_lit [] s = Some s"
| "scan_lit (l # ls) (c # cs) = (if l = c then scan_lit ls cs else None)"
| "scan_lit (l # ls) [] = None"

definition scan_one_of :: "string \<Rightarrow> string \<Rightarrow> string option" where
  "scan_one_of cset s = (case s of c # cs \<Rightarrow> if c \<in> set cset then Some cs else None | [] \<Rightarrow> None)"

text \<open>\<^verbatim>\<open>strtol(s, &endptr, 16)\<close>: the value and what \<^verbatim>\<open>endptr\<close> points to.\<close>

definition strtol :: "string \<Rightarrow> int \<times> string" where
  "strtol s =
     (case scan_x (length s + 3) s of
        Some (v, rest) \<Rightarrow> (max (- (2 ^ 63)) (min (2 ^ 63 - 1) v), rest)
      | None \<Rightarrow> (0, s))"

section \<open>UUIDs\<close>

datatype bt_uuid_t = BT_UUID_UNSPEC | BT_UUID16 u16 | BT_UUID32 u32 | BT_UUID128 bytes

definition bluetooth_base_uuid :: bytes where
  "bluetooth_base_uuid =
     [0x00, 0x00, 0x00, 0x00, 0x00, 0x00, 0x10, 0x00,
      0x80, 0x00, 0x00, 0x80, 0x5F, 0x9B, 0x34, 0xFB]"

definition BASE_UUID16_OFFSET :: nat where
  "BASE_UUID16_OFFSET = 2"

definition BASE_UUID32_OFFSET :: nat where
  "BASE_UUID32_OFFSET = 0"

text \<open>Overwrite of a part of the sixteen bytes, always within them.\<close>

definition patch :: "nat \<Rightarrow> bytes \<Rightarrow> bytes \<Rightarrow> bytes" where
  "patch off bs buf = (case buf_write buf off bs of Some b \<Rightarrow> b | None \<Rightarrow> buf)"

definition bt_uuid16_to_uuid128 :: "u16 \<Rightarrow> bt_uuid_t" where
  "bt_uuid16_to_uuid128 src =
     BT_UUID128 (patch BASE_UUID16_OFFSET (put_be16 src) bluetooth_base_uuid)"

definition bt_uuid32_to_uuid128 :: "u32 \<Rightarrow> bt_uuid_t" where
  "bt_uuid32_to_uuid128 src =
     BT_UUID128 (patch BASE_UUID32_OFFSET (put_be32 src) bluetooth_base_uuid)"

text \<open>The destination is left alone when the source is unspecified.\<close>

definition bt_uuid_to_uuid128 :: "bt_uuid_t \<Rightarrow> bt_uuid_t \<Rightarrow> bt_uuid_t" where
  "bt_uuid_to_uuid128 src dst =
     (case src of
        BT_UUID128 v \<Rightarrow> src
      | BT_UUID32 v \<Rightarrow> bt_uuid32_to_uuid128 v
      | BT_UUID16 v \<Rightarrow> bt_uuid16_to_uuid128 v
      | BT_UUID_UNSPEC \<Rightarrow> dst)"

text \<open>
  \<^verbatim>\<open>bt_uuid128_cmp\<close> reads the 128-bit member whatever the tag; of a value that was never
  written (\<open>BT_UUID_UNSPEC\<close>) the comparison has no meaning.
\<close>

definition bt_uuid128_cmp :: "bt_uuid_t \<Rightarrow> bt_uuid_t \<Rightarrow> int option" where
  "bt_uuid128_cmp u1 u2 =
     (case (u1, u2) of (BT_UUID128 a, BT_UUID128 b) \<Rightarrow> Some (memcmp a b) | _ \<Rightarrow> None)"

definition bt_uuid16_create :: "u16 \<Rightarrow> bt_uuid_t" where
  "bt_uuid16_create v = BT_UUID16 v"

definition bt_uuid32_create :: "u32 \<Rightarrow> bt_uuid_t" where
  "bt_uuid32_create v = BT_UUID32 v"

definition bt_uuid128_create :: "bytes \<Rightarrow> bt_uuid_t" where
  "bt_uuid128_create v = BT_UUID128 v"

definition bt_uuid_cmp :: "bt_uuid_t \<Rightarrow> bt_uuid_t \<Rightarrow> int option" where
  "bt_uuid_cmp uuid1 uuid2 =
     (let u1 = bt_uuid_to_uuid128 uuid1 BT_UUID_UNSPEC;
          u2 = bt_uuid_to_uuid128 uuid2 BT_UUID_UNSPEC
      in bt_uuid128_cmp u1 u2)"

fun get_be16 :: "bytes \<Rightarrow> u16" where
  "get_be16 (b0 # b1 # _) = push_bit 8 (ucast b0) OR ucast b1"
| "get_be16 _ = 0"

fun get_be32 :: "bytes \<Rightarrow> u32" where
  "get_be32 (b0 # b1 # b2 # b3 # _) =
     push_bit 24 (ucast b0) OR push_bit 16 (ucast b1) OR push_bit 8 (ucast b2) OR ucast b3"
| "get_be32 _ = 0"

definition EINVAL :: int where
  "EINVAL = 22"

text \<open>\<^verbatim>\<open>snprintf\<close> stores at most \<open>n - 1\<close> characters.\<close>

definition bt_uuid_to_string :: "bt_uuid_t option \<Rightarrow> nat \<Rightarrow> int \<times> string" where
  "bt_uuid_to_string uuid n =
     (if uuid = None \<or> uuid = Some BT_UUID_UNSPEC then (- EINVAL, take (n - 1) ''NULL'')
      else case bt_uuid_to_uuid128 (the uuid) BT_UUID_UNSPEC of
        BT_UUID128 data \<Rightarrow>
          let data0 = get_be32 (drop 0 data);
              data1 = get_be16 (drop 4 data);
              data2 = get_be16 (drop 6 data);
              data3 = get_be16 (drop 8 data);
              data4 = get_be32 (drop 10 data);
              data5 = get_be16 (drop 14 data)
          in (0, take (n - 1) (print_x 8 (unat data0) @ ''-'' @ print_x 4 (unat data1) @ ''-'' @
                               print_x 4 (unat data2) @ ''-'' @ print_x 4 (unat data3) @ ''-'' @
                               print_x 8 (unat data4) @ print_x 4 (unat data5)))
      | _ \<Rightarrow> (0, []))"

definition is_uuid128 :: "string \<Rightarrow> bool" where
  "is_uuid128 s \<longleftrightarrow>
     length s = 36 \<and> s ! 8 = CHR ''-'' \<and> s ! 13 = CHR ''-'' \<and> s ! 18 = CHR ''-'' \<and> s ! 23 = CHR ''-''"

definition is_base_uuid128 :: "string \<Rightarrow> bool" where
  "is_base_uuid128 s \<longleftrightarrow>
     is_uuid128 s \<and>
     (do { s \<leftarrow> scan_lit ''0000'' s;
           (uuid, s) \<leftarrow> scan_x 4 s;
           s \<leftarrow> scan_lit ''-0000-1000-8000-00805'' s;
           s \<leftarrow> scan_one_of ''fF'' s;
           s \<leftarrow> scan_lit ''9'' s;
           s \<leftarrow> scan_one_of ''bB'' s;
           s \<leftarrow> scan_lit ''34'' s;
           s \<leftarrow> scan_one_of ''fF'' s;
           s \<leftarrow> scan_one_of ''bB'' s;
           Some () }) = Some ()"

definition is_uuid32 :: "string \<Rightarrow> bool" where
  "is_uuid32 s \<longleftrightarrow> length s = 8 \<or> length s = 10"

definition is_uuid16 :: "string \<Rightarrow> bool" where
  "is_uuid16 s \<longleftrightarrow> length s = 4 \<or> length s = 6"

text \<open>In the parsers \<open>None\<close> is \<^verbatim>\<open>-EINVAL\<close>, with the output argument untouched.\<close>

definition bt_string_to_uuid16 :: "string \<Rightarrow> bt_uuid_t option" where
  "bt_string_to_uuid16 s =
     (let (v, endptr) = strtol s
      in if endptr = [] \<or> hd endptr = CHR ''-'' then Some (bt_uuid16_create (word_of_int v))
         else None)"

definition bt_string_to_uuid32 :: "string \<Rightarrow> bt_uuid_t option" where
  "bt_string_to_uuid32 s =
     (let (v, endptr) = strtol s
      in if endptr = [] then Some (bt_uuid32_create (word_of_int v)) else None)"

definition bt_string_to_uuid128 :: "string \<Rightarrow> bt_uuid_t option" where
  "bt_string_to_uuid128 s = do {
     (data0, s) \<leftarrow> scan_x 8 s; s \<leftarrow> scan_lit ''-'' s;
     (data1, s) \<leftarrow> scan_x 4 s; s \<leftarrow> scan_lit ''-'' s;
     (data2, s) \<leftarrow> scan_x 4 s; s \<leftarrow> scan_lit ''-'' s;
     (data3, s) \<leftarrow> scan_x 4 s; s \<leftarrow> scan_lit ''-'' s;
     (data4, s) \<leftarrow> scan_x 8 s;
     (data5, s) \<leftarrow> scan_x 4 s;
     Some (bt_uuid128_create
       (put_be32 (word_of_int data0) @ put_be16 (word_of_int data1) @ put_be16 (word_of_int data2) @
        put_be16 (word_of_int data3) @ put_be32 (word_of_int data4) @ put_be16 (word_of_int data5))) }"

definition bt_string_to_uuid :: "string \<Rightarrow> bt_uuid_t option" where
  "bt_string_to_uuid s =
     (if is_base_uuid128 s then bt_string_to_uuid16 (drop 4 s)
      else if is_uuid128 s then bt_string_to_uuid128 s
      else if is_uuid32 s then bt_string_to_uuid32 s
      else if is_uuid16 s then bt_string_to_uuid16 s
      else None)"

definition bt_uuid_strcmp :: "string \<Rightarrow> string \<Rightarrow> int option" where
  "bt_uuid_strcmp a b =
     (case bt_string_to_uuid a of None \<Rightarrow> Some (- EINVAL)
      | Some u1 \<Rightarrow> (case bt_string_to_uuid b of None \<Rightarrow> Some (- EINVAL)
        | Some u2 \<Rightarrow> bt_uuid_cmp u1 u2))"

text \<open>\<^verbatim>\<open>bt_uuid_to_le\<close> returns the bytes it writes; \<open>None\<close> is \<^verbatim>\<open>-EINVAL\<close>.\<close>

definition bt_uuid_to_le :: "bt_uuid_t \<Rightarrow> bytes option" where
  "bt_uuid_to_le src =
     (case src of
        BT_UUID16 v \<Rightarrow> Some (put_le16 v)
      | BT_UUID32 v \<Rightarrow>
          (case bt_uuid32_to_uuid128 v of BT_UUID128 b \<Rightarrow> Some (bswap_128 b) | _ \<Rightarrow> None)
      | BT_UUID128 b \<Rightarrow> Some (bswap_128 b)
      | BT_UUID_UNSPEC \<Rightarrow> None)"

definition bt_uuid_len :: "bt_uuid_t \<Rightarrow> nat" where
  "bt_uuid_len uuid =
     (case uuid of BT_UUID_UNSPEC \<Rightarrow> 0 div 8 | BT_UUID16 _ \<Rightarrow> 16 div 8 | BT_UUID32 _ \<Rightarrow> 32 div 8
      | BT_UUID128 _ \<Rightarrow> 128 div 8)"

section \<open>Lemmas\<close>

text \<open>A UUID a caller may pass: it has a type, and sixteen bytes when it is a long one.\<close>

definition uuid_ok :: "bt_uuid_t \<Rightarrow> bool" where
  "uuid_ok u =
     (case u of BT_UUID_UNSPEC \<Rightarrow> False | BT_UUID16 _ \<Rightarrow> True | BT_UUID32 _ \<Rightarrow> True
      | BT_UUID128 b \<Rightarrow> length b = 16)"

text \<open>The sixteen bytes a UUID denotes.\<close>

definition uuid_bytes :: "bt_uuid_t \<Rightarrow> bytes" where
  "uuid_bytes u = (case bt_uuid_to_uuid128 u BT_UUID_UNSPEC of BT_UUID128 b \<Rightarrow> b | _ \<Rightarrow> [])"

lemma uuid16_bytes:
  "bt_uuid16_to_uuid128 v = BT_UUID128 ([0, 0] @ put_be16 v @ drop 4 bluetooth_base_uuid)"
  by (simp add: bt_uuid16_to_uuid128_def patch_def buf_write_def bluetooth_base_uuid_def
      BASE_UUID16_OFFSET_def put_be16_def)

lemma uuid32_bytes: "bt_uuid32_to_uuid128 v = BT_UUID128 (put_be32 v @ drop 4 bluetooth_base_uuid)"
  by (simp add: bt_uuid32_to_uuid128_def patch_def buf_write_def bluetooth_base_uuid_def
      BASE_UUID32_OFFSET_def put_be32_def)

lemma length_bluetooth_base_uuid [simp]: "length bluetooth_base_uuid = 16"
  by (simp add: bluetooth_base_uuid_def)

lemma length_uuid_bytes: "uuid_ok u \<Longrightarrow> length (uuid_bytes u) = 16"
  by (cases u)
    (simp_all add: uuid_ok_def uuid_bytes_def bt_uuid_to_uuid128_def uuid16_bytes uuid32_bytes)

lemma uuid_to_128_bytes: "uuid_ok u \<Longrightarrow> bt_uuid_to_uuid128 u d = BT_UUID128 (uuid_bytes u)"
  by (cases u)
    (simp_all add: uuid_ok_def uuid_bytes_def bt_uuid_to_uuid128_def uuid16_bytes uuid32_bytes)

lemma uuid_le_length:
  "bt_uuid_to_le u = Some le \<Longrightarrow> length le = (if bt_uuid_len u = 2 then 2 else 16)"
  by (cases u) (auto simp: bt_uuid_to_le_def bt_uuid_len_def split: bt_uuid_t.splits)

lemma memcmp_0_iff: "length a = length b \<Longrightarrow> memcmp a b = 0 \<longleftrightarrow> a = b"
  by (induction a b rule: memcmp.induct) auto

lemma memcmp_swap: "length a = length b \<Longrightarrow> memcmp b a = - memcmp a b"
  by (induction a b rule: memcmp.induct) auto

lemma memcmp_trans: "length a = length b \<Longrightarrow> length b = length c \<Longrightarrow>
    memcmp a b \<le> 0 \<Longrightarrow> memcmp b c \<le> 0 \<Longrightarrow> memcmp a c \<le> 0"
proof (induction a b arbitrary: c rule: memcmp.induct)
  case (1 a as b bs)
  then show ?case by (cases c) (auto split: if_splits)
qed auto

lemma get_put_be16 [byte_simps, simp]: "get_be16 (put_be16 v @ bs) = v"
  by (auto simp: put_be16_def intro!: bit_word_eqI simp: bit_simps)

lemma get_put_be32 [byte_simps, simp]: "get_be32 (put_be32 v @ bs) = v"
proof (rule bit_word_eqI)
  fix n assume "n < LENGTH(32)"
  then consider "n < 8" | "8 \<le> n" "n < 16" | "16 \<le> n" "n < 24" | "24 \<le> n" "n < 32"
    by force
  then show "bit (get_be32 (put_be32 v @ bs)) n \<longleftrightarrow> bit v n"
    by cases (auto simp: put_be32_def bit_simps)
qed

lemma put_get_be16 [byte_simps]: "put_be16 (get_be16 (a # b # bs)) = [a, b]"
  using bit_imp_le_length [of a] bit_imp_le_length [of b]
  by (force simp: put_be16_def intro!: bit_word_eqI simp: bit_simps)

lemma put_get_be32 [byte_simps]: "put_be32 (get_be32 (a # b # c # d # bs)) = [a, b, c, d]"
  using bit_imp_le_length [of a] bit_imp_le_length [of b] bit_imp_le_length [of c]
    bit_imp_le_length [of d]
  by (force simp: put_be32_def intro!: bit_word_eqI simp: bit_simps)

section \<open>Printing and scanning\<close>

lemma length_print_x [simp]: "length (print_x w v) = w"
  by (induction w arbitrary: v) auto

lemma hex_val_hex_digit [simp]: "hex_val (hex_digit v) = Some (v mod 16)"
proof -
  have "\<forall>n\<in>{..<16}. hex_val (hex_digits ! n) = Some n"
    by (simp add: hex_digits_def hex_val_def numeral_eq_Suc lessThan_Suc)
  then show ?thesis by (simp add: hex_digit_def)
qed

lemma hex_val_not_special:
  "hex_val c = Some d \<Longrightarrow> \<not> isspace c \<and> c \<noteq> CHR ''-'' \<and> c \<noteq> CHR ''+'' \<and> c \<noteq> CHR ''x'' \<and> c \<noteq> CHR ''X''"
  by (auto simp: hex_val_def isspace_def)

lemma scan_digits_print:
  "scan_digits (w + k) acc (print_x w v @ rest) = scan_digits k (16 ^ w * acc + v mod 16 ^ w) rest"
proof (induction w arbitrary: v k rest)
  case (Suc w)
  have "scan_digits (Suc w + k) acc (print_x (Suc w) v @ rest) =
        scan_digits (Suc k) (16 ^ w * acc + v div 16 mod 16 ^ w) (hex_digit v # rest)"
    using Suc.IH [of "Suc k" "v div 16" "hex_digit v # rest"] by simp
  also have "\<dots> = scan_digits k (16 * (16 ^ w * acc + v div 16 mod 16 ^ w) + v mod 16) rest"
    by simp
  also have "16 * (16 ^ w * acc + v div 16 mod 16 ^ w) + v mod 16 =
             16 ^ Suc w * acc + v mod 16 ^ Suc w"
    by (simp add: mod_mult2_eq algebra_simps)
  finally show ?case .
qed simp

lemma scan_digits_print_all:
  "v < 16 ^ w \<Longrightarrow> scan_digits w 0 (print_x w v @ rest) = (v, rest)"
  using scan_digits_print [of w 0 0 v rest] by simp

lemma print_x_nth: "i < w \<Longrightarrow> \<exists>n. print_x w v ! i = hex_digit n"
  by (induction w arbitrary: v) (auto simp: nth_append less_Suc_eq)

lemma scan_x_print:
  assumes "2 \<le> w" "v < 16 ^ w"
  shows "scan_x w (print_x w v @ rest) = Some (int v, rest)"
proof -
  from assms(1) obtain c0 c1 cs where cs: "print_x w v = c0 # c1 # cs"
    by (metis Suc_le_length_iff length_print_x numeral_2_eq_2)
  from print_x_nth [of 0 w v] print_x_nth [of 1 w v] assms(1) cs
  obtain n0 n1 where c: "c0 = hex_digit n0" "c1 = hex_digit n1" by auto
  note ns = hex_val_not_special [OF hex_val_hex_digit]
  have "scan_x w (print_x w v @ rest) = (let (v, rest) = scan_digits w 0 (print_x w v @ rest) in
      Some (int v, rest))"
    using assms(1) ns [of n0] ns [of n1]
    by (simp add: scan_x_def cs c scan_sign_def scan_prefix_def starts_hex_def)
  then show ?thesis by (simp add: scan_digits_print_all [OF assms(2)])
qed

lemma print_x_split: "print_x (m + n) v = print_x m (v div 16 ^ n) @ print_x n v"
  by (induction n arbitrary: v) (simp_all add: div_mult2_eq)

lemma print_x_eqD: "v < 16 ^ w \<Longrightarrow> print_x w v = s \<Longrightarrow> v = fst (scan_digits w 0 s)"
  using scan_digits_print_all [of v w "[]"] by simp

lemma scan_lit_Some: "scan_lit l s = Some r \<longleftrightarrow> s = l @ r"
  by (induction l s rule: scan_lit.induct) auto

lemma scan_one_of_Some: "scan_one_of cs s = Some r \<longleftrightarrow> (\<exists>c \<in> set cs. s = c # r)"
  by (auto simp: scan_one_of_def split: list.splits if_splits)

text \<open>The six numbers the string is made of, and the bytes they come from.\<close>

definition uuid_str :: "u32 \<Rightarrow> u16 \<Rightarrow> u16 \<Rightarrow> u16 \<Rightarrow> u32 \<Rightarrow> u16 \<Rightarrow> string" where
  "uuid_str d0 d1 d2 d3 d4 d5 =
     print_x 8 (unat d0) @ ''-'' @ print_x 4 (unat d1) @ ''-'' @ print_x 4 (unat d2) @ ''-'' @
     print_x 4 (unat d3) @ ''-'' @ print_x 8 (unat d4) @ print_x 4 (unat d5)"

definition uuid_data :: "u32 \<Rightarrow> u16 \<Rightarrow> u16 \<Rightarrow> u16 \<Rightarrow> u32 \<Rightarrow> u16 \<Rightarrow> bytes" where
  "uuid_data d0 d1 d2 d3 d4 d5 =
     put_be32 d0 @ put_be16 d1 @ put_be16 d2 @ put_be16 d3 @ put_be32 d4 @ put_be16 d5"

lemma length_uuid_str [simp]: "length (uuid_str d0 d1 d2 d3 d4 d5) = 36"
  by (simp add: uuid_str_def)

lemma bytes16_data:
  assumes "length b = 16"
  shows "b = uuid_data (get_be32 b) (get_be16 (drop 4 b)) (get_be16 (drop 6 b))
               (get_be16 (drop 8 b)) (get_be32 (drop 10 b)) (get_be16 (drop 14 b))"
  using assms
  by (auto simp: numeral_eq_Suc length_Suc_conv uuid_data_def put_get_be16 put_get_be32
      simp del: get_be16.simps get_be32.simps)

lemma unat_u32_pow: "unat (d :: u32) < 16 ^ 8"
  using unsigned_less [of d] by simp

lemma unat_u16_pow: "unat (d :: u16) < 16 ^ 4"
  using unsigned_less [of d] by simp

lemma is_uuid128_str: "is_uuid128 (uuid_str d0 d1 d2 d3 d4 d5)"
  by (simp add: is_uuid128_def) (simp add: uuid_str_def nth_append)

lemma parse_uuid_str:
  "bt_string_to_uuid128 (uuid_str d0 d1 d2 d3 d4 d5) = Some (BT_UUID128 (uuid_data d0 d1 d2 d3 d4 d5))"
proof -
  note p = scan_x_print [of 8, OF _ unat_u32_pow, simplified]
    scan_x_print [of 4, OF _ unat_u16_pow, simplified]
    scan_x_print [of 4, OF _ unat_u16_pow, of _ "[]", simplified]
  show ?thesis
    by (simp add: bt_string_to_uuid128_def uuid_str_def p uuid_data_def bt_uuid128_create_def
        del: print_x.simps)
qed

lemma print_x_mod: "print_x w (v mod 16 ^ w) = print_x w v"
proof (induction w arbitrary: v)
  case (Suc w)
  have "v mod 16 ^ Suc w div 16 = v div 16 mod 16 ^ w"
    by (simp add: mod_mult2_eq)
  moreover have "hex_digit (v mod 16 ^ Suc w) = hex_digit v"
    by (simp add: hex_digit_def mod_mult2_eq)
  ultimately show ?case using Suc.IH [of "v div 16"] by simp
qed simp

lemma scan_x_wide:
  assumes "v < 16 ^ 4" "hex_val c = None"
  shows "scan_x (5 + k) (print_x 4 v @ c # rest) = Some (int v, c # rest)"
proof -
  obtain c0 c1 cs where cs: "print_x 4 v = c0 # c1 # cs"
    using length_print_x [of 4 v] by (cases "print_x 4 v" rule: remdups_adj.cases) auto
  from print_x_nth [of 0 4 v] print_x_nth [of 1 4 v] cs
  obtain n0 n1 where n: "c0 = hex_digit n0" "c1 = hex_digit n1" by auto
  note ns = hex_val_not_special [OF hex_val_hex_digit]
  have "scan_x (5 + k) (print_x 4 v @ c # rest) =
      (let (v, rest) = scan_digits (5 + k) 0 (print_x 4 v @ c # rest) in Some (int v, rest))"
    using ns [of n0] ns [of n1]
    by (simp add: scan_x_def cs n scan_sign_def scan_prefix_def starts_hex_def)
  moreover have "scan_digits (5 + k) 0 (print_x 4 v @ c # rest) = (v, c # rest)"
    using assms scan_digits_print [of 4 "Suc k" 0 v "c # rest"] by simp
  ultimately show ?thesis by simp
qed

lemma strtol_print:
  assumes "v < 16 ^ 4" "hex_val c = None"
  shows "strtol (print_x 4 v @ c # rest) = (int v, c # rest)"
proof -
  have "length (print_x 4 v @ c # rest) + 3 = 5 + (length rest + 3)" by simp
  then show ?thesis
    using scan_x_wide [OF assms, of "length rest + 3" rest] assms(1)
    unfolding strtol_def by (simp only:) simp
qed

text \<open>What the pattern of \<^verbatim>\<open>is_base_uuid128\<close> says of a printed UUID.\<close>

lemma is_base_uuid128_cases:
  assumes "is_base_uuid128 s"
  obtains s1 v f b f' b' r where "s = ''0000'' @ s1"
    "scan_x 4 s1 = Some (v, ''-0000-1000-8000-00805'' @ f # ''9'' @ b # ''34'' @ [f'] @ b' # r)"
    "f \<in> set ''fF''" "b \<in> set ''bB''" "f' \<in> set ''fF''" "b' \<in> set ''bB''"
  using assms that unfolding is_base_uuid128_def bind_eq_Some_conv
  by (clarsimp simp only: scan_lit_Some scan_one_of_Some bind_eq_Some_conv split: prod.splits) auto

lemma base_str_digits:
  assumes "is_base_uuid128 (uuid_str d0 d1 d2 d3 d4 d5)"
  obtains f b f' b' where
    "print_x 4 (unat d0 div 16 ^ 4) = ''0000''" "print_x 4 (unat d1) = ''0000''"
    "print_x 4 (unat d2) = ''1000''" "print_x 4 (unat d3) = ''8000''"
    "print_x 8 (unat d4) = ''00805'' @ f # ''9'' @ [b]" "print_x 4 (unat d5) = ''34'' @ [f', b']"
    "f \<in> set ''fF''" "b \<in> set ''bB''" "f' \<in> set ''fF''" "b' \<in> set ''bB''"
proof -
  let ?hi = "unat d0 div 16 ^ 4" and ?lo = "unat d0 mod 16 ^ 4"
  let ?tl = "''-'' @ print_x 4 (unat d1) @ ''-'' @ print_x 4 (unat d2) @ ''-'' @ print_x 4 (unat d3) @
        ''-'' @ print_x 8 (unat d4) @ print_x 4 (unat d5)"
  have s: "uuid_str d0 d1 d2 d3 d4 d5 = print_x 4 ?hi @ print_x 4 ?lo @ ?tl"
    using print_x_split [of 4 4 "unat d0"] print_x_mod [of 4 "unat d0"] by (simp add: uuid_str_def)
  have scan_lo: "scan_x 4 (print_x 4 ?lo @ r) = Some (int ?lo, r)" for r
    by (rule scan_x_print) simp_all
  from assms obtain s1 v f b f' b' r where
    1: "uuid_str d0 d1 d2 d3 d4 d5 = ''0000'' @ s1" and
    2: "scan_x 4 s1 = Some (v, ''-0000-1000-8000-00805'' @ f # ''9'' @ b # ''34'' @ [f'] @ b' # r)" and
    3: "f \<in> set ''fF''" "b \<in> set ''bB''" "f' \<in> set ''fF''" "b' \<in> set ''bB''"
    by (rule is_base_uuid128_cases) blast
  from 1 have hi: "print_x 4 ?hi = ''0000''" and "s1 = print_x 4 ?lo @ ?tl"
    by (subst (asm) s, subst (asm) append_eq_append_conv, simp, simp)+
  with 2 have tl: "?tl = ''-0000-1000-8000-00805'' @ f # ''9'' @ b # ''34'' @ [f'] @ b' # r"
    by (simp only: scan_lo) simp
  have e: "print_x n x @ xs = ys \<longleftrightarrow> n \<le> length ys \<and> print_x n x = take n ys \<and> xs = drop n ys" for n x xs ys
    by (metis append_eq_conv_conj append_take_drop_id length_print_x length_take min.absorb2 nat_le_linear
        take_all_iff)
  have p5: "print_x 4 (unat d5) = take 4 (print_x 4 (unat d5))" by simp
  from tl have "print_x 4 (unat d1) = ''0000''" "print_x 4 (unat d2) = ''1000''"
    "print_x 4 (unat d3) = ''8000''" "print_x 8 (unat d4) = ''00805'' @ f # ''9'' @ [b]"
    "print_x 4 (unat d5) = ''34'' @ f' # b' # r"
    by (simp_all add: e)
  moreover from this(5) have "r = []" using length_print_x [of 4 "unat d5"] by simp
  ultimately show ?thesis using that [OF hi] 3 by simp
qed

lemma unat_numeralD: "unat (d :: 'a::len word) = numeral n \<Longrightarrow> d = numeral n"
  by (metis of_nat_numeral of_nat_unat ucast_id)

lemma put_be32_ucast: "put_be32 (ucast (v :: u16)) = [0, 0] @ put_be16 v"
  using bit_imp_le_length [of v]
  by (force simp: put_be32_def put_be16_def intro!: bit_word_eqI simp: bit_simps)

lemma uuid_bytes_short:
  "uuid_bytes (BT_UUID16 a) = put_be32 (ucast a) @ drop 4 bluetooth_base_uuid"
  "uuid_bytes (BT_UUID32 b) = put_be32 b @ drop 4 bluetooth_base_uuid"
  "uuid_bytes (BT_UUID128 bs) = bs"
  by (simp_all add: uuid_bytes_def bt_uuid_to_uuid128_def uuid16_bytes uuid32_bytes put_be32_ucast)

lemma put_be32_inj [simp]: "put_be32 a = put_be32 b \<longleftrightarrow> a = b"
  by (metis get_put_be32)

lemma ucast_u16_u32_inj [simp]: "ucast (a :: u16) = (ucast b :: u32) \<longleftrightarrow> a = b"
  using bit_imp_le_length [of a] bit_imp_le_length [of b] by (force simp: bit_eq_iff bit_simps)

lemma uuid_cmp_memcmp:
  "uuid_ok u \<Longrightarrow> uuid_ok v \<Longrightarrow> bt_uuid_cmp u v = Some (memcmp (uuid_bytes u) (uuid_bytes v))"
  by (simp add: bt_uuid_cmp_def uuid_to_128_bytes bt_uuid128_cmp_def)

lemma uuid_cmp_0_iff:
  "uuid_ok u \<Longrightarrow> uuid_ok v \<Longrightarrow> bt_uuid_cmp u v = Some 0 \<longleftrightarrow> uuid_bytes u = uuid_bytes v"
  by (simp add: uuid_cmp_memcmp memcmp_0_iff length_uuid_bytes)

lemma uuid_ok_simps [simp]:
  "uuid_ok (BT_UUID16 a)" "uuid_ok (BT_UUID32 b)" "uuid_ok (BT_UUID128 bs) \<longleftrightarrow> length bs = 16"
  "\<not> uuid_ok BT_UUID_UNSPEC"
  by (simp_all add: uuid_ok_def)

lemma put_be_const:
  "put_be16 0 = [0, 0]" "put_be16 0x1000 = [0x10, 0]" "put_be16 0x8000 = [0x80, 0]"
  "put_be32 0x00805f9b = [0, 0x80, 0x5f, 0x9b]" "put_be16 0x34fb = [0x34, 0xfb]"
  by (simp_all add: put_be16_def put_be32_def drop_bit_eq_div)

lemma base_str_data:
  assumes "is_base_uuid128 (uuid_str d0 d1 d2 d3 d4 d5)"
  shows "uuid_data d0 d1 d2 d3 d4 d5 =
         [0, 0] @ put_be16 (of_nat (unat d0 mod 16 ^ 4)) @ drop 4 bluetooth_base_uuid"
proof -
  from assms obtain f b f' b' where
    p: "print_x 4 (unat d0 div 16 ^ 4) = ''0000''" "print_x 4 (unat d1) = ''0000''"
    "print_x 4 (unat d2) = ''1000''" "print_x 4 (unat d3) = ''8000''"
    "print_x 8 (unat d4) = ''00805'' @ f # ''9'' @ [b]" "print_x 4 (unat d5) = ''34'' @ [f', b']" and
    c: "f \<in> set ''fF''" "b \<in> set ''bB''" "f' \<in> set ''fF''" "b' \<in> set ''bB''"
    by (rule base_str_digits)
  have v: "hex_val f = Some 15" "hex_val b = Some 11" "hex_val f' = Some 15" "hex_val b' = Some 11"
    using c by (auto simp: hex_val_def)
  have w: "scan_digits 4 0 s = scan_digits (Suc (Suc (Suc (Suc 0)))) 0 s" for s
    by (simp add: numeral_eq_Suc)
  have w8: "scan_digits 8 0 s = scan_digits (Suc (Suc (Suc (Suc (Suc (Suc (Suc (Suc 0)))))))) 0 s" for s
    by (simp add: numeral_eq_Suc)
  note h = hex_val_def [of "CHR ''0''"] hex_val_def [of "CHR ''1''"] hex_val_def [of "CHR ''8''"]
    hex_val_def [of "CHR ''9''"] hex_val_def [of "CHR ''3''"]
    hex_val_def [of "CHR ''4''"] hex_val_def [of "CHR ''5''"]
  have "unat d0 div 16 ^ 4 = 0"
    using print_x_eqD [OF _ p(1)] unat_u32_pow [of d0] by (simp add: less_mult_imp_div_less w h)
  then have d0: "unat d0 < 16 ^ 4" by (simp add: div_eq_0_iff)
  have d1: "d1 = 0" using print_x_eqD [OF unat_u16_pow p(2)] by (simp add: w h unat_eq_0)
  have "unat d2 = 0x1000" using print_x_eqD [OF unat_u16_pow p(3)] by (simp add: w h)
  then have d2: "d2 = 0x1000" by (rule unat_numeralD)
  have "unat d3 = 0x8000" using print_x_eqD [OF unat_u16_pow p(4)] by (simp add: w h)
  then have d3: "d3 = 0x8000" by (rule unat_numeralD)
  have "unat d4 = 0x00805f9b" using print_x_eqD [OF unat_u32_pow p(5)] by (simp add: w8 v h)
  then have d4: "d4 = 0x00805f9b" by (rule unat_numeralD)
  have "unat d5 = 0x34fb" using print_x_eqD [OF unat_u16_pow p(6)] by (simp add: w v h)
  then have d5: "d5 = 0x34fb" by (rule unat_numeralD)
  have "take_bit 16 d0 = d0"
    using d0 by (simp add: word_unat_eq_iff unsigned_take_bit_eq take_bit_nat_eq_self)
  then have "d0 = ucast (of_nat (unat d0) :: u16)"
    using d0 by (simp add: word_unat_eq_iff unsigned_ucast_eq take_bit_nat_eq_self)
  then have "put_be32 d0 = [0, 0] @ put_be16 (of_nat (unat d0))"
    using put_be32_ucast by metis
  then show ?thesis
    using d0 by (simp add: uuid_data_def d1 d2 d3 d4 d5 bluetooth_base_uuid_def put_be_const)
qed

lemma uuid_to_string_str:
  assumes "uuid_ok u" "37 \<le> n"
  obtains d0 d1 d2 d3 d4 d5 where
    "bt_uuid_to_string (Some u) n = (0, uuid_str d0 d1 d2 d3 d4 d5)"
    "uuid_bytes u = uuid_data d0 d1 d2 d3 d4 d5"
proof -
  let ?b = "uuid_bytes u"
  have "u \<noteq> BT_UUID_UNSPEC" using assms(1) by (auto simp: uuid_ok_def)
  then have "bt_uuid_to_string (Some u) n = (0, take (n - 1) (uuid_str (get_be32 (drop 0 ?b))
      (get_be16 (drop 4 ?b)) (get_be16 (drop 6 ?b)) (get_be16 (drop 8 ?b)) (get_be32 (drop 10 ?b))
      (get_be16 (drop 14 ?b))))"
    by (simp add: bt_uuid_to_string_def uuid_to_128_bytes [OF assms(1)] uuid_str_def)
  moreover have "uuid_bytes u = uuid_data (get_be32 (drop 0 ?b)) (get_be16 (drop 4 ?b))
      (get_be16 (drop 6 ?b)) (get_be16 (drop 8 ?b)) (get_be32 (drop 10 ?b)) (get_be16 (drop 14 ?b))"
    using bytes16_data [OF length_uuid_bytes [OF assms(1)]] by simp
  ultimately show ?thesis using assms(2) by (intro that) auto
qed

lemma parse_base_str:
  assumes "is_base_uuid128 (uuid_str d0 d1 d2 d3 d4 d5)"
  shows "bt_string_to_uuid16 (drop 4 (uuid_str d0 d1 d2 d3 d4 d5)) =
         Some (BT_UUID16 (of_nat (unat d0 mod 16 ^ 4)))"
proof -
  let ?lo = "unat d0 mod 16 ^ 4"
  have s: "print_x 8 (unat d0) = print_x 4 (unat d0 div 16 ^ 4) @ print_x 4 ?lo"
    using print_x_split [of 4 4 "unat d0"] print_x_mod [of 4 "unat d0"] by simp
  have "strtol (print_x 4 ?lo @ CHR ''-'' # r) = (int ?lo, CHR ''-'' # r)" for r
    by (rule strtol_print) (simp_all add: hex_val_def)
  then show ?thesis
    unfolding bt_string_to_uuid16_def uuid_str_def s
    by (simp add: bt_uuid16_create_def)
qed

section \<open>Properties\<close>

text \<open>
  Two UUIDs compare equal exactly when they denote the same sixteen bytes, whatever widths
  they are stored with; in particular a 16-bit and a 32-bit UUID are equal exactly when their
  numbers are, and the comparison is antisymmetric.
\<close>

theorem uuid_cmp_equal:
  assumes "uuid_ok u" "uuid_ok v"
  shows "(bt_uuid_cmp u v = Some 0 \<longleftrightarrow> uuid_bytes u = uuid_bytes v) \<and>
    bt_uuid_cmp v u = map_option uminus (bt_uuid_cmp u v) \<and>
    (\<forall>a b. bt_uuid_cmp (BT_UUID16 a) (BT_UUID16 b) = Some 0 \<longleftrightarrow> a = b) \<and>
    (\<forall>a b. bt_uuid_cmp (BT_UUID16 a) (BT_UUID32 b) = Some 0 \<longleftrightarrow> ucast a = b)"
  using assms memcmp_swap [of "uuid_bytes u" "uuid_bytes v"]
  by (simp add: uuid_cmp_0_iff uuid_bytes_short) (simp add: uuid_cmp_memcmp length_uuid_bytes)

theorem uuid_cmp_equal_witness:
  "bt_uuid_cmp (BT_UUID16 0x2800) (BT_UUID128 (uuid_bytes (BT_UUID16 0x2800))) = Some 0"
  using uuid_cmp_equal [of "BT_UUID16 0x2800" "BT_UUID128 (uuid_bytes (BT_UUID16 0x2800))"]
  by (simp add: uuid_bytes_short length_uuid_bytes)

text \<open>
  C26: printing a UUID into a buffer of \<^verbatim>\<open>MAX_LEN_UUID_STR\<close> bytes or more and parsing the string
  gives a UUID that compares equal to the printed one, whatever its width.
\<close>

theorem uuid_string_roundtrip:
  assumes "uuid_ok u" "37 \<le> n"
  shows "fst (bt_uuid_to_string (Some u) n) = 0 \<and>
    (\<exists>v. bt_string_to_uuid (snd (bt_uuid_to_string (Some u) n)) = Some v \<and> uuid_ok v \<and>
         bt_uuid_cmp u v = Some 0)"
proof -
  obtain d0 d1 d2 d3 d4 d5 where
    s: "bt_uuid_to_string (Some u) n = (0, uuid_str d0 d1 d2 d3 d4 d5)" and
    b: "uuid_bytes u = uuid_data d0 d1 d2 d3 d4 d5"
    using uuid_to_string_str [OF assms] .
  let ?s = "uuid_str d0 d1 d2 d3 d4 d5"
  obtain v where v: "bt_string_to_uuid ?s = Some v" "uuid_ok v" "uuid_bytes v = uuid_bytes u"
  proof (cases "is_base_uuid128 ?s")
    case True
    with that [of "BT_UUID16 (of_nat (unat d0 mod 16 ^ 4))"] base_str_data [OF True] parse_base_str [OF True]
    show ?thesis
      by (simp add: bt_string_to_uuid_def b uuid_bytes_short put_be32_ucast)
  next
    case False
    with that [of "BT_UUID128 (uuid_data d0 d1 d2 d3 d4 d5)"] show ?thesis
      by (simp add: bt_string_to_uuid_def is_uuid128_str parse_uuid_str b uuid_bytes_short)
        (simp add: uuid_data_def)
  qed
  then have "bt_uuid_cmp u v = Some 0"
    using assms(1) by (simp add: uuid_cmp_0_iff)
  with s v show ?thesis by auto
qed

theorem uuid_string_roundtrip_witness:
  "\<exists>v. bt_string_to_uuid (snd (bt_uuid_to_string (Some (BT_UUID32 0xDEADBEEF)) 37)) = Some v \<and>
       uuid_ok v \<and> bt_uuid_cmp (BT_UUID32 0xDEADBEEF) v = Some 0"
  using uuid_string_roundtrip [of "BT_UUID32 0xDEADBEEF" 37] by (simp add: uuid_ok_def)

text \<open>
  The parser of short UUIDs accepts a string with no digit at all: \<^verbatim>\<open>strtol\<close> converts nothing
  and leaves its end pointer at a \<^verbatim>\<open>'-'\<close>, which the check takes for the end of the number.
\<close>

theorem uuid16_accepts_dashes: "bt_string_to_uuid ''----'' = Some (BT_UUID16 0)"
  by (simp add: bt_string_to_uuid_def is_base_uuid128_def is_uuid128_def is_uuid32_def is_uuid16_def
      bt_string_to_uuid16_def strtol_def scan_x_def scan_sign_def scan_prefix_def starts_hex_def
      isspace_def hex_val_def bt_uuid16_create_def)

end
