(* ===== verification/Gatt_Db.thy ===== *)
theory Gatt_Db
  imports Bt_Queue Bt_Uuid
begin

text \<open>
  The GATT attribute database: \<^verbatim>\<open>src/shared/gatt-db.c\<close>.  The services live on a heap (\<open>svcs\<close>), the
  database holds the list of the pointers to them in the order of its queue (the operations on
  the queue are the list operations that \<open>Bt_Queue\<close> proves the linked queue to refine).  A pointer
  to an attribute is the pointer to its service and its index in the service's array; the
  pointers of the array are \<open>None\<close> where C has \<^verbatim>\<open>NULL\<close>.  An operation returns \<open>None\<close> when it would
  dereference a freed service, call a \<^verbatim>\<open>NULL\<close> function or read what was never written.

  Functions and data that callers hand in are opaque values of type \<open>'c\<close>.  A call of such a
  function is an event of the operation's result; events are listed in the order of the calls.
  The result of \<^verbatim>\<open>calloc\<close> and \<^verbatim>\<open>realloc\<close> (\<open>mem\<close>), the contents of fresh memory (\<open>junk\<close>) and the
  identifier \<^verbatim>\<open>timeout_add\<close> returns (\<open>tid\<close>) are parameters.
\<close>

section \<open>State\<close>

type_synonym svc_ptr = ptr
type_synonym attr_ptr = "svc_ptr \<times> nat"

record 'c notify =
  n_id :: u32
  n_service_added :: "'c option"
  n_service_removed :: "'c option"
  n_destroy :: "'c option"
  n_user_data :: "'c option"

text \<open>\<^verbatim>\<open>struct pending_read\<close> and \<^verbatim>\<open>struct pending_write\<close> have the same fields.\<close>

record 'c pending =
  p_attrib :: attr_ptr
  p_id :: u32
  p_timeout_id :: u32
  p_func :: 'c
  p_user_data :: "'c option"

record 'c gatt_db_attribute =
  a_service :: svc_ptr
  a_handle :: u16
  a_uuid :: bt_uuid_t
  a_permissions :: u32
  a_value_len :: u16
  a_value :: "bytes option"
  a_read_func :: "'c option"
  a_write_func :: "'c option"
  a_user_data :: "'c option"
  a_read_id :: u32
  a_pending_reads :: "'c pending list"
  a_write_id :: u32
  a_pending_writes :: "'c pending list"

record 'c gatt_db_service =
  s_active :: bool
  s_claimed :: bool
  s_num_handles :: u16
  s_attributes :: "'c gatt_db_attribute option list"

record 'c gatt_db =
  ref_count :: int
  next_handle :: u16
  services :: "svc_ptr list"
  notify_list :: "'c notify list"
  next_notify_id :: u32
  svcs :: "svc_ptr \<rightharpoonup> 'c gatt_db_service"
  next_svc :: svc_ptr

text \<open>Calls out of the database.  The second argument of a read or write call is the attribute.\<close>

datatype 'c db_event =
    Read_func 'c attr_ptr u32 u16 u8 "nat option" "'c option"
  | Write_func 'c attr_ptr u32 u16 bytes u8 "nat option" "'c option"
  | Read_done 'c attr_ptr int "bytes option" "'c option"
  | Write_done 'c attr_ptr int "'c option"
  | Service_added 'c attr_ptr "'c option"
  | Service_removed 'c attr_ptr "'c option"
  | Notify_destroy 'c "'c option"
  | Timeout_remove u32

definition ECANCELED :: int where "ECANCELED = 125"

definition ETIMEDOUT :: int where "ETIMEDOUT = 110"

definition BT_ATT_PERM_READ :: u32 where "BT_ATT_PERM_READ = 0x01"

definition BT_ATT_ERROR_INVALID_OFFSET :: u8 where "BT_ATT_ERROR_INVALID_OFFSET = 0x07"

definition BT_ATT_OP_READ_REQ :: u8 where "BT_ATT_OP_READ_REQ = 0x0a"

definition BT_GATT_CHRC_PROP_EXT_PROP :: u8 where "BT_GATT_CHRC_PROP_EXT_PROP = 0x80"

definition primary_service_uuid :: bt_uuid_t where "primary_service_uuid = BT_UUID16 0x2800"

definition secondary_service_uuid :: bt_uuid_t where "secondary_service_uuid = BT_UUID16 0x2801"

definition characteristic_uuid :: bt_uuid_t where "characteristic_uuid = BT_UUID16 0x2803"

definition included_service_uuid :: bt_uuid_t where "included_service_uuid = BT_UUID16 0x2802"

definition ext_desc_uuid :: bt_uuid_t where "ext_desc_uuid = BT_UUID16 0x2900"

text \<open>
  \<^verbatim>\<open>!bt_uuid_cmp(a, b)\<close>.  Of an unspecified UUID the comparison would read memory that was never
  written; no such UUID is stored by the operations below unless a caller hands it in, and here
  it is equal to nothing.
\<close>

definition uuid_eq :: "bt_uuid_t \<Rightarrow> bt_uuid_t \<Rightarrow> bool" where
  "uuid_eq a b \<longleftrightarrow> bt_uuid_cmp a b = Some 0"

section \<open>Access to the heap\<close>

text \<open>
  \<open>attr0\<close> is \<^verbatim>\<open>service->attributes[0]\<close>, which \<^verbatim>\<open>gatt_db_service_create\<close> sets and nothing resets.
\<close>

definition attr0 :: "'c gatt_db_service \<Rightarrow> 'c gatt_db_attribute option" where
  "attr0 sv = (case s_attributes sv of a # _ \<Rightarrow> a | [] \<Rightarrow> None)"

definition svc_start :: "'c gatt_db_service \<Rightarrow> u16" where
  "svc_start sv = (case attr0 sv of Some a \<Rightarrow> a_handle a | None \<Rightarrow> 0)"

definition svc_attr :: "'c gatt_db_service \<Rightarrow> nat \<Rightarrow> 'c gatt_db_attribute option" where
  "svc_attr sv i = (if i < length (s_attributes sv) then s_attributes sv ! i else None)"

definition db_attr :: "'c gatt_db \<Rightarrow> attr_ptr \<Rightarrow> 'c gatt_db_attribute option" where
  "db_attr db p = do { sv \<leftarrow> svcs db (fst p); svc_attr sv (snd p) }"

text \<open>Stores to the heap: \<open>None\<close> when the service is not allocated or the index is not in the array.\<close>

definition put_svc :: "'c gatt_db \<Rightarrow> svc_ptr \<Rightarrow> 'c gatt_db_service \<Rightarrow> 'c gatt_db" where
  "put_svc db s sv = db\<lparr>svcs := (svcs db)(s \<mapsto> sv)\<rparr>"

definition put_attr :: "'c gatt_db \<Rightarrow> attr_ptr \<Rightarrow> 'c gatt_db_attribute \<Rightarrow> 'c gatt_db option" where
  "put_attr db p a = do {
     sv \<leftarrow> svcs db (fst p);
     if snd p < length (s_attributes sv)
     then Some (put_svc db (fst p) (sv\<lparr>s_attributes := (s_attributes sv)[snd p := Some a]\<rparr>))
     else None }"

text \<open>The services of the queue with their contents, for the loops over the queue.\<close>

primrec load_services :: "'c gatt_db \<Rightarrow> svc_ptr list \<Rightarrow> (svc_ptr \<times> 'c gatt_db_service) list option" where
  "load_services db [] = Some []"
| "load_services db (s # ss) = do {
     sv \<leftarrow> svcs db s; rest \<leftarrow> load_services db ss; Some ((s, sv) # rest) }"

text \<open>The non-\<^verbatim>\<open>NULL\<close> attributes a \<^verbatim>\<open>for\<close> loop over a service meets, with their indices.\<close>

definition svc_loop :: "'c gatt_db_service \<Rightarrow> (nat \<times> 'c gatt_db_attribute) list" where
  "svc_loop sv =
     concat (map (\<lambda>i. case svc_attr sv i of Some a \<Rightarrow> [(i, a)] | None \<Rightarrow> [])
                 [0..<unat (s_num_handles sv)])"

section \<open>Attributes and pending operations\<close>

definition set_attribute_data ::
    "'c gatt_db_attribute \<Rightarrow> 'c option \<Rightarrow> 'c option \<Rightarrow> u32 \<Rightarrow> 'c option \<Rightarrow> 'c gatt_db_attribute" where
  "set_attribute_data attribute read_func write_func permissions user_data =
     attribute\<lparr>a_permissions := permissions, a_read_func := read_func, a_write_func := write_func,
               a_user_data := user_data\<rparr>"

definition timeout_event :: "'c pending \<Rightarrow> 'c db_event list" where
  "timeout_event p = (if p_timeout_id p > 0 then [Timeout_remove (p_timeout_id p)] else [])"

definition pending_read_result :: "'c pending \<Rightarrow> int \<Rightarrow> bytes option \<Rightarrow> 'c db_event list" where
  "pending_read_result p err data =
     timeout_event p @ [Read_done (p_func p) (p_attrib p) err data (p_user_data p)]"

definition pending_read_free :: "'c pending \<Rightarrow> 'c db_event list" where
  "pending_read_free p = pending_read_result p (- ECANCELED) None"

definition pending_write_result :: "'c pending \<Rightarrow> int \<Rightarrow> 'c db_event list" where
  "pending_write_result p err =
     timeout_event p @ [Write_done (p_func p) (p_attrib p) err (p_user_data p)]"

definition pending_write_free :: "'c pending \<Rightarrow> 'c db_event list" where
  "pending_write_free p = pending_write_result p (- ECANCELED)"

definition attribute_destroy :: "'c gatt_db_attribute option \<Rightarrow> 'c db_event list" where
  "attribute_destroy attribute =
     (case attribute of None \<Rightarrow> []
      | Some a \<Rightarrow> concat (map pending_read_free (a_pending_reads a)) @
                  concat (map pending_write_free (a_pending_writes a)))"

text \<open>\<open>val\<close> holds the \<open>len\<close> bytes the C function is given.\<close>

definition new_attribute ::
    "bool \<Rightarrow> svc_ptr \<Rightarrow> u16 \<Rightarrow> bt_uuid_t \<Rightarrow> bytes \<Rightarrow> 'c gatt_db_attribute option" where
  "new_attribute mem service handle type val =
     (let len = of_nat (length val) :: u16;
          a = \<lparr>a_service = service, a_handle = handle, a_uuid = type, a_permissions = 0,
               a_value_len = len, a_value = None, a_read_func = None, a_write_func = None,
               a_user_data = None, a_read_id = 0, a_pending_reads = [],
               a_write_id = 0, a_pending_writes = []\<rparr>
      in if len \<noteq> 0 then if mem then Some (a\<lparr>a_value := Some (take (unat len) val)\<rparr>) else None
         else Some a)"

section \<open>The database and its services\<close>

definition gatt_db_ref :: "'c gatt_db option \<Rightarrow> 'c gatt_db option" where
  "gatt_db_ref db = (case db of None \<Rightarrow> None | Some d \<Rightarrow> Some (d\<lparr>ref_count := ref_count d + 1\<rparr>))"

definition gatt_db_new :: "'c gatt_db option" where
  "gatt_db_new =
     gatt_db_ref (Some \<lparr>ref_count = 0, next_handle = 0x0001, services = [], notify_list = [],
                        next_notify_id = 0, svcs = Map.empty, next_svc = 1\<rparr>)"

definition notify_destroy :: "'c notify \<Rightarrow> 'c db_event list" where
  "notify_destroy n =
     (case n_destroy n of None \<Rightarrow> [] | Some f \<Rightarrow> [Notify_destroy f (n_user_data n)])"

definition match_notify_id :: "'c notify \<Rightarrow> u32 \<Rightarrow> bool" where
  "match_notify_id n i \<longleftrightarrow> n_id n = i"

text \<open>The callback is called without a check: a \<^verbatim>\<open>NULL\<close> one is \<open>None\<close>.\<close>

definition handle_notify :: "attr_ptr \<Rightarrow> bool \<Rightarrow> 'c notify \<Rightarrow> 'c db_event option" where
  "handle_notify attr added n =
     (if added then do { f \<leftarrow> n_service_added n; Some (Service_added f attr (n_user_data n)) }
      else do { f \<leftarrow> n_service_removed n; Some (Service_removed f attr (n_user_data n)) })"

definition notify_service_changed :: "'c gatt_db \<Rightarrow> svc_ptr \<Rightarrow> bool \<Rightarrow> 'c db_event list option" where
  "notify_service_changed db s added =
     (if notify_list db = [] then Some []
      else those (map (handle_notify (s, 0) added) (notify_list db)))"

definition gatt_db_service_destroy :: "'c gatt_db \<Rightarrow> svc_ptr \<Rightarrow> ('c gatt_db \<times> 'c db_event list) option" where
  "gatt_db_service_destroy db s = do {
     sv \<leftarrow> svcs db s;
     e \<leftarrow> (if s_active sv then notify_service_changed db s False else Some []);
     Some (db\<lparr>svcs := (svcs db)(s := None)\<rparr>,
           e @ concat (map (\<lambda>i. attribute_destroy (svc_attr sv i)) [0..<unat (s_num_handles sv)])) }"

primrec destroy_services :: "'c gatt_db \<Rightarrow> svc_ptr list \<Rightarrow> ('c gatt_db \<times> 'c db_event list) option" where
  "destroy_services db [] = Some (db, [])"
| "destroy_services db (s # ss) = do {
     (db, e) \<leftarrow> gatt_db_service_destroy db s;
     (db, es) \<leftarrow> destroy_services db ss;
     Some (db, e @ es) }"

definition gatt_db_destroy :: "'c gatt_db option \<Rightarrow> 'c db_event list option" where
  "gatt_db_destroy db =
     (case db of None \<Rightarrow> Some []
      | Some d \<Rightarrow> do {
          let e = concat (map notify_destroy (notify_list d));
          (d', es) \<leftarrow> destroy_services (d\<lparr>notify_list := [], services := []\<rparr>) (services d);
          Some (e @ es) })"

definition gatt_db_unref :: "'c gatt_db option \<Rightarrow> ('c gatt_db option \<times> 'c db_event list) option" where
  "gatt_db_unref db =
     (case db of None \<Rightarrow> Some (None, [])
      | Some d \<Rightarrow>
          if ref_count d - 1 \<noteq> 0 then Some (Some (d\<lparr>ref_count := ref_count d - 1\<rparr>), [])
          else do { e \<leftarrow> gatt_db_destroy db; Some (None, e) })"

definition gatt_db_isempty :: "'c gatt_db option \<Rightarrow> bool" where
  "gatt_db_isempty db = (case db of None \<Rightarrow> True | Some d \<Rightarrow> services d = [])"

definition uuid_to_le :: "bt_uuid_t \<Rightarrow> bytes option" where
  "uuid_to_le uuid =
     (case uuid of BT_UUID16 v \<Rightarrow> Some (put_le16 v)
      | _ \<Rightarrow> (case bt_uuid_to_uuid128 uuid BT_UUID_UNSPEC of
               BT_UUID128 b \<Rightarrow> Some (bswap_128 b) | _ \<Rightarrow> None))"

definition le_to_uuid :: "bytes \<Rightarrow> nat \<Rightarrow> bt_uuid_t option" where
  "le_to_uuid src len =
     (if len = 2 then Some (bt_uuid16_create (get_le16 src))
      else if len = 4 then Some (bt_uuid32_create (get_le32 src))
      else if len \<noteq> 16 then None
      else Some (bt_uuid128_create (bswap_128 src)))"

text \<open>
  A new service is not yet in the heap; the outer option is a read of an unspecified UUID, the
  inner one the \<^verbatim>\<open>NULL\<close> result.  The array has \<open>num_handles\<close> entries while the field
  \<^verbatim>\<open>num_handles\<close> is still 0.
\<close>

definition gatt_db_service_create ::
    "bool \<Rightarrow> svc_ptr \<Rightarrow> bt_uuid_t \<Rightarrow> u16 \<Rightarrow> bool \<Rightarrow> u16 \<Rightarrow> 'c gatt_db_service option option" where
  "gatt_db_service_create mem s uuid handle primary num_handles =
     (if num_handles < 1 then Some None
      else do {
        let type = (if primary then primary_service_uuid else secondary_service_uuid);
        val \<leftarrow> uuid_to_le uuid;
        Some (case new_attribute mem s handle type val of
                None \<Rightarrow> None
              | Some a \<Rightarrow>
                  Some \<lparr>s_active = False, s_claimed = False, s_num_handles = 0,
                        s_attributes = Some (set_attribute_data a None None BT_ATT_PERM_READ None) #
                                       replicate (unat num_handles - 1) None\<rparr>) })"

definition gatt_db_remove_service ::
    "'c gatt_db option \<Rightarrow> attr_ptr option \<Rightarrow> (bool \<times> 'c gatt_db option \<times> 'c db_event list) option" where
  "gatt_db_remove_service db attrib =
     (case (db, attrib) of
        (Some d, Some p) \<Rightarrow> do {
          a \<leftarrow> db_attr d p;
          let s = a_service a;
          (d, e) \<leftarrow> gatt_db_service_destroy (d\<lparr>services := remove1 s (services d)\<rparr>) s;
          Some (True, Some d, e) }
      | _ \<Rightarrow> Some (False, db, []))"

definition gatt_db_service_get_handles :: "'c gatt_db_service \<Rightarrow> u16 \<times> u16" where
  "gatt_db_service_get_handles sv = (svc_start sv, svc_start sv + s_num_handles sv - 1)"

definition match_range :: "'c gatt_db_service \<Rightarrow> u16 \<Rightarrow> u16 \<Rightarrow> bool" where
  "match_range sv range_start range_end =
     (let (svc_start, svc_end) = gatt_db_service_get_handles sv
      in svc_start \<le> range_end \<and> svc_end \<ge> range_start)"

definition gatt_db_clear_range ::
    "'c gatt_db option \<Rightarrow> u16 \<Rightarrow> u16 \<Rightarrow> (bool \<times> 'c gatt_db option \<times> 'c db_event list) option" where
  "gatt_db_clear_range db start_handle end_handle =
     (case db of None \<Rightarrow> Some (False, None, [])
      | Some d \<Rightarrow>
          if start_handle > end_handle then Some (False, db, [])
          else do {
            ss \<leftarrow> load_services d (services d);
            let gone = map fst (if start_handle = 1 \<and> end_handle = 0xFFFF then ss
                                else filter (\<lambda>(_, sv). match_range sv start_handle end_handle) ss);
            (d, e) \<leftarrow> destroy_services
                        (d\<lparr>services := filter (\<lambda>s. s \<notin> set gone) (services d)\<rparr>) gone;
            Some (True, Some (if gatt_db_isempty (Some d) then d\<lparr>next_handle := 0\<rparr> else d), e) })"

definition gatt_db_clear :: "'c gatt_db option \<Rightarrow> (bool \<times> 'c gatt_db option \<times> 'c db_event list) option" where
  "gatt_db_clear db = gatt_db_clear_range db 1 0xFFFF"

text \<open>\<open>Inl s\<close>: the range meets the service \<open>s\<close>; \<open>Inr after\<close>: it goes behind \<open>after\<close>.\<close>

fun find_insert_loc ::
    "(svc_ptr \<times> 'c gatt_db_service) list \<Rightarrow> u16 \<Rightarrow> u16 \<Rightarrow> svc_ptr option
       \<Rightarrow> (svc_ptr \<times> 'c gatt_db_service) + svc_ptr option" where
  "find_insert_loc [] start end after = Inr after"
| "find_insert_loc ((s, sv) # ss) start end after =
     (let (cur_start, cur_end) = gatt_db_service_get_handles sv
      in if start \<ge> cur_start \<and> start \<le> cur_end then Inl (s, sv)
         else if end \<ge> cur_start \<and> end \<le> cur_end then Inl (s, sv)
         else if end < cur_start then Inr after
         else find_insert_loc ss start end (Some s))"

definition gatt_db_attribute_get_service_uuid :: "'c gatt_db_service \<Rightarrow> bt_uuid_t option" where
  "gatt_db_attribute_get_service_uuid sv = do {
     a \<leftarrow> attr0 sv;
     v \<leftarrow> a_value a;
     if a_value_len a = 2 then Some (bt_uuid16_create (get_le16 v))
     else if a_value_len a = 16 then Some (bt_uuid128_create (bswap_128 v))
     else None }"

text \<open>
  The callers ignore a failure of \<open>gatt_db_attribute_get_service_uuid\<close> and compare with a variable that
  was not set then; the model takes this for a difference.
\<close>

definition service_uuid_is :: "'c gatt_db_service \<Rightarrow> bt_uuid_t \<Rightarrow> bool" where
  "service_uuid_is sv uuid =
     (case gatt_db_attribute_get_service_uuid sv of Some u \<Rightarrow> uuid_eq u uuid | None \<Rightarrow> False)"

text \<open>
  \<^verbatim>\<open>queue_push_after\<close> fails when \<open>after\<close> is not in the queue; \<open>db->next_handle\<close> is the maximum of
  two \<^verbatim>\<open>int\<close> cut to 16 bits.
\<close>

definition gatt_db_insert_service ::
    "bool \<Rightarrow> 'c gatt_db option \<Rightarrow> u16 \<Rightarrow> bt_uuid_t \<Rightarrow> bool \<Rightarrow> u16
       \<Rightarrow> (attr_ptr option \<times> 'c gatt_db option) option" where
  "gatt_db_insert_service mem db handle uuid primary num_handles =
     (case db of None \<Rightarrow> Some (None, None)
      | Some d \<Rightarrow>
          if handle < 1 then Some (None, db)
          else if num_handles < 1 \<or> unat handle + unat num_handles - 1 > 0xFFFF then Some (None, db)
          else do {
            ss \<leftarrow> load_services d (services d);
            case find_insert_loc ss handle (handle + num_handles - 1) None of
              Inl (s, sv) \<Rightarrow> do {
                let type = (if primary then primary_service_uuid else secondary_service_uuid);
                a \<leftarrow> attr0 sv;
                if uuid_eq (a_uuid a) type \<and> service_uuid_is sv uuid \<and>
                   s_num_handles sv = num_handles \<and> a_handle a = handle
                then Some (Some (s, 0), db) else Some (None, db) }
            | Inr after \<Rightarrow> do {
                let s = next_svc d;
                new \<leftarrow> gatt_db_service_create mem s uuid handle primary num_handles;
                case new of None \<Rightarrow> Some (None, db)
                | Some sv \<Rightarrow>
                    (case (case after of None \<Rightarrow> Some (s # services d)
                           | Some x \<Rightarrow> if x \<in> set (services d) then Some (insert_after x s (services d))
                                      else None) of
                       None \<Rightarrow> Some (None, db)
                     | Some q \<Rightarrow>
                         Some (Some (s, 0),
                               Some (d\<lparr>services := q,
                                       svcs := (svcs d)(s \<mapsto> sv\<lparr>s_num_handles := num_handles\<rparr>),
                                       next_svc := s + 1,
                                       next_handle :=
                                         of_nat (max (unat handle + unat num_handles)
                                                     (unat (next_handle d)))\<rparr>))) } })"

definition gatt_db_add_service ::
    "bool \<Rightarrow> 'c gatt_db \<Rightarrow> bt_uuid_t \<Rightarrow> bool \<Rightarrow> u16 \<Rightarrow> (attr_ptr option \<times> 'c gatt_db option) option" where
  "gatt_db_add_service mem db uuid primary num_handles =
     gatt_db_insert_service mem (Some db) (next_handle db) uuid primary num_handles"

definition gatt_db_register ::
    "'c gatt_db option \<Rightarrow> 'c option \<Rightarrow> 'c option \<Rightarrow> 'c option \<Rightarrow> 'c option \<Rightarrow> u32 \<times> 'c gatt_db option" where
  "gatt_db_register db service_added service_removed user_data destroy =
     (case db of None \<Rightarrow> (0, None)
      | Some d \<Rightarrow>
          if service_added = None \<and> service_removed = None then (0, db)
          else let i = (if next_notify_id d < 1 then 1 else next_notify_id d)
            in (i, Some (d\<lparr>next_notify_id := i + 1,
                           notify_list := notify_list d @
                             [\<lparr>n_id = i, n_service_added = service_added,
                               n_service_removed = service_removed, n_destroy = destroy,
                               n_user_data = user_data\<rparr>]\<rparr>)))"

definition gatt_db_unregister ::
    "'c gatt_db option \<Rightarrow> u32 \<Rightarrow> bool \<times> 'c gatt_db option \<times> 'c db_event list" where
  "gatt_db_unregister db i =
     (case db of None \<Rightarrow> (False, None, [])
      | Some d \<Rightarrow>
          if i = 0 then (False, db, [])
          else case find (\<lambda>n. match_notify_id n i) (notify_list d) of
            None \<Rightarrow> (False, db, [])
          | Some n \<Rightarrow>
              (True, Some (d\<lparr>notify_list := remove_first (\<lambda>n. match_notify_id n i) (notify_list d)\<rparr>),
               notify_destroy n))"

section \<open>Attributes of a service\<close>

definition get_attribute_index :: "'c gatt_db_service \<Rightarrow> nat \<Rightarrow> nat" where
  "get_attribute_index sv end_offset =
     (let n = unat (s_num_handles sv) - end_offset;
          i = length (takeWhile (\<lambda>i. svc_attr sv i \<noteq> None) [0..<n])
      in if i = n then 0 else i)"

definition get_handle_at_index :: "'c gatt_db_service \<Rightarrow> nat \<Rightarrow> u16 option" where
  "get_handle_at_index sv index = map_option a_handle (svc_attr sv index)"

definition attribute_update :: "'c gatt_db \<Rightarrow> svc_ptr \<Rightarrow> nat \<Rightarrow> (attr_ptr \<times> 'c gatt_db) option" where
  "attribute_update db s index = do {
     sv \<leftarrow> svcs db s;
     previous_handle \<leftarrow> get_handle_at_index sv (index - 1);
     a \<leftarrow> svc_attr sv index;
     db \<leftarrow> put_attr db (s, index) (a\<lparr>a_handle := previous_handle + 1\<rparr>);
     Some ((s, index), db) }"

text \<open>The requested handle is 0 for the next free one.\<close>

definition service_insert_characteristic ::
    "bool \<Rightarrow> 'c gatt_db \<Rightarrow> svc_ptr \<Rightarrow> u16 \<Rightarrow> bt_uuid_t \<Rightarrow> u32 \<Rightarrow> u8 \<Rightarrow> 'c option \<Rightarrow> 'c option \<Rightarrow> 'c option
       \<Rightarrow> (attr_ptr option \<times> 'c gatt_db) option" where
  "service_insert_characteristic mem db s handle uuid permissions properties read_func write_func user_data = do {
     sv \<leftarrow> svcs db s;
     if handle \<noteq> 0 \<and> handle \<le> svc_start sv then Some (None, db)
     else if handle = 0xFFFF then Some (None, db)
     else let i = get_attribute_index sv 1
       in if i = 0 then Some (None, db)
          else do {
            prev \<leftarrow> get_handle_at_index sv (i - 1);
            let handle = (if handle = 0 then prev + 2 else handle);
            le \<leftarrow> uuid_to_le uuid;
            let val = [properties] @ put_le16 handle @ le;
            case new_attribute mem s (handle - 1) characteristic_uuid val of
              None \<Rightarrow> Some (None, db)
            | Some decl \<Rightarrow> do {
                db \<leftarrow> put_attr db (s, i) (set_attribute_data decl None None BT_ATT_PERM_READ None);
                case new_attribute mem s handle uuid [] of
                  None \<Rightarrow> Some (None, db)
                | Some a \<Rightarrow> do {
                    db \<leftarrow> put_attr db (s, i + 1)
                            (set_attribute_data a read_func write_func permissions user_data);
                    Some (Some (s, i + 1), db) } } } }"

definition find_service_for_handle :: "'c gatt_db_service \<Rightarrow> u16 \<Rightarrow> bool" where
  "find_service_for_handle sv handle =
     (let (start, end) = gatt_db_service_get_handles sv in start \<le> handle \<and> handle \<le> end)"

definition gatt_db_get_service :: "'c gatt_db option \<Rightarrow> u16 \<Rightarrow> attr_ptr option option" where
  "gatt_db_get_service db handle =
     (case db of None \<Rightarrow> Some None
      | Some d \<Rightarrow>
          if handle = 0 then Some None
          else do {
            ss \<leftarrow> load_services d (services d);
            Some (map_option (\<lambda>(s, sv). (s, 0)) (find (\<lambda>(s, sv). find_service_for_handle sv handle) ss)) })"

definition gatt_db_insert_characteristic ::
    "bool \<Rightarrow> 'c gatt_db \<Rightarrow> u16 \<Rightarrow> bt_uuid_t \<Rightarrow> u32 \<Rightarrow> u8 \<Rightarrow> 'c option \<Rightarrow> 'c option \<Rightarrow> 'c option
       \<Rightarrow> (attr_ptr option \<times> 'c gatt_db) option" where
  "gatt_db_insert_characteristic mem db handle uuid permissions properties read_func write_func user_data = do {
     attrib \<leftarrow> gatt_db_get_service (Some db) handle;
     case attrib of None \<Rightarrow> Some (None, db)
     | Some p \<Rightarrow> do {
         a \<leftarrow> db_attr db p;
         service_insert_characteristic mem db (a_service a) handle uuid permissions properties
           read_func write_func user_data } }"

definition gatt_db_service_insert_characteristic ::
    "bool \<Rightarrow> 'c gatt_db \<Rightarrow> attr_ptr option \<Rightarrow> u16 \<Rightarrow> bt_uuid_t \<Rightarrow> u32 \<Rightarrow> u8 \<Rightarrow> 'c option \<Rightarrow> 'c option
       \<Rightarrow> 'c option \<Rightarrow> (attr_ptr option \<times> 'c gatt_db) option" where
  "gatt_db_service_insert_characteristic mem db attrib handle uuid permissions properties read_func
     write_func user_data =
     (case attrib of None \<Rightarrow> Some (None, db)
      | Some p \<Rightarrow>
          if handle = 0 then Some (None, db)
          else do {
            a \<leftarrow> db_attr db p;
            service_insert_characteristic mem db (a_service a) handle uuid permissions properties
              read_func write_func user_data })"

definition gatt_db_service_add_characteristic ::
    "bool \<Rightarrow> 'c gatt_db \<Rightarrow> attr_ptr option \<Rightarrow> bt_uuid_t \<Rightarrow> u32 \<Rightarrow> u8 \<Rightarrow> 'c option \<Rightarrow> 'c option
       \<Rightarrow> 'c option \<Rightarrow> (attr_ptr option \<times> 'c gatt_db) option" where
  "gatt_db_service_add_characteristic mem db attrib uuid permissions properties read_func
     write_func user_data =
     (case attrib of None \<Rightarrow> Some (None, db)
      | Some p \<Rightarrow> do {
          a \<leftarrow> db_attr db p;
          service_insert_characteristic mem db (a_service a) 0 uuid permissions properties
            read_func write_func user_data })"

definition service_insert_descriptor ::
    "bool \<Rightarrow> 'c gatt_db \<Rightarrow> svc_ptr \<Rightarrow> u16 \<Rightarrow> bt_uuid_t \<Rightarrow> u32 \<Rightarrow> 'c option \<Rightarrow> 'c option \<Rightarrow> 'c option
       \<Rightarrow> (attr_ptr option \<times> 'c gatt_db) option" where
  "service_insert_descriptor mem db s handle uuid permissions read_func write_func user_data = do {
     sv \<leftarrow> svcs db s;
     let i = get_attribute_index sv 0;
     if i = 0 then Some (None, db)
     else if handle \<noteq> 0 \<and> handle \<le> svc_start sv then Some (None, db)
     else do {
       prev \<leftarrow> get_handle_at_index sv (i - 1);
       let handle = (if handle = 0 then prev + 1 else handle);
       case new_attribute mem s handle uuid [] of
         None \<Rightarrow> Some (None, db)
       | Some a \<Rightarrow> do {
           db \<leftarrow> put_attr db (s, i) (set_attribute_data a read_func write_func permissions user_data);
           Some (Some (s, i), db) } } }"

definition gatt_db_insert_descriptor ::
    "bool \<Rightarrow> 'c gatt_db \<Rightarrow> u16 \<Rightarrow> bt_uuid_t \<Rightarrow> u32 \<Rightarrow> 'c option \<Rightarrow> 'c option \<Rightarrow> 'c option
       \<Rightarrow> (attr_ptr option \<times> 'c gatt_db) option" where
  "gatt_db_insert_descriptor mem db handle uuid permissions read_func write_func user_data = do {
     attrib \<leftarrow> gatt_db_get_service (Some db) handle;
     case attrib of None \<Rightarrow> Some (None, db)
     | Some p \<Rightarrow> do {
         a \<leftarrow> db_attr db p;
         service_insert_descriptor mem db (a_service a) handle uuid permissions read_func write_func
           user_data } }"

definition gatt_db_service_insert_descriptor ::
    "bool \<Rightarrow> 'c gatt_db \<Rightarrow> attr_ptr option \<Rightarrow> u16 \<Rightarrow> bt_uuid_t \<Rightarrow> u32 \<Rightarrow> 'c option \<Rightarrow> 'c option
       \<Rightarrow> 'c option \<Rightarrow> (attr_ptr option \<times> 'c gatt_db) option" where
  "gatt_db_service_insert_descriptor mem db attrib handle uuid permissions read_func write_func user_data =
     (case attrib of None \<Rightarrow> Some (None, db)
      | Some p \<Rightarrow>
          if handle = 0 then Some (None, db)
          else do {
            a \<leftarrow> db_attr db p;
            service_insert_descriptor mem db (a_service a) handle uuid permissions read_func write_func
              user_data })"

definition gatt_db_service_add_descriptor ::
    "bool \<Rightarrow> 'c gatt_db \<Rightarrow> attr_ptr option \<Rightarrow> bt_uuid_t \<Rightarrow> u32 \<Rightarrow> 'c option \<Rightarrow> 'c option \<Rightarrow> 'c option
       \<Rightarrow> (attr_ptr option \<times> 'c gatt_db) option" where
  "gatt_db_service_add_descriptor mem db attrib uuid permissions read_func write_func user_data =
     (case attrib of None \<Rightarrow> Some (None, db)
      | Some p \<Rightarrow> do {
          a \<leftarrow> db_attr db p;
          service_insert_descriptor mem db (a_service a) 0 uuid permissions read_func write_func
            user_data })"

definition service_insert_included ::
    "bool \<Rightarrow> 'c gatt_db \<Rightarrow> svc_ptr \<Rightarrow> u16 \<Rightarrow> attr_ptr \<Rightarrow> (attr_ptr option \<times> 'c gatt_db) option" where
  "service_insert_included mem db s handle incl = do {
     sv \<leftarrow> svcs db s;
     a \<leftarrow> db_attr db incl;
     included \<leftarrow> svcs db (a_service a);
     a \<leftarrow> attr0 included;
     let included_handle = a_handle a;
     u \<leftarrow> (if a_value_len a = 2 then do { v \<leftarrow> a_value a; Some (take 2 v) } else Some []);
     let val = put_le16 included_handle @
               put_le16 (included_handle + s_num_handles included - 1) @ u;
     let index = get_attribute_index sv 0;
     if index = 0 then Some (None, db)
     else if handle \<noteq> 0 \<and> handle \<le> svc_start sv then Some (None, db)
     else do {
       prev \<leftarrow> get_handle_at_index sv (index - 1);
       let handle = (if handle = 0 then prev + 1 else handle);
       case new_attribute mem s handle included_service_uuid val of
         None \<Rightarrow> Some (None, db)
       | Some a \<Rightarrow> do {
           db \<leftarrow> put_attr db (s, index) (set_attribute_data a None None BT_ATT_PERM_READ None);
           (p, db) \<leftarrow> attribute_update db s index;
           Some (Some p, db) } } }"

definition gatt_db_service_add_included ::
    "bool \<Rightarrow> 'c gatt_db \<Rightarrow> attr_ptr option \<Rightarrow> attr_ptr option \<Rightarrow> (attr_ptr option \<times> 'c gatt_db) option" where
  "gatt_db_service_add_included mem db attrib incl =
     (case (attrib, incl) of
        (Some p, Some i) \<Rightarrow> do { a \<leftarrow> db_attr db p; service_insert_included mem db (a_service a) 0 i }
      | _ \<Rightarrow> Some (None, db))"

definition gatt_db_service_insert_included ::
    "bool \<Rightarrow> 'c gatt_db \<Rightarrow> attr_ptr option \<Rightarrow> u16 \<Rightarrow> attr_ptr option
       \<Rightarrow> (attr_ptr option \<times> 'c gatt_db) option" where
  "gatt_db_service_insert_included mem db attrib handle incl =
     (case (attrib, incl) of
        (Some p, Some i) \<Rightarrow>
          if handle = 0 then Some (None, db)
          else do { a \<leftarrow> db_attr db p; service_insert_included mem db (a_service a) handle i }
      | _ \<Rightarrow> Some (None, db))"

definition gatt_db_insert_included ::
    "bool \<Rightarrow> 'c gatt_db \<Rightarrow> u16 \<Rightarrow> attr_ptr \<Rightarrow> (attr_ptr option \<times> 'c gatt_db) option" where
  "gatt_db_insert_included mem db handle incl = do {
     attrib \<leftarrow> gatt_db_get_service (Some db) handle;
     case attrib of None \<Rightarrow> Some (None, db)
     | Some p \<Rightarrow> do { a \<leftarrow> db_attr db p; service_insert_included mem db (a_service a) handle incl } }"

definition gatt_db_service_set_active ::
    "'c gatt_db \<Rightarrow> attr_ptr option \<Rightarrow> bool \<Rightarrow> (bool \<times> 'c gatt_db \<times> 'c db_event list) option" where
  "gatt_db_service_set_active db attrib active =
     (case attrib of None \<Rightarrow> Some (False, db, [])
      | Some p \<Rightarrow> do {
          a \<leftarrow> db_attr db p;
          sv \<leftarrow> svcs db (a_service a);
          if s_active sv = active then Some (True, db, [])
          else do {
            let db = put_svc db (a_service a) (sv\<lparr>s_active := active\<rparr>);
            e \<leftarrow> notify_service_changed db (a_service a) active;
            Some (True, db, e) } })"

definition gatt_db_service_get_active :: "'c gatt_db \<Rightarrow> attr_ptr option \<Rightarrow> bool option" where
  "gatt_db_service_get_active db attrib =
     (case attrib of None \<Rightarrow> Some False
      | Some p \<Rightarrow> do { a \<leftarrow> db_attr db p; sv \<leftarrow> svcs db (a_service a); Some (s_active sv) })"

definition gatt_db_service_set_claimed ::
    "'c gatt_db \<Rightarrow> attr_ptr option \<Rightarrow> bool \<Rightarrow> (bool \<times> 'c gatt_db) option" where
  "gatt_db_service_set_claimed db attrib claimed =
     (case attrib of None \<Rightarrow> Some (False, db)
      | Some p \<Rightarrow> do {
          a \<leftarrow> db_attr db p;
          sv \<leftarrow> svcs db (a_service a);
          Some (True, put_svc db (a_service a) (sv\<lparr>s_claimed := claimed\<rparr>)) })"

definition gatt_db_service_get_claimed :: "'c gatt_db \<Rightarrow> attr_ptr option \<Rightarrow> bool option" where
  "gatt_db_service_get_claimed db attrib =
     (case attrib of None \<Rightarrow> Some False
      | Some p \<Rightarrow> do { a \<leftarrow> db_attr db p; sv \<leftarrow> svcs db (a_service a); Some (s_claimed sv) })"

section \<open>Searches\<close>

text \<open>The result is what the function appends to its queue argument.\<close>

fun group_loop ::
    "u16 \<Rightarrow> u16 \<Rightarrow> bt_uuid_t \<Rightarrow> u16 \<Rightarrow> (svc_ptr \<times> 'c gatt_db_service) list \<Rightarrow> attr_ptr list" where
  "group_loop start_handle end_handle type uuid_size [] = []"
| "group_loop start_handle end_handle type uuid_size ((s, sv) # ss) =
     (let next = group_loop start_handle end_handle type uuid_size ss
      in case attr0 sv of None \<Rightarrow> []
      | Some a \<Rightarrow>
          if \<not> s_active sv then next
          else if \<not> uuid_eq type (a_uuid a) then next
          else let grp_start = a_handle a;
                   grp_end = grp_start + s_num_handles sv - 1
            in if grp_end < start_handle \<or> grp_start > end_handle then next
               else if grp_start < start_handle \<or> grp_start > end_handle then next
               else if uuid_size \<noteq> 0 \<and> uuid_size \<noteq> a_value_len a then []
               else (s, 0) # group_loop start_handle end_handle type (a_value_len a) ss)"

definition gatt_db_read_by_group_type ::
    "'c gatt_db \<Rightarrow> u16 \<Rightarrow> u16 \<Rightarrow> bt_uuid_t \<Rightarrow> attr_ptr list option" where
  "gatt_db_read_by_group_type db start_handle end_handle type = do {
     ss \<leftarrow> load_services db (services db);
     Some (group_loop start_handle end_handle type 0 ss) }"

text \<open>The attributes the callback is called for; a \<^verbatim>\<open>NULL\<close> value matches every attribute.\<close>

definition value_matches :: "bytes option \<Rightarrow> 'c gatt_db_attribute \<Rightarrow> bool" where
  "value_matches val a =
     (case val of None \<Rightarrow> True
      | Some v \<Rightarrow> length v = unat (a_value_len a) \<and>
                  take (length v) (case a_value a of Some b \<Rightarrow> b | None \<Rightarrow> []) = v)"

definition find_by_type ::
    "u16 \<Rightarrow> u16 \<Rightarrow> bt_uuid_t \<Rightarrow> bytes option \<Rightarrow> svc_ptr \<times> 'c gatt_db_service \<Rightarrow> attr_ptr list" where
  "find_by_type start_handle end_handle uuid val = (\<lambda>(s, sv).
     if \<not> s_active sv then []
     else map (\<lambda>(i, a). (s, i))
            (filter (\<lambda>(i, a). \<not> (a_handle a < start_handle \<or> a_handle a > end_handle) \<and>
                              uuid_eq uuid (a_uuid a) \<and> value_matches val a)
               (svc_loop sv)))"

definition gatt_db_find_by_type ::
    "'c gatt_db \<Rightarrow> u16 \<Rightarrow> u16 \<Rightarrow> bt_uuid_t \<Rightarrow> (u32 \<times> attr_ptr list) option" where
  "gatt_db_find_by_type db start_handle end_handle type = do {
     ss \<leftarrow> load_services db (services db);
     let vs = concat (map (find_by_type start_handle end_handle type None) ss);
     Some (0 + of_nat (length vs), vs) }"

text \<open>The counter starts at whatever its stack slot holds.\<close>

definition gatt_db_find_by_type_value ::
    "u32 \<Rightarrow> 'c gatt_db \<Rightarrow> u16 \<Rightarrow> u16 \<Rightarrow> bt_uuid_t \<Rightarrow> bytes option \<Rightarrow> (u32 \<times> attr_ptr list) option" where
  "gatt_db_find_by_type_value junk db start_handle end_handle type val = do {
     ss \<leftarrow> load_services db (services db);
     let vs = concat (map (find_by_type start_handle end_handle type val) ss);
     Some (junk + of_nat (length vs), vs) }"

definition read_by_type ::
    "u16 \<Rightarrow> u16 \<Rightarrow> bt_uuid_t \<Rightarrow> svc_ptr \<times> 'c gatt_db_service \<Rightarrow> attr_ptr list" where
  "read_by_type start_handle end_handle uuid = (\<lambda>(s, sv).
     if \<not> s_active sv then []
     else map (\<lambda>(i, a). (s, i))
            (filter (\<lambda>(i, a). uuid_eq uuid (a_uuid a))
               (takeWhile (\<lambda>(i, a). \<not> a_handle a > end_handle)
                  (filter (\<lambda>(i, a). \<not> a_handle a < start_handle) (svc_loop sv)))))"

definition gatt_db_read_by_type ::
    "'c gatt_db \<Rightarrow> u16 \<Rightarrow> u16 \<Rightarrow> bt_uuid_t \<Rightarrow> attr_ptr list option" where
  "gatt_db_read_by_type db start_handle end_handle type = do {
     ss \<leftarrow> load_services db (services db);
     Some (concat (map (read_by_type start_handle end_handle type) ss)) }"

text \<open>The end of the service is computed as an \<^verbatim>\<open>int\<close>.\<close>

definition find_information ::
    "u16 \<Rightarrow> u16 \<Rightarrow> svc_ptr \<times> 'c gatt_db_service \<Rightarrow> attr_ptr list" where
  "find_information start_handle end_handle = (\<lambda>(s, sv).
     if \<not> s_active sv then []
     else if int (unat (svc_start sv)) + int (unat (s_num_handles sv)) - 1 < int (unat start_handle) then []
     else map (\<lambda>(i, a). (s, i))
            (takeWhile (\<lambda>(i, a). \<not> a_handle a > end_handle)
               (filter (\<lambda>(i, a). \<not> a_handle a < start_handle) (svc_loop sv))))"

definition gatt_db_find_information :: "'c gatt_db \<Rightarrow> u16 \<Rightarrow> u16 \<Rightarrow> attr_ptr list option" where
  "gatt_db_find_information db start_handle end_handle = do {
     ss \<leftarrow> load_services db (services db);
     Some (concat (map (find_information start_handle end_handle) ss)) }"

definition foreach_service_in_range ::
    "u16 \<Rightarrow> u16 \<Rightarrow> bt_uuid_t option \<Rightarrow> 'c gatt_db_service \<Rightarrow> bool" where
  "foreach_service_in_range start end uuid sv \<longleftrightarrow>
     \<not> (svc_start sv > end \<or> svc_start sv < start) \<and>
     (case uuid of None \<Rightarrow> True | Some u \<Rightarrow> service_uuid_is sv u)"

definition gatt_db_foreach_service_in_range ::
    "'c gatt_db option \<Rightarrow> bt_uuid_t option \<Rightarrow> 'c option \<Rightarrow> u16 \<Rightarrow> u16 \<Rightarrow> attr_ptr list option" where
  "gatt_db_foreach_service_in_range db uuid func start_handle end_handle =
     (case (db, func) of
        (Some d, Some _) \<Rightarrow>
          if start_handle > end_handle then Some []
          else do {
            ss \<leftarrow> load_services d (services d);
            Some (map (\<lambda>(s, sv). (s, 0))
                    (filter (\<lambda>(s, sv). foreach_service_in_range start_handle end_handle uuid sv) ss)) }
      | _ \<Rightarrow> Some [])"

definition gatt_db_foreach_service ::
    "'c gatt_db option \<Rightarrow> bt_uuid_t option \<Rightarrow> 'c option \<Rightarrow> attr_ptr list option" where
  "gatt_db_foreach_service db uuid func = gatt_db_foreach_service_in_range db uuid func 0x0001 0xFFFF"

definition gatt_db_service_foreach ::
    "'c gatt_db \<Rightarrow> attr_ptr option \<Rightarrow> bt_uuid_t option \<Rightarrow> 'c option \<Rightarrow> attr_ptr list option" where
  "gatt_db_service_foreach db attrib uuid func =
     (case (attrib, func) of
        (Some p, Some _) \<Rightarrow> do {
          a \<leftarrow> db_attr db p;
          sv \<leftarrow> svcs db (a_service a);
          Some (map (\<lambda>(i, _). (a_service a, i))
                  (filter (\<lambda>(i, b). case uuid of None \<Rightarrow> True | Some u \<Rightarrow> uuid_eq u (a_uuid b))
                     (svc_loop sv))) }
      | _ \<Rightarrow> Some [])"

definition gatt_db_service_foreach_char ::
    "'c gatt_db \<Rightarrow> attr_ptr option \<Rightarrow> 'c option \<Rightarrow> attr_ptr list option" where
  "gatt_db_service_foreach_char db attrib func =
     gatt_db_service_foreach db attrib (Some characteristic_uuid) func"

definition gatt_db_service_foreach_desc ::
    "'c gatt_db \<Rightarrow> attr_ptr option \<Rightarrow> 'c option \<Rightarrow> attr_ptr list option" where
  "gatt_db_service_foreach_desc db attrib func =
     (case (attrib, func) of
        (Some p, Some _) \<Rightarrow> do {
          a \<leftarrow> db_attr db p;
          if \<not> uuid_eq characteristic_uuid (a_uuid a) then Some []
          else do {
            sv \<leftarrow> svcs db (a_service a);
            let first = (if fst p = a_service a \<and> snd p < unat (s_num_handles sv)
                         then snd p + 2 else unat (s_num_handles sv));
            Some (map (\<lambda>(i, _). (a_service a, i))
                    (takeWhile (\<lambda>(i, b). \<not> (uuid_eq characteristic_uuid (a_uuid b) \<or>
                                           uuid_eq included_service_uuid (a_uuid b)))
                       (filter (\<lambda>(i, b). first \<le> i) (svc_loop sv)))) } }
      | _ \<Rightarrow> Some [])"

definition gatt_db_service_foreach_incl ::
    "'c gatt_db \<Rightarrow> attr_ptr option \<Rightarrow> 'c option \<Rightarrow> attr_ptr list option" where
  "gatt_db_service_foreach_incl db attrib func =
     gatt_db_service_foreach db attrib (Some included_service_uuid) func"

definition gatt_db_get_attribute :: "'c gatt_db option \<Rightarrow> u16 \<Rightarrow> attr_ptr option option" where
  "gatt_db_get_attribute db handle = do {
     attrib \<leftarrow> gatt_db_get_service db handle;
     case (attrib, db) of
       (Some p, Some d) \<Rightarrow> do {
         a \<leftarrow> db_attr d p;
         sv \<leftarrow> svcs d (a_service a);
         Some (map_option (\<lambda>(i, _). (a_service a, i)) (find (\<lambda>(i, b). a_handle b = handle) (svc_loop sv))) }
     | _ \<Rightarrow> Some None }"

definition find_service_with_uuid :: "'c gatt_db_service \<Rightarrow> bt_uuid_t \<Rightarrow> bool" where
  "find_service_with_uuid sv uuid =
     (case gatt_db_attribute_get_service_uuid sv of Some u \<Rightarrow> uuid_eq uuid u | None \<Rightarrow> False)"

definition gatt_db_get_service_with_uuid ::
    "'c gatt_db option \<Rightarrow> bt_uuid_t option \<Rightarrow> attr_ptr option option" where
  "gatt_db_get_service_with_uuid db uuid =
     (case (db, uuid) of
        (Some d, Some u) \<Rightarrow> do {
          ss \<leftarrow> load_services d (services d);
          Some (map_option (\<lambda>(s, sv). (s, 0)) (find (\<lambda>(s, sv). find_service_with_uuid sv u) ss)) }
      | _ \<Rightarrow> Some None)"

section \<open>Reading and writing attributes\<close>

definition gatt_db_attribute_get_type :: "'c gatt_db \<Rightarrow> attr_ptr option \<Rightarrow> bt_uuid_t option option" where
  "gatt_db_attribute_get_type db attrib =
     (case attrib of None \<Rightarrow> Some None | Some p \<Rightarrow> do { a \<leftarrow> db_attr db p; Some (Some (a_uuid a)) })"

definition gatt_db_attribute_get_handle :: "'c gatt_db \<Rightarrow> attr_ptr option \<Rightarrow> u16 option" where
  "gatt_db_attribute_get_handle db attrib =
     (case attrib of None \<Rightarrow> Some 0 | Some p \<Rightarrow> do { a \<leftarrow> db_attr db p; Some (a_handle a) })"

definition gatt_db_attribute_get_service_handles ::
    "'c gatt_db \<Rightarrow> attr_ptr option \<Rightarrow> (u16 \<times> u16) option option" where
  "gatt_db_attribute_get_service_handles db attrib =
     (case attrib of None \<Rightarrow> Some None
      | Some p \<Rightarrow> do {
          a \<leftarrow> db_attr db p;
          sv \<leftarrow> svcs db (a_service a);
          Some (Some (gatt_db_service_get_handles sv)) })"

text \<open>Start and end handle, whether primary, and the UUID; its absence is the result \<^verbatim>\<open>false\<close>.\<close>

definition gatt_db_attribute_get_service_data ::
    "'c gatt_db \<Rightarrow> attr_ptr option \<Rightarrow> (u16 \<times> u16 \<times> bool \<times> bt_uuid_t option) option option" where
  "gatt_db_attribute_get_service_data db attrib =
     (case attrib of None \<Rightarrow> Some None
      | Some p \<Rightarrow> do {
          a \<leftarrow> db_attr db p;
          sv \<leftarrow> svcs db (a_service a);
          decl \<leftarrow> attr0 sv;
          let (start_handle, end_handle) = gatt_db_service_get_handles sv;
          let primary = (\<not> uuid_eq (a_uuid decl) secondary_service_uuid);
          v \<leftarrow> (case a_value decl of Some v \<Rightarrow> Some v | None \<Rightarrow> if a_value_len decl = 0 then Some [] else None);
          Some (Some (start_handle, end_handle, primary, le_to_uuid v (unat (a_value_len decl)))) })"

definition gatt_db_attribute_read ::
    "u32 \<Rightarrow> 'c gatt_db \<Rightarrow> attr_ptr option \<Rightarrow> u16 \<Rightarrow> u8 \<Rightarrow> nat option \<Rightarrow> 'c option \<Rightarrow> 'c option
       \<Rightarrow> (bool \<times> 'c gatt_db \<times> 'c db_event list) option" where
  "gatt_db_attribute_read tid db attrib offset opcode att func user_data =
     (case (attrib, func) of
        (Some q, Some f) \<Rightarrow> do {
          a \<leftarrow> db_attr db q;
          case a_read_func a of
            Some rf \<Rightarrow> do {
              let p = \<lparr>p_attrib = q, p_id = a_read_id a + 1, p_timeout_id = tid, p_func = f,
                       p_user_data = user_data\<rparr>;
              db \<leftarrow> put_attr db q (a\<lparr>a_read_id := a_read_id a + 1,
                                    a_pending_reads := a_pending_reads a @ [p]\<rparr>);
              Some (True, db, [Read_func rf q (p_id p) offset opcode att (a_user_data a)]) }
          | None \<Rightarrow>
              if offset > a_value_len a
              then Some (True, db, [Read_done f q (int (unat BT_ATT_ERROR_INVALID_OFFSET)) None user_data])
              else if offset = a_value_len a
              then Some (True, db, [Read_done f q 0 None user_data])
              else do {
                v \<leftarrow> a_value a;
                Some (True, db, [Read_done f q 0 (Some (take (unat (a_value_len a) - unat offset)
                                                          (drop (unat offset) v))) user_data]) } }
      | _ \<Rightarrow> Some (False, db, []))"

text \<open>\<^verbatim>\<open>p\<close> is the pending read the timer was started for.\<close>

definition read_timeout :: "'c gatt_db \<Rightarrow> 'c pending \<Rightarrow> (bool \<times> 'c gatt_db \<times> 'c db_event list) option" where
  "read_timeout db p = do {
     a \<leftarrow> db_attr db (p_attrib p);
     db \<leftarrow> put_attr db (p_attrib p) (a\<lparr>a_pending_reads := remove1 p (a_pending_reads a)\<rparr>);
     Some (False, db, pending_read_result (p\<lparr>p_timeout_id := 0\<rparr>) (- ETIMEDOUT) None) }"

definition find_pending :: "'c pending \<Rightarrow> u32 \<Rightarrow> bool" where
  "find_pending p i \<longleftrightarrow> p_id p = i"

definition gatt_db_attribute_read_result ::
    "'c gatt_db \<Rightarrow> attr_ptr option \<Rightarrow> u32 \<Rightarrow> int \<Rightarrow> bytes option
       \<Rightarrow> (bool \<times> 'c gatt_db \<times> 'c db_event list) option" where
  "gatt_db_attribute_read_result db attrib i err val =
     (case attrib of None \<Rightarrow> Some (False, db, [])
      | Some q \<Rightarrow>
          if i = 0 then Some (False, db, [])
          else do {
            a \<leftarrow> db_attr db q;
            case find (\<lambda>p. find_pending p i) (a_pending_reads a) of
              None \<Rightarrow> Some (False, db, [])
            | Some p \<Rightarrow> do {
                db \<leftarrow> put_attr db q
                        (a\<lparr>a_pending_reads := remove_first (\<lambda>p. find_pending p i) (a_pending_reads a)\<rparr>);
                Some (True, db, pending_read_result p err val) } })"

definition write_timeout :: "'c gatt_db \<Rightarrow> 'c pending \<Rightarrow> (bool \<times> 'c gatt_db \<times> 'c db_event list) option" where
  "write_timeout db p = do {
     a \<leftarrow> db_attr db (p_attrib p);
     db \<leftarrow> put_attr db (p_attrib p) (a\<lparr>a_pending_writes := remove1 p (a_pending_writes a)\<rparr>);
     Some (False, db, pending_write_result (p\<lparr>p_timeout_id := 0\<rparr>) (- ETIMEDOUT)) }"

text \<open>
  The store of a value kept in the database: the buffer grows to \<open>len + offset\<close> bytes when the
  value is too short; what lies between its old end and \<open>offset\<close> is only cleared when it was empty.
\<close>

definition store_value ::
    "(nat \<Rightarrow> u8) \<Rightarrow> 'c gatt_db_attribute \<Rightarrow> nat \<Rightarrow> bytes \<Rightarrow> 'c gatt_db_attribute option" where
  "store_value junk a offset val =
     (let a = (if a_value a = None \<or> offset \<ge> unat (a_value_len a) \<or>
                  length val > unat (a_value_len a) - offset
               then let buf = realloc_bytes junk (case a_value a of Some v \<Rightarrow> v | None \<Rightarrow> [])
                                (length val + offset);
                        buf = (if a_value_len a = 0 then replicate offset 0 @ drop offset buf else buf)
                 in a\<lparr>a_value := Some buf, a_value_len := of_nat (length val + offset)\<rparr>
               else a)
      in do { v \<leftarrow> a_value a; v \<leftarrow> buf_write v offset val; Some (a\<lparr>a_value := Some v\<rparr>) })"

definition gatt_db_attribute_write ::
    "bool \<Rightarrow> (nat \<Rightarrow> u8) \<Rightarrow> u32 \<Rightarrow> 'c gatt_db \<Rightarrow> attr_ptr option \<Rightarrow> u16 \<Rightarrow> bytes \<Rightarrow> u8 \<Rightarrow> nat option
       \<Rightarrow> 'c option \<Rightarrow> 'c option \<Rightarrow> (bool \<times> 'c gatt_db \<times> 'c db_event list) option" where
  "gatt_db_attribute_write mem junk tid db attrib offset val opcode att func user_data =
     (case (attrib, func) of
        (Some q, Some f) \<Rightarrow> do {
          a \<leftarrow> db_attr db q;
          case a_write_func a of
            Some wfn \<Rightarrow> do {
              let p = \<lparr>p_attrib = q, p_id = a_write_id a + 1, p_timeout_id = tid, p_func = f,
                       p_user_data = user_data\<rparr>;
              db \<leftarrow> put_attr db q (a\<lparr>a_write_id := a_write_id a + 1,
                                    a_pending_writes := a_pending_writes a @ [p]\<rparr>);
              Some (True, db, [Write_func wfn q (p_id p) offset val opcode att (a_user_data a)]) }
          | None \<Rightarrow>
              if val = [] then Some (True, db, [Write_done f q 0 user_data])
              else if (a_value a = None \<or> unat offset \<ge> unat (a_value_len a) \<or>
                       length val > unat (a_value_len a) - unat offset) \<and> \<not> mem
              then Some (False, db, [])
              else do {
                a \<leftarrow> store_value junk a (unat offset) val;
                db \<leftarrow> put_attr db q a;
                Some (True, db, [Write_done f q 0 user_data]) } }
      | _ \<Rightarrow> Some (False, db, []))"

definition gatt_db_attribute_write_result ::
    "'c gatt_db \<Rightarrow> attr_ptr option \<Rightarrow> u32 \<Rightarrow> int \<Rightarrow> (bool \<times> 'c gatt_db \<times> 'c db_event list) option" where
  "gatt_db_attribute_write_result db attrib i err =
     (case attrib of None \<Rightarrow> Some (False, db, [])
      | Some q \<Rightarrow>
          if i = 0 then Some (False, db, [])
          else do {
            a \<leftarrow> db_attr db q;
            case find (\<lambda>p. find_pending p i) (a_pending_writes a) of
              None \<Rightarrow> Some (False, db, [])
            | Some p \<Rightarrow> do {
                db \<leftarrow> put_attr db q
                        (a\<lparr>a_pending_writes := remove_first (\<lambda>p. find_pending p i) (a_pending_writes a)\<rparr>);
                Some (True, db, pending_write_result p err) } })"

definition gatt_db_attribute_reset :: "'c gatt_db \<Rightarrow> attr_ptr option \<Rightarrow> (bool \<times> 'c gatt_db) option" where
  "gatt_db_attribute_reset db attrib =
     (case attrib of None \<Rightarrow> Some (False, db)
      | Some q \<Rightarrow> do {
          a \<leftarrow> db_attr db q;
          if a_value a = None \<or> a_value_len a = 0 then Some (True, db)
          else do { db \<leftarrow> put_attr db q (a\<lparr>a_value := None, a_value_len := 0\<rparr>); Some (True, db) } })"

definition gatt_db_attribute_get_user_data :: "'c gatt_db \<Rightarrow> attr_ptr option \<Rightarrow> 'c option option" where
  "gatt_db_attribute_get_user_data db attrib =
     (case attrib of None \<Rightarrow> Some None | Some q \<Rightarrow> do { a \<leftarrow> db_attr db q; Some (a_user_data a) })"

definition gatt_db_attribute_get_permissions :: "'c gatt_db \<Rightarrow> attr_ptr option \<Rightarrow> u32 option" where
  "gatt_db_attribute_get_permissions db attrib =
     (case attrib of None \<Rightarrow> Some 0 | Some q \<Rightarrow> do { a \<leftarrow> db_attr db q; Some (a_permissions a) })"

section \<open>Characteristic and include declarations\<close>

text \<open>
  The extended properties are read with \<^verbatim>\<open>gatt_db_attribute_read\<close>; \<open>cb\<close> and \<open>ud\<close> stand for
  \<^verbatim>\<open>read_ext_prop_value\<close> and the address of the local variable.  Only a read that is answered at
  once changes the variable: a later answer finds the function gone.
\<close>

fun read_ext_prop_value :: "u16 \<Rightarrow> 'c db_event \<Rightarrow> u16" where
  "read_ext_prop_value ext_prop (Read_done f q err val ud) =
     (case val of Some [v0, v1] \<Rightarrow> if err \<noteq> 0 then ext_prop else ucast v0 | _ \<Rightarrow> ext_prop)"
| "read_ext_prop_value ext_prop _ = ext_prop"

definition read_ext_prop ::
    "u32 \<Rightarrow> 'c \<Rightarrow> 'c \<Rightarrow> attr_ptr \<Rightarrow> 'c gatt_db \<times> u16 \<times> 'c db_event list
       \<Rightarrow> ('c gatt_db \<times> u16 \<times> 'c db_event list) option" where
  "read_ext_prop tid cb ud attrib = (\<lambda>(db, ext_prop, es). do {
     a \<leftarrow> db_attr db attrib;
     if ext_prop \<noteq> 0 then Some (db, ext_prop, es)
     else if \<not> uuid_eq ext_desc_uuid (a_uuid a) then Some (db, ext_prop, es)
     else do {
       (_, db, e) \<leftarrow> gatt_db_attribute_read tid db (Some attrib) 0 BT_ATT_OP_READ_REQ None
                      (Some cb) (Some ud);
       Some (db, foldl read_ext_prop_value ext_prop e, es @ e) } })"

fun ext_prop_loop ::
    "u32 \<Rightarrow> 'c \<Rightarrow> 'c \<Rightarrow> attr_ptr list \<Rightarrow> 'c gatt_db \<times> u16 \<times> 'c db_event list
       \<Rightarrow> ('c gatt_db \<times> u16 \<times> 'c db_event list) option" where
  "ext_prop_loop tid cb ud [] st = Some st"
| "ext_prop_loop tid cb ud (q # qs) st = do { st \<leftarrow> read_ext_prop tid cb ud q st; ext_prop_loop tid cb ud qs st }"

definition get_char_extended_prop ::
    "u32 \<Rightarrow> 'c \<Rightarrow> 'c \<Rightarrow> 'c gatt_db \<Rightarrow> attr_ptr option \<Rightarrow> (u8 \<times> 'c gatt_db \<times> 'c db_event list) option" where
  "get_char_extended_prop tid cb ud db attrib =
     (case attrib of None \<Rightarrow> Some (0, db, [])
      | Some q \<Rightarrow> do {
          a \<leftarrow> db_attr db q;
          if \<not> uuid_eq characteristic_uuid (a_uuid a) then Some (0, db, [])
          else do {
            v \<leftarrow> a_value a;
            if v = [] then None
            else if hd v AND BT_GATT_CHRC_PROP_EXT_PROP = 0 then Some (0, db, [])
            else do {
              qs \<leftarrow> gatt_db_service_foreach_desc db attrib (Some cb);
              (db, ext_prop, es) \<leftarrow> ext_prop_loop tid cb ud qs (db, 0, []);
              Some (ucast ext_prop, db, es) } } })"

text \<open>Handle, value handle, properties, extended properties and the UUID (absent: \<^verbatim>\<open>false\<close>).\<close>

definition gatt_db_attribute_get_char_data ::
    "u32 \<Rightarrow> 'c \<Rightarrow> 'c \<Rightarrow> 'c gatt_db \<Rightarrow> attr_ptr option
       \<Rightarrow> ((u16 \<times> u16 \<times> u8 \<times> u16 \<times> bt_uuid_t option) option \<times> 'c gatt_db \<times> 'c db_event list) option" where
  "gatt_db_attribute_get_char_data tid cb ud db attrib =
     (case attrib of None \<Rightarrow> Some (None, db, [])
      | Some q \<Rightarrow> do {
          a \<leftarrow> db_attr db q;
          if \<not> uuid_eq characteristic_uuid (a_uuid a) then Some (None, db, [])
          else case a_value a of None \<Rightarrow> Some (None, db, [])
          | Some v \<Rightarrow>
              if a_value_len a \<noteq> 5 \<and> a_value_len a \<noteq> 19 then Some (None, db, [])
              else do {
                (ext_prop, db, es) \<leftarrow> get_char_extended_prop tid cb ud db attrib;
                Some (Some (a_handle a, get_le16 (drop 1 v), hd v, ucast ext_prop,
                            le_to_uuid (drop 3 v) (unat (a_value_len a) - 3)), db, es) } })"

definition gatt_db_attribute_get_incl_data ::
    "'c gatt_db \<Rightarrow> attr_ptr option \<Rightarrow> (u16 \<times> u16 \<times> u16) option option" where
  "gatt_db_attribute_get_incl_data db attrib =
     (case attrib of None \<Rightarrow> Some None
      | Some q \<Rightarrow> do {
          a \<leftarrow> db_attr db q;
          if \<not> uuid_eq included_service_uuid (a_uuid a) then Some None
          else case a_value a of None \<Rightarrow> Some None
          | Some v \<Rightarrow>
              if a_value_len a < 4 \<or> a_value_len a > 6 then Some None
              else Some (Some (a_handle a, get_le16 v, get_le16 (drop 2 v))) })"

end
