(* ===== verification/Gatt_Db_Wf.thy ===== *)
theory Gatt_Db_Wf
  imports Gatt_Db
begin

text \<open>
  The invariant of the attribute database and that every operation keeps it: the queue holds
  exactly the allocated services, each once; a service has an array of \<open>num_handles\<close> entries that
  is filled from the front, a declaration at index 0 and a handle range within 16 bits; an
  attribute points back to its service and its value covers \<open>value_len\<close> bytes.  On a database in
  this state no operation that is given pointers to existing attributes faults.
\<close>

section \<open>The invariant\<close>

definition attr_ok :: "attr_ptr \<Rightarrow> 'c gatt_db_attribute \<Rightarrow> bool" where
  "attr_ok q a \<longleftrightarrow>
     a_service a = fst q \<and>
     (case a_value a of None \<Rightarrow> a_value_len a = 0 | Some v \<Rightarrow> unat (a_value_len a) \<le> length v) \<and>
     (\<forall>p \<in> set (a_pending_reads a) \<union> set (a_pending_writes a). p_attrib p = q)"

definition svc_ok :: "svc_ptr \<Rightarrow> 'c gatt_db_service \<Rightarrow> bool" where
  "svc_ok s sv \<longleftrightarrow>
     0 < unat (s_num_handles sv) \<and> length (s_attributes sv) = unat (s_num_handles sv) \<and>
     attr0 sv \<noteq> None \<and> 0 < unat (svc_start sv) \<and>
     unat (svc_start sv) + unat (s_num_handles sv) \<le> 65536 \<and>
     (\<forall>i a. svc_attr sv i = Some a \<longrightarrow> attr_ok (s, i) a) \<and>
     (\<forall>i j. i \<le> j \<longrightarrow> svc_attr sv j \<noteq> None \<longrightarrow> svc_attr sv i \<noteq> None)"

definition db_wf :: "'c gatt_db \<Rightarrow> bool" where
  "db_wf db \<longleftrightarrow>
     distinct (services db) \<and> set (services db) = dom (svcs db) \<and>
     (\<forall>s sv. svcs db s = Some sv \<longrightarrow> svc_ok s sv \<and> s < next_svc db)"

definition notify_ok :: "'c gatt_db \<Rightarrow> bool" where
  "notify_ok db \<longleftrightarrow>
     (\<forall>n \<in> set (notify_list db). n_service_added n \<noteq> None \<and> n_service_removed n \<noteq> None)"

lemma db_wf_svc: "db_wf db \<Longrightarrow> svcs db s = Some sv \<Longrightarrow> svc_ok s sv"
  by (simp add: db_wf_def)

lemma db_wf_dom: "db_wf db \<Longrightarrow> s \<in> set (services db) \<longleftrightarrow> svcs db s \<noteq> None"
  by (auto simp: db_wf_def)

lemma db_attrE:
  assumes "db_attr db q = Some a"
  obtains sv where "svcs db (fst q) = Some sv" "svc_attr sv (snd q) = Some a"
    "snd q < length (s_attributes sv)"
  using assms by (auto simp: db_attr_def svc_attr_def bind_eq_Some_conv split: if_splits)

lemma db_attr_ok: "db_wf db \<Longrightarrow> db_attr db q = Some a \<Longrightarrow> attr_ok q a"
  by (cases q) (auto elim!: db_attrE dest!: db_wf_svc simp: svc_ok_def)

lemma db_attr_service:
  assumes "db_wf db" "db_attr db q = Some a"
  obtains sv where "a_service a = fst q" "svcs db (fst q) = Some sv" "svc_ok (fst q) sv"
    "svc_attr sv (snd q) = Some a" "snd q < unat (s_num_handles sv)"
proof -
  from assms(2) obtain sv where sv: "svcs db (fst q) = Some sv" "svc_attr sv (snd q) = Some a"
    "snd q < length (s_attributes sv)" by (rule db_attrE)
  with db_wf_svc [OF assms(1) sv(1)] db_attr_ok [OF assms] that show ?thesis
    by (auto simp: svc_ok_def attr_ok_def)
qed

lemma load_services_wf:
  "\<forall>s \<in> set ss. svcs db s \<noteq> None \<Longrightarrow> load_services db ss = Some (map (\<lambda>s. (s, the (svcs db s))) ss)"
  by (induction ss) auto

lemma load_services_db:
  "db_wf db \<Longrightarrow> load_services db (services db) = Some (map (\<lambda>s. (s, the (svcs db s))) (services db))"
  by (rule load_services_wf) (simp add: db_wf_dom)

lemma attr0_svc_attr: "s_attributes sv \<noteq> [] \<Longrightarrow> attr0 sv = svc_attr sv 0"
  by (cases "s_attributes sv") (auto simp: attr0_def svc_attr_def)

lemma svc_start_svc_attr: "svc_attr sv 0 = Some a \<Longrightarrow> svc_start sv = a_handle a"
  by (cases "s_attributes sv") (auto simp: attr0_def svc_attr_def svc_start_def split: if_splits)

lemma svc_ok_attr0: "svc_ok s sv \<Longrightarrow> \<exists>a. attr0 sv = Some a \<and> svc_attr sv 0 = Some a \<and> svc_start sv = a_handle a"
  by (cases "s_attributes sv") (auto simp: svc_ok_def attr0_def svc_attr_def svc_start_def)

section \<open>Stores\<close>

lemma svc_attr_update [simp]:
  "svc_attr (sv\<lparr>s_attributes := (s_attributes sv)[i := x]\<rparr>) j =
   (if j = i \<and> i < length (s_attributes sv) then x else svc_attr sv j)"
  by (auto simp: svc_attr_def nth_list_update)

lemma svc_attr_fields [simp]:
  "svc_attr (sv\<lparr>s_active := b\<rparr>) = svc_attr sv" "svc_attr (sv\<lparr>s_claimed := b\<rparr>) = svc_attr sv"
  "svc_start (sv\<lparr>s_active := b\<rparr>) = svc_start sv" "svc_start (sv\<lparr>s_claimed := b\<rparr>) = svc_start sv"
  "attr0 (sv\<lparr>s_active := b\<rparr>) = attr0 sv" "attr0 (sv\<lparr>s_claimed := b\<rparr>) = attr0 sv"
  by (auto simp: svc_attr_def svc_start_def attr0_def)

lemma svc_ok_fields [simp]:
  "svc_ok s (sv\<lparr>s_active := b\<rparr>) = svc_ok s sv" "svc_ok s (sv\<lparr>s_claimed := b\<rparr>) = svc_ok s sv"
  by (simp_all add: svc_ok_def)

lemma svc_start_update:
  assumes "svc_ok s sv" "i = 0 \<longrightarrow> a_handle a = svc_start sv"
  shows "svc_start (sv\<lparr>s_attributes := (s_attributes sv)[i := Some a]\<rparr>) = svc_start sv"
    "attr0 (sv\<lparr>s_attributes := (s_attributes sv)[i := Some a]\<rparr>) \<noteq> None"
  using assms by (cases "s_attributes sv"; cases i; auto simp: svc_start_def attr0_def svc_ok_def)+

lemma svc_ok_update:
  assumes ok: "svc_ok s sv" and i: "i < unat (s_num_handles sv)" and a: "attr_ok (s, i) a"
    and h: "i = 0 \<longrightarrow> a_handle a = svc_start sv" and below: "\<And>j. j < i \<Longrightarrow> svc_attr sv j \<noteq> None"
  shows "svc_ok s (sv\<lparr>s_attributes := (s_attributes sv)[i := Some a]\<rparr>)"
proof -
  let ?sv = "sv\<lparr>s_attributes := (s_attributes sv)[i := Some a]\<rparr>"
  have at: "svc_attr ?sv j = (if j = i then Some a else svc_attr sv j)" for j
    using ok i by (simp add: svc_ok_def)
  have "svc_attr ?sv j \<noteq> None \<Longrightarrow> svc_attr ?sv k \<noteq> None" if "k \<le> j" for j k
    using ok below [of k] that by (auto simp: at svc_ok_def split: if_splits)
  with ok a svc_start_update [OF ok h] show ?thesis
    by (auto simp: svc_ok_def at simp del: svc_attr_update)
qed

lemma put_svc_wf [wf_intros]:
  "db_wf db \<Longrightarrow> svcs db s = Some sv \<Longrightarrow> svc_ok s sv' \<Longrightarrow> db_wf (put_svc db s sv')"
  by (auto simp: db_wf_def put_svc_def insert_absorb domIff)

lemma put_svc_notify [simp]:
  "notify_ok (put_svc db s sv) = notify_ok db" "notify_list (put_svc db s sv) = notify_list db"
  "services (put_svc db s sv) = services db" "next_handle (put_svc db s sv) = next_handle db"
  "svcs (put_svc db s sv) = (svcs db)(s \<mapsto> sv)"
  by (simp_all add: put_svc_def notify_ok_def)

lemma put_attr_Some:
  assumes "svcs db s = Some sv" "i < length (s_attributes sv)"
  shows "put_attr db (s, i) a = Some (put_svc db s (sv\<lparr>s_attributes := (s_attributes sv)[i := Some a]\<rparr>))"
  using assms by (simp add: put_attr_def)

lemma db_attr_put:
  assumes "put_attr db q a = Some db'"
  shows "db_attr db' r = (if r = q then Some a else db_attr db r)"
  using assms
  by (cases q; cases r) (auto simp: put_attr_def db_attr_def bind_eq_Some_conv split: if_splits)

text \<open>An attribute that exists is replaced by one with the same handle.\<close>

lemma put_attr_wf:
  assumes "db_wf db" "db_attr db q = Some a" "attr_ok q a'" "a_handle a' = a_handle a"
  shows "\<exists>db'. put_attr db q a' = Some db' \<and> db_wf db' \<and> (notify_ok db \<longrightarrow> notify_ok db')"
proof -
  obtain s i where q: "q = (s, i)" by (cases q)
  from assms(1,2) q obtain sv where sv: "svcs db s = Some sv" "svc_ok s sv" "svc_attr sv i = Some a"
    "i < unat (s_num_handles sv)"
    using db_attr_service [OF assms(1,2)] by auto
  have "svc_ok s (sv\<lparr>s_attributes := (s_attributes sv)[i := Some a']\<rparr>)"
  proof (rule svc_ok_update [OF sv(2,4)])
    show "attr_ok (s, i) a'" using assms(3) q by simp
    show "i = 0 \<longrightarrow> a_handle a' = svc_start sv" using assms(4) sv(3) svc_start_svc_attr [of sv a] by auto
    show "svc_attr sv j \<noteq> None" if "j < i" for j
    proof -
      have "svc_attr sv i \<noteq> None" using sv(3) by simp
      then show ?thesis using sv(2) that unfolding svc_ok_def by (meson less_imp_le)
    qed
  qed
  moreover have "i < length (s_attributes sv)" using sv(2,4) by (simp add: svc_ok_def)
  ultimately show ?thesis
    using put_attr_Some [OF sv(1)] put_svc_wf [OF assms(1) sv(1)] q by auto
qed

lemma get_attribute_index_props:
  assumes "svc_ok s sv" "get_attribute_index sv k = i" "i \<noteq> 0"
  shows "i < unat (s_num_handles sv) - k" "svc_attr sv i = None" "\<And>j. j < i \<Longrightarrow> svc_attr sv j \<noteq> None"
proof -
  let ?n = "unat (s_num_handles sv) - k"
  let ?tw = "takeWhile (\<lambda>i. svc_attr sv i \<noteq> None) [0..<?n]"
  have i: "i = length ?tw" "length ?tw \<noteq> ?n"
    using assms(2,3) by (auto simp: get_attribute_index_def Let_def split: if_splits)
  moreover have "length ?tw \<le> ?n"
    using length_takeWhile_le [of "\<lambda>i. svc_attr sv i \<noteq> None" "[0..<?n]"] by simp
  ultimately show less: "i < ?n" by simp
  show "svc_attr sv i = None"
    using nth_length_takeWhile [of "\<lambda>i. svc_attr sv i \<noteq> None" "[0..<?n]"] i less by simp
  show "svc_attr sv j \<noteq> None" if "j < i" for j
  proof -
    have j: "j < length ?tw" using that i by simp
    have "?tw ! j = j" using takeWhile_nth [OF j] that less by simp
    then have "j \<in> set ?tw" using nth_mem [OF j] by simp
    then show ?thesis
      using set_takeWhileD [of j "\<lambda>i. svc_attr sv i \<noteq> None" "[0..<?n]"] by blast
  qed
qed

text \<open>An attribute is added at the first free index.\<close>

lemma put_attr_new_wf:
  assumes "db_wf db" "svcs db s = Some sv" "0 < i" "i < unat (s_num_handles sv)" "attr_ok (s, i) a"
    "\<And>j. j < i \<Longrightarrow> svc_attr sv j \<noteq> None"
  shows "\<exists>db'. put_attr db (s, i) a = Some db' \<and> db_wf db' \<and> (notify_ok db \<longrightarrow> notify_ok db') \<and>
    db' = put_svc db s (sv\<lparr>s_attributes := (s_attributes sv)[i := Some a]\<rparr>)"
proof -
  note ok = db_wf_svc [OF assms(1,2)]
  have "svc_ok s (sv\<lparr>s_attributes := (s_attributes sv)[i := Some a]\<rparr>)"
    using assms by (intro svc_ok_update [OF ok]) auto
  moreover have "i < length (s_attributes sv)" using ok assms(4) by (simp add: svc_ok_def)
  ultimately show ?thesis
    using put_attr_Some [OF assms(2)] put_svc_wf [OF assms(1,2)] by auto
qed

section \<open>Every operation keeps the invariant\<close>

lemma unat_of_nat_le: "unat (of_nat n :: 'a::len word) \<le> n"
  by (simp add: unat_of_nat)

lemma new_attribute_props:
  assumes "new_attribute mem s h ty val = Some a"
  shows "a_handle a = h" "a_uuid a = ty" "a_service a = s" "a_value_len a = of_nat (length val)"
    "attr_ok (s, i) (set_attribute_data a r w p u)"
  using assms
  by (auto simp: new_attribute_def attr_ok_def set_attribute_data_def Let_def unat_of_nat_le
      min_absorb2 split: if_splits)

lemma new_attribute_value:
  assumes "new_attribute mem s h ty val = Some a" "length val < 65536"
  shows "a_value a = (if val = [] then None else Some val)"
proof -
  have "(of_nat (length val) :: u16) = 0 \<longleftrightarrow> val = []"
    using assms(2) by (simp add: unat_eq_0 [symmetric] unat_of_nat_less)
  with assms show ?thesis
    by (auto simp: new_attribute_def Let_def unat_of_nat_less split: if_splits)
qed

lemma new_attribute_Nil [simp]: "new_attribute mem s h ty [] \<noteq> None"
  by (simp add: new_attribute_def)

lemma set_attribute_data_fields [simp]:
  "a_handle (set_attribute_data a r w p u) = a_handle a"
  "a_uuid (set_attribute_data a r w p u) = a_uuid a"
  "a_service (set_attribute_data a r w p u) = a_service a"
  "a_value (set_attribute_data a r w p u) = a_value a"
  "a_value_len (set_attribute_data a r w p u) = a_value_len a"
  "a_permissions (set_attribute_data a r w p u) = p"
  "a_read_func (set_attribute_data a r w p u) = r"
  "a_write_func (set_attribute_data a r w p u) = w"
  "a_user_data (set_attribute_data a r w p u) = u"
  by (simp_all add: set_attribute_data_def)

lemma uuid_to_le_ok: "uuid_ok u \<Longrightarrow> \<exists>b. uuid_to_le u = Some b \<and> (length b = 2 \<or> length b = 16)"
  by (cases u)
    (auto simp: uuid_to_le_def bt_uuid_to_uuid128_def uuid16_bytes uuid32_bytes)

lemma attr_ok_handle [simp]: "attr_ok q (a\<lparr>a_handle := h\<rparr>) = attr_ok q a"
  by (simp add: attr_ok_def split: option.split)

text \<open>
  What the three ways to extend a service do: with room left and memory, the result is a new
  database in which only the free slots of that service changed.
\<close>

lemma insert_descriptor_wf:
  fixes db :: "'c gatt_db"
  assumes wf: "db_wf db" and sv: "svcs db s = Some sv"
  shows "\<exists>r db'. service_insert_descriptor mem db s h u p rf w ud = Some (r, db') \<and> db_wf db' \<and>
    (notify_ok db \<longrightarrow> notify_ok db')"
proof -
  let ?i = "get_attribute_index sv 0"
  show ?thesis
  proof (cases "?i = 0 \<or> h \<noteq> 0 \<and> h \<le> svc_start sv")
    case True
    with wf show ?thesis by (auto simp: service_insert_descriptor_def sv Let_def)
  next
    case False
    note idx = get_attribute_index_props [OF db_wf_svc [OF wf sv] refl [of ?i]]
    from False idx(3) [of "?i - 1"] obtain b where b: "svc_attr sv (?i - 1) = Some b" by auto
    let ?h = "if h = 0 then a_handle b + 1 else h"
    obtain a :: "'c gatt_db_attribute" where a: "new_attribute mem s ?h u [] = Some a" using new_attribute_Nil by blast
    let ?a = "set_attribute_data a rf w p ud"
    from False idx new_attribute_props(5) [OF a] obtain db' where
      "put_attr db (s, ?i) ?a = Some db'" "db_wf db'" "notify_ok db \<longrightarrow> notify_ok db'"
      using put_attr_new_wf [OF wf sv, of ?i ?a] by auto
    with False a b show ?thesis
      by (auto simp: service_insert_descriptor_def sv get_handle_at_index_def)
  qed
qed

lemma insert_characteristic_wf:
  fixes db :: "'c gatt_db"
  assumes wf: "db_wf db" and sv: "svcs db s = Some sv" and u: "uuid_ok u"
  shows "\<exists>r db'. service_insert_characteristic mem db s h u p pr rf w ud = Some (r, db') \<and> db_wf db' \<and>
    (notify_ok db \<longrightarrow> notify_ok db')"
proof -
  let ?i = "get_attribute_index sv 1"
  show ?thesis
  proof (cases "?i = 0 \<or> h \<noteq> 0 \<and> h \<le> svc_start sv \<or> h = 0xFFFF")
    case True
    with wf show ?thesis by (auto simp: service_insert_characteristic_def sv Let_def)
  next
    case False
    note idx = get_attribute_index_props [OF db_wf_svc [OF wf sv] refl [of ?i]]
    from False idx(3) [of "?i - 1"] obtain b where b: "svc_attr sv (?i - 1) = Some b" by auto
    let ?h = "if h = 0 then a_handle b + 2 else h"
    from uuid_to_le_ok [OF u] obtain le where le: "uuid_to_le u = Some le" by blast
    let ?val = "[pr] @ put_le16 ?h @ le"
    show ?thesis
    proof (cases "new_attribute mem s (?h - 1) characteristic_uuid ?val :: 'c gatt_db_attribute option")
      case None
      with False b le wf show ?thesis
        by (auto simp: service_insert_characteristic_def sv get_handle_at_index_def)
    next
      case (Some d)
      let ?d = "set_attribute_data d None None BT_ATT_PERM_READ None"
      from False idx new_attribute_props(5) [OF Some] obtain db1 where
        1: "put_attr db (s, ?i) ?d = Some db1" "db_wf db1" "notify_ok db \<longrightarrow> notify_ok db1"
          "db1 = put_svc db s (sv\<lparr>s_attributes := (s_attributes sv)[?i := Some ?d]\<rparr>)"
        using put_attr_new_wf [OF wf sv, of ?i ?d] by auto
      let ?sv = "sv\<lparr>s_attributes := (s_attributes sv)[?i := Some ?d]\<rparr>"
      have sv1: "svcs db1 s = Some ?sv" using 1(4) by simp
      obtain a :: "'c gatt_db_attribute" where a: "new_attribute mem s ?h u [] = Some a" using new_attribute_Nil by blast
      let ?a = "set_attribute_data a rf w p ud"
      have below: "svc_attr ?sv j \<noteq> None" if "j < ?i + 1" for j
        using that idx(1) idx(3) [of j] False db_wf_svc [OF wf sv] by (auto simp: svc_ok_def)
      obtain db2 where
        "put_attr db1 (s, ?i + 1) ?a = Some db2" "db_wf db2" "notify_ok db1 \<longrightarrow> notify_ok db2"
        using put_attr_new_wf [OF 1(2) sv1, of "?i + 1" ?a] new_attribute_props(5) [OF a] below False idx(1)
        by auto
      with 1 False a b le Some show ?thesis
        by (auto simp: service_insert_characteristic_def sv get_handle_at_index_def)
    qed
  qed
qed

lemma insert_included_wf:
  fixes db :: "'c gatt_db"
  assumes wf: "db_wf db" and sv: "svcs db s = Some sv" and incl: "db_attr db q = Some b"
  shows "\<exists>r db'. service_insert_included mem db s h q = Some (r, db') \<and> db_wf db' \<and>
    (notify_ok db \<longrightarrow> notify_ok db')"
proof -
  let ?i = "get_attribute_index sv 0"
  from db_attr_service [OF wf incl] obtain isv where
    isv: "a_service b = fst q" "svcs db (fst q) = Some isv" "svc_ok (fst q) isv" by blast
  from svc_ok_attr0 [OF isv(3)] obtain c where c: "attr0 isv = Some c" "svc_attr isv 0 = Some c" by blast
  have "attr_ok (fst q, 0) c" using isv(3) c(2) by (simp add: svc_ok_def)
  then have "\<exists>u. (if a_value_len c = 2 then do { v \<leftarrow> a_value c; Some (take 2 v) } else Some []) = Some u"
    by (cases "a_value c") (auto simp: attr_ok_def)
  then obtain u where
    u: "(if a_value_len c = 2 then do { v \<leftarrow> a_value c; Some (take 2 v) } else Some []) = Some u" by blast
  let ?val = "put_le16 (a_handle c) @ put_le16 (a_handle c + s_num_handles isv - 1) @ u"
  note unf = service_insert_included_def sv incl isv(1,2) c(1) u Let_def
  show ?thesis
  proof (cases "?i = 0 \<or> h \<noteq> 0 \<and> h \<le> svc_start sv")
    case True
    with wf show ?thesis by (auto simp: unf)
  next
    case False
    note idx = get_attribute_index_props [OF db_wf_svc [OF wf sv] refl [of ?i]]
    from False idx(3) [of "?i - 1"] obtain p where p: "svc_attr sv (?i - 1) = Some p" by auto
    let ?h = "if h = 0 then a_handle p + 1 else h"
    show ?thesis
    proof (cases "new_attribute mem s ?h included_service_uuid ?val :: 'c gatt_db_attribute option")
      case None
      with False p wf show ?thesis by (auto simp: unf get_handle_at_index_def)
    next
      case (Some a)
      let ?a = "set_attribute_data a None None BT_ATT_PERM_READ None"
      from False idx new_attribute_props(5) [OF Some] obtain db1 where
        1: "put_attr db (s, ?i) ?a = Some db1" "db_wf db1" "notify_ok db \<longrightarrow> notify_ok db1"
          "db1 = put_svc db s (sv\<lparr>s_attributes := (s_attributes sv)[?i := Some ?a]\<rparr>)"
        using put_attr_new_wf [OF wf sv, of ?i ?a] by auto
      let ?sv = "sv\<lparr>s_attributes := (s_attributes sv)[?i := Some ?a]\<rparr>"
      have sv1: "svcs db1 s = Some ?sv" using 1(4) by simp
      have at: "svc_attr ?sv ?i = Some ?a" "svc_attr ?sv (?i - 1) = Some p"
        using p idx(1) False db_wf_svc [OF wf sv] by (auto simp: svc_ok_def)
      have below: "svc_attr ?sv j \<noteq> None" if "j < ?i" for j
        using that idx(3) [of j] False by auto
      have "attr_ok (s, ?i) (?a\<lparr>a_handle := a_handle p + 1\<rparr>)"
        using new_attribute_props(5) [OF Some] by simp
      then obtain db2 where
        "put_attr db1 (s, ?i) (?a\<lparr>a_handle := a_handle p + 1\<rparr>) = Some db2" "db_wf db2"
        "notify_ok db1 \<longrightarrow> notify_ok db2"
        using put_attr_new_wf [OF 1(2) sv1, of ?i] below False idx(1) by fastforce
      then have "attribute_update db1 s ?i = Some ((s, ?i), db2)"
        using at by (simp add: attribute_update_def sv1 get_handle_at_index_def del: svc_attr_update)
      with \<open>db_wf db2\<close> \<open>notify_ok db1 \<longrightarrow> notify_ok db2\<close> 1 False p Some show ?thesis
        by (auto simp: unf get_handle_at_index_def)
    qed
  qed
qed

text \<open>Services come and go.\<close>

lemma service_create_ok:
  assumes "gatt_db_service_create mem s u h primary n = Some (Some sv)" "0 < unat h"
    "unat h + unat n \<le> 65536"
  shows "svc_ok s (sv\<lparr>s_num_handles := n\<rparr>)" "svc_start (sv\<lparr>s_num_handles := n\<rparr>) = h"
    "s_active sv = False"
proof -
  from assms(1) obtain val a where n: "\<not> n < 1" and
    a: "new_attribute mem s h (if primary then primary_service_uuid else secondary_service_uuid) val = Some a"
    and sv: "sv = \<lparr>s_active = False, s_claimed = False, s_num_handles = 0,
      s_attributes = Some (set_attribute_data a None None BT_ATT_PERM_READ None) # replicate (unat n - 1) None\<rparr>"
    by (auto simp: gatt_db_service_create_def bind_eq_Some_conv Let_def split: if_splits option.splits)
  from n have n': "0 < unat n" by (simp add: word_less_nat_alt not_less unat_gt_0 word_le_nat_alt)
  have at: "svc_attr (sv\<lparr>s_num_handles := n\<rparr>) i =
      (if i = 0 then Some (set_attribute_data a None None BT_ATT_PERM_READ None) else None)" for i
    by (auto simp: sv svc_attr_def nth_Cons split: nat.splits)
  show start: "svc_start (sv\<lparr>s_num_handles := n\<rparr>) = h"
    using svc_start_svc_attr [of "sv\<lparr>s_num_handles := n\<rparr>"] new_attribute_props(1) [OF a] by (simp add: at)
  show "svc_ok s (sv\<lparr>s_num_handles := n\<rparr>)"
    using assms(2,3) n' start new_attribute_props(5) [OF a, of 0]
    by (auto simp: svc_ok_def at) (simp_all add: sv attr0_def)
  show "s_active sv = False" by (simp add: sv)
qed

lemma service_create_total: "uuid_ok u \<Longrightarrow> \<exists>new. gatt_db_service_create mem s u h primary n = Some new"
  using uuid_to_le_ok [of u] by (auto simp: gatt_db_service_create_def Let_def)

lemma set_insert_after: "y \<in> set xs \<Longrightarrow> set (insert_after y x xs) = insert x (set xs)"
  by (induction xs) auto

lemma distinct_insert_after: "distinct xs \<Longrightarrow> x \<notin> set xs \<Longrightarrow> distinct (insert_after y x xs)"
proof (induction xs)
  case (Cons z zs)
  have "set (insert_after y x zs) \<subseteq> insert x (set zs)"
    using set_insert_after [of y zs x] by (cases "y \<in> set zs") (auto, induction zs, auto)
  with Cons show ?case by auto
qed simp

lemma find_insert_loc_Inl: "find_insert_loc ss st en af = Inl p \<Longrightarrow> p \<in> set ss"
  by (induction ss st en af rule: find_insert_loc.induct)
    (auto simp: gatt_db_service_get_handles_def split: if_splits)

lemma find_insert_loc_Inr:
  "find_insert_loc ss st en af = Inr after \<Longrightarrow> after = af \<or> (\<exists>p \<in> set ss. after = Some (fst p))"
  by (induction ss st en af rule: find_insert_loc.induct)
    (auto simp: gatt_db_service_get_handles_def split: if_splits)

text \<open>The queue with the new service: in front, or behind the service the search stopped at.\<close>

definition insert_loc :: "svc_ptr option \<Rightarrow> svc_ptr \<Rightarrow> svc_ptr list \<Rightarrow> svc_ptr list" where
  "insert_loc after s ss = (case after of None \<Rightarrow> s # ss | Some x \<Rightarrow> insert_after x s ss)"

lemma insert_loc_set:
  assumes "\<forall>x. after = Some x \<longrightarrow> x \<in> set ss"
  shows "set (insert_loc after s ss) = insert s (set ss)"
  using assms by (cases after) (auto simp: insert_loc_def set_insert_after)

lemma distinct_insert_loc: "distinct ss \<Longrightarrow> s \<notin> set ss \<Longrightarrow> distinct (insert_loc after s ss)"
  by (cases after) (auto simp: insert_loc_def distinct_insert_after)

lemma wf_add_svc:
  assumes "db_wf db" "svc_ok (next_svc db) sv" "distinct q" "set q = insert (next_svc db) (set (services db))"
  shows "db_wf (db\<lparr>services := q, svcs := (svcs db)(next_svc db \<mapsto> sv), next_svc := next_svc db + 1,
                  next_handle := nh\<rparr>)"
  using assms by (auto simp: db_wf_def less_SucI)

text \<open>The result of an insertion that creates the service.\<close>

definition added_db ::
    "'c gatt_db \<Rightarrow> svc_ptr option \<Rightarrow> 'c gatt_db_service \<Rightarrow> u16 \<Rightarrow> u16 \<Rightarrow> 'c gatt_db" where
  "added_db db after sv h n =
     db\<lparr>services := insert_loc after (next_svc db) (services db),
        svcs := (svcs db)(next_svc db \<mapsto> sv\<lparr>s_num_handles := n\<rparr>),
        next_svc := next_svc db + 1,
        next_handle := of_nat (max (unat h + unat n) (unat (next_handle db)))\<rparr>"

lemma insert_service_cases:
  fixes db :: "'c gatt_db"
  assumes wf: "db_wf db" and u: "uuid_ok u"
    and r: "r = gatt_db_insert_service mem (Some db) h u primary n"
  obtains (rejected) "r = Some (None, Some db)"
  | (present) s sv where "r = Some (Some (s, 0), Some db)" "svcs db s = Some sv" "svc_start sv = h"
      "s_num_handles sv = n"
  | (added) after sv where "r = Some (Some (next_svc db, 0), Some (added_db db after sv h n))"
      "gatt_db_service_create mem (next_svc db) u h primary n = Some (Some sv)"
      "find_insert_loc (map (\<lambda>s. (s, the (svcs db s))) (services db)) h (h + n - 1) None = Inr after"
      "\<forall>x. after = Some x \<longrightarrow> x \<in> set (services db)" "0 < unat h" "0 < unat n"
      "unat h + unat n \<le> 65536"
proof -
  let ?ss = "map (\<lambda>s. (s, the (svcs db s))) (services db)"
  note r = r [unfolded gatt_db_insert_service_def] and ld = load_services_db [OF wf]
  show thesis
  proof (cases "h < 1 \<or> n < 1 \<or> unat h + unat n - 1 > 0xFFFF")
    case True
    with r show thesis by (intro rejected) auto
  next
    case False
    then have pos: "0 < unat h" "0 < unat n" "unat h + unat n \<le> 65536"
      by (auto simp: word_less_nat_alt not_less unat_gt_0 word_le_nat_alt)
    show thesis
    proof (cases "find_insert_loc ?ss h (h + n - 1) None")
      case (Inl p)
      obtain s sv where p: "p = (s, sv)" by (cases p)
      with find_insert_loc_Inl [OF Inl] have sv: "svcs db s = Some sv"
        using db_wf_dom [OF wf] by auto
      from svc_ok_attr0 [OF db_wf_svc [OF wf sv]] obtain a where
        "attr0 sv = Some a" "svc_start sv = a_handle a" by blast
      with False Inl p sv r show thesis
        by (cases "r = Some (None, Some db)") (auto simp: ld Let_def split: if_splits intro: rejected present)
    next
      case (Inr after)
      have mem: "\<forall>x. after = Some x \<longrightarrow> x \<in> set (services db)"
        using find_insert_loc_Inr [OF Inr] by auto
      obtain new :: "'c gatt_db_service option" where
        new: "gatt_db_service_create mem (next_svc db) u h primary n = Some new"
        using service_create_total [OF u] by blast
      show thesis
      proof (cases new)
        case None
        with False Inr new r show thesis by (intro rejected) (auto simp: ld Let_def)
      next
        case (Some sv)
        with False Inr new mem r have "r = Some (Some (next_svc db, 0), Some (added_db db after sv h n))"
          by (auto simp: ld Let_def added_db_def insert_loc_def split: option.splits)
        from added [OF this] Some new Inr mem pos show thesis by blast
      qed
    qed
  qed
qed

lemma added_db_wf:
  assumes "db_wf db" "gatt_db_service_create mem (next_svc db) u h primary n = Some (Some sv)"
    "\<forall>x. after = Some x \<longrightarrow> x \<in> set (services db)" "0 < unat h" "unat h + unat n \<le> 65536"
  shows "db_wf (added_db db after sv h n)"
proof -
  have "next_svc db \<notin> set (services db)" using assms(1) by (auto simp: db_wf_def)
  moreover have "distinct (services db)" using assms(1) by (simp add: db_wf_def)
  ultimately show ?thesis
    unfolding added_db_def
    using wf_add_svc [OF assms(1) service_create_ok(1) [OF assms(2,4,5)]]
      insert_loc_set [OF assms(3)] distinct_insert_loc by blast
qed

lemma insert_service_wf:
  assumes "db_wf db" "uuid_ok u"
  shows "\<exists>r db'. gatt_db_insert_service mem (Some db) h u primary n = Some (r, Some db') \<and> db_wf db' \<and>
    (notify_ok db \<longrightarrow> notify_ok db')"
  using assms refl
proof (rule insert_service_cases)
  fix after sv
  assume "gatt_db_insert_service mem (Some db) h u primary n =
      Some (Some (next_svc db, 0), Some (added_db db after sv h n))"
    "gatt_db_service_create mem (next_svc db) u h primary n = Some (Some sv)"
    "\<forall>x. after = Some x \<longrightarrow> x \<in> set (services db)" "0 < unat h" "unat h + unat n \<le> 65536"
  with added_db_wf [OF assms(1)] show ?thesis by (simp add: added_db_def notify_ok_def)
qed (use assms in auto)

lemma those_map_Some: "\<forall>x \<in> set xs. f x \<noteq> None \<Longrightarrow> those (map f xs) = Some (map (the \<circ> f) xs)"
  by (induction xs) auto

lemma notify_service_changed_total:
  "notify_ok db \<Longrightarrow> \<exists>e. notify_service_changed db s added = Some e \<and> length e = length (notify_list db)"
proof -
  assume "notify_ok db"
  then have "\<forall>n \<in> set (notify_list db). handle_notify (s, 0) added n \<noteq> None"
    by (auto simp: notify_ok_def handle_notify_def)
  then show ?thesis by (auto simp: notify_service_changed_def those_map_Some)
qed

lemma service_destroy_total:
  assumes "notify_ok db" "svcs db s = Some sv"
  shows "\<exists>e. gatt_db_service_destroy db s = Some (db\<lparr>svcs := (svcs db)(s := None)\<rparr>, e)"
  using notify_service_changed_total [OF assms(1), of s False] assms(2)
  by (auto simp: gatt_db_service_destroy_def)

lemma destroy_services_total:
  assumes "notify_ok db" "distinct ss" "set ss \<subseteq> dom (svcs db)"
  shows "\<exists>e. destroy_services db ss = Some (db\<lparr>svcs := (svcs db) |` (- set ss)\<rparr>, e)"
  using assms
proof (induction ss arbitrary: db)
  case Nil
  then show ?case by simp
next
  case (Cons s ss)
  from Cons.prems obtain sv where "svcs db s = Some sv" by auto
  with service_destroy_total [OF Cons.prems(1)] obtain e where
    e: "gatt_db_service_destroy db s = Some (db\<lparr>svcs := (svcs db)(s := None)\<rparr>, e)" by blast
  let ?db = "db\<lparr>svcs := (svcs db)(s := None)\<rparr>"
  have "notify_ok ?db" "distinct ss" "set ss \<subseteq> dom (svcs ?db)"
    using Cons.prems by (auto simp: notify_ok_def)
  from Cons.IH [OF this] obtain es where
    "destroy_services ?db ss = Some (?db\<lparr>svcs := (svcs ?db) |` (- set ss)\<rparr>, es)" by blast
  moreover have "(svcs db)(s := None) |` (- set ss) = (svcs db) |` (- set (s # ss))"
    by (auto simp: restrict_map_def fun_eq_iff)
  ultimately show ?case using e by simp
qed

lemma wf_drop_services:
  assumes "db_wf db"
  shows "db_wf (db\<lparr>services := filter (\<lambda>s. s \<notin> set gone) (services db), svcs := (svcs db) |` (- set gone)\<rparr>)"
  using assms by (auto simp: db_wf_def restrict_map_def split: if_splits)

lemma wf_next_handle [simp]:
  "db_wf (db\<lparr>next_handle := h\<rparr>) = db_wf db" "notify_ok (db\<lparr>next_handle := h\<rparr>) = notify_ok db"
  by (simp_all add: db_wf_def notify_ok_def)

lemma remove_service_wf:
  assumes "db_wf db" "notify_ok db" "db_attr db q = Some a"
  shows "\<exists>db' e. gatt_db_remove_service (Some db) (Some q) = Some (True, Some db', e) \<and>
    db_wf db' \<and> notify_ok db' \<and> services db' = remove1 (fst q) (services db) \<and>
    svcs db' = (svcs db)(fst q := None)"
proof -
  from assms obtain sv where a: "a_service a = fst q" and sv: "svcs db (fst q) = Some sv"
    by (auto elim: db_attr_service)
  let ?db = "db\<lparr>services := remove1 (fst q) (services db)\<rparr>"
  have "notify_ok ?db" using assms(2) by (simp add: notify_ok_def)
  with service_destroy_total [of ?db "fst q"] sv obtain e where
    "gatt_db_service_destroy ?db (fst q) = Some (?db\<lparr>svcs := (svcs db)(fst q := None)\<rparr>, e)" by auto
  with assms(3) a have "gatt_db_remove_service (Some db) (Some q) =
      Some (True, Some (?db\<lparr>svcs := (svcs db)(fst q := None)\<rparr>), e)"
    by (simp add: gatt_db_remove_service_def Let_def)
  moreover have "db_wf (?db\<lparr>svcs := (svcs db)(fst q := None)\<rparr>)"
    using assms(1) by (auto simp: db_wf_def set_remove1_eq)
  ultimately show ?thesis using assms(2) by (auto simp: notify_ok_def)
qed

text \<open>The services a range clears.\<close>

definition cleared :: "'c gatt_db \<Rightarrow> u16 \<Rightarrow> u16 \<Rightarrow> svc_ptr list" where
  "cleared db start_handle end_handle =
     (if start_handle = 1 \<and> end_handle = 0xFFFF then services db
      else filter (\<lambda>s. match_range (the (svcs db s)) start_handle end_handle) (services db))"

definition cleared_db :: "'c gatt_db \<Rightarrow> u16 \<Rightarrow> u16 \<Rightarrow> 'c gatt_db" where
  "cleared_db db start_handle end_handle =
     db\<lparr>services := filter (\<lambda>s. s \<notin> set (cleared db start_handle end_handle)) (services db),
        svcs := (svcs db) |` (- set (cleared db start_handle end_handle))\<rparr>"

lemma cleared_db_wf: "db_wf db \<Longrightarrow> db_wf (cleared_db db st en)"
  unfolding cleared_db_def by (rule wf_drop_services)

lemma cleared_db_notify [simp]: "notify_ok (cleared_db db st en) = notify_ok db"
  by (simp add: cleared_db_def notify_ok_def)

lemma clear_range_result:
  assumes "db_wf db" "notify_ok db" "st \<le> en"
  shows "\<exists>e. gatt_db_clear_range (Some db) st en =
           Some (True, Some (if services (cleared_db db st en) = [] then (cleared_db db st en)\<lparr>next_handle := 0\<rparr>
                             else cleared_db db st en), e)"
proof -
  let ?gone = "cleared db st en"
  let ?db = "db\<lparr>services := filter (\<lambda>s. s \<notin> set ?gone) (services db)\<rparr>"
  have g: "map fst (if st = 1 \<and> en = 0xFFFF then map (\<lambda>s. (s, the (svcs db s))) (services db)
        else filter (\<lambda>(_, sv). match_range sv st en) (map (\<lambda>s. (s, the (svcs db s))) (services db))) = ?gone"
    by (auto simp: cleared_def filter_map o_def)
  have "notify_ok ?db" "distinct ?gone" "set ?gone \<subseteq> dom (svcs ?db)"
    using assms(1,2) by (auto simp: notify_ok_def cleared_def db_wf_def)
  from destroy_services_total [OF this] obtain e where
    e: "destroy_services ?db ?gone = Some (cleared_db db st en, e)" by (auto simp: cleared_db_def)
  have st: "(en < st) = False" using assms(3) by simp
  show ?thesis
    unfolding gatt_db_clear_range_def
    by (simp only: option.case st if_False load_services_db [OF assms(1)] bind.bind_lunit Let_def g e)
      (simp add: gatt_db_isempty_def)
qed

lemma clear_range_wf:
  assumes "db_wf db" "notify_ok db"
  shows "\<exists>r db' e. gatt_db_clear_range (Some db) st en = Some (r, Some db', e) \<and> db_wf db' \<and> notify_ok db'"
proof (cases "st \<le> en")
  case True
  from clear_range_result [OF assms True] obtain e where
    "gatt_db_clear_range (Some db) st en =
       Some (True, Some (if services (cleared_db db st en) = [] then (cleared_db db st en)\<lparr>next_handle := 0\<rparr>
                         else cleared_db db st en), e)" by blast
  with assms cleared_db_wf [OF assms(1)] show ?thesis by (simp add: ex_bool_eq)
next
  case False
  with assms show ?thesis by (simp add: gatt_db_clear_range_def not_le ex_bool_eq)
qed

lemma set_active_wf:
  assumes "db_wf db" "notify_ok db" "db_attr db q = Some a"
  shows "\<exists>db' e. gatt_db_service_set_active db (Some q) b = Some (True, db', e) \<and> db_wf db' \<and> notify_ok db'"
proof -
  obtain sv where a: "a_service a = fst q" and sv: "svcs db (fst q) = Some sv" "svc_ok (fst q) sv"
    using db_attr_service [OF assms(1,3)] by blast
  let ?db = "put_svc db (fst q) (sv\<lparr>s_active := b\<rparr>)"
  have ok: "notify_ok ?db" "db_wf ?db" using assms(2) put_svc_wf [OF assms(1) sv(1)] sv(2) by simp_all
  from notify_service_changed_total [OF ok(1)] obtain e where
    "notify_service_changed ?db (fst q) b = Some e" by blast
  with assms ok a sv(1) show ?thesis
    by (cases "s_active sv = b") (simp_all add: gatt_db_service_set_active_def Let_def)
qed

lemma set_claimed_wf:
  assumes "db_wf db" "db_attr db q = Some a"
  shows "\<exists>db'. gatt_db_service_set_claimed db (Some q) b = Some (True, db') \<and> db_wf db' \<and>
    (notify_ok db \<longrightarrow> notify_ok db')"
proof -
  obtain sv where a: "a_service a = fst q" and sv: "svcs db (fst q) = Some sv" "svc_ok (fst q) sv"
    using db_attr_service [OF assms] by blast
  have "db_wf (put_svc db (fst q) (sv\<lparr>s_claimed := b\<rparr>))"
    using put_svc_wf [OF assms(1) sv(1)] sv(2) by simp
  with assms(2) a sv(1) show ?thesis by (simp add: gatt_db_service_set_claimed_def)
qed

text \<open>Reads and writes of an existing attribute.\<close>

lemma read_wf:
  assumes "db_wf db" "db_attr db q = Some a"
  shows "\<exists>r db' e. gatt_db_attribute_read tid db (Some q) off opc att f ud = Some (r, db', e) \<and> db_wf db' \<and>
    (notify_ok db \<longrightarrow> notify_ok db')"
proof (cases f)
  case None
  with assms show ?thesis by (auto simp: gatt_db_attribute_read_def)
next
  case (Some g)
  have ok: "attr_ok q a" using db_attr_ok [OF assms] .
  show ?thesis
  proof (cases "a_read_func a")
    case None
    with Some assms ok show ?thesis
      by (cases "a_value a") (auto simp: gatt_db_attribute_read_def attr_ok_def word_neq_0_conv)
  next
    case (Some rf)
    let ?p = "\<lparr>p_attrib = q, p_id = a_read_id a + 1, p_timeout_id = tid, p_func = g, p_user_data = ud\<rparr>"
    have "attr_ok q (a\<lparr>a_read_id := a_read_id a + 1, a_pending_reads := a_pending_reads a @ [?p]\<rparr>)"
      using ok by (auto simp: attr_ok_def split: option.splits)
    from put_attr_wf [OF assms this] Some \<open>f = Some g\<close> assms(2) show ?thesis
      by (auto simp: gatt_db_attribute_read_def Let_def)
  qed
qed

lemma read_result_wf:
  assumes "db_wf db" "db_attr db q = Some a"
  shows "\<exists>r db' e. gatt_db_attribute_read_result db (Some q) i err val = Some (r, db', e) \<and> db_wf db' \<and>
    (notify_ok db \<longrightarrow> notify_ok db')"
proof -
  have "attr_ok q (a\<lparr>a_pending_reads := remove_first (\<lambda>p. find_pending p i) (a_pending_reads a)\<rparr>)"
    using db_attr_ok [OF assms] set_remove_first [of "\<lambda>p. find_pending p i" "a_pending_reads a"]
    by (auto simp: attr_ok_def split: option.splits)
  from put_attr_wf [OF assms this] assms show ?thesis
    by (cases "find (\<lambda>p. find_pending p i) (a_pending_reads a)")
      (auto simp: gatt_db_attribute_read_result_def)
qed

lemma write_result_wf:
  assumes "db_wf db" "db_attr db q = Some a"
  shows "\<exists>r db' e. gatt_db_attribute_write_result db (Some q) i err = Some (r, db', e) \<and> db_wf db' \<and>
    (notify_ok db \<longrightarrow> notify_ok db')"
proof -
  have "attr_ok q (a\<lparr>a_pending_writes := remove_first (\<lambda>p. find_pending p i) (a_pending_writes a)\<rparr>)"
    using db_attr_ok [OF assms] set_remove_first [of "\<lambda>p. find_pending p i" "a_pending_writes a"]
    by (auto simp: attr_ok_def split: option.splits)
  from put_attr_wf [OF assms this] assms show ?thesis
    by (cases "find (\<lambda>p. find_pending p i) (a_pending_writes a)")
      (auto simp: gatt_db_attribute_write_result_def)
qed

lemma timeout_wf:
  assumes "db_wf db" "db_attr db (p_attrib p) = Some a"
  shows "\<exists>db' e. read_timeout db p = Some (False, db', e) \<and> db_wf db' \<and> (notify_ok db \<longrightarrow> notify_ok db')"
    "\<exists>db' e. write_timeout db p = Some (False, db', e) \<and> db_wf db' \<and> (notify_ok db \<longrightarrow> notify_ok db')"
proof -
  have "attr_ok (p_attrib p) (a\<lparr>a_pending_reads := remove1 p (a_pending_reads a)\<rparr>)"
    using db_attr_ok [OF assms] set_remove1_subset [of p "a_pending_reads a"]
    by (auto simp: attr_ok_def split: option.splits)
  from put_attr_wf [OF assms this] assms
  show "\<exists>db' e. read_timeout db p = Some (False, db', e) \<and> db_wf db' \<and> (notify_ok db \<longrightarrow> notify_ok db')"
    by (auto simp: read_timeout_def)
  have "attr_ok (p_attrib p) (a\<lparr>a_pending_writes := remove1 p (a_pending_writes a)\<rparr>)"
    using db_attr_ok [OF assms] set_remove1_subset [of p "a_pending_writes a"]
    by (auto simp: attr_ok_def split: option.splits)
  from put_attr_wf [OF assms this] assms
  show "\<exists>db' e. write_timeout db p = Some (False, db', e) \<and> db_wf db' \<and> (notify_ok db \<longrightarrow> notify_ok db')"
    by (auto simp: write_timeout_def)
qed

lemma store_value_ok:
  assumes ok: "attr_ok q a" and val: "val \<noteq> []"
  shows "\<exists>a'. store_value junk a off val = Some a' \<and> attr_ok q a' \<and> a_handle a' = a_handle a"
proof (cases "a_value a = None \<or> off \<ge> unat (a_value_len a) \<or> length val > unat (a_value_len a) - off")
  case True
  define buf where "buf = realloc_bytes junk (case a_value a of Some v \<Rightarrow> v | None \<Rightarrow> []) (length val + off)"
  define buf' where "buf' = (if a_value_len a = 0 then replicate off 0 @ drop off buf else buf)"
  have len: "length buf' = length val + off" by (simp add: buf_def buf'_def)
  then obtain v where v: "buf_write buf' off val = Some v" by (simp add: buf_write_def)
  with True have "store_value junk a off val =
      Some (a\<lparr>a_value := Some v, a_value_len := of_nat (length val + off)\<rparr>)"
    by (simp add: store_value_def Let_def buf_def [symmetric] buf'_def [symmetric])
  moreover have "attr_ok q (a\<lparr>a_value := Some v, a_value_len := of_nat (length val + off)\<rparr>)"
    using ok buf_write_length [OF v] len unat_of_nat_le [of "length val + off"]
    by (simp add: attr_ok_def)
  ultimately show ?thesis by simp
next
  case False
  then obtain b where b: "a_value a = Some b" by auto
  with ok False have "off + length val \<le> length b" by (auto simp: attr_ok_def)
  then obtain v where v: "buf_write b off val = Some v" by (simp add: buf_write_def)
  have "attr_ok q (a\<lparr>a_value := Some v\<rparr>)"
    using ok b buf_write_length [OF v] by (simp add: attr_ok_def)
  with False b v show ?thesis by (simp add: store_value_def)
qed

lemma write_wf:
  assumes "db_wf db" "db_attr db q = Some a"
  shows "\<exists>r db' e. gatt_db_attribute_write mem junk tid db (Some q) off val opc att f ud = Some (r, db', e) \<and>
    db_wf db' \<and> (notify_ok db \<longrightarrow> notify_ok db')"
proof (cases f)
  case None
  with assms show ?thesis by (auto simp: gatt_db_attribute_write_def)
next
  case (Some g)
  have ok: "attr_ok q a" using db_attr_ok [OF assms] .
  show ?thesis
  proof (cases "a_write_func a")
    case None
    show ?thesis
    proof (cases "val = []")
      case True
      with None Some assms show ?thesis by (simp add: gatt_db_attribute_write_def ex_bool_eq)
    next
      case False
      from store_value_ok [OF ok False] obtain a' where
        a': "store_value junk a (unat off) val = Some a'" "attr_ok q a'" "a_handle a' = a_handle a" by blast
      from put_attr_wf [OF assms a'(2,3)] None Some False assms a'(1) show ?thesis
        by (auto simp: gatt_db_attribute_write_def ex_bool_eq)
    qed
  next
    case (Some wfn)
    let ?p = "\<lparr>p_attrib = q, p_id = a_write_id a + 1, p_timeout_id = tid, p_func = g, p_user_data = ud\<rparr>"
    have "attr_ok q (a\<lparr>a_write_id := a_write_id a + 1, a_pending_writes := a_pending_writes a @ [?p]\<rparr>)"
      using ok by (auto simp: attr_ok_def split: option.splits)
    from put_attr_wf [OF assms this] Some \<open>f = Some g\<close> assms(2) show ?thesis
      by (auto simp: gatt_db_attribute_write_def Let_def)
  qed
qed

lemma reset_wf:
  assumes "db_wf db" "db_attr db q = Some a"
  shows "\<exists>db'. gatt_db_attribute_reset db (Some q) = Some (True, db') \<and> db_wf db' \<and>
    (notify_ok db \<longrightarrow> notify_ok db')"
proof -
  have "attr_ok q (a\<lparr>a_value := None, a_value_len := 0\<rparr>)"
    using db_attr_ok [OF assms] by (simp add: attr_ok_def)
  from put_attr_wf [OF assms this] assms show ?thesis
    by (auto simp: gatt_db_attribute_reset_def)
qed

end
