(* ===== verification/Gatt_Db_Machine.thy ===== *)
theory Gatt_Db_Machine
  imports Gatt_Db_Wf
begin

text \<open>
  The attribute database as a state machine: one step per call of its interface, the states
  reachable from a new database, and that none of them lets a call fault.
\<close>

section \<open>The whole interface as a state machine\<close>

text \<open>
  One call of the interface with its arguments; a leading \<open>bool\<close> says whether memory is there.
\<close>

datatype 'c dbop =
    Insert_service bool u16 bt_uuid_t bool u16
  | Add_service bool bt_uuid_t bool u16
  | Remove_service "attr_ptr option"
  | Clear
  | Clear_range u16 u16
  | Register "'c option" "'c option" "'c option" "'c option"
  | Unregister u32
  | Insert_characteristic bool u16 bt_uuid_t u32 u8 "'c option" "'c option" "'c option"
  | Service_insert_characteristic bool "attr_ptr option" u16 bt_uuid_t u32 u8 "'c option" "'c option" "'c option"
  | Add_characteristic bool "attr_ptr option" bt_uuid_t u32 u8 "'c option" "'c option" "'c option"
  | Insert_descriptor bool u16 bt_uuid_t u32 "'c option" "'c option" "'c option"
  | Service_insert_descriptor bool "attr_ptr option" u16 bt_uuid_t u32 "'c option" "'c option" "'c option"
  | Add_descriptor bool "attr_ptr option" bt_uuid_t u32 "'c option" "'c option" "'c option"
  | Insert_included bool u16 attr_ptr
  | Service_insert_included bool "attr_ptr option" u16 "attr_ptr option"
  | Add_included bool "attr_ptr option" "attr_ptr option"
  | Set_active "attr_ptr option" bool
  | Set_claimed "attr_ptr option" bool
  | Read u32 "attr_ptr option" u16 u8 "nat option" "'c option" "'c option"
  | Read_result "attr_ptr option" u32 int "bytes option"
  | Read_timeout "'c pending"
  | Write bool "nat \<Rightarrow> u8" u32 "attr_ptr option" u16 bytes u8 "nat option" "'c option" "'c option"
  | Write_result "attr_ptr option" u32 int
  | Write_timeout "'c pending"
  | Reset "attr_ptr option"

primrec db_step :: "'c gatt_db \<Rightarrow> 'c dbop \<Rightarrow> ('c gatt_db \<times> 'c db_event list) option" where
  "db_step db (Insert_service mem h u pr n) = do {
     (_, d) \<leftarrow> gatt_db_insert_service mem (Some db) h u pr n; d \<leftarrow> d; Some (d, []) }"
| "db_step db (Add_service mem u pr n) = do {
     (_, d) \<leftarrow> gatt_db_add_service mem db u pr n; d \<leftarrow> d; Some (d, []) }"
| "db_step db (Remove_service q) = do {
     (_, d, e) \<leftarrow> gatt_db_remove_service (Some db) q; d \<leftarrow> d; Some (d, e) }"
| "db_step db Clear = do { (_, d, e) \<leftarrow> gatt_db_clear (Some db); d \<leftarrow> d; Some (d, e) }"
| "db_step db (Clear_range st en) = do {
     (_, d, e) \<leftarrow> gatt_db_clear_range (Some db) st en; d \<leftarrow> d; Some (d, e) }"
| "db_step db (Register added removed ud destroy) = do {
     d \<leftarrow> snd (gatt_db_register (Some db) added removed ud destroy); Some (d, []) }"
| "db_step db (Unregister i) = do {
     let (_, d, e) = gatt_db_unregister (Some db) i; d \<leftarrow> d; Some (d, e) }"
| "db_step db (Insert_characteristic mem h u p pr rf w ud) = do {
     (_, d) \<leftarrow> gatt_db_insert_characteristic mem db h u p pr rf w ud; Some (d, []) }"
| "db_step db (Service_insert_characteristic mem q h u p pr rf w ud) = do {
     (_, d) \<leftarrow> gatt_db_service_insert_characteristic mem db q h u p pr rf w ud; Some (d, []) }"
| "db_step db (Add_characteristic mem q u p pr rf w ud) = do {
     (_, d) \<leftarrow> gatt_db_service_add_characteristic mem db q u p pr rf w ud; Some (d, []) }"
| "db_step db (Insert_descriptor mem h u p rf w ud) = do {
     (_, d) \<leftarrow> gatt_db_insert_descriptor mem db h u p rf w ud; Some (d, []) }"
| "db_step db (Service_insert_descriptor mem q h u p rf w ud) = do {
     (_, d) \<leftarrow> gatt_db_service_insert_descriptor mem db q h u p rf w ud; Some (d, []) }"
| "db_step db (Add_descriptor mem q u p rf w ud) = do {
     (_, d) \<leftarrow> gatt_db_service_add_descriptor mem db q u p rf w ud; Some (d, []) }"
| "db_step db (Insert_included mem h i) = do {
     (_, d) \<leftarrow> gatt_db_insert_included mem db h i; Some (d, []) }"
| "db_step db (Service_insert_included mem q h i) = do {
     (_, d) \<leftarrow> gatt_db_service_insert_included mem db q h i; Some (d, []) }"
| "db_step db (Add_included mem q i) = do {
     (_, d) \<leftarrow> gatt_db_service_add_included mem db q i; Some (d, []) }"
| "db_step db (Set_active q b) = do { (_, d, e) \<leftarrow> gatt_db_service_set_active db q b; Some (d, e) }"
| "db_step db (Set_claimed q b) = do { (_, d) \<leftarrow> gatt_db_service_set_claimed db q b; Some (d, []) }"
| "db_step db (Read tid q off opc att f ud) = do {
     (_, d, e) \<leftarrow> gatt_db_attribute_read tid db q off opc att f ud; Some (d, e) }"
| "db_step db (Read_result q i err val) = do {
     (_, d, e) \<leftarrow> gatt_db_attribute_read_result db q i err val; Some (d, e) }"
| "db_step db (Read_timeout p) = do { (_, d, e) \<leftarrow> read_timeout db p; Some (d, e) }"
| "db_step db (Write mem junk tid q off val opc att f ud) = do {
     (_, d, e) \<leftarrow> gatt_db_attribute_write mem junk tid db q off val opc att f ud; Some (d, e) }"
| "db_step db (Write_result q i err) = do {
     (_, d, e) \<leftarrow> gatt_db_attribute_write_result db q i err; Some (d, e) }"
| "db_step db (Write_timeout p) = do { (_, d, e) \<leftarrow> write_timeout db p; Some (d, e) }"
| "db_step db (Reset q) = do { (_, d) \<leftarrow> gatt_db_attribute_reset db q; Some (d, []) }"

text \<open>
  What a caller owes: a pointer is \<^verbatim>\<open>NULL\<close> or points to an attribute that exists, UUIDs have a
  type, a timer runs for a pending operation of an attribute that exists, and who registers for
  notifications gives both callbacks.
\<close>

definition ptr_ok :: "'c gatt_db \<Rightarrow> attr_ptr option \<Rightarrow> bool" where
  "ptr_ok db q = (case q of None \<Rightarrow> True | Some p \<Rightarrow> \<not> Option.is_none (db_attr db p))"

primrec op_ok :: "'c gatt_db \<Rightarrow> 'c dbop \<Rightarrow> bool" where
  "op_ok db (Insert_service mem h u pr n) = uuid_ok u"
| "op_ok db (Add_service mem u pr n) = uuid_ok u"
| "op_ok db (Remove_service q) = ptr_ok db q"
| "op_ok db Clear = True"
| "op_ok db (Clear_range st en) = True"
| "op_ok db (Register added removed ud destroy) = (added \<noteq> None \<and> removed \<noteq> None)"
| "op_ok db (Unregister i) = True"
| "op_ok db (Insert_characteristic mem h u p pr rf w ud) = uuid_ok u"
| "op_ok db (Service_insert_characteristic mem q h u p pr rf w ud) = (ptr_ok db q \<and> uuid_ok u)"
| "op_ok db (Add_characteristic mem q u p pr rf w ud) = (ptr_ok db q \<and> uuid_ok u)"
| "op_ok db (Insert_descriptor mem h u p rf w ud) = uuid_ok u"
| "op_ok db (Service_insert_descriptor mem q h u p rf w ud) = (ptr_ok db q \<and> uuid_ok u)"
| "op_ok db (Add_descriptor mem q u p rf w ud) = (ptr_ok db q \<and> uuid_ok u)"
| "op_ok db (Insert_included mem h i) = ptr_ok db (Some i)"
| "op_ok db (Service_insert_included mem q h i) = (ptr_ok db q \<and> ptr_ok db i)"
| "op_ok db (Add_included mem q i) = (ptr_ok db q \<and> ptr_ok db i)"
| "op_ok db (Set_active q b) = ptr_ok db q"
| "op_ok db (Set_claimed q b) = ptr_ok db q"
| "op_ok db (Read tid q off opc att f ud) = ptr_ok db q"
| "op_ok db (Read_result q i err val) = ptr_ok db q"
| "op_ok db (Read_timeout p) = ptr_ok db (Some (p_attrib p))"
| "op_ok db (Write mem junk tid q off val opc att f ud) = ptr_ok db q"
| "op_ok db (Write_result q i err) = ptr_ok db q"
| "op_ok db (Write_timeout p) = ptr_ok db (Some (p_attrib p))"
| "op_ok db (Reset q) = ptr_ok db q"

inductive db_reach :: "'c gatt_db \<Rightarrow> bool" where
  new: "gatt_db_new = Some db \<Longrightarrow> db_reach db"
| step: "db_reach db \<Longrightarrow> op_ok db oper \<Longrightarrow> db_step db oper = Some (db', es) \<Longrightarrow> db_reach db'"

abbreviation safe_step :: "'c gatt_db \<Rightarrow> 'c dbop \<Rightarrow> bool" where
  "safe_step db oper \<equiv> (\<exists>db' es. db_step db oper = Some (db', es) \<and> db_wf db' \<and> notify_ok db')"

lemma new_db_wf: "gatt_db_new = Some db \<Longrightarrow> db_wf db \<and> notify_ok db"
  by (auto simp: gatt_db_new_def gatt_db_ref_def db_wf_def notify_ok_def)

lemma get_service_attr:
  assumes "db_wf db" "gatt_db_get_service (Some db) h = Some (Some p)"
  obtains a sv where "db_attr db p = Some a" "a_service a = fst p" "svcs db (fst p) = Some sv" "snd p = 0"
    "svc_ok (fst p) sv" "find_service_for_handle sv h"
proof -
  from assms obtain s where p: "p = (s, 0)" "s \<in> set (services db)" "find_service_for_handle (the (svcs db s)) h"
    by (auto simp: gatt_db_get_service_def load_services_db [OF assms(1)] find_Some_iff split: if_splits)
  then obtain sv where sv: "svcs db s = Some sv" using db_wf_dom [OF assms(1)] by auto
  from svc_ok_attr0 [OF db_wf_svc [OF assms(1) sv]] obtain a where a: "svc_attr sv 0 = Some a" by blast
  then have "db_attr db p = Some a" by (simp add: db_attr_def p sv)
  moreover from db_attr_ok [OF assms(1) this] have "a_service a = fst p" by (simp add: attr_ok_def)
  ultimately show ?thesis using that p sv db_wf_svc [OF assms(1) sv] by simp
qed

lemma get_service_total: "db_wf db \<Longrightarrow> \<exists>p. gatt_db_get_service (Some db) h = Some p"
  by (simp add: gatt_db_get_service_def load_services_db)

lemma ptr_okD: "ptr_ok db (Some q) \<Longrightarrow> \<exists>a. db_attr db q = Some a"
  by (simp add: ptr_ok_def Option.is_none_def)

lemma step_services:
  assumes wf: "db_wf db" "notify_ok db"
  shows "uuid_ok u \<Longrightarrow> safe_step db (Insert_service mem h u pr n)"
    "uuid_ok u \<Longrightarrow> safe_step db (Add_service mem u pr n)"
    "ptr_ok db q \<Longrightarrow> safe_step db (Remove_service q)"
    "safe_step db Clear" "safe_step db (Clear_range st en)"
    "ptr_ok db q \<Longrightarrow> safe_step db (Set_active q b)"
    "ptr_ok db q \<Longrightarrow> safe_step db (Set_claimed q b)"
proof -
  show "safe_step db (Insert_service mem h u pr n)" if "uuid_ok u"
    using insert_service_wf [OF wf(1) that, of mem h pr n] wf(2) by auto
  show "safe_step db (Add_service mem u pr n)" if "uuid_ok u"
    using insert_service_wf [OF wf(1) that, of mem "next_handle db" pr n] wf(2) by (auto simp: gatt_db_add_service_def)
  show "safe_step db (Remove_service q)" if "ptr_ok db q"
  proof (cases q)
    case None
    with wf show ?thesis by (simp add: gatt_db_remove_service_def)
  next
    case (Some p)
    with that ptr_okD obtain a where "db_attr db p = Some a" by blast
    from remove_service_wf [OF wf this] Some show ?thesis by auto
  qed
  show "safe_step db Clear" "safe_step db (Clear_range st en)"
    using clear_range_wf [OF wf, of 1 "0xFFFF"] clear_range_wf [OF wf, of st en]
    by (auto simp: gatt_db_clear_def)
  show "safe_step db (Set_active q b)" if "ptr_ok db q"
  proof (cases q)
    case None
    with wf show ?thesis by (simp add: gatt_db_service_set_active_def)
  next
    case (Some p)
    with that ptr_okD obtain a where "db_attr db p = Some a" by blast
    from set_active_wf [OF wf this, of b] Some show ?thesis by auto
  qed
  show "safe_step db (Set_claimed q b)" if "ptr_ok db q"
  proof (cases q)
    case None
    with wf show ?thesis by (simp add: gatt_db_service_set_claimed_def)
  next
    case (Some p)
    with that ptr_okD obtain a where "db_attr db p = Some a" by blast
    from set_claimed_wf [OF wf(1) this, of b] Some wf(2) show ?thesis by auto
  qed
qed

lemma step_notify:
  assumes wf: "db_wf db" "notify_ok db"
  shows "added \<noteq> None \<Longrightarrow> removed \<noteq> None \<Longrightarrow> safe_step db (Register added removed ud destroy)"
    "safe_step db (Unregister i)"
  using wf set_remove_first [of "\<lambda>n. match_notify_id n i" "notify_list db"]
  by (auto simp: gatt_db_register_def gatt_db_unregister_def Let_def notify_ok_def db_wf_def
      split: option.splits)

text \<open>
  An insertion reaches its service by a handle of the service or by a pointer into it.
\<close>

definition inserts :: "'c gatt_db \<Rightarrow> (attr_ptr option \<times> 'c gatt_db) option \<Rightarrow> bool" where
  "inserts db x \<longleftrightarrow> (\<exists>r db'. x = Some (r, db') \<and> db_wf db' \<and> (notify_ok db \<longrightarrow> notify_ok db'))"

lemma insertsI: "db_wf db \<Longrightarrow> inserts db (Some (r, db))"
  by (simp add: inserts_def)

lemma inserts_via_handle:
  assumes wf: "db_wf db" and f: "\<And>x a. db_attr db x = Some a \<Longrightarrow> inserts db (f a)"
  shows "inserts db (do { attrib \<leftarrow> gatt_db_get_service (Some db) h;
           case attrib of None \<Rightarrow> Some (None, db) | Some p \<Rightarrow> do { a \<leftarrow> db_attr db p; f a } })"
proof -
  from get_service_total [OF wf] obtain r where r: "gatt_db_get_service (Some db) h = Some r" by blast
  show ?thesis
  proof (cases r)
    case None
    with r insertsI [OF wf] show ?thesis by simp
  next
    case (Some x)
    with r get_service_attr [OF wf] obtain a where "db_attr db x = Some a" by blast
    with f [OF this] r Some show ?thesis by simp
  qed
qed

lemma inserts_via_ptr:
  assumes "ptr_ok db (Some x)" "\<And>a. db_attr db x = Some a \<Longrightarrow> inserts db (f a)"
  shows "inserts db (do { a \<leftarrow> db_attr db x; f a })"
  using assms ptr_okD [OF assms(1)] by auto

lemma inserts_service:
  assumes "db_wf db" "db_attr db x = Some a"
  shows "uuid_ok u \<Longrightarrow> inserts db (service_insert_characteristic mem db (a_service a) h u p pr rf w ud)"
    "inserts db (service_insert_descriptor mem db (a_service a) h u p rf w ud)"
    "ptr_ok db (Some i) \<Longrightarrow> inserts db (service_insert_included mem db (a_service a) h i)"
proof -
  obtain sv where a: "a_service a = fst x" and sv: "svcs db (fst x) = Some sv"
    using db_attr_service [OF assms] by blast
  show "inserts db (service_insert_characteristic mem db (a_service a) h u p pr rf w ud)" if "uuid_ok u"
    using insert_characteristic_wf [OF assms(1) sv that] a by (simp add: inserts_def)
  show "inserts db (service_insert_descriptor mem db (a_service a) h u p rf w ud)"
    using insert_descriptor_wf [OF assms(1) sv] a by (simp add: inserts_def)
  show "inserts db (service_insert_included mem db (a_service a) h i)" if "ptr_ok db (Some i)"
    using insert_included_wf [OF assms(1) sv] ptr_okD [OF that] unfolding inserts_def a by blast
qed

lemma inserts_characteristic:
  assumes wf: "db_wf db" and u: "uuid_ok u"
  shows "inserts db (gatt_db_insert_characteristic mem db h u p pr rf w ud)"
    "ptr_ok db q \<Longrightarrow> inserts db (gatt_db_service_insert_characteristic mem db q h u p pr rf w ud)"
    "ptr_ok db q \<Longrightarrow> inserts db (gatt_db_service_add_characteristic mem db q u p pr rf w ud)"
  unfolding gatt_db_insert_characteristic_def gatt_db_service_insert_characteristic_def
    gatt_db_service_add_characteristic_def
  by (auto intro!: inserts_via_handle inserts_via_ptr inserts_service insertsI wf u split: option.split)

lemma inserts_descriptor:
  assumes wf: "db_wf db"
  shows "inserts db (gatt_db_insert_descriptor mem db h u p rf w ud)"
    "ptr_ok db q \<Longrightarrow> inserts db (gatt_db_service_insert_descriptor mem db q h u p rf w ud)"
    "ptr_ok db q \<Longrightarrow> inserts db (gatt_db_service_add_descriptor mem db q u p rf w ud)"
  unfolding gatt_db_insert_descriptor_def gatt_db_service_insert_descriptor_def
    gatt_db_service_add_descriptor_def
  by (auto intro!: inserts_via_handle inserts_via_ptr inserts_service insertsI wf split: option.split)

lemma inserts_included:
  assumes wf: "db_wf db"
  shows "ptr_ok db (Some j) \<Longrightarrow> inserts db (gatt_db_insert_included mem db h j)"
    "ptr_ok db q \<Longrightarrow> ptr_ok db i \<Longrightarrow> inserts db (gatt_db_service_insert_included mem db q h i)"
    "ptr_ok db q \<Longrightarrow> ptr_ok db i \<Longrightarrow> inserts db (gatt_db_service_add_included mem db q i)"
  unfolding gatt_db_insert_included_def gatt_db_service_insert_included_def
    gatt_db_service_add_included_def
  by (auto intro!: inserts_via_handle inserts_via_ptr inserts_service insertsI wf split: option.split)

lemma inserts_step:
  "inserts db x \<Longrightarrow> notify_ok db \<Longrightarrow>
   \<exists>db' es. (do { (_, d) \<leftarrow> x; Some (d, []) }) = Some (db', es) \<and> db_wf db' \<and> notify_ok db'"
  by (auto simp: inserts_def)

lemma step_reads:
  assumes wf: "db_wf db" "notify_ok db"
  shows "ptr_ok db q \<Longrightarrow> safe_step db (Read tid q off opc att f ud)"
    "ptr_ok db q \<Longrightarrow> safe_step db (Read_result q i err rv)"
    "ptr_ok db (Some (p_attrib p)) \<Longrightarrow> safe_step db (Read_timeout p)"
proof -
  show "safe_step db (Read_timeout p)" if "ptr_ok db (Some (p_attrib p))"
    using timeout_wf(1) [OF wf(1), of p] ptr_okD [OF that] wf(2) by auto
  show "safe_step db (Read tid q off opc att f ud)" if "ptr_ok db q"
  proof (cases q)
    case (Some x)
    with that ptr_okD obtain a where "db_attr db x = Some a" by blast
    from read_wf [OF wf(1) this, of tid off opc att f ud] Some wf(2) show ?thesis by auto
  qed (use wf in \<open>simp add: gatt_db_attribute_read_def\<close>)
  show "safe_step db (Read_result q i err rv)" if "ptr_ok db q"
  proof (cases q)
    case (Some x)
    with that ptr_okD obtain a where "db_attr db x = Some a" by blast
    from read_result_wf [OF wf(1) this, of i err rv] Some wf(2) show ?thesis by auto
  qed (use wf in \<open>simp add: gatt_db_attribute_read_result_def\<close>)
qed

lemma step_writes:
  assumes wf: "db_wf db" "notify_ok db"
  shows "ptr_ok db q \<Longrightarrow> safe_step db (Write mem junk tid q off val opc att f ud)"
    "ptr_ok db q \<Longrightarrow> safe_step db (Write_result q i err)"
    "ptr_ok db (Some (p_attrib p)) \<Longrightarrow> safe_step db (Write_timeout p)"
    "ptr_ok db q \<Longrightarrow> safe_step db (Reset q)"
proof -
  show "safe_step db (Write_timeout p)" if "ptr_ok db (Some (p_attrib p))"
    using timeout_wf(2) [OF wf(1), of p] ptr_okD [OF that] wf(2) by auto
  show "safe_step db (Write mem junk tid q off val opc att f ud)" if "ptr_ok db q"
  proof (cases q)
    case (Some x)
    with that ptr_okD obtain a where "db_attr db x = Some a" by blast
    from write_wf [OF wf(1) this, of mem junk tid off val opc att f ud] Some wf(2) show ?thesis by auto
  qed (use wf in \<open>simp add: gatt_db_attribute_write_def\<close>)
  show "safe_step db (Write_result q i err)" if "ptr_ok db q"
  proof (cases q)
    case (Some x)
    with that ptr_okD obtain a where "db_attr db x = Some a" by blast
    from write_result_wf [OF wf(1) this, of i err] Some wf(2) show ?thesis by auto
  qed (use wf in \<open>simp add: gatt_db_attribute_write_result_def\<close>)
  show "safe_step db (Reset q)" if "ptr_ok db q"
  proof (cases q)
    case (Some x)
    with that ptr_okD obtain a where "db_attr db x = Some a" by blast
    from reset_wf [OF wf(1) this] Some wf(2) show ?thesis by auto
  qed (use wf in \<open>simp add: gatt_db_attribute_reset_def\<close>)
qed

lemma step_safe:
  assumes "db_wf db" "notify_ok db" "op_ok db oper"
  shows "safe_step db oper"
  using assms(3)
  by (cases oper)
    (simp_all only: op_ok.simps step_services [OF assms(1,2)] step_notify [OF assms(1,2)]
      step_reads [OF assms(1,2)] step_writes [OF assms(1,2)] db_step.simps(8-16) not_False_eq_True
      inserts_characteristic [OF assms(1)] inserts_descriptor [OF assms(1)] inserts_included [OF assms(1)]
      inserts_step [OF _ assms(2)])

lemma reach_wf: "db_reach db \<Longrightarrow> db_wf db \<and> notify_ok db"
proof (induction rule: db_reach.induct)
  case (new db)
  then show ?case by (rule new_db_wf)
next
  case (step db oper db' es)
  with step_safe [of db oper] show ?case by auto
qed

text \<open>
  C7: in every state the database can get into by calls that keep the caller's side of the
  contract, the invariant holds, and no such call dereferences a freed or \<^verbatim>\<open>NULL\<close> pointer, calls a
  \<^verbatim>\<open>NULL\<close> function or writes past a buffer.
\<close>

theorem gatt_db_safe:
  assumes "db_reach db"
  shows "db_wf db \<and> (op_ok db oper \<longrightarrow> db_step db oper \<noteq> None)"
  using reach_wf [OF assms] step_safe [of db oper] by auto

text \<open>A run of the machine: a service with one characteristic is set up and activated.\<close>

lemma replicate_numeral_Cons: "replicate (numeral k) x = x # replicate (pred_numeral k) x"
  by (simp add: numeral_eq_Suc)

primrec db_run :: "'c gatt_db \<Rightarrow> 'c dbop list \<Rightarrow> 'c gatt_db option" where
  "db_run db [] = Some db"
| "db_run db (oper # ops) =
     (if op_ok db oper then do { (db, _) \<leftarrow> db_step db oper; db_run db ops } else None)"

lemma db_run_reach: "db_reach db \<Longrightarrow> db_run db ops = Some db' \<Longrightarrow> db_reach db'"
  by (induction ops arbitrary: db) (auto simp: bind_eq_Some_conv split: if_splits intro: db_reach.step)

definition example_ops :: "nat dbop list" where
  "example_ops =
     [Add_service True (BT_UUID16 0x1800) True 4,
      Add_characteristic True (Some (1, 0)) (BT_UUID16 0x2A00) 3 2 None None None,
      Set_active (Some (1, 0)) True]"

lemmas gatt_db_exec =
  gatt_db_new_def gatt_db_ref_def gatt_db_add_service_def gatt_db_insert_service_def
  gatt_db_service_create_def new_attribute_def set_attribute_data_def uuid_to_le_def put_le16_def
  gatt_db_service_add_characteristic_def service_insert_characteristic_def
  gatt_db_service_set_active_def notify_service_changed_def get_attribute_index_def
  get_handle_at_index_def ptr_ok_def db_attr_def svc_attr_def put_attr_def put_svc_def
  Let_def upt_rec replicate_numeral_Cons

definition example_attr :: "u16 \<Rightarrow> bt_uuid_t \<Rightarrow> u32 \<Rightarrow> bytes \<Rightarrow> nat gatt_db_attribute" where
  "example_attr h u p v =
     \<lparr>a_service = 1, a_handle = h, a_uuid = u, a_permissions = p, a_value_len = of_nat (length v),
      a_value = (if v = [] then None else Some v), a_read_func = None, a_write_func = None,
      a_user_data = None, a_read_id = 0, a_pending_reads = [], a_write_id = 0, a_pending_writes = []\<rparr>"

definition example_db :: "nat gatt_db" where
  "example_db =
     \<lparr>ref_count = 1, next_handle = 5, services = [1], notify_list = [], next_notify_id = 0,
      svcs = [1 \<mapsto> \<lparr>s_active = True, s_claimed = False, s_num_handles = 4,
                      s_attributes = [Some (example_attr 1 primary_service_uuid 1 [0x00, 0x18]),
                                      Some (example_attr 2 characteristic_uuid 1 [2, 3, 0, 0x00, 0x2A]),
                                      Some (example_attr 3 (BT_UUID16 0x2A00) 3 []), None]\<rparr>],
      next_svc = 2\<rparr>"

lemma example_run: "db_run (the gatt_db_new) example_ops = Some example_db"
  by (simp add: gatt_db_exec example_ops_def example_db_def example_attr_def BT_ATT_PERM_READ_def)
    (simp add: fun_eq_iff)

lemma example_reach: "db_reach example_db"
proof -
  have "gatt_db_new = Some (the gatt_db_new)" by (simp add: gatt_db_new_def gatt_db_ref_def)
  then show ?thesis using db_run_reach [OF db_reach.new] example_run by blast
qed

theorem gatt_db_safe_witness:
  "db_wf example_db \<and> db_step example_db (Remove_service (Some (1, 2))) \<noteq> None"
proof -
  have "op_ok example_db (Remove_service (Some (1, 2)))"
    by (simp add: example_db_def gatt_db_exec)
  with gatt_db_safe [OF example_reach, of "Remove_service (Some (1, 2))"] show ?thesis by simp
qed

end
