(* ===== verification/Gatt_Db_Lookup.thy ===== *)
theory Gatt_Db_Lookup
  imports Gatt_Db_Machine
begin

text \<open>
  Handles, lookups and searches of the attribute database.  A database that only grows at its end
  (services added at the next handle, attributes added at the next free index) keeps its services
  sorted by handle with disjoint ranges, and the attribute at index \<open>i\<close> of a service has the
  \<open>i\<close>-th handle of its range; on such a database a lookup finds the attribute of a handle, and
  each search returns what its reference definition over the list of all attributes returns.
\<close>

section \<open>Sorted services and dense attributes\<close>

definition svc_end :: "'c gatt_db_service \<Rightarrow> nat" where
  "svc_end sv = unat (svc_start sv) + unat (s_num_handles sv) - 1"

definition db_sorted :: "'c gatt_db \<Rightarrow> bool" where
  "db_sorted db \<longleftrightarrow>
     sorted_wrt (\<lambda>s t. svc_end (the (svcs db s)) < unat (svc_start (the (svcs db t)))) (services db)"

definition db_dense :: "'c gatt_db \<Rightarrow> bool" where
  "db_dense db \<longleftrightarrow>
     (\<forall>s sv i a. svcs db s = Some sv \<longrightarrow> svc_attr sv i = Some a \<longrightarrow>
        unat (a_handle a) = unat (svc_start sv) + i)"

definition db_next :: "'c gatt_db \<Rightarrow> bool" where
  "db_next db \<longleftrightarrow>
     next_handle db = 0 \<or> (\<forall>s sv. svcs db s = Some sv \<longrightarrow> svc_end sv < unat (next_handle db))"

lemma unat_range_end:
  assumes "0 < unat (n :: u16)" "unat h + unat n \<le> 65536"
  shows "unat (h + n - 1) = unat h + unat n - 1"
proof -
  have "h + n - 1 = of_nat (unat h + unat n - 1)"
    using assms(1) by (simp add: of_nat_diff)
  then have "unat (h + n - 1) = unat (of_nat (unat h + unat n - 1) :: u16)" by (rule arg_cong)
  also have "\<dots> = unat h + unat n - 1" using assms by (intro unat_of_nat_less) simp
  finally show ?thesis .
qed

lemma svc_get_handles_nat:
  assumes "svc_ok s sv"
  shows "unat (fst (gatt_db_service_get_handles sv)) = unat (svc_start sv)"
    "unat (snd (gatt_db_service_get_handles sv)) = svc_end sv"
  using assms unat_range_end [of "s_num_handles sv" "svc_start sv"]
  by (simp_all add: gatt_db_service_get_handles_def svc_end_def svc_ok_def)

lemma svc_start_le_end: "svc_ok s sv \<Longrightarrow> unat (svc_start sv) \<le> svc_end sv"
  by (auto simp: svc_ok_def svc_end_def)

text \<open>Where the search for a place stops in a sorted queue.\<close>

lemma find_insert_loc_split:
  assumes "find_insert_loc ss h e af = Inr after"
    and "\<forall>(s, sv) \<in> set ss. svc_ok s sv \<and> \<not> (unat h < unat (svc_start sv) \<and> svc_end sv < unat e)"
    and "sorted_wrt (\<lambda>x y. svc_end (snd x) < unat (svc_start (snd y))) ss" "h \<le> e"
  shows "\<exists>pre post. ss = pre @ post \<and> (\<forall>(s, sv) \<in> set pre. svc_end sv < unat h) \<and>
    (\<forall>(s, sv) \<in> set post. unat e < unat (svc_start sv)) \<and>
    after = (if pre = [] then af else Some (fst (last pre)))"
  using assms
proof (induction ss h e af rule: find_insert_loc.induct)
  case (1 h e af)
  then show ?case by simp
next
  case (2 s sv ss h e af)
  have ok: "svc_ok s sv" and enc: "\<not> (unat h < unat (svc_start sv) \<and> svc_end sv < unat e)"
    using 2(3) by auto
  note nat = svc_get_handles_nat [OF ok] and le = svc_start_le_end [OF ok]
  obtain cs ce where h: "gatt_db_service_get_handles sv = (cs, ce)" by fastforce
  have c: "unat cs = unat (svc_start sv)" "unat ce = svc_end sv" using nat h by simp_all
  have out: "\<not> (cs \<le> h \<and> h \<le> ce)" "\<not> (cs \<le> e \<and> e \<le> ce)" using 2(2) h by (auto split: if_splits)
  show ?case
  proof (cases "e < cs")
    case True
    with 2(2) h out have "after = af" by (simp split: if_splits)
    moreover have "\<forall>(t, tv) \<in> set ((s, sv) # ss). unat e < unat (svc_start tv)"
      using True c le 2(4) by (fastforce simp: word_less_nat_alt)
    ultimately show ?thesis by (intro exI [of _ "[]"] exI [of _ "(s, sv) # ss"]) simp
  next
    case False
    with 2(2) h out have loc: "find_insert_loc ss h e (Some s) = Inr after" by (simp split: if_splits)
    have "svc_end sv < unat h"
      using out False c enc \<open>h \<le> e\<close> by (auto simp: word_le_nat_alt word_less_nat_alt)
    moreover from 2(1) [OF refl h [symmetric] _ _ _ loc] out False 2(3-5) obtain pre post where
      "ss = pre @ post" "\<forall>(s, sv) \<in> set pre. svc_end sv < unat h"
      "\<forall>(s, sv) \<in> set post. unat e < unat (svc_start sv)"
      "after = (if pre = [] then Some s else Some (fst (last pre)))" by auto
    ultimately show ?thesis by (intro exI [of _ "(s, sv) # pre"] exI [of _ post]) auto
  qed
qed

lemma insert_loc_split:
  assumes "distinct (pre @ post)" "s \<notin> set (pre @ post)"
    "after = (if pre = [] then None else Some (last pre))"
  shows "insert_loc after s (pre @ post) = pre @ s # post"
proof (cases pre rule: rev_cases)
  case Nil
  with assms show ?thesis by (simp add: insert_loc_def)
next
  case (snoc xs x)
  with assms show ?thesis by (simp add: insert_loc_def insert_after_hit)
qed

text \<open>
  The queue after an insertion: the new service stands between those that end before it and those
  that start behind it, provided none lies strictly inside the new range.
\<close>

lemma insert_service_sorted:
  assumes wf: "db_wf db" and sorted: "db_sorted db"
    and create: "gatt_db_service_create mem (next_svc db) u h primary n = Some (Some sv)"
    and loc: "find_insert_loc (map (\<lambda>s. (s, the (svcs db s))) (services db)) h (h + n - 1) None = Inr after"
    and pos: "0 < unat h" "0 < unat n" "unat h + unat n \<le> 65536"
    and enc: "\<forall>s tv. svcs db s = Some tv \<longrightarrow>
                \<not> (unat h < unat (svc_start tv) \<and> svc_end tv < unat h + unat n - 1)"
  shows "db_sorted (added_db db after sv h n)"
proof -
  let ?ld = "\<lambda>s. (s, the (svcs db s))" and ?s = "next_svc db"
  have e: "unat (h + n - 1) = unat h + unat n - 1" using pos by (intro unat_range_end)
  have live: "\<And>s. s \<in> set (services db) \<Longrightarrow> svcs db s \<noteq> None" using db_wf_dom [OF wf] by simp
  have "\<forall>(s, sv) \<in> set (map ?ld (services db)). svc_ok s sv \<and>
      \<not> (unat h < unat (svc_start sv) \<and> svc_end sv < unat (h + n - 1))"
    using live enc db_wf_svc [OF wf] e by auto
  moreover have "sorted_wrt (\<lambda>x y. svc_end (snd x) < unat (svc_start (snd y))) (map ?ld (services db))"
    using sorted by (simp add: db_sorted_def sorted_wrt_map)
  moreover have "h \<le> h + n - 1" using e pos by (simp add: word_le_nat_alt)
  ultimately obtain pre' post' where split: "map ?ld (services db) = pre' @ post'"
    "\<forall>(s, sv) \<in> set pre'. svc_end sv < unat h" "\<forall>(s, sv) \<in> set post'. unat (h + n - 1) < unat (svc_start sv)"
    "after = (if pre' = [] then None else Some (fst (last pre')))"
    using find_insert_loc_split [OF loc] by blast
  from split(1) obtain pre post where pp: "services db = pre @ post" "pre' = map ?ld pre" "post' = map ?ld post"
    by (auto simp: map_eq_append_conv)
  have "?s \<notin> set (services db)" using wf by (auto simp: db_wf_def)
  moreover have "distinct (services db)" using wf by (simp add: db_wf_def)
  ultimately have q: "services (added_db db after sv h n) = pre @ ?s # post"
    using insert_loc_split [of pre post ?s after] pp split(4) by (auto simp: added_db_def last_map)
  let ?m = "svcs (added_db db after sv h n)"
  have m: "?m ?s = Some (sv\<lparr>s_num_handles := n\<rparr>)" "\<And>t. t \<noteq> ?s \<Longrightarrow> ?m t = svcs db t"
    by (simp_all add: added_db_def)
  have new: "svc_start (sv\<lparr>s_num_handles := n\<rparr>) = h" "svc_end (sv\<lparr>s_num_handles := n\<rparr>) = unat h + unat n - 1"
    using service_create_ok(2) [OF create pos(1,3)] by (simp_all add: svc_end_def)
  have old: "t \<noteq> ?s" if "t \<in> set pre \<union> set post" for t
    using that \<open>?s \<notin> set (services db)\<close> pp(1) by auto
  have "svc_end (the (?m t)) < unat h" if "t \<in> set pre" for t
    using that split(2) pp(2) m(2) old by auto
  moreover have "unat h + unat n - 1 < unat (svc_start (the (?m t)))" if "t \<in> set post" for t
    using that split(3) pp(3) m(2) old e by auto
  moreover have "sorted_wrt (\<lambda>s t. svc_end (the (?m s)) < unat (svc_start (the (?m t)))) (pre @ post)"
    using sorted pp(1) m(2) old
    by (auto simp: db_sorted_def intro: sorted_wrt_mono_rel [rotated])
  ultimately show ?thesis
    unfolding db_sorted_def q using m(1) new by (auto simp: sorted_wrt_append)
qed

section \<open>What the insertions store\<close>

lemma list_update_update_put:
  assumes "svcs db s = Some sv" "i < length (s_attributes sv)" "j < length (s_attributes sv)"
    "put_attr db (s, i) a = Some db1" "put_attr db1 (s, j) b = Some db2"
  shows "db2 = put_svc db s (sv\<lparr>s_attributes := (s_attributes sv)[i := Some a, j := Some b]\<rparr>)"
  using assms by (auto simp: put_attr_def put_svc_def)

lemma insert_characteristic_cases:
  fixes db :: "'c gatt_db"
  assumes wf: "db_wf db" and sv: "svcs db s = Some sv"
    and r: "service_insert_characteristic mem db s h u p pr rf w ud = Some (r, db')"
  obtains (rejected) "r = None" "db' = db"
  | (added) i b d a le vh where "r = Some (s, i + 1)" "0 < i" "i + 1 < unat (s_num_handles sv)"
      "svc_attr sv (i - 1) = Some b" "svc_attr sv i = None"
      "vh = (if h = 0 then a_handle b + 2 else h)" "uuid_to_le u = Some le"
      "new_attribute mem s (vh - 1) characteristic_uuid ([pr] @ put_le16 vh @ le) = Some d"
      "new_attribute mem s vh u [] = Some a"
      "db' = put_svc db s (sv\<lparr>s_attributes := (s_attributes sv)
         [i := Some (set_attribute_data d None None BT_ATT_PERM_READ None),
          i + 1 := Some (set_attribute_data a rf w p ud)]\<rparr>)"
proof -
  let ?i = "get_attribute_index sv 1"
  note ok = db_wf_svc [OF wf sv]
  note r = r [unfolded service_insert_characteristic_def, simplified sv bind.bind_lunit]
  show thesis
  proof (cases "?i = 0 \<or> h \<noteq> 0 \<and> h \<le> svc_start sv \<or> h = 0xFFFF")
    case True
    with r rejected show thesis by (auto simp: Let_def split: if_splits)
  next
    case False
    note idx = get_attribute_index_props [OF ok refl [of ?i]]
    from False idx(3) [of "?i - 1"] obtain b where b: "svc_attr sv (?i - 1) = Some b" by auto
    let ?vh = "if h = 0 then a_handle b + 2 else h"
    from False r b obtain le where le: "uuid_to_le u = Some le"
      by (auto simp: Let_def get_handle_at_index_def bind_eq_Some_conv split: if_splits)
    let ?new = "new_attribute mem s (?vh - 1) characteristic_uuid ([pr] @ put_le16 ?vh @ le) :: 'c gatt_db_attribute option"
    show thesis
    proof (cases ?new)
      case None
      with False r b le rejected show thesis by (auto simp: Let_def get_handle_at_index_def split: if_splits)
    next
      case (Some d)
      obtain a :: "'c gatt_db_attribute" where a: "new_attribute mem s ?vh u [] = Some a"
        using new_attribute_Nil by blast
      have len: "?i < length (s_attributes sv)" "?i + 1 < length (s_attributes sv)"
        using ok idx(1) False by (auto simp: svc_ok_def)
      from False r b le Some a obtain db1 where
        "put_attr db (s, ?i) (set_attribute_data d None None BT_ATT_PERM_READ None) = Some db1"
        "put_attr db1 (s, ?i + 1) (set_attribute_data a rf w p ud) = Some db'" "r = Some (s, ?i + 1)"
        by (auto simp: Let_def get_handle_at_index_def bind_eq_Some_conv split: if_splits)
      with list_update_update_put [OF sv len] added [of ?i b ?vh le d a] False idx b le Some a show thesis
        by auto
    qed
  qed
qed

lemma insert_descriptor_cases:
  fixes db :: "'c gatt_db"
  assumes wf: "db_wf db" and sv: "svcs db s = Some sv"
    and r: "service_insert_descriptor mem db s h u p rf w ud = Some (r, db')"
  obtains (rejected) "r = None" "db' = db"
  | (added) i b a where "r = Some (s, i)" "0 < i" "i < unat (s_num_handles sv)"
      "svc_attr sv (i - 1) = Some b" "svc_attr sv i = None"
      "new_attribute mem s (if h = 0 then a_handle b + 1 else h) u [] = Some a"
      "db' = put_svc db s (sv\<lparr>s_attributes := (s_attributes sv)
         [i := Some (set_attribute_data a rf w p ud)]\<rparr>)"
proof -
  let ?i = "get_attribute_index sv 0"
  note ok = db_wf_svc [OF wf sv]
  note r = r [unfolded service_insert_descriptor_def, simplified sv bind.bind_lunit]
  show thesis
  proof (cases "?i = 0 \<or> h \<noteq> 0 \<and> h \<le> svc_start sv")
    case True
    with r rejected show thesis by (auto simp: Let_def split: if_splits)
  next
    case False
    note idx = get_attribute_index_props [OF ok refl [of ?i]]
    from False idx(3) [of "?i - 1"] obtain b where b: "svc_attr sv (?i - 1) = Some b" by auto
    let ?h = "if h = 0 then a_handle b + 1 else h"
    obtain a :: "'c gatt_db_attribute" where a: "new_attribute mem s ?h u [] = Some a"
      using new_attribute_Nil by blast
    have len: "?i < length (s_attributes sv)" using ok idx(1) False by (auto simp: svc_ok_def)
    from False r b a have "put_attr db (s, ?i) (set_attribute_data a rf w p ud) = Some db'" "r = Some (s, ?i)"
      by (auto simp: Let_def get_handle_at_index_def bind_eq_Some_conv split: if_splits)
    with put_attr_Some [OF sv len] added [of ?i b a] False idx b a show thesis by auto
  qed
qed

lemma insert_included_cases:
  fixes db :: "'c gatt_db"
  assumes wf: "db_wf db" and sv: "svcs db s = Some sv"
    and r: "service_insert_included mem db s h q = Some (r, db')"
  obtains (rejected) "r = None" "db' = db"
  | (added) i b a iq isv c k u where "r = Some (s, i)" "0 < i" "i < unat (s_num_handles sv)"
      "svc_attr sv (i - 1) = Some b" "svc_attr sv i = None"
      "db_attr db q = Some iq" "svcs db (a_service iq) = Some isv" "attr0 isv = Some c"
      "length u \<le> 2"
      "new_attribute mem s k included_service_uuid (put_le16 (a_handle c) @
         put_le16 (a_handle c + s_num_handles isv - 1) @ u) = Some a"
      "db' = put_svc db s (sv\<lparr>s_attributes := (s_attributes sv)
         [i := Some ((set_attribute_data a None None BT_ATT_PERM_READ None)
                       \<lparr>a_handle := a_handle b + 1\<rparr>)]\<rparr>)"
proof -
  let ?i = "get_attribute_index sv 0"
  note ok = db_wf_svc [OF wf sv]
  from r sv obtain iq isv c u where
    inc: "db_attr db q = Some iq" "svcs db (a_service iq) = Some isv" "attr0 isv = Some c"
      "(if a_value_len c = 2 then do { v \<leftarrow> a_value c; Some (take 2 v) } else Some []) = Some u"
    unfolding service_insert_included_def Let_def bind_eq_Some_conv [of "svcs db s"]
      bind_eq_Some_conv [of "db_attr db q"] bind_eq_Some_conv [of "svcs db _"]
      bind_eq_Some_conv [of "attr0 _"] bind_eq_Some_conv [of "if _ then _ else _"] by blast
  from inc(4) have u: "length u \<le> 2" by (auto simp: bind_eq_Some_conv split: if_splits)
  let ?val = "put_le16 (a_handle c) @ put_le16 (a_handle c + s_num_handles isv - 1) @ u"
  note r = r [unfolded service_insert_included_def Let_def, simplified sv inc bind.bind_lunit]
  show thesis
  proof (cases "?i = 0 \<or> h \<noteq> 0 \<and> h \<le> svc_start sv")
    case True
    with r rejected show thesis by (auto split: if_splits)
  next
    case False
    note idx = get_attribute_index_props [OF ok refl [of ?i]]
    from False idx(3) [of "?i - 1"] obtain b where b: "svc_attr sv (?i - 1) = Some b" by auto
    let ?h = "if h = 0 then a_handle b + 1 else h"
    show thesis
    proof (cases "new_attribute mem s ?h included_service_uuid ?val :: 'c gatt_db_attribute option")
      case None
      with False r b rejected show thesis by (auto simp: get_handle_at_index_def split: if_splits)
    next
      case (Some a)
      let ?a = "set_attribute_data a None None BT_ATT_PERM_READ None"
      have len: "?i < length (s_attributes sv)" using ok idx(1) False by (auto simp: svc_ok_def)
      let ?sv = "sv\<lparr>s_attributes := (s_attributes sv)[?i := Some ?a]\<rparr>"
      have at: "svc_attr ?sv ?i = Some ?a" "svc_attr ?sv (?i - 1) = Some b"
        using b False len by auto
      from False r b Some obtain x where
        "attribute_update (put_svc db s ?sv) s ?i = Some (x, db')" "r = Some x"
        by (auto simp: get_handle_at_index_def bind_eq_Some_conv put_attr_Some [OF sv len] split: if_splits)
      then have "r = Some (s, ?i)" "db' = put_svc db s (sv\<lparr>s_attributes := (s_attributes sv)
         [?i := Some (?a\<lparr>a_handle := a_handle b + 1\<rparr>)]\<rparr>)"
        using at len
        by (auto simp: attribute_update_def get_handle_at_index_def put_attr_def put_svc_def
            simp del: svc_attr_update)
      with added [OF _ _ _ b _ inc(1-3) u Some] False idx show thesis by auto
    qed
  qed
qed

section \<open>Databases that grow at their end\<close>

text \<open>What the three predicates depend on: the queue, the next handle and every handle.\<close>

definition svc_shape :: "'c gatt_db_service \<Rightarrow> u16 \<times> u16 option list" where
  "svc_shape sv = (s_num_handles sv, map (map_option a_handle) (s_attributes sv))"

definition db_shape :: "'c gatt_db \<Rightarrow> svc_ptr list \<times> u16 \<times> (svc_ptr \<rightharpoonup> u16 \<times> u16 option list)" where
  "db_shape db = (services db, next_handle db, \<lambda>s. map_option svc_shape (svcs db s))"

definition grown_inv :: "'c gatt_db \<Rightarrow> bool" where
  "grown_inv db \<longleftrightarrow> db_wf db \<and> notify_ok db \<and> db_sorted db \<and> db_dense db \<and> db_next db"

lemma shape_start: "svc_shape sv = svc_shape sv' \<Longrightarrow> svc_start sv = svc_start sv'"
  by (cases "s_attributes sv"; cases "s_attributes sv'")
    (auto simp: svc_shape_def svc_start_def attr0_def split: option.splits)

lemma shape_end: "svc_shape sv = svc_shape sv' \<Longrightarrow> svc_end sv = svc_end sv'"
  using shape_start [of sv sv'] by (simp add: svc_end_def svc_shape_def)

lemma shape_attr:
  assumes "svc_shape sv = svc_shape sv'" "svc_attr sv i = Some a"
  shows "\<exists>b. svc_attr sv' i = Some b \<and> a_handle b = a_handle a"
proof -
  have "map (map_option a_handle) (s_attributes sv) = map (map_option a_handle) (s_attributes sv')"
    using assms(1) by (simp add: svc_shape_def)
  then have len: "length (s_attributes sv) = length (s_attributes sv')"
    and eq: "i < length (s_attributes sv) \<Longrightarrow>
      map_option a_handle (s_attributes sv ! i) = map_option a_handle (s_attributes sv' ! i)"
    by (metis length_map, metis length_map nth_map)
  from assms(2) have i: "i < length (s_attributes sv)" "s_attributes sv ! i = Some a"
    by (auto simp: svc_attr_def split: if_splits)
  with eq len show ?thesis by (cases "s_attributes sv' ! i") (auto simp: svc_attr_def)
qed

lemma shape_inv:
  fixes db db' :: "'c gatt_db"
  assumes "db_shape db' = db_shape db"
  shows "db_sorted db' \<longleftrightarrow> db_sorted db" "db_dense db \<Longrightarrow> db_dense db'" "db_next db \<Longrightarrow> db_next db'"
proof -
  have q: "services db' = services db" "next_handle db' = next_handle db"
    and m: "map_option svc_shape (svcs db' s) = map_option svc_shape (svcs db s)" for s
    using assms by (simp_all add: db_shape_def fun_eq_iff)
  have eq: "svc_shape sv' = svc_shape sv" if "svcs db' s = Some sv'" "svcs db s = Some sv" for s sv sv'
    using m [of s] that by simp
  have ex: "\<exists>sv. svcs db s = Some sv \<and> svc_shape sv = svc_shape sv'" if "svcs db' s = Some sv'" for s sv'
    using m [of s] that by (cases "svcs db s") auto
  have the: "svc_start (the (svcs db' s)) = svc_start (the (svcs db s)) \<and>
      svc_end (the (svcs db' s)) = svc_end (the (svcs db s))" for s
    using m [of s] shape_start shape_end by (cases "svcs db s"; cases "svcs db' s") auto
  then show "db_sorted db' \<longleftrightarrow> db_sorted db" by (simp add: db_sorted_def q)
  show "db_dense db'" if "db_dense db"
    unfolding db_dense_def
  proof (intro allI impI)
    fix s sv' i a assume s: "svcs db' s = Some sv'" "svc_attr sv' i = Some a"
    from ex [OF s(1)] obtain sv where sv: "svcs db s = Some sv" "svc_shape sv' = svc_shape sv" by auto
    from shape_attr [OF sv(2) s(2)] obtain b where "svc_attr sv i = Some b" "a_handle b = a_handle a" by blast
    with that sv shape_start [OF sv(2)] show "unat (a_handle a) = unat (svc_start sv') + i"
      unfolding db_dense_def by metis
  qed
  show "db_next db'" if "db_next db"
    using that ex shape_end unfolding db_next_def q by metis
qed

lemma shape_put_attr:
  assumes "db_attr db q = Some a" "a_handle a' = a_handle a" "put_attr db q a' = Some db'"
  shows "db_shape db' = db_shape db"
proof -
  obtain s i where q: "q = (s, i)" by (cases q)
  from assms(1) q obtain sv where sv: "svcs db s = Some sv" "i < length (s_attributes sv)"
    "s_attributes sv ! i = Some a"
    by (auto elim!: db_attrE simp: svc_attr_def split: if_splits)
  have "map (map_option a_handle) ((s_attributes sv)[i := Some a']) = map (map_option a_handle) (s_attributes sv)"
    using sv assms(2) by (auto simp: map_update list_update_same_conv)
  with assms(3) sv q show ?thesis
    by (auto simp: put_attr_def db_shape_def put_svc_def svc_shape_def fun_eq_iff)
qed

lemma grown_shape:
  fixes db db' :: "'c gatt_db"
  shows "grown_inv db \<Longrightarrow> db_shape db' = db_shape db \<Longrightarrow> db_wf db' \<Longrightarrow> notify_ok db' \<Longrightarrow> grown_inv db'"
  using shape_inv [of db' db] by (simp add: grown_inv_def)

text \<open>A service loses nothing and gains attributes with the next handles.\<close>

lemma grown_extend:
  assumes g: "grown_inv db" and sv: "svcs db s = Some sv" and wf: "db_wf (put_svc db s sv')"
    and start: "svc_start sv' = svc_start sv" "s_num_handles sv' = s_num_handles sv"
    and dense: "\<And>i a. svc_attr sv' i = Some a \<Longrightarrow> unat (a_handle a) = unat (svc_start sv) + i"
  shows "grown_inv (put_svc db s sv')"
proof -
  have e: "svc_end sv' = svc_end sv" using start by (simp add: svc_end_def)
  have the: "svc_start (the (((svcs db)(s \<mapsto> sv')) t)) = svc_start (the (svcs db t)) \<and>
      svc_end (the (((svcs db)(s \<mapsto> sv')) t)) = svc_end (the (svcs db t))" for t
    using start e sv by simp
  have "db_sorted (put_svc db s sv')" using g the by (simp add: grown_inv_def db_sorted_def)
  moreover have "db_dense (put_svc db s sv')"
    using g dense start by (auto simp: grown_inv_def db_dense_def)
  moreover have "db_next (put_svc db s sv')"
    using g e sv by (auto simp: grown_inv_def db_next_def)
  ultimately show ?thesis using g wf by (simp add: grown_inv_def)
qed

lemma dense_prev:
  assumes "grown_inv db" "svcs db s = Some sv" "svc_attr sv (i - 1) = Some b" "0 < i" "i < unat (s_num_handles sv)"
  shows "unat (a_handle b + 1) = unat (svc_start sv) + i"
    "i + 1 < unat (s_num_handles sv) \<Longrightarrow> unat (a_handle b + 2) = unat (svc_start sv) + (i + 1)"
proof -
  have b: "unat (a_handle b) = unat (svc_start sv) + (i - 1)"
    using assms(1-3) by (simp add: grown_inv_def db_dense_def)
  have le: "unat (svc_start sv) + unat (s_num_handles sv) \<le> 65536"
    using db_wf_svc [OF _ assms(2)] assms(1) by (simp add: grown_inv_def svc_ok_def)
  show "unat (a_handle b + 1) = unat (svc_start sv) + i"
    using b le assms(4,5) by (simp add: unat_word_ariths)
  show "unat (a_handle b + 2) = unat (svc_start sv) + (i + 1)" if "i + 1 < unat (s_num_handles sv)"
    using b le assms(4) that by (simp add: unat_word_ariths)
qed

text \<open>The calls that do not ask for a particular handle.\<close>

primrec appending :: "'c dbop \<Rightarrow> bool" where
  "appending (Insert_service mem h u pr n) = False"
| "appending (Add_service mem u pr n) = True"
| "appending (Remove_service q) = True"
| "appending Clear = True"
| "appending (Clear_range st en) = True"
| "appending (Register added removed ud destroy) = True"
| "appending (Unregister i) = True"
| "appending (Insert_characteristic mem h u p pr rf w ud) = False"
| "appending (Service_insert_characteristic mem q h u p pr rf w ud) = False"
| "appending (Add_characteristic mem q u p pr rf w ud) = True"
| "appending (Insert_descriptor mem h u p rf w ud) = False"
| "appending (Service_insert_descriptor mem q h u p rf w ud) = False"
| "appending (Add_descriptor mem q u p rf w ud) = True"
| "appending (Insert_included mem h i) = False"
| "appending (Service_insert_included mem q h i) = False"
| "appending (Add_included mem q i) = True"
| "appending (Set_active q b) = True"
| "appending (Set_claimed q b) = True"
| "appending (Read tid q off opc att f ud) = True"
| "appending (Read_result q i err val) = True"
| "appending (Read_timeout p) = True"
| "appending (Write mem junk tid q off val opc att f ud) = True"
| "appending (Write_result q i err) = True"
| "appending (Write_timeout p) = True"
| "appending (Reset q) = True"

inductive db_grown :: "'c gatt_db \<Rightarrow> bool" where
  new: "gatt_db_new = Some db \<Longrightarrow> db_grown db"
| step: "db_grown db \<Longrightarrow> appending oper \<Longrightarrow> op_ok db oper \<Longrightarrow> db_step db oper = Some (db', es) \<Longrightarrow>
         db_grown db'"

lemma svc_attr_num [simp]: "svc_attr (sv\<lparr>s_num_handles := n\<rparr>) = svc_attr sv"
  by (simp add: fun_eq_iff svc_attr_def)

lemma service_create_slots:
  assumes "gatt_db_service_create mem s u h primary n = Some (Some sv)" "0 < i"
  shows "svc_attr sv i = None"
  using assms
  by (auto simp: gatt_db_service_create_def bind_eq_Some_conv Let_def svc_attr_def nth_Cons'
      split: if_splits option.splits)

lemma grown_add_service:
  assumes g: "grown_inv db" and u: "uuid_ok u"
    and r: "gatt_db_add_service mem db u pr n = Some (r, Some db')"
  shows "grown_inv db'"
proof -
  have wf: "db_wf db" and nx: "db_next db" using g by (simp_all add: grown_inv_def)
  from wf u r [symmetric, unfolded gatt_db_add_service_def] show ?thesis
  proof (cases rule: insert_service_cases)
    case (added after sv)
    let ?h = "next_handle db" and ?sv = "sv\<lparr>s_num_handles := n\<rparr>"
    have db': "db' = added_db db after sv ?h n" using added(1) by simp
    note new = service_create_ok [OF added(2,5,7)]
    have old: "svc_end tv < unat ?h" if "svcs db s = Some tv" for s tv
      using nx that added(5) by (auto simp: db_next_def)
    have "\<forall>s tv. svcs db s = Some tv \<longrightarrow>
        \<not> (unat ?h < unat (svc_start tv) \<and> svc_end tv < unat ?h + unat n - 1)"
      using old svc_start_le_end db_wf_svc [OF wf] by fastforce
    then have "db_sorted db'"
      using insert_service_sorted [OF wf _ added(2,3,5-7)] g db' by (simp add: grown_inv_def)
    moreover have "db_wf db'" using added_db_wf [OF wf added(2,4,5,7)] db' by simp
    moreover have "svc_attr ?sv i = Some a \<Longrightarrow> i = 0 \<and> a_handle a = ?h" for i a
      using new(2) svc_start_svc_attr [of ?sv a] service_create_slots [OF added(2), of i]
      by (cases "i = 0") auto
    then have "db_dense db'"
      using g new(2) db' by (auto simp: grown_inv_def db_dense_def added_db_def)
    moreover have "db_next db'"
    proof (cases "unat ?h + unat n = 65536")
      case True
      then show ?thesis by (simp add: db' db_next_def added_db_def)
    next
      case False
      have nh: "unat (next_handle db') = unat ?h + unat n"
        using False added(7) by (simp add: db' added_db_def unat_word_ariths)
      show ?thesis
        unfolding db_next_def
      proof (intro disjI2 allI impI)
        fix s tv assume s: "svcs db' s = Some tv"
        show "svc_end tv < unat (next_handle db')"
        proof (cases "s = next_svc db")
          case True
          with s new(2) added(6) show ?thesis by (simp add: nh) (auto simp: db' added_db_def svc_end_def)
        next
          case False
          with s have "svcs db s = Some tv" by (simp add: db' added_db_def)
          from old [OF this] show ?thesis by (simp add: nh)
        qed
      qed
    qed
    moreover have "notify_ok db'" using g by (simp add: db' added_db_def grown_inv_def notify_ok_def)
    ultimately show ?thesis by (simp add: grown_inv_def)
  qed (use g in auto)
qed

lemma grown_restrict:
  assumes g: "grown_inv db" and wf: "db_wf db'" "notify_ok db'"
    and q: "services db' = filter P (services db)"
    and m: "\<And>s sv. svcs db' s = Some sv \<Longrightarrow> svcs db s = Some sv"
    and nh: "next_handle db' = next_handle db \<or> next_handle db' = 0"
  shows "grown_inv db'"
proof -
  have "the (svcs db' s) = the (svcs db s)" if "s \<in> set (services db')" for s
    using that db_wf_dom [OF wf(1)] m by fastforce
  moreover have "sorted_wrt (\<lambda>s t. svc_end (the (svcs db s)) < unat (svc_start (the (svcs db t)))) (services db')"
    using g by (simp add: q grown_inv_def db_sorted_def sorted_wrt_filter)
  ultimately have "db_sorted db'"
    unfolding db_sorted_def by (auto intro: sorted_wrt_mono_rel [rotated])
  moreover have "db_dense db'" using g m unfolding grown_inv_def db_dense_def by blast
  moreover have "db_next db'" using g m nh unfolding grown_inv_def db_next_def by metis
  ultimately show ?thesis using wf by (simp add: grown_inv_def)
qed

lemma grown_characteristic:
  assumes g: "grown_inv db" and sv: "svcs db s = Some sv" and u: "uuid_ok u"
    and r: "service_insert_characteristic mem db s 0 u p pr rf w ud = Some (r, db')"
  shows "grown_inv db'"
proof -
  have wf: "db_wf db" using g by (simp add: grown_inv_def)
  have ok: "svc_ok s sv" using db_wf_svc [OF wf sv] .
  have wf': "db_wf db'" using insert_characteristic_wf [OF wf sv u, of mem 0 p pr rf w ud] r by auto
  from wf sv r show ?thesis
  proof (cases rule: insert_characteristic_cases)
    case (added i b d a le vh)
    let ?d = "set_attribute_data d None None BT_ATT_PERM_READ None" and ?a = "set_attribute_data a rf w p ud"
    let ?sv = "sv\<lparr>s_attributes := (s_attributes sv)[i := Some ?d, i + 1 := Some ?a]\<rparr>"
    note prev = dense_prev [OF g sv added(4,2)]
    have h: "a_handle d = a_handle b + 1" "a_handle a = a_handle b + 2"
      using new_attribute_props(1) [OF added(8)] new_attribute_props(1) [OF added(9)] added(6) by simp_all
    have len: "i + 1 < length (s_attributes sv)" using ok added(3) by (simp add: svc_ok_def)
    have at: "svc_attr ?sv j = (if j = i + 1 then Some ?a else if j = i then Some ?d else svc_attr sv j)" for j
      using len by (auto simp: svc_attr_def nth_list_update)
    have start: "svc_start ?sv = svc_start sv"
    proof -
      obtain c where c: "svc_attr sv 0 = Some c" "svc_start sv = a_handle c" using svc_ok_attr0 [OF ok] by blast
      then have "svc_attr ?sv 0 = Some c" using added(2) at [of 0] by simp
      from svc_start_svc_attr [OF this] c(2) show ?thesis by simp
    qed
    show ?thesis
      unfolding added(10)
    proof (rule grown_extend [OF g sv])
      show "db_wf (put_svc db s ?sv)" using wf' added(10) by simp
      show "unat (a_handle c) = unat (svc_start sv) + j" if "svc_attr ?sv j = Some c" for j c
        using that [unfolded at] prev added(3) h g sv
        by (auto simp: grown_inv_def db_dense_def split: if_splits)
    qed (use start in auto)
  qed (use g in auto)
qed

lemma grown_one_more:
  assumes g: "grown_inv db" and sv: "svcs db s = Some sv" and b: "svc_attr sv (i - 1) = Some b"
    and i: "0 < i" "i < unat (s_num_handles sv)" and h: "a_handle a = a_handle b + 1"
    and wf': "db_wf (put_svc db s (sv\<lparr>s_attributes := (s_attributes sv)[i := Some a]\<rparr>))"
  shows "grown_inv (put_svc db s (sv\<lparr>s_attributes := (s_attributes sv)[i := Some a]\<rparr>))"
proof (rule grown_extend [OF g sv wf'])
  have ok: "svc_ok s sv" using g sv by (auto simp: grown_inv_def dest: db_wf_svc)
  let ?sv = "sv\<lparr>s_attributes := (s_attributes sv)[i := Some a]\<rparr>"
  show "svc_start ?sv = svc_start sv" using svc_start_update(1) [OF ok] i(1) by simp
  show "unat (a_handle c) = unat (svc_start sv) + j" if "svc_attr ?sv j = Some c" for j c
    using that dense_prev(1) [OF g sv b i] h g sv i ok
    by (auto simp: grown_inv_def db_dense_def svc_ok_def split: if_splits)
qed simp

lemma grown_descriptor:
  assumes g: "grown_inv db" and sv: "svcs db s = Some sv"
    and r: "service_insert_descriptor mem db s 0 u p rf w ud = Some (r, db')"
  shows "grown_inv db'"
proof -
  have wf: "db_wf db" using g by (simp add: grown_inv_def)
  have wf': "db_wf db'" using insert_descriptor_wf [OF wf sv, of mem 0 u p rf w ud] r by auto
  from wf sv r show ?thesis
  proof (cases rule: insert_descriptor_cases)
    case (added i b a)
    with grown_one_more [OF g sv added(4,2,3), of "set_attribute_data a rf w p ud"]
      new_attribute_props(1) [OF added(6)] wf' show ?thesis by simp
  qed (use g in auto)
qed

lemma grown_included:
  assumes g: "grown_inv db" and sv: "svcs db s = Some sv" and q: "db_attr db q = Some c"
    and r: "service_insert_included mem db s h q = Some (r, db')"
  shows "grown_inv db'"
proof -
  have wf: "db_wf db" using g by (simp add: grown_inv_def)
  have wf': "db_wf db'" using insert_included_wf [OF wf sv q, of mem h] r by auto
  from wf sv r show ?thesis
  proof (cases rule: insert_included_cases)
    case (added i b a)
    with grown_one_more [OF g sv added(4,2,3)] wf' show ?thesis by simp
  qed (use g in auto)
qed

lemma shape_values:
  "gatt_db_attribute_read tid db q off opc att f ud = Some (r, db', e) \<Longrightarrow> db_shape db' = db_shape db"
  "gatt_db_attribute_read_result db q i err rv = Some (r, db', e) \<Longrightarrow> db_shape db' = db_shape db"
  "read_timeout db p = Some (r, db', e) \<Longrightarrow> db_shape db' = db_shape db"
  "gatt_db_attribute_write_result db q i err = Some (r, db', e) \<Longrightarrow> db_shape db' = db_shape db"
  "write_timeout db p = Some (r, db', e) \<Longrightarrow> db_shape db' = db_shape db"
  "gatt_db_attribute_reset db q = Some (r, db') \<Longrightarrow> db_shape db' = db_shape db"
  by (auto simp: gatt_db_attribute_read_def gatt_db_attribute_read_result_def read_timeout_def
      gatt_db_attribute_write_result_def write_timeout_def gatt_db_attribute_reset_def
      bind_eq_Some_conv Let_def split: option.splits if_splits elim!: shape_put_attr [rotated 2])

lemma store_value_handle: "store_value junk a off val = Some a' \<Longrightarrow> a_handle a' = a_handle a"
  by (auto simp: store_value_def Let_def bind_eq_Some_conv split: if_splits)

lemma shape_write:
  "gatt_db_attribute_write mem junk tid db q off val opc att f ud = Some (r, db', e) \<Longrightarrow>
   db_shape db' = db_shape db"
  by (auto simp: gatt_db_attribute_write_def bind_eq_Some_conv Let_def split: option.splits if_splits
      elim!: shape_put_attr [rotated 2] dest: store_value_handle)

lemma shape_flags:
  "gatt_db_service_set_active db q b = Some (r, db', e) \<Longrightarrow> db_shape db' = db_shape db"
  "gatt_db_service_set_claimed db q b = Some (r, db') \<Longrightarrow> db_shape db' = db_shape db"
  by (auto simp: gatt_db_service_set_active_def gatt_db_service_set_claimed_def bind_eq_Some_conv Let_def
      db_shape_def svc_shape_def put_svc_def fun_eq_iff split: option.splits if_splits)

lemma grown_clear:
  assumes g: "grown_inv db" and r: "gatt_db_clear_range (Some db) st en = Some (r, Some db', e)"
  shows "grown_inv db'"
proof (cases "st \<le> en")
  case True
  have wf: "db_wf db" "notify_ok db" using g by (simp_all add: grown_inv_def)
  let ?c = "cleared_db db st en"
  have "grown_inv (?c\<lparr>next_handle := h\<rparr>)" if "h = next_handle db \<or> h = 0" for h
  proof (rule grown_restrict [OF g])
    show "db_wf (?c\<lparr>next_handle := h\<rparr>)" "notify_ok (?c\<lparr>next_handle := h\<rparr>)"
      using cleared_db_wf [OF wf(1)] wf(2) by simp_all
    show "services (?c\<lparr>next_handle := h\<rparr>) = filter (\<lambda>s. s \<notin> set (cleared db st en)) (services db)"
      by (simp add: cleared_db_def)
    show "svcs db s = Some sv" if "svcs (?c\<lparr>next_handle := h\<rparr>) s = Some sv" for s sv
      using that by (simp add: cleared_db_def restrict_map_def split: if_splits)
  qed (use that in simp)
  from this [of "next_handle db"] this [of 0] have "grown_inv ?c" "grown_inv (?c\<lparr>next_handle := 0\<rparr>)"
    by (simp_all add: cleared_db_def)
  moreover obtain e' where "gatt_db_clear_range (Some db) st en =
      Some (True, Some (if services ?c = [] then ?c\<lparr>next_handle := 0\<rparr> else ?c), e')"
    using clear_range_result [OF wf True] by blast
  with r have "db' = ?c\<lparr>next_handle := 0\<rparr> \<or> db' = ?c" by (simp split: if_splits)
  ultimately show ?thesis by auto
next
  case False
  with r g show ?thesis by (simp add: gatt_db_clear_range_def not_le)
qed

lemma grown_remove:
  assumes g: "grown_inv db" and q: "db_attr db q = Some a"
    and r: "gatt_db_remove_service (Some db) (Some q) = Some (r, Some db', e)"
  shows "grown_inv db'"
proof -
  have wf: "db_wf db" "notify_ok db" using g by (simp_all add: grown_inv_def)
  from remove_service_wf [OF wf q] r have 1: "db_wf db'" "notify_ok db'"
    "services db' = remove1 (fst q) (services db)" "svcs db' = (svcs db)(fst q := None)" by auto
  have "services db' = filter ((\<noteq>) (fst q)) (services db)"
    using 1(3) wf(1) by (simp add: db_wf_def distinct_remove1_removeAll removeAll_filter_not_eq)
  moreover have "next_handle db' = next_handle db"
    using r by (auto simp: gatt_db_remove_service_def gatt_db_service_destroy_def bind_eq_Some_conv Let_def)
  ultimately show ?thesis
    by (intro grown_restrict [OF g 1(1,2)]) (auto simp: 1(4) split: if_splits)
qed

lemma grown_notify:
  "grown_inv db \<Longrightarrow> added \<noteq> None \<Longrightarrow> removed \<noteq> None \<Longrightarrow>
     snd (gatt_db_register (Some db) added removed ud destroy) = Some db' \<Longrightarrow> grown_inv db'"
  "grown_inv db \<Longrightarrow> gatt_db_unregister (Some db) i = (b, Some db', e) \<Longrightarrow> grown_inv db'"
  using set_remove_first [of "\<lambda>n. match_notify_id n i" "notify_list db"]
  by (auto simp: gatt_db_register_def gatt_db_unregister_def Let_def grown_inv_def db_wf_def notify_ok_def
      db_sorted_def db_dense_def db_next_def split: option.splits if_splits)

text \<open>The services and attributes a pointer argument leads to.\<close>

lemma grown_attribute_ops:
  assumes g: "grown_inv db" and q: "ptr_ok db q"
  shows "uuid_ok u \<Longrightarrow> gatt_db_service_add_characteristic mem db q u p pr rf w ud = Some (r, db') \<Longrightarrow> grown_inv db'"
    "gatt_db_service_add_descriptor mem db q u p rf w ud = Some (r, db') \<Longrightarrow> grown_inv db'"
    "ptr_ok db i \<Longrightarrow> gatt_db_service_add_included mem db q i = Some (r, db') \<Longrightarrow> grown_inv db'"
    "gatt_db_remove_service (Some db) q = Some (b, Some db', e) \<Longrightarrow> grown_inv db'"
proof -
  have wf: "db_wf db" using g by (simp add: grown_inv_def)
  consider "q = None" | x c sv where "q = Some x" "db_attr db x = Some c" "a_service c = fst x"
      "svcs db (fst x) = Some sv"
    using q ptr_okD db_attr_service [OF wf] by (metis option.exhaust)
  note q = this
  from q show "grown_inv db'"
    if "uuid_ok u" "gatt_db_service_add_characteristic mem db q u p pr rf w ud = Some (r, db')"
    by cases (use that g grown_characteristic [OF g] in \<open>auto simp: gatt_db_service_add_characteristic_def\<close>)
  from q show "grown_inv db'" if "gatt_db_service_add_descriptor mem db q u p rf w ud = Some (r, db')"
    by cases (use that g grown_descriptor [OF g] in \<open>auto simp: gatt_db_service_add_descriptor_def\<close>)
  from q show "grown_inv db'" if r: "gatt_db_service_add_included mem db q i = Some (r, db')" and i: "ptr_ok db i"
  proof cases
    case (2 x c sv)
    show ?thesis
    proof (cases i)
      case None
      with r g 2 show ?thesis by (simp add: gatt_db_service_add_included_def)
    next
      case (Some j)
      with i ptr_okD obtain d where "db_attr db j = Some d" by blast
      from grown_included [OF g 2(4) this] r Some 2 show ?thesis
        by (auto simp: gatt_db_service_add_included_def)
    qed
  qed (use r g in \<open>auto simp: gatt_db_service_add_included_def\<close>)
  from q show "grown_inv db'" if "gatt_db_remove_service (Some db) q = Some (b, Some db', e)"
  proof cases
    case (2 x c sv)
    with that grown_remove [OF g 2(2)] show ?thesis by simp
  qed (use that g in \<open>auto simp: gatt_db_remove_service_def\<close>)
qed

lemma grown_step:
  assumes g: "grown_inv db" and a: "appending oper" and o: "op_ok db oper"
    and s: "db_step db oper = Some (db', es)"
  shows "grown_inv db'"
proof -
  have wf: "db_wf db" "notify_ok db" using g by (simp_all add: grown_inv_def)
  from step_safe [OF wf o] s have wf': "db_wf db'" "notify_ok db'" by auto
  note shp = grown_shape [OF g _ wf']
  note ops = grown_attribute_ops [OF g]
  show ?thesis
    using a o s g
    by (cases oper)
      (auto simp only: appending.simps op_ok.simps db_step.simps bind_eq_Some_conv split_paired_Ex prod.case
        option.inject prod.inject gatt_db_clear_def Let_def split: prod.splits
        intro: ops grown_add_service [OF g] grown_clear [OF g] grown_notify [OF g] shp
          shape_values shape_write shape_flags)
qed

end
