(* ===== verification/Gatt_Db_Props.thy ===== *)
theory Gatt_Db_Props
  imports Gatt_Db_Lookup
begin

text \<open>
  The properties of the attribute database: lookups and searches against reference definitions,
  the contents of declarations, reads and writes of stored values, requests that are answered
  later, and the places where the code and its intention part.
\<close>

section \<open>Loops over a service\<close>

lemma svc_loop_set: "(i, a) \<in> set (svc_loop sv) \<longleftrightarrow> i < unat (s_num_handles sv) \<and> svc_attr sv i = Some a"
  by (auto simp: svc_loop_def split: option.splits)

lemma svc_loop_sorted: "sorted_wrt (\<lambda>x y. fst x < fst y) (svc_loop sv)"
proof -
  have "sorted_wrt (\<lambda>x y. fst x < fst y)
      (concat (map (\<lambda>i. case svc_attr sv i of Some a \<Rightarrow> [(i, a)] | None \<Rightarrow> []) is))"
    if "sorted_wrt (<) is" for "is"
    using that by (induction "is") (auto simp: sorted_wrt_append split: option.splits)
  then show ?thesis by (simp add: svc_loop_def)
qed

lemma find_unique:
  assumes "x \<in> set xs" "P x" "\<And>y. y \<in> set xs \<Longrightarrow> P y \<Longrightarrow> y = x"
  shows "find P xs = Some x"
proof (cases "find P xs")
  case None
  with assms(1,2) show ?thesis by (simp add: find_None_iff)
next
  case (Some y)
  then have "y \<in> set xs" "P y" by (auto simp: find_Some_iff)
  with assms(3) Some show ?thesis by simp
qed

lemma takeWhile_sorted_filter:
  fixes f :: "'a \<Rightarrow> 'b::linorder"
  assumes "sorted_wrt (\<lambda>x y. f x < f y) xs"
  shows "takeWhile (\<lambda>x. \<not> e < f x) xs = filter (\<lambda>x. f x \<le> e) xs"
  using assms
proof (induction xs)
  case (Cons x xs)
  show ?case
  proof (cases "f x \<le> e")
    case False
    with Cons.prems have "filter (\<lambda>x. f x \<le> e) xs = []" by (auto simp: filter_empty_conv)
    with False show ?thesis by (simp add: not_le)
  qed (use Cons in \<open>simp add: not_less\<close>)
qed simp

lemma grown_invI: "db_grown db \<Longrightarrow> grown_inv db"
proof (induction rule: db_grown.induct)
  case (new db)
  then show ?case
    using new_db_wf [OF new]
    by (auto simp: grown_inv_def db_sorted_def db_dense_def db_next_def gatt_db_new_def gatt_db_ref_def)
next
  case (step db oper db' es)
  then show ?case by (blast intro: grown_step)
qed

lemma grown_dense:
  "grown_inv db \<Longrightarrow> svcs db s = Some sv \<Longrightarrow> svc_attr sv i = Some a \<Longrightarrow>
   unat (a_handle a) = unat (svc_start sv) + i"
  unfolding grown_inv_def db_dense_def by blast

lemma grown_handle_mono:
  assumes "grown_inv db" "svcs db s = Some sv"
  shows "sorted_wrt (\<lambda>x y. a_handle (snd x) < a_handle (snd y)) (svc_loop sv)"
proof -
  have "unat (a_handle a) = unat (svc_start sv) + i" if "(i, a) \<in> set (svc_loop sv)" for i a
    using that grown_dense [OF assms] by (simp add: svc_loop_set)
  with svc_loop_sorted [of sv] show ?thesis
    by (fastforce intro: sorted_wrt_mono_rel [rotated] simp: word_less_nat_alt)
qed

lemma grown_handle_range:
  assumes "grown_inv db" "svcs db s = Some sv" "(i, a) \<in> set (svc_loop sv)"
  shows "svc_start sv \<le> a_handle a" "unat (a_handle a) \<le> svc_end sv"
  using assms(3) grown_dense [OF assms(1,2), of i a]
  by (auto simp: svc_loop_set svc_end_def word_le_nat_alt)

text \<open>
  A database whose handles are in order: the ranges of its services ascend without overlap, and the
  handles of the attributes of a service ascend within its range.  Gaps are allowed, as they occur
  when a client stores the handles a peer reports.  A database that only grows at its end is ordered.
\<close>

definition svc_ordered :: "'c gatt_db_service \<Rightarrow> bool" where
  "svc_ordered sv \<longleftrightarrow> sorted_wrt (\<lambda>x y. a_handle (snd x) < a_handle (snd y)) (svc_loop sv) \<and>
     list_all (\<lambda>x. svc_start sv \<le> a_handle (snd x) \<and> unat (a_handle (snd x)) \<le> svc_end sv) (svc_loop sv)"

definition db_ordered :: "'c gatt_db \<Rightarrow> bool" where
  "db_ordered db \<longleftrightarrow> db_sorted db \<and> list_all (\<lambda>s. svc_ordered (the (svcs db s))) (services db)"

lemma ordered_service:
  assumes "db_wf db" "db_ordered db" "svcs db s = Some sv"
  shows "sorted_wrt (\<lambda>x y. a_handle (snd x) < a_handle (snd y)) (svc_loop sv)"
    "(i, a) \<in> set (svc_loop sv) \<Longrightarrow> svc_start sv \<le> a_handle a"
    "(i, a) \<in> set (svc_loop sv) \<Longrightarrow> unat (a_handle a) \<le> svc_end sv"
proof -
  have "s \<in> set (services db)" using assms(3) db_wf_dom [OF assms(1)] by simp
  then have "svc_ordered sv" using assms(2,3) by (auto simp: db_ordered_def list_all_iff)
  then show "sorted_wrt (\<lambda>x y. a_handle (snd x) < a_handle (snd y)) (svc_loop sv)"
    "(i, a) \<in> set (svc_loop sv) \<Longrightarrow> svc_start sv \<le> a_handle a"
    "(i, a) \<in> set (svc_loop sv) \<Longrightarrow> unat (a_handle a) \<le> svc_end sv"
    by (auto simp: svc_ordered_def list_all_iff)
qed

lemma grown_ordered: "grown_inv db \<Longrightarrow> db_ordered db"
proof -
  assume g: "grown_inv db"
  then have wf: "db_wf db" and so: "db_sorted db" by (simp_all add: grown_inv_def)
  have "svc_ordered (the (svcs db s))" if s: "s \<in> set (services db)" for s
  proof -
    obtain sv where sv: "svcs db s = Some sv" using s db_wf_dom [OF wf] by auto
    then show ?thesis using grown_handle_mono [OF g sv] grown_handle_range [OF g sv]
      by (auto simp: svc_ordered_def list_all_iff)
  qed
  with so show ?thesis by (simp add: db_ordered_def list_all_iff)
qed

text \<open>Two services of a sorted queue that hold the same handle are the same.\<close>

lemma sorted_services_disjoint:
  assumes wf: "db_wf db" and so: "db_sorted db" and "svcs db s = Some sv" "svcs db t = Some tv"
    "unat (svc_start sv) \<le> h" "h \<le> svc_end sv" "unat (svc_start tv) \<le> h" "h \<le> svc_end tv"
  shows "s = t"
proof (rule ccontr)
  assume ne: "s \<noteq> t"
  have "s \<in> set (services db)" "t \<in> set (services db)" using assms db_wf_dom [OF wf] by simp_all
  then obtain i j where ij: "i < length (services db)" "j < length (services db)"
    "services db ! i = s" "services db ! j = t" by (metis in_set_conv_nth)
  with ne have "i < j \<or> j < i" by (metis nat_neq_iff)
  with so ij assms have "svc_end sv < unat (svc_start tv) \<or> svc_end tv < unat (svc_start sv)"
    by (fastforce simp: db_sorted_def sorted_wrt_iff_nth_less)
  with assms show False by linarith
qed

lemma for_handle_nat:
  "svc_ok s sv \<Longrightarrow> find_service_for_handle sv h \<longleftrightarrow> unat (svc_start sv) \<le> unat h \<and> unat h \<le> svc_end sv"
  using svc_get_handles_nat [of s sv]
  by (cases "gatt_db_service_get_handles sv") (simp add: find_service_for_handle_def word_le_nat_alt)

lemma get_service_unique:
  assumes wf: "db_wf db" and so: "db_sorted db" and sv: "svcs db s = Some sv"
    and h: "unat (svc_start sv) \<le> unat h" "unat h \<le> svc_end sv"
  shows "gatt_db_get_service (Some db) h = Some (Some (s, 0))"
proof -
  have ok: "svc_ok t tv" if "svcs db t = Some tv" for t tv using that wf by (rule db_wf_svc [rotated])
  have "h \<noteq> 0" using h ok [OF sv] by (auto simp: svc_ok_def)
  moreover have "find (\<lambda>(s, sv). find_service_for_handle sv h) (map (\<lambda>s. (s, the (svcs db s))) (services db)) =
      Some (s, sv)"
  proof (rule find_unique)
    show "(s, sv) \<in> set (map (\<lambda>s. (s, the (svcs db s))) (services db))"
      using sv db_wf_dom [OF wf, of s] by force
    show "case (s, sv) of (s, sv) \<Rightarrow> find_service_for_handle sv h"
      using h for_handle_nat [OF ok [OF sv]] by simp
    fix y assume y: "y \<in> set (map (\<lambda>s. (s, the (svcs db s))) (services db))"
      "case y of (s, sv) \<Rightarrow> find_service_for_handle sv h"
    then obtain t tv where t: "y = (t, tv)" "svcs db t = Some tv" using db_wf_dom [OF wf] by force
    with y(2) for_handle_nat [OF ok [OF t(2)]] sorted_services_disjoint [OF wf so sv t(2)] h sv
    show "y = (s, sv)" by auto
  qed
  ultimately show ?thesis by (simp add: gatt_db_get_service_def load_services_db [OF wf])
qed

section \<open>Lookup and searches\<close>

lemma lookup_finds:
  assumes wf: "db_wf db" and ord: "db_ordered db" and p: "db_attr db p = Some a" "a_handle a = h"
  shows "gatt_db_get_attribute (Some db) h = Some (Some p)"
proof -
  obtain s i where si: "p = (s, i)" by (cases p)
  from db_attr_service [OF wf p(1)] si obtain sv where sv: "svcs db s = Some sv" "svc_ok s sv"
    "svc_attr sv i = Some a" "i < unat (s_num_handles sv)" by auto
  have ia: "(i, a) \<in> set (svc_loop sv)" using sv by (simp add: svc_loop_set)
  note so = ordered_service [OF wf ord sv(1)]
  have sorted: "db_sorted db" using ord by (simp add: db_ordered_def)
  have gs: "gatt_db_get_service (Some db) h = Some (Some (s, 0))"
    using get_service_unique [OF wf sorted sv(1)] so(2,3) [OF ia] p(2) by (simp add: word_le_nat_alt)
  from get_service_attr [OF wf gs] obtain b where b: "db_attr db (s, 0) = Some b" "a_service b = s" by auto
  have "find (\<lambda>(i, b). a_handle b = h) (svc_loop sv) = Some (i, a)"
  proof (rule find_unique [OF ia])
    show "case (i, a) of (i, b) \<Rightarrow> a_handle b = h" using p(2) by simp
    fix y assume y: "y \<in> set (svc_loop sv)" "case y of (i, b) \<Rightarrow> a_handle b = h"
    obtain m n where mn: "m < length (svc_loop sv)" "n < length (svc_loop sv)" "svc_loop sv ! m = y" "svc_loop sv ! n = (i, a)"
      using y(1) ia by (metis in_set_conv_nth)
    have "a_handle (snd y) = a_handle (snd (i, a))" using y(2) p(2) by (cases y) simp
    then have "\<not> m < n" "\<not> n < m" using so(1) mn by (force simp: sorted_wrt_iff_nth_less)+
    then show "y = (i, a)" using mn by (metis nat_neq_iff)
  qed
  with gs b sv(1) si show ?thesis by (simp add: gatt_db_get_attribute_def)
qed

lemma lookup_sound:
  assumes wf: "db_wf db"
  shows "\<exists>r. gatt_db_get_attribute (Some db) h = Some r \<and>
    (\<forall>p. r = Some p \<longrightarrow> (\<exists>a. db_attr db p = Some a \<and> a_handle a = h))"
proof (cases "\<exists>s. gatt_db_get_service (Some db) h = Some (Some s)")
  case True
  then obtain q where q: "gatt_db_get_service (Some db) h = Some (Some q)" by blast
  from get_service_attr [OF wf q] obtain b sv where
    b: "db_attr db q = Some b" "a_service b = fst q" "svcs db (fst q) = Some sv" by metis
  let ?r = "map_option (\<lambda>(i, _). (fst q, i)) (find (\<lambda>(i, b). a_handle b = h) (svc_loop sv))"
  have "gatt_db_get_attribute (Some db) h = Some ?r" using q b by (simp add: gatt_db_get_attribute_def)
  moreover have "\<exists>a. db_attr db p = Some a \<and> a_handle a = h" if "?r = Some p" for p
    using that b(3) by (auto simp: find_Some_iff db_attr_def svc_loop_set dest!: nth_mem)
  ultimately show ?thesis by blast
next
  case False
  with get_service_total [OF wf, of h] have "gatt_db_get_service (Some db) h = Some None"
    by (metis option.exhaust)
  then show ?thesis by (simp add: gatt_db_get_attribute_def)
qed

text \<open>
  C9: in every database, whatever calls it was built by, the lookup of a handle never faults and
  what it returns is an attribute that has the handle.  When the handles of the database are in
  order it finds the attribute whenever there is one, and so returns a pointer exactly when it points to
  the attribute that has the handle; a database built only by calls that take the next free handle is
  always in order.  (With explicit handles services may enclose each other and attributes may share a
  handle, and then only the first is found.)
\<close>

theorem gatt_db_lookup:
  assumes "db_reach db"
  shows "(\<exists>r. gatt_db_get_attribute (Some db) h = Some r \<and>
      (\<forall>p. r = Some p \<longrightarrow> (\<exists>a. db_attr db p = Some a \<and> a_handle a = h)) \<and>
      (db_ordered db \<longrightarrow> (\<forall>p. r = Some p \<longleftrightarrow> (\<exists>a. db_attr db p = Some a \<and> a_handle a = h)))) \<and>
    (db_grown db \<longrightarrow> db_ordered db)"
proof -
  have wf: "db_wf db" using reach_wf [OF assms] by blast
  obtain r where r: "gatt_db_get_attribute (Some db) h = Some r"
    "\<forall>p. r = Some p \<longrightarrow> (\<exists>a. db_attr db p = Some a \<and> a_handle a = h)" using lookup_sound [OF wf] by blast
  moreover have "r = Some p" if "db_ordered db" "db_attr db p = Some a" "a_handle a = h" for p a
    using lookup_finds [OF wf that] r(1) by simp
  ultimately show ?thesis using grown_ordered [OF grown_invI, of db] by blast
qed

lemma db_run_grown:
  "db_grown db \<Longrightarrow> list_all appending ops \<Longrightarrow> db_run db ops = Some db' \<Longrightarrow> db_grown db'"
  by (induction ops arbitrary: db) (auto simp: bind_eq_Some_conv split: if_splits intro: db_grown.step)

lemma example_grown: "db_grown example_db"
proof -
  have "gatt_db_new = Some (the gatt_db_new)" by (simp add: gatt_db_new_def gatt_db_ref_def)
  moreover have "list_all appending example_ops" by (simp add: example_ops_def)
  ultimately show ?thesis using db_run_grown [OF db_grown.new] example_run by blast
qed

text \<open>
  A database filled with the handles a peer reported: a service at 0x10, a characteristic whose value
  is at 0x12, and a descriptor at 0x14.
\<close>

definition reported_ops :: "nat dbop list" where
  "reported_ops =
     [Insert_service True 0x10 (BT_UUID16 0x180F) True 6,
      Insert_characteristic True 0x12 (BT_UUID16 0x2A19) 0 0x12 None None None,
      Insert_descriptor True 0x14 (BT_UUID16 0x2902) 0 None None None,
      Set_active (Some (1, 0)) True]"

definition reported_db :: "nat gatt_db" where
  "reported_db =
     \<lparr>ref_count = 1, next_handle = 0x16, services = [1], notify_list = [], next_notify_id = 0,
      svcs = [1 \<mapsto> \<lparr>s_active = True, s_claimed = False, s_num_handles = 6,
                      s_attributes = [Some (example_attr 0x10 primary_service_uuid 1 [0x0F, 0x18]),
                                      Some (example_attr 0x11 characteristic_uuid 1 [0x12, 0x12, 0, 0x19, 0x2A]),
                                      Some (example_attr 0x12 (BT_UUID16 0x2A19) 0 []),
                                      Some (example_attr 0x14 (BT_UUID16 0x2902) 0 []), None, None]\<rparr>],
      next_svc = 2\<rparr>"

lemma reported_run: "db_run (the gatt_db_new) reported_ops = Some reported_db"
  by (simp add: gatt_db_exec reported_ops_def reported_db_def example_attr_def BT_ATT_PERM_READ_def
      gatt_db_insert_characteristic_def gatt_db_insert_descriptor_def service_insert_descriptor_def
      gatt_db_get_service_def find_service_for_handle_def gatt_db_service_get_handles_def svc_start_def attr0_def)
    (simp add: fun_eq_iff)

lemma reported_reach: "db_reach reported_db"
proof -
  have "gatt_db_new = Some (the gatt_db_new)" by (simp add: gatt_db_new_def gatt_db_ref_def)
  then show ?thesis using db_run_reach [OF db_reach.new] reported_run by blast
qed

lemma reported_loop:
  "svc_loop (the (svcs reported_db 1)) =
     [(0, example_attr 0x10 primary_service_uuid 1 [0x0F, 0x18]), (1, example_attr 0x11 characteristic_uuid 1 [0x12, 0x12, 0, 0x19, 0x2A]),
      (2, example_attr 0x12 (BT_UUID16 0x2A19) 0 []), (3, example_attr 0x14 (BT_UUID16 0x2902) 0 [])]"
  unfolding reported_db_def by (simp add: svc_loop_def svc_attr_def upt_rec)

lemma reported_services: "services reported_db = [1]" "s_active (the (svcs reported_db 1))"
  "svc_start (the (svcs reported_db 1)) = 0x10" "svc_end (the (svcs reported_db 1)) = 0x15"
  by (simp_all add: reported_db_def svc_end_def svc_start_def attr0_def example_attr_def)

lemma reported_ordered: "db_ordered reported_db"
  unfolding db_ordered_def db_sorted_def svc_ordered_def reported_services list.pred_inject reported_loop
  by (simp add: example_attr_def)

text \<open>Witness of \<open>gatt_db_lookup\<close>: the descriptor behind the gap.\<close>

theorem gatt_db_lookup_witness:
  "db_reach reported_db \<and> db_ordered reported_db \<and> gatt_db_get_attribute (Some reported_db) 0x14 = Some (Some (1, 3))"
proof -
  have "db_attr reported_db (1, 3) = Some (example_attr 0x14 (BT_UUID16 0x2902) 0 [])"
    by (simp add: reported_db_def db_attr_def svc_attr_def)
  moreover have "a_handle (example_attr 0x14 (BT_UUID16 0x2902) 0 []) = 0x14" by (simp add: example_attr_def)
  moreover obtain r where "gatt_db_get_attribute (Some reported_db) 0x14 = Some r"
    "\<forall>p. r = Some p \<longleftrightarrow> (\<exists>a. db_attr reported_db p = Some a \<and> a_handle a = 0x14)"
    using gatt_db_lookup [OF reported_reach, of "0x14"] reported_ordered by auto
  ultimately show ?thesis using reported_ordered reported_reach by metis
qed

text \<open>The attributes of the active services in the order of the queue.\<close>

definition service_attributes :: "svc_ptr \<times> 'c gatt_db_service \<Rightarrow> (attr_ptr \<times> 'c gatt_db_attribute) list" where
  "service_attributes = (\<lambda>(s, sv). if s_active sv then map (\<lambda>(i, a). ((s, i), a)) (svc_loop sv) else [])"

definition active_attributes :: "'c gatt_db \<Rightarrow> (attr_ptr \<times> 'c gatt_db_attribute) list" where
  "active_attributes db = concat (map (\<lambda>s. service_attributes (s, the (svcs db s))) (services db))"

definition in_range :: "u16 \<Rightarrow> u16 \<Rightarrow> 'c gatt_db_attribute \<Rightarrow> bool" where
  "in_range st en a \<longleftrightarrow> st \<le> a_handle a \<and> a_handle a \<le> en"

lemma loop_range:
  assumes "db_wf db" "db_ordered db" "svcs db s = Some sv"
  shows "takeWhile (\<lambda>(i, a). \<not> a_handle a > en) (filter (\<lambda>(i, a). \<not> a_handle a < st) (svc_loop sv)) =
         filter (\<lambda>(i, a). in_range st en a) (svc_loop sv)"
proof -
  have "sorted_wrt (\<lambda>x y. a_handle (snd x) < a_handle (snd y)) (filter (\<lambda>(i, a). \<not> a_handle a < st) (svc_loop sv))"
    using ordered_service(1) [OF assms] by (rule sorted_wrt_filter)
  from takeWhile_sorted_filter [OF this, of en] show ?thesis
    by (simp add: case_prod_beta' in_range_def not_less conj_commute)
qed

lemma service_attributes_filter:
  "map fst (filter (\<lambda>(q, a). P a) (service_attributes (s, sv))) =
   (if s_active sv then map (\<lambda>(i, a). (s, i)) (filter (\<lambda>(i, a). P a) (svc_loop sv)) else [])"
  by (simp add: service_attributes_def filter_map o_def case_prod_beta')

lemma concat_filter_map:
  "(\<And>x. x \<in> set xs \<Longrightarrow> f x = map fst (filter P (g x))) \<Longrightarrow>
   concat (map f xs) = map fst (filter P (concat (map g xs)))"
  by (induction xs) auto

lemma active_attributes_sorted:
  assumes wf: "db_wf db" and ord: "db_ordered db"
  shows "sorted_wrt (\<lambda>x y. a_handle (snd x) < a_handle (snd y)) (active_attributes db)"
proof -
  have so: "db_sorted db" using ord by (simp add: db_ordered_def)
  let ?P = "\<lambda>x y. a_handle (snd x) < a_handle (snd y)"
  let ?f = "\<lambda>s. service_attributes (s, the (svcs db s))"
  have "sorted_wrt ?P (concat (map ?f ss))"
    if "sorted_wrt (\<lambda>s t. svc_end (the (svcs db s)) < unat (svc_start (the (svcs db t)))) ss"
      "set ss \<subseteq> set (services db)" for ss
    using that
  proof (induction ss)
    case (Cons s ss)
    then obtain sv where sv: "svcs db s = Some sv" using db_wf_dom [OF wf, of s] by auto
    have 1: "sorted_wrt ?P (?f s)"
      using ordered_service(1) [OF wf ord sv] sv
      by (auto simp: service_attributes_def sorted_wrt_map case_prod_beta)
    have 2: "?P x y" if x: "x \<in> set (?f s)" and y: "y \<in> set (?f t)" "t \<in> set ss" for x y t
    proof -
      obtain tv where tv: "svcs db t = Some tv" using Cons.prems(2) y(2) db_wf_dom [OF wf, of t] by auto
      from x sv obtain i where "(i, snd x) \<in> set (svc_loop sv)"
        by (auto simp: service_attributes_def split: if_splits)
      moreover from y tv obtain j where "(j, snd y) \<in> set (svc_loop tv)"
        by (auto simp: service_attributes_def split: if_splits)
      ultimately have "unat (a_handle (snd x)) \<le> svc_end sv" "svc_start tv \<le> a_handle (snd y)"
        using ordered_service(2,3) [OF wf ord] sv tv by blast+
      with Cons.prems(1) y(2) sv tv show ?thesis by (fastforce simp: word_less_nat_alt word_le_nat_alt)
    qed
    from Cons show ?case using 1 2 by (auto simp: sorted_wrt_append)
  qed simp
  with so show ?thesis by (simp add: active_attributes_def db_sorted_def)
qed

text \<open>
  C13: in a database whose handles are in order (the ranges of the services ascend without overlap and
  the handles of a service ascend within its range), the three searches over a handle range return exactly
  the attributes of active services with a handle in the range (and the requested type, and the
  requested value), in increasing order of their handles.  A database built only by calls that take the
  next free handle is always in order.
\<close>

theorem gatt_db_searches:
  assumes "db_reach db" "db_ordered db"
  shows "gatt_db_find_information db st en =
           Some (map fst (filter (\<lambda>(q, a). in_range st en a) (active_attributes db))) \<and>
    gatt_db_read_by_type db st en u =
      Some (map fst (filter (\<lambda>(q, a). in_range st en a \<and> uuid_eq u (a_uuid a)) (active_attributes db))) \<and>
    map_option snd (gatt_db_find_by_type_value junk db st en u val) =
      Some (map fst (filter (\<lambda>(q, a). in_range st en a \<and> uuid_eq u (a_uuid a) \<and> value_matches val a)
                       (active_attributes db))) \<and>
    sorted_wrt (\<lambda>x y. a_handle (snd x) < a_handle (snd y)) (active_attributes db)"
proof -
  have wf: "db_wf db" using reach_wf [OF assms(1)] by blast
  note ord = ordered_service [OF wf assms(2)]
  note ld = load_services_db [OF wf]
  have live: "\<exists>sv. svcs db s = Some sv" if "s \<in> set (services db)" for s
    using that db_wf_dom [OF wf] by auto
  have fi: "find_information st en (s, sv) = map fst (filter (\<lambda>(q, a). in_range st en a) (service_attributes (s, sv)))"
    if sv: "svcs db s = Some sv" for s sv
  proof -
    have "filter (\<lambda>(i, a). in_range st en a) (svc_loop sv) = []"
      if "int (unat (svc_start sv)) + int (unat (s_num_handles sv)) - 1 < int (unat st)"
    proof -
      have "0 < unat (s_num_handles sv)" using db_wf_svc [OF wf sv] by (simp add: svc_ok_def)
      with that have "svc_end sv < unat st" unfolding svc_end_def by linarith
      then show ?thesis
        by (auto simp: filter_empty_conv in_range_def word_le_nat_alt dest!: ord(3) [OF sv])
    qed
    then show ?thesis
      by (simp add: find_information_def loop_range [OF wf assms(2) sv] service_attributes_filter)
  qed
  have rt: "read_by_type st en u (s, sv) =
      map fst (filter (\<lambda>(q, a). in_range st en a \<and> uuid_eq u (a_uuid a)) (service_attributes (s, sv)))"
    if sv: "svcs db s = Some sv" for s sv
    by (simp add: read_by_type_def loop_range [OF wf assms(2) sv] service_attributes_filter)
      (simp add: case_prod_beta' conj_commute)
  have ft: "find_by_type st en u val (s, sv) =
      map fst (filter (\<lambda>(q, a). in_range st en a \<and> uuid_eq u (a_uuid a) \<and> value_matches val a)
        (service_attributes (s, sv)))" for s sv
    by (simp add: find_by_type_def service_attributes_filter)
      (simp add: in_range_def case_prod_beta' not_less)
  show ?thesis
    unfolding gatt_db_find_information_def gatt_db_read_by_type_def gatt_db_find_by_type_value_def
      active_attributes_def ld
    using active_attributes_sorted [OF wf assms(2), unfolded active_attributes_def] live
    by (auto simp: o_def Let_def intro!: concat_filter_map simp: fi rt ft)
qed

text \<open>Witness of \<open>gatt_db_searches\<close>: the handles from 0x12 on, across the gap.\<close>

theorem gatt_db_searches_witness:
  "gatt_db_find_information reported_db 0x12 0x14 = Some [(1, 2), (1, 3)]"
proof -
  have "map fst (filter (\<lambda>(q, a). in_range 0x12 0x14 a) (active_attributes reported_db)) = [(1, 2), (1, 3)]"
    by (simp add: active_attributes_def service_attributes_def in_range_def reported_services reported_loop example_attr_def
        del: One_nat_def)
  then show ?thesis using gatt_db_searches [OF reported_reach reported_ordered, of "0x12" "0x14"] by simp
qed

section \<open>Services by group type\<close>

definition decl_len :: "'c gatt_db_service \<Rightarrow> u16" where
  "decl_len sv = (case attr0 sv of Some a \<Rightarrow> a_value_len a | None \<Rightarrow> 0)"

definition group_match :: "u16 \<Rightarrow> u16 \<Rightarrow> bt_uuid_t \<Rightarrow> 'c gatt_db_service \<Rightarrow> bool" where
  "group_match st en type sv =
     (case attr0 sv of None \<Rightarrow> False
      | Some a \<Rightarrow> s_active sv \<and> uuid_eq type (a_uuid a) \<and> st \<le> a_handle a \<and> a_handle a \<le> en)"

lemma group_end: "svc_ok s sv \<Longrightarrow> attr0 sv = Some a \<Longrightarrow> a_handle a \<le> a_handle a + s_num_handles sv - 1"
  using svc_get_handles_nat [of s sv] svc_start_le_end [of s sv] svc_ok_attr0 [of s sv]
  by (auto simp: gatt_db_service_get_handles_def word_le_nat_alt)

lemma group_loop_spec:
  assumes "\<forall>(s, sv) \<in> set ss. svc_ok s sv \<and> decl_len sv \<noteq> 0" "n \<noteq> 0"
  shows "group_loop st en type n ss =
    map (\<lambda>(s, sv). (s, 0)) (takeWhile (\<lambda>(s, sv). decl_len sv = n) (filter (\<lambda>(s, sv). group_match st en type sv) ss))"
  using assms(1)
proof (induction ss)
  case (Cons x ss)
  obtain s sv where x: "x = (s, sv)" by (cases x)
  with Cons.prems have ok: "svc_ok s sv" by simp
  from svc_ok_attr0 [OF ok] obtain a where a: "attr0 sv = Some a" by blast
  have "\<not> (a_handle a + s_num_handles sv - 1 < st \<and> st \<le> a_handle a)"
    using group_end [OF ok a] by auto
  with Cons assms(2) x a show ?case
    by (auto simp: Let_def group_match_def decl_len_def not_less split: if_splits)
qed simp

lemma group_loop_0:
  assumes "\<forall>(s, sv) \<in> set ss. svc_ok s sv \<and> decl_len sv \<noteq> 0"
  shows "group_loop st en type 0 ss =
    (case filter (\<lambda>(s, sv). group_match st en type sv) ss of [] \<Rightarrow> []
     | (t, tv) # ts \<Rightarrow> map (\<lambda>(s, sv). (s, 0)) (takeWhile (\<lambda>(s, sv). decl_len sv = decl_len tv) ((t, tv) # ts)))"
  using assms
proof (induction ss)
  case (Cons x ss)
  obtain s sv where x: "x = (s, sv)" by (cases x)
  with Cons.prems have ok: "svc_ok s sv" and nz: "decl_len sv \<noteq> 0" by simp_all
  from svc_ok_attr0 [OF ok] obtain a where a: "attr0 sv = Some a" by blast
  have ge: "\<not> (a_handle a + s_num_handles sv - 1 < st \<and> st \<le> a_handle a)"
    using group_end [OF ok a] by auto
  have rest: "\<forall>(s, sv) \<in> set ss. svc_ok s sv \<and> decl_len sv \<noteq> 0" using Cons.prems by simp
  show ?case
  proof (cases "group_match st en type sv")
    case True
    with x a ge have "group_loop st en type 0 (x # ss) = (s, 0) # group_loop st en type (decl_len sv) ss"
      by (auto simp: Let_def group_match_def decl_len_def)
    with True x group_loop_spec [OF rest nz] show ?thesis by simp
  next
    case False
    with x a ge have "group_loop st en type 0 (x # ss) = group_loop st en type 0 ss"
      by (auto simp: Let_def group_match_def)
    with False x Cons.IH [OF rest] show ?thesis by simp
  qed
qed simp

text \<open>
  The search by group type returns the declarations of the active services of the type that
  start in the range, in the order of the queue, up to the first whose UUID has another length
  than the first one's (one response holds entries of one size).
\<close>

theorem gatt_db_group_type:
  assumes "db_wf db" "\<forall>s sv. svcs db s = Some sv \<longrightarrow> decl_len sv \<noteq> 0"
  shows "gatt_db_read_by_group_type db st en type = Some
    (let ms = filter (\<lambda>s. group_match st en type (the (svcs db s))) (services db)
     in map (\<lambda>s. (s, 0))
          (takeWhile (\<lambda>s. decl_len (the (svcs db s)) = decl_len (the (svcs db (hd ms)))) ms))"
proof -
  let ?ld = "\<lambda>s. (s, the (svcs db s))"
  have "\<forall>(s, sv) \<in> set (map ?ld (services db)). svc_ok s sv \<and> decl_len sv \<noteq> 0"
    using assms db_wf_dom [OF assms(1)] db_wf_svc [OF assms(1)] by auto
  note group_loop_0 [OF this, of st en type]
  also have "filter (\<lambda>(s, sv). group_match st en type sv) (map ?ld (services db)) =
      map ?ld (filter (\<lambda>s. group_match st en type (the (svcs db s))) (services db))"
    by (simp add: filter_map o_def)
  finally show ?thesis
    unfolding gatt_db_read_by_group_type_def load_services_db [OF assms(1)]
    by (auto simp: Let_def takeWhile_map o_def split: list.splits)
qed

theorem gatt_db_group_type_witness:
  "gatt_db_read_by_group_type example_db 1 0xFFFF primary_service_uuid = Some [(1, 0)]"
proof -
  have wf: "db_wf example_db" using grown_invI [OF example_grown] by (simp add: grown_inv_def)
  have "\<forall>s sv. svcs example_db s = Some sv \<longrightarrow> decl_len sv \<noteq> 0"
    by (simp add: example_db_def decl_len_def attr0_def example_attr_def split: if_splits)
  from gatt_db_group_type [OF wf this, of 1 "0xFFFF" primary_service_uuid] show ?thesis
    by (simp add: example_db_def group_match_def decl_len_def attr0_def example_attr_def uuid_eq_def
        uuid_cmp_memcmp primary_service_uuid_def memcmp_0_iff)
qed

section \<open>Declarations\<close>

lemma le_to_uuid_to_le:
  assumes "uuid_to_le u = Some le"
  shows "\<exists>v. le_to_uuid le (length le) = Some v \<and> (uuid_ok u \<longrightarrow> uuid_ok v \<and> uuid_bytes v = uuid_bytes u)"
proof (cases u)
  case (BT_UUID16 v)
  with assms show ?thesis by (auto simp: uuid_to_le_def le_to_uuid_def bt_uuid16_create_def)
next
  case (BT_UUID32 v)
  with assms show ?thesis
    by (auto simp: uuid_to_le_def le_to_uuid_def bt_uuid128_create_def bt_uuid_to_uuid128_def uuid32_bytes
        uuid_bytes_short)
next
  case (BT_UUID128 b)
  with assms show ?thesis
    by (auto simp: uuid_to_le_def le_to_uuid_def bt_uuid128_create_def bt_uuid_to_uuid128_def uuid_bytes_short)
qed (use assms in \<open>simp add: uuid_to_le_def bt_uuid_to_uuid128_def\<close>)

lemma uuid_to_le_length: "uuid_to_le u = Some le \<Longrightarrow> length le = 2 \<or> length le = 16"
  by (cases u) (auto simp: uuid_to_le_def bt_uuid_to_uuid128_def uuid16_bytes uuid32_bytes)

text \<open>
  The declaration of a new service reads back as it was asked for: its first and last handle,
  its kind, and a UUID equal to the given one.
\<close>

theorem service_data_roundtrip:
  assumes "db_wf db" "uuid_ok u"
    "gatt_db_insert_service mem (Some db) h u primary n = Some (Some p, Some db')" "svcs db (fst p) = None"
  shows "\<exists>v. gatt_db_attribute_get_service_data db' (Some p) = Some (Some (h, h + n - 1, primary, Some v)) \<and>
             bt_uuid_cmp u v = Some 0"
  using assms(1,2) assms(3) [symmetric]
proof (cases rule: insert_service_cases)
  case (added after sv)
  have p: "p = (next_svc db, 0)" "db' = added_db db after sv h n" using added(1) by simp_all
  let ?type = "if primary then primary_service_uuid else secondary_service_uuid"
  from added(2) obtain le a where le: "uuid_to_le u = Some le" and
    a: "new_attribute mem (next_svc db) h ?type le = Some a" and
    sv: "s_attributes sv = Some (set_attribute_data a None None BT_ATT_PERM_READ None) # replicate (unat n - 1) None"
    by (auto simp: gatt_db_service_create_def bind_eq_Some_conv Let_def split: if_splits option.splits)
  note len = uuid_to_le_length [OF le]
  have val: "a_value a = Some le" "a_value_len a = of_nat (length le)" "a_uuid a = ?type" "a_handle a = h"
    "a_service a = next_svc db"
    using new_attribute_value [OF a] new_attribute_props [OF a] len by auto
  from le_to_uuid_to_le [OF le] assms(2) obtain v where
    v: "le_to_uuid le (length le) = Some v" "uuid_ok v" "uuid_bytes v = uuid_bytes u" by blast
  have "unat (of_nat (length le) :: u16) = length le" using len by (auto simp: unat_of_nat_less)
  moreover have "uuid_eq ?type secondary_service_uuid = (\<not> primary)"
    by (simp add: uuid_eq_def uuid_cmp_0_iff primary_service_uuid_def secondary_service_uuid_def uuid_bytes_short)
  ultimately have "gatt_db_attribute_get_service_data db' (Some p) = Some (Some (h, h + n - 1, primary, Some v))"
    using val v(1)
    by (simp add: gatt_db_attribute_get_service_data_def p added_db_def db_attr_def svc_attr_def attr0_def
        sv gatt_db_service_get_handles_def svc_start_def)
  moreover have "bt_uuid_cmp u v = Some 0" using v assms(2) by (simp add: uuid_cmp_0_iff)
  ultimately show ?thesis by blast
qed (use assms in auto)

theorem service_data_roundtrip_witness:
  "\<exists>p db' v. gatt_db_insert_service True (Some example_db) 0x20 (BT_UUID32 0x1234) False 3 = Some (Some p, Some db') \<and>
     gatt_db_attribute_get_service_data db' (Some p) = Some (Some (0x20, 0x20 + 3 - 1, False, Some v)) \<and>
     bt_uuid_cmp (BT_UUID32 0x1234) v = Some 0"
proof -
  have wf: "db_wf example_db" using grown_invI [OF example_grown] by (simp add: grown_inv_def)
  have "\<exists>db'. gatt_db_insert_service True (Some example_db) 0x20 (BT_UUID32 0x1234) False 3 = Some (Some (2, 0), Some db')"
    by (simp add: example_db_def gatt_db_exec example_attr_def gatt_db_service_get_handles_def svc_start_def
        attr0_def bt_uuid_to_uuid128_def uuid32_bytes)
  then obtain db' where
    db': "gatt_db_insert_service True (Some example_db) 0x20 (BT_UUID32 0x1234) False 3 = Some (Some (2, 0), Some db')"
    by blast
  have "svcs example_db (fst (2, 0 :: nat)) = None" by (simp add: example_db_def)
  from service_data_roundtrip [OF wf _ db' this] db' show ?thesis by auto
qed

text \<open>The slot behind a service's last attribute and all after it are free.\<close>

lemma slots_above: "svc_ok s sv \<Longrightarrow> svc_attr sv i = None \<Longrightarrow> i \<le> j \<Longrightarrow> svc_attr sv j = None"
  unfolding svc_ok_def by (metis option.exhaust)

lemma uuid_eq_characteristic [simp]: "uuid_eq characteristic_uuid characteristic_uuid"
  by (simp add: uuid_eq_def uuid_cmp_0_iff characteristic_uuid_def)

lemma uuid_eq_included [simp]: "uuid_eq included_service_uuid included_service_uuid"
  by (simp add: uuid_eq_def uuid_cmp_0_iff included_service_uuid_def)

text \<open>
  C23: a new characteristic reads back as it was asked for: the declaration, one slot before the
  value that is returned, has the handle before the value's handle, and its data are that value
  handle, the given properties, no extended properties yet and a UUID equal to the given one; the
  value has the given type, permissions and callbacks.
\<close>

theorem char_data_roundtrip:
  assumes "db_wf db" "uuid_ok u" "db_attr db x = Some c"
    "gatt_db_service_add_characteristic mem db (Some x) u perms pr rf w ud = Some (Some p, db')"
  shows "\<exists>a d v es. db_attr db' p = Some a \<and> a_uuid a = u \<and> a_permissions a = perms \<and> a_read_func a = rf \<and>
    a_write_func a = w \<and> d = (fst p, snd p - 1) \<and>
    gatt_db_attribute_get_char_data tid cb cud db' (Some d) =
      Some (Some (a_handle a - 1, a_handle a, pr, 0, Some v), db', es) \<and> bt_uuid_cmp u v = Some 0"
proof -
  from db_attr_service [OF assms(1,3)] obtain sv where cs: "a_service c = fst x" and
    sv: "svcs db (fst x) = Some sv" and ok: "svc_ok (fst x) sv" by blast
  let ?s = "fst x"
  have r: "service_insert_characteristic mem db ?s 0 u perms pr rf w ud = Some (Some p, db')"
    using assms(3,4) cs by (simp add: gatt_db_service_add_characteristic_def)
  from assms(1) sv r show ?thesis
  proof (cases rule: insert_characteristic_cases)
    case (added i b d a le vh)
    let ?d = "set_attribute_data d None None BT_ATT_PERM_READ None" and ?a = "set_attribute_data a rf w perms ud"
    let ?sv = "sv\<lparr>s_attributes := (s_attributes sv)[i := Some ?d, i + 1 := Some ?a]\<rparr>"
    have len: "i + 1 < length (s_attributes sv)" using ok added(3) by (simp add: svc_ok_def)
    have at: "svc_attr ?sv j = (if j = i + 1 then Some ?a else if j = i then Some ?d else svc_attr sv j)" for j
      using len by (auto simp: svc_attr_def nth_list_update)
    have db': "svcs db' ?s = Some ?sv" using added(10) by simp
    have p: "p = (?s, i + 1)" using added(1) by simp
    have da: "db_attr db' (?s, i + 1) = Some ?a" "db_attr db' (?s, i) = Some ?d"
      unfolding db_attr_def fst_conv snd_conv db' by (simp_all add: at del: One_nat_def add_Suc_right)
    note le = uuid_to_le_length [OF added(7)]
    have val: "a_value d = Some ([pr] @ put_le16 vh @ le)" "a_value_len d = of_nat (3 + length le)"
      "a_uuid d = characteristic_uuid" "a_handle d = vh - 1" "a_service d = ?s" "a_handle a = vh" "a_uuid a = u"
      using new_attribute_value [OF added(8)] new_attribute_props [OF added(8)]
        new_attribute_props [OF added(9)] le by auto
    have none: "svc_attr ?sv j = None" if "i + 2 \<le> j" for j
      using slots_above [OF ok added(5), of j] that by (simp add: at del: One_nat_def)
    then have "filter (\<lambda>(j, b). i + 2 \<le> j) (svc_loop ?sv) = []"
      by (auto simp: filter_empty_conv svc_loop_set simp del: svc_attr_update)
    then have desc: "gatt_db_service_foreach_desc db' (Some (?s, i)) (Some cb) = Some []"
      using da(2) db' val added(3) by (simp add: gatt_db_service_foreach_desc_def Let_def)
    then have ext: "get_char_extended_prop tid cb cud db' (Some (?s, i)) = Some (0, db', [])"
      using da(2) val by (simp add: get_char_extended_prop_def)
    from le_to_uuid_to_le [OF added(7)] assms(2) obtain v where
      v: "le_to_uuid le (length le) = Some v" "uuid_ok v" "uuid_bytes v = uuid_bytes u" by blast
    have "unat (of_nat (3 + length le) :: u16) = 3 + length le" using le by (auto simp: unat_of_nat_less)
    moreover have "(of_nat (3 + length le) :: u16) = 5 \<or> (of_nat (3 + length le) :: u16) = 19" using le by auto
    ultimately have "gatt_db_attribute_get_char_data tid cb cud db' (Some (?s, i)) =
        Some (Some (vh - 1, vh, pr, 0, Some v), db', [])"
      using da(2) val v(1) ext by (auto simp: gatt_db_attribute_get_char_data_def numeral_3_eq_3)
    moreover have "bt_uuid_cmp u v = Some 0" using v assms(2) by (simp add: uuid_cmp_0_iff)
    ultimately show ?thesis using da(1) p val by (auto simp del: svc_attr_update)
  qed simp
qed

text \<open>A database with one service of four handles and nothing in it.\<close>

definition example_service_db :: "nat gatt_db" where
  "example_service_db =
     \<lparr>ref_count = 1, next_handle = 5, services = [1], notify_list = [], next_notify_id = 0,
      svcs = [1 \<mapsto> \<lparr>s_active = False, s_claimed = False, s_num_handles = 4,
                      s_attributes = [Some (example_attr 1 primary_service_uuid 1 [0x00, 0x18]),
                                      None, None, None]\<rparr>],
      next_svc = 2\<rparr>"

lemma example_service_grown: "db_grown example_service_db"
proof -
  have "gatt_db_new = Some (the gatt_db_new)" by (simp add: gatt_db_new_def gatt_db_ref_def)
  moreover have "db_run (the gatt_db_new) [Add_service True (BT_UUID16 0x1800) True 4] = Some example_service_db"
    by (simp add: gatt_db_exec example_service_db_def example_attr_def BT_ATT_PERM_READ_def)
      (simp add: fun_eq_iff)
  moreover have "list_all appending [Add_service True (BT_UUID16 0x1800) True 4]" by simp
  ultimately show ?thesis using db_run_grown [OF db_grown.new] by blast
qed

lemma example_service_wf: "db_wf example_service_db"
  using grown_invI [OF example_service_grown] by (simp add: grown_inv_def)

theorem char_data_roundtrip_witness:
  "\<exists>db' a v es. gatt_db_service_add_characteristic True example_service_db (Some (1, 0)) (BT_UUID16 0x2A00) 3 2
       None None None = Some (Some (1, 2), db') \<and>
     db_attr db' (1, 2) = Some a \<and>
     gatt_db_attribute_get_char_data 1 0 0 db' (Some (1, 1)) =
       Some (Some (a_handle a - 1, a_handle a, 2, 0, Some v), db', es) \<and>
     bt_uuid_cmp (BT_UUID16 0x2A00) v = Some 0"
proof -
  have "\<exists>db'. gatt_db_service_add_characteristic True example_service_db (Some (1, 0)) (BT_UUID16 0x2A00) 3 2
       None None None = Some (Some (1, 2), db')"
    by (simp add: example_service_db_def gatt_db_exec example_attr_def)
  then obtain db' where db': "gatt_db_service_add_characteristic True example_service_db (Some (1, 0))
      (BT_UUID16 0x2A00) 3 2 None None None = Some (Some (1, 2), db')" by blast
  have "db_attr example_service_db (1, 0) = Some (example_attr 1 primary_service_uuid 1 [0x00, 0x18])"
    by (simp add: example_service_db_def db_attr_def svc_attr_def)
  from char_data_roundtrip [OF example_service_wf _ this db', of 1 0 0] db' show ?thesis by auto
qed

text \<open>
  An include declaration reads back the range of the service it includes, and its handle is
  the one behind the attribute before it, whatever handle was asked for.
\<close>

theorem incl_data_roundtrip:
  assumes "db_wf db" "db_attr db x = Some c" "db_attr db q = Some iq" "svcs db (fst q) = Some isv"
    "gatt_db_service_insert_included mem db (Some x) h (Some q) = Some (Some p, db')"
  shows "\<exists>b. db_attr db (fst p, snd p - 1) = Some b \<and>
    gatt_db_attribute_get_incl_data db' (Some p) =
      Some (Some (a_handle b + 1, svc_start isv, svc_start isv + s_num_handles isv - 1))"
proof -
  from db_attr_service [OF assms(1,2)] obtain sv where cs: "a_service c = fst x" and
    sv: "svcs db (fst x) = Some sv" and ok: "svc_ok (fst x) sv" by blast
  let ?s = "fst x"
  have r: "service_insert_included mem db ?s h q = Some (Some p, db')"
    using assms(2,5) cs by (simp add: gatt_db_service_insert_included_def split: if_splits)
  from assms(1) sv r show ?thesis
  proof (cases rule: insert_included_cases)
    case (added i b a iq' isv' c' k u)
    have iq: "iq' = iq" "a_service iq = fst q" using added(6) assms(3) db_attr_ok [OF assms(1,3)]
      by (simp_all add: attr_ok_def)
    with added(7) assms(4) have isv: "isv' = isv" by simp
    have start: "a_handle c' = svc_start isv"
      using added(8) isv by (simp add: svc_start_def)
    let ?val = "put_le16 (svc_start isv) @ put_le16 (svc_start isv + s_num_handles isv - 1) @ u"
    let ?a = "(set_attribute_data a None None BT_ATT_PERM_READ None)\<lparr>a_handle := a_handle b + 1\<rparr>"
    have len: "i < length (s_attributes sv)" using ok added(3) by (simp add: svc_ok_def)
    have p: "p = (?s, i)" using added(1) by simp
    have da: "db_attr db' (?s, i) = Some ?a" using added(11) len by (simp add: db_attr_def)
    have val: "a_value a = Some ?val" "a_value_len a = of_nat (4 + length u)" "a_uuid a = included_service_uuid"
      using new_attribute_value [OF added(10)] new_attribute_props [OF added(10)] added(9) isv start
      by (auto simp: put_le16_def)
    have "unat (of_nat (4 + length u) :: u16) = 4 + length u"
      by (rule unat_of_nat_less) (use added(9) in simp)
    then have "\<not> (of_nat (4 + length u) :: u16) < 4" "\<not> 6 < (of_nat (4 + length u) :: u16)"
      using added(9) by (simp_all add: word_less_nat_alt)
    moreover have "get_le16 (drop 2 ?val) = svc_start isv + s_num_handles isv - 1" by simp
    ultimately have "gatt_db_attribute_get_incl_data db' (Some p) =
        Some (Some (a_handle b + 1, svc_start isv, svc_start isv + s_num_handles isv - 1))"
      using da val p by (simp add: gatt_db_attribute_get_incl_data_def)
    moreover have "db_attr db (fst p, snd p - 1) = Some b" using added(4) sv p by (simp add: db_attr_def)
    ultimately show ?thesis by blast
  qed simp
qed

theorem incl_data_roundtrip_witness:
  "\<exists>db' b. gatt_db_service_insert_included True example_service_db (Some (1, 0)) 4 (Some (1, 0)) =
       Some (Some (1, 1), db') \<and> db_attr example_service_db (1, 1 - 1) = Some b \<and>
     gatt_db_attribute_get_incl_data db' (Some (1, 1)) = Some (Some (a_handle b + 1, 1, 1 + 4 - 1))"
proof -
  have "\<exists>db'. gatt_db_service_insert_included True example_service_db (Some (1, 0)) 4 (Some (1, 0)) =
      Some (Some (1, 1), db')"
    by (simp add: example_service_db_def gatt_db_exec example_attr_def gatt_db_service_insert_included_def
        service_insert_included_def attr0_def svc_start_def attribute_update_def word_le_nat_alt)
  then obtain db' where db': "gatt_db_service_insert_included True example_service_db (Some (1, 0)) 4 (Some (1, 0)) =
      Some (Some (1, 1), db')" by blast
  have a: "db_attr example_service_db (1, 0) = Some (example_attr 1 primary_service_uuid 1 [0x00, 0x18])"
    by (simp add: example_service_db_def db_attr_def svc_attr_def)
  have s: "svcs example_service_db (fst (1, 0 :: nat)) = Some \<lparr>s_active = False, s_claimed = False, s_num_handles = 4,
      s_attributes = [Some (example_attr 1 primary_service_uuid 1 [0x00, 0x18]), None, None, None]\<rparr>"
    by (simp add: example_service_db_def)
  from incl_data_roundtrip [OF example_service_wf a a s db'] db' show ?thesis
    by (auto simp: svc_start_def attr0_def example_attr_def)
qed

end
