(* ===== verification/Gatt_Db_Values.thy ===== *)
theory Gatt_Db_Values
  imports Gatt_Db_Props
begin

text \<open>
  Values of attributes: what a write stores and a read returns, requests an application answers
  later, and the places where the code of the database and its intention part.
\<close>

section \<open>Stored values\<close>

definition stored :: "'c gatt_db_attribute \<Rightarrow> bytes" where
  "stored a = take (unat (a_value_len a)) (case a_value a of Some v \<Rightarrow> v | None \<Rightarrow> [])"

lemma length_stored: "attr_ok q a \<Longrightarrow> length (stored a) = unat (a_value_len a)"
  by (cases "a_value a") (auto simp: attr_ok_def stored_def)

text \<open>The bytes a store leaves: the old ones, the new ones over them, and junk in a gap.\<close>

definition written :: "(nat \<Rightarrow> u8) \<Rightarrow> bytes \<Rightarrow> nat \<Rightarrow> bytes \<Rightarrow> bytes" where
  "written junk old off val =
     take off old @ (if old = [] then replicate off 0 else map junk [length old..<off]) @ val @
     drop (off + length val) old"

lemma upt_add_diff [simp]: "[n..<n + (m - n)] = [n..<m]"
  by (cases "n \<le> m") auto

lemma store_value_stored:
  assumes ok: "attr_ok q a" and val: "val \<noteq> []" and fit: "off + length val < 65536"
    and len: "a_value a \<noteq> None \<Longrightarrow> length (the (a_value a)) = unat (a_value_len a)"
  shows "\<exists>a'. store_value junk a off val = Some a' \<and> attr_ok q a' \<and> a_handle a' = a_handle a \<and>
    a_read_func a' = a_read_func a \<and> a_write_func a' = a_write_func a \<and>
    (a_value a' \<noteq> None \<longrightarrow> length (the (a_value a')) = unat (a_value_len a')) \<and>
    stored a' = written junk (stored a) off val"
proof -
  let ?old = "case a_value a of Some v \<Rightarrow> v | None \<Rightarrow> []"
  have old: "length ?old = unat (a_value_len a)" "stored a = ?old"
    using ok len by (cases "a_value a"; simp add: attr_ok_def stored_def)+
  from store_value_ok [OF ok val, of junk off] obtain a' where
    a': "store_value junk a off val = Some a'" "attr_ok q a'" "a_handle a' = a_handle a" by blast
  show ?thesis
  proof (cases "a_value a = None \<or> off \<ge> unat (a_value_len a) \<or> length val > unat (a_value_len a) - off")
    case True
    define buf where "buf = realloc_bytes junk ?old (length val + off)"
    define buf' where "buf' = (if a_value_len a = 0 then replicate off 0 @ drop off buf else buf)"
    have lb: "length buf' = length val + off" by (simp add: buf_def buf'_def)
    have a2: "a' = a\<lparr>a_value := Some (take off buf' @ val), a_value_len := of_nat (length val + off)\<rparr>"
      using True a'(1) lb
      by (auto simp: store_value_def Let_def buf_def [symmetric] buf'_def [symmetric] buf_write_def)
    have un: "unat (of_nat (length val + off) :: u16) = length val + off"
      by (rule unat_of_nat_less) (use fit in simp)
    have "take off buf' = take off ?old @ (if ?old = [] then replicate off 0 else map junk [length ?old..<off])"
      using old by (auto simp: buf'_def buf_def realloc_bytes_def take_map min_def unat_eq_0 [symmetric]
          simp del: unat_eq_0)
    moreover have "drop (off + length val) ?old = []" using True old by (cases "a_value a") auto
    moreover have "stored a' = take off buf' @ val"
      using lb by (simp add: stored_def a2 un [simplified])
    ultimately have "stored a' = written junk (stored a) off val"
      unfolding old(2) by (simp add: written_def)
    with a' a2 un [simplified] lb show ?thesis by simp
  next
    case False
    then obtain b where b: "a_value a = Some b" by auto
    have le: "off + length val \<le> length b" using False b old by auto
    then have a2: "a' = a\<lparr>a_value := Some (take off b @ val @ drop (off + length val) b)\<rparr>"
      using False b a'(1) by (simp add: store_value_def buf_write_def)
    have "stored a' = written junk (stored a) off val"
      using le old(1) b val unfolding old(2) by (auto simp: stored_def a2 written_def)
    with a' a2 b le old(1) show ?thesis by simp
  qed
qed

lemma read_stored:
  assumes "attr_ok q a" "a_read_func a = None" "off < a_value_len a" "db_attr db q = Some a"
  shows "gatt_db_attribute_read tid db (Some q) off opc att (Some f) ud =
    Some (True, db, [Read_done f q 0 (Some (drop (unat off) (stored a))) ud])"
proof -
  have "\<not> a_value_len a < off" "off \<noteq> a_value_len a" using assms(3) by auto
  moreover obtain v where "a_value a = Some v"
    using assms(1,3) by (cases "a_value a") (auto simp: attr_ok_def)
  ultimately show ?thesis
    by (simp add: gatt_db_attribute_read_def assms(2,4) stored_def drop_take)
qed

text \<open>
  C24: a write to a value kept in the database succeeds, changes no other attribute, and a read at
  the same offset returns the written bytes and behind them what was stored there before.
\<close>

theorem write_read_roundtrip:
  assumes "db_wf db" "db_attr db q = Some a" "a_read_func a = None" "a_write_func a = None"
    "a_value a \<noteq> None \<Longrightarrow> length (the (a_value a)) = unat (a_value_len a)"
    "val \<noteq> []" "unat off + length val < 65536"
  shows "\<exists>db'. gatt_db_attribute_write True junk tid db (Some q) off val opc att (Some f) ud =
      Some (True, db', [Write_done f q 0 ud]) \<and>
    gatt_db_attribute_read tid' db' (Some q) off opc' att' (Some g) ud' =
      Some (True, db', [Read_done g q 0 (Some (val @ drop (unat off + length val) (stored a))) ud']) \<and>
    (\<forall>r. r \<noteq> q \<longrightarrow> db_attr db' r = db_attr db r)"
proof -
  have ok: "attr_ok q a" using db_attr_ok [OF assms(1,2)] .
  from store_value_stored [OF ok assms(6,7,5)] obtain a' where
    a': "store_value junk a (unat off) val = Some a'" "attr_ok q a'" "a_handle a' = a_handle a"
      "a_read_func a' = None" "stored a' = written junk (stored a) (unat off) val"
    using assms(3) by auto
  from put_attr_wf [OF assms(1,2) a'(2,3)] obtain db' where db': "put_attr db q a' = Some db'" by blast
  have "gatt_db_attribute_write True junk tid db (Some q) off val opc att (Some f) ud =
      Some (True, db', [Write_done f q 0 ud])"
    using assms(2,4,6) a'(1) db' by (simp add: gatt_db_attribute_write_def)
  note w = this
  have at: "db_attr db' r = (if r = q then Some a' else db_attr db r)" for r
    using db_attr_put [OF db'] .
  define pre where "pre = take (unat off) (stored a) @
      (if stored a = [] then replicate (unat off) 0 else map junk [length (stored a)..<unat off])"
  have "length pre = unat off" by (auto simp: pre_def min_def)
  moreover have "stored a' = pre @ val @ drop (unat off + length val) (stored a)"
    by (simp add: a'(5) written_def pre_def)
  ultimately have st: "drop (unat off) (stored a') = val @ drop (unat off + length val) (stored a)" by simp
  have "length (stored a') > unat off" using st assms(6) by (cases "unat off < length (stored a')") auto
  then have "off < a_value_len a'" using length_stored [OF a'(2)] by (simp add: word_less_nat_alt)
  from read_stored [OF a'(2,4) this] at st have
    "gatt_db_attribute_read tid' db' (Some q) off opc' att' (Some g) ud' =
      Some (True, db', [Read_done g q 0 (Some (val @ drop (unat off + length val) (stored a))) ud'])" by simp
  with w at show ?thesis by (intro exI [of _ db']) simp
qed

theorem write_read_roundtrip_witness:
  "\<exists>db'. gatt_db_attribute_write True (\<lambda>_. 0) 1 example_db (Some (1, 2)) 0 [7, 8] 0x12 None (Some 5) None =
      Some (True, db', [Write_done 5 (1, 2) 0 None]) \<and>
    gatt_db_attribute_read 1 db' (Some (1, 2)) 0 0x0A None (Some 6) None =
      Some (True, db', [Read_done 6 (1, 2) 0 (Some [7, 8]) None])"
proof -
  have wf: "db_wf example_db" using grown_invI [OF example_grown] by (simp add: grown_inv_def)
  have a: "db_attr example_db (1, 2) = Some (example_attr 3 (BT_UUID16 0x2A00) 3 [])"
    by (simp add: example_db_def db_attr_def svc_attr_def)
  from write_read_roundtrip [OF wf a, of "[7, 8]" 0 "\<lambda>_. 0" 1 "0x12" None 5 None 1 "0x0A" None 6 None]
  show ?thesis by (auto simp: example_attr_def stored_def)
qed

text \<open>
  A write behind the end of a value that is not empty leaves the bytes between the two
  uninitialised: a read from the old end returns whatever the fresh memory held.
\<close>

theorem write_gap_uninitialised:
  assumes "db_wf db" "db_attr db q = Some a" "a_read_func a = None" "a_write_func a = None"
    "a_value a = Some v" "length v = unat (a_value_len a)" "0 < a_value_len a" "a_value_len a < off"
    "val \<noteq> []" "unat off + length val < 65536"
  shows "\<exists>db'. gatt_db_attribute_write True junk tid db (Some q) off val opc att (Some f) ud =
      Some (True, db', [Write_done f q 0 ud]) \<and>
    gatt_db_attribute_read tid' db' (Some q) (a_value_len a) opc' att' (Some g) ud' =
      Some (True, db', [Read_done g q 0 (Some (map junk [length v..<unat off] @ val)) ud'])"
proof -
  have ok: "attr_ok q a" using db_attr_ok [OF assms(1,2)] .
  have v: "length (the (a_value a)) = unat (a_value_len a)" using assms(5,6) by simp
  have s: "stored a = v" "v \<noteq> []" "length v \<le> unat off"
    using assms(5-8) by (auto simp: stored_def word_less_nat_alt)
  from store_value_stored [OF ok assms(9,10) v, of junk] obtain a' where
    a': "store_value junk a (unat off) val = Some a'" "attr_ok q a'" "a_handle a' = a_handle a"
      "a_read_func a' = None" "stored a' = written junk v (unat off) val"
    using assms(3) s(1) by auto
  from put_attr_wf [OF assms(1,2) a'(2,3)] obtain db' where db': "put_attr db q a' = Some db'" by blast
  have w: "gatt_db_attribute_write True junk tid db (Some q) off val opc att (Some f) ud =
      Some (True, db', [Write_done f q 0 ud])"
    using assms(2,4,9) a'(1) db' by (simp add: gatt_db_attribute_write_def)
  have at: "db_attr db' q = Some a'" using db_attr_put [OF db'] by simp
  have st: "stored a' = v @ map junk [length v..<unat off] @ val"
    using s by (simp add: a'(5) written_def)
  have "unat (a_value_len a) < length (stored a')"
    using st assms(6,9) by simp
  then have "a_value_len a < a_value_len a'" using length_stored [OF a'(2)] by (simp add: word_less_nat_alt)
  from read_stored [OF a'(2,4) this at] have
    "gatt_db_attribute_read tid' db' (Some q) (a_value_len a) opc' att' (Some g) ud' =
      Some (True, db', [Read_done g q 0 (Some (drop (length v) (stored a'))) ud'])"
    using assms(6) by simp
  with w st show ?thesis by (intro exI [of _ db']) simp
qed

theorem write_gap_uninitialised_witness:
  "\<exists>db'. gatt_db_attribute_write True (\<lambda>_. 0xAA) 1 example_db (Some (1, 0)) 4 [7] 0x12 None (Some 5) None =
      Some (True, db', [Write_done 5 (1, 0) 0 None]) \<and>
    gatt_db_attribute_read 1 db' (Some (1, 0)) 2 0x0A None (Some 6) None =
      Some (True, db', [Read_done 6 (1, 0) 0 (Some [0xAA, 0xAA, 7]) None])"
proof -
  have wf: "db_wf example_db" using grown_invI [OF example_grown] by (simp add: grown_inv_def)
  have a: "db_attr example_db (1, 0) = Some (example_attr 1 primary_service_uuid 1 [0x00, 0x18])"
    by (simp add: example_db_def db_attr_def svc_attr_def)
  from write_gap_uninitialised [OF wf a, of "[0x00, 0x18]" 4 "[7]" "\<lambda>_. 0xAA" 1 "0x12" None 5 None 1 "0x0A" None 6 None]
  show ?thesis by (auto simp: example_attr_def upt_rec)
qed

section \<open>Requests that are answered later\<close>

lemma find_pending_append:
  "\<forall>p \<in> set ps. p_id p \<noteq> i \<Longrightarrow> p_id p' = i \<Longrightarrow>
   find (\<lambda>p. find_pending p i) (ps @ [p']) = Some p' \<and> remove_first (\<lambda>p. find_pending p i) (ps @ [p']) = ps"
  by (induction ps) (auto simp: find_pending_def)

text \<open>
  A read of an attribute with a read function is handed to that function with a new
  identifier and reported exactly once: the answer with the identifier stops the timer and calls
  the reader with the error and the data of the answer, a second answer finds no request, and the
  requests that were pending before are still pending.
\<close>

theorem pending_read_once:
  assumes "db_wf db" "db_attr db q = Some a" "a_read_func a = Some rf"
    "i = a_read_id a + 1" "i \<noteq> 0" "\<forall>p \<in> set (a_pending_reads a). p_id p \<noteq> i"
  shows "\<exists>db1 db2. gatt_db_attribute_read tid db (Some q) off opc att (Some f) ud =
      Some (True, db1, [Read_func rf q i off opc att (a_user_data a)]) \<and>
    gatt_db_attribute_read_result db1 (Some q) i err val =
      Some (True, db2, (if tid > 0 then [Timeout_remove tid] else []) @ [Read_done f q err val ud]) \<and>
    map_option a_pending_reads (db_attr db2 q) = Some (a_pending_reads a) \<and>
    gatt_db_attribute_read_result db2 (Some q) i err' val' = Some (False, db2, [])"
proof -
  let ?p = "\<lparr>p_attrib = q, p_id = i, p_timeout_id = tid, p_func = f, p_user_data = ud\<rparr>"
  let ?a = "a\<lparr>a_read_id := i, a_pending_reads := a_pending_reads a @ [?p]\<rparr>"
  have ok: "attr_ok q a" using db_attr_ok [OF assms(1,2)] .
  then have ok1: "attr_ok q ?a" by (auto simp: attr_ok_def split: option.splits)
  obtain db1 where 1: "put_attr db q ?a = Some db1" "db_wf db1"
    using put_attr_wf [OF assms(1,2) ok1] by auto
  have at1: "db_attr db1 q = Some ?a" using db_attr_put [OF 1(1)] by simp
  note fp = find_pending_append [OF assms(6), of ?p, simplified]
  let ?b = "?a\<lparr>a_pending_reads := a_pending_reads a\<rparr>"
  have ok2: "attr_ok q ?b" using ok by (auto simp: attr_ok_def split: option.splits)
  obtain db2 where 2: "put_attr db1 q ?b = Some db2"
    using put_attr_wf [OF 1(2) at1 ok2] by auto
  have at2: "db_attr db2 q = Some ?b" using db_attr_put [OF 2] by simp
  have "gatt_db_attribute_read tid db (Some q) off opc att (Some f) ud =
      Some (True, db1, [Read_func rf q i off opc att (a_user_data a)])"
    using assms(2,3,4) 1(1) by (simp add: gatt_db_attribute_read_def Let_def)
  moreover have "gatt_db_attribute_read_result db1 (Some q) i err val =
      Some (True, db2, (if tid > 0 then [Timeout_remove tid] else []) @ [Read_done f q err val ud])"
    using at1 fp 2 assms(5)
    by (simp add: gatt_db_attribute_read_result_def pending_read_result_def timeout_event_def)
  moreover have "gatt_db_attribute_read_result db2 (Some q) i err' val' = Some (False, db2, [])"
    using at2 assms(5,6) find_None_iff [of "\<lambda>p. find_pending p i" "a_pending_reads a"]
    by (simp add: gatt_db_attribute_read_result_def find_pending_def)
  ultimately show ?thesis using at2 by (intro exI [of _ db1] exI [of _ db2]) simp
qed

definition example_read_db :: "nat gatt_db" where
  "example_read_db =
     \<lparr>ref_count = 1, next_handle = 5, services = [1], notify_list = [], next_notify_id = 0,
      svcs = [1 \<mapsto> \<lparr>s_active = False, s_claimed = False, s_num_handles = 4,
                      s_attributes = [Some (example_attr 1 primary_service_uuid 1 [0x00, 0x18]),
                                      Some (example_attr 2 characteristic_uuid 1 [2, 3, 0, 0x00, 0x2A]),
                                      Some ((example_attr 3 (BT_UUID16 0x2A00) 3 [])\<lparr>a_read_func := Some 9\<rparr>),
                                      None]\<rparr>],
      next_svc = 2\<rparr>"

lemma example_read_wf: "db_wf example_read_db"
proof -
  have "gatt_db_new = Some (the gatt_db_new)" by (simp add: gatt_db_new_def gatt_db_ref_def)
  moreover have "db_run (the gatt_db_new) [Add_service True (BT_UUID16 0x1800) True 4,
      Add_characteristic True (Some (1, 0)) (BT_UUID16 0x2A00) 3 2 (Some 9) None None] = Some example_read_db"
    by (simp add: gatt_db_exec example_read_db_def example_attr_def BT_ATT_PERM_READ_def)
      (simp add: fun_eq_iff)
  moreover have "list_all appending [Add_service True (BT_UUID16 0x1800) True 4,
      Add_characteristic True (Some (1, 0)) (BT_UUID16 0x2A00) 3 2 (Some (9 :: nat)) None None]" by simp
  ultimately have "db_grown example_read_db" using db_run_grown [OF db_grown.new] by blast
  from grown_invI [OF this] show ?thesis by (simp add: grown_inv_def)
qed

theorem pending_read_once_witness:
  "\<exists>db1 db2. gatt_db_attribute_read 8 example_read_db (Some (1, 2)) 0 0x0A None (Some 6) None =
      Some (True, db1, [Read_func 9 (1, 2) 1 0 0x0A None None]) \<and>
    gatt_db_attribute_read_result db1 (Some (1, 2)) 1 0 (Some [1, 2]) =
      Some (True, db2, [Timeout_remove 8, Read_done 6 (1, 2) 0 (Some [1, 2]) None]) \<and>
    gatt_db_attribute_read_result db2 (Some (1, 2)) 1 0 (Some [1, 2]) = Some (False, db2, [])"
proof -
  let ?a = "(example_attr 3 (BT_UUID16 0x2A00) 3 [])\<lparr>a_read_func := Some 9\<rparr>"
  have a: "db_attr example_read_db (1, 2) = Some ?a"
    by (simp add: example_read_db_def db_attr_def svc_attr_def)
  have f: "a_read_func ?a = Some 9" and i: "1 = a_read_id ?a + 1" "a_pending_reads ?a = []" "a_user_data ?a = None"
    by (simp_all add: example_attr_def)
  from pending_read_once [OF example_read_wf a f i(1), of 8 0 "0x0A" None 6 None 0 "Some [1, 2]" 0 "Some [1, 2]"] i
  show ?thesis by auto
qed

section \<open>Where the code and its intention part\<close>

text \<open>
  \<open>find_insert_loc\<close> only asks whether an end of the new range lies in an existing service: a
  range that encloses a service is accepted, and two services then hold the same handle.
\<close>

theorem insert_service_overlap:
  "\<exists>db1 db2 sv1 sv2.
     gatt_db_insert_service True (gatt_db_new :: nat gatt_db option) 5 (BT_UUID16 0x1800) True 2 =
       Some (Some (1, 0), Some db1) \<and>
     gatt_db_insert_service True (Some db1) 1 (BT_UUID16 0x1801) True 10 = Some (Some (2, 0), Some db2) \<and>
     svcs db2 1 = Some sv1 \<and> svcs db2 2 = Some sv2 \<and>
     find_service_for_handle sv1 5 \<and> find_service_for_handle sv2 5"
  by (simp add: gatt_db_exec gatt_db_service_get_handles_def svc_start_def attr0_def find_service_for_handle_def
      word_le_nat_alt word_less_nat_alt)

text \<open>
  After the database has been cleared its next handle is 0, which \<open>gatt_db_insert_service\<close>
  refuses: no service can be added any more without giving its handle.
\<close>

theorem clear_blocks_add:
  assumes "db_reach db"
  shows "\<exists>db' e. gatt_db_clear (Some db) = Some (True, Some db', e) \<and> services db' = [] \<and>
           (\<forall>mem u p n. gatt_db_add_service mem db' u p n = Some (None, Some db'))"
proof -
  note wf = reach_wf [OF assms]
  have "services (cleared_db db 1 0xFFFF) = []" by (simp add: cleared_db_def cleared_def)
  with clear_range_result [of db 1 "0xFFFF"] wf obtain e where
    "gatt_db_clear (Some db) = Some (True, Some ((cleared_db db 1 0xFFFF)\<lparr>next_handle := 0\<rparr>), e)"
    by (auto simp: gatt_db_clear_def word_le_nat_alt)
  then show ?thesis
    by (simp add: gatt_db_add_service_def gatt_db_insert_service_def cleared_db_def cleared_def)
qed

theorem clear_blocks_add_witness:
  "\<exists>db' e. gatt_db_clear (Some example_db) = Some (True, Some db', e) \<and>
     gatt_db_add_service True db' (BT_UUID16 0x1800) True 1 = Some (None, Some db')"
  using clear_blocks_add [OF example_reach] by blast

text \<open>
  A listener may register for additions only; the removal of an active service then calls its
  missing callback.
\<close>

theorem register_null_callback:
  "gatt_db_remove_service (snd (gatt_db_register (Some example_db) (Some 1) None None None)) (Some (1, 0)) = None"
  by (simp add: gatt_db_register_def gatt_db_remove_service_def example_db_def db_attr_def svc_attr_def
      example_attr_def gatt_db_service_destroy_def notify_service_changed_def handle_notify_def)

text \<open>
  A characteristic inserted at the handle behind the service's own gets its declaration at
  the service's handle: two attributes of the service have the same handle.
\<close>

theorem char_declaration_collides:
  "\<exists>db' d. gatt_db_service_insert_characteristic True example_service_db (Some (1, 0)) 2 (BT_UUID16 0x2A00) 3 2
       None None None = Some (Some (1, 2), db') \<and>
     map_option a_handle (db_attr db' (1, 0)) = Some 1 \<and>
     db_attr db' (1, 1) = Some d \<and> a_handle d = 1 \<and> a_uuid d = characteristic_uuid"
  by (simp add: gatt_db_service_insert_characteristic_def example_service_db_def gatt_db_exec example_attr_def
      svc_start_def attr0_def word_le_nat_alt)

end
