(* ===== verification/Bt_Att.thy ===== *)
theory Bt_Att
  imports Bt_Queue Bt_Uuid
begin

text \<open>
  The ATT protocol engine: \<^verbatim>\<open>src/shared/att.c\<close>.  The state of a connection is a record; its queues
  are lists (the operations \<open>Bt_Queue\<close> proves the linked queue to refine).  What the engine asks of
  the kernel and of the I/O layer is a parameter (\<open>'c att_env\<close>), and the calls it makes to functions
  it was given, the PDUs it sends, the timers it stops and the operations it frees are events of
  the result, in the order in which they happen.  Functions and data of callers are opaque values
  of type \<open>'c\<close>.  A step whose C code would write outside a buffer is \<open>None\<close>.
\<close>

section \<open>Operation types\<close>

datatype att_op_type =
    ATT_OP_TYPE_REQ | ATT_OP_TYPE_RSP | ATT_OP_TYPE_CMD | ATT_OP_TYPE_IND | ATT_OP_TYPE_NOT
  | ATT_OP_TYPE_CONF | ATT_OP_TYPE_UNKNOWN

definition BT_ATT_OP_ERROR_RSP :: u8 where "BT_ATT_OP_ERROR_RSP = 0x01"

definition BT_ATT_OP_HANDLE_VAL_CONF :: u8 where "BT_ATT_OP_HANDLE_VAL_CONF = 0x1E"

definition ATT_OP_CMD_MASK :: u8 where "ATT_OP_CMD_MASK = 0x40"

definition ATT_OP_SIGNED_MASK :: u8 where "ATT_OP_SIGNED_MASK = 0x80"

definition BT_ATT_SIGNATURE_LEN :: nat where "BT_ATT_SIGNATURE_LEN = 12"

definition BT_ATT_DEFAULT_LE_MTU :: u16 where "BT_ATT_DEFAULT_LE_MTU = 23"

definition BT_ATT_SECURITY_AUTO :: int where "BT_ATT_SECURITY_AUTO = 0"

definition BT_ATT_SECURITY_LOW :: int where "BT_ATT_SECURITY_LOW = 1"

definition BT_ATT_SECURITY_MEDIUM :: int where "BT_ATT_SECURITY_MEDIUM = 2"

definition BT_ATT_SECURITY_HIGH :: int where "BT_ATT_SECURITY_HIGH = 3"

definition BT_ATT_SECURITY_FIPS :: int where "BT_ATT_SECURITY_FIPS = 4"

definition BT_ATT_ERROR_INVALID_HANDLE :: u8 where "BT_ATT_ERROR_INVALID_HANDLE = 0x01"

definition BT_ATT_ERROR_AUTHENTICATION :: u8 where "BT_ATT_ERROR_AUTHENTICATION = 0x05"

definition BT_ATT_ERROR_REQUEST_NOT_SUPPORTED :: u8 where "BT_ATT_ERROR_REQUEST_NOT_SUPPORTED = 0x06"

definition BT_ATT_ERROR_UNLIKELY :: u8 where "BT_ATT_ERROR_UNLIKELY = 0x0E"

definition BT_ATT_ERROR_INSUFFICIENT_ENCRYPTION :: u8 where "BT_ATT_ERROR_INSUFFICIENT_ENCRYPTION = 0x0F"

definition BT_ATT_ERROR_INSUFFICIENT_RESOURCES :: u8 where "BT_ATT_ERROR_INSUFFICIENT_RESOURCES = 0x11"

definition BT_ERROR_ALREADY_IN_PROGRESS :: u8 where "BT_ERROR_ALREADY_IN_PROGRESS = 0xfe"

definition BT_ERROR_OUT_OF_RANGE :: u8 where "BT_ERROR_OUT_OF_RANGE = 0xff"

definition att_opcode_type_table :: "(u8 \<times> att_op_type) list" where
  "att_opcode_type_table =
    [(0x01, ATT_OP_TYPE_RSP), (0x02, ATT_OP_TYPE_REQ), (0x03, ATT_OP_TYPE_RSP),
     (0x04, ATT_OP_TYPE_REQ), (0x05, ATT_OP_TYPE_RSP), (0x06, ATT_OP_TYPE_REQ),
     (0x07, ATT_OP_TYPE_RSP), (0x08, ATT_OP_TYPE_REQ), (0x09, ATT_OP_TYPE_RSP),
     (0x0A, ATT_OP_TYPE_REQ), (0x0B, ATT_OP_TYPE_RSP), (0x0C, ATT_OP_TYPE_REQ),
     (0x0D, ATT_OP_TYPE_RSP), (0x0E, ATT_OP_TYPE_REQ), (0x0F, ATT_OP_TYPE_RSP),
     (0x10, ATT_OP_TYPE_REQ), (0x11, ATT_OP_TYPE_RSP), (0x12, ATT_OP_TYPE_REQ),
     (0x13, ATT_OP_TYPE_RSP), (0x52, ATT_OP_TYPE_CMD), (0xD2, ATT_OP_TYPE_CMD),
     (0x16, ATT_OP_TYPE_REQ), (0x17, ATT_OP_TYPE_RSP), (0x18, ATT_OP_TYPE_REQ),
     (0x19, ATT_OP_TYPE_RSP), (0x1B, ATT_OP_TYPE_NOT), (0x1D, ATT_OP_TYPE_IND),
     (0x1E, ATT_OP_TYPE_CONF)]"

definition get_op_type :: "u8 \<Rightarrow> att_op_type" where
  "get_op_type opcode =
     (case find (\<lambda>(o', t). o' = opcode) att_opcode_type_table of
        Some (_, t) \<Rightarrow> t
      | None \<Rightarrow> if opcode AND ATT_OP_CMD_MASK \<noteq> 0 then ATT_OP_TYPE_CMD else ATT_OP_TYPE_UNKNOWN)"

definition att_req_rsp_mapping_table :: "(u8 \<times> u8) list" where
  "att_req_rsp_mapping_table =
    [(0x02, 0x03), (0x04, 0x05), (0x06, 0x07), (0x08, 0x09), (0x0A, 0x0B), (0x0C, 0x0D),
     (0x0E, 0x0F), (0x10, 0x11), (0x12, 0x13), (0x16, 0x17), (0x18, 0x19)]"

definition get_req_opcode :: "u8 \<Rightarrow> u8" where
  "get_req_opcode rsp_opcode =
     (case find (\<lambda>(q, r). r = rsp_opcode) att_req_rsp_mapping_table of Some (q, _) \<Rightarrow> q | None \<Rightarrow> 0)"

section \<open>State\<close>

record 'c sign_info =
  sign_key :: bytes
  sign_counter :: 'c
  sign_user_data :: "'c option"

record 'c att_send_op =
  op_id :: u32
  op_timeout_id :: u32
  op_type :: att_op_type
  op_opcode :: u8
  op_pdu :: bytes
  op_callback :: "'c option"
  op_destroy :: "'c option"
  op_user_data :: "'c option"

record 'c att_notify =
  an_id :: u32
  an_opcode :: u8
  an_callback :: "'c option"
  an_destroy :: "'c option"
  an_user_data :: "'c option"

record 'c att_disconn =
  ad_id :: u32
  ad_removed :: bool
  ad_callback :: "'c option"
  ad_destroy :: "'c option"
  ad_user_data :: "'c option"

text \<open>\<open>att_io\<close> says whether \<^verbatim>\<open>att->io\<close> is not \<^verbatim>\<open>NULL\<close>, \<open>crypto\<close> the same of \<^verbatim>\<open>att->crypto\<close>.\<close>

record 'c bt_att =
  att_ref_count :: int
  att_fd :: int
  att_io :: bool
  io_on_l2cap :: bool
  io_sec_level :: int
  req_queue :: "'c att_send_op list"
  pending_req :: "'c att_send_op option"
  ind_queue :: "'c att_send_op list"
  pending_ind :: "'c att_send_op option"
  write_queue :: "'c att_send_op list"
  writer_active :: bool
  att_notify_list :: "'c att_notify list"
  disconn_list :: "'c att_disconn list"
  in_req :: bool
  att_mtu :: u16
  next_send_id :: u32
  next_reg_id :: u32
  timeout_callback :: "'c option"
  timeout_destroy :: "'c option"
  timeout_data :: "'c option"
  debug_callback :: "'c option"
  debug_destroy :: "'c option"
  debug_data :: "'c option"
  crypto :: bool
  local_sign :: "'c sign_info option"
  remote_sign :: "'c sign_info option"

text \<open>
  The environment of a step: whether \<^verbatim>\<open>malloc\<close> and \<^verbatim>\<open>io_set_write_handler\<close> succeed, the result of
  \<^verbatim>\<open>io_send\<close>, the identifier of a new timer, the result of reading the security level (\<^verbatim>\<open>-EIO\<close> when
  \<^verbatim>\<open>getsockopt\<close> fails) and of setting it, the signature function of the kernel and the counters of
  the application (which get the received counter, or an uninitialised variable for a PDU to send),
  and what a fresh buffer holds.
\<close>

record 'c att_env =
  e_mem :: bool
  e_write_handler :: bool
  e_send :: "bytes \<Rightarrow> int"
  e_timeout :: u32
  e_security :: int
  e_set_security :: bool
  e_sign :: "bytes \<Rightarrow> bytes \<Rightarrow> u32 \<Rightarrow> bytes option"
  e_counter :: "'c \<Rightarrow> 'c option \<Rightarrow> u32 option \<Rightarrow> u32 option"
  e_junk :: "nat \<Rightarrow> u8"

datatype 'c att_event =
    Att_send_pdu bytes
  | Att_shutdown
  | Att_timer_stop u32
  | Att_op_callback u32 'c u8 "bytes option" "'c option"
  | Att_op_destroy 'c "'c option"
  | Att_op_free u32
  | Att_timeout_callback 'c u32 u8 "'c option"
  | Att_notify_callback 'c u8 bytes "'c option"
  | Att_disconn_callback 'c int "'c option"
  | Att_destroy 'c "'c option"

section \<open>Operations waiting to be sent\<close>

definition call_destroy :: "'c option \<Rightarrow> 'c option \<Rightarrow> 'c att_event list" where
  "call_destroy destroy user_data = (case destroy of None \<Rightarrow> [] | Some f \<Rightarrow> [Att_destroy f user_data])"

definition destroy_att_send_op :: "'c att_send_op \<Rightarrow> 'c att_event list" where
  "destroy_att_send_op oper =
     (if op_timeout_id oper \<noteq> 0 then [Att_timer_stop (op_timeout_id oper)] else []) @
     (case op_destroy oper of None \<Rightarrow> [] | Some f \<Rightarrow> [Att_op_destroy f (op_user_data oper)]) @
     [Att_op_free (op_id oper)]"

definition cancel_att_send_op :: "'c att_send_op \<Rightarrow> 'c att_send_op \<times> 'c att_event list" where
  "cancel_att_send_op oper =
     (oper\<lparr>op_user_data := None, op_callback := None, op_destroy := None\<rparr>,
      case op_destroy oper of None \<Rightarrow> [] | Some f \<Rightarrow> [Att_op_destroy f (op_user_data oper)])"

definition destroy_att_notify :: "'c att_notify \<Rightarrow> 'c att_event list" where
  "destroy_att_notify n = call_destroy (an_destroy n) (an_user_data n)"

definition match_notify_id :: "'c att_notify \<Rightarrow> u32 \<Rightarrow> bool" where
  "match_notify_id n i \<longleftrightarrow> an_id n = i"

definition destroy_att_disconn :: "'c att_disconn \<Rightarrow> 'c att_event list" where
  "destroy_att_disconn d = call_destroy (ad_destroy d) (ad_user_data d)"

definition match_disconn_id :: "'c att_disconn \<Rightarrow> u32 \<Rightarrow> bool" where
  "match_disconn_id d i \<longleftrightarrow> ad_id d = i"

text \<open>\<^verbatim>\<open>bt_crypto_sign_att\<close> refuses a \<^verbatim>\<open>NULL\<close> crypto object; the signature is twelve bytes.\<close>

definition bt_crypto_sign_att ::
    "'c att_env \<Rightarrow> bool \<Rightarrow> bytes \<Rightarrow> bytes \<Rightarrow> u32 \<Rightarrow> bytes option" where
  "bt_crypto_sign_att env cr key msg sign_cnt =
     (if \<not> cr then None else map_option (take BT_ATT_SIGNATURE_LEN) (e_sign env key msg sign_cnt))"

text \<open>The source of a \<^verbatim>\<open>memcpy\<close> of \<open>len\<close> bytes: a fault when the object is shorter.\<close>

definition src_bytes :: "bytes option \<Rightarrow> u16 \<Rightarrow> bytes option" where
  "src_bytes pdu len =
     (if len = 0 then Some []
      else case pdu of None \<Rightarrow> None
      | Some p \<Rightarrow> if length p < unat len then None else Some (take (unat len) p))"

text \<open>
  \<open>encode_pdu\<close> returns the bytes of the PDU; the inner \<open>None\<close> is the result \<^verbatim>\<open>false\<close>.  The length is
  16 bits wide: for a long enough parameter it wraps and the copy runs over the buffer (the outer
  \<open>None\<close>).
\<close>

definition encode_pdu ::
    "'c att_env \<Rightarrow> 'c bt_att \<Rightarrow> u8 \<Rightarrow> bytes option \<Rightarrow> u16 \<Rightarrow> bytes option option" where
  "encode_pdu env att opcode pdu len =
     (let sign = local_sign att;
          signed = sign \<noteq> None \<and> opcode AND ATT_OP_SIGNED_MASK \<noteq> 0;
          pdu_len = (1 :: u16) + (if signed then of_nat BT_ATT_SIGNATURE_LEN else 0);
          pdu_len = pdu_len + (if len \<noteq> 0 \<and> pdu \<noteq> None then len else 0)
      in if pdu_len > att_mtu att then Some None
         else if \<not> e_mem env then Some None
         else do {
           let buf = map (e_junk env) [0..<unat pdu_len];
           buf \<leftarrow> buf_write buf 0 [opcode];
           buf \<leftarrow> (if pdu_len > 1 then do { p \<leftarrow> src_bytes pdu len; buf_write buf 1 p } else Some buf);
           case sign of
             None \<Rightarrow> Some (Some buf)
           | Some s \<Rightarrow>
               if \<not> signed \<or> \<not> crypto att then Some (Some buf)
               else case e_counter env (sign_counter s) (sign_user_data s) None of
                 None \<Rightarrow> Some None
               | Some sign_cnt \<Rightarrow>
                   (case bt_crypto_sign_att env (crypto att) (sign_key s) (take (1 + unat len) buf) sign_cnt of
                      None \<Rightarrow> Some None
                    | Some sig \<Rightarrow> do { buf \<leftarrow> buf_write buf (1 + unat len) sig; Some (Some buf) }) })"

definition create_att_send_op ::
    "'c att_env \<Rightarrow> 'c bt_att \<Rightarrow> u8 \<Rightarrow> bytes option \<Rightarrow> u16 \<Rightarrow> 'c option \<Rightarrow> 'c option \<Rightarrow> 'c option
       \<Rightarrow> 'c att_send_op option option" where
  "create_att_send_op env att opcode pdu len callback user_data destroy =
     (if len \<noteq> 0 \<and> pdu = None then Some None
      else let type = get_op_type opcode
        in if type = ATT_OP_TYPE_UNKNOWN then Some None
           else if callback \<noteq> None \<and> type \<noteq> ATT_OP_TYPE_REQ \<and> type \<noteq> ATT_OP_TYPE_IND then Some None
           else if callback = None \<and> (type = ATT_OP_TYPE_REQ \<or> type = ATT_OP_TYPE_IND) then Some None
           else do {
             r \<leftarrow> encode_pdu env att opcode pdu len;
             Some (map_option (\<lambda>bs. \<lparr>op_id = 0, op_timeout_id = 0, op_type = type, op_opcode = opcode,
                                     op_pdu = bs, op_callback = callback, op_destroy = destroy,
                                     op_user_data = user_data\<rparr>) r) })"

definition pick_next_send_op :: "'c bt_att \<Rightarrow> 'c att_send_op option \<times> 'c bt_att" where
  "pick_next_send_op att =
     (case write_queue att of
        oper # ops \<Rightarrow> (Some oper, att\<lparr>write_queue := ops\<rparr>)
      | [] \<Rightarrow>
          (case (pending_req att, req_queue att) of
             (None, oper # ops) \<Rightarrow> (Some oper, att\<lparr>req_queue := ops\<rparr>)
           | _ \<Rightarrow>
               (case (pending_ind att, ind_queue att) of
                  (None, oper # ops) \<Rightarrow> (Some oper, att\<lparr>ind_queue := ops\<rparr>)
                | _ \<Rightarrow> (None, att))))"

text \<open>\<open>timeout_cb\<close> of the timer started for the operation with the identifier \<open>i\<close>.\<close>

definition timeout_cb :: "'c bt_att \<Rightarrow> u32 \<Rightarrow> 'c bt_att \<times> 'c att_event list" where
  "timeout_cb att i =
     (let (found, att) =
        (case pending_req att of
           Some oper \<Rightarrow>
             if op_id oper = i then (Some oper, att\<lparr>pending_req := None\<rparr>)
             else (case pending_ind att of
                     Some ind \<Rightarrow> if op_id ind = i then (Some ind, att\<lparr>pending_ind := None\<rparr>) else (None, att)
                   | None \<Rightarrow> (None, att))
         | None \<Rightarrow>
             (case pending_ind att of
                Some ind \<Rightarrow> if op_id ind = i then (Some ind, att\<lparr>pending_ind := None\<rparr>) else (None, att)
              | None \<Rightarrow> (None, att)))
      in case found of
        None \<Rightarrow> (att, [])
      | Some oper \<Rightarrow>
          (att, (case timeout_callback att of None \<Rightarrow> []
                 | Some f \<Rightarrow> [Att_timeout_callback f (op_id oper) (op_opcode oper) (timeout_data att)]) @
                destroy_att_send_op (oper\<lparr>op_timeout_id := 0\<rparr>) @ [Att_shutdown]))"

definition write_watch_destroy :: "'c bt_att \<Rightarrow> 'c bt_att" where
  "write_watch_destroy att = att\<lparr>writer_active := False\<rparr>"

text \<open>
  The result \<^verbatim>\<open>false\<close> takes the write handler out of the main loop, which then calls
  \<^verbatim>\<open>write_watch_destroy\<close>.
\<close>

definition can_write_data :: "'c att_env \<Rightarrow> 'c bt_att \<Rightarrow> bool \<times> 'c bt_att \<times> 'c att_event list" where
  "can_write_data env att =
     (case pick_next_send_op att of
        (None, att) \<Rightarrow> (False, att, [])
      | (Some oper, att) \<Rightarrow>
          if e_send env (op_pdu oper) < 0
          then (True, att,
                (case op_callback oper of None \<Rightarrow> []
                 | Some f \<Rightarrow> [Att_op_callback (op_id oper) f BT_ATT_OP_ERROR_RSP None (op_user_data oper)]) @
                destroy_att_send_op oper)
          else (case op_type oper of
              ATT_OP_TYPE_REQ \<Rightarrow>
                (True, att\<lparr>pending_req := Some (oper\<lparr>op_timeout_id := e_timeout env\<rparr>)\<rparr>, [Att_send_pdu (op_pdu oper)])
            | ATT_OP_TYPE_IND \<Rightarrow>
                (True, att\<lparr>pending_ind := Some (oper\<lparr>op_timeout_id := e_timeout env\<rparr>)\<rparr>, [Att_send_pdu (op_pdu oper)])
            | ATT_OP_TYPE_RSP \<Rightarrow>
                (True, att\<lparr>in_req := False\<rparr>, [Att_send_pdu (op_pdu oper)] @ destroy_att_send_op oper)
            | _ \<Rightarrow> (True, att, [Att_send_pdu (op_pdu oper)] @ destroy_att_send_op oper)))"

definition wakeup_writer :: "'c att_env \<Rightarrow> 'c bt_att \<Rightarrow> 'c bt_att" where
  "wakeup_writer env att =
     (if writer_active att then att
      else if write_queue att = [] \<and> (pending_req att \<noteq> None \<or> req_queue att = []) \<and>
              (pending_ind att \<noteq> None \<or> ind_queue att = []) then att
      else if \<not> (att_io att \<and> e_write_handler env) then att
      else att\<lparr>writer_active := True\<rparr>)"

section \<open>Sending, cancelling, registering\<close>

text \<open>The identifier 0 is skipped when the counter wraps.\<close>

definition bt_att_send ::
    "'c att_env \<Rightarrow> 'c bt_att option \<Rightarrow> u8 \<Rightarrow> bytes option \<Rightarrow> u16 \<Rightarrow> 'c option \<Rightarrow> 'c option \<Rightarrow> 'c option
       \<Rightarrow> (u32 \<times> 'c bt_att option) option" where
  "bt_att_send env att opcode pdu len callback user_data destroy =
     (case att of None \<Rightarrow> Some (0, None)
      | Some t \<Rightarrow>
          if \<not> att_io t then Some (0, att)
          else do {
            r \<leftarrow> create_att_send_op env t opcode pdu len callback user_data destroy;
            case r of None \<Rightarrow> Some (0, att)
            | Some oper \<Rightarrow>
                let i = (if next_send_id t < 1 then 1 else next_send_id t);
                    oper = oper\<lparr>op_id := i\<rparr>;
                    t = t\<lparr>next_send_id := i + 1\<rparr>;
                    t = (case op_type oper of
                           ATT_OP_TYPE_REQ \<Rightarrow> t\<lparr>req_queue := req_queue t @ [oper]\<rparr>
                         | ATT_OP_TYPE_IND \<Rightarrow> t\<lparr>ind_queue := ind_queue t @ [oper]\<rparr>
                         | _ \<Rightarrow> t\<lparr>write_queue := write_queue t @ [oper]\<rparr>)
                in Some (i, Some (wakeup_writer env t)) })"

definition match_op_id :: "'c att_send_op \<Rightarrow> u32 \<Rightarrow> bool" where
  "match_op_id oper i \<longleftrightarrow> op_id oper = i"

definition has_id :: "'c att_send_op option \<Rightarrow> u32 \<Rightarrow> bool" where
  "has_id oper i = (case oper of None \<Rightarrow> False | Some x \<Rightarrow> op_id x = i)"

text \<open>\<^verbatim>\<open>queue_remove_if\<close> of one of the three queues.\<close>

definition remove_op :: "'c att_send_op list \<Rightarrow> u32 \<Rightarrow> 'c att_send_op option \<times> 'c att_send_op list" where
  "remove_op q i =
     (find (\<lambda>oper. match_op_id oper i) q, remove_first (\<lambda>oper. match_op_id oper i) q)"

definition bt_att_cancel ::
    "'c att_env \<Rightarrow> 'c bt_att option \<Rightarrow> u32 \<Rightarrow> bool \<times> 'c bt_att option \<times> 'c att_event list" where
  "bt_att_cancel env att i =
     (case att of None \<Rightarrow> (False, None, [])
      | Some t \<Rightarrow>
          if i = 0 then (False, att, [])
          else if has_id (pending_req t) i
          then let (oper, e) = cancel_att_send_op (the (pending_req t))
               in (True, Some (t\<lparr>pending_req := Some oper\<rparr>), e)
          else if has_id (pending_ind t) i
          then let (oper, e) = cancel_att_send_op (the (pending_ind t))
               in (True, Some (t\<lparr>pending_ind := Some oper\<rparr>), e)
          else case remove_op (req_queue t) i of
            (Some oper, q) \<Rightarrow>
              (True, Some (wakeup_writer env (t\<lparr>req_queue := q\<rparr>)), destroy_att_send_op oper)
          | (None, _) \<Rightarrow>
              (case remove_op (ind_queue t) i of
                 (Some oper, q) \<Rightarrow>
                   (True, Some (wakeup_writer env (t\<lparr>ind_queue := q\<rparr>)), destroy_att_send_op oper)
               | (None, _) \<Rightarrow>
                   (case remove_op (write_queue t) i of
                      (Some oper, q) \<Rightarrow>
                        (True, Some (wakeup_writer env (t\<lparr>write_queue := q\<rparr>)), destroy_att_send_op oper)
                    | (None, _) \<Rightarrow> (False, att, []))))"

definition cancel_pending :: "'c att_send_op option \<Rightarrow> 'c att_send_op option \<times> 'c att_event list" where
  "cancel_pending oper =
     (case oper of None \<Rightarrow> (None, []) | Some x \<Rightarrow> let (y, e) = cancel_att_send_op x in (Some y, e))"

definition bt_att_cancel_all :: "'c bt_att option \<Rightarrow> bool \<times> 'c bt_att option \<times> 'c att_event list" where
  "bt_att_cancel_all att =
     (case att of None \<Rightarrow> (False, None, [])
      | Some t \<Rightarrow>
          let e = concat (map destroy_att_send_op (req_queue t)) @
                  concat (map destroy_att_send_op (ind_queue t)) @
                  concat (map destroy_att_send_op (write_queue t));
              (rq, e1) = cancel_pending (pending_req t);
              (ind, e2) = cancel_pending (pending_ind t)
          in (True, Some (t\<lparr>req_queue := [], ind_queue := [], write_queue := [],
                           pending_req := rq, pending_ind := ind\<rparr>), e @ e1 @ e2))"

text \<open>Errors of the application as error codes of the protocol.\<close>

definition att_ecode_from_error :: "int \<Rightarrow> u8" where
  "att_ecode_from_error err =
     (if err > 0 \<and> err < 255 then word_of_int err
      else if err = - 2 then BT_ATT_ERROR_INVALID_HANDLE
      else if err = - 12 then BT_ATT_ERROR_INSUFFICIENT_RESOURCES
      else if err = - 114 then BT_ERROR_ALREADY_IN_PROGRESS
      else if err = - 75 then BT_ERROR_OUT_OF_RANGE
      else BT_ATT_ERROR_UNLIKELY)"

definition bt_att_send_error_rsp ::
    "'c att_env \<Rightarrow> 'c bt_att option \<Rightarrow> u8 \<Rightarrow> u16 \<Rightarrow> int \<Rightarrow> (u32 \<times> 'c bt_att option) option" where
  "bt_att_send_error_rsp env att opcode handle err =
     (if att = None \<or> opcode = 0 then Some (0, att)
      else let pdu = [opcode] @ put_le16 handle @ [att_ecode_from_error err]
        in bt_att_send env att BT_ATT_OP_ERROR_RSP (Some pdu) (of_nat (length pdu)) None None None)"

definition bt_att_register ::
    "'c bt_att option \<Rightarrow> u8 \<Rightarrow> 'c option \<Rightarrow> 'c option \<Rightarrow> 'c option \<Rightarrow> u32 \<times> 'c bt_att option" where
  "bt_att_register att opcode callback user_data destroy =
     (case att of None \<Rightarrow> (0, None)
      | Some t \<Rightarrow>
          if callback = None \<or> \<not> att_io t then (0, att)
          else let i = (if next_reg_id t < 1 then 1 else next_reg_id t)
            in (i, Some (t\<lparr>next_reg_id := i + 1,
                           att_notify_list := att_notify_list t @
                             [\<lparr>an_id = i, an_opcode = opcode, an_callback = callback,
                               an_destroy = destroy, an_user_data = user_data\<rparr>]\<rparr>)))"

definition bt_att_unregister :: "'c bt_att option \<Rightarrow> u32 \<Rightarrow> bool \<times> 'c bt_att option \<times> 'c att_event list" where
  "bt_att_unregister att i =
     (case att of None \<Rightarrow> (False, None, [])
      | Some t \<Rightarrow>
          if i = 0 then (False, att, [])
          else case find (\<lambda>n. match_notify_id n i) (att_notify_list t) of
            None \<Rightarrow> (False, att, [])
          | Some n \<Rightarrow>
              (True, Some (t\<lparr>att_notify_list := remove_first (\<lambda>n. match_notify_id n i) (att_notify_list t)\<rparr>),
               destroy_att_notify n))"

definition bt_att_unregister_all :: "'c bt_att option \<Rightarrow> bool \<times> 'c bt_att option \<times> 'c att_event list" where
  "bt_att_unregister_all att =
     (case att of None \<Rightarrow> (False, None, [])
      | Some t \<Rightarrow> (True, Some (t\<lparr>att_notify_list := [], disconn_list := []\<rparr>),
                   concat (map destroy_att_notify (att_notify_list t)) @
                   concat (map destroy_att_disconn (disconn_list t))))"

definition bt_att_register_disconnect ::
    "'c bt_att option \<Rightarrow> 'c option \<Rightarrow> 'c option \<Rightarrow> 'c option \<Rightarrow> u32 \<times> 'c bt_att option" where
  "bt_att_register_disconnect att callback user_data destroy =
     (case att of None \<Rightarrow> (0, None)
      | Some t \<Rightarrow>
          if \<not> att_io t then (0, att)
          else let i = (if next_reg_id t < 1 then 1 else next_reg_id t)
            in (i, Some (t\<lparr>next_reg_id := i + 1,
                           disconn_list := disconn_list t @
                             [\<lparr>ad_id = i, ad_removed = False, ad_callback = callback,
                               ad_destroy = destroy, ad_user_data = user_data\<rparr>]\<rparr>)))"

text \<open>The first entry with the identifier is marked while the disconnect handlers run.\<close>

fun mark_removed :: "u32 \<Rightarrow> 'c att_disconn list \<Rightarrow> 'c att_disconn list" where
  "mark_removed i [] = []"
| "mark_removed i (d # ds) =
     (if match_disconn_id d i then d\<lparr>ad_removed := True\<rparr> # ds else d # mark_removed i ds)"

definition bt_att_unregister_disconnect ::
    "'c bt_att option \<Rightarrow> u32 \<Rightarrow> bool \<times> 'c bt_att option \<times> 'c att_event list" where
  "bt_att_unregister_disconnect att i =
     (case att of None \<Rightarrow> (False, None, [])
      | Some t \<Rightarrow>
          if i = 0 then (False, att, [])
          else case find (\<lambda>d. match_disconn_id d i) (disconn_list t) of
            None \<Rightarrow> (False, att, [])
          | Some d \<Rightarrow>
              if \<not> att_io t then (True, Some (t\<lparr>disconn_list := mark_removed i (disconn_list t)\<rparr>), [])
              else (True, Some (t\<lparr>disconn_list := remove_first (\<lambda>d. match_disconn_id d i) (disconn_list t)\<rparr>),
                    destroy_att_disconn d))"

section \<open>Security\<close>

definition bt_att_get_security :: "'c att_env \<Rightarrow> 'c bt_att option \<Rightarrow> int" where
  "bt_att_get_security env att =
     (case att of None \<Rightarrow> - EINVAL
      | Some t \<Rightarrow> if \<not> io_on_l2cap t then io_sec_level t else e_security env)"

definition bt_att_set_security :: "'c att_env \<Rightarrow> 'c bt_att option \<Rightarrow> int \<Rightarrow> bool \<times> 'c bt_att option" where
  "bt_att_set_security env att level =
     (case att of None \<Rightarrow> (False, None)
      | Some t \<Rightarrow>
          if level < BT_ATT_SECURITY_AUTO \<or> level > BT_ATT_SECURITY_HIGH then (False, att)
          else if \<not> io_on_l2cap t then (True, Some (t\<lparr>io_sec_level := level\<rparr>))
          else (e_set_security env, att))"

definition change_security :: "'c att_env \<Rightarrow> 'c bt_att \<Rightarrow> u8 \<Rightarrow> bool \<times> 'c bt_att" where
  "change_security env att ecode =
     (if io_sec_level att \<noteq> BT_ATT_SECURITY_AUTO then (False, att)
      else let security = bt_att_get_security env (Some att);
               new = (if ecode = BT_ATT_ERROR_INSUFFICIENT_ENCRYPTION \<and> security < BT_ATT_SECURITY_MEDIUM
                      then Some BT_ATT_SECURITY_MEDIUM
                      else if ecode = BT_ATT_ERROR_AUTHENTICATION
                      then if security < BT_ATT_SECURITY_MEDIUM then Some BT_ATT_SECURITY_MEDIUM
                           else if security < BT_ATT_SECURITY_HIGH then Some BT_ATT_SECURITY_HIGH
                           else if security < BT_ATT_SECURITY_FIPS then Some BT_ATT_SECURITY_FIPS
                           else None
                      else None)
        in case new of None \<Rightarrow> (False, att)
           | Some level \<Rightarrow> (let (ok, t) = bt_att_set_security env (Some att) level in (ok, the t)))"

definition sign_set_key :: "bytes \<Rightarrow> 'c \<Rightarrow> 'c option \<Rightarrow> 'c sign_info option" where
  "sign_set_key key func user_data =
     Some \<lparr>sign_key = take 16 key, sign_counter = func, sign_user_data = user_data\<rparr>"

definition bt_att_set_local_key ::
    "'c bt_att option \<Rightarrow> bytes \<Rightarrow> 'c \<Rightarrow> 'c option \<Rightarrow> bool \<times> 'c bt_att option" where
  "bt_att_set_local_key att key func user_data =
     (case att of None \<Rightarrow> (False, None)
      | Some t \<Rightarrow> (True, Some (t\<lparr>local_sign := sign_set_key key func user_data\<rparr>)))"

definition bt_att_set_remote_key ::
    "'c bt_att option \<Rightarrow> bytes \<Rightarrow> 'c \<Rightarrow> 'c option \<Rightarrow> bool \<times> 'c bt_att option" where
  "bt_att_set_remote_key att key func user_data =
     (case att of None \<Rightarrow> (False, None)
      | Some t \<Rightarrow> (True, Some (t\<lparr>remote_sign := sign_set_key key func user_data\<rparr>)))"

definition bt_att_has_crypto :: "'c bt_att option \<Rightarrow> bool" where
  "bt_att_has_crypto att = (case att of None \<Rightarrow> False | Some t \<Rightarrow> crypto t)"

section \<open>Received PDUs\<close>

text \<open>
  \<open>handle_error_rsp\<close>: the opcode of the request the error is for, and whether it is retried.  The
  pending operation is there when the function is called.
\<close>

definition handle_error_rsp ::
    "'c att_env \<Rightarrow> 'c bt_att \<Rightarrow> 'c att_send_op \<Rightarrow> bytes \<Rightarrow> u8 \<times> bool \<times> 'c bt_att \<times> 'c att_event list" where
  "handle_error_rsp env att oper pdu =
     (case pdu of
        [opcode, h0, h1, ecode] \<Rightarrow>
          (case change_security env att ecode of
             (False, att) \<Rightarrow> (opcode, False, att, [])
           | (True, att) \<Rightarrow>
               (opcode, True,
                att\<lparr>pending_req := None, req_queue := oper\<lparr>op_timeout_id := 0\<rparr> # req_queue att\<rparr>,
                if op_timeout_id oper \<noteq> 0 then [Att_timer_stop (op_timeout_id oper)] else []))
      | _ \<Rightarrow> (0, False, att, []))"

text \<open>The end of \<open>handle_rsp\<close>: the callback, then the operation is released.\<close>

definition finish_req ::
    "'c att_env \<Rightarrow> 'c bt_att \<Rightarrow> 'c att_send_op \<Rightarrow> u8 \<Rightarrow> bytes option \<Rightarrow> 'c bt_att \<times> 'c att_event list" where
  "finish_req env att oper rsp_opcode rsp_pdu =
     (wakeup_writer env (att\<lparr>pending_req := None\<rparr>),
      (case op_callback oper of None \<Rightarrow> []
       | Some f \<Rightarrow> [Att_op_callback (op_id oper) f rsp_opcode rsp_pdu (op_user_data oper)]) @
      destroy_att_send_op oper)"

definition handle_rsp :: "'c att_env \<Rightarrow> 'c bt_att \<Rightarrow> u8 \<Rightarrow> bytes \<Rightarrow> 'c bt_att \<times> 'c att_event list" where
  "handle_rsp env att opcode pdu =
     (case pending_req att of
        None \<Rightarrow> (att, [Att_shutdown])
      | Some oper \<Rightarrow>
          let rsp_pdu = (if pdu = [] then None else Some pdu)
          in if opcode = BT_ATT_OP_ERROR_RSP
             then (case handle_error_rsp env att oper pdu of
                 (req_opcode, True, att, e) \<Rightarrow> (wakeup_writer env att, e)
               | (req_opcode, False, att, e) \<Rightarrow>
                   if req_opcode \<noteq> op_opcode oper then finish_req env att oper BT_ATT_OP_ERROR_RSP None
                   else finish_req env att oper opcode rsp_pdu)
             else let req_opcode = get_req_opcode opcode
               in if req_opcode = 0 \<or> req_opcode \<noteq> op_opcode oper
                  then finish_req env att oper BT_ATT_OP_ERROR_RSP None
                  else finish_req env att oper opcode rsp_pdu)"

definition handle_conf :: "'c att_env \<Rightarrow> 'c bt_att \<Rightarrow> bytes \<Rightarrow> 'c bt_att \<times> 'c att_event list" where
  "handle_conf env att pdu =
     (case pending_ind att of
        None \<Rightarrow> (att, [Att_shutdown])
      | Some oper \<Rightarrow>
          if pdu \<noteq> [] then (att, [Att_shutdown])
          else (wakeup_writer env (att\<lparr>pending_ind := None\<rparr>),
                (case op_callback oper of None \<Rightarrow> []
                 | Some f \<Rightarrow> [Att_op_callback (op_id oper) f BT_ATT_OP_HANDLE_VAL_CONF None (op_user_data oper)]) @
                destroy_att_send_op oper))"

definition opcode_match :: "u8 \<Rightarrow> u8 \<Rightarrow> bool" where
  "opcode_match opcode test_opcode \<longleftrightarrow>
     (opcode = 0 \<and> (get_op_type test_opcode = ATT_OP_TYPE_REQ \<or> get_op_type test_opcode = ATT_OP_TYPE_CMD)) \<or>
     opcode = test_opcode"

definition respond_not_supported :: "'c att_env \<Rightarrow> 'c bt_att \<Rightarrow> u8 \<Rightarrow> 'c bt_att option" where
  "respond_not_supported env att opcode = do {
     (_, t) \<leftarrow> bt_att_send env (Some att) BT_ATT_OP_ERROR_RSP
                 (Some [opcode, 0, 0, BT_ATT_ERROR_REQUEST_NOT_SUPPORTED]) 4 None None None;
     t }"

text \<open>The generated signature is written over the received one; the two are never compared.\<close>

definition handle_signed :: "'c att_env \<Rightarrow> 'c bt_att \<Rightarrow> bytes \<Rightarrow> bool \<times> bytes" where
  "handle_signed env att pdu =
     (if length pdu < 2 + BT_ATT_SIGNATURE_LEN then (False, pdu)
      else case remote_sign att of None \<Rightarrow> (False, pdu)
      | Some s \<Rightarrow>
          let n = length pdu - BT_ATT_SIGNATURE_LEN
          in case e_counter env (sign_counter s) (sign_user_data s) (Some (get_le32 (drop n pdu))) of
               None \<Rightarrow> (False, pdu)
             | Some sign_cnt \<Rightarrow>
                 (case bt_crypto_sign_att env (crypto att) (sign_key s) (take n pdu) sign_cnt of
                    None \<Rightarrow> (False, pdu)
                  | Some sig \<Rightarrow> (True, take n pdu @ sig)))"

definition notify_calls :: "'c bt_att \<Rightarrow> u8 \<Rightarrow> bytes \<Rightarrow> 'c att_event list" where
  "notify_calls att opcode pdu =
     concat (map (\<lambda>n. case an_callback n of None \<Rightarrow> []
                      | Some f \<Rightarrow> [Att_notify_callback f opcode pdu (an_user_data n)])
               (filter (\<lambda>n. opcode_match (an_opcode n) opcode) (att_notify_list att)))"

definition handle_notify ::
    "'c att_env \<Rightarrow> 'c bt_att \<Rightarrow> u8 \<Rightarrow> bytes \<Rightarrow> ('c bt_att \<times> 'c att_event list) option" where
  "handle_notify env att opcode pdu =
     (let (ok, pdu) =
        (if opcode AND ATT_OP_SIGNED_MASK \<noteq> 0 \<and> \<not> crypto att
         then let (ok, p) = handle_signed env att pdu in (ok, take (length p - BT_ATT_SIGNATURE_LEN) p)
         else (True, pdu))
      in if \<not> ok then Some (att, [])
         else let e = notify_calls att opcode pdu;
                  found = (\<exists>n \<in> set (att_notify_list att). opcode_match (an_opcode n) opcode)
           in if \<not> found \<and> get_op_type opcode \<noteq> ATT_OP_TYPE_CMD
              then do { t \<leftarrow> respond_not_supported env att opcode; Some (t, e) }
              else Some (att, e))"

text \<open>\<open>bs\<close> is what \<^verbatim>\<open>read\<close> stored, at most \<^verbatim>\<open>att->mtu\<close> bytes; \<open>None\<close> when it failed.\<close>

definition can_read_data ::
    "'c att_env \<Rightarrow> 'c bt_att \<Rightarrow> bytes option \<Rightarrow> (bool \<times> 'c bt_att \<times> 'c att_event list) option" where
  "can_read_data env att bs =
     (case bs of
        None \<Rightarrow> Some (False, att, [])
      | Some [] \<Rightarrow> Some (True, att, [])
      | Some (opcode # pdu) \<Rightarrow>
          (case get_op_type opcode of
             ATT_OP_TYPE_RSP \<Rightarrow> let (t, e) = handle_rsp env att opcode pdu in Some (True, t, e)
           | ATT_OP_TYPE_CONF \<Rightarrow> let (t, e) = handle_conf env att pdu in Some (True, t, e)
           | ATT_OP_TYPE_REQ \<Rightarrow>
               if in_req att then Some (False, att, [Att_shutdown])
               else do { (t, e) \<leftarrow> handle_notify env (att\<lparr>in_req := True\<rparr>) opcode pdu; Some (True, t, e) }
           | _ \<Rightarrow> do { (t, e) \<leftarrow> handle_notify env att opcode pdu; Some (True, t, e) }))"

section \<open>Life of a connection\<close>

definition disconn_handler :: "int \<Rightarrow> 'c att_disconn \<Rightarrow> 'c att_event list" where
  "disconn_handler err d =
     (if ad_removed d then []
      else case ad_callback d of None \<Rightarrow> [] | Some f \<Rightarrow> [Att_disconn_callback f err (ad_user_data d)])"

definition disc_att_send_op :: "'c att_send_op \<Rightarrow> 'c att_event list" where
  "disc_att_send_op oper =
     (case op_callback oper of None \<Rightarrow> []
      | Some f \<Rightarrow> [Att_op_callback (op_id oper) f BT_ATT_OP_ERROR_RSP None (op_user_data oper)]) @
     destroy_att_send_op oper"

definition disc_pending :: "'c att_send_op option \<Rightarrow> 'c att_event list" where
  "disc_pending oper = (case oper of None \<Rightarrow> [] | Some x \<Rightarrow> disc_att_send_op x)"

text \<open>
  \<open>so_error\<close> is what \<^verbatim>\<open>getsockopt\<close> returned, 0 when it failed.  \<^verbatim>\<open>io_destroy\<close> takes the watches
  out of the main loop, which calls the destroy function of the write watch.
\<close>

definition disconnect_cb :: "'c bt_att \<Rightarrow> int \<Rightarrow> bool \<times> 'c bt_att \<times> 'c att_event list" where
  "disconnect_cb att so_error =
     (let e1 = concat (map disc_att_send_op (req_queue att)) @
               concat (map disc_att_send_op (ind_queue att)) @
               concat (map disc_att_send_op (write_queue att)) @
               disc_pending (pending_req att) @ disc_pending (pending_ind att);
          att = (write_watch_destroy att)\<lparr>att_io := False, req_queue := [], ind_queue := [],
                    write_queue := [], pending_req := None, pending_ind := None\<rparr>;
          e2 = concat (map (disconn_handler so_error) (disconn_list att));
          (_, t, e3) = bt_att_unregister_all (Some att)
      in (False, the t, e1 @ e2 @ e3))"

definition bt_att_free :: "'c bt_att \<Rightarrow> 'c att_event list" where
  "bt_att_free att =
     (case pending_req att of None \<Rightarrow> [] | Some oper \<Rightarrow> destroy_att_send_op oper) @
     (case pending_ind att of None \<Rightarrow> [] | Some oper \<Rightarrow> destroy_att_send_op oper) @
     call_destroy (timeout_destroy att) (timeout_data att) @
     call_destroy (debug_destroy att) (debug_data att)"

definition bt_att_ref :: "'c bt_att option \<Rightarrow> 'c bt_att option" where
  "bt_att_ref att = (case att of None \<Rightarrow> None | Some t \<Rightarrow> Some (t\<lparr>att_ref_count := att_ref_count t + 1\<rparr>))"

definition bt_att_unref :: "'c bt_att option \<Rightarrow> 'c bt_att option \<times> 'c att_event list" where
  "bt_att_unref att =
     (case att of None \<Rightarrow> (None, [])
      | Some t \<Rightarrow>
          let t = t\<lparr>att_ref_count := att_ref_count t - 1\<rparr>
          in if att_ref_count t \<noteq> 0 then (Some t, [])
             else let (_, t1, e1) = bt_att_unregister_all (Some t);
                      (_, t2, e2) = bt_att_cancel_all t1
               in (None, e1 @ e2 @ bt_att_free (the t2)))"

text \<open>
  \<open>link_type\<close> is \<^verbatim>\<open>bt_att_get_link_type\<close> of the new socket, \<open>l2cap_mtu\<close> the result of
  \<^verbatim>\<open>get_l2cap_mtu\<close>, \<open>handlers\<close> whether \<^verbatim>\<open>io_new\<close> and the two \<^verbatim>\<open>io_set_*_handler\<close> calls succeed.
\<close>

definition bt_att_new ::
    "'c att_env \<Rightarrow> int \<Rightarrow> bool \<Rightarrow> bool \<Rightarrow> bool \<Rightarrow> bool \<Rightarrow> u8 \<Rightarrow> u16 \<Rightarrow> 'c bt_att option" where
  "bt_att_new env fd ext_signed handlers have_crypto l2cap link_type l2cap_mtu =
     (if fd < 0 then None
      else if \<not> handlers then None
      else let mtu = (if link_type = 0 then l2cap_mtu else BT_ATT_DEFAULT_LE_MTU)
        in if mtu < BT_ATT_DEFAULT_LE_MTU then None
           else if \<not> e_mem env then None
           else bt_att_ref (Some
             \<lparr>att_ref_count = 0, att_fd = fd, att_io = True, io_on_l2cap = l2cap,
              io_sec_level = (if l2cap then BT_ATT_SECURITY_AUTO else BT_ATT_SECURITY_LOW),
              req_queue = [], pending_req = None, ind_queue = [], pending_ind = None,
              write_queue = [], writer_active = False, att_notify_list = [], disconn_list = [],
              in_req = False, att_mtu = mtu, next_send_id = 0, next_reg_id = 0,
              timeout_callback = None, timeout_destroy = None, timeout_data = None,
              debug_callback = None, debug_destroy = None, debug_data = None,
              crypto = (\<not> ext_signed \<and> have_crypto), local_sign = None, remote_sign = None\<rparr>))"

definition bt_att_get_fd :: "'c bt_att option \<Rightarrow> int" where
  "bt_att_get_fd att = (case att of None \<Rightarrow> -1 | Some t \<Rightarrow> att_fd t)"

definition bt_att_set_debug ::
    "'c bt_att option \<Rightarrow> 'c option \<Rightarrow> 'c option \<Rightarrow> 'c option \<Rightarrow> bool \<times> 'c bt_att option \<times> 'c att_event list" where
  "bt_att_set_debug att callback user_data destroy =
     (case att of None \<Rightarrow> (False, None, [])
      | Some t \<Rightarrow> (True, Some (t\<lparr>debug_callback := callback, debug_destroy := destroy, debug_data := user_data\<rparr>),
                   call_destroy (debug_destroy t) (debug_data t)))"

definition bt_att_get_mtu :: "'c bt_att option \<Rightarrow> u16" where
  "bt_att_get_mtu att = (case att of None \<Rightarrow> 0 | Some t \<Rightarrow> att_mtu t)"

definition bt_att_set_mtu :: "'c att_env \<Rightarrow> 'c bt_att option \<Rightarrow> u16 \<Rightarrow> bool \<times> 'c bt_att option" where
  "bt_att_set_mtu env att mtu =
     (case att of None \<Rightarrow> (False, None)
      | Some t \<Rightarrow>
          if mtu < BT_ATT_DEFAULT_LE_MTU then (False, att)
          else if \<not> e_mem env then (False, att)
          else (True, Some (t\<lparr>att_mtu := mtu\<rparr>)))"

text \<open>\<open>addr_type\<close> is the address type \<^verbatim>\<open>getsockname\<close> reports, or the error number.\<close>

definition bt_att_get_link_type :: "'c bt_att option \<Rightarrow> int + nat \<Rightarrow> u8" where
  "bt_att_get_link_type att addr_type =
     (case att of None \<Rightarrow> word_of_int (- EINVAL)
      | Some t \<Rightarrow>
          if \<not> io_on_l2cap t then 0xff
          else case addr_type of Inl err \<Rightarrow> word_of_int (- err)
            | Inr bdaddr_type \<Rightarrow> if bdaddr_type = 0 then 0 else 1)"

definition bt_att_set_timeout_cb ::
    "'c bt_att option \<Rightarrow> 'c option \<Rightarrow> 'c option \<Rightarrow> 'c option \<Rightarrow> bool \<times> 'c bt_att option \<times> 'c att_event list" where
  "bt_att_set_timeout_cb att callback user_data destroy =
     (case att of None \<Rightarrow> (False, None, [])
      | Some t \<Rightarrow> (True, Some (t\<lparr>timeout_callback := callback, timeout_destroy := destroy, timeout_data := user_data\<rparr>),
                   call_destroy (timeout_destroy t) (timeout_data t)))"

end
