(* ===== verification/Bt_Att_Props.thy ===== *)
theory Bt_Att_Props
  imports Bt_Att "HOL-Library.Multiset"
begin

text \<open>
  The ATT engine as a state machine: what it does with the operations it is given.  Every
  operation is in exactly one place from the call that creates it to the step that frees it, its
  callback is called at most once, the writer is never left asleep with something to send, and
  responses are matched with the pending request.
\<close>

section \<open>The state machine\<close>

datatype 'c attop =
    Send u8 "bytes option" u16 "'c option" "'c option" "'c option"
  | Send_error u8 u16 int
  | Writable
  | Readable "bytes option"
  | Timer u32
  | Cancel u32
  | Cancel_all
  | Disconnect int
  | Register u8 "'c option" "'c option" "'c option"
  | Unregister u32
  | Unregister_all
  | Register_disconnect "'c option" "'c option" "'c option"
  | Unregister_disconnect u32
  | Set_mtu u16
  | Set_security int
  | Set_local_key bytes 'c "'c option"
  | Set_remote_key bytes 'c "'c option"

text \<open>
  The main loop calls the write handler only while it is installed and removes it, with a call of
  \<open>write_watch_destroy\<close>, when it returns \<^verbatim>\<open>false\<close>.
\<close>

primrec att_step :: "'c att_env \<Rightarrow> 'c bt_att \<Rightarrow> 'c attop \<Rightarrow> ('c bt_att \<times> 'c att_event list) option" where
  "att_step env att (Send opcode pdu len callback ud destroy) = do {
     (_, t) \<leftarrow> bt_att_send env (Some att) opcode pdu len callback ud destroy; t \<leftarrow> t; Some (t, []) }"
| "att_step env att (Send_error opcode handle err) = do {
     (_, t) \<leftarrow> bt_att_send_error_rsp env (Some att) opcode handle err; t \<leftarrow> t; Some (t, []) }"
| "att_step env att Writable =
     (if \<not> writer_active att then Some (att, [])
      else let (r, t, e) = can_write_data env att in Some (if r then t else write_watch_destroy t, e))"
| "att_step env att (Readable bs) = do { (_, t, e) \<leftarrow> can_read_data env att bs; Some (t, e) }"
| "att_step env att (Timer i) = Some (timeout_cb att i)"
| "att_step env att (Cancel i) = do {
     let (_, t, e) = bt_att_cancel env (Some att) i; t \<leftarrow> t; Some (t, e) }"
| "att_step env att Cancel_all = do { let (_, t, e) = bt_att_cancel_all (Some att); t \<leftarrow> t; Some (t, e) }"
| "att_step env att (Disconnect err) = Some (snd (disconnect_cb att err))"
| "att_step env att (Register opcode callback ud destroy) = do {
     t \<leftarrow> snd (bt_att_register (Some att) opcode callback ud destroy); Some (t, []) }"
| "att_step env att (Unregister i) = do {
     let (_, t, e) = bt_att_unregister (Some att) i; t \<leftarrow> t; Some (t, e) }"
| "att_step env att Unregister_all = do {
     let (_, t, e) = bt_att_unregister_all (Some att); t \<leftarrow> t; Some (t, e) }"
| "att_step env att (Register_disconnect callback ud destroy) = do {
     t \<leftarrow> snd (bt_att_register_disconnect (Some att) callback ud destroy); Some (t, []) }"
| "att_step env att (Unregister_disconnect i) = do {
     let (_, t, e) = bt_att_unregister_disconnect (Some att) i; t \<leftarrow> t; Some (t, e) }"
| "att_step env att (Set_mtu mtu) = do { t \<leftarrow> snd (bt_att_set_mtu env (Some att) mtu); Some (t, []) }"
| "att_step env att (Set_security level) = do {
     t \<leftarrow> snd (bt_att_set_security env (Some att) level); Some (t, []) }"
| "att_step env att (Set_local_key key f ud) = do {
     t \<leftarrow> snd (bt_att_set_local_key (Some att) key f ud); Some (t, []) }"
| "att_step env att (Set_remote_key key f ud) = do {
     t \<leftarrow> snd (bt_att_set_remote_key (Some att) key f ud); Some (t, []) }"

section \<open>Accounting of operations\<close>

definition opt_list :: "'a option \<Rightarrow> 'a list" where
  "opt_list x = (case x of None \<Rightarrow> [] | Some y \<Rightarrow> [y])"

definition att_ops :: "'c bt_att \<Rightarrow> 'c att_send_op list" where
  "att_ops att = req_queue att @ ind_queue att @ write_queue att @
     opt_list (pending_req att) @ opt_list (pending_ind att)"

definition live :: "'c bt_att \<Rightarrow> u32 multiset" where
  "live att = mset (map op_id (att_ops att))"

fun freed_ids :: "'c att_event \<Rightarrow> u32 list" where
  "freed_ids (Att_op_free i) = [i]"
| "freed_ids _ = []"

fun called_ids :: "'c att_event \<Rightarrow> u32 list" where
  "called_ids (Att_op_callback i f opcode pdu ud) = [i]"
| "called_ids _ = []"

definition freed :: "'c att_event list \<Rightarrow> u32 multiset" where
  "freed es = mset (concat (map freed_ids es))"

definition called :: "'c att_event list \<Rightarrow> u32 multiset" where
  "called es = mset (concat (map called_ids es))"

text \<open>The identifier a step took from the counter.\<close>

definition created :: "'c bt_att \<Rightarrow> 'c bt_att \<Rightarrow> u32 multiset" where
  "created att att' =
     (if next_send_id att' = next_send_id att then {#} else {# next_send_id att' - 1 #})"

lemma opt_list_simps [simp]: "opt_list None = []" "opt_list (Some x) = [x]"
  by (simp_all add: opt_list_def)

lemma freed_simps [simp]:
  "freed [] = {#}" "freed (e # es) = mset (freed_ids e) + freed es" "freed (xs @ ys) = freed xs + freed ys"
  by (simp_all add: freed_def)

lemma called_simps [simp]:
  "called [] = {#}" "called (e # es) = mset (called_ids e) + called es" "called (xs @ ys) = called xs + called ys"
  by (simp_all add: called_def)

lemma destroy_op_account [simp]:
  "freed (destroy_att_send_op oper) = {# op_id oper #}" "called (destroy_att_send_op oper) = {#}"
  by (auto simp: destroy_att_send_op_def split: option.split)

lemma destroy_ops_account [simp]:
  "freed (concat (map destroy_att_send_op ops)) = mset (map op_id ops)"
  "called (concat (map destroy_att_send_op ops)) = {#}"
  by (induction ops) auto

lemma disc_op_account:
  "freed (disc_att_send_op oper) = {# op_id oper #}"
  "called (disc_att_send_op oper) = (if op_callback oper = None then {#} else {# op_id oper #})"
  by (auto simp: disc_att_send_op_def split: option.split)

lemma disc_ops_account:
  "freed (concat (map disc_att_send_op ops)) = mset (map op_id ops)"
  "called (concat (map disc_att_send_op ops)) = mset (map op_id (filter (\<lambda>oper. op_callback oper \<noteq> None) ops))"
  by (induction ops) (auto simp: disc_op_account)

lemma disc_pending_account:
  "freed (disc_pending x) = mset (map op_id (opt_list x))"
  "called (disc_pending x) = mset (map op_id (filter (\<lambda>oper. op_callback oper \<noteq> None) (opt_list x)))"
  by (cases x; auto simp: disc_pending_def disc_op_account)+

lemma other_events_account [simp]:
  "freed (call_destroy f u) = {#}" "called (call_destroy f u) = {#}"
  "freed (destroy_att_notify n) = {#}" "called (destroy_att_notify n) = {#}"
  "freed (destroy_att_disconn d) = {#}" "called (destroy_att_disconn d) = {#}"
  "freed (disconn_handler err d) = {#}" "called (disconn_handler err d) = {#}"
  by (auto simp: call_destroy_def destroy_att_notify_def destroy_att_disconn_def disconn_handler_def
      split: option.split)

lemma concat_account:
  "(\<And>x. freed (f x) = {#}) \<Longrightarrow> freed (concat (map f xs)) = {#}"
  "(\<And>x. called (f x) = {#}) \<Longrightarrow> called (concat (map f xs)) = {#}"
  by (induction xs) auto

lemma notify_calls_account [simp]:
  "freed (notify_calls att opcode pdu) = {#}" "called (notify_calls att opcode pdu) = {#}"
  by (auto simp: notify_calls_def intro!: concat_account split: option.split)

lemma wakeup_same [simp]:
  "req_queue (wakeup_writer env att) = req_queue att" "ind_queue (wakeup_writer env att) = ind_queue att"
  "write_queue (wakeup_writer env att) = write_queue att"
  "pending_req (wakeup_writer env att) = pending_req att"
  "pending_ind (wakeup_writer env att) = pending_ind att"
  "next_send_id (wakeup_writer env att) = next_send_id att"
  "att_io (wakeup_writer env att) = att_io att" "in_req (wakeup_writer env att) = in_req att"
  "att_mtu (wakeup_writer env att) = att_mtu att"
  by (simp_all add: wakeup_writer_def)

lemma live_cong:
  "att_ops att' = att_ops att \<Longrightarrow> live att' = live att"
  by (simp add: live_def)

text \<open>The balance of a step.\<close>

definition fresh_id :: "'c bt_att \<Rightarrow> u32" where
  "fresh_id att = (if next_send_id att < 1 then 1 else next_send_id att)"

definition balanced :: "'c bt_att \<Rightarrow> 'c bt_att \<Rightarrow> 'c att_event list \<Rightarrow> bool" where
  "balanced att att' es \<longleftrightarrow>
     live att' + freed es = live att + created att att' \<and> called es \<subseteq># freed es \<and>
     next_send_id att' \<in> {next_send_id att, fresh_id att + 1}"

lemma remove_op_live:
  assumes "remove_op q i = (Some oper, q')"
  shows "image_mset op_id (mset q) = add_mset (op_id oper) (image_mset op_id (mset q'))"
proof -
  from assms have "find (\<lambda>oper. match_op_id oper i) q = Some oper"
    "q' = remove_first (\<lambda>oper. match_op_id oper i) q" by (auto simp: remove_op_def)
  then show ?thesis by (induction q arbitrary: q') (auto split: if_splits)
qed

lemma balancedI:
  "live att' + freed es = live att \<Longrightarrow> next_send_id att' = next_send_id att \<Longrightarrow> called es \<subseteq># freed es
     \<Longrightarrow> balanced att att' es"
  by (simp add: balanced_def created_def)

lemma balanced_same:
  "att_ops att' = att_ops att \<Longrightarrow> next_send_id att' = next_send_id att \<Longrightarrow> freed es = {#} \<Longrightarrow> called es = {#}
     \<Longrightarrow> balanced att att' es"
  by (rule balancedI) (simp_all add: live_def)

lemma bt_att_send_cases:
  assumes "bt_att_send env (Some att) opcode pdu len callback ud destroy = Some (r, t)"
  obtains (none) "r = 0" "t = Some att"
    | (queued) oper i where
        "create_att_send_op env att opcode pdu len callback ud destroy = Some (Some oper)" "att_io att"
        "i = (if next_send_id att < 1 then 1 else next_send_id att)" "r = i"
        "t = Some (wakeup_writer env
           (case op_type oper of
              ATT_OP_TYPE_REQ \<Rightarrow> att\<lparr>next_send_id := i + 1, req_queue := req_queue att @ [oper\<lparr>op_id := i\<rparr>]\<rparr>
            | ATT_OP_TYPE_IND \<Rightarrow> att\<lparr>next_send_id := i + 1, ind_queue := ind_queue att @ [oper\<lparr>op_id := i\<rparr>]\<rparr>
            | _ \<Rightarrow> att\<lparr>next_send_id := i + 1, write_queue := write_queue att @ [oper\<lparr>op_id := i\<rparr>]\<rparr>))"
proof (cases "att_io att")
  case io: True
  with assms obtain res where res: "create_att_send_op env att opcode pdu len callback ud destroy = Some res"
    by (auto simp: bt_att_send_def bind_eq_Some_conv)
  show ?thesis
  proof (cases res)
    case None
    with assms io res show ?thesis by (intro none) (auto simp: bt_att_send_def)
  next
    case (Some oper)
    with assms io res show ?thesis
      by (intro queued [of oper]) (auto simp: bt_att_send_def Let_def split: att_op_type.splits)
  qed
qed (use assms none in \<open>auto simp: bt_att_send_def\<close>)

lemma send_balanced:
  assumes "bt_att_send env (Some att) opcode pdu len callback ud destroy = Some (r, Some att')"
  shows "balanced att att' []"
  using assms
proof (cases rule: bt_att_send_cases)
  case none
  then show ?thesis by (simp add: balanced_same)
next
  case (queued oper i)
  have "i + 1 \<noteq> next_send_id att" using queued(3) by (cases "next_send_id att = 0") auto
  then show ?thesis using queued(3,5)
    by (auto simp: balanced_def live_def att_ops_def created_def fresh_id_def split: att_op_type.splits)
qed

lemma error_rsp_balanced:
  assumes "bt_att_send_error_rsp env (Some att) opcode handle err = Some (r, Some att')"
  shows "balanced att att' []"
  using assms by (auto simp: bt_att_send_error_rsp_def Let_def balanced_same split: if_splits dest: send_balanced)

lemma pick_next_cases:
  assumes "pick_next_send_op att = (x, att')"
  obtains (wr) oper ops where "x = Some oper" "write_queue att = oper # ops" "att' = att\<lparr>write_queue := ops\<rparr>"
    | (req) oper ops where "x = Some oper" "write_queue att = []" "pending_req att = None"
        "req_queue att = oper # ops" "att' = att\<lparr>req_queue := ops\<rparr>"
    | (ind) oper ops where "x = Some oper" "write_queue att = []" "pending_ind att = None"
        "pending_req att \<noteq> None \<or> req_queue att = []"
        "ind_queue att = oper # ops" "att' = att\<lparr>ind_queue := ops\<rparr>"
    | (none) "x = None" "att' = att" "write_queue att = []" "pending_req att \<noteq> None \<or> req_queue att = []"
        "pending_ind att \<noteq> None \<or> ind_queue att = []"
  using assms by (auto simp: pick_next_send_op_def split: list.splits option.splits)

lemma pick_next_ops:
  assumes "pick_next_send_op att = (x, att')"
  shows "mset (att_ops att) = mset (opt_list x) + mset (att_ops att')"
    "next_send_id att' = next_send_id att"
    "pending_req att' = pending_req att" "pending_ind att' = pending_ind att"
  using assms by (cases rule: pick_next_cases; simp add: att_ops_def)+

text \<open>An operation waits in the queue of its type; a pending operation is of the right type.\<close>

definition queues_typed :: "'c bt_att \<Rightarrow> bool" where
  "queues_typed att \<longleftrightarrow>
     (\<forall>oper \<in> set (req_queue att) \<union> set (opt_list (pending_req att)). op_type oper = ATT_OP_TYPE_REQ) \<and>
     (\<forall>oper \<in> set (ind_queue att) \<union> set (opt_list (pending_ind att)). op_type oper = ATT_OP_TYPE_IND) \<and>
     (\<forall>oper \<in> set (write_queue att). op_type oper \<noteq> ATT_OP_TYPE_REQ \<and> op_type oper \<noteq> ATT_OP_TYPE_IND)"

lemma can_write_cases:
  assumes "can_write_data env att = (r, att', es)"
  obtains (idle) "pick_next_send_op att = (None, att)" "\<not> r" "att' = att" "es = []"
    | (failed) oper where "pick_next_send_op att = (Some oper, att')" "r" "es = disc_att_send_op oper"
    | (req) oper att1 where "pick_next_send_op att = (Some oper, att1)" "r" "es = [Att_send_pdu (op_pdu oper)]"
        "op_type oper = ATT_OP_TYPE_REQ" "att' = att1\<lparr>pending_req := Some (oper\<lparr>op_timeout_id := e_timeout env\<rparr>)\<rparr>"
    | (ind) oper att1 where "pick_next_send_op att = (Some oper, att1)" "r" "es = [Att_send_pdu (op_pdu oper)]"
        "op_type oper = ATT_OP_TYPE_IND" "att' = att1\<lparr>pending_ind := Some (oper\<lparr>op_timeout_id := e_timeout env\<rparr>)\<rparr>"
    | (other) oper att1 where "pick_next_send_op att = (Some oper, att1)" "r"
        "es = Att_send_pdu (op_pdu oper) # destroy_att_send_op oper"
        "op_type oper \<noteq> ATT_OP_TYPE_REQ" "op_type oper \<noteq> ATT_OP_TYPE_IND"
        "att' = (if op_type oper = ATT_OP_TYPE_RSP then att1\<lparr>in_req := False\<rparr> else att1)"
proof -
  obtain x att1 where pick: "pick_next_send_op att = (x, att1)" by fastforce
  show ?thesis
  proof (cases x)
    case None
    with pick have "att1 = att" by (cases rule: pick_next_cases) auto
    with None assms pick show ?thesis by (intro idle) (auto simp: can_write_data_def)
  next
    case (Some oper)
    show ?thesis
    proof (cases "e_send env (op_pdu oper) < 0")
      case True
      with assms pick Some show ?thesis
        by (intro failed [of oper]) (auto simp: can_write_data_def disc_att_send_op_def)
    next
      case False
      with assms pick Some show ?thesis
        by (cases "op_type oper")
          (auto simp: can_write_data_def intro: req [of oper att1] ind [of oper att1] other [of oper att1])
    qed
  qed
qed

lemma pick_typed:
  assumes "pick_next_send_op att = (Some oper, att1)" "queues_typed att"
  shows "op_type oper = ATT_OP_TYPE_REQ \<Longrightarrow> pending_req att1 = None"
    "op_type oper = ATT_OP_TYPE_IND \<Longrightarrow> pending_ind att1 = None"
  using assms by (cases rule: pick_next_cases; auto simp: queues_typed_def)+

lemma pick_live:
  assumes "pick_next_send_op att = (Some oper, att1)"
  shows "live att = add_mset (op_id oper) (live att1)"
  using arg_cong [OF pick_next_ops(1) [OF assms], of "image_mset op_id"] by (simp add: live_def)

lemma write_balanced:
  assumes "can_write_data env att = (r, att', es)" "queues_typed att"
  shows "balanced att att' es"
proof -
  have pend: "live (att1\<lparr>pending_req := Some y\<rparr>) = add_mset (op_id y) (live att1)" if "pending_req att1 = None"
    for att1 :: "'a bt_att" and y using that by (simp add: live_def att_ops_def)
  have pend': "live (att1\<lparr>pending_ind := Some y\<rparr>) = add_mset (op_id y) (live att1)" if "pending_ind att1 = None"
    for att1 :: "'a bt_att" and y using that by (simp add: live_def att_ops_def)
  have inr: "live (att1\<lparr>in_req := b\<rparr>) = live att1" for att1 :: "'a bt_att" and b
    by (simp add: live_def att_ops_def)
  show ?thesis
    using assms(1)
  proof (cases rule: can_write_cases)
    case idle
    then show ?thesis by (simp add: balanced_same)
  next
    case (failed oper)
    then show ?thesis using pick_live [OF failed(1)] pick_next_ops(2) [OF failed(1)]
      by (intro balancedI) (auto simp: disc_op_account)
  next
    case (req oper att1)
    then show ?thesis
      using pick_live [OF req(1)] pick_next_ops(2) [OF req(1)] pick_typed(1) [OF req(1) assms(2) req(4)]
      by (intro balancedI) (auto simp: pend)
  next
    case (ind oper att1)
    then show ?thesis
      using pick_live [OF ind(1)] pick_next_ops(2) [OF ind(1)] pick_typed(2) [OF ind(1) assms(2) ind(4)]
      by (intro balancedI) (auto simp: pend')
  next
    case (other oper att1)
    then show ?thesis using pick_live [OF other(1)] pick_next_ops(2) [OF other(1)]
      by (intro balancedI) (auto simp: inr)
  qed
qed

lemma change_security_result:
  assumes "change_security env att ecode = (ok, att')"
  shows "\<exists>level. att' = att\<lparr>io_sec_level := level\<rparr>" "\<not> ok \<Longrightarrow> att' = att"
proof -
  have same: "\<exists>level. att = att\<lparr>io_sec_level := level\<rparr>"
    by (rule exI [of _ "io_sec_level att"]) simp
  show "\<exists>level. att' = att\<lparr>io_sec_level := level\<rparr>" "\<not> ok \<Longrightarrow> att' = att"
    using assms same
    by (auto simp: change_security_def bt_att_set_security_def Let_def split: if_splits option.splits)
qed

lemma error_rsp_cases:
  assumes "handle_error_rsp env att oper pdu = (q, r, att', es)"
  obtains (final) "\<not> r" "att' = att" "es = []"
    | (retry) level where "r" "es = (if op_timeout_id oper \<noteq> 0 then [Att_timer_stop (op_timeout_id oper)] else [])"
        "att' = att\<lparr>io_sec_level := level, pending_req := None,
                     req_queue := oper\<lparr>op_timeout_id := 0\<rparr> # req_queue att\<rparr>"
proof (cases "\<exists>opcode h0 h1 ecode. pdu = [opcode, h0, h1, ecode]")
  case True
  then obtain opcode h0 h1 ecode where pdu: "pdu = [opcode, h0, h1, ecode]" by blast
  obtain ok att1 where cs: "change_security env att ecode = (ok, att1)" by fastforce
  from change_security_result [OF cs] obtain level where level: "att1 = att\<lparr>io_sec_level := level\<rparr>"
    and no: "\<not> ok \<Longrightarrow> att1 = att" by blast
  show ?thesis
    using assms cs level no final retry [of level]
    by (cases ok) (simp_all add: handle_error_rsp_def pdu)
next
  case False
  with assms show ?thesis by (intro final) (auto simp: handle_error_rsp_def split: list.splits)
qed

lemma error_rsp_ops:
  assumes "handle_error_rsp env att oper pdu = (q, r, att', es)" "pending_req att = Some oper"
  shows "freed es = {#}" "called es = {#}" "live att' = live att" "next_send_id att' = next_send_id att"
    "\<not> r \<Longrightarrow> att' = att"
  using assms by (cases rule: error_rsp_cases; simp add: live_def att_ops_def)+

lemma finish_balanced:
  assumes "finish_req env att oper op pdu = (att', es)" "pending_req att = Some oper"
  shows "balanced att att' es"
  using assms by (auto simp: finish_req_def balanced_def created_def live_def att_ops_def split: option.splits)

lemma rsp_balanced:
  assumes "handle_rsp env att opcode pdu = (att', es)"
  shows "balanced att att' es"
proof (cases "pending_req att")
  case None
  with assms show ?thesis by (auto simp: handle_rsp_def intro: balanced_same)
next
  case (Some oper)
  obtain q r att1 e where err: "handle_error_rsp env att oper pdu = (q, r, att1, e)" by (metis prod_cases4)
  note ops = error_rsp_ops [OF err Some]
  show ?thesis
  proof (cases "opcode = BT_ATT_OP_ERROR_RSP \<and> r")
    case True
    with assms Some err have "att' = wakeup_writer env att1" "es = e" by (auto simp: handle_rsp_def Let_def)
    moreover have "live (wakeup_writer env att1) = live att1" by (simp add: live_def att_ops_def)
    ultimately show ?thesis using ops by (intro balancedI) simp_all
  next
    case False
    with assms Some err ops(5) obtain op2 pdu2 where "finish_req env att oper op2 pdu2 = (att', es)"
      by (auto simp: handle_rsp_def Let_def split: if_splits bool.splits)
    then show ?thesis using finish_balanced Some by blast
  qed
qed

lemma conf_balanced:
  assumes "handle_conf env att pdu = (att', es)"
  shows "balanced att att' es"
proof (cases "pending_ind att")
  case None
  with assms show ?thesis by (auto simp: handle_conf_def intro: balanced_same)
next
  case (Some oper)
  with assms show ?thesis
    by (cases "pdu = []")
      (auto simp: handle_conf_def balanced_def created_def live_def att_ops_def split: option.splits)
qed

lemma notify_cases:
  assumes "handle_notify env att opcode pdu = Some (att', es)"
  obtains (quiet) "att' = att" "es = []"
    | (told) p where "att' = att" "es = notify_calls att opcode p"
    | (respond) p r where "bt_att_send env (Some att) BT_ATT_OP_ERROR_RSP
         (Some [opcode, 0, 0, BT_ATT_ERROR_REQUEST_NOT_SUPPORTED]) 4 None None None = Some (r, Some att')"
        "es = notify_calls att opcode p"
proof -
  obtain ok p where p: "(if opcode AND ATT_OP_SIGNED_MASK \<noteq> 0 \<and> \<not> crypto att
         then let (ok, p) = handle_signed env att pdu in (ok, take (length p - BT_ATT_SIGNATURE_LEN) p)
         else (True, pdu)) = (ok, p)" by fastforce
  show ?thesis
    using assms that unfolding handle_notify_def p
    by (auto simp: respond_not_supported_def Let_def bind_eq_Some_conv split: if_splits)
qed

lemma notify_balanced:
  assumes "handle_notify env att opcode pdu = Some (att', es)"
  shows "balanced att att' es"
  using assms
proof (cases rule: notify_cases)
  case (respond p r)
  then show ?thesis using send_balanced [OF respond(1)] by (simp add: balanced_def)
qed (simp_all add: balanced_same)

lemma balanced_in_req: "balanced (att\<lparr>in_req := b\<rparr>) att' es = balanced att att' es"
  by (simp add: balanced_def created_def live_def att_ops_def fresh_id_def)

lemma read_balanced:
  assumes "can_read_data env att bs = Some (r, att', es)"
  shows "balanced att att' es"
proof (cases "bs = None \<or> bs = Some []")
  case True
  with assms have "att' = att" "es = []" by (auto simp: can_read_data_def)
  then show ?thesis by (simp add: balanced_same)
next
  case False
  then obtain opcode pdu where bs: "bs = Some (opcode # pdu)" by (cases bs) (auto simp: neq_Nil_conv)
  show ?thesis
    using assms unfolding bs can_read_data_def
    by (auto simp: Let_def bind_eq_Some_conv split: att_op_type.splits if_splits prod.splits
        dest: rsp_balanced conf_balanced notify_balanced intro: balanced_same simp: balanced_in_req)
qed

lemma cancel_op_account:
  assumes "cancel_att_send_op oper = (y, e)"
  shows "op_id y = op_id oper" "freed e = {#}" "called e = {#}" "op_callback y = None" "op_type y = op_type oper"
  using assms by (auto simp: cancel_att_send_op_def split: option.splits)

lemma cancel_pending_account:
  assumes "cancel_pending x = (y, e)"
  shows "map op_id (opt_list y) = map op_id (opt_list x)" "freed e = {#}" "called e = {#}"
  using assms cancel_op_account by (auto simp: cancel_pending_def split: option.splits prod.splits)

lemma bt_att_cancel_cases:
  assumes "bt_att_cancel env (Some att) i = (r, Some att', es)"
  obtains (absent) "\<not> r" "att' = att" "es = []"
    | (req) oper y where "r" "pending_req att = Some oper" "op_id oper = i" "cancel_att_send_op oper = (y, es)"
        "att' = att\<lparr>pending_req := Some y\<rparr>"
    | (ind) oper y where "r" "pending_ind att = Some oper" "op_id oper = i" "cancel_att_send_op oper = (y, es)"
        "att' = att\<lparr>pending_ind := Some y\<rparr>"
    | (req_queue) oper q where "r" "remove_op (req_queue att) i = (Some oper, q)" "es = destroy_att_send_op oper"
        "att' = wakeup_writer env (att\<lparr>req_queue := q\<rparr>)"
    | (ind_queue) oper q where "r" "remove_op (ind_queue att) i = (Some oper, q)" "es = destroy_att_send_op oper"
        "att' = wakeup_writer env (att\<lparr>ind_queue := q\<rparr>)"
    | (write_queue) oper q where "r" "remove_op (write_queue att) i = (Some oper, q)" "es = destroy_att_send_op oper"
        "att' = wakeup_writer env (att\<lparr>write_queue := q\<rparr>)"
proof -
  have has: "has_id x i \<longleftrightarrow> (\<exists>oper. x = Some oper \<and> op_id oper = i)" for x :: "'a att_send_op option"
    by (cases x) (auto simp: has_id_def)
  obtain x1 q1 x2 q2 x3 q3 where q: "remove_op (Bt_Att.req_queue att) i = (x1, q1)"
    "remove_op (Bt_Att.ind_queue att) i = (x2, q2)" "remove_op (Bt_Att.write_queue att) i = (x3, q3)"
    by fastforce
  consider "i = 0" | (a) oper where "i \<noteq> 0" "pending_req att = Some oper" "op_id oper = i"
    | (b) oper where "i \<noteq> 0" "\<not> has_id (pending_req att) i" "pending_ind att = Some oper" "op_id oper = i"
    | (c) "i \<noteq> 0" "\<not> has_id (pending_req att) i" "\<not> has_id (pending_ind att) i"
    using has by blast
  then show ?thesis
  proof cases
    case a
    obtain y e where "cancel_att_send_op oper = (y, e)" by fastforce
    moreover from a have "has_id (pending_req att) i" by (simp add: has_id_def)
    ultimately show ?thesis using a assms by (intro req [of oper y]) (auto simp: bt_att_cancel_def)
  next
    case b
    obtain y e where "cancel_att_send_op oper = (y, e)" by fastforce
    moreover from b have "has_id (pending_ind att) i" by (simp add: has_id_def)
    ultimately show ?thesis using b assms by (intro ind [of oper y]) (auto simp: bt_att_cancel_def)
  next
    case c
    with assms q show ?thesis
      by (cases x1; cases x2; cases x3)
        (auto simp: bt_att_cancel_def intro: absent req_queue ind_queue write_queue)
  qed (use assms absent in \<open>auto simp: bt_att_cancel_def\<close>)
qed

lemma cancel_balanced:
  assumes "bt_att_cancel env (Some att) i = (r, Some att', es)"
  shows "balanced att att' es"
  using assms
  by (cases rule: bt_att_cancel_cases)
    (auto simp: balanced_def created_def live_def att_ops_def cancel_op_account remove_op_live)

lemma cancel_all_balanced:
  assumes "bt_att_cancel_all (Some att) = (r, Some att', es)"
  shows "balanced att att' es"
proof -
  obtain rq e1 ind e2 where pend: "cancel_pending (pending_req att) = (rq, e1)"
    "cancel_pending (pending_ind att) = (ind, e2)" by fastforce
  have "att' = att\<lparr>req_queue := [], ind_queue := [], write_queue := [], pending_req := rq, pending_ind := ind\<rparr>"
    "es = concat (map destroy_att_send_op (req_queue att)) @ concat (map destroy_att_send_op (ind_queue att)) @
       concat (map destroy_att_send_op (write_queue att)) @ e1 @ e2"
    using assms pend by (auto simp: bt_att_cancel_all_def Let_def)
  then show ?thesis
    using cancel_pending_account [OF pend(1)] cancel_pending_account [OF pend(2)]
    by (intro balancedI) (simp_all add: live_def att_ops_def del: mset_map)
qed

lemma timeout_balanced:
  assumes "timeout_cb att i = (att', es)"
  shows "balanced att att' es"
  using assms
  by (auto simp: timeout_cb_def Let_def balanced_def created_def live_def att_ops_def
      split: option.splits if_splits)

lemma disconnect_balanced:
  assumes "disconnect_cb att err = (r, att', es)"
  shows "balanced att att' es" "att_ops att' = []"
proof -
  show ops: "att_ops att' = []"
    using assms by (auto simp: disconnect_cb_def bt_att_unregister_all_def att_ops_def Let_def)
  have "freed es = live att" "called es \<subseteq># live att" "next_send_id att' = next_send_id att"
    using assms
    by (auto simp: disconnect_cb_def bt_att_unregister_all_def Let_def disc_ops_account disc_pending_account
        concat_account live_def att_ops_def write_watch_destroy_def multiset_filter_subset
        image_mset_subseteq_mono intro!: subset_mset.add_mono)
  with ops show "balanced att att' es" by (intro balancedI) (simp_all add: live_def)
qed

section \<open>Well-formed connections\<close>

definition op_wf :: "'c att_send_op \<Rightarrow> bool" where
  "op_wf oper \<longleftrightarrow> op_id oper \<noteq> 0 \<and> op_type oper = get_op_type (op_opcode oper) \<and>
     op_type oper \<noteq> ATT_OP_TYPE_UNKNOWN \<and> op_pdu oper \<noteq> [] \<and> hd (op_pdu oper) = op_opcode oper"

definition att_wf :: "'c bt_att \<Rightarrow> bool" where
  "att_wf att \<longleftrightarrow> queues_typed att \<and> (\<forall>oper \<in> set (att_ops att). op_wf oper) \<and>
     (\<forall>oper \<in> set (req_queue att @ ind_queue att @ write_queue att). op_timeout_id oper = 0) \<and>
     BT_ATT_DEFAULT_LE_MTU \<le> att_mtu att \<and> (att_io att \<or> att_ops att = [] \<and> \<not> writer_active att)"

lemmas att_wf_defs = att_wf_def queues_typed_def att_ops_def

definition sendable :: "'c bt_att \<Rightarrow> bool" where
  "sendable att \<longleftrightarrow> write_queue att \<noteq> [] \<or> pending_req att = None \<and> req_queue att \<noteq> [] \<or>
     pending_ind att = None \<and> ind_queue att \<noteq> []"

definition awake :: "'c bt_att \<Rightarrow> bool" where
  "awake att \<longleftrightarrow> (att_io att \<and> sendable att \<longrightarrow> writer_active att)"

lemma wakeup_awake: "e_write_handler env \<Longrightarrow> awake (wakeup_writer env att)"
  by (auto simp: wakeup_writer_def awake_def sendable_def)

lemma awake_pending:
  "awake att \<Longrightarrow> awake (att\<lparr>pending_req := Some x\<rparr>)" "awake att \<Longrightarrow> awake (att\<lparr>pending_ind := Some x\<rparr>)"
  by (auto simp: awake_def sendable_def)

lemma wakeup_off [simp]: "\<not> att_io att \<Longrightarrow> wakeup_writer env att = att"
  by (simp add: wakeup_writer_def)

lemma wakeup_wf: "att_wf (wakeup_writer env att) = att_wf att"
  by (auto simp: att_wf_defs wakeup_writer_def)

lemma buf_write_hd:
  "buf_write buf off bs = Some buf' \<Longrightarrow> 0 < off \<Longrightarrow> buf \<noteq> [] \<Longrightarrow> hd buf' = hd buf \<and> buf' \<noteq> []"
  by (auto simp: buf_write_def hd_append split: if_splits)

text \<open>What is encoded before the signature: the length and the bytes.\<close>

definition att_pdu_len :: "'c bt_att \<Rightarrow> u8 \<Rightarrow> bytes option \<Rightarrow> u16 \<Rightarrow> u16" where
  "att_pdu_len att opcode pdu len =
     1 + (if local_sign att \<noteq> None \<and> opcode AND ATT_OP_SIGNED_MASK \<noteq> 0 then of_nat BT_ATT_SIGNATURE_LEN else 0) +
     (if len \<noteq> 0 \<and> pdu \<noteq> None then len else 0)"

lemma encode_pdu_shape:
  assumes "encode_pdu env att opcode pdu len = Some (Some bs)"
  shows "length bs = unat (att_pdu_len att opcode pdu len)" "att_pdu_len att opcode pdu len \<le> att_mtu att"
    "bs \<noteq> []" "hd bs = opcode"
proof -
  let ?n = "att_pdu_len att opcode pdu len"
  from assms obtain b1 b2 where b1: "buf_write (map (e_junk env) [0..<unat ?n]) 0 [opcode] = Some b1"
    and b2: "(if ?n > 1 then do { p \<leftarrow> src_bytes pdu len; buf_write b1 1 p } else Some b1) = Some b2"
    and mtu: "?n \<le> att_mtu att"
    by (auto simp: encode_pdu_def att_pdu_len_def Let_def bind_eq_Some_conv not_less split: if_splits)
  have len: "length b1 = unat ?n" "b1 \<noteq> []" "hd b1 = opcode"
    using b1 by (auto simp: buf_write_def split: if_splits)
  then have len2: "length b2 = unat ?n \<and> b2 \<noteq> [] \<and> hd b2 = opcode"
    using b2 by (auto simp: bind_eq_Some_conv byte_simps dest: buf_write_hd split: if_splits)
  have "bs = b2 \<or> (\<exists>sig. buf_write b2 (1 + unat len) sig = Some bs)"
    using assms b1 b2
    by (auto simp: encode_pdu_def Let_def bind_eq_Some_conv att_pdu_len_def split: if_splits option.splits)
  then show "length bs = unat ?n" "bs \<noteq> []" "hd bs = opcode"
    using len2 buf_write_hd [of b2 "1 + unat len" _ bs] by (auto simp: byte_simps)
  show "?n \<le> att_mtu att" by (rule mtu)
qed

lemma create_op_shape:
  assumes "create_att_send_op env att opcode pdu len callback ud destroy = Some (Some oper)"
  shows "op_wf (oper\<lparr>op_id := i\<rparr>) \<longleftrightarrow> i \<noteq> 0" "op_timeout_id oper = 0" "op_type oper = get_op_type opcode"
    "op_callback oper = callback"
    "(callback \<noteq> None) = (get_op_type opcode = ATT_OP_TYPE_REQ \<or> get_op_type opcode = ATT_OP_TYPE_IND)"
  using assms
  by (auto simp: create_att_send_op_def Let_def op_wf_def bind_eq_Some_conv encode_pdu_shape split: if_splits)

lemma send_wf:
  assumes "bt_att_send env (Some att) opcode pdu len callback ud destroy = Some (r, Some att')" "att_wf att"
  shows "att_wf att'" "e_write_handler env \<Longrightarrow> awake att \<Longrightarrow> awake att'"
proof -
  show "att_wf att'"
    using assms(1)
  proof (cases rule: bt_att_send_cases)
    case (queued oper i)
    have i: "i \<noteq> 0" using queued(3) by (cases "next_send_id att = 0") auto
    note shape = create_op_shape [OF queued(1)]
    show ?thesis
      using queued(2,5) shape(1) [of i] i shape(2) assms(2)
      by (auto simp: wakeup_wf att_wf_defs split: att_op_type.splits)
  qed (use assms(2) in simp)
  show "e_write_handler env \<Longrightarrow> awake att \<Longrightarrow> awake att'"
    using assms(1) by (cases rule: bt_att_send_cases) (auto simp: wakeup_awake)
qed

lemma error_rsp_send_wf:
  assumes "bt_att_send_error_rsp env (Some att) opcode handle err = Some (r, Some att')" "att_wf att"
  shows "att_wf att'" "e_write_handler env \<Longrightarrow> awake att \<Longrightarrow> awake att'"
  using assms send_wf by (fastforce simp: bt_att_send_error_rsp_def Let_def split: if_splits)+

lemma op_wf_timeout [simp]: "op_wf (oper\<lparr>op_timeout_id := n\<rparr>) = op_wf oper"
  by (simp add: op_wf_def)

lemma pick_wf:
  assumes "pick_next_send_op att = (Some oper, att1)" "att_wf att" "att_io att"
  shows "att_wf att1" "op_wf oper" "att_io att1" "writer_active att1 = writer_active att"
  using assms by (cases rule: pick_next_cases; auto simp: att_wf_defs)+

lemma pick_sendable: "pick_next_send_op att = (x, att1) \<Longrightarrow> sendable att \<longleftrightarrow> x \<noteq> None"
  by (erule pick_next_cases) (auto simp: sendable_def)

lemma att_write_wf:
  assumes "can_write_data env att = (r, att', es)" "att_wf att" "att_io att"
  shows "att_wf att'" "\<not> r \<longleftrightarrow> \<not> sendable att" "\<not> r \<Longrightarrow> att' = att" "writer_active att' = writer_active att"
proof -
  show "\<not> r \<longleftrightarrow> \<not> sendable att" "\<not> r \<Longrightarrow> att' = att"
    using assms(1) by (cases rule: can_write_cases; auto dest: pick_sendable)+
  show "writer_active att' = writer_active att"
    using assms(1) by (cases rule: can_write_cases) (auto dest: pick_wf [OF _ assms(2,3)])
  show "att_wf att'"
    using assms(1)
  proof (cases rule: can_write_cases)
    case (req oper att1)
    with pick_wf [OF req(1) assms(2,3)] show ?thesis by (auto simp: att_wf_defs)
  next
    case (ind oper att1)
    with pick_wf [OF ind(1) assms(2,3)] show ?thesis by (auto simp: att_wf_defs)
  next
    case (other oper att1)
    with pick_wf [OF other(1) assms(2,3)] show ?thesis by (auto simp: att_wf_defs)
  qed (use assms(2) pick_wf [OF _ assms(2,3)] in auto)
qed

lemma rsp_wf:
  assumes "handle_rsp env att opcode pdu = (att', es)" "att_wf att"
  shows "att_wf att'" "e_write_handler env \<Longrightarrow> awake att \<Longrightarrow> awake att'"
proof -
  have "att_wf att' \<and> (e_write_handler env \<longrightarrow> awake att \<longrightarrow> awake att')"
  proof (cases "pending_req att")
    case None
    with assms show ?thesis by (auto simp: handle_rsp_def)
  next
    case (Some oper)
    obtain q r att1 e where err: "handle_error_rsp env att oper pdu = (q, r, att1, e)" by (metis prod_cases4)
    have io: "att_io att" and op: "op_wf oper" "op_type oper = ATT_OP_TYPE_REQ"
      using assms(2) Some by (auto simp: att_wf_defs)
    have fin: "att_wf (fst (finish_req env att oper rop rpdu))"
      "e_write_handler env \<Longrightarrow> awake (fst (finish_req env att oper rop rpdu))" for rop rpdu
      using assms(2) io by (auto simp: finish_req_def wakeup_wf wakeup_awake att_wf_defs)
    from err show ?thesis
    proof (cases rule: error_rsp_cases)
      case final
      with assms(1) Some err fin show ?thesis
        by (auto simp: handle_rsp_def Let_def split: if_splits dest!: arg_cong [of _ _ fst])
    next
      case (retry level)
      have "att_wf att1" using assms(2) io op Some retry(3) by (auto simp: att_wf_defs)
      with retry(1) assms(1) Some err fin show ?thesis
        by (auto simp: handle_rsp_def Let_def wakeup_wf wakeup_awake split: if_splits dest!: arg_cong [of _ _ fst])
    qed
  qed
  then show "att_wf att'" "e_write_handler env \<Longrightarrow> awake att \<Longrightarrow> awake att'" by auto
qed

lemma conf_wf:
  assumes "handle_conf env att pdu = (att', es)" "att_wf att"
  shows "att_wf att'" "e_write_handler env \<Longrightarrow> awake att \<Longrightarrow> awake att'"
  using assms
  by (auto simp: handle_conf_def wakeup_wf wakeup_awake split: option.splits if_splits)
    (auto simp: att_wf_defs)

lemma notify_wf:
  assumes "handle_notify env att opcode pdu = Some (att', es)" "att_wf att"
  shows "att_wf att'" "e_write_handler env \<Longrightarrow> awake att \<Longrightarrow> awake att'"
  using assms by (cases rule: notify_cases; auto dest: send_wf)+

lemma in_req_wf [simp]: "att_wf (att\<lparr>in_req := b\<rparr>) = att_wf att" "awake (att\<lparr>in_req := b\<rparr>) = awake att"
  by (simp_all add: att_wf_defs awake_def sendable_def)

lemma read_cases:
  assumes "can_read_data env att bs = Some (r, att', es)"
  obtains (ignored) "att' = att" "es = []"
    | (violation) "att' = att" "es = [Att_shutdown]" "\<not> r" "in_req att"
    | (rsp) opcode pdu where "bs = Some (opcode # pdu)" "get_op_type opcode = ATT_OP_TYPE_RSP" "r"
        "handle_rsp env att opcode pdu = (att', es)"
    | (conf) opcode pdu where "bs = Some (opcode # pdu)" "get_op_type opcode = ATT_OP_TYPE_CONF" "r"
        "handle_conf env att pdu = (att', es)"
    | (req) opcode pdu where "bs = Some (opcode # pdu)" "get_op_type opcode = ATT_OP_TYPE_REQ" "r" "\<not> in_req att"
        "handle_notify env (att\<lparr>in_req := True\<rparr>) opcode pdu = Some (att', es)"
    | (other) opcode pdu where "bs = Some (opcode # pdu)" "r"
        "get_op_type opcode \<notin> {ATT_OP_TYPE_RSP, ATT_OP_TYPE_CONF, ATT_OP_TYPE_REQ}"
        "handle_notify env att opcode pdu = Some (att', es)"
proof (cases "bs = None \<or> bs = Some []")
  case True
  with assms show ?thesis by (intro ignored) (auto simp: can_read_data_def)
next
  case False
  then obtain opcode pdu where bs: "bs = Some (opcode # pdu)" by (cases bs) (auto simp: neq_Nil_conv)
  show ?thesis
    using assms that bs
    by (cases "get_op_type opcode") (auto simp: can_read_data_def Let_def bind_eq_Some_conv split: if_splits prod.splits)
qed

lemma att_read_wf:
  assumes "can_read_data env att bs = Some (r, att', es)" "att_wf att"
  shows "att_wf att'" "e_write_handler env \<Longrightarrow> awake att \<Longrightarrow> awake att'"
  using assms by (cases rule: read_cases; auto dest: rsp_wf conf_wf notify_wf)+

lemma remove_op_set:
  "remove_op q i = (x, q') \<Longrightarrow> set q' \<subseteq> set q"
  using set_remove_first by (fastforce simp: remove_op_def)

lemma cancel_wf:
  assumes "bt_att_cancel env (Some att) i = (r, Some att', es)" "att_wf att"
  shows "att_wf att'" "e_write_handler env \<Longrightarrow> awake att \<Longrightarrow> awake att'"
proof -
  have c: "op_wf y = op_wf oper" if "cancel_att_send_op oper = (y, es)" for y oper
    using that by (auto simp: cancel_att_send_op_def op_wf_def split: option.splits)
  show "att_wf att'"
    using assms(1)
  proof (cases rule: bt_att_cancel_cases)
    case (req oper y)
    then show ?thesis using assms(2) c [OF req(4)] cancel_op_account(5) [OF req(4)] by (auto simp: att_wf_defs)
  next
    case (ind oper y)
    then show ?thesis using assms(2) c [OF ind(4)] cancel_op_account(5) [OF ind(4)] by (auto simp: att_wf_defs)
  next
    case (req_queue oper q)
    then show ?thesis using assms(2) remove_op_set [OF req_queue(2)] by (auto simp: wakeup_wf att_wf_defs)
  next
    case (ind_queue oper q)
    then show ?thesis using assms(2) remove_op_set [OF ind_queue(2)] by (auto simp: wakeup_wf att_wf_defs)
  next
    case (write_queue oper q)
    then show ?thesis using assms(2) remove_op_set [OF write_queue(2)] by (auto simp: wakeup_wf att_wf_defs)
  qed (use assms(2) in simp)
  show "e_write_handler env \<Longrightarrow> awake att \<Longrightarrow> awake att'"
    using assms(1) by (cases rule: bt_att_cancel_cases) (auto intro: wakeup_awake awake_pending)
qed

lemma timeout_cases:
  assumes "timeout_cb att i = (att', es)"
  obtains (stale) "att' = att" "es = []"
    | (req) oper where "pending_req att = Some oper" "op_id oper = i" "att' = att\<lparr>pending_req := None\<rparr>"
        "Att_shutdown \<in> set es" "freed es = {# i #}" "called es = {#}"
    | (ind) oper where "pending_ind att = Some oper" "op_id oper = i" "att' = att\<lparr>pending_ind := None\<rparr>"
        "Att_shutdown \<in> set es" "freed es = {# i #}" "called es = {#}"
  using assms by (auto simp: timeout_cb_def Let_def split: option.splits if_splits)

lemma att_timeout_wf:
  assumes "timeout_cb att i = (att', es)" "att_wf att"
  shows "att_wf att'" "awake att \<Longrightarrow> awake att' \<or> Att_shutdown \<in> set es"
  using assms by (cases rule: timeout_cases; auto simp: att_wf_defs)+

lemma cancel_all_wf:
  assumes "bt_att_cancel_all (Some att) = (r, Some att', es)" "att_wf att"
  shows "att_wf att'" "awake att'"
proof -
  obtain rq e1 ind e2 where pend: "cancel_pending (pending_req att) = (rq, e1)"
    "cancel_pending (pending_ind att) = (ind, e2)" by fastforce
  have att': "att' = att\<lparr>req_queue := [], ind_queue := [], write_queue := [], pending_req := rq, pending_ind := ind\<rparr>"
    using assms(1) pend by (auto simp: bt_att_cancel_all_def Let_def)
  have c: "\<exists>oper. x = Some oper \<and> op_wf z = op_wf oper \<and> op_type z = op_type oper"
    if "cancel_pending x = (Some z, e)" for x z e
    using that by (cases x) (auto simp: cancel_pending_def cancel_att_send_op_def op_wf_def)
  have n: "cancel_pending x = (None, e) \<Longrightarrow> x = None" for x :: "'a att_send_op option" and e
    by (cases x) (auto simp: cancel_pending_def cancel_att_send_op_def)
  show "att_wf att'"
    using assms(2) pend
    by (cases rq; cases ind) (auto simp: att' att_wf_defs dest!: c n)
  show "awake att'" by (simp add: att' awake_def sendable_def)
qed

lemma disconnect_wf:
  assumes "disconnect_cb att err = (r, att', es)" "att_wf att"
  shows "att_wf att'" "awake att'" "\<not> att_io att'"
  using assms
  by (auto simp: disconnect_cb_def bt_att_unregister_all_def Let_def write_watch_destroy_def att_wf_defs awake_def)

text \<open>The remaining operations leave the queues and the writer alone.\<close>

definition same_ops :: "'c bt_att \<Rightarrow> 'c bt_att \<Rightarrow> bool" where
  "same_ops att att' \<longleftrightarrow>
     req_queue att' = req_queue att \<and> ind_queue att' = ind_queue att \<and> write_queue att' = write_queue att \<and>
     pending_req att' = pending_req att \<and> pending_ind att' = pending_ind att \<and>
     next_send_id att' = next_send_id att \<and> att_io att' = att_io att \<and> writer_active att' = writer_active att \<and>
     in_req att' = in_req att \<and> (BT_ATT_DEFAULT_LE_MTU \<le> att_mtu att \<longrightarrow> BT_ATT_DEFAULT_LE_MTU \<le> att_mtu att')"

lemma same_opsD:
  assumes "same_ops att att'"
  shows "att_ops att' = att_ops att" "awake att' = awake att" "att_wf att \<Longrightarrow> att_wf att'" "in_req att' = in_req att"
    "freed es = {#} \<Longrightarrow> called es = {#} \<Longrightarrow> balanced att att' es"
proof -
  show "att_ops att' = att_ops att" "awake att' = awake att" "in_req att' = in_req att"
    using assms by (simp_all add: same_ops_def att_ops_def awake_def sendable_def)
  then show "freed es = {#} \<Longrightarrow> called es = {#} \<Longrightarrow> balanced att att' es"
    using assms by (intro balanced_same) (simp_all add: same_ops_def)
  show "att_wf att \<Longrightarrow> att_wf att'" using assms by (simp add: same_ops_def att_wf_defs)
qed

definition control_op :: "'c attop \<Rightarrow> bool" where
  "control_op x = (case x of Send _ _ _ _ _ _ \<Rightarrow> False | Send_error _ _ _ \<Rightarrow> False | Writable \<Rightarrow> False
     | Readable _ \<Rightarrow> False | Timer _ \<Rightarrow> False | Cancel _ \<Rightarrow> False | Cancel_all \<Rightarrow> False | Disconnect _ \<Rightarrow> False
     | _ \<Rightarrow> True)"

lemma register_same:
  "same_ops att (the (snd (bt_att_register (Some att) opcode f u d)))"
  "snd (bt_att_register (Some att) opcode f u d) \<noteq> None"
  "same_ops att (the (snd (bt_att_register_disconnect (Some att) f u d)))"
  "snd (bt_att_register_disconnect (Some att) f u d) \<noteq> None"
  by (simp_all add: bt_att_register_def bt_att_register_disconnect_def Let_def same_ops_def)

lemma unregister_same:
  "bt_att_unregister (Some att) i = (r, t, es) \<Longrightarrow>
     \<exists>att'. t = Some att' \<and> same_ops att att' \<and> freed es = {#} \<and> called es = {#}"
  "bt_att_unregister_all (Some att) = (r, t, es) \<Longrightarrow>
     \<exists>att'. t = Some att' \<and> same_ops att att' \<and> freed es = {#} \<and> called es = {#}"
  "bt_att_unregister_disconnect (Some att) i = (r, t, es) \<Longrightarrow>
     \<exists>att'. t = Some att' \<and> same_ops att att' \<and> freed es = {#} \<and> called es = {#}"
  by (auto simp: bt_att_unregister_def bt_att_unregister_all_def bt_att_unregister_disconnect_def
      same_ops_def concat_account split: if_splits option.splits)

lemma set_same:
  "same_ops att (the (snd (bt_att_set_mtu env (Some att) mtu)))"
  "snd (bt_att_set_mtu env (Some att) mtu) \<noteq> None"
  "same_ops att (the (snd (bt_att_set_security env (Some att) level)))"
  "snd (bt_att_set_security env (Some att) level) \<noteq> None"
  "same_ops att (the (snd (bt_att_set_local_key (Some att) key f u)))"
  "snd (bt_att_set_local_key (Some att) key f u) \<noteq> None"
  "same_ops att (the (snd (bt_att_set_remote_key (Some att) key f u)))"
  "snd (bt_att_set_remote_key (Some att) key f u) \<noteq> None"
  by (simp_all add: bt_att_set_mtu_def bt_att_set_security_def bt_att_set_local_key_def bt_att_set_remote_key_def
      same_ops_def not_less)

lemma control_step:
  assumes "att_step env att x = Some (att', es)" "control_op x"
  shows "same_ops att att'" "freed es = {#}" "called es = {#}"
proof -
  note simps = control_op_def bind_eq_Some_conv Let_def
  have "same_ops att att' \<and> freed es = {#} \<and> called es = {#}"
  proof (cases x)
    case (Register opcode f u d)
    with assms register_same(1) [of att opcode f u d] show ?thesis by (auto simp: simps)
  next
    case (Register_disconnect f u d)
    with assms register_same(3) [of att f u d] show ?thesis by (auto simp: simps)
  next
    case (Set_mtu mtu)
    with assms set_same(1) [of att env mtu] show ?thesis by (auto simp: simps)
  next
    case (Set_security level)
    with assms set_same(3) [of att env level] show ?thesis by (auto simp: simps)
  next
    case (Set_local_key key f u)
    with assms set_same(5) [of att key f u] show ?thesis by (auto simp: simps)
  next
    case (Set_remote_key key f u)
    with assms set_same(7) [of att key f u] show ?thesis by (auto simp: simps)
  next
    case (Unregister i)
    with assms unregister_same(1) [of att i] show ?thesis by (auto simp: simps split: prod.splits)
  next
    case Unregister_all
    with assms unregister_same(2) [of att] show ?thesis by (auto simp: simps split: prod.splits)
  next
    case (Unregister_disconnect i)
    with assms unregister_same(3) [of att i] show ?thesis by (auto simp: simps split: prod.splits)
  qed (use assms(2) in \<open>simp_all add: control_op_def\<close>)
  then show "same_ops att att'" "freed es = {#}" "called es = {#}" by auto
qed

lemma write_watch_destroy_wf:
  "att_wf att \<Longrightarrow> att_wf (write_watch_destroy att)"
  "\<not> sendable att \<Longrightarrow> awake (write_watch_destroy att)"
  "balanced att (write_watch_destroy att') es = balanced att att' es"
  by (auto simp: write_watch_destroy_def att_wf_defs awake_def sendable_def balanced_def live_def created_def)

lemma writable_step:
  assumes "att_step env att Writable = Some (att', es)" "att_wf att"
  shows "balanced att att' es" "att_wf att'" "awake att \<Longrightarrow> awake att'"
proof -
  obtain r t e where w: "can_write_data env att = (r, t, e)" by (metis prod_cases3)
  have "balanced att att' es \<and> att_wf att' \<and> (awake att \<longrightarrow> awake att')"
  proof (cases "writer_active att")
    case True
    with assms(2) have io: "att_io att" by (auto simp: att_wf_def)
    have res: "att' = (if r then t else write_watch_destroy t)" "es = e" using True assms(1) w by auto
    note wf = att_write_wf [OF w assms(2) io]
    have "balanced att t e" using write_balanced [OF w] assms(2) by (simp add: att_wf_def)
    moreover have "awake t" if r using wf(4) True by (simp add: awake_def)
    ultimately show ?thesis using res wf by (auto simp: write_watch_destroy_wf)
  next
    case False
    with assms show ?thesis by (auto intro: balanced_same)
  qed
  then show "balanced att att' es" "att_wf att'" "awake att \<Longrightarrow> awake att'" by auto
qed

lemma att_step_ok:
  assumes "att_step env att x = Some (att', es)" "att_wf att"
  shows "balanced att att' es" "att_wf att'"
    "e_write_handler env \<Longrightarrow> awake att \<Longrightarrow> awake att' \<or> Att_shutdown \<in> set es"
proof -
  have "balanced att att' es \<and> att_wf att' \<and>
    (e_write_handler env \<longrightarrow> awake att \<longrightarrow> awake att' \<or> Att_shutdown \<in> set es)"
  proof (cases x)
    case (Send opcode pdu len f u d)
    with assms show ?thesis by (auto simp: bind_eq_Some_conv dest: send_balanced send_wf)
  next
    case (Send_error opcode handle err)
    with assms show ?thesis by (auto simp: bind_eq_Some_conv dest: error_rsp_balanced error_rsp_send_wf)
  next
    case Writable
    with assms writable_step show ?thesis by metis
  next
    case (Readable bs)
    with assms show ?thesis by (auto simp: bind_eq_Some_conv dest: read_balanced att_read_wf)
  next
    case (Timer i)
    with assms show ?thesis by (auto dest: timeout_balanced att_timeout_wf)
  next
    case (Cancel i)
    with assms show ?thesis
      by (auto simp: bind_eq_Some_conv Let_def split: prod.splits dest: cancel_balanced cancel_wf)
  next
    case Cancel_all
    with assms show ?thesis
      by (auto simp: bind_eq_Some_conv Let_def split: prod.splits dest: cancel_all_balanced cancel_all_wf)
  next
    case (Disconnect err)
    obtain r where "disconnect_cb att err = (r, att', es)" using Disconnect assms(1) by (cases "disconnect_cb att err") auto
    with assms(2) show ?thesis by (auto dest: disconnect_balanced disconnect_wf)
  qed (use assms control_step [OF assms(1)] same_opsD in \<open>auto simp: control_op_def\<close>)
  then show "balanced att att' es" "att_wf att'"
    "e_write_handler env \<Longrightarrow> awake att \<Longrightarrow> awake att' \<or> Att_shutdown \<in> set es" by auto
qed

lemma new_wf:
  assumes "bt_att_new env fd ext_signed handlers have_crypto l2cap link_type l2cap_mtu = Some att"
  shows "att_wf att" "awake att" "next_send_id att = 0" "att_ops att = []" "\<not> in_req att" "att_io att"
  using assms
  by (auto simp: bt_att_new_def bt_att_ref_def Let_def att_wf_defs awake_def sendable_def not_less split: if_splits)

end
