(* ===== verification/Bt_Att_Machine.thy ===== *)
theory Bt_Att_Machine
  imports Bt_Att_Props
begin

text \<open>
  Runs of the ATT engine: what holds of every reachable connection, and what becomes of the
  operations a client hands to it.
\<close>

section \<open>Reachable connections\<close>

text \<open>
  The flag says that the engine has asked for the link to be shut down; \<^verbatim>\<open>io_set_write_handler\<close> is
  taken to succeed on an open channel.
\<close>

inductive att_reach :: "'c bt_att \<Rightarrow> bool \<Rightarrow> bool" where
  new: "bt_att_new env fd ext_signed handlers have_crypto l2cap link_type l2cap_mtu = Some att \<Longrightarrow>
          att_reach att False"
| step: "att_reach att down \<Longrightarrow> e_write_handler env \<Longrightarrow> att_step env att x = Some (att', es) \<Longrightarrow>
          att_reach att' (down \<or> Att_shutdown \<in> set es)"

declare att_reach.intros [intro]

inductive_cases att_reach_up [elim]: "att_reach att False"

text \<open>The steps of a run, each with the environment it meets.\<close>

primrec att_run :: "'c bt_att \<Rightarrow> ('c att_env \<times> 'c attop) list \<Rightarrow> ('c bt_att \<times> 'c att_event list) option" where
  "att_run att [] = Some (att, [])"
| "att_run att (s # ss) = do {
     (att1, e1) \<leftarrow> att_step (fst s) att (snd s);
     (att2, e2) \<leftarrow> att_run att1 ss;
     Some (att2, e1 @ e2) }"

lemma att_run_wf:
  "att_run att ss = Some (att', es) \<Longrightarrow> att_wf att \<Longrightarrow> att_wf att'"
  by (induction ss arbitrary: att es) (auto simp: bind_eq_Some_conv dest: att_step_ok(2))

text \<open>
  The identifiers of a connection that has accepted \<open>n\<close> operations: the counter starts at 0 and
  the first identifier is 1.
\<close>

definition counted :: "nat \<Rightarrow> 'c bt_att \<Rightarrow> bool" where
  "counted n att \<longleftrightarrow> next_send_id att = (if n = 0 then 0 else of_nat (n + 1))"

definition ids :: "nat \<Rightarrow> u32 multiset" where
  "ids n = mset (map of_nat [1..<Suc n])"

lemma ids_simps [simp]: "ids 0 = {#}" "ids (Suc n) = add_mset (of_nat (Suc n)) (ids n)"
  by (simp_all add: ids_def)

lemma ids_distinct: "n < 2 ^ 32 \<Longrightarrow> count (ids n) i \<le> 1"
proof -
  assume "n < 2 ^ 32"
  then have "inj_on (of_nat :: nat \<Rightarrow> u32) (set [1..<Suc n])"
    by (auto intro!: inj_onI simp: word_of_nat_eq_iff take_bit_eq_mod)
  then have "distinct (map (of_nat :: nat \<Rightarrow> u32) [1..<Suc n])" by (simp add: distinct_map)
  then show ?thesis unfolding ids_def
    by (metis count_mset_0_iff distinct_count_atmost_1 linorder_le_cases not_one_le_zero order_refl)
qed

lemma counted_step:
  assumes "balanced att att' es" "counted n att" "n + 1 < 2 ^ 32"
  obtains m where "counted m att'" "m \<le> Suc n" "ids n + created att att' = ids m"
proof (cases "next_send_id att' = next_send_id att")
  case True
  with assms(2) show ?thesis by (intro that [of n]) (simp_all add: counted_def created_def)
next
  case False
  with assms(1) have nxt: "next_send_id att' = fresh_id att + 1" by (simp add: balanced_def)
  have "unat (of_nat (n + 1) :: u32) = n + 1" using assms(3) by (intro unat_of_nat_less) simp
  then have pos: "(of_nat (n + 1) :: u32) \<noteq> 0" by (metis Suc_eq_plus1 nat.distinct(1) unat_0)
  then have "fresh_id att = of_nat (Suc n)" using assms(2)
    by (auto simp: fresh_id_def counted_def word_less_1)
  with nxt False show ?thesis
    by (intro that [of "Suc n"]) (simp_all add: counted_def created_def)
qed

lemma run_accounts:
  assumes "att_run att ss = Some (att', es)" "att_wf att" "counted n att" "n + length ss < 2 ^ 32"
  shows "\<exists>m. counted m att' \<and> m \<le> n + length ss \<and> live att' + freed es + ids n = live att + ids m \<and>
    called es \<subseteq># freed es"
  using assms
proof (induction ss arbitrary: att es n)
  case Nil
  then show ?case by auto
next
  case (Cons s ss)
  obtain att1 e1 e2 where st: "att_step (fst s) att (snd s) = Some (att1, e1)"
    and rn: "att_run att1 ss = Some (att', e2)" and es: "es = e1 @ e2"
    using Cons.prems(1) by (auto simp: bind_eq_Some_conv)
  have bal: "balanced att att1 e1" and wf: "att_wf att1" using att_step_ok [OF st Cons.prems(2)] by auto
  have "n + 1 < 2 ^ 32" using Cons.prems(4) by simp
  from counted_step [OF bal Cons.prems(3) this]
  obtain k where k: "counted k att1" "k \<le> Suc n" "ids n + created att att1 = ids k" .
  have "k + length ss < 2 ^ 32" using Cons.prems(4) k(2) by simp
  from Cons.IH [OF rn wf k(1) this]
  obtain m where m: "counted m att'" "m \<le> k + length ss" "live att' + freed e2 + ids k = live att1 + ids m"
    "called e2 \<subseteq># freed e2" by blast
  have b: "live att1 + freed e1 = live att + created att att1" "called e1 \<subseteq># freed e1"
    using bal by (simp_all add: balanced_def)
  have "live att' + freed e2 + (ids n + created att att1) + freed e1 = live att + created att att1 + ids m"
    using m(3) unfolding b(1) [symmetric] k(3) by (simp add: ac_simps)
  then have "(live att' + freed es + ids n) + created att att1 = (live att + ids m) + created att att1"
    by (simp only: es freed_simps ac_simps)
  then have "live att' + freed es + ids n = live att + ids m" by (rule add_right_imp_eq)
  moreover have "called es \<subseteq># freed es" using b(2) m(4) by (simp add: es subset_mset.add_mono)
  ultimately show ?case using m(1,2) k(2) by (intro exI [of _ m]) auto
qed

text \<open>
  C6: over a whole run of a new connection (fewer than 2^32 steps), every operation that was
  accepted is, exactly once, either still held by the connection or freed, and its callback was
  called at most once, and only when it was freed.
\<close>

theorem att_ops_conserved:
  assumes "bt_att_new env fd ext_signed handlers have_crypto l2cap link_type l2cap_mtu = Some att"
    "att_run att ss = Some (att', es)" "length ss < 2 ^ 32"
  shows "\<exists>n \<le> length ss. live att' + freed es = ids n \<and> called es \<subseteq># freed es \<and>
    (\<forall>i. count (freed es) i \<le> 1 \<and> count (called es) i \<le> 1 \<and> (i \<in># live att' \<longrightarrow> i \<notin># freed es))"
proof -
  note new = new_wf [OF assms(1)]
  have "counted 0 att" "0 + length ss < 2 ^ 32" using new(3) assms(3) by (simp_all add: counted_def)
  from run_accounts [OF assms(2) new(1) this]
  obtain n where n: "n \<le> length ss" "live att' + freed es = ids n" "called es \<subseteq># freed es"
    using new(4) by (auto simp: live_def)
  have one: "count (live att') i + count (freed es) i \<le> 1" for i
    using ids_distinct [of n i] n(1) assms(3) by (simp flip: n(2))
  moreover have "count (called es) i \<le> count (freed es) i" for i using n(3) by (simp add: mset_subset_eq_count)
  ultimately have "count (freed es) i \<le> 1" "count (called es) i \<le> 1" for i
    by (meson add_leE le_trans)+
  moreover have "i \<notin># freed es" if "i \<in># live att'" for i
    using one [of i] that by (simp flip: count_greater_zero_iff)
  ultimately show ?thesis using n by (intro exI [of _ n]) simp
qed

section \<open>Callbacks of cancelled operations\<close>

text \<open>The operations whose callback may still be called.\<close>

definition armed :: "'c bt_att \<Rightarrow> u32 set" where
  "armed att = op_id ` {oper \<in> set (att_ops att). op_callback oper \<noteq> None}"

definition disarms :: "'c bt_att \<Rightarrow> 'c bt_att \<Rightarrow> 'c att_event list \<Rightarrow> bool" where
  "disarms att att' es \<longleftrightarrow>
     armed att' \<subseteq> armed att \<union> set_mset (created att att') \<and> set_mset (called es) \<subseteq> armed att"

lemma disarmsI:
  "armed att' \<subseteq> armed att \<Longrightarrow> set_mset (called es) \<subseteq> armed att \<Longrightarrow> disarms att att' es"
  by (auto simp: disarms_def)

lemma armed_wakeup [simp]: "armed (wakeup_writer env att) = armed att"
  by (simp add: armed_def att_ops_def)

lemma armed_in_req [simp]: "armed (att\<lparr>in_req := b\<rparr>) = armed att"
  by (simp add: armed_def att_ops_def)

lemma called_disc_op: "set_mset (called (disc_att_send_op oper)) \<subseteq> armed att" if "oper \<in> set (att_ops att)"
  using that by (auto simp: disc_op_account armed_def)

lemma send_disarms:
  assumes "bt_att_send env (Some att) opcode pdu len callback ud destroy = Some (r, Some att')"
  shows "disarms att att' []"
  using assms
proof (cases rule: bt_att_send_cases)
  case none
  then show ?thesis by (simp add: disarms_def)
next
  case (queued oper i)
  have "i + 1 \<noteq> next_send_id att" using queued(3) by (cases "next_send_id att = 0") auto
  then show ?thesis using queued(5)
    by (auto simp: disarms_def armed_def att_ops_def created_def split: att_op_type.splits)
qed

lemma pick_armed:
  assumes "pick_next_send_op att = (Some oper, att1)"
  shows "oper \<in> set (att_ops att)" "set (att_ops att1) \<subseteq> set (att_ops att)" "armed att1 \<subseteq> armed att"
proof -
  have "mset (att_ops att) = add_mset oper (mset (att_ops att1))" using pick_next_ops(1) [OF assms] by simp
  then have "set (att_ops att) = insert oper (set (att_ops att1))" by (metis set_mset_add_mset_insert set_mset_mset)
  then show "oper \<in> set (att_ops att)" "set (att_ops att1) \<subseteq> set (att_ops att)" "armed att1 \<subseteq> armed att"
    by (auto simp: armed_def)
qed

lemma write_disarms:
  assumes "can_write_data env att = (r, att', es)"
  shows "disarms att att' es"
  using assms
proof (cases rule: can_write_cases)
  case (failed oper)
  then show ?thesis using pick_armed [OF failed(1)] called_disc_op [of oper att] by (intro disarmsI) auto
next
  case (req oper att1)
  then show ?thesis using pick_armed [OF req(1)]
    by (intro disarmsI) (auto simp: armed_def att_ops_def)
next
  case (ind oper att1)
  then show ?thesis using pick_armed [OF ind(1)]
    by (intro disarmsI) (auto simp: armed_def att_ops_def)
next
  case (other oper att1)
  then show ?thesis using pick_armed [OF other(1)] by (intro disarmsI) auto
qed (simp add: disarmsI)

lemma rsp_disarms:
  assumes "handle_rsp env att opcode pdu = (att', es)"
  shows "disarms att att' es"
proof (cases "pending_req att")
  case None
  with assms show ?thesis by (auto simp: handle_rsp_def intro: disarmsI)
next
  case (Some oper)
  obtain q r att1 e where err: "handle_error_rsp env att oper pdu = (q, r, att1, e)" by (metis prod_cases4)
  have fin: "disarms att t f" if "finish_req env att oper op2 pdu2 = (t, f)" for op2 pdu2 t f
    using that Some by (intro disarmsI) (auto simp: finish_req_def armed_def att_ops_def split: option.splits)
  from err show ?thesis
  proof (cases rule: error_rsp_cases)
    case final
    with assms Some err fin show ?thesis by (auto simp: handle_rsp_def Let_def split: if_splits)
  next
    case (retry level)
    have "armed att1 \<subseteq> armed att" using Some by (auto simp: retry armed_def att_ops_def)
    with assms Some err fin retry(1,2) show ?thesis
      by (auto simp: handle_rsp_def Let_def split: if_splits intro!: disarmsI)
  qed
qed

lemma conf_disarms:
  assumes "handle_conf env att pdu = (att', es)"
  shows "disarms att att' es"
  using assms
  by (intro disarmsI) (auto simp: handle_conf_def armed_def att_ops_def split: option.splits if_splits)

lemma notify_disarms:
  assumes "handle_notify env att opcode pdu = Some (att', es)"
  shows "disarms att att' es"
  using assms
proof (cases rule: notify_cases)
  case (respond p r)
  then show ?thesis using send_disarms [OF respond(1)] by (simp add: disarms_def)
qed (simp_all add: disarmsI)

lemma disarms_in_req: "disarms (att\<lparr>in_req := b\<rparr>) att' es = disarms att att' es"
  by (simp add: disarms_def created_def)

lemma read_disarms:
  assumes "can_read_data env att bs = Some (r, att', es)"
  shows "disarms att att' es"
  using assms
  by (cases rule: read_cases)
    (auto dest: rsp_disarms conf_disarms notify_disarms simp: disarms_in_req intro: disarmsI)

lemma cancel_disarms:
  assumes "bt_att_cancel env (Some att) i = (r, Some att', es)"
  shows "disarms att att' es"
proof -
  have sub: "set q' \<subseteq> set q" if "remove_op q i = (x, q')" for q q' :: "'a att_send_op list" and x
    using remove_op_set [OF that] .
  from assms show ?thesis
  proof (cases rule: bt_att_cancel_cases)
    case (req oper y)
    then show ?thesis using cancel_op_account [OF req(4)] by (intro disarmsI) (auto simp: armed_def att_ops_def)
  next
    case (ind oper y)
    then show ?thesis using cancel_op_account [OF ind(4)] by (intro disarmsI) (auto simp: armed_def att_ops_def)
  next
    case (req_queue oper q)
    then show ?thesis using sub [OF req_queue(2)] by (intro disarmsI) (auto simp: armed_def att_ops_def)
  next
    case (ind_queue oper q)
    then show ?thesis using sub [OF ind_queue(2)] by (intro disarmsI) (auto simp: armed_def att_ops_def)
  next
    case (write_queue oper q)
    then show ?thesis using sub [OF write_queue(2)] by (intro disarmsI) (auto simp: armed_def att_ops_def)
  qed (simp add: disarmsI)
qed

lemma cancel_all_disarms:
  assumes "bt_att_cancel_all (Some att) = (r, Some att', es)"
  shows "disarms att att' es" "armed att' = {}"
proof -
  obtain rq e1 ind e2 where pend: "cancel_pending (pending_req att) = (rq, e1)"
    "cancel_pending (pending_ind att) = (ind, e2)" by fastforce
  have att': "att' = att\<lparr>req_queue := [], ind_queue := [], write_queue := [], pending_req := rq, pending_ind := ind\<rparr>"
    "called es = {#}"
    using assms(1) pend cancel_pending_account(3) [OF pend(1)] cancel_pending_account(3) [OF pend(2)]
    by (auto simp: bt_att_cancel_all_def Let_def)
  have "op_callback z = None" if "cancel_pending x = (Some z, e)" for x z e
    using that by (cases x) (auto simp: cancel_pending_def cancel_att_send_op_def)
  with pend show "armed att' = {}"
    by (cases rq; cases ind) (auto simp: att' armed_def att_ops_def)
  with att'(2) show "disarms att att' es" by (intro disarmsI) auto
qed

lemma disconnect_disarms:
  assumes "disconnect_cb att err = (r, att', es)"
  shows "disarms att att' es"
proof (rule disarmsI)
  show "armed att' \<subseteq> armed att" using disconnect_balanced(2) [OF assms] by (simp add: armed_def)
  show "set_mset (called es) \<subseteq> armed att"
    using assms
    by (auto simp: disconnect_cb_def bt_att_unregister_all_def Let_def disc_ops_account disc_pending_account
        concat_account armed_def att_ops_def write_watch_destroy_def)
qed

lemma step_disarms:
  assumes "att_step env att x = Some (att', es)"
  shows "disarms att att' es"
proof (cases x)
  case (Send opcode pdu len f u d)
  with assms show ?thesis by (auto simp: bind_eq_Some_conv dest: send_disarms)
next
  case (Send_error opcode handle err)
  with assms show ?thesis
    by (auto simp: bind_eq_Some_conv bt_att_send_error_rsp_def Let_def disarmsI dest: send_disarms split: if_splits)
next
  case Writable
  obtain r t e where w: "can_write_data env att = (r, t, e)" by (metis prod_cases3)
  have "disarms att (write_watch_destroy t) e = disarms att t e"
    by (simp add: disarms_def armed_def att_ops_def created_def write_watch_destroy_def)
  with Writable assms w write_disarms [OF w] show ?thesis by (auto simp: disarmsI split: if_splits)
next
  case (Readable bs)
  with assms show ?thesis by (auto simp: bind_eq_Some_conv dest: read_disarms)
next
  case (Timer i)
  with assms have "timeout_cb att i = (att', es)" by simp
  then show ?thesis by (cases rule: timeout_cases) (auto intro!: disarmsI simp: armed_def att_ops_def)
next
  case (Cancel i)
  with assms show ?thesis by (auto simp: bind_eq_Some_conv Let_def split: prod.splits dest: cancel_disarms)
next
  case Cancel_all
  with assms show ?thesis
    by (auto simp: bind_eq_Some_conv Let_def split: prod.splits dest: cancel_all_disarms)
next
  case (Disconnect err)
  obtain r where "disconnect_cb att err = (r, att', es)"
    using Disconnect assms(1) by (cases "disconnect_cb att err") auto
  then show ?thesis by (rule disconnect_disarms)
qed (use control_step [OF assms] same_opsD(1) in \<open>fastforce intro!: disarmsI simp: control_op_def armed_def\<close>)+

lemma run_silent:
  assumes "att_run att ss = Some (att', es)" "att_wf att" "counted n att" "n + length ss < 2 ^ 32"
    "i \<in># ids n" "i \<notin> armed att"
  shows "i \<notin># called es"
  using assms
proof (induction ss arbitrary: att es n)
  case (Cons s ss)
  obtain att1 e1 e2 where st: "att_step (fst s) att (snd s) = Some (att1, e1)"
    and rn: "att_run att1 ss = Some (att', e2)" and es: "es = e1 @ e2"
    using Cons.prems(1) by (auto simp: bind_eq_Some_conv)
  have bal: "balanced att att1 e1" and wf: "att_wf att1" using att_step_ok [OF st Cons.prems(2)] by auto
  have "n + 1 < 2 ^ 32" using Cons.prems(4) by simp
  from counted_step [OF bal Cons.prems(3) this]
  obtain k where k: "counted k att1" "k \<le> Suc n" "ids n + created att att1 = ids k" .
  have small: "k + length ss < 2 ^ 32" using Cons.prems(4) k(2) by simp
  have "count (ids n) i + count (created att att1) i \<le> 1"
    using ids_distinct [of k i] small by (simp flip: k(3))
  with Cons.prems(5) have fresh: "i \<notin># created att att1" by (simp flip: count_greater_zero_iff)
  have off: "i \<notin> armed att1" "i \<notin># called e1"
    using step_disarms [OF st] fresh Cons.prems(6) by (auto simp: disarms_def)
  have "i \<in># ids k" using Cons.prems(5) by (simp flip: k(3))
  from Cons.IH [OF rn wf k(1) small this off(1)] off(2) show ?case by (simp add: es)
qed simp

lemma armed_unique:
  assumes "y \<in> set (att_ops att)" "op_callback y = None" "count (live att) (op_id y) \<le> 1"
  shows "op_id y \<notin> armed att"
proof
  assume "op_id y \<in> armed att"
  then obtain z where z: "z \<in> set (att_ops att)" "op_id z = op_id y" "op_callback z \<noteq> None" by (auto simp: armed_def)
  with assms(2) have "z \<noteq> y" by auto
  then have "{#y, z#} \<subseteq># mset (att_ops att)" using assms(1) z(1) by (auto simp: insert_subset_eq_iff in_diff_count)
  then have "image_mset op_id {#y, z#} \<subseteq># live att" unfolding live_def mset_map by (rule image_mset_subseteq_mono)
  then have "count {#op_id y, op_id y#} (op_id y) \<le> count (live att) (op_id y)"
    using z(2) by (intro mset_subset_eq_count) simp
  with assms(3) show False by simp
qed

lemma cancel_facts:
  assumes "bt_att_cancel env (Some att) i = (True, Some att', es)"
  shows "called es = {#}" "i \<in># live att" "next_send_id att' = next_send_id att"
    "count (live att) i \<le> 1 \<Longrightarrow> i \<notin> armed att'"
proof -
  have hit: "op_id oper = i" if "remove_op q i = (Some oper, q')" for q q' and oper :: "'a att_send_op"
    using that by (auto simp: remove_op_def match_op_id_def find_Some_iff)
  have gone: "i \<notin> armed att'" if "count (live att) i \<le> 1" "live att = add_mset i (live att')"
    using that by (auto simp: armed_def live_def not_in_iff [symmetric])
  have "called es = {#} \<and> i \<in># live att \<and> next_send_id att' = next_send_id att \<and>
    (count (live att) i \<le> 1 \<longrightarrow> i \<notin> armed att')"
    using assms
  proof (cases rule: bt_att_cancel_cases)
    case (req oper y)
    note y = cancel_op_account [OF req(4)]
    have "live att' = live att" using req y by (simp add: live_def att_ops_def)
    then show ?thesis using req y armed_unique [of y att'] by (auto simp: live_def att_ops_def)
  next
    case (ind oper y)
    note y = cancel_op_account [OF ind(4)]
    have "live att' = live att" using ind y by (simp add: live_def att_ops_def)
    then show ?thesis using ind y armed_unique [of y att'] by (auto simp: live_def att_ops_def)
  next
    case (req_queue oper q)
    have "live att = add_mset i (live att')"
      using remove_op_live [OF req_queue(2)] hit [OF req_queue(2)] req_queue by (simp add: live_def att_ops_def)
    then show ?thesis using req_queue gone by auto
  next
    case (ind_queue oper q)
    have "live att = add_mset i (live att')"
      using remove_op_live [OF ind_queue(2)] hit [OF ind_queue(2)] ind_queue by (simp add: live_def att_ops_def)
    then show ?thesis using ind_queue gone by auto
  next
    case (write_queue oper q)
    have "live att = add_mset i (live att')"
      using remove_op_live [OF write_queue(2)] hit [OF write_queue(2)] write_queue by (simp add: live_def att_ops_def)
    then show ?thesis using write_queue gone by auto
  qed simp
  then show "called es = {#}" "i \<in># live att" "next_send_id att' = next_send_id att"
    "count (live att) i \<le> 1 \<Longrightarrow> i \<notin> armed att'" by auto
qed

text \<open>
  C12: an operation that \<open>bt_att_cancel\<close> reports as cancelled never has its callback called, neither
  before the cancellation nor in any continuation of the run.
\<close>

theorem cancelled_never_called:
  assumes "bt_att_new env fd ext_signed handlers have_crypto l2cap link_type l2cap_mtu = Some att0"
    "att_run att0 before = Some (att1, es1)" "bt_att_cancel env' (Some att1) i = (True, Some att2, es2)"
    "att_run att2 after = Some (att3, es3)" "length before + length after < 2 ^ 32"
  shows "i \<notin># called (es1 @ es2 @ es3)"
proof -
  note new = new_wf [OF assms(1)]
  have cnt: "counted 0 att0" "0 + length before < 2 ^ 32" using new(3) assms(5) by (simp_all add: counted_def)
  from run_accounts [OF assms(2) new(1) this]
  obtain n where n: "counted n att1" "n \<le> length before" "live att1 + freed es1 = ids n" "called es1 \<subseteq># freed es1"
    using new(4) by (auto simp: live_def)
  have wf: "att_wf att1" using att_run_wf [OF assms(2) new(1)] .
  have one: "count (live att1) i + count (freed es1) i \<le> 1"
    using ids_distinct [of n i] n(2) assms(5) by (simp flip: n(3))
  note canc = cancel_facts [OF assms(3)]
  have "i \<notin># called es1"
    using one canc(2) mset_subset_eqD [OF n(4), of i] by (auto simp flip: count_greater_zero_iff)
  moreover have "i \<notin># called es3"
  proof (rule run_silent [OF assms(4)])
    show "att_wf att2" using cancel_wf(1) [OF assms(3) wf] .
    show "counted n att2" using n(1) canc(3) by (simp add: counted_def)
    show "n + length after < 2 ^ 32" using n(2) assms(5) by simp
    show "i \<in># ids n" using canc(2) by (simp flip: n(3))
    show "i \<notin> armed att2" using canc(4) one by simp
  qed
  ultimately show ?thesis using canc(1) by simp
qed

section \<open>The invariant of a connection\<close>

text \<open>
  C10: in every reachable connection each operation waits in the queue of its type with no timer
  running, a pending request or indication is of that type, the first byte of an encoded PDU is
  its opcode, the MTU is at least 23, a closed connection holds nothing, and unless the engine
  has asked for the link to be shut down the write handler is installed whenever something can
  be sent: no wakeup is lost.
\<close>

theorem att_reach_invariant:
  assumes "att_reach att down"
  shows "att_wf att \<and> (down \<or> awake att)"
  using assms
proof induction
  case new
  then show ?case using new_wf by blast
next
  case (step att down env x att' es)
  then show ?case using att_step_ok [OF step(3)] by blast
qed

section \<open>An example\<close>

definition example_env :: "nat att_env" where
  "example_env =
     \<lparr>e_mem = True, e_write_handler = True, e_send = (\<lambda>bs. int (length bs)), e_timeout = 7, e_security = 1,
      e_set_security = True, e_sign = (\<lambda>key msg c. Some (replicate 12 0)), e_counter = (\<lambda>f u c. Some 1),
      e_junk = (\<lambda>_. 0)\<rparr>"

definition example_att :: "nat bt_att" where
  "example_att = the (bt_att_new example_env 3 True True False True 1 0)"

lemma example_new: "bt_att_new example_env 3 True True False True 1 0 = Some example_att"
  by (simp add: example_att_def bt_att_new_def bt_att_ref_def example_env_def BT_ATT_DEFAULT_LE_MTU_def)

text \<open>Two read requests and a command are queued; the second request is cancelled.\<close>

definition example_steps :: "(nat att_env \<times> nat attop) list" where
  "example_steps = map (Pair example_env)
     [Send 0x0A (Some [5, 0]) 2 (Some 100) None None, Send 0x0A (Some [6, 0]) 2 (Some 101) None None,
      Send 0x52 (Some [5, 0, 9]) 3 None None None, Writable]"

lemmas att_exec =
  att_step.simps att_run.simps example_steps_def example_env_def example_att_def bt_att_new_def bt_att_ref_def
  bt_att_send_def create_att_send_op_def encode_pdu_def src_bytes_def buf_write_def get_op_type_def
  att_opcode_type_table_def wakeup_writer_def can_write_data_def pick_next_send_op_def
  BT_ATT_DEFAULT_LE_MTU_def ATT_OP_SIGNED_MASK_def ATT_OP_CMD_MASK_def BT_ATT_SIGNATURE_LEN_def
  destroy_att_send_op_def write_watch_destroy_def bt_att_cancel_def has_id_def remove_op_def match_op_id_def
  can_read_data_def handle_rsp_def handle_error_rsp_def get_req_opcode_def att_req_rsp_mapping_table_def
  finish_req_def BT_ATT_OP_ERROR_RSP_def Let_def

definition example_mid :: "nat bt_att \<times> nat att_event list" where
  "example_mid = the (att_run example_att example_steps)"

definition example_cancelled :: "nat bt_att \<times> nat att_event list" where
  "example_cancelled = (let (_, t, e) = bt_att_cancel example_env (Some (fst example_mid)) 2 in (the t, e))"

definition example_rest :: "(nat att_env \<times> nat attop) list" where
  "example_rest = map (Pair example_env) [Writable, Readable (Some [0x0B, 42])]"

definition example_last :: "nat bt_att \<times> nat att_event list" where
  "example_last = the (att_run (fst example_cancelled) example_rest)"

lemma example_att_run: "att_run example_att example_steps = Some (fst example_mid, snd example_mid)"
  by (simp add: example_mid_def att_exec)

lemma example_cancel:
  "bt_att_cancel example_env (Some (fst example_mid)) 2 = (True, Some (fst example_cancelled), snd example_cancelled)"
  by (simp add: example_cancelled_def example_mid_def att_exec)

lemma example_run_rest:
  "att_run (fst example_cancelled) example_rest = Some (fst example_last, snd example_last)"
  "called (snd example_last) = {# 1 #}"
  by (simp_all add: example_last_def example_rest_def example_cancelled_def example_mid_def att_exec)

lemma example_len: "length example_steps = 4"
  by (simp add: example_steps_def)

text \<open>Witness of \<open>att_ops_conserved\<close>.\<close>

theorem att_ops_conserved_witness:
  "\<exists>n \<le> length example_steps. live (fst example_mid) + freed (snd example_mid) = ids n \<and>
     called (snd example_mid) \<subseteq># freed (snd example_mid) \<and>
     (\<forall>i. count (freed (snd example_mid)) i \<le> 1 \<and> count (called (snd example_mid)) i \<le> 1 \<and>
        (i \<in># live (fst example_mid) \<longrightarrow> i \<notin># freed (snd example_mid)))"
  using att_ops_conserved [OF example_new example_att_run] by (simp add: example_len)

text \<open>Witness of \<open>cancelled_never_called\<close>: the second request is never answered.\<close>

theorem cancelled_never_called_witness:
  "2 \<notin># called (snd example_mid @ snd example_cancelled @ snd example_last)"
  using cancelled_never_called [OF example_new example_att_run example_cancel example_run_rest(1)]
  by (simp add: example_steps_def example_rest_def)

text \<open>Witness of \<open>att_reach_invariant\<close>.\<close>

theorem att_reach_invariant_witness:
  "att_wf example_att \<and> awake example_att"
  using att_reach_invariant [OF att_reach.new [OF example_new]] by simp

end
