(* ===== verification/Bt_Att_Protocol.thy ===== *)
theory Bt_Att_Protocol
  imports Bt_Att_Machine
begin

text \<open>
  The protocol the ATT engine speaks: how opcodes are classified, how a PDU is laid out, how a
  response is matched with the pending request, that requests are served one at a time, and what a
  disconnection does.
\<close>

section \<open>Opcodes\<close>

lemmas opcode_eval = get_op_type_def get_req_opcode_def att_opcode_type_table_def att_req_rsp_mapping_table_def
  BT_ATT_OP_ERROR_RSP_def ATT_OP_CMD_MASK_def

lemma opcode_listed:
  assumes "r \<in> fst ` set att_opcode_type_table"
  shows "(get_req_opcode r \<noteq> 0) = (get_op_type r = ATT_OP_TYPE_RSP \<and> r \<noteq> BT_ATT_OP_ERROR_RSP)"
    "get_req_opcode r \<noteq> 0 \<Longrightarrow> get_op_type (get_req_opcode r) = ATT_OP_TYPE_REQ \<and> r = get_req_opcode r + 1"
    "get_op_type r = ATT_OP_TYPE_REQ \<Longrightarrow> get_req_opcode (r + 1) = r"
  using assms unfolding att_opcode_type_table_def
  by (simp, elim disjE; simp add: opcode_eval)+

lemma opcode_unlisted:
  assumes "r \<notin> fst ` set att_opcode_type_table"
  shows "get_req_opcode r = 0" "get_op_type r = ATT_OP_TYPE_CMD \<or> get_op_type r = ATT_OP_TYPE_UNKNOWN"
  using assms by (simp_all add: opcode_eval)

lemma opcode_facts:
  "get_op_type r = ATT_OP_TYPE_RSP \<Longrightarrow> r \<noteq> BT_ATT_OP_ERROR_RSP \<Longrightarrow>
     get_req_opcode r \<noteq> 0 \<and> r = get_req_opcode r + 1"
  using opcode_listed(1,2) [of r] opcode_unlisted(2) [of r] by fastforce

text \<open>
  C29: the two opcode tables agree: a response opcode other than the error response belongs to
  exactly the request whose opcode precedes it, every request opcode has a response, and nothing
  else is mapped.
\<close>

theorem opcode_tables_agree:
  "(get_req_opcode r \<noteq> 0 \<longleftrightarrow> get_op_type r = ATT_OP_TYPE_RSP \<and> r \<noteq> BT_ATT_OP_ERROR_RSP) \<and>
   (get_req_opcode r \<noteq> 0 \<longrightarrow> get_op_type (get_req_opcode r) = ATT_OP_TYPE_REQ \<and> r = get_req_opcode r + 1) \<and>
   (get_op_type r = ATT_OP_TYPE_REQ \<longrightarrow> get_req_opcode (r + 1) = r)"
proof (cases "r \<in> fst ` set att_opcode_type_table")
  case True
  from opcode_listed [OF this] show ?thesis by blast
next
  case False
  from opcode_unlisted [OF this] show ?thesis by auto
qed

text \<open>Witness of \<open>opcode_tables_agree\<close>: the read response.\<close>

theorem opcode_tables_agree_witness:
  "get_req_opcode 0x0B \<noteq> 0 \<and> get_op_type (get_req_opcode 0x0B) = ATT_OP_TYPE_REQ \<and>
     0x0B = get_req_opcode 0x0B + 1"
  using opcode_tables_agree [of "0x0B"] by (simp add: opcode_eval)

section \<open>The layout of a PDU\<close>

definition signs :: "'c bt_att \<Rightarrow> u8 \<Rightarrow> bool" where
  "signs att opcode \<longleftrightarrow> local_sign att \<noteq> None \<and> opcode AND ATT_OP_SIGNED_MASK \<noteq> 0"

lemma att_pdu_len_small:
  assumes "unat len + 13 < 2 ^ 16"
  shows "unat (att_pdu_len att opcode (Some p) len) = 1 + unat len + (if signs att opcode then 12 else 0)"
  using assms by (simp add: att_pdu_len_def signs_def BT_ATT_SIGNATURE_LEN_def unat_word_ariths)

definition pdu_junk :: "'c att_env \<Rightarrow> nat \<Rightarrow> nat \<Rightarrow> bytes" where
  "pdu_junk env k n = map (e_junk env) [k..<k + n]"

lemma pdu_junk_0 [simp]: "pdu_junk env k 0 = []"
  by (simp add: pdu_junk_def)

lemma buf_fresh:
  "buf_write (map (e_junk env) [0..<1 + k + s]) 0 [x] = Some (x # map (e_junk env) [1..<1 + k + s])"
  "length p = k \<Longrightarrow> buf_write (x # map (e_junk env) [1..<1 + k + s]) 1 p = Some (x # p @ pdu_junk env (1 + k) s)"
  "length p = k \<Longrightarrow> length sig = s \<Longrightarrow> buf_write (x # p @ pdu_junk env (1 + k) s) (1 + k) sig = Some (x # p @ sig)"
  by (simp_all add: buf_write_def drop_map drop_upt pdu_junk_def)

lemma encode_pdu_layout:
  assumes "length p = unat len" "unat len + 13 < 2 ^ 16"
    "att_pdu_len att opcode (Some p) len \<le> att_mtu att" "e_mem env"
  shows "encode_pdu env att opcode (Some p) len =
    (if \<not> signs att opcode then Some (Some (opcode # p))
     else if \<not> crypto att then Some (Some (opcode # p @ pdu_junk env (1 + unat len) 12))
     else let s = the (local_sign att)
       in case e_counter env (sign_counter s) (sign_user_data s) None of
            None \<Rightarrow> Some None
          | Some cnt \<Rightarrow>
              (case bt_crypto_sign_att env (crypto att) (sign_key s) (opcode # p) cnt of
                 None \<Rightarrow> Some None
               | Some sig \<Rightarrow> map_option Some (buf_write (opcode # p @ pdu_junk env (1 + unat len) 12)
                                              (1 + unat len) sig)))"
proof -
  let ?n = "att_pdu_len att opcode (Some p) len" and ?s = "if signs att opcode then 12 else 0 :: nat"
  have n: "unat ?n = 1 + unat len + ?s" by (rule att_pdu_len_small [OF assms(2)])
  have src: "src_bytes (Some p) len = Some p" using assms(1) by (auto simp: src_bytes_def)
  have b1: "buf_write (map (e_junk env) [0..<unat ?n]) 0 [opcode] = Some (opcode # map (e_junk env) [1..<1 + unat len + ?s])"
    unfolding n by (rule buf_fresh(1))
  have b2: "(if ?n > 1 then src_bytes (Some p) len \<bind> buf_write (opcode # map (e_junk env) [1..<1 + unat len + ?s]) 1
      else Some (opcode # map (e_junk env) [1..<1 + unat len + ?s])) =
      Some (opcode # p @ pdu_junk env (1 + unat len) ?s)"
    using buf_fresh(2) [OF assms(1), of opcode env ?s] n assms(1) by (auto simp: src word_less_nat_alt)
  have len: "1 + (if signs att opcode then of_nat BT_ATT_SIGNATURE_LEN else 0) +
     (if len \<noteq> 0 \<and> Some p \<noteq> None then len else 0) = ?n" by (simp add: att_pdu_len_def signs_def)
  have "encode_pdu env att opcode (Some p) len =
    (let buf = opcode # p @ pdu_junk env (1 + unat len) ?s in
     case local_sign att of
       None \<Rightarrow> Some (Some buf)
     | Some s \<Rightarrow>
         if \<not> signs att opcode \<or> \<not> crypto att then Some (Some buf)
         else case e_counter env (sign_counter s) (sign_user_data s) None of
           None \<Rightarrow> Some None
         | Some sign_cnt \<Rightarrow>
             (case bt_crypto_sign_att env (crypto att) (sign_key s) (take (1 + unat len) buf) sign_cnt of
                None \<Rightarrow> Some None
              | Some sig \<Rightarrow> do { buf \<leftarrow> buf_write buf (1 + unat len) sig; Some (Some buf) }))"
    using assms(4) assms(3) [folded not_less]
    unfolding encode_pdu_def Let_def signs_def [symmetric] len b1 bind.bind_lunit b2 by simp
  then show ?thesis using assms(1)
    by (cases "local_sign att") (auto simp: signs_def Let_def map_conv_bind_option comp_def split: option.splits)
qed

lemma src_bytes_take: "n < 65536 \<Longrightarrow> n \<le> length p \<Longrightarrow> src_bytes (Some p) (of_nat n) = Some (take n p)"
  using unat_of_nat_less [where 'a = 16, of n] by (auto simp: src_bytes_def)

lemma src_bytes_0 [simp]: "src_bytes p 0 = Some []"
  by (simp add: src_bytes_def)

lemma encode_unsigned:
  assumes "opcode AND ATT_OP_SIGNED_MASK = 0" "src_bytes pdu len = Some v" "unat len < unat (att_mtu att)" "e_mem env"
  shows "encode_pdu env att opcode pdu len = Some (Some (opcode # v))"
proof -
  have v: "length v = unat len" "len \<noteq> 0 \<Longrightarrow> pdu \<noteq> None"
    using assms(2) by (auto simp: src_bytes_def split: if_splits option.splits)
  have "1 + unat len < 65536" using assms(3) unat_u16_less [of "att_mtu att"] by linarith
  then have "unat (1 + len) = 1 + unat len" by (simp add: unat_word_ariths)
  then have le: "\<not> att_mtu att < 1 + len" and n: "unat (1 + len) = 1 + unat len + 0"
    using assms(3) by (simp_all add: word_less_nat_alt)
  have len: "(1 :: u16) + 0 + (if len \<noteq> 0 \<and> pdu \<noteq> None then len else 0) = 1 + len" using v(2) by auto
  have b1: "buf_write (map (e_junk env) [0..<unat (1 + len)]) 0 [opcode] =
      Some (opcode # map (e_junk env) [1..<1 + unat len + 0])" unfolding n by (rule buf_fresh(1))
  have b2: "(if 1 < 1 + len then src_bytes pdu len \<bind> buf_write (opcode # map (e_junk env) [1..<1 + unat len + 0]) 1
      else Some (opcode # map (e_junk env) [1..<1 + unat len + 0])) = Some (opcode # v)"
    using buf_fresh(2) [OF v(1), of opcode env 0] n assms(2) v(1) by (auto simp: word_less_nat_alt)
  have ns: "(local_sign att \<noteq> None \<and> opcode AND ATT_OP_SIGNED_MASK \<noteq> 0) = False" using assms(1) by simp
  show ?thesis
    using assms(4) le unfolding encode_pdu_def Let_def ns if_False len b1 bind.bind_lunit b2
    by (simp split: option.split)
qed

text \<open>
  An accepted PDU is the opcode followed by the parameters and, when the connection has a
  signing key and the opcode asks for it, by the twelve bytes of the signature over the two; it
  fits the MTU of the connection.
\<close>

theorem att_pdu_layout:
  assumes "create_att_send_op env att opcode (Some p) len callback ud destroy = Some (Some oper)"
    "length p = unat len" "unat len + 13 < 2 ^ 16"
    "\<And>key msg cnt sig. e_sign env key msg cnt = Some sig \<Longrightarrow> length sig = 12"
  shows "length (op_pdu oper) \<le> unat (att_mtu att) \<and>
    (\<not> signs att opcode \<longrightarrow> op_pdu oper = opcode # p) \<and>
    (signs att opcode \<and> crypto att \<longrightarrow>
      (\<exists>s cnt sig. local_sign att = Some s \<and> e_counter env (sign_counter s) (sign_user_data s) None = Some cnt \<and>
         e_sign env (sign_key s) (opcode # p) cnt = Some sig \<and> op_pdu oper = opcode # p @ sig))"
proof -
  have enc: "encode_pdu env att opcode (Some p) len = Some (Some (op_pdu oper))" and mem: "e_mem env"
    using assms(1) by (auto simp: create_att_send_op_def Let_def bind_eq_Some_conv encode_pdu_def split: if_splits)
  note shape = encode_pdu_shape [OF enc]
  have lay: "\<not> signs att opcode \<Longrightarrow> op_pdu oper = opcode # p"
    using enc encode_pdu_layout [OF assms(2,3) shape(2) mem] by simp
  have "\<exists>s cnt sig. local_sign att = Some s \<and> e_counter env (sign_counter s) (sign_user_data s) None = Some cnt \<and>
         e_sign env (sign_key s) (opcode # p) cnt = Some sig \<and> op_pdu oper = opcode # p @ sig"
    if sg: "signs att opcode" "crypto att"
  proof -
    obtain s where s: "local_sign att = Some s" using sg(1) by (auto simp: signs_def)
    obtain cnt sig where cnt: "e_counter env (sign_counter s) (sign_user_data s) None = Some cnt"
      and sig: "e_sign env (sign_key s) (opcode # p) cnt = Some sig"
      and wr: "buf_write (opcode # p @ pdu_junk env (1 + unat len) 12) (1 + unat len)
           (take 12 sig) = Some (op_pdu oper)"
      using enc encode_pdu_layout [OF assms(2,3) shape(2) mem] sg s
      by (auto simp: Let_def bt_crypto_sign_att_def BT_ATT_SIGNATURE_LEN_def split: option.splits)
    have "op_pdu oper = opcode # p @ sig"
      using wr buf_fresh(3) [OF assms(2), of sig 12 opcode env] assms(4) [OF sig] by simp
    with s cnt sig show ?thesis by blast
  qed
  moreover have "length (op_pdu oper) \<le> unat (att_mtu att)" using shape(1,2) by (simp add: word_le_nat_alt)
  ultimately show ?thesis using lay by blast
qed

text \<open>Witness of \<open>att_pdu_layout\<close>: a write command of the example connection.\<close>

theorem att_pdu_layout_witness:
  "\<exists>oper. create_att_send_op example_env example_att 0x52 (Some [5, 0, 9]) 3 None None None = Some (Some oper) \<and>
     op_pdu oper = [0x52, 5, 0, 9]"
proof -
  obtain oper where c: "create_att_send_op example_env example_att 0x52 (Some [5, 0, 9]) 3 None None None = Some (Some oper)"
    by (simp add: att_exec)
  have "\<not> signs example_att 0x52" by (simp add: signs_def att_exec)
  with att_pdu_layout [OF c] show ?thesis using c by (auto simp: example_env_def)
qed

section \<open>Responses\<close>

text \<open>What the callback of a pending request is told about a response, and when it is retried.\<close>

definition rsp_matches :: "'c att_send_op \<Rightarrow> u8 \<Rightarrow> bytes \<Rightarrow> bool" where
  "rsp_matches oper opcode pdu \<longleftrightarrow>
     (if opcode = BT_ATT_OP_ERROR_RSP then length pdu = 4 \<and> hd pdu = op_opcode oper
      else opcode = op_opcode oper + 1)"

definition retries :: "'c att_env \<Rightarrow> 'c bt_att \<Rightarrow> u8 \<Rightarrow> bytes \<Rightarrow> bool" where
  "retries env att opcode pdu \<longleftrightarrow>
     opcode = BT_ATT_OP_ERROR_RSP \<and> length pdu = 4 \<and> fst (change_security env att (pdu ! 3))"

lemma four_bytes: "length xs = 4 \<longleftrightarrow> (\<exists>a b c d. xs = [a, b, c, d])"
  by (auto simp: numeral_eq_Suc length_Suc_conv)

lemma handle_error_rsp_eval:
  "length pdu = 4 \<Longrightarrow> fst (handle_error_rsp env att oper pdu) = hd pdu"
  "length pdu = 4 \<Longrightarrow> fst (snd (handle_error_rsp env att oper pdu)) = fst (change_security env att (pdu ! 3))"
  "length pdu \<noteq> 4 \<Longrightarrow> handle_error_rsp env att oper pdu = (0, False, att, [])"
  by (auto simp: four_bytes handle_error_rsp_def split: prod.split bool.split list.splits)

lemma handle_rsp_final:
  assumes "pending_req att = Some oper" "op_wf oper" "op_type oper = ATT_OP_TYPE_REQ"
    "get_op_type opcode = ATT_OP_TYPE_RSP" "\<not> retries env att opcode pdu"
  shows "handle_rsp env att opcode pdu =
    (if rsp_matches oper opcode pdu then finish_req env att oper opcode (if pdu = [] then None else Some pdu)
     else finish_req env att oper BT_ATT_OP_ERROR_RSP None)"
proof (cases "opcode = BT_ATT_OP_ERROR_RSP")
  case True
  obtain q r att1 e where err: "handle_error_rsp env att oper pdu = (q, r, att1, e)" by (metis prod_cases4)
  have "op_opcode oper \<noteq> 0"
  proof
    assume "op_opcode oper = 0"
    with assms(2,3) show False by (simp add: op_wf_def opcode_eval)
  qed
  then have q: "(q = op_opcode oper) = rsp_matches oper opcode pdu" and r: "\<not> r"
    using handle_error_rsp_eval [of pdu env att oper] err True assms(5)
    by (cases "length pdu = 4"; simp add: rsp_matches_def retries_def)+
  from err r have "att1 = att" by (cases rule: error_rsp_cases) auto
  with True assms(1) err q r show ?thesis by (auto simp: handle_rsp_def Let_def)
next
  case False
  have req: "get_op_type (op_opcode oper) = ATT_OP_TYPE_REQ" using assms(2,3) by (simp add: op_wf_def)
  have "get_req_opcode opcode \<noteq> 0 \<and> opcode = get_req_opcode opcode + 1"
    using opcode_facts [of opcode] assms(4) False by blast
  then have "(get_req_opcode opcode = op_opcode oper) = (opcode = op_opcode oper + 1)" 
    by (metis add_right_imp_eq)
  then show ?thesis using False assms(1) \<open>get_req_opcode opcode \<noteq> 0 \<and> _\<close>
    by (auto simp: handle_rsp_def rsp_matches_def Let_def)
qed

text \<open>
  An error response that makes the connection raise its security level is not reported: the
  request goes back to the head of its queue, its timer is stopped, and it is sent again.
\<close>

theorem security_retry:
  assumes "att_wf att" "pending_req att = Some oper" "retries env att opcode pdu"
  shows "\<exists>att' es. can_read_data env att (Some (opcode # pdu)) = Some (True, att', es) \<and>
    pending_req att' = None \<and> req_queue att' = oper\<lparr>op_timeout_id := 0\<rparr> # req_queue att \<and>
    freed es = {#} \<and> called es = {#} \<and> (op_timeout_id oper \<noteq> 0 \<longrightarrow> es = [Att_timer_stop (op_timeout_id oper)])"
proof -
  obtain q r att1 e where err: "handle_error_rsp env att oper pdu = (q, r, att1, e)" by (metis prod_cases4)
  have r: "r" using handle_error_rsp_eval(2) [of pdu env att oper] err assms(3) by (simp add: retries_def)
  have "get_op_type opcode = ATT_OP_TYPE_RSP" using assms(3) by (simp add: retries_def opcode_eval)
  with err r show ?thesis
    by (cases rule: error_rsp_cases)
      (use assms(2,3) err in \<open>auto simp: can_read_data_def handle_rsp_def retries_def Let_def\<close>)
qed

text \<open>Only these errors are retried, and only while the connection chooses its security level itself.\<close>

lemma retries_only:
  assumes "retries env att opcode pdu"
  shows "opcode = BT_ATT_OP_ERROR_RSP \<and> io_sec_level att = BT_ATT_SECURITY_AUTO \<and>
    (pdu ! 3 = BT_ATT_ERROR_INSUFFICIENT_ENCRYPTION \<or> pdu ! 3 = BT_ATT_ERROR_AUTHENTICATION)"
  using assms by (auto simp: retries_def change_security_def Let_def split: if_splits)

text \<open>
  C14: what a response read from the link does to the pending request.  An error response that makes
  the connection raise its security level (possible only for insufficient encryption and
  authentication, and only while the level is chosen automatically) puts the request back at the
  head of its queue without a call of its callback.  Every other response ends the request: its
  callback is called once, with the response and its parameters when the opcode is that of the
  request plus one (or an error response for the request), and with an error response without
  parameters otherwise, and the operation is freed.  In all cases nothing is pending afterwards.
\<close>

theorem response_delivered:
  assumes "att_wf att" "pending_req att = Some oper" "op_callback oper = Some f"
    "get_op_type opcode = ATT_OP_TYPE_RSP"
  shows "(\<exists>att' es. can_read_data env att (Some (opcode # pdu)) = Some (True, att', es) \<and> pending_req att' = None \<and>
      (if retries env att opcode pdu
       then req_queue att' = oper\<lparr>op_timeout_id := 0\<rparr> # req_queue att \<and> freed es = {#} \<and> called es = {#}
       else req_queue att' = req_queue att \<and> freed es = {# op_id oper #} \<and> called es = {# op_id oper #} \<and>
         hd es = (if rsp_matches oper opcode pdu
                  then Att_op_callback (op_id oper) f opcode (if pdu = [] then None else Some pdu) (op_user_data oper)
                  else Att_op_callback (op_id oper) f BT_ATT_OP_ERROR_RSP None (op_user_data oper)))) \<and>
    (retries env att opcode pdu \<longrightarrow> opcode = BT_ATT_OP_ERROR_RSP \<and> io_sec_level att = BT_ATT_SECURITY_AUTO \<and>
      (pdu ! 3 = BT_ATT_ERROR_INSUFFICIENT_ENCRYPTION \<or> pdu ! 3 = BT_ATT_ERROR_AUTHENTICATION))"
proof (cases "retries env att opcode pdu")
  case True
  then show ?thesis using security_retry [OF assms(1,2) True] retries_only by auto
next
  case False
  have "op_wf oper" "op_type oper = ATT_OP_TYPE_REQ" using assms(1,2) by (auto simp: att_wf_defs)
  from handle_rsp_final [OF assms(2) this assms(4) False] show ?thesis
    using assms(3,4) False by (simp add: can_read_data_def finish_req_def)
qed

text \<open>The example connection with a read request on its way.\<close>

definition example_op :: "nat att_send_op" where
  "example_op = \<lparr>op_id = 1, op_timeout_id = 7, op_type = ATT_OP_TYPE_REQ, op_opcode = 0x0A, op_pdu = [0x0A, 5, 0],
     op_callback = Some 100, op_destroy = None, op_user_data = None\<rparr>"

definition example_waiting :: "nat bt_att" where
  "example_waiting = example_att\<lparr>pending_req := Some example_op, next_send_id := 2\<rparr>"

lemma example_waiting_facts:
  "att_wf example_waiting" "pending_req example_waiting = Some example_op" "op_callback example_op = Some 100"
  "get_op_type 0x0B = ATT_OP_TYPE_RSP" "\<not> retries example_env example_waiting 0x0B [42]"
  "retries example_env example_waiting 0x01 [0x0A, 5, 0, 0x0F]"
  by (simp_all add: example_waiting_def example_op_def att_exec att_wf_defs op_wf_def retries_def
      change_security_def bt_att_set_security_def bt_att_get_security_def BT_ATT_SECURITY_AUTO_def
      BT_ATT_SECURITY_MEDIUM_def BT_ATT_SECURITY_HIGH_def BT_ATT_ERROR_INSUFFICIENT_ENCRYPTION_def)

text \<open>Witness of \<open>response_delivered\<close>.\<close>

theorem response_delivered_witness:
  "(\<exists>att' es. can_read_data example_env example_waiting (Some [0x0B, 42]) = Some (True, att', es) \<and>
     pending_req att' = None \<and> hd es = Att_op_callback 1 100 0x0B (Some [42]) None) \<and>
   (\<exists>att' es. can_read_data example_env example_waiting (Some [0x01, 0x0A, 5, 0, 0x0F]) = Some (True, att', es) \<and>
     req_queue att' = example_op\<lparr>op_timeout_id := 0\<rparr> # req_queue example_waiting \<and> called es = {#})"
proof
  show "\<exists>att' es. can_read_data example_env example_waiting (Some [0x0B, 42]) = Some (True, att', es) \<and>
     pending_req att' = None \<and> hd es = Att_op_callback 1 100 0x0B (Some [42]) None"
    using response_delivered [OF example_waiting_facts(1-4), of example_env "[42]"] example_waiting_facts(5)
    by (simp add: example_op_def rsp_matches_def BT_ATT_OP_ERROR_RSP_def) blast
  have "get_op_type 0x01 = ATT_OP_TYPE_RSP" by (simp add: opcode_eval)
  from response_delivered [OF example_waiting_facts(1-3) this, of example_env "[0x0A, 5, 0, 0x0F]"] example_waiting_facts(6)
  show "\<exists>att' es. can_read_data example_env example_waiting (Some [0x01, 0x0A, 5, 0, 0x0F]) = Some (True, att', es) \<and>
     req_queue att' = example_op\<lparr>op_timeout_id := 0\<rparr> # req_queue example_waiting \<and> called es = {#}"
    by simp blast
qed

text \<open>Witness of \<open>security_retry\<close>: insufficient encryption on an unencrypted link.\<close>

theorem security_retry_witness:
  "\<exists>att' es. can_read_data example_env example_waiting (Some [0x01, 0x0A, 5, 0, 0x0F]) = Some (True, att', es) \<and>
     req_queue att' = [example_op\<lparr>op_timeout_id := 0\<rparr>] \<and> es = [Att_timer_stop 7]"
  using security_retry [OF example_waiting_facts(1,2,6)]
  by (fastforce simp: example_op_def example_waiting_def att_exec)

section \<open>Requests are served one at a time\<close>

lemma wakeup_send_in_req:
  "bt_att_send env (Some att) opcode pdu len callback ud destroy = Some (r, Some att') \<Longrightarrow> in_req att' = in_req att"
  by (erule bt_att_send_cases) (auto split: att_op_type.split)

lemma notify_in_req:
  "handle_notify env att opcode pdu = Some (att', es) \<Longrightarrow> in_req att' = in_req att"
  by (erule notify_cases) (auto dest: wakeup_send_in_req)

lemma rsp_in_req:
  assumes "handle_rsp env att opcode pdu = (att', es)"
  shows "in_req att' = in_req att"
proof (cases "pending_req att")
  case (Some oper)
  obtain q r att1 e where err: "handle_error_rsp env att oper pdu = (q, r, att1, e)" by (metis prod_cases4)
  from err have "in_req att1 = in_req att" by (cases rule: error_rsp_cases) auto
  with assms Some err show ?thesis
    by (auto simp: handle_rsp_def finish_req_def Let_def split: if_splits bool.splits)
qed (use assms in \<open>auto simp: handle_rsp_def\<close>)

lemma pick_in_req: "pick_next_send_op att = (x, att1) \<Longrightarrow> in_req att1 = in_req att"
  by (erule pick_next_cases) auto

lemma pick_rsp:
  assumes "pick_next_send_op att = (Some oper, att1)" "queues_typed att" "op_type oper = ATT_OP_TYPE_RSP"
  shows "oper \<in> set (write_queue att)"
  using assms by (cases rule: pick_next_cases) (auto simp: queues_typed_def)

lemma in_req_cleared:
  assumes "att_step env att x = Some (att', es)" "att_wf att" "in_req att" "\<not> in_req att'"
  shows "\<exists>oper \<in> set (write_queue att). op_type oper = ATT_OP_TYPE_RSP \<and> Att_send_pdu (op_pdu oper) \<in> set es"
proof (cases x)
  case Writable
  obtain r t e where w: "can_write_data env att = (r, t, e)" by (metis prod_cases3)
  with Writable assms have res: "att' = (if r then t else write_watch_destroy t)" "es = e"
    by (auto split: if_splits)
  from w show ?thesis
  proof (cases rule: can_write_cases)
    case (other oper att1)
    have "op_type oper = ATT_OP_TYPE_RSP"
      using other res assms(3,4) pick_in_req [OF other(1)] by (auto split: if_splits)
    then show ?thesis using pick_rsp [OF other(1)] assms(2) other(3) res(2) by (auto simp: att_wf_def)
  qed (use res assms(3,4) in \<open>auto dest: pick_in_req simp: write_watch_destroy_def\<close>)
next
  case (Readable bs)
  then obtain r where "can_read_data env att bs = Some (r, att', es)" using assms(1) by (auto simp: bind_eq_Some_conv)
  then show ?thesis
    using assms(3,4)
    by (cases rule: read_cases)
      (auto dest: rsp_in_req notify_in_req simp: handle_conf_def split: option.splits if_splits)
next
  case (Timer i)
  with assms(1) have "timeout_cb att i = (att', es)" by simp
  then show ?thesis using assms(3,4) by (cases rule: timeout_cases) auto
next
  case (Cancel i)
  then obtain r where "bt_att_cancel env (Some att) i = (r, Some att', es)"
    using assms(1) by (auto simp: bind_eq_Some_conv Let_def split: prod.splits)
  then show ?thesis using assms(3,4) by (cases rule: bt_att_cancel_cases) auto
qed (use assms control_step(1) [OF assms(1)] same_opsD(4) in
  \<open>auto simp: bind_eq_Some_conv Let_def bt_att_send_error_rsp_def bt_att_cancel_all_def disconnect_cb_def
     write_watch_destroy_def bt_att_unregister_all_def control_op_def dest: wakeup_send_in_req split: prod.splits if_splits\<close>)

text \<open>
  C15: the engine serves one request at a time: a request that arrives while another is being served
  reaches no handler and makes the engine shut the link down, and the connection becomes free for
  the next request only in a step that sends a response.
\<close>

theorem requests_sequential:
  assumes "att_wf att" "in_req att" "att_step env att x = Some (att', es)"
  shows "(\<forall>opcode pdu. x = Readable (Some (opcode # pdu)) \<and> get_op_type opcode = ATT_OP_TYPE_REQ \<longrightarrow>
            att' = att \<and> es = [Att_shutdown]) \<and>
    (\<not> in_req att' \<longrightarrow> (\<exists>opcode pdu. get_op_type opcode = ATT_OP_TYPE_RSP \<and> Att_send_pdu (opcode # pdu) \<in> set es))"
proof -
  have "\<exists>opcode pdu. get_op_type opcode = ATT_OP_TYPE_RSP \<and> Att_send_pdu (opcode # pdu) \<in> set es"
    if out: "\<not> in_req att'"
  proof -
    obtain oper where oper: "oper \<in> set (write_queue att)" "op_type oper = ATT_OP_TYPE_RSP"
      "Att_send_pdu (op_pdu oper) \<in> set es" using in_req_cleared [OF assms(3,1,2) out] by blast
    have "op_wf oper" using oper(1) assms(1) by (auto simp: att_wf_defs)
    then show ?thesis using oper(2,3)
      by (intro exI [of _ "op_opcode oper"] exI [of _ "tl (op_pdu oper)"]) (cases "op_pdu oper"; auto simp: op_wf_def)
  qed
  moreover have "att' = att \<and> es = [Att_shutdown]"
    if "x = Readable (Some (opcode # pdu))" "get_op_type opcode = ATT_OP_TYPE_REQ" for opcode pdu
    using that assms(2,3) by (simp add: can_read_data_def)
  ultimately show ?thesis by blast
qed

text \<open>Witness of \<open>requests_sequential\<close>: a second read request.\<close>

theorem requests_sequential_witness:
  "\<exists>att' es. att_step example_env (example_att\<lparr>in_req := True\<rparr>) (Readable (Some [0x0A, 5, 0])) = Some (att', es) \<and>
     es = [Att_shutdown]"
proof -
  have "att_wf (example_att\<lparr>in_req := True\<rparr>)" using new_wf(1) [OF example_new] by simp
  moreover obtain att' es where
    "att_step example_env (example_att\<lparr>in_req := True\<rparr>) (Readable (Some [0x0A, 5, 0])) = Some (att', es)"
    by (simp add: att_exec)
  ultimately show ?thesis
    using requests_sequential [of "example_att\<lparr>in_req := True\<rparr>" example_env "Readable (Some [0x0A, 5, 0])" att' es]
    by (simp add: opcode_eval)
qed

section \<open>Queued PDUs are sent in order\<close>

primrec sent :: "'c att_event list \<Rightarrow> bytes list" where
  "sent [] = []"
| "sent (e # es) = (case e of Att_send_pdu p \<Rightarrow> p # sent es | _ \<Rightarrow> sent es)"

lemma sent_append [simp]: "sent (xs @ ys) = sent xs @ sent ys"
  by (induction xs) (auto split: att_event.split)

lemma sent_destroy [simp]: "sent (destroy_att_send_op oper) = []"
  by (auto simp: destroy_att_send_op_def split: option.split)

lemma writable_write_queue:
  assumes "att_wf att" "writer_active att" "write_queue att = oper # ops" "e_send env (op_pdu oper) \<ge> 0"
  shows "\<exists>att' es. att_step env att Writable = Some (att', es) \<and> sent es = [op_pdu oper] \<and> write_queue att' = ops \<and>
    writer_active att' \<and> req_queue att' = req_queue att \<and> pending_req att' = pending_req att"
proof -
  have pick: "pick_next_send_op att = (Some oper, att\<lparr>write_queue := ops\<rparr>)"
    using assms(3) by (simp add: pick_next_send_op_def)
  have "op_type oper \<noteq> ATT_OP_TYPE_REQ" "op_type oper \<noteq> ATT_OP_TYPE_IND"
    using assms(1,3) by (auto simp: att_wf_defs)
  then show ?thesis using assms(2,4) pick by (cases "op_type oper") (auto simp: can_write_data_def)
qed

lemma writes_drain:
  assumes "att_wf att" "writer_active att" "\<And>pdu. e_send env pdu \<ge> 0"
  shows "\<exists>att' es. att_run att (replicate (length (write_queue att)) (env, Writable)) = Some (att', es) \<and>
    sent es = map op_pdu (write_queue att) \<and> write_queue att' = [] \<and> writer_active att' \<and>
    req_queue att' = req_queue att \<and> pending_req att' = pending_req att"
  using assms(1,2)
proof (induction "write_queue att" arbitrary: att)
  case Nil
  then show ?case by simp
next
  case (Cons oper ops)
  from writable_write_queue [OF Cons.prems Cons.hyps(2) [symmetric] assms(3)]
  obtain att1 e1 where st: "att_step env att Writable = Some (att1, e1)" "sent e1 = [op_pdu oper]"
    "write_queue att1 = ops" "writer_active att1" "req_queue att1 = req_queue att" "pending_req att1 = pending_req att"
    by blast
  have "att_wf att1" using att_step_ok(2) [OF st(1) Cons.prems(1)] .
  from Cons.hyps(1) [OF st(3) [symmetric] this st(4)] st obtain att2 e2 where
    "att_run att1 (replicate (length ops) (env, Writable)) = Some (att2, e2)" "sent e2 = map op_pdu ops"
    "write_queue att2 = []" "writer_active att2" "req_queue att2 = req_queue att" "pending_req att2 = pending_req att"
    by auto
  with st Cons.hyps(2) [symmetric] show ?case by (simp del: att_step.simps)
qed

lemma att_run_append:
  assumes "att_run att xs = Some (att1, e1)" "att_run att1 ys = Some (att2, e2)"
  shows "att_run att (xs @ ys) = Some (att2, e1 @ e2)"
  using assms
proof (induction xs arbitrary: att e1)
  case (Cons x xs)
  then show ?case by (auto simp: bind_eq_Some_conv simp del: att_step.simps)
qed simp

text \<open>
  C16: while the link accepts what is written, the write handler sends every response, command,
  notification and confirmation that is queued, in the order in which they were queued, and then
  the first request that is waiting, when no other request is pending.
\<close>

theorem writer_progress:
  assumes "att_wf att" "awake att" "att_io att" "sendable att" "\<And>pdu. e_send env pdu \<ge> 0"
    "pending_req att = None" "req_queue att = oper # opers"
  shows "\<exists>att' es. att_run att (replicate (length (write_queue att) + 1) (env, Writable)) = Some (att', es) \<and>
    sent es = map op_pdu (write_queue att) @ [op_pdu oper] \<and> write_queue att' = [] \<and> req_queue att' = opers \<and>
    pending_req att' = Some (oper\<lparr>op_timeout_id := e_timeout env\<rparr>)"
proof -
  have act: "writer_active att" using assms(2-4) by (simp add: awake_def)
  from writes_drain [OF assms(1) act assms(5)] obtain att1 e1 where run: 
    "att_run att (replicate (length (write_queue att)) (env, Writable)) = Some (att1, e1)"
    and res: "sent e1 = map op_pdu (write_queue att)" "write_queue att1 = []" "writer_active att1"
      "req_queue att1 = oper # opers" "pending_req att1 = None" using assms(6,7) by auto
  have ty: "op_type oper = ATT_OP_TYPE_REQ" using assms(1,7) by (auto simp: att_wf_defs)
  have "\<not> e_send env (op_pdu oper) < 0" using assms(5) [of "op_pdu oper"] by simp
  then have "att_run att1 [(env, Writable)] =
      Some (att1\<lparr>req_queue := opers, pending_req := Some (oper\<lparr>op_timeout_id := e_timeout env\<rparr>)\<rparr>,
            [Att_send_pdu (op_pdu oper)])"
    using res ty by (simp add: can_write_data_def pick_next_send_op_def)
  from att_run_append [OF run this] show ?thesis using res
    by (simp add: replicate_append_same del: att_run.simps)
qed

text \<open>Witness of \<open>writer_progress\<close>: a command and a request are queued.\<close>

definition example_queued :: "nat bt_att" where
  "example_queued = example_att\<lparr>writer_active := True, next_send_id := 3,
     req_queue := [example_op\<lparr>op_timeout_id := 0\<rparr>],
     write_queue := [example_op\<lparr>op_id := 2, op_timeout_id := 0, op_type := ATT_OP_TYPE_CMD, op_opcode := 0x52,
                       op_pdu := [0x52, 5, 0, 9], op_callback := None\<rparr>]\<rparr>"

theorem writer_progress_witness:
  "\<exists>att' es. att_run example_queued (replicate 2 (example_env, Writable)) = Some (att', es) \<and>
     sent es = [[0x52, 5, 0, 9], [0x0A, 5, 0]] \<and> pending_req att' = Some example_op"
proof -
  have "att_wf example_queued" "awake example_queued" "att_io example_queued" "sendable example_queued"
    "pending_req example_queued = None" "req_queue example_queued = [example_op\<lparr>op_timeout_id := 0\<rparr>]"
    by (simp_all add: example_queued_def example_op_def att_exec att_wf_defs op_wf_def awake_def sendable_def)
  moreover have "e_send example_env pdu \<ge> 0" "e_timeout example_env = 7" for pdu by (simp_all add: example_env_def)
  moreover have "length (write_queue example_queued) = 1"
    "map op_pdu (write_queue example_queued) = [[0x52, 5, 0, 9]]" by (simp_all add: example_queued_def)
  ultimately show ?thesis
    using writer_progress [of example_queued example_env "example_op\<lparr>op_timeout_id := 0\<rparr>" "[]"]
    by (fastforce simp: example_op_def numeral_2_eq_2 simp del: att_run.simps replicate.simps)
qed

section \<open>Disconnection\<close>

lemma disc_op_callbacks:
  "Att_op_callback i f opcode pdu u \<in> set (disc_att_send_op oper) \<longleftrightarrow>
     op_callback oper = Some f \<and> i = op_id oper \<and> opcode = BT_ATT_OP_ERROR_RSP \<and> pdu = None \<and> u = op_user_data oper"
  by (auto simp: disc_att_send_op_def destroy_att_send_op_def split: option.splits)

text \<open>
  C28: when the link goes down every operation the connection holds is freed, the callback of each
  operation that has one is called once, with an error response, and nothing stays queued or
  pending; the write handler is gone.
\<close>

theorem disconnect_reports:
  assumes "disconnect_cb att err = (r, att', es)"
  shows "\<not> r \<and> \<not> att_io att' \<and> \<not> writer_active att' \<and> att_ops att' = [] \<and> freed es = live att \<and>
    called es = mset (map op_id (filter (\<lambda>oper. op_callback oper \<noteq> None) (att_ops att))) \<and>
    (\<forall>oper \<in> set (att_ops att). \<forall>f. op_callback oper = Some f \<longrightarrow>
       Att_op_callback (op_id oper) f BT_ATT_OP_ERROR_RSP None (op_user_data oper) \<in> set es)"
proof -
  define e1 where "e1 = concat (map disc_att_send_op (req_queue att)) @ concat (map disc_att_send_op (ind_queue att)) @
     concat (map disc_att_send_op (write_queue att)) @ disc_pending (pending_req att) @ disc_pending (pending_ind att)"
  obtain e2 where es: "es = e1 @ e2" and e2: "freed e2 = {#}" "called e2 = {#}"
    using assms by (auto simp: e1_def disconnect_cb_def bt_att_unregister_all_def Let_def concat_account)
  have "freed e1 = live att" by (simp add: e1_def disc_ops_account disc_pending_account live_def att_ops_def)
  moreover have "called e1 = mset (map op_id (filter (\<lambda>oper. op_callback oper \<noteq> None) (att_ops att)))"
    by (simp add: e1_def disc_ops_account disc_pending_account att_ops_def)
  moreover have "Att_op_callback (op_id oper) f BT_ATT_OP_ERROR_RSP None (op_user_data oper) \<in> set e1"
    if "oper \<in> set (att_ops att)" "op_callback oper = Some f" for oper f
    using that by (cases "pending_req att"; cases "pending_ind att")
      (auto simp: e1_def att_ops_def disc_pending_def disc_op_callbacks)
  moreover have "\<not> r \<and> \<not> att_io att' \<and> \<not> writer_active att'"
    using assms by (auto simp: disconnect_cb_def bt_att_unregister_all_def Let_def write_watch_destroy_def)
  ultimately show ?thesis using disconnect_balanced(2) [OF assms] e2 by (simp add: es del: mset_map)
qed

text \<open>Witness of \<open>disconnect_reports\<close>: the pending read is told.\<close>

theorem disconnect_reports_witness:
  "\<exists>r att' es. disconnect_cb example_waiting 104 = (r, att', es) \<and> called es = {# 1 #} \<and>
     Att_op_callback 1 100 0x01 None None \<in> set es"
proof -
  obtain r att' es where d: "disconnect_cb example_waiting 104 = (r, att', es)" by (metis prod_cases3)
  have "att_ops example_waiting = [example_op]" by (simp add: example_waiting_def att_ops_def att_exec)
  with disconnect_reports [OF d] d show ?thesis
    by (simp add: example_op_def BT_ATT_OP_ERROR_RSP_def ex_bool_eq)
qed

section \<open>Error responses\<close>

lemma ecode_nonzero: "att_ecode_from_error err \<noteq> 0"
proof -
  have "word_of_int err \<noteq> (0 :: u8)" if "0 < err" "err < 255"
  proof
    assume "word_of_int err = (0 :: u8)"
    then have "uint (word_of_int err :: u8) = 0" by simp
    with that show False by (simp add: uint_word_of_int)
  qed
  then show ?thesis
    by (simp add: att_ecode_from_error_def BT_ATT_ERROR_INVALID_HANDLE_def BT_ATT_ERROR_INSUFFICIENT_RESOURCES_def
        BT_ERROR_ALREADY_IN_PROGRESS_def BT_ERROR_OUT_OF_RANGE_def BT_ATT_ERROR_UNLIKELY_def)
qed

lemma error_rsp_queued:
  assumes "att_wf att" "att_io att" "e_mem env" "opcode \<noteq> 0"
  shows "\<exists>i att' rsp. bt_att_send_error_rsp env (Some att) opcode handle err = Some (i, Some att') \<and>
    write_queue att' = write_queue att @ [rsp] \<and>
    op_pdu rsp = [BT_ATT_OP_ERROR_RSP, opcode] @ put_le16 handle @ [att_ecode_from_error err]"
proof -
  define pdu where "pdu = [opcode] @ put_le16 handle @ [att_ecode_from_error err]"
  have len: "length pdu = 4" by (simp add: pdu_def put_le16_def)
  have ns: "\<not> signs att BT_ATT_OP_ERROR_RSP" by (simp add: signs_def BT_ATT_OP_ERROR_RSP_def ATT_OP_SIGNED_MASK_def)
  have "unat (att_pdu_len att BT_ATT_OP_ERROR_RSP (Some pdu) 4) = 5" using att_pdu_len_small [of 4 att] ns by simp
  moreover have "23 \<le> unat (att_mtu att)"
    using assms(1) by (simp add: att_wf_def BT_ATT_DEFAULT_LE_MTU_def word_le_nat_alt)
  ultimately have fits: "att_pdu_len att BT_ATT_OP_ERROR_RSP (Some pdu) 4 \<le> att_mtu att" by (simp add: word_le_nat_alt)
  have "encode_pdu env att BT_ATT_OP_ERROR_RSP (Some pdu) 4 = Some (Some (BT_ATT_OP_ERROR_RSP # pdu))"
    using encode_pdu_layout [of pdu 4 att BT_ATT_OP_ERROR_RSP env] fits ns assms(3) len by simp
  moreover have "get_op_type BT_ATT_OP_ERROR_RSP = ATT_OP_TYPE_RSP" by (simp add: opcode_eval)
  ultimately show ?thesis
    using assms(2,4) len
    by (simp add: bt_att_send_error_rsp_def bt_att_send_def create_att_send_op_def Let_def flip: pdu_def)
      (simp add: pdu_def)
qed

text \<open>
  C27: an error response one side sends for a request arrives at the other with the opcode, the handle
  and the error code, which is never 0 and is the application's error number when that is between 1
  and 254.  The callback of the pending request gets them, unless the error is insufficient
  encryption or authentication and the connection chooses its security level itself and raises it,
  as on L2CAP sockets: then the request waits at the head of its queue to be sent again.
\<close>

theorem error_response_roundtrip:
  assumes "att_wf server" "att_io server" "e_mem env" "att_wf client" "pending_req client = Some oper"
    "op_callback oper = Some f"
  shows "\<exists>i server' rsp client' es ecode params.
    bt_att_send_error_rsp env (Some server) (op_opcode oper) handle err = Some (i, Some server') \<and>
    write_queue server' = write_queue server @ [rsp] \<and> op_pdu rsp = BT_ATT_OP_ERROR_RSP # params \<and>
    params = [op_opcode oper] @ put_le16 handle @ [ecode] \<and> ecode \<noteq> 0 \<and> (0 < err \<and> err < 255 \<longrightarrow> uint ecode = err) \<and>
    can_read_data env' client (Some (op_pdu rsp)) = Some (True, client', es) \<and>
    (if retries env' client BT_ATT_OP_ERROR_RSP params
     then called es = {#} \<and> req_queue client' = oper\<lparr>op_timeout_id := 0\<rparr> # req_queue client \<and>
       io_sec_level client = BT_ATT_SECURITY_AUTO \<and>
       (ecode = BT_ATT_ERROR_INSUFFICIENT_ENCRYPTION \<or> ecode = BT_ATT_ERROR_AUTHENTICATION)
     else called es = {# op_id oper #} \<and>
       hd es = Att_op_callback (op_id oper) f BT_ATT_OP_ERROR_RSP (Some params) (op_user_data oper))"
proof -
  have oper: "op_wf oper" "op_type oper = ATT_OP_TYPE_REQ" using assms(4,5) by (auto simp: att_wf_defs)
  then have "op_opcode oper \<noteq> 0" by (auto simp: op_wf_def opcode_eval)
  from error_rsp_queued [OF assms(1-3) this, of handle err] obtain i server' rsp where
    rsp: "bt_att_send_error_rsp env (Some server) (op_opcode oper) handle err = Some (i, Some server')"
      "write_queue server' = write_queue server @ [rsp]"
      "op_pdu rsp = [BT_ATT_OP_ERROR_RSP, op_opcode oper] @ put_le16 handle @ [att_ecode_from_error err]" by blast
  define params where "params = [op_opcode oper] @ put_le16 handle @ [att_ecode_from_error err]"
  have pdu: "op_pdu rsp = BT_ATT_OP_ERROR_RSP # params" "params ! 3 = att_ecode_from_error err" "params \<noteq> []"
    using rsp(3) by (simp_all add: params_def put_le16_def)
  have "rsp_matches oper BT_ATT_OP_ERROR_RSP params" by (simp add: rsp_matches_def put_le16_def params_def)
  moreover have ty: "get_op_type BT_ATT_OP_ERROR_RSP = ATT_OP_TYPE_RSP" by (simp add: opcode_eval)
  ultimately have "\<exists>client' es. can_read_data env' client (Some (op_pdu rsp)) = Some (True, client', es) \<and>
      called es = {# op_id oper #} \<and>
      hd es = Att_op_callback (op_id oper) f BT_ATT_OP_ERROR_RSP (Some params) (op_user_data oper)"
    if "\<not> retries env' client BT_ATT_OP_ERROR_RSP params"
    using handle_rsp_final [OF assms(5) oper ty that] assms(6) pdu by (simp add: can_read_data_def finish_req_def)
  moreover have "\<exists>client' es. can_read_data env' client (Some (op_pdu rsp)) = Some (True, client', es) \<and>
      called es = {#} \<and> req_queue client' = oper\<lparr>op_timeout_id := 0\<rparr> # req_queue client"
    if "retries env' client BT_ATT_OP_ERROR_RSP params"
    using security_retry [OF assms(4,5) that] pdu(1) by auto
  moreover have "0 < err \<and> err < 255 \<longrightarrow> uint (att_ecode_from_error err) = err"
    by (simp add: att_ecode_from_error_def uint_word_of_int)
  ultimately show ?thesis
    using rsp(1,2) pdu retries_only [of env' client BT_ATT_OP_ERROR_RSP params] ecode_nonzero [of err] params_def
    by (cases "retries env' client BT_ATT_OP_ERROR_RSP params") (simp; blast)+
qed

text \<open>Witness of \<open>error_response_roundtrip\<close>: attribute not found.\<close>

theorem error_response_roundtrip_witness:
  "\<exists>i server' rsp client' es.
    bt_att_send_error_rsp example_env (Some example_att) 0x0A 5 10 = Some (i, Some server') \<and>
    write_queue server' = [rsp] \<and>
    can_read_data example_env example_waiting (Some (op_pdu rsp)) = Some (True, client', es) \<and>
    hd es = Att_op_callback 1 100 0x01 (Some ([0x0A] @ put_le16 5 @ [10])) None"
proof -
  have server: "att_wf example_att" "att_io example_att" "write_queue example_att = []" "e_mem example_env"
    using new_wf [OF example_new] by (simp_all add: example_env_def att_ops_def)
  obtain i server' rsp client' es ecode params where
    r: "bt_att_send_error_rsp example_env (Some example_att) (op_opcode example_op) 5 10 = Some (i, Some server')"
      "write_queue server' = write_queue example_att @ [rsp]" "params = [op_opcode example_op] @ put_le16 5 @ [ecode]"
      "uint ecode = 10" "can_read_data example_env example_waiting (Some (op_pdu rsp)) = Some (True, client', es)"
      "if retries example_env example_waiting BT_ATT_OP_ERROR_RSP params
       then called es = {#} \<and> req_queue client' = example_op\<lparr>op_timeout_id := 0\<rparr> # req_queue example_waiting \<and>
         io_sec_level example_waiting = BT_ATT_SECURITY_AUTO \<and>
         (ecode = BT_ATT_ERROR_INSUFFICIENT_ENCRYPTION \<or> ecode = BT_ATT_ERROR_AUTHENTICATION)
       else called es = {# op_id example_op #} \<and>
         hd es = Att_op_callback (op_id example_op) 100 BT_ATT_OP_ERROR_RSP (Some params) (op_user_data example_op)"
    using error_response_roundtrip [OF server(1,2,4) example_waiting_facts(1-3), of 5 10 example_env] by auto
  have "ecode = 10" using r(4) by (simp add: word_uint_eq_iff)
  with r(6) have "hd es = Att_op_callback (op_id example_op) 100 BT_ATT_OP_ERROR_RSP (Some params) (op_user_data example_op)"
    by (simp add: BT_ATT_ERROR_INSUFFICIENT_ENCRYPTION_def BT_ATT_ERROR_AUTHENTICATION_def split: if_splits)
  with r \<open>ecode = 10\<close> server(3) show ?thesis by (auto simp: example_op_def BT_ATT_OP_ERROR_RSP_def)
qed

section \<open>Divergences\<close>

text \<open>
  C30: the signature of a signed write command is never checked: with a kernel crypto socket the
  command reaches the handlers with whatever bytes it ends with, whether or not there is a key for
  the peer, and without one every signed command is dropped.
\<close>

theorem signed_write_unverified:
  "handle_notify env att 0xD2 pdu = Some (att, if crypto att then notify_calls att 0xD2 pdu else [])"
proof -
  have "\<not> fst (handle_signed env att pdu)" if "\<not> crypto att"
    using that by (auto simp: handle_signed_def bt_crypto_sign_att_def Let_def split: option.split)
  then show ?thesis
    by (cases "handle_signed env att pdu")
      (auto simp: handle_notify_def ATT_OP_SIGNED_MASK_def opcode_eval Let_def)
qed

text \<open>
  The 16-bit length of a PDU wraps: a command with 65535 bytes of parameters is not refused by
  the test against the MTU, and its opcode is written outside the buffer of 0 bytes.
\<close>

theorem send_length_wraps:
  assumes "att_io att" "e_mem env"
  shows "bt_att_send env (Some att) 0x52 (Some p) 0xFFFF None ud destroy = None"
proof -
  have "uint (65536 :: u16) = 0" by simp
  then have "\<not> m < 65536" for m :: u16 by (simp add: word_less_def)
  with assms show ?thesis
    by (simp add: bt_att_send_def create_att_send_op_def encode_pdu_def ATT_OP_SIGNED_MASK_def opcode_eval
        buf_write_def Let_def)
qed

text \<open>Witness of \<open>send_length_wraps\<close>.\<close>

theorem send_length_wraps_witness:
  "bt_att_send example_env (Some example_att) 0x52 (Some (replicate 65535 0)) 0xFFFF None None None = None"
proof -
  have "att_io example_att" "e_mem example_env" using new_wf(6) [OF example_new] by (simp_all add: example_env_def)
  then show ?thesis by (rule send_length_wraps)
qed

lemma fips_never_requested:
  assumes "bt_att_get_security env (Some att) = BT_ATT_SECURITY_HIGH"
  shows "change_security env att BT_ATT_ERROR_AUTHENTICATION = (False, att)"
  using assms
  by (simp add: change_security_def bt_att_set_security_def BT_ATT_SECURITY_AUTO_def BT_ATT_SECURITY_MEDIUM_def
      BT_ATT_SECURITY_HIGH_def BT_ATT_SECURITY_FIPS_def BT_ATT_ERROR_AUTHENTICATION_def
      BT_ATT_ERROR_INSUFFICIENT_ENCRYPTION_def)

lemma error_255_not_kept: "att_ecode_from_error 255 = BT_ATT_ERROR_UNLIKELY"
  by (simp add: att_ecode_from_error_def)

end
