(* ===== verification/Bt_Att_Types.thy ===== *)
theory Bt_Att_Types
  imports Gatt_Db Bt_Att
begin

text \<open>
  The opcodes, error codes and permissions of \<^verbatim>\<open>src/shared/att-types.h\<close> that the GATT client and the
  GATT server share.
\<close>

definition BT_ATT_OP_MTU_REQ :: u8 where "BT_ATT_OP_MTU_REQ = 0x02"

definition BT_ATT_OP_MTU_RSP :: u8 where "BT_ATT_OP_MTU_RSP = 0x03"

definition BT_ATT_OP_FIND_INFO_REQ :: u8 where "BT_ATT_OP_FIND_INFO_REQ = 0x04"

definition BT_ATT_OP_FIND_INFO_RSP :: u8 where "BT_ATT_OP_FIND_INFO_RSP = 0x05"

definition BT_ATT_OP_FIND_BY_TYPE_REQ :: u8 where "BT_ATT_OP_FIND_BY_TYPE_REQ = 0x06"

definition BT_ATT_OP_FIND_BY_TYPE_RSP :: u8 where "BT_ATT_OP_FIND_BY_TYPE_RSP = 0x07"

definition BT_ATT_OP_READ_BY_TYPE_REQ :: u8 where "BT_ATT_OP_READ_BY_TYPE_REQ = 0x08"

definition BT_ATT_OP_READ_BY_TYPE_RSP :: u8 where "BT_ATT_OP_READ_BY_TYPE_RSP = 0x09"

definition BT_ATT_OP_READ_RSP :: u8 where "BT_ATT_OP_READ_RSP = 0x0B"

definition BT_ATT_OP_READ_BLOB_REQ :: u8 where "BT_ATT_OP_READ_BLOB_REQ = 0x0C"

definition BT_ATT_OP_READ_BLOB_RSP :: u8 where "BT_ATT_OP_READ_BLOB_RSP = 0x0D"

definition BT_ATT_OP_READ_MULT_REQ :: u8 where "BT_ATT_OP_READ_MULT_REQ = 0x0E"

definition BT_ATT_OP_READ_MULT_RSP :: u8 where "BT_ATT_OP_READ_MULT_RSP = 0x0F"

definition BT_ATT_OP_READ_BY_GRP_TYPE_REQ :: u8 where "BT_ATT_OP_READ_BY_GRP_TYPE_REQ = 0x10"

definition BT_ATT_OP_READ_BY_GRP_TYPE_RSP :: u8 where "BT_ATT_OP_READ_BY_GRP_TYPE_RSP = 0x11"

definition BT_ATT_OP_WRITE_REQ :: u8 where "BT_ATT_OP_WRITE_REQ = 0x12"

definition BT_ATT_OP_WRITE_RSP :: u8 where "BT_ATT_OP_WRITE_RSP = 0x13"

definition BT_ATT_OP_WRITE_CMD :: u8 where "BT_ATT_OP_WRITE_CMD = 0x52"

definition BT_ATT_OP_PREP_WRITE_REQ :: u8 where "BT_ATT_OP_PREP_WRITE_REQ = 0x16"

definition BT_ATT_OP_PREP_WRITE_RSP :: u8 where "BT_ATT_OP_PREP_WRITE_RSP = 0x17"

definition BT_ATT_OP_EXEC_WRITE_REQ :: u8 where "BT_ATT_OP_EXEC_WRITE_REQ = 0x18"

definition BT_ATT_OP_EXEC_WRITE_RSP :: u8 where "BT_ATT_OP_EXEC_WRITE_RSP = 0x19"

definition BT_ATT_OP_HANDLE_VAL_NOT :: u8 where "BT_ATT_OP_HANDLE_VAL_NOT = 0x1B"

definition BT_ATT_OP_HANDLE_VAL_IND :: u8 where "BT_ATT_OP_HANDLE_VAL_IND = 0x1D"

definition BT_ATT_ERROR_READ_NOT_PERMITTED :: u8 where "BT_ATT_ERROR_READ_NOT_PERMITTED = 0x02"

definition BT_ATT_ERROR_WRITE_NOT_PERMITTED :: u8 where "BT_ATT_ERROR_WRITE_NOT_PERMITTED = 0x03"

definition BT_ATT_ERROR_INVALID_PDU :: u8 where "BT_ATT_ERROR_INVALID_PDU = 0x04"

definition BT_ATT_ERROR_PREPARE_QUEUE_FULL :: u8 where "BT_ATT_ERROR_PREPARE_QUEUE_FULL = 0x09"

definition BT_ATT_ERROR_ATTRIBUTE_NOT_FOUND :: u8 where "BT_ATT_ERROR_ATTRIBUTE_NOT_FOUND = 0x0A"

definition BT_ATT_ERROR_UNSUPPORTED_GROUP_TYPE :: u8 where "BT_ATT_ERROR_UNSUPPORTED_GROUP_TYPE = 0x10"

definition BT_ATT_PERM_WRITE :: u32 where "BT_ATT_PERM_WRITE = 0x02"

definition BT_ATT_PERM_READ_ENCRYPT :: u32 where "BT_ATT_PERM_READ_ENCRYPT = 0x04"

definition BT_ATT_PERM_WRITE_ENCRYPT :: u32 where "BT_ATT_PERM_WRITE_ENCRYPT = 0x08"

definition BT_ATT_PERM_ENCRYPT :: u32 where "BT_ATT_PERM_ENCRYPT = 0x0C"

definition BT_ATT_PERM_READ_AUTHEN :: u32 where "BT_ATT_PERM_READ_AUTHEN = 0x10"

definition BT_ATT_PERM_WRITE_AUTHEN :: u32 where "BT_ATT_PERM_WRITE_AUTHEN = 0x20"

definition BT_ATT_PERM_AUTHEN :: u32 where "BT_ATT_PERM_AUTHEN = 0x30"

definition BT_ATT_PERM_READ_SECURE :: u32 where "BT_ATT_PERM_READ_SECURE = 0x100"

definition BT_ATT_PERM_WRITE_SECURE :: u32 where "BT_ATT_PERM_WRITE_SECURE = 0x200"

definition BT_ATT_PERM_SECURE :: u32 where "BT_ATT_PERM_SECURE = 0x300"

end
