(* ===== verification/Gatt_Server.thy ===== *)
theory Gatt_Server
  imports Gatt_Db Bt_Att_Types
begin

text \<open>
  The GATT server: \<^verbatim>\<open>src/shared/gatt-server.c\<close>.  It registers a handler with the ATT engine for every
  request, looks the attributes up in the database and queues one response per request.  The
  functions the server hands to the engine and to the database are the constructors of \<open>'c fn\<close>; the
  functions of the application are \<open>App\<close>.  A read or write the database answers at once runs the
  completion function within the call; one it hands to the application is an event, and the
  completion runs when the application reports the result (\<open>db_done\<close>).  An operation that would
  write outside a buffer or use memory that is gone is \<open>None\<close>.
\<close>

section \<open>Constants\<close>

definition BT_GATT_CHRC_EXT_PROP_RELIABLE_WRITE :: u16 where "BT_GATT_CHRC_EXT_PROP_RELIABLE_WRITE = 0x01"

definition DEFAULT_MAX_PREP_QUEUE_LEN :: nat where "DEFAULT_MAX_PREP_QUEUE_LEN = 30"

section \<open>State\<close>

datatype 'c fn =
    App 'c
  | Exchange_mtu_cb | Read_by_grp_type_cb | Read_by_type_cb | Find_info_cb | Find_by_type_val_cb
  | Write_cb | Read_cb | Read_blob_cb | Read_multiple_cb | Prep_write_cb | Exec_write_cb
  | Attribute_read_cb | Read_by_type_read_complete_cb | Read_complete_cb | Read_multiple_complete_cb
  | Write_complete_cb | Exec_write_complete_cb | Read_ext_prop_value
  | Conf_cb | Destroy_ind_data | Ind_data "'c option" "'c option" "'c option"
  | Server_ptr | Op_ptr | Stack_ptr

text \<open>
  The buffer \<open>ro_pdu\<close> is allocated for a read by type only.  The back pointer to the server is
  implicit: an operation is held by the server it belongs to.
\<close>

record async_read_op =
  ro_opcode :: u8
  ro_done :: bool
  ro_pdu :: bytes
  ro_pdu_len :: nat
  ro_value_len :: nat
  ro_db_data :: "attr_ptr list"

record async_write_op =
  wo_opcode :: u8

record prep_write_data =
  pd_value :: bytes
  pd_handle :: u16
  pd_offset :: u16
  pd_length :: u16
  pd_reliable_supported :: bool

text \<open>\<open>handler_ids\<close> are the twelve identifiers of registered handlers, in the order of the structure.\<close>

record 'c bt_gatt_server =
  srv_db :: "'c fn gatt_db"
  srv_att :: "'c fn bt_att"
  srv_ref_count :: int
  srv_mtu :: u16
  handler_ids :: "u32 list"
  prep_queue :: "prep_write_data list"
  max_prep_queue_len :: nat
  pending_read_op :: "async_read_op option"
  pending_write_op :: "async_write_op option"
  srv_debug_callback :: "'c option"
  srv_debug_destroy :: "'c option"
  srv_debug_data :: "'c option"

type_synonym 'c srv_env = "'c fn att_env"

type_synonym 'c srv_result = "('c bt_gatt_server \<times> 'c fn db_event list) option"

text \<open>The ATT engine the server hands to read and write functions of the application.\<close>

definition att_ptr :: "nat option" where "att_ptr = Some 1"

definition srv_send ::
    "'c srv_env \<Rightarrow> 'c bt_gatt_server \<Rightarrow> u8 \<Rightarrow> bytes option \<Rightarrow> nat \<Rightarrow> 'c srv_result" where
  "srv_send env srv opcode pdu len = do {
     (_, t) \<leftarrow> bt_att_send env (Some (srv_att srv)) opcode pdu (of_nat len) None None None;
     t \<leftarrow> t;
     Some (srv\<lparr>srv_att := t\<rparr>, []) }"

definition srv_error ::
    "'c srv_env \<Rightarrow> 'c bt_gatt_server \<Rightarrow> u8 \<Rightarrow> u16 \<Rightarrow> int \<Rightarrow> 'c srv_result" where
  "srv_error env srv opcode handle err = do {
     (_, t) \<leftarrow> bt_att_send_error_rsp env (Some (srv_att srv)) opcode handle err;
     t \<leftarrow> t;
     Some (srv\<lparr>srv_att := t\<rparr>, []) }"

definition srv_ecode ::
    "'c srv_env \<Rightarrow> 'c bt_gatt_server \<Rightarrow> u8 \<Rightarrow> u16 \<Rightarrow> u8 \<Rightarrow> 'c srv_result" where
  "srv_ecode env srv opcode handle ecode = srv_error env srv opcode handle (int (unat ecode))"

section \<open>Discovery\<close>

definition get_uuid_le :: "bytes \<Rightarrow> nat \<Rightarrow> bt_uuid_t option" where
  "get_uuid_le uuid len =
     (if len = 2 then Some (BT_UUID16 (get_le16 uuid))
      else if len = 16 then Some (BT_UUID128 (bswap_128 uuid))
      else None)"

text \<open>The value the callback left in the \<^verbatim>\<open>iovec\<close>, and the events that leave the server.\<close>

definition attribute_read_cb :: "'c fn db_event list \<Rightarrow> bytes \<times> 'c fn db_event list" where
  "attribute_read_cb es =
     (case es of [Read_done f q err val ud] \<Rightarrow> (case val of None \<Rightarrow> [] | Some v \<Rightarrow> v, []) | _ \<Rightarrow> ([], es))"

text \<open>
  The loop of \<open>encode_read_by_grp_type_rsp\<close>: the PDU so far, the position in it and the length of
  an attribute value; the result \<open>None\<close> of the encoder is \<^verbatim>\<open>false\<close>.
\<close>

primrec grp_type_rsp_loop ::
    "'c srv_env \<Rightarrow> u16 \<Rightarrow> 'c fn gatt_db \<Rightarrow> attr_ptr list \<Rightarrow> bytes \<Rightarrow> nat \<Rightarrow> nat
       \<Rightarrow> ((bytes \<times> nat) option \<times> 'c fn gatt_db \<times> 'c fn db_event list) option" where
  "grp_type_rsp_loop env mtu db [] pdu iter data_val_len = Some (Some (pdu, iter), db, [])"
| "grp_type_rsp_loop env mtu db (attrib # q) pdu iter data_val_len = do {
     (ok, db, es) \<leftarrow> gatt_db_attribute_read (e_timeout env) db (Some attrib) 0 BT_ATT_OP_READ_BY_GRP_TYPE_REQ
                       att_ptr (Some Attribute_read_cb) (Some Stack_ptr);
     let (val, es) = attribute_read_cb es;
     if \<not> ok \<or> val = [] then Some (None, db, es)
     else if iter \<noteq> 0 \<and> length val \<noteq> data_val_len then Some (Some (pdu, iter), db, es)
     else do {
       let data_val_len = (if iter = 0 then min (min (unat ((ucast mtu :: u32) - 6)) 251) (length val)
                           else data_val_len);
       pdu \<leftarrow> (if iter = 0 then buf_write pdu 0 [of_nat (data_val_len + 4)] else Some pdu);
       let iter = (if iter = 0 then 1 else iter);
       if iter + data_val_len + 4 > unat mtu - 1 then Some (Some (pdu, iter), db, es)
       else do {
         handles \<leftarrow> gatt_db_attribute_get_service_handles db (Some attrib);
         (start_handle, end_handle) \<leftarrow> handles;
         pdu \<leftarrow> buf_write pdu iter (put_le16 start_handle @ put_le16 end_handle @ take data_val_len val);
         (r, db, es') \<leftarrow> grp_type_rsp_loop env mtu db q pdu (iter + data_val_len + 4) data_val_len;
         Some (r, db, es @ es') } } }"

definition encode_read_by_grp_type_rsp ::
    "'c srv_env \<Rightarrow> 'c fn gatt_db \<Rightarrow> attr_ptr list \<Rightarrow> u16 \<Rightarrow> bytes
       \<Rightarrow> ((bytes \<times> nat) option \<times> 'c fn gatt_db \<times> 'c fn db_event list) option" where
  "encode_read_by_grp_type_rsp env db q mtu pdu = grp_type_rsp_loop env mtu db q pdu 0 0"

definition rsp_buf :: "'c srv_env \<Rightarrow> u16 \<Rightarrow> bytes" where
  "rsp_buf env mtu = map (e_junk env) [0..<unat mtu]"

definition read_by_grp_type_cb :: "'c srv_env \<Rightarrow> 'c bt_gatt_server \<Rightarrow> u8 \<Rightarrow> bytes \<Rightarrow> 'c srv_result" where
  "read_by_grp_type_cb env srv opcode pdu =
     (let mtu = bt_att_get_mtu (Some (srv_att srv));
          start = get_le16 pdu; end_handle = get_le16 (drop 2 pdu)
      in if length pdu \<noteq> 6 \<and> length pdu \<noteq> 20 then srv_ecode env srv opcode 0 BT_ATT_ERROR_INVALID_PDU
         else if start = 0 \<or> end_handle = 0 then srv_ecode env srv opcode 0 BT_ATT_ERROR_INVALID_HANDLE
         else if start > end_handle then srv_ecode env srv opcode start BT_ATT_ERROR_INVALID_HANDLE
         else do {
           type \<leftarrow> get_uuid_le (drop 4 pdu) (length pdu - 4);
           if \<not> uuid_eq type primary_service_uuid \<and> \<not> uuid_eq type secondary_service_uuid
           then srv_ecode env srv opcode start BT_ATT_ERROR_UNSUPPORTED_GROUP_TYPE
           else do {
             q \<leftarrow> gatt_db_read_by_group_type (srv_db srv) start end_handle type;
             if q = [] then srv_ecode env srv opcode start BT_ATT_ERROR_ATTRIBUTE_NOT_FOUND
             else do {
               (r, db, es) \<leftarrow> encode_read_by_grp_type_rsp env (srv_db srv) q mtu (rsp_buf env mtu);
               let srv = srv\<lparr>srv_db := db\<rparr>;
               (srv, _) \<leftarrow> (case r of None \<Rightarrow> srv_ecode env srv opcode start BT_ATT_ERROR_UNLIKELY
                            | Some (rsp_pdu, rsp_len) \<Rightarrow>
                                srv_send env srv BT_ATT_OP_READ_BY_GRP_TYPE_RSP (Some rsp_pdu) rsp_len);
               Some (srv, es) } } })"

section \<open>Read by type\<close>

definition check_permissions :: "'c srv_env \<Rightarrow> 'c bt_gatt_server \<Rightarrow> attr_ptr \<Rightarrow> u32 \<Rightarrow> u8 option" where
  "check_permissions env srv attr perm_mask = do {
     perm \<leftarrow> gatt_db_attribute_get_permissions (srv_db srv) (Some attr);
     if perm \<noteq> 0 \<and> perm_mask AND BT_ATT_PERM_READ \<noteq> 0 \<and> perm AND BT_ATT_PERM_READ = 0
     then Some BT_ATT_ERROR_READ_NOT_PERMITTED
     else if perm \<noteq> 0 \<and> perm_mask AND BT_ATT_PERM_WRITE \<noteq> 0 \<and> perm AND BT_ATT_PERM_WRITE = 0
     then Some BT_ATT_ERROR_WRITE_NOT_PERMITTED
     else let perm = perm AND perm_mask; security = bt_att_get_security env (Some (srv_att srv))
       in if perm = 0 then Some 0
          else if perm AND BT_ATT_PERM_SECURE \<noteq> 0 \<and> security < BT_ATT_SECURITY_FIPS
          then Some BT_ATT_ERROR_AUTHENTICATION
          else if perm AND BT_ATT_PERM_AUTHEN \<noteq> 0 \<and> security < BT_ATT_SECURITY_HIGH
          then Some BT_ATT_ERROR_AUTHENTICATION
          else if perm AND BT_ATT_PERM_ENCRYPT \<noteq> 0 \<and> security < BT_ATT_SECURITY_MEDIUM
          then Some BT_ATT_ERROR_INSUFFICIENT_ENCRYPTION
          else Some 0 }"

definition read_mask :: u32 where
  "read_mask = BT_ATT_PERM_READ OR BT_ATT_PERM_READ_AUTHEN OR BT_ATT_PERM_READ_ENCRYPT"

definition write_mask :: u32 where
  "write_mask = BT_ATT_PERM_WRITE OR BT_ATT_PERM_WRITE_AUTHEN OR BT_ATT_PERM_WRITE_ENCRYPT"

definition async_read_op_destroy :: "'c bt_gatt_server \<Rightarrow> 'c bt_gatt_server" where
  "async_read_op_destroy srv = srv\<lparr>pending_read_op := None\<rparr>"

text \<open>
  \<open>read_by_type_read_complete_cb\<close> up to its call of \<open>process_read_by_type\<close>, for an operation that
  has not failed: the operation with the value encoded, or marked as done.
\<close>

definition encode_read_by_type ::
    "u16 \<Rightarrow> u16 \<Rightarrow> async_read_op \<Rightarrow> bytes \<Rightarrow> async_read_op option" where
  "encode_read_by_type mtu handle oper val =
     (if ro_pdu_len oper \<noteq> 0 \<and> length val \<noteq> ro_value_len oper then Some (oper\<lparr>ro_done := True\<rparr>)
      else do {
        let value_len = (if ro_pdu_len oper = 0 then min (min (unat ((ucast mtu :: u32) - 4)) 253) (length val)
                         else ro_value_len oper);
        pdu \<leftarrow> (if ro_pdu_len oper = 0 then buf_write (ro_pdu oper) 0 [of_nat (value_len + 2)]
                else Some (ro_pdu oper));
        let pdu_len = (if ro_pdu_len oper = 0 then 1 else ro_pdu_len oper);
        let oper = oper\<lparr>ro_pdu := pdu, ro_pdu_len := pdu_len, ro_value_len := value_len\<rparr>;
        if pdu_len + value_len + 2 > unat ((ucast mtu :: u32) - 1) then Some (oper\<lparr>ro_done := True\<rparr>)
        else do {
          pdu \<leftarrow> buf_write pdu pdu_len (put_le16 handle @ take value_len val);
          let pdu_len = pdu_len + (value_len + 2);
          Some (oper\<lparr>ro_pdu := pdu, ro_pdu_len := pdu_len,
                      ro_done := ro_done oper \<or> pdu_len = unat ((ucast mtu :: u32) - 1)\<rparr>) } })"

text \<open>
  \<open>process_read_by_type\<close> on the queue of the operation.  A read that is answered at once runs the
  completion function, which calls \<open>process_read_by_type\<close> again.
\<close>

primrec read_by_type_loop ::
    "'c srv_env \<Rightarrow> 'c bt_gatt_server \<Rightarrow> async_read_op \<Rightarrow> attr_ptr list \<Rightarrow> 'c srv_result" where
  "read_by_type_loop env srv oper [] = do {
     (srv, _) \<leftarrow> srv_send env srv BT_ATT_OP_READ_BY_TYPE_RSP (Some (ro_pdu oper)) (ro_pdu_len oper);
     Some (async_read_op_destroy srv, []) }"
| "read_by_type_loop env srv oper (attr # q) =
     (if ro_done oper
      then do {
        (srv, _) \<leftarrow> srv_send env srv BT_ATT_OP_READ_BY_TYPE_RSP (Some (ro_pdu oper)) (ro_pdu_len oper);
        Some (async_read_op_destroy srv, []) }
      else do {
        ecode \<leftarrow> check_permissions env srv attr read_mask;
        handle \<leftarrow> gatt_db_attribute_get_handle (srv_db srv) (Some attr);
        if ecode \<noteq> 0
        then do {
          (srv, _) \<leftarrow> srv_ecode env srv BT_ATT_OP_READ_BY_TYPE_REQ handle ecode;
          Some (async_read_op_destroy srv, []) }
        else do {
          (ok, db, es) \<leftarrow> gatt_db_attribute_read (e_timeout env) (srv_db srv) (Some attr) 0 (ro_opcode oper)
                            att_ptr (Some Read_by_type_read_complete_cb) (Some Op_ptr);
          let srv = srv\<lparr>srv_db := db\<rparr>;
          if \<not> ok
          then do {
            (srv, _) \<leftarrow> srv_ecode env srv BT_ATT_OP_READ_BY_TYPE_REQ handle BT_ATT_ERROR_UNLIKELY;
            Some (async_read_op_destroy srv, []) }
          else case es of
            [Read_done f q' err val ud] \<Rightarrow>
              if err \<noteq> 0
              then do {
                (srv, _) \<leftarrow> srv_error env srv BT_ATT_OP_READ_BY_TYPE_REQ handle err;
                Some (async_read_op_destroy srv, []) }
              else do {
                oper \<leftarrow> encode_read_by_type (att_mtu (srv_att srv)) handle oper
                          (case val of None \<Rightarrow> [] | Some v \<Rightarrow> v);
                read_by_type_loop env srv oper q }
          | _ \<Rightarrow> Some (srv\<lparr>pending_read_op := Some (oper\<lparr>ro_db_data := q\<rparr>)\<rparr>, es) } })"

definition process_read_by_type :: "'c srv_env \<Rightarrow> 'c bt_gatt_server \<Rightarrow> async_read_op \<Rightarrow> 'c srv_result" where
  "process_read_by_type env srv oper = read_by_type_loop env srv oper (ro_db_data oper)"

definition read_by_type_read_complete_cb ::
    "'c srv_env \<Rightarrow> 'c bt_gatt_server \<Rightarrow> attr_ptr \<Rightarrow> int \<Rightarrow> bytes option \<Rightarrow> 'c srv_result" where
  "read_by_type_read_complete_cb env srv attr err val = do {
     oper \<leftarrow> pending_read_op srv;
     handle \<leftarrow> gatt_db_attribute_get_handle (srv_db srv) (Some attr);
     if err \<noteq> 0
     then do {
       (srv, _) \<leftarrow> srv_error env srv BT_ATT_OP_READ_BY_TYPE_REQ handle err;
       Some (async_read_op_destroy srv, []) }
     else do {
       oper \<leftarrow> encode_read_by_type (bt_att_get_mtu (Some (srv_att srv))) handle oper
                 (case val of None \<Rightarrow> [] | Some v \<Rightarrow> v);
       process_read_by_type env srv oper } }"

definition read_by_type_cb :: "'c srv_env \<Rightarrow> 'c bt_gatt_server \<Rightarrow> u8 \<Rightarrow> bytes \<Rightarrow> 'c srv_result" where
  "read_by_type_cb env srv opcode pdu =
     (let start = get_le16 pdu; end_handle = get_le16 (drop 2 pdu)
      in if length pdu \<noteq> 6 \<and> length pdu \<noteq> 20 then srv_ecode env srv opcode 0 BT_ATT_ERROR_INVALID_PDU
         else if start = 0 \<or> end_handle = 0 then srv_ecode env srv opcode 0 BT_ATT_ERROR_INVALID_HANDLE
         else if start > end_handle then srv_ecode env srv opcode start BT_ATT_ERROR_INVALID_HANDLE
         else do {
           type \<leftarrow> get_uuid_le (drop 4 pdu) (length pdu - 4);
           q \<leftarrow> gatt_db_read_by_type (srv_db srv) start end_handle type;
           if q = [] then srv_ecode env srv opcode start BT_ATT_ERROR_ATTRIBUTE_NOT_FOUND
           else if pending_read_op srv \<noteq> None then srv_ecode env srv opcode start BT_ATT_ERROR_UNLIKELY
           else if \<not> e_mem env then srv_ecode env srv opcode start BT_ATT_ERROR_INSUFFICIENT_RESOURCES
           else let oper = \<lparr>ro_opcode = opcode, ro_done = False,
                            ro_pdu = rsp_buf env (bt_att_get_mtu (Some (srv_att srv))),
                            ro_pdu_len = 0, ro_value_len = 0, ro_db_data = q\<rparr>
             in process_read_by_type env (srv\<lparr>pending_read_op := Some oper\<rparr>) oper })"

section \<open>Find information and find by type value\<close>

primrec find_info_rsp_loop ::
    "'c fn gatt_db \<Rightarrow> u16 \<Rightarrow> attr_ptr list \<Rightarrow> bytes \<Rightarrow> nat \<Rightarrow> nat \<Rightarrow> (bytes \<times> nat) option option" where
  "find_info_rsp_loop db mtu [] pdu iter uuid_len = Some (Some (pdu, iter))"
| "find_info_rsp_loop db mtu (attr # q) pdu iter uuid_len = do {
     handle \<leftarrow> gatt_db_attribute_get_handle db (Some attr);
     type \<leftarrow> gatt_db_attribute_get_type db (Some attr);
     case type of None \<Rightarrow> Some None
     | Some type \<Rightarrow>
         if handle = 0 then Some None
         else let cur_uuid_len = bt_uuid_len type
           in if iter = 0 \<and> cur_uuid_len \<noteq> 2 \<and> cur_uuid_len \<noteq> 4 \<and> cur_uuid_len \<noteq> 16 then Some None
              else if iter \<noteq> 0 \<and> cur_uuid_len \<noteq> uuid_len then Some (Some (pdu, iter))
              else do {
                let uuid_len = (if iter = 0 then if cur_uuid_len = 2 then 2 else 16 else uuid_len);
                pdu \<leftarrow> (if iter = 0 then buf_write pdu 0 [if cur_uuid_len = 2 then 0x01 else 0x02] else Some pdu);
                let iter = (if iter = 0 then 1 else iter);
                if iter + uuid_len + 2 > unat mtu - 1 then Some (Some (pdu, iter))
                else do {
                  pdu \<leftarrow> buf_write pdu iter (put_le16 handle);
                  pdu \<leftarrow> (case bt_uuid_to_le type of None \<Rightarrow> Some pdu | Some le \<Rightarrow> buf_write pdu (iter + 2) le);
                  find_info_rsp_loop db mtu q pdu (iter + (uuid_len + 2)) uuid_len } } }"

definition encode_find_info_rsp ::
    "'c fn gatt_db \<Rightarrow> attr_ptr list \<Rightarrow> u16 \<Rightarrow> bytes \<Rightarrow> (bytes \<times> nat) option option" where
  "encode_find_info_rsp db q mtu pdu = find_info_rsp_loop db mtu q pdu 0 0"

definition find_info_cb :: "'c srv_env \<Rightarrow> 'c bt_gatt_server \<Rightarrow> u8 \<Rightarrow> bytes \<Rightarrow> 'c srv_result" where
  "find_info_cb env srv opcode pdu =
     (let mtu = bt_att_get_mtu (Some (srv_att srv));
          start = get_le16 pdu; end_handle = get_le16 (drop 2 pdu)
      in if length pdu \<noteq> 4 then srv_ecode env srv opcode 0 BT_ATT_ERROR_INVALID_PDU
         else if start = 0 \<or> end_handle = 0 then srv_ecode env srv opcode 0 BT_ATT_ERROR_INVALID_HANDLE
         else if start > end_handle then srv_ecode env srv opcode start BT_ATT_ERROR_INVALID_HANDLE
         else do {
           q \<leftarrow> gatt_db_find_information (srv_db srv) start end_handle;
           if q = [] then srv_ecode env srv opcode start BT_ATT_ERROR_ATTRIBUTE_NOT_FOUND
           else do {
             r \<leftarrow> encode_find_info_rsp (srv_db srv) q mtu (rsp_buf env mtu);
             case r of None \<Rightarrow> srv_ecode env srv opcode start BT_ATT_ERROR_UNLIKELY
             | Some (rsp_pdu, rsp_len) \<Rightarrow>
                 srv_send env srv BT_ATT_OP_FIND_INFO_RSP (Some rsp_pdu) rsp_len } })"

record find_by_type_val_data =
  fd_pdu :: bytes
  fd_len :: u16
  fd_mtu :: u16
  fd_ecode :: u8

definition find_by_type_val_att_cb ::
    "'c fn gatt_db \<Rightarrow> find_by_type_val_data \<Rightarrow> attr_ptr \<Rightarrow> find_by_type_val_data option" where
  "find_by_type_val_att_cb db data attrib =
     (if fd_ecode data \<noteq> 0 then Some data
      else if unat (fd_len data) + 4 > unat (fd_mtu data) - 1 then Some data
      else do {
        sd \<leftarrow> gatt_db_attribute_get_service_data db (Some attrib);
        (handle, end_handle, _, _) \<leftarrow> sd;
        if handle = 0 \<or> end_handle = 0 then Some (data\<lparr>fd_ecode := BT_ATT_ERROR_UNLIKELY\<rparr>)
        else do {
          pdu \<leftarrow> buf_write (fd_pdu data) (unat (fd_len data)) (put_le16 handle @ put_le16 end_handle);
          Some (data\<lparr>fd_pdu := pdu, fd_len := fd_len data + 4\<rparr>) } })"

primrec find_by_type_val_loop ::
    "'c fn gatt_db \<Rightarrow> attr_ptr list \<Rightarrow> find_by_type_val_data \<Rightarrow> find_by_type_val_data option" where
  "find_by_type_val_loop db [] data = Some data"
| "find_by_type_val_loop db (q # qs) data = do {
     data \<leftarrow> find_by_type_val_att_cb db data q; find_by_type_val_loop db qs data }"

definition find_by_type_val_cb :: "'c srv_env \<Rightarrow> 'c bt_gatt_server \<Rightarrow> u8 \<Rightarrow> bytes \<Rightarrow> 'c srv_result" where
  "find_by_type_val_cb env srv opcode pdu =
     (let mtu = bt_att_get_mtu (Some (srv_att srv));
          start = get_le16 pdu; end_handle = get_le16 (drop 2 pdu); uuid16 = get_le16 (drop 4 pdu)
      in if length pdu < 6 then srv_ecode env srv opcode 0 BT_ATT_ERROR_INVALID_PDU
         else if start > end_handle then srv_ecode env srv opcode start BT_ATT_ERROR_INVALID_HANDLE
         else do {
           (_, qs) \<leftarrow> gatt_db_find_by_type_value (ucast (e_junk env 0)) (srv_db srv) start end_handle
                        (BT_UUID16 uuid16) (Some (drop 6 pdu));
           data \<leftarrow> find_by_type_val_loop (srv_db srv) qs
                     \<lparr>fd_pdu = rsp_buf env mtu, fd_len = 0, fd_mtu = mtu, fd_ecode = 0\<rparr>;
           let ecode = (if fd_len data = 0 then BT_ATT_ERROR_ATTRIBUTE_NOT_FOUND else fd_ecode data);
           if ecode \<noteq> 0 then srv_ecode env srv opcode start ecode
           else srv_send env srv BT_ATT_OP_FIND_BY_TYPE_RSP (Some (fd_pdu data)) (unat (fd_len data)) })"

section \<open>Writes\<close>

definition async_write_op_destroy :: "'c bt_gatt_server \<Rightarrow> 'c bt_gatt_server" where
  "async_write_op_destroy srv = srv\<lparr>pending_write_op := None\<rparr>"

definition write_complete_cb :: "'c srv_env \<Rightarrow> 'c bt_gatt_server \<Rightarrow> attr_ptr \<Rightarrow> int \<Rightarrow> 'c srv_result" where
  "write_complete_cb env srv attr err = do {
     oper \<leftarrow> pending_write_op srv;
     if wo_opcode oper = BT_ATT_OP_WRITE_CMD then Some (async_write_op_destroy srv, [])
     else do {
       handle \<leftarrow> gatt_db_attribute_get_handle (srv_db srv) (Some attr);
       (srv, _) \<leftarrow> (if err \<noteq> 0 then srv_error env srv (wo_opcode oper) handle err
                    else srv_send env srv BT_ATT_OP_WRITE_RSP None 0);
       Some (async_write_op_destroy srv, []) } }"

text \<open>The label \<^verbatim>\<open>error\<close> of \<open>write_cb\<close>: commands are not answered.\<close>

definition write_error :: "'c srv_env \<Rightarrow> 'c bt_gatt_server \<Rightarrow> u8 \<Rightarrow> u16 \<Rightarrow> u8 \<Rightarrow> 'c srv_result" where
  "write_error env srv opcode handle ecode =
     (if opcode = BT_ATT_OP_WRITE_CMD then Some (srv, []) else srv_ecode env srv opcode handle ecode)"

definition write_cb :: "'c srv_env \<Rightarrow> 'c bt_gatt_server \<Rightarrow> u8 \<Rightarrow> bytes \<Rightarrow> 'c srv_result" where
  "write_cb env srv opcode pdu =
     (if length pdu < 2 then write_error env srv opcode 0 BT_ATT_ERROR_INVALID_PDU
      else do {
        let handle = get_le16 pdu;
        attr \<leftarrow> gatt_db_get_attribute (Some (srv_db srv)) handle;
        case attr of None \<Rightarrow> write_error env srv opcode handle BT_ATT_ERROR_INVALID_HANDLE
        | Some attr \<Rightarrow> do {
            ecode \<leftarrow> check_permissions env srv attr write_mask;
            if ecode \<noteq> 0 then write_error env srv opcode handle ecode
            else if pending_write_op srv \<noteq> None then write_error env srv opcode handle BT_ATT_ERROR_UNLIKELY
            else do {
              (ok, db, es) \<leftarrow> gatt_db_attribute_write (e_mem env) (e_junk env) (e_timeout env) (srv_db srv)
                                (Some attr) 0 (drop 2 pdu) opcode att_ptr (Some Write_complete_cb) (Some Op_ptr);
              let srv = srv\<lparr>srv_db := db, pending_write_op := Some \<lparr>wo_opcode = opcode\<rparr>\<rparr>;
              if \<not> ok then write_error env (async_write_op_destroy srv) opcode handle BT_ATT_ERROR_UNLIKELY
              else case es of
                [Write_done f q err ud] \<Rightarrow> write_complete_cb env srv q err
              | _ \<Rightarrow> Some (srv, es) } } })"

section \<open>Reads\<close>

definition get_read_rsp_opcode :: "u8 \<Rightarrow> u8" where
  "get_read_rsp_opcode opcode =
     (if opcode = BT_ATT_OP_READ_REQ then BT_ATT_OP_READ_RSP
      else if opcode = BT_ATT_OP_READ_BLOB_REQ then BT_ATT_OP_READ_BLOB_RSP else 0)"

definition read_complete_cb ::
    "'c srv_env \<Rightarrow> 'c bt_gatt_server \<Rightarrow> attr_ptr \<Rightarrow> int \<Rightarrow> bytes option \<Rightarrow> 'c srv_result" where
  "read_complete_cb env srv attr err val = do {
     oper \<leftarrow> pending_read_op srv;
     handle \<leftarrow> gatt_db_attribute_get_handle (srv_db srv) (Some attr);
     let mtu = bt_att_get_mtu (Some (srv_att srv));
     let v = (case val of None \<Rightarrow> [] | Some v \<Rightarrow> v);
     (srv, _) \<leftarrow> (if err \<noteq> 0 then srv_error env srv (ro_opcode oper) handle err
                  else srv_send env srv (get_read_rsp_opcode (ro_opcode oper))
                         (if v = [] then None else Some v) (min (unat ((ucast mtu :: u32) - 1)) (length v)));
     Some (async_read_op_destroy srv, []) }"

definition handle_read_req ::
    "'c srv_env \<Rightarrow> 'c bt_gatt_server \<Rightarrow> u8 \<Rightarrow> u16 \<Rightarrow> u16 \<Rightarrow> 'c srv_result" where
  "handle_read_req env srv opcode handle offset = do {
     attr \<leftarrow> gatt_db_get_attribute (Some (srv_db srv)) handle;
     case attr of None \<Rightarrow> srv_ecode env srv opcode handle BT_ATT_ERROR_INVALID_HANDLE
     | Some attr \<Rightarrow> do {
         ecode \<leftarrow> check_permissions env srv attr read_mask;
         if ecode \<noteq> 0 then srv_ecode env srv opcode handle ecode
         else if pending_read_op srv \<noteq> None then srv_ecode env srv opcode handle BT_ATT_ERROR_UNLIKELY
         else do {
           (ok, db, es) \<leftarrow> gatt_db_attribute_read (e_timeout env) (srv_db srv) (Some attr) offset opcode
                             att_ptr (Some Read_complete_cb) (Some Op_ptr);
           let oper = \<lparr>ro_opcode = opcode, ro_done = False, ro_pdu = [], ro_pdu_len = 0, ro_value_len = 0,
                       ro_db_data = []\<rparr>;
           let srv = srv\<lparr>srv_db := db, pending_read_op := Some oper\<rparr>;
           if \<not> ok then srv_ecode env (async_read_op_destroy srv) opcode handle BT_ATT_ERROR_UNLIKELY
           else case es of
             [Read_done f q err val ud] \<Rightarrow> read_complete_cb env srv q err val
           | _ \<Rightarrow> Some (srv, es) } } }"

definition read_cb :: "'c srv_env \<Rightarrow> 'c bt_gatt_server \<Rightarrow> u8 \<Rightarrow> bytes \<Rightarrow> 'c srv_result" where
  "read_cb env srv opcode pdu =
     (if length pdu \<noteq> 2 then srv_ecode env srv opcode 0 BT_ATT_ERROR_INVALID_PDU
      else handle_read_req env srv opcode (get_le16 pdu) 0)"

definition read_blob_cb :: "'c srv_env \<Rightarrow> 'c bt_gatt_server \<Rightarrow> u8 \<Rightarrow> bytes \<Rightarrow> 'c srv_result" where
  "read_blob_cb env srv opcode pdu =
     (if length pdu \<noteq> 4 then srv_ecode env srv opcode 0 BT_ATT_ERROR_INVALID_PDU
      else handle_read_req env srv opcode (get_le16 pdu) (get_le16 (drop 2 pdu)))"

text \<open>
  \<open>read_multiple_complete_cb\<close> for the attribute that was read, with the handles that remain, the
  response so far and its length.  The data live on the stack of \<open>read_multiple_cb\<close>: a read that is
  not answered at once leaves them behind.
\<close>

primrec read_multiple_complete_cb ::
    "'c srv_env \<Rightarrow> u16 list \<Rightarrow> 'c bt_gatt_server \<Rightarrow> bytes \<Rightarrow> nat \<Rightarrow> nat \<Rightarrow> attr_ptr \<Rightarrow> int \<Rightarrow> bytes option
       \<Rightarrow> 'c srv_result" where
  "read_multiple_complete_cb env [] srv rsp_data len mtu attr err val = do {
     handle \<leftarrow> gatt_db_attribute_get_handle (srv_db srv) (Some attr);
     if err \<noteq> 0 then srv_error env srv BT_ATT_OP_READ_MULT_REQ handle err
     else do {
       ecode \<leftarrow> check_permissions env srv attr read_mask;
       if ecode \<noteq> 0 then srv_ecode env srv BT_ATT_OP_READ_MULT_REQ handle ecode
       else do {
         let v = (case val of None \<Rightarrow> [] | Some v \<Rightarrow> v);
         let n = min (length v) (mtu - len - 1);
         rsp_data \<leftarrow> buf_write rsp_data len (take n v);
         srv_send env srv BT_ATT_OP_READ_MULT_RSP (Some rsp_data) (len + n) } } }"
| "read_multiple_complete_cb env (h # hs) srv rsp_data len mtu attr err val = do {
     handle \<leftarrow> gatt_db_attribute_get_handle (srv_db srv) (Some attr);
     if err \<noteq> 0 then srv_error env srv BT_ATT_OP_READ_MULT_REQ handle err
     else do {
       ecode \<leftarrow> check_permissions env srv attr read_mask;
       if ecode \<noteq> 0 then srv_ecode env srv BT_ATT_OP_READ_MULT_REQ handle ecode
       else do {
         let v = (case val of None \<Rightarrow> [] | Some v \<Rightarrow> v);
         let n = min (length v) (mtu - len - 1);
         rsp_data \<leftarrow> buf_write rsp_data len (take n v);
         if len + n \<ge> mtu - 1 then srv_send env srv BT_ATT_OP_READ_MULT_RSP (Some rsp_data) (len + n)
         else do {
           next_attr \<leftarrow> gatt_db_get_attribute (Some (srv_db srv)) h;
           case next_attr of None \<Rightarrow> srv_ecode env srv BT_ATT_OP_READ_MULT_REQ h BT_ATT_ERROR_INVALID_HANDLE
           | Some next_attr \<Rightarrow> do {
               (ok, db, es) \<leftarrow> gatt_db_attribute_read (e_timeout env) (srv_db srv) (Some next_attr) 0
                                 BT_ATT_OP_READ_MULT_REQ att_ptr (Some Read_multiple_complete_cb) (Some Stack_ptr);
               let srv = srv\<lparr>srv_db := db\<rparr>;
               if \<not> ok then srv_ecode env srv BT_ATT_OP_READ_MULT_REQ h BT_ATT_ERROR_UNLIKELY
               else case es of
                 [Read_done f q err val ud] \<Rightarrow>
                   read_multiple_complete_cb env hs srv rsp_data (len + n) mtu q err val
               | _ \<Rightarrow> Some (srv, es) } } } } }"

definition read_multiple_cb :: "'c srv_env \<Rightarrow> 'c bt_gatt_server \<Rightarrow> u8 \<Rightarrow> bytes \<Rightarrow> 'c srv_result" where
  "read_multiple_cb env srv opcode pdu =
     (if length pdu < 4 then srv_ecode env srv opcode 0 BT_ATT_ERROR_INVALID_PDU
      else if \<not> e_mem env then srv_ecode env srv opcode 0 BT_ATT_ERROR_UNLIKELY
      else do {
        let mtu = unat (bt_att_get_mtu (Some (srv_att srv)));
        let handles = map (\<lambda>i. get_le16 (drop (i * 2) pdu)) [0..<length pdu div 2];
        attr \<leftarrow> gatt_db_get_attribute (Some (srv_db srv)) (hd handles);
        case attr of None \<Rightarrow> srv_ecode env srv opcode 0 BT_ATT_ERROR_INVALID_HANDLE
        | Some attr \<Rightarrow> do {
            (ok, db, es) \<leftarrow> gatt_db_attribute_read (e_timeout env) (srv_db srv) (Some attr) 0 opcode
                              att_ptr (Some Read_multiple_complete_cb) (Some Stack_ptr);
            let srv = srv\<lparr>srv_db := db\<rparr>;
            if \<not> ok then srv_ecode env srv opcode 0 BT_ATT_ERROR_UNLIKELY
            else case es of
              [Read_done f q err val ud] \<Rightarrow>
                read_multiple_complete_cb env (tl handles) srv (map (e_junk env) [0..<mtu - 1]) 0 mtu q err val
            | _ \<Rightarrow> Some (srv, es) } })"

section \<open>Prepared writes\<close>

text \<open>
  The length is 16 bits wide: when it wraps the copy runs over the buffer.  A sum that wraps to 0
  asks \<^verbatim>\<open>realloc\<close> for no bytes while the old buffer stays referenced; the model has no meaning for
  that step either.
\<close>

definition append_prep_data ::
    "'c srv_env \<Rightarrow> prep_write_data \<Rightarrow> bytes \<Rightarrow> (bool \<times> prep_write_data) option" where
  "append_prep_data env prep_data val =
     (if val = [] then Some (True, prep_data)
      else let len = pd_length prep_data + of_nat (length val)
        in if \<not> e_mem env then Some (False, prep_data)
           else do {
             v \<leftarrow> buf_write (realloc_bytes (e_junk env) (pd_value prep_data) (unat len))
                   (unat (pd_length prep_data)) val;
             Some (True, prep_data\<lparr>pd_value := v, pd_length := len\<rparr>) })"

definition is_reliable_write_supported ::
    "'c srv_env \<Rightarrow> 'c bt_gatt_server \<Rightarrow> u16 \<Rightarrow> (bool \<times> 'c fn gatt_db \<times> 'c fn db_event list) option" where
  "is_reliable_write_supported env srv handle = do {
     attr \<leftarrow> gatt_db_get_attribute (Some (srv_db srv)) handle;
     case attr of None \<Rightarrow> Some (False, srv_db srv, [])
     | Some attr \<Rightarrow> do {
         (cd, db, es) \<leftarrow> gatt_db_attribute_get_char_data (e_timeout env) Read_ext_prop_value Stack_ptr
                           (srv_db srv) (Some attr);
         Some (case cd of None \<Rightarrow> False
               | Some (_, _, _, ext_prop, _) \<Rightarrow> ext_prop AND BT_GATT_CHRC_EXT_PROP_RELIABLE_WRITE \<noteq> 0,
               db, es) } }"

definition own_event :: "'c fn db_event \<Rightarrow> bool" where
  "own_event e = (case e of Read_done f q err val ud \<Rightarrow> True | Write_done f q err ud \<Rightarrow> True | _ \<Rightarrow> False)"

definition prep_data_new ::
    "'c srv_env \<Rightarrow> 'c bt_gatt_server \<Rightarrow> u16 \<Rightarrow> u16 \<Rightarrow> bytes
       \<Rightarrow> (bool \<times> 'c bt_gatt_server \<times> 'c fn db_event list) option" where
  "prep_data_new env srv handle offset val = do {
     (ok, prep_data) \<leftarrow> append_prep_data env
        \<lparr>pd_value = [], pd_handle = 0, pd_offset = 0, pd_length = 0, pd_reliable_supported = False\<rparr> val;
     if \<not> ok then Some (False, srv, [])
     else do {
       (rel, db, es) \<leftarrow> is_reliable_write_supported env srv (handle - 1);
       let prep_data = prep_data\<lparr>pd_handle := handle, pd_offset := offset, pd_reliable_supported := rel\<rparr>;
       Some (True, srv\<lparr>srv_db := db, prep_queue := prep_queue srv @ [prep_data]\<rparr>,
             filter (\<lambda>e. \<not> own_event e) es) } }"

definition store_prep_data ::
    "'c srv_env \<Rightarrow> 'c bt_gatt_server \<Rightarrow> u16 \<Rightarrow> u16 \<Rightarrow> bytes
       \<Rightarrow> (bool \<times> 'c bt_gatt_server \<times> 'c fn db_event list) option" where
  "store_prep_data env srv handle offset val =
     (if prep_queue srv \<noteq> [] \<and> pd_handle (last (prep_queue srv)) = handle \<and>
         unat offset = unat (pd_length (last (prep_queue srv))) + unat (pd_offset (last (prep_queue srv)))
      then do {
        (ok, prep_data) \<leftarrow> append_prep_data env (last (prep_queue srv)) val;
        Some (ok, srv\<lparr>prep_queue := butlast (prep_queue srv) @ [prep_data]\<rparr>, []) }
      else prep_data_new env srv handle offset val)"

definition prep_write_cb :: "'c srv_env \<Rightarrow> 'c bt_gatt_server \<Rightarrow> u8 \<Rightarrow> bytes \<Rightarrow> 'c srv_result" where
  "prep_write_cb env srv opcode pdu =
     (if length pdu < 4 then srv_ecode env srv opcode 0 BT_ATT_ERROR_INVALID_PDU
      else if length (prep_queue srv) \<ge> max_prep_queue_len srv
      then srv_ecode env srv opcode 0 BT_ATT_ERROR_PREPARE_QUEUE_FULL
      else do {
        let handle = get_le16 pdu;
        let offset = get_le16 (drop 2 pdu);
        attr \<leftarrow> gatt_db_get_attribute (Some (srv_db srv)) handle;
        case attr of None \<Rightarrow> srv_ecode env srv opcode handle BT_ATT_ERROR_INVALID_HANDLE
        | Some attr \<Rightarrow> do {
            ecode \<leftarrow> check_permissions env srv attr write_mask;
            if ecode \<noteq> 0 then srv_ecode env srv opcode handle ecode
            else do {
              (ok, srv, es) \<leftarrow> store_prep_data env srv handle offset (drop 4 pdu);
              (srv, _) \<leftarrow> (if \<not> ok then srv_ecode env srv opcode handle BT_ATT_ERROR_INSUFFICIENT_RESOURCES
                           else srv_send env srv BT_ATT_OP_PREP_WRITE_RSP (Some pdu) (length pdu));
              Some (srv, es) } } })"

text \<open>The label \<^verbatim>\<open>error\<close> of \<open>exec_next_prep_write\<close>.\<close>

definition exec_write_error ::
    "'c srv_env \<Rightarrow> 'c bt_gatt_server \<Rightarrow> u16 \<Rightarrow> int \<Rightarrow> 'c srv_result" where
  "exec_write_error env srv ehandle err =
     srv_error env (srv\<lparr>prep_queue := []\<rparr>) BT_ATT_OP_EXEC_WRITE_REQ ehandle err"

text \<open>
  \<open>exec_next_prep_write\<close> on the queue, without an error so far.  A write that is done at once runs
  \<open>exec_write_complete_cb\<close>, which calls it again with the handle that was written.
\<close>

primrec exec_write_loop ::
    "'c srv_env \<Rightarrow> prep_write_data list \<Rightarrow> 'c bt_gatt_server \<Rightarrow> u16 \<Rightarrow> 'c srv_result" where
  "exec_write_loop env [] srv ehandle = srv_send env (srv\<lparr>prep_queue := []\<rparr>) BT_ATT_OP_EXEC_WRITE_RSP None 0"
| "exec_write_loop env (nxt # q) srv ehandle = do {
     let srv = srv\<lparr>prep_queue := q\<rparr>;
     attr \<leftarrow> gatt_db_get_attribute (Some (srv_db srv)) (pd_handle nxt);
     case attr of None \<Rightarrow> exec_write_error env srv ehandle (int (unat BT_ATT_ERROR_UNLIKELY))
     | Some attr \<Rightarrow> do {
         (status, db, es) \<leftarrow> gatt_db_attribute_write (e_mem env) (e_junk env) (e_timeout env) (srv_db srv)
                               (Some attr) (pd_offset nxt) (take (unat (pd_length nxt)) (pd_value nxt))
                               BT_ATT_OP_EXEC_WRITE_REQ att_ptr (Some Exec_write_complete_cb) (Some Server_ptr);
         let srv = srv\<lparr>srv_db := db\<rparr>;
         if \<not> status then exec_write_error env srv ehandle (int (unat BT_ATT_ERROR_UNLIKELY))
         else case es of
           [Write_done f p err ud] \<Rightarrow> do {
             handle \<leftarrow> gatt_db_attribute_get_handle db (Some p);
             if err \<noteq> 0 then exec_write_error env srv handle err else exec_write_loop env q srv handle }
         | _ \<Rightarrow> Some (srv, es) } }"

definition exec_next_prep_write ::
    "'c srv_env \<Rightarrow> 'c bt_gatt_server \<Rightarrow> u16 \<Rightarrow> int \<Rightarrow> 'c srv_result" where
  "exec_next_prep_write env srv ehandle err =
     (if err \<noteq> 0 then exec_write_error env srv ehandle err
      else exec_write_loop env (prep_queue srv) srv ehandle)"

definition exec_write_complete_cb ::
    "'c srv_env \<Rightarrow> 'c bt_gatt_server \<Rightarrow> attr_ptr \<Rightarrow> int \<Rightarrow> 'c srv_result" where
  "exec_write_complete_cb env srv attr err = do {
     handle \<leftarrow> gatt_db_attribute_get_handle (srv_db srv) (Some attr);
     exec_next_prep_write env srv handle err }"

definition find_no_reliable_characteristic :: "prep_write_data \<Rightarrow> bool" where
  "find_no_reliable_characteristic prep_data \<longleftrightarrow> \<not> pd_reliable_supported prep_data"

definition exec_write_cb :: "'c srv_env \<Rightarrow> 'c bt_gatt_server \<Rightarrow> u8 \<Rightarrow> bytes \<Rightarrow> 'c srv_result" where
  "exec_write_cb env srv opcode pdu =
     (let cleared = srv\<lparr>prep_queue := []\<rparr>
      in if length pdu \<noteq> 1 then srv_ecode env cleared opcode 0 BT_ATT_ERROR_INVALID_PDU
         else if hd pdu \<noteq> 0x00 \<and> hd pdu \<noteq> 0x01 then srv_ecode env cleared opcode 0 BT_ATT_ERROR_INVALID_PDU
         else if hd pdu = 0x00 then srv_send env cleared BT_ATT_OP_EXEC_WRITE_RSP None 0
         else case (if length (prep_queue srv) > 1 then find find_no_reliable_characteristic (prep_queue srv) else None) of
           Some prep_data \<Rightarrow>
             srv_ecode env cleared opcode (pd_handle prep_data) BT_ATT_ERROR_REQUEST_NOT_SUPPORTED
         | None \<Rightarrow> exec_next_prep_write env srv 0 0)"

section \<open>MTU exchange\<close>

definition exchange_mtu_cb :: "'c srv_env \<Rightarrow> 'c bt_gatt_server \<Rightarrow> u8 \<Rightarrow> bytes \<Rightarrow> 'c srv_result" where
  "exchange_mtu_cb env srv opcode pdu =
     (if length pdu \<noteq> 2 then srv_ecode env srv opcode 0 BT_ATT_ERROR_INVALID_PDU
      else do {
        let client_rx_mtu = get_le16 pdu;
        let final_mtu = max (min client_rx_mtu (srv_mtu srv)) BT_ATT_DEFAULT_LE_MTU;
        (srv, _) \<leftarrow> srv_send env srv BT_ATT_OP_MTU_RSP (Some (put_le16 (srv_mtu srv))) 2;
        t \<leftarrow> snd (bt_att_set_mtu env (Some (srv_att srv)) final_mtu);
        Some (srv\<lparr>srv_mtu := final_mtu, srv_att := t\<rparr>, []) })"

section \<open>Life of a server\<close>

definition att_handlers :: "(u8 \<times> 'c fn) list" where
  "att_handlers =
    [(BT_ATT_OP_MTU_REQ, Exchange_mtu_cb), (BT_ATT_OP_READ_BY_GRP_TYPE_REQ, Read_by_grp_type_cb),
     (BT_ATT_OP_READ_BY_TYPE_REQ, Read_by_type_cb), (BT_ATT_OP_FIND_INFO_REQ, Find_info_cb),
     (BT_ATT_OP_FIND_BY_TYPE_REQ, Find_by_type_val_cb), (BT_ATT_OP_WRITE_REQ, Write_cb),
     (BT_ATT_OP_WRITE_CMD, Write_cb), (BT_ATT_OP_READ_REQ, Read_cb), (BT_ATT_OP_READ_BLOB_REQ, Read_blob_cb),
     (BT_ATT_OP_READ_MULT_REQ, Read_multiple_cb), (BT_ATT_OP_PREP_WRITE_REQ, Prep_write_cb),
     (BT_ATT_OP_EXEC_WRITE_REQ, Exec_write_cb)]"

text \<open>The handlers are registered one by one, up to the first that is refused.\<close>

primrec register_handlers ::
    "(u8 \<times> 'c fn) list \<Rightarrow> 'c fn bt_att \<Rightarrow> bool \<times> u32 list \<times> 'c fn bt_att" where
  "register_handlers [] att = (True, [], att)"
| "register_handlers (h # hs) att =
     (case bt_att_register (Some att) (fst h) (Some (snd h)) (Some Server_ptr) None of
        (i, t) \<Rightarrow>
          if i = 0 then (False, [], the t)
          else (case register_handlers hs (the t) of (ok, is, t) \<Rightarrow> (ok, i # is, t)))"

definition gatt_server_register_att_handlers :: "'c bt_gatt_server \<Rightarrow> bool \<times> 'c bt_gatt_server" where
  "gatt_server_register_att_handlers srv =
     (case register_handlers att_handlers (srv_att srv) of
        (ok, is, t) \<Rightarrow> (ok, srv\<lparr>handler_ids := is, srv_att := t\<rparr>))"

primrec unregister_handlers ::
    "u32 list \<Rightarrow> 'c fn bt_att option \<Rightarrow> 'c fn bt_att option \<times> 'c fn att_event list" where
  "unregister_handlers [] att = (att, [])"
| "unregister_handlers (i # is) att =
     (case bt_att_unregister att i of
        (_, att, e) \<Rightarrow> (case unregister_handlers is att of (att, es) \<Rightarrow> (att, e @ es)))"

text \<open>What is left of the database and of the ATT engine when the server is gone.\<close>

definition bt_gatt_server_free ::
    "'c bt_gatt_server \<Rightarrow>
       ('c fn gatt_db option \<times> 'c fn bt_att option \<times> 'c fn db_event list \<times> 'c fn att_event list) option" where
  "bt_gatt_server_free srv = do {
     let (att, e1) = unregister_handlers (handler_ids srv) (Some (srv_att srv));
     (db, es) \<leftarrow> gatt_db_unref (Some (srv_db srv));
     let (att, e2) = bt_att_unref att;
     Some (db, att, es,
           (case srv_debug_destroy srv of None \<Rightarrow> [] | Some f \<Rightarrow> [Att_destroy (App f) (map_option App (srv_debug_data srv))])
           @ e1 @ e2) }"

definition bt_gatt_server_ref :: "'c bt_gatt_server option \<Rightarrow> 'c bt_gatt_server option" where
  "bt_gatt_server_ref srv =
     (case srv of None \<Rightarrow> None | Some s \<Rightarrow> Some (s\<lparr>srv_ref_count := srv_ref_count s + 1\<rparr>))"

definition bt_gatt_server_unref ::
    "'c bt_gatt_server option \<Rightarrow>
       ('c bt_gatt_server option \<times> 'c fn db_event list \<times> 'c fn att_event list) option" where
  "bt_gatt_server_unref srv =
     (case srv of None \<Rightarrow> Some (None, [], [])
      | Some s \<Rightarrow>
          let s = s\<lparr>srv_ref_count := srv_ref_count s - 1\<rparr>
          in if srv_ref_count s \<noteq> 0 then Some (Some s, [], [])
             else do { (_, _, es, e) \<leftarrow> bt_gatt_server_free s; Some (None, es, e) })"

text \<open>The result is the server; when the handlers cannot be registered it is freed again.\<close>

definition bt_gatt_server_new ::
    "'c fn gatt_db option \<Rightarrow> 'c fn bt_att option \<Rightarrow> u16 \<Rightarrow> 'c bt_gatt_server option" where
  "bt_gatt_server_new db att mtu =
     (case (gatt_db_ref db, bt_att_ref att) of
        (Some d, Some t) \<Rightarrow>
          let srv = \<lparr>srv_db = d, srv_att = t, srv_ref_count = 0, srv_mtu = max mtu BT_ATT_DEFAULT_LE_MTU,
                     handler_ids = [], prep_queue = [], max_prep_queue_len = DEFAULT_MAX_PREP_QUEUE_LEN,
                     pending_read_op = None, pending_write_op = None, srv_debug_callback = None,
                     srv_debug_destroy = None, srv_debug_data = None\<rparr>
          in (case gatt_server_register_att_handlers srv of
                (ok, srv) \<Rightarrow> if ok then bt_gatt_server_ref (Some srv) else None)
      | _ \<Rightarrow> None)"

definition bt_gatt_server_get_mtu :: "'c bt_gatt_server option \<Rightarrow> u16" where
  "bt_gatt_server_get_mtu srv =
     (case srv of None \<Rightarrow> 0 | Some s \<Rightarrow> bt_att_get_mtu (Some (srv_att s)))"

definition bt_gatt_server_set_debug ::
    "'c bt_gatt_server option \<Rightarrow> 'c option \<Rightarrow> 'c option \<Rightarrow> 'c option
       \<Rightarrow> bool \<times> 'c bt_gatt_server option \<times> 'c fn att_event list" where
  "bt_gatt_server_set_debug srv callback user_data destroy =
     (case srv of None \<Rightarrow> (False, None, [])
      | Some s \<Rightarrow>
          (True, Some (s\<lparr>srv_debug_callback := callback, srv_debug_destroy := destroy, srv_debug_data := user_data\<rparr>),
           case srv_debug_destroy s of None \<Rightarrow> []
           | Some f \<Rightarrow> [Att_destroy (App f) (map_option App (srv_debug_data s))]))"

section \<open>Notifications and indications\<close>

definition server_value_pdu ::
    "'c srv_env \<Rightarrow> 'c bt_gatt_server \<Rightarrow> u16 \<Rightarrow> bytes option \<Rightarrow> u16 \<Rightarrow> (nat \<times> bytes) option" where
  "server_value_pdu env s handle val len = do {
     let pdu_len = min (unat (bt_att_get_mtu (Some (srv_att s))) - 1) (unat len + 2);
     pdu \<leftarrow> buf_write (map (e_junk env) [0..<pdu_len]) 0 (put_le16 handle);
     v \<leftarrow> src_bytes val (of_nat (pdu_len - 2));
     pdu \<leftarrow> buf_write pdu 2 v;
     Some (pdu_len, pdu) }"

definition bt_gatt_server_send_notification ::
    "'c srv_env \<Rightarrow> 'c bt_gatt_server option \<Rightarrow> u16 \<Rightarrow> bytes option \<Rightarrow> u16
       \<Rightarrow> (bool \<times> 'c bt_gatt_server option) option" where
  "bt_gatt_server_send_notification env srv handle val len =
     (case srv of None \<Rightarrow> Some (False, None)
      | Some s \<Rightarrow>
          if len \<noteq> 0 \<and> val = None then Some (False, srv)
          else if \<not> e_mem env then Some (False, srv)
          else do {
            (pdu_len, pdu) \<leftarrow> server_value_pdu env s handle val len;
            (i, t) \<leftarrow> bt_att_send env (Some (srv_att s)) BT_ATT_OP_HANDLE_VAL_NOT (Some pdu) (of_nat pdu_len)
                        None None None;
            t \<leftarrow> t;
            Some (i \<noteq> 0, Some (s\<lparr>srv_att := t\<rparr>)) })"

definition destroy_ind_data :: "'c fn \<Rightarrow> 'c fn att_event list" where
  "destroy_ind_data data =
     (case data of Ind_data callback destroy user_data \<Rightarrow>
        (case destroy of None \<Rightarrow> [] | Some f \<Rightarrow> [Att_destroy (App f) (map_option App user_data)])
      | _ \<Rightarrow> [])"

definition conf_cb :: "'c fn \<Rightarrow> ('c \<times> 'c option) option" where
  "conf_cb data =
     (case data of Ind_data callback destroy user_data \<Rightarrow> map_option (\<lambda>f. (f, user_data)) callback | _ \<Rightarrow> None)"

definition bt_gatt_server_send_indication ::
    "'c srv_env \<Rightarrow> 'c bt_gatt_server option \<Rightarrow> u16 \<Rightarrow> bytes option \<Rightarrow> u16 \<Rightarrow> 'c option \<Rightarrow> 'c option \<Rightarrow> 'c option
       \<Rightarrow> (bool \<times> 'c bt_gatt_server option \<times> 'c fn att_event list) option" where
  "bt_gatt_server_send_indication env srv handle val len callback user_data destroy =
     (case srv of None \<Rightarrow> Some (False, None, [])
      | Some s \<Rightarrow>
          if len \<noteq> 0 \<and> val = None then Some (False, srv, [])
          else if \<not> e_mem env then Some (False, srv, [])
          else do {
            let data = Ind_data callback destroy user_data;
            (pdu_len, pdu) \<leftarrow> server_value_pdu env s handle val len;
            (i, t) \<leftarrow> bt_att_send env (Some (srv_att s)) BT_ATT_OP_HANDLE_VAL_IND (Some pdu) (of_nat pdu_len)
                        (Some Conf_cb) (Some data) (Some Destroy_ind_data);
            t \<leftarrow> t;
            Some (i \<noteq> 0, Some (s\<lparr>srv_att := t\<rparr>), if i = 0 then destroy_ind_data data else []) })"

section \<open>Dispatch\<close>

text \<open>The call of a handler the server registered.\<close>

definition srv_handler ::
    "'c srv_env \<Rightarrow> 'c bt_gatt_server \<Rightarrow> 'c fn \<Rightarrow> u8 \<Rightarrow> bytes \<Rightarrow> 'c srv_result" where
  "srv_handler env srv f opcode pdu =
     (case f of
        Exchange_mtu_cb \<Rightarrow> exchange_mtu_cb env srv opcode pdu
      | Read_by_grp_type_cb \<Rightarrow> read_by_grp_type_cb env srv opcode pdu
      | Read_by_type_cb \<Rightarrow> read_by_type_cb env srv opcode pdu
      | Find_info_cb \<Rightarrow> find_info_cb env srv opcode pdu
      | Find_by_type_val_cb \<Rightarrow> find_by_type_val_cb env srv opcode pdu
      | Write_cb \<Rightarrow> write_cb env srv opcode pdu
      | Read_cb \<Rightarrow> read_cb env srv opcode pdu
      | Read_blob_cb \<Rightarrow> read_blob_cb env srv opcode pdu
      | Read_multiple_cb \<Rightarrow> read_multiple_cb env srv opcode pdu
      | Prep_write_cb \<Rightarrow> prep_write_cb env srv opcode pdu
      | Exec_write_cb \<Rightarrow> exec_write_cb env srv opcode pdu
      | _ \<Rightarrow> Some (srv, []))"

text \<open>The handlers the ATT engine calls for a PDU, in order.\<close>

primrec srv_handle_events ::
    "'c srv_env \<Rightarrow> 'c fn att_event list \<Rightarrow> 'c bt_gatt_server \<Rightarrow> 'c srv_result" where
  "srv_handle_events env [] srv = Some (srv, [])"
| "srv_handle_events env (e # es) srv = do {
     (srv, d) \<leftarrow> (case e of Att_notify_callback f opcode pdu ud \<Rightarrow> srv_handler env srv f opcode pdu
                  | _ \<Rightarrow> Some (srv, []));
     (srv, ds) \<leftarrow> srv_handle_events env es srv;
     Some (srv, d @ ds) }"

definition srv_receive ::
    "'c srv_env \<Rightarrow> 'c bt_gatt_server \<Rightarrow> bytes option \<Rightarrow> ('c bt_gatt_server \<times> 'c fn db_event list \<times> 'c fn att_event list) option" where
  "srv_receive env srv bs = do {
     (_, t, es) \<leftarrow> can_read_data env (srv_att srv) bs;
     (srv, ds) \<leftarrow> srv_handle_events env es (srv\<lparr>srv_att := t\<rparr>);
     Some (srv, ds, es) }"

text \<open>
  A result of the application.  The data of a read of several attributes are gone, and so is the
  variable of \<open>attribute_read_cb\<close> and of \<open>read_ext_prop_value\<close>.
\<close>

definition db_done :: "'c srv_env \<Rightarrow> 'c bt_gatt_server \<Rightarrow> 'c fn db_event \<Rightarrow> 'c srv_result" where
  "db_done env srv e =
     (case e of
        Read_done f q err val ud \<Rightarrow>
          (case f of
             Read_by_type_read_complete_cb \<Rightarrow> read_by_type_read_complete_cb env srv q err val
           | Read_complete_cb \<Rightarrow> read_complete_cb env srv q err val
           | Read_multiple_complete_cb \<Rightarrow> None
           | Attribute_read_cb \<Rightarrow> None
           | Read_ext_prop_value \<Rightarrow> None
           | _ \<Rightarrow> Some (srv, []))
      | Write_done f q err ud \<Rightarrow>
          (case f of
             Write_complete_cb \<Rightarrow> write_complete_cb env srv q err
           | Exec_write_complete_cb \<Rightarrow> exec_write_complete_cb env srv q err
           | _ \<Rightarrow> Some (srv, []))
      | _ \<Rightarrow> Some (srv, []))"

end
