(* ===== verification/Gatt_Server_Safe.thy ===== *)
theory Gatt_Server_Safe
  imports Gatt_Server Gatt_Db_Machine Bt_Att_Protocol
begin

text \<open>
  The contract of a request handler: on a server in a good state it does not fault, leaves the
  server in a good state, and either queues exactly one response that fits the MTU, for the
  request it was given, or hands the request to the application.
\<close>

section \<open>The state of a server\<close>

definition prep_ok :: "prep_write_data \<Rightarrow> bool" where
  "prep_ok p \<longleftrightarrow> length (pd_value p) = unat (pd_length p)"

definition srv_ok :: "'c bt_gatt_server \<Rightarrow> bool" where
  "srv_ok srv \<longleftrightarrow> db_wf (srv_db srv) \<and> att_wf (srv_att srv) \<and> att_io (srv_att srv) \<and>
     length (prep_queue srv) \<le> max_prep_queue_len srv \<and> (\<forall>p \<in> set (prep_queue srv). prep_ok p)"

text \<open>The PDUs that answer a request: its response, or an error response that names it.\<close>

definition response_pdu :: "u8 \<Rightarrow> bytes \<Rightarrow> bool" where
  "response_pdu opcode p \<longleftrightarrow>
     p \<noteq> [] \<and> (hd p = opcode + 1 \<or> hd p = BT_ATT_OP_ERROR_RSP \<and> length p = 5 \<and> p ! 1 = opcode)"

definition queued_response :: "u8 \<Rightarrow> 'c fn bt_att \<Rightarrow> 'c fn bt_att \<Rightarrow> bool" where
  "queued_response opcode att att' \<longleftrightarrow> att_notify_list att' = att_notify_list att \<and>
     (\<exists>oper. write_queue att' = write_queue att @ [oper] \<and> op_type oper = ATT_OP_TYPE_RSP \<and>
        response_pdu opcode (op_pdu oper) \<and> length (op_pdu oper) \<le> unat (att_mtu att))"

definition handed_over :: "'c fn db_event \<Rightarrow> bool" where
  "handed_over e = (case e of Read_func _ _ _ _ _ _ _ \<Rightarrow> True | Write_func _ _ _ _ _ _ _ _ \<Rightarrow> True | _ \<Rightarrow> False)"

definition responded :: "u8 \<Rightarrow> 'c fn bt_att \<Rightarrow> 'c srv_result \<Rightarrow> bool" where
  "responded opcode att r \<longleftrightarrow> (\<exists>srv es. r = Some (srv, es) \<and> srv_ok srv \<and> queued_response opcode att (srv_att srv))"

text \<open>Pointers to attributes of the database.\<close>

definition valid :: "'d gatt_db \<Rightarrow> attr_ptr list \<Rightarrow> bool" where
  "valid db qs \<longleftrightarrow> (\<forall>q \<in> set qs. db_attr db q \<noteq> None)"

text \<open>A read by type in progress: the buffer holds an MTU and the response so far fits.\<close>

definition rop_ok :: "u16 \<Rightarrow> async_read_op \<Rightarrow> bool" where
  "rop_ok mtu oper \<longleftrightarrow> unat mtu \<le> length (ro_pdu oper) \<and> ro_pdu_len oper < unat mtu"

text \<open>The server waits for the completion function \<open>f\<close> to answer the request \<open>opcode\<close>.\<close>

definition awaits :: "'c bt_gatt_server \<Rightarrow> 'c fn \<Rightarrow> u8 \<Rightarrow> bool" where
  "awaits srv f opcode =
     (case f of
        Read_complete_cb \<Rightarrow>
          (case pending_read_op srv of None \<Rightarrow> False
           | Some oper \<Rightarrow> ro_opcode oper = opcode \<and> (opcode = BT_ATT_OP_READ_REQ \<or> opcode = BT_ATT_OP_READ_BLOB_REQ))
      | Read_by_type_read_complete_cb \<Rightarrow>
          (case pending_read_op srv of None \<Rightarrow> False
           | Some oper \<Rightarrow> opcode = BT_ATT_OP_READ_BY_TYPE_REQ)
      | Write_complete_cb \<Rightarrow>
          (case pending_write_op srv of None \<Rightarrow> False
           | Some oper \<Rightarrow> wo_opcode oper = opcode \<and> opcode = BT_ATT_OP_WRITE_REQ)
      | Exec_write_complete_cb \<Rightarrow> opcode = BT_ATT_OP_EXEC_WRITE_REQ
      | _ \<Rightarrow> False)"

text \<open>
  What the completion of a read by type needs of the operation that waits: its buffer, allocated for
  the MTU at the time of the request, holds the present MTU, and the attributes still to be read exist.
\<close>

definition completable :: "'c bt_gatt_server \<Rightarrow> 'c fn \<Rightarrow> bool" where
  "completable srv f \<longleftrightarrow> (f = Read_by_type_read_complete_cb \<longrightarrow>
     (case pending_read_op srv of None \<Rightarrow> True
      | Some oper \<Rightarrow> rop_ok (att_mtu (srv_att srv)) oper \<and> valid (srv_db srv) (ro_db_data oper)))"

text \<open>
  A request handed to the application: the server waits for its completion.  The data of a read of
  several attributes are not kept.
\<close>

definition deferred :: "u8 \<Rightarrow> 'c fn bt_att \<Rightarrow> 'c srv_result \<Rightarrow> bool" where
  "deferred opcode att r \<longleftrightarrow>
     (\<exists>srv e. r = Some (srv, [e]) \<and> handed_over e \<and> srv_ok srv \<and> srv_att srv = att \<and>
        (opcode = BT_ATT_OP_READ_MULT_REQ \<or> (\<exists>f. awaits srv f opcode \<and> completable srv f)))"

definition answers :: "u8 \<Rightarrow> 'c fn bt_att \<Rightarrow> 'c srv_result \<Rightarrow> bool" where
  "answers opcode att r \<longleftrightarrow> responded opcode att r \<or> deferred opcode att r"

lemma answersI: "responded opcode att r \<Longrightarrow> answers opcode att r" "deferred opcode att r \<Longrightarrow> answers opcode att r"
  by (simp_all add: answers_def)

lemma respondedI:
  "srv_ok srv \<Longrightarrow> queued_response opcode att (srv_att srv) \<Longrightarrow> responded opcode att (Some (srv, es))"
  by (auto simp: responded_def)

lemma responded_bind:
  assumes "responded opcode att r" "\<And>s. srv_ok s \<Longrightarrow> srv_ok (g s)" "\<And>s. srv_att (g s) = srv_att s"
  shows "responded opcode att (do { (srv, _) \<leftarrow> r; Some (g srv, es) })"
  using assms by (auto simp: responded_def)

lemma responded_events: "responded opcode att r \<Longrightarrow> responded opcode att (do { (srv, _) \<leftarrow> r; Some (srv, es) })"
  by (auto simp: responded_def)

lemma srv_ok_fields [simp]:
  "srv_ok (srv\<lparr>pending_read_op := a\<rparr>) = srv_ok srv" "srv_ok (srv\<lparr>pending_write_op := b\<rparr>) = srv_ok srv"
  "srv_ok (async_read_op_destroy srv) = srv_ok srv" "srv_ok (async_write_op_destroy srv) = srv_ok srv"
  "srv_att (async_read_op_destroy srv) = srv_att srv" "srv_att (async_write_op_destroy srv) = srv_att srv"
  "srv_db (async_read_op_destroy srv) = srv_db srv" "srv_db (async_write_op_destroy srv) = srv_db srv"
  by (simp_all add: srv_ok_def async_read_op_destroy_def async_write_op_destroy_def)

lemma srv_ok_db: "srv_ok srv \<Longrightarrow> db_wf db \<Longrightarrow> srv_ok (srv\<lparr>srv_db := db\<rparr>)"
  by (simp add: srv_ok_def)

section \<open>Sending\<close>

lemma wakeup_notify [simp]: "att_notify_list (wakeup_writer env att) = att_notify_list att"
  by (simp add: wakeup_writer_def)

lemma att_send_queues:
  assumes "att_wf att" "att_io att" "e_mem env" "get_op_type opcode = ATT_OP_TYPE_RSP"
    "opcode AND ATT_OP_SIGNED_MASK = 0" "src_bytes pdu len = Some v" "unat len < unat (att_mtu att)"
  shows "\<exists>i att' oper. bt_att_send env (Some att) opcode pdu len None None None = Some (i, Some att') \<and>
    att_wf att' \<and> att_io att' \<and> att_mtu att' = att_mtu att \<and> att_notify_list att' = att_notify_list att \<and>
    write_queue att' = write_queue att @ [oper] \<and>
    op_type oper = ATT_OP_TYPE_RSP \<and> op_pdu oper = opcode # v"
proof -
  have "\<not> (len \<noteq> 0 \<and> pdu = None)" using assms(6) by (auto simp: src_bytes_def split: if_splits option.splits)
  with encode_unsigned [OF assms(5-7,3)] assms(4)
  have c: "create_att_send_op env att opcode pdu len None None None =
      Some (Some \<lparr>op_id = 0, op_timeout_id = 0, op_type = ATT_OP_TYPE_RSP, op_opcode = opcode, op_pdu = opcode # v,
        op_callback = None, op_destroy = None, op_user_data = None\<rparr>)"
    by (auto simp: create_att_send_op_def)
  let ?i = "if next_send_id att < 1 then 1 else next_send_id att"
  obtain att' where s: "bt_att_send env (Some att) opcode pdu len None None None = Some (?i, Some att')"
    using c assms(2) by (simp add: bt_att_send_def Let_def)
  have wf: "att_wf att'" using send_wf(1) [OF s assms(1)] .
  show ?thesis using s c assms(2) wf by (auto simp: bt_att_send_def Let_def)
qed

text \<open>The responses of the server: opcodes that are responses and are not signed.\<close>

lemma srv_send_responds:
  assumes "srv_ok srv" "e_mem env" "srv_att srv = att" "rop = opcode + 1" "get_op_type rop = ATT_OP_TYPE_RSP"
    "rop AND ATT_OP_SIGNED_MASK = 0" "n < unat (att_mtu att)" "n = 0 \<or> (\<exists>p. pdu = Some p \<and> n \<le> length p)"
  shows "responded opcode att (srv_send env srv rop pdu n)"
proof -
  have n: "n < 65536" using assms(7) unat_u16_less [of "att_mtu att"] by linarith
  then have n2: "unat (of_nat n :: u16) = n" by (simp add: unat_of_nat_less)
  obtain v where v: "src_bytes pdu (of_nat n) = Some v" "length v = n"
    using assms(8) src_bytes_take [OF n] by auto
  have ok: "att_wf att" "att_io att" using assms(1,3) by (auto simp: srv_ok_def)
  have "unat (of_nat n :: u16) < unat (att_mtu att)" using n2 assms(7) by simp
  from att_send_queues [OF ok assms(2,5,6) v(1) this] obtain i att' oper where
    s: "bt_att_send env (Some att) rop pdu (of_nat n) None None None = Some (i, Some att')"
      "att_wf att'" "att_io att'" "att_notify_list att' = att_notify_list att" "write_queue att' = write_queue att @ [oper]"
      "op_type oper = ATT_OP_TYPE_RSP" "op_pdu oper = rop # v" by blast
  then show ?thesis using assms(1,3,4,7) v(2)
    by (auto simp: srv_send_def responded_def srv_ok_def queued_response_def response_pdu_def)
qed

lemma srv_error_responds:
  assumes "srv_ok srv" "e_mem env" "srv_att srv = att" "opcode \<noteq> 0"
  shows "responded opcode att (srv_error env srv opcode handle err)"
proof -
  have ok: "att_wf att" "att_io att" using assms(1,3) by (auto simp: srv_ok_def)
  define pdu where "pdu = [opcode] @ put_le16 handle @ [att_ecode_from_error err]"
  have len: "length pdu = 4" "pdu ! 0 = opcode" by (simp_all add: pdu_def)
  have mtu: "23 \<le> unat (att_mtu att)"
    using ok(1) by (simp add: att_wf_def BT_ATT_DEFAULT_LE_MTU_def word_le_nat_alt)
  have "get_op_type BT_ATT_OP_ERROR_RSP = ATT_OP_TYPE_RSP" "BT_ATT_OP_ERROR_RSP AND ATT_OP_SIGNED_MASK = 0"
    by (simp_all add: opcode_eval ATT_OP_SIGNED_MASK_def)
  moreover have "src_bytes (Some pdu) 4 = Some pdu" using src_bytes_take [of 4 pdu] len by simp
  moreover have "unat (4 :: u16) < unat (att_mtu att)" using mtu by simp
  ultimately obtain i att' oper where
    r: "bt_att_send env (Some att) BT_ATT_OP_ERROR_RSP (Some pdu) 4 None None None = Some (i, Some att')"
      "att_wf att'" "att_io att'" "att_notify_list att' = att_notify_list att" "write_queue att' = write_queue att @ [oper]"
      "op_type oper = ATT_OP_TYPE_RSP" "op_pdu oper = BT_ATT_OP_ERROR_RSP # pdu"
    using att_send_queues [OF ok assms(2)] by blast
  then have "srv_error env srv opcode handle err = Some (srv\<lparr>srv_att := att'\<rparr>, [])"
    using assms(3,4) len unfolding pdu_def by (simp add: srv_error_def bt_att_send_error_rsp_def Let_def)
  moreover have "queued_response opcode att att'"
    unfolding queued_response_def response_pdu_def using r len mtu by (intro conjI exI [of _ oper]) auto
  ultimately show ?thesis using assms(1) r by (auto simp: responded_def srv_ok_def)
qed

lemma srv_ecode_responds:
  "srv_ok srv \<Longrightarrow> e_mem env \<Longrightarrow> srv_att srv = att \<Longrightarrow> opcode \<noteq> 0 \<Longrightarrow>
     responded opcode att (srv_ecode env srv opcode handle ecode)"
  unfolding srv_ecode_def by (rule srv_error_responds)

lemmas responds = srv_send_responds srv_error_responds srv_ecode_responds

section \<open>The database as the server uses it\<close>

text \<open>Pointers stay valid and keep their handle while the server reads and writes.\<close>

definition keeps :: "'d gatt_db \<Rightarrow> 'd gatt_db \<Rightarrow> bool" where
  "keeps db db' \<longleftrightarrow> db_wf db' \<and>
     (\<forall>q a. db_attr db q = Some a \<longrightarrow> (\<exists>a'. db_attr db' q = Some a' \<and> a_handle a' = a_handle a))"

lemma keeps_refl [simp]: "db_wf db \<Longrightarrow> keeps db db"
  by (auto simp: keeps_def)

lemma keepsD: "keeps db db' \<Longrightarrow> db_attr db q = Some a \<Longrightarrow> \<exists>a'. db_attr db' q = Some a' \<and> a_handle a' = a_handle a"
  unfolding keeps_def by blast

lemma keeps_trans: "keeps a b \<Longrightarrow> keeps b c \<Longrightarrow> keeps a c"
  unfolding keeps_def by metis

lemma put_attr_keeps:
  assumes "db_wf db" "db_attr db q = Some a" "attr_ok q a'" "a_handle a' = a_handle a" "put_attr db q a' = Some db'"
  shows "keeps db db'"
proof -
  obtain db2 where "put_attr db q a' = Some db2" "db_wf db2" using put_attr_wf [OF assms(1-4)] by blast
  then have wf: "db_wf db'" using assms(5) by simp
  have "\<exists>x'. db_attr db' r = Some x' \<and> a_handle x' = a_handle x" if "db_attr db r = Some x" for r x
    using db_attr_put [OF assms(5), of r] that assms(2,4) by (cases "r = q") auto
  with wf show ?thesis by (auto simp: keeps_def)
qed

lemma db_read_cases:
  assumes "db_wf db" "db_attr db q = Some a"
  obtains (answered) err val where
      "gatt_db_attribute_read tid db (Some q) off opc att (Some f) ud = Some (True, db, [Read_done f q err val ud])"
    | (handed) db' rf i where "keeps db db'"
      "gatt_db_attribute_read tid db (Some q) off opc att (Some f) ud =
         Some (True, db', [Read_func rf q i off opc att (a_user_data a)])"
proof (cases "a_read_func a")
  case None
  have "attr_ok q a" using db_attr_ok [OF assms] .
  then have "\<exists>err val. gatt_db_attribute_read tid db (Some q) off opc att (Some f) ud =
      Some (True, db, [Read_done f q err val ud])"
    using None assms(2)
    by (cases "a_value a") (auto simp: gatt_db_attribute_read_def attr_ok_def word_neq_0_conv)
  then show ?thesis using answered by blast
next
  case (Some rf)
  define p where "p = \<lparr>p_attrib = q, p_id = a_read_id a + 1, p_timeout_id = tid, p_func = f, p_user_data = ud\<rparr>"
  define a2 where "a2 = a\<lparr>a_read_id := a_read_id a + 1, a_pending_reads := a_pending_reads a @ [p]\<rparr>"
  have a2: "attr_ok q a2" "a_handle a2 = a_handle a"
    using db_attr_ok [OF assms] by (auto simp: attr_ok_def a2_def p_def split: option.splits)
  obtain db' where db': "put_attr db q a2 = Some db'" using put_attr_wf [OF assms a2] by blast
  then have "keeps db db'" by (rule put_attr_keeps [OF assms a2])
  moreover have "gatt_db_attribute_read tid db (Some q) off opc att (Some f) ud =
      Some (True, db', [Read_func rf q (p_id p) off opc att (a_user_data a)])"
    using Some assms(2) db' by (simp add: gatt_db_attribute_read_def Let_def p_def a2_def)
  ultimately show ?thesis by (rule handed)
qed

lemma db_write_cases:
  assumes "db_wf db" "db_attr db q = Some a"
  obtains (stored) db' where "keeps db db'"
      "gatt_db_attribute_write mem junk tid db (Some q) off val opc att (Some f) ud =
         Some (True, db', [Write_done f q 0 ud])"
    | (handed) db' wfn i where "keeps db db'"
      "gatt_db_attribute_write mem junk tid db (Some q) off val opc att (Some f) ud =
         Some (True, db', [Write_func wfn q i off val opc att (a_user_data a)])"
    | (failed) "gatt_db_attribute_write mem junk tid db (Some q) off val opc att (Some f) ud = Some (False, db, [])"
proof (cases "a_write_func a")
  case None
  show ?thesis
  proof (cases "val = []")
    case True
    then show ?thesis using None assms
      by (intro that(1) [of db]) (auto simp: gatt_db_attribute_write_def)
  next
    case False
    from store_value_ok [OF db_attr_ok [OF assms] False] obtain a' where
      a': "store_value junk a (unat off) val = Some a'" "attr_ok q a'" "a_handle a' = a_handle a" by blast
    obtain db' where db': "put_attr db q a' = Some db'" using put_attr_wf [OF assms a'(2,3)] by blast
    have k: "keeps db db'" by (rule put_attr_keeps [OF assms a'(2,3) db'])
    have "gatt_db_attribute_write mem junk tid db (Some q) off val opc att (Some f) ud = Some (False, db, []) \<or>
      gatt_db_attribute_write mem junk tid db (Some q) off val opc att (Some f) ud =
         Some (True, db', [Write_done f q 0 ud])"
      using None False assms(2) a'(1) db' by (auto simp: gatt_db_attribute_write_def)
    then show ?thesis using that(1) [OF k] that(3) by blast
  qed
next
  case (Some wfn)
  define p where "p = \<lparr>p_attrib = q, p_id = a_write_id a + 1, p_timeout_id = tid, p_func = f, p_user_data = ud\<rparr>"
  define a2 where "a2 = a\<lparr>a_write_id := a_write_id a + 1, a_pending_writes := a_pending_writes a @ [p]\<rparr>"
  have a2: "attr_ok q a2" "a_handle a2 = a_handle a"
    using db_attr_ok [OF assms] by (auto simp: attr_ok_def a2_def p_def split: option.splits)
  obtain db' where db': "put_attr db q a2 = Some db'" using put_attr_wf [OF assms a2] by blast
  then have "keeps db db'" by (rule put_attr_keeps [OF assms a2])
  moreover have "gatt_db_attribute_write mem junk tid db (Some q) off val opc att (Some f) ud =
      Some (True, db', [Write_func wfn q (p_id p) off val opc att (a_user_data a)])"
    using Some assms(2) db' by (simp add: gatt_db_attribute_write_def Let_def p_def a2_def)
  ultimately show ?thesis by (rule that(2))
qed

lemma find_SomeD: "find P xs = Some x \<Longrightarrow> x \<in> set xs \<and> P x"
  by (auto simp: find_Some_iff)

lemma svc_loop_attr: "(i, a) \<in> set (svc_loop sv) \<Longrightarrow> svc_attr sv i = Some a"
  by (auto simp: svc_loop_def split: option.splits)

lemma valid_simps [simp]:
  "valid db []" "valid db (q # qs) \<longleftrightarrow> (\<exists>a. db_attr db q = Some a) \<and> valid db qs"
  by (auto simp: valid_def)

lemma valid_keeps: "valid db qs \<Longrightarrow> keeps db db' \<Longrightarrow> valid db' qs"
  by (fastforce simp: valid_def keeps_def)

lemma get_attribute_cases:
  assumes "db_wf db"
  obtains (absent) "gatt_db_get_attribute (Some db) h = Some None"
    | (found) q a where "gatt_db_get_attribute (Some db) h = Some (Some q)" "db_attr db q = Some a" "a_handle a = h"
proof -
  obtain r where r: "gatt_db_get_service (Some db) h = Some r" using get_service_total [OF assms] by blast
  show ?thesis
  proof (cases r)
    case None
    with r show ?thesis by (intro absent) (simp add: gatt_db_get_attribute_def)
  next
    case (Some p)
    with r get_service_attr [OF assms] obtain a sv where p: "db_attr db p = Some a" "a_service a = fst p"
      "svcs db (fst p) = Some sv" by blast
    show ?thesis
    proof (cases "find (\<lambda>(i, b). a_handle b = h) (svc_loop sv)")
      case None
      with r Some p show ?thesis by (intro absent) (simp add: gatt_db_get_attribute_def)
    next
      case (Some ib)
      obtain i b where ib: "ib = (i, b)" by fastforce
      have "(i, b) \<in> set (svc_loop sv)" "a_handle b = h" using find_SomeD [OF Some] by (simp_all add: ib)
      then have "db_attr db (fst p, i) = Some b" "a_handle b = h" using p(3) svc_loop_attr by (auto simp: db_attr_def)
      then show ?thesis using r \<open>r = Some p\<close> p Some
        by (intro found [of "(fst p, i)" b]) (auto simp: gatt_db_get_attribute_def ib)
    qed
  qed
qed

section \<open>Searches give valid pointers\<close>

lemma svc_search_valid:
  assumes "db_wf db" "s \<in> set (services db)" "\<And>i. (s, i) \<in> set (f (s, the (svcs db s))) \<Longrightarrow> \<exists>a. (i, a) \<in> set (svc_loop (the (svcs db s)))"
    "\<And>q. q \<in> set (f (s, the (svcs db s))) \<Longrightarrow> fst q = s"
  shows "valid db (f (s, the (svcs db s)))"
proof -
  obtain sv where sv: "svcs db s = Some sv" using db_wf_dom [OF assms(1)] assms(2) by auto
  show ?thesis unfolding valid_def
  proof
    fix q assume q: "q \<in> set (f (s, the (svcs db s)))"
    then have "q = (s, snd q)" using assms(4) [OF q] by (cases q) auto
    then obtain a where "svc_attr sv (snd q) = Some a" using assms(3) [of "snd q"] q sv svc_loop_attr by fastforce
    moreover have "fst q = s" using assms(4) [OF q] .
    ultimately show "db_attr db q \<noteq> None" using sv by (simp add: db_attr_def)
  qed
qed

lemma valid_concat: "(\<And>x. x \<in> set xs \<Longrightarrow> valid db (f x)) \<Longrightarrow> valid db (concat (map f xs))"
  by (auto simp: valid_def)

lemma searches_valid:
  assumes "db_wf db"
  shows "\<exists>qs. gatt_db_find_information db st en = Some qs \<and> valid db qs"
    "\<exists>qs. gatt_db_read_by_type db st en ty = Some qs \<and> valid db qs"
    "\<exists>n qs. gatt_db_find_by_type_value junk db st en ty v = Some (n, qs) \<and> valid db qs"
proof -
  note load = load_services_db [OF assms]
  have "valid db (concat (map (find_information st en) (map (\<lambda>s. (s, the (svcs db s))) (services db))))"
    by (intro valid_concat, clarsimp, intro svc_search_valid [OF assms])
      (auto simp: find_information_def dest!: set_takeWhileD split: if_splits)
  then show "\<exists>qs. gatt_db_find_information db st en = Some qs \<and> valid db qs"
    by (simp add: gatt_db_find_information_def load)
  have "valid db (concat (map (read_by_type st en ty) (map (\<lambda>s. (s, the (svcs db s))) (services db))))"
    by (intro valid_concat, clarsimp, intro svc_search_valid [OF assms])
      (auto simp: read_by_type_def dest!: set_takeWhileD split: if_splits)
  then show "\<exists>qs. gatt_db_read_by_type db st en ty = Some qs \<and> valid db qs"
    by (simp add: gatt_db_read_by_type_def load)
  have "valid db (concat (map (find_by_type st en ty v) (map (\<lambda>s. (s, the (svcs db s))) (services db))))"
    by (intro valid_concat, clarsimp, intro svc_search_valid [OF assms])
      (auto simp: find_by_type_def split: if_splits)
  then show "\<exists>n qs. gatt_db_find_by_type_value junk db st en ty v = Some (n, qs) \<and> valid db qs"
    by (simp add: gatt_db_find_by_type_value_def load Let_def)
qed

lemma group_loop_mem: "q \<in> set (group_loop st en ty n ss) \<Longrightarrow> snd q = 0 \<and> fst q \<in> fst ` set ss"
proof (induction ss arbitrary: n)
  case (Cons x ss)
  obtain s sv where x: "x = (s, sv)" by fastforce
  from Cons.prems consider "q \<in> set (group_loop st en ty n ss)" | "q = (s, 0)"
    | m where "q \<in> set (group_loop st en ty m ss)"
    by (auto simp: x Let_def split: option.splits if_splits)
  then show ?case using Cons.IH by cases (auto simp: x)
qed simp

lemma group_search_valid:
  assumes "db_wf db"
  shows "\<exists>qs. gatt_db_read_by_group_type db st en ty = Some qs \<and> valid db qs"
proof -
  let ?qs = "group_loop st en ty 0 (map (\<lambda>s. (s, the (svcs db s))) (services db))"
  have "db_attr db q \<noteq> None" if mem: "q \<in> set ?qs" for q
  proof -
    obtain s where q: "q = (s, 0)" "s \<in> set (services db)" using group_loop_mem [OF mem] by (cases q) auto
    then obtain sv where sv: "svcs db s = Some sv" using db_wf_dom [OF assms] by auto
    from svc_ok_attr0 [OF db_wf_svc [OF assms sv]] show ?thesis by (auto simp: db_attr_def q sv)
  qed
  then show ?thesis by (simp add: gatt_db_read_by_group_type_def load_services_db [OF assms] valid_def)
qed

section \<open>The encoders stay within the PDU\<close>

lemma mtu_minus: "23 \<le> unat mtu \<Longrightarrow> n \<le> 23 \<Longrightarrow> unat ((ucast (mtu :: u16) :: u32) - of_nat n) = unat mtu - n"
proof -
  assume a: "23 \<le> unat mtu" "n \<le> 23"
  have m: "unat (ucast mtu :: u32) = unat mtu" using take_bit_nat_eq_self [of "unat mtu" 32] less_trans [OF unat_u16_less, of "2 ^ 32" mtu]
    by (simp add: unsigned_ucast_eq)
  have n: "unat (of_nat n :: u32) = n" using a(2) by (intro unat_of_nat_less) simp
  then show ?thesis using a m unat_sub [of "of_nat n :: u32" "ucast mtu"] by (simp add: word_le_nat_alt)
qed

lemmas mtu_minus_simps = mtu_minus [of _ 1, simplified] mtu_minus [of _ 4, simplified] mtu_minus [of _ 6, simplified]

lemma get_handle_valid:
  "db_attr db q = Some a \<Longrightarrow> gatt_db_attribute_get_handle db (Some q) = Some (a_handle a)"
  "db_attr db q = Some a \<Longrightarrow> gatt_db_attribute_get_type db (Some q) = Some (Some (a_uuid a))"
  by (simp_all add: gatt_db_attribute_get_handle_def gatt_db_attribute_get_type_def)

lemma get_service_valid:
  assumes "db_wf db" "db_attr db q = Some a"
  shows "\<exists>st en. gatt_db_attribute_get_service_handles db (Some q) = Some (Some (st, en))"
    "\<exists>st en pr u. gatt_db_attribute_get_service_data db (Some q) = Some (Some (st, en, pr, u))"
proof -
  obtain sv where sv: "a_service a = fst q" "svcs db (fst q) = Some sv" "svc_ok (fst q) sv"
    using db_attr_service [OF assms] by metis
  then show "\<exists>st en. gatt_db_attribute_get_service_handles db (Some q) = Some (Some (st, en))"
    using assms(2) by (cases "gatt_db_service_get_handles sv") (simp add: gatt_db_attribute_get_service_handles_def)
  obtain d where d: "attr0 sv = Some d" "svc_attr sv 0 = Some d" using svc_ok_attr0 [OF sv(3)] by blast
  then have "attr_ok (fst q, 0) d" using sv(3) by (auto simp: svc_ok_def)
  then obtain v where "(case a_value d of Some v \<Rightarrow> Some v | None \<Rightarrow> if a_value_len d = 0 then Some [] else None) = Some v"
    by (cases "a_value d") (auto simp: attr_ok_def)
  then show "\<exists>st en pr u. gatt_db_attribute_get_service_data db (Some q) = Some (Some (st, en, pr, u))"
    using assms(2) sv d
    by (cases "gatt_db_service_get_handles sv") (simp add: gatt_db_attribute_get_service_data_def Let_def)
qed

lemma buf_writeI: "off + length bs \<le> length buf \<Longrightarrow> \<exists>buf'. buf_write buf off bs = Some buf' \<and> length buf' = length buf"
  by (simp add: buf_write_def)

definition fits :: "u16 \<Rightarrow> (bytes \<times> nat) option \<Rightarrow> bool" where
  "fits mtu r = (case r of None \<Rightarrow> True | Some (p, n) \<Rightarrow> n < unat mtu \<and> n \<le> length p)"

lemma grp_type_rsp_ok:
  assumes "db_wf db" "valid db q" "length pdu = unat mtu" "23 \<le> unat mtu" "iter < unat mtu"
  shows "\<exists>r db' es. grp_type_rsp_loop env mtu db q pdu iter dvl = Some (r, db', es) \<and> keeps db db' \<and> fits mtu r"
  using assms
proof (induction q arbitrary: db pdu iter dvl)
  case Nil
  then show ?case by (auto simp: fits_def)
next
  case (Cons attrib q)
  obtain a where a: "db_attr db attrib = Some a" using Cons.prems(2) by auto
  obtain db1 es where rd: "gatt_db_attribute_read (e_timeout env) db (Some attrib) 0 BT_ATT_OP_READ_BY_GRP_TYPE_REQ att_ptr
      (Some Attribute_read_cb) (Some Stack_ptr) = Some (True, db1, es)" and k: "keeps db db1"
    by (rule db_read_cases [OF Cons.prems(1) a]) (use Cons.prems(1) in auto)
  obtain val es' where cb: "attribute_read_cb es = (val, es')" by fastforce
  define d where "d = (if iter = 0 then min (min (unat ((ucast mtu :: u32) - 6)) 251) (length val) else dvl)"
  define it where "it = (if iter = 0 then 1 else iter)"
  obtain p1 where p1: "(if iter = 0 then buf_write pdu 0 [of_nat (d + 4)] else Some pdu) = Some p1" "length p1 = unat mtu"
    using buf_writeI [of 0 "[of_nat (d + 4)]" pdu] Cons.prems(3,4) by (cases "iter = 0") auto
  have it: "it < unat mtu" using Cons.prems(4,5) by (simp add: it_def)
  note step = rd cb p1(1) d_def [symmetric] it_def [symmetric]
  show ?case
  proof (cases "val = [] \<or> iter \<noteq> 0 \<and> length val \<noteq> dvl \<or> it + d + 4 > unat mtu - 1")
    case True
    then show ?thesis using k Cons.prems p1 it by (auto simp: step Let_def fits_def)
  next
    case False
    have wf1: "db_wf db1" using k by (simp add: keeps_def)
    obtain a1 where a1: "db_attr db1 attrib = Some a1" using keepsD [OF k a] by blast
    obtain st en where h: "gatt_db_attribute_get_service_handles db1 (Some attrib) = Some (Some (st, en))"
      using get_service_valid(1) [OF wf1 a1] by blast
    have lt: "it + d + 4 < unat mtu" using False Cons.prems(4) by auto
    then have "it + length (put_le16 st @ put_le16 en @ take d val) \<le> length p1" using p1(2) by auto
    from buf_writeI [OF this] obtain p2 where
      p2: "buf_write p1 it (put_le16 st @ put_le16 en @ take d val) = Some p2" "length p2 = unat mtu" using p1(2) by auto
    note lt
    moreover have "valid db1 q" using valid_keeps [OF _ k] Cons.prems(2) by simp
    ultimately obtain r db2 es2 where
      "grp_type_rsp_loop env mtu db1 q p2 (it + d + 4) d = Some (r, db2, es2)" "keeps db1 db2" "fits mtu r"
      using Cons.IH [OF wf1 _ p2(2) Cons.prems(4)] by blast
    then show ?thesis using False k keeps_trans h p2(1) by (auto simp: step Let_def)
  qed
qed

lemma find_info_uuid_fits:
  assumes "length p = unat mtu" "off + m < unat mtu" "m = (if bt_uuid_len u = 2 then 2 else 16)"
  shows "\<exists>p'. (case bt_uuid_to_le u of None \<Rightarrow> Some p | Some le \<Rightarrow> buf_write p off le) = Some p' \<and> length p' = unat mtu"
proof (cases "bt_uuid_to_le u")
  case (Some le)
  have "off + length le \<le> length p" using uuid_le_length [OF Some] assms by simp
  from buf_writeI [OF this] Some assms(1) show ?thesis by auto
qed (use assms in simp)

text \<open>One attribute of the response: the loop ends with a response that fits, or goes on behind the attribute.\<close>

lemma find_info_rsp_cases:
  assumes a: "db_attr db attr = Some a" and pdu: "length pdu = unat mtu" and mtu: "23 \<le> unat mtu" and iter: "iter < unat mtu"
    and n: "iter \<noteq> 0 \<longrightarrow> n = 2 \<or> n = 16"
  obtains (ended) r where "find_info_rsp_loop db mtu (attr # q) pdu iter n = Some r" "fits mtu r"
    | (more) p i m where "find_info_rsp_loop db mtu (attr # q) pdu iter n = find_info_rsp_loop db mtu q p i m"
      "length p = unat mtu" "i < unat mtu" "m = 2 \<or> m = 16"
proof -
  let ?cur = "bt_uuid_len (a_uuid a)"
  define m where "m = (if iter = 0 then if ?cur = 2 then 2 else 16 else n)"
  define it where "it = (if iter = 0 then 1 else iter)"
  obtain p1 where p1: "(if iter = 0 then buf_write pdu 0 [if ?cur = 2 then 1 else 2] else Some pdu) = Some p1"
    "length p1 = unat mtu"
    using buf_writeI [of 0 "[if ?cur = 2 then 1 else 2]" pdu] pdu mtu by (cases "iter = 0") auto
  have it: "it < unat mtu" using mtu iter by (simp add: it_def)
  have f: "fits mtu None" "fits mtu (Some (pdu, iter))" "fits mtu (Some (p1, it))"
    using pdu iter p1(2) it by (simp_all add: fits_def)
  note unf = find_info_rsp_loop.simps get_handle_valid [OF a] bind.bind_lunit option.case Let_def
    m_def [symmetric] it_def [symmetric] p1(1)
  consider (stop) "a_handle a = 0 \<or> iter = 0 \<and> ?cur \<noteq> 2 \<and> ?cur \<noteq> 4 \<and> ?cur \<noteq> 16 \<or> iter \<noteq> 0 \<and> ?cur \<noteq> n \<or>
      it + m + 2 > unat mtu - 1"
    | (go) "a_handle a \<noteq> 0" "\<not> (iter = 0 \<and> ?cur \<noteq> 2 \<and> ?cur \<noteq> 4 \<and> ?cur \<noteq> 16)" "\<not> (iter \<noteq> 0 \<and> ?cur \<noteq> n)"
      "it + m + 2 < unat mtu" using mtu by linarith
  then show ?thesis
  proof cases
    case stop
    then have "\<exists>r. find_info_rsp_loop db mtu (attr # q) pdu iter n = Some r \<and> fits mtu r"
      using f unfolding unf by auto
    then show ?thesis using ended by blast
  next
    case go
    have "it + length (put_le16 (a_handle a)) \<le> length p1" using go(4) p1(2) by simp
    from buf_writeI [OF this] obtain p2 where p2: "buf_write p1 it (put_le16 (a_handle a)) = Some p2" "length p2 = unat mtu"
      using p1(2) by auto
    have m: "m = 2 \<or> m = 16" "m = (if ?cur = 2 then 2 else 16)" using n go(3) by (auto simp: m_def)
    have "it + 2 + m < unat mtu" using go(4) by simp
    from find_info_uuid_fits [OF p2(2) this m(2)] obtain p3 where
      p3: "(case bt_uuid_to_le (a_uuid a) of None \<Rightarrow> Some p2 | Some le \<Rightarrow> buf_write p2 (it + 2) le) = Some p3"
        "length p3 = unat mtu" by blast
    have "find_info_rsp_loop db mtu (attr # q) pdu iter n = find_info_rsp_loop db mtu q p3 (it + (m + 2)) m"
      using go p2(1) p3(1) unfolding unf by auto
    then show ?thesis using more p3(2) go(4) m(1) by simp
  qed
qed

lemma find_info_rsp_ok:
  assumes "valid db q" "length pdu = unat mtu" "23 \<le> unat mtu" "iter < unat mtu" "iter \<noteq> 0 \<Longrightarrow> n = 2 \<or> n = 16"
  shows "\<exists>r. find_info_rsp_loop db mtu q pdu iter n = Some r \<and> fits mtu r"
  using assms
proof (induction q arbitrary: pdu iter n)
  case Nil
  then show ?case by (auto simp: fits_def)
next
  case (Cons attr q)
  obtain a where a: "db_attr db attr = Some a" using Cons.prems(1) by auto
  have "iter \<noteq> 0 \<longrightarrow> n = 2 \<or> n = 16" using Cons.prems(5) by blast
  then show ?case
  proof (cases rule: find_info_rsp_cases [OF a Cons.prems(2-4), of n q, consumes 1])
    case (2 p i m)
    have "valid db q" using Cons.prems(1) by simp
    from Cons.IH [OF this 2(2) Cons.prems(3) 2(3,4)] 2(1) show ?thesis by simp
  qed blast
qed

definition fd_ok :: "u16 \<Rightarrow> find_by_type_val_data \<Rightarrow> bool" where
  "fd_ok mtu d \<longleftrightarrow> length (fd_pdu d) = unat mtu \<and> fd_mtu d = mtu \<and> unat (fd_len d) < unat mtu"

lemma find_by_type_val_att_ok:
  assumes "db_wf db" "db_attr db q = Some a" "fd_ok mtu d" "23 \<le> unat mtu"
  shows "\<exists>d'. find_by_type_val_att_cb db d q = Some d' \<and> fd_ok mtu d'"
proof (cases "fd_ecode d \<noteq> 0 \<or> unat (fd_len d) + 4 > unat (fd_mtu d) - 1")
  case True
  then show ?thesis using assms(3) by (auto simp: find_by_type_val_att_cb_def)
next
  case False
  obtain st en pr u where sd: "gatt_db_attribute_get_service_data db (Some q) = Some (Some (st, en, pr, u))"
    using get_service_valid(2) [OF assms(1,2)] by blast
  have lt: "unat (fd_len d) + 4 < unat mtu" using False assms(3,4) by (auto simp: fd_ok_def)
  then have "unat (fd_len d) + length (put_le16 st @ put_le16 en) \<le> length (fd_pdu d)"
    using assms(3) by (simp add: fd_ok_def)
  from buf_writeI [OF this] obtain p where p: "buf_write (fd_pdu d) (unat (fd_len d)) (put_le16 st @ put_le16 en) = Some p"
    "length p = unat mtu" using assms(3) by (auto simp: fd_ok_def)
  have "unat (fd_len d) + 4 < 65536" using lt unat_u16_less [of mtu] by linarith
  then have "unat (fd_len d + 4) = unat (fd_len d) + 4" by (simp add: unat_word_ariths)
  then show ?thesis using False sd p lt assms(3) by (auto simp: find_by_type_val_att_cb_def fd_ok_def)
qed

lemma find_by_type_val_ok:
  assumes "db_wf db" "valid db qs" "fd_ok mtu d" "23 \<le> unat mtu"
  shows "\<exists>d'. find_by_type_val_loop db qs d = Some d' \<and> fd_ok mtu d'"
  using assms(2,3)
proof (induction qs arbitrary: d)
  case (Cons q qs)
  then obtain a where "db_attr db q = Some a" by auto
  from find_by_type_val_att_ok [OF assms(1) this Cons.prems(2) assms(4)] Cons show ?case by fastforce
qed simp

lemma encode_read_by_type_ok:
  assumes "rop_ok mtu oper" "23 \<le> unat mtu"
  shows "\<exists>oper'. encode_read_by_type mtu handle oper val = Some oper' \<and> rop_ok mtu oper'"
proof (cases "ro_pdu_len oper \<noteq> 0 \<and> length val \<noteq> ro_value_len oper")
  case True
  then show ?thesis using assms(1) by (simp add: encode_read_by_type_def rop_ok_def)
next
  case False
  define n where "n = (if ro_pdu_len oper = 0 then min (min (unat ((ucast mtu :: u32) - 4)) 253) (length val)
    else ro_value_len oper)"
  define l where "l = (if ro_pdu_len oper = 0 then 1 else ro_pdu_len oper)"
  obtain p1 where p1: "(if ro_pdu_len oper = 0 then buf_write (ro_pdu oper) 0 [of_nat (n + 2)] else Some (ro_pdu oper)) = Some p1"
    "length p1 = length (ro_pdu oper)"
    using buf_writeI [of 0 "[of_nat (n + 2)]" "ro_pdu oper"] assms by (cases "ro_pdu_len oper = 0") (auto simp: rop_ok_def)
  have l: "l < unat mtu" using assms by (simp add: l_def rop_ok_def)
  note unf = encode_read_by_type_def if_not_P [OF False] n_def [symmetric] l_def [symmetric] p1(1) Let_def bind.bind_lunit
    mtu_minus_simps(1) [OF assms(2)]
  show ?thesis
  proof (cases "l + n + 2 > unat mtu - 1")
    case True
    then show ?thesis using assms(1) l p1(2) unfolding unf by (auto simp: rop_ok_def)
  next
    case le: False
    have "l + length (put_le16 handle @ take n val) \<le> length p1" using le assms p1(2) by (auto simp: rop_ok_def)
    from buf_writeI [OF this] obtain p2 where p2: "buf_write p1 l (put_le16 handle @ take n val) = Some p2"
      "length p2 = length p1" by blast
    then show ?thesis using assms le p1(2) p2(2) unfolding unf p2(1) by (auto simp: rop_ok_def)
  qed
qed

lemma encode_read_by_type_data:
  "encode_read_by_type mtu handle oper val = Some oper' \<Longrightarrow> ro_db_data oper' = ro_db_data oper"
  by (auto simp: encode_read_by_type_def Let_def bind_eq_Some_conv split: if_splits)

section \<open>Request handlers\<close>

lemma check_permissions_total:
  assumes "db_attr (srv_db srv) q = Some a"
  shows "\<exists>ecode. check_permissions env srv q perm_mask = Some ecode"
  using assms by (simp add: check_permissions_def gatt_db_attribute_get_permissions_def Let_def)

lemma srv_ok_mtu: "srv_ok srv \<Longrightarrow> 23 \<le> unat (att_mtu (srv_att srv))"
  by (simp add: srv_ok_def att_wf_def BT_ATT_DEFAULT_LE_MTU_def word_le_nat_alt)

lemma get_mtu [simp]: "bt_att_get_mtu (Some att) = att_mtu att"
  by (simp add: bt_att_get_mtu_def)

lemma length_rsp_buf [simp]: "length (rsp_buf env mtu) = unat mtu"
  by (simp add: rsp_buf_def)

text \<open>The opcodes of the requests and of their responses.\<close>

lemma req_opcodes [simp]:
  "BT_ATT_OP_MTU_REQ \<noteq> 0" "BT_ATT_OP_FIND_INFO_REQ \<noteq> 0" "BT_ATT_OP_FIND_BY_TYPE_REQ \<noteq> 0"
  "BT_ATT_OP_READ_BY_TYPE_REQ \<noteq> 0" "BT_ATT_OP_READ_REQ \<noteq> 0" "BT_ATT_OP_READ_BLOB_REQ \<noteq> 0"
  "BT_ATT_OP_READ_MULT_REQ \<noteq> 0" "BT_ATT_OP_READ_BY_GRP_TYPE_REQ \<noteq> 0" "BT_ATT_OP_WRITE_REQ \<noteq> 0"
  "BT_ATT_OP_PREP_WRITE_REQ \<noteq> 0" "BT_ATT_OP_EXEC_WRITE_REQ \<noteq> 0"
  by (simp_all add: BT_ATT_OP_MTU_REQ_def BT_ATT_OP_FIND_INFO_REQ_def BT_ATT_OP_FIND_BY_TYPE_REQ_def
    BT_ATT_OP_READ_BY_TYPE_REQ_def BT_ATT_OP_READ_REQ_def BT_ATT_OP_READ_BLOB_REQ_def BT_ATT_OP_READ_MULT_REQ_def
    BT_ATT_OP_READ_BY_GRP_TYPE_REQ_def BT_ATT_OP_WRITE_REQ_def BT_ATT_OP_PREP_WRITE_REQ_def BT_ATT_OP_EXEC_WRITE_REQ_def)

definition response_opcode :: "u8 \<Rightarrow> u8 \<Rightarrow> bool" where
  "response_opcode opcode rop \<longleftrightarrow> rop = opcode + 1 \<and> get_op_type rop = ATT_OP_TYPE_RSP \<and> rop AND ATT_OP_SIGNED_MASK = 0"

lemma response_opcodes [simp]:
  "response_opcode BT_ATT_OP_MTU_REQ BT_ATT_OP_MTU_RSP"
  "response_opcode BT_ATT_OP_FIND_INFO_REQ BT_ATT_OP_FIND_INFO_RSP"
  "response_opcode BT_ATT_OP_FIND_BY_TYPE_REQ BT_ATT_OP_FIND_BY_TYPE_RSP"
  "response_opcode BT_ATT_OP_READ_BY_TYPE_REQ BT_ATT_OP_READ_BY_TYPE_RSP"
  "response_opcode BT_ATT_OP_READ_REQ BT_ATT_OP_READ_RSP"
  "response_opcode BT_ATT_OP_READ_BLOB_REQ BT_ATT_OP_READ_BLOB_RSP"
  "response_opcode BT_ATT_OP_READ_MULT_REQ BT_ATT_OP_READ_MULT_RSP"
  "response_opcode BT_ATT_OP_READ_BY_GRP_TYPE_REQ BT_ATT_OP_READ_BY_GRP_TYPE_RSP"
  "response_opcode BT_ATT_OP_WRITE_REQ BT_ATT_OP_WRITE_RSP"
  "response_opcode BT_ATT_OP_PREP_WRITE_REQ BT_ATT_OP_PREP_WRITE_RSP"
  "response_opcode BT_ATT_OP_EXEC_WRITE_REQ BT_ATT_OP_EXEC_WRITE_RSP"
  by (simp_all add: response_opcode_def opcode_eval ATT_OP_SIGNED_MASK_def BT_ATT_OP_MTU_REQ_def BT_ATT_OP_MTU_RSP_def
    BT_ATT_OP_FIND_INFO_REQ_def BT_ATT_OP_FIND_INFO_RSP_def BT_ATT_OP_FIND_BY_TYPE_REQ_def BT_ATT_OP_FIND_BY_TYPE_RSP_def
    BT_ATT_OP_READ_BY_TYPE_REQ_def BT_ATT_OP_READ_BY_TYPE_RSP_def BT_ATT_OP_READ_REQ_def BT_ATT_OP_READ_RSP_def
    BT_ATT_OP_READ_BLOB_REQ_def BT_ATT_OP_READ_BLOB_RSP_def BT_ATT_OP_READ_MULT_REQ_def BT_ATT_OP_READ_MULT_RSP_def
    BT_ATT_OP_READ_BY_GRP_TYPE_REQ_def BT_ATT_OP_READ_BY_GRP_TYPE_RSP_def BT_ATT_OP_WRITE_REQ_def BT_ATT_OP_WRITE_RSP_def
    BT_ATT_OP_PREP_WRITE_REQ_def BT_ATT_OP_PREP_WRITE_RSP_def BT_ATT_OP_EXEC_WRITE_REQ_def BT_ATT_OP_EXEC_WRITE_RSP_def)

lemma srv_send_response:
  assumes "srv_ok srv" "e_mem env" "srv_att srv = att" "response_opcode opcode rop"
    "n < unat (att_mtu att)" "n = 0 \<or> (\<exists>p. pdu = Some p \<and> n \<le> length p)"
  shows "responded opcode att (srv_send env srv rop pdu n)"
  using assms(4) unfolding response_opcode_def by (intro srv_send_responds [OF assms(1-3) _ _ _ assms(5,6)]) blast+

lemma find_info_responds:
  assumes ok: "srv_ok srv" and mem: "e_mem env" and att: "srv_att srv = att"
  shows "responded BT_ATT_OP_FIND_INFO_REQ att (find_info_cb env srv BT_ATT_OP_FIND_INFO_REQ pdu)"
proof -
  note err = srv_ecode_responds [OF ok mem att req_opcodes(2)]
  have wf: "db_wf (srv_db srv)" using ok by (simp add: srv_ok_def)
  have mtu: "23 \<le> unat (att_mtu att)" using srv_ok_mtu [OF ok] att by simp
  obtain q where q: "gatt_db_find_information (srv_db srv) (get_le16 pdu) (get_le16 (drop 2 pdu)) = Some q"
    "valid (srv_db srv) q" using searches_valid(1) [OF wf] by blast
  obtain r where r: "encode_find_info_rsp (srv_db srv) q (att_mtu att) (rsp_buf env (att_mtu att)) = Some r"
    "fits (att_mtu att) r"
    using find_info_rsp_ok [OF q(2), of "rsp_buf env (att_mtu att)" "att_mtu att" 0 0] mtu
    by (auto simp: encode_find_info_rsp_def)
  have "responded BT_ATT_OP_FIND_INFO_REQ att (srv_send env srv BT_ATT_OP_FIND_INFO_RSP (Some p) n)"
    if "r = Some (p, n)" for p n
    using r(2) that by (intro srv_send_response [OF ok mem att]) (auto simp: fits_def)
  then show ?thesis using err q(1) r(1) by (cases r) (auto simp: find_info_cb_def Let_def att)
qed

lemma get_uuid_le_some: "length pdu = 6 \<or> length pdu = 20 \<Longrightarrow> \<exists>u. get_uuid_le (drop 4 pdu) (length pdu - 4) = Some u"
  by (auto simp: get_uuid_le_def)

lemma read_by_grp_type_responds:
  assumes ok: "srv_ok srv" and mem: "e_mem env" and att: "srv_att srv = att"
  shows "responded BT_ATT_OP_READ_BY_GRP_TYPE_REQ att (read_by_grp_type_cb env srv BT_ATT_OP_READ_BY_GRP_TYPE_REQ pdu)"
proof (cases "length pdu = 6 \<or> length pdu = 20")
  case False
  then show ?thesis using srv_ecode_responds [OF ok mem att req_opcodes(8)]
    by (auto simp: read_by_grp_type_cb_def Let_def)
next
  case True
  let ?op = "BT_ATT_OP_READ_BY_GRP_TYPE_REQ"
  note err = srv_ecode_responds [OF ok mem att req_opcodes(8)]
  have wf: "db_wf (srv_db srv)" using ok by (simp add: srv_ok_def)
  have mtu: "23 \<le> unat (att_mtu att)" using srv_ok_mtu [OF ok] att by simp
  obtain u where u: "get_uuid_le (drop 4 pdu) (length pdu - 4) = Some u" using get_uuid_le_some [OF True] by blast
  obtain q where q: "gatt_db_read_by_group_type (srv_db srv) (get_le16 pdu) (get_le16 (drop 2 pdu)) u = Some q"
    "valid (srv_db srv) q" using group_search_valid [OF wf] by blast
  obtain r db es where r: "encode_read_by_grp_type_rsp env (srv_db srv) q (att_mtu att) (rsp_buf env (att_mtu att)) =
      Some (r, db, es)" "keeps (srv_db srv) db" "fits (att_mtu att) r"
    using grp_type_rsp_ok [OF wf q(2), of "rsp_buf env (att_mtu att)" "att_mtu att" 0 env 0] mtu
    by (auto simp: encode_read_by_grp_type_rsp_def)
  have ok2: "srv_ok (srv\<lparr>srv_db := db\<rparr>)" "srv_att (srv\<lparr>srv_db := db\<rparr>) = att"
    using r(2) srv_ok_db [OF ok] att by (auto simp: keeps_def)
  have "responded ?op att (case r of None \<Rightarrow> srv_ecode env (srv\<lparr>srv_db := db\<rparr>) ?op (get_le16 pdu) BT_ATT_ERROR_UNLIKELY
      | Some (rsp_pdu, rsp_len) \<Rightarrow>
          srv_send env (srv\<lparr>srv_db := db\<rparr>) BT_ATT_OP_READ_BY_GRP_TYPE_RSP (Some rsp_pdu) rsp_len)"
    using r(3) srv_ecode_responds [OF ok2(1) mem ok2(2) req_opcodes(8)]
    by (cases r) (auto simp: fits_def intro!: srv_send_response [OF ok2(1) mem ok2(2)])
  from responded_events [OF this, of es] show ?thesis
    using True err u q(1) r(1) by (simp add: read_by_grp_type_cb_def Let_def att)
qed

lemma find_by_type_val_responds:
  assumes ok: "srv_ok srv" and mem: "e_mem env" and att: "srv_att srv = att"
  shows "responded BT_ATT_OP_FIND_BY_TYPE_REQ att (find_by_type_val_cb env srv BT_ATT_OP_FIND_BY_TYPE_REQ pdu)"
proof -
  note err = srv_ecode_responds [OF ok mem att req_opcodes(3)]
  have wf: "db_wf (srv_db srv)" using ok by (simp add: srv_ok_def)
  have mtu: "23 \<le> unat (att_mtu att)" using srv_ok_mtu [OF ok] att by simp
  obtain n qs where q: "gatt_db_find_by_type_value (ucast (e_junk env 0)) (srv_db srv) (get_le16 pdu) (get_le16 (drop 2 pdu))
      (BT_UUID16 (get_le16 (drop 4 pdu))) (Some (drop 6 pdu)) = Some (n, qs)" "valid (srv_db srv) qs"
    using searches_valid(3) [OF wf] by blast
  let ?d = "\<lparr>fd_pdu = rsp_buf env (att_mtu att), fd_len = 0, fd_mtu = att_mtu att, fd_ecode = 0\<rparr>"
  have "fd_ok (att_mtu att) ?d" using mtu by (auto simp: fd_ok_def)
  from find_by_type_val_ok [OF wf q(2) this mtu] obtain d where d: "find_by_type_val_loop (srv_db srv) qs ?d = Some d"
    "fd_ok (att_mtu att) d" by blast
  have "responded BT_ATT_OP_FIND_BY_TYPE_REQ att
      (srv_send env srv BT_ATT_OP_FIND_BY_TYPE_RSP (Some (fd_pdu d)) (unat (fd_len d)))"
    using d(2) by (intro srv_send_response [OF ok mem att]) (auto simp: fd_ok_def)
  then show ?thesis using err q(1) d(1) by (simp add: find_by_type_val_cb_def Let_def att)
qed

lemma deferredI:
  "srv_ok srv \<Longrightarrow> srv_att srv = att \<Longrightarrow> handed_over e \<Longrightarrow> opcode = BT_ATT_OP_READ_MULT_REQ \<or> awaits srv f opcode \<and> completable srv f \<Longrightarrow>
     deferred opcode att (Some (srv, [e]))"
  by (auto simp: deferred_def)

lemma handed_over_simps [simp]:
  "handed_over (Read_func rf q i off opc t ud)" "handed_over (Write_func wfn q i off v opc t ud)"
  by (simp_all add: handed_over_def)

text \<open>An answer that ends the pending operation.\<close>

lemma destroy_responds:
  "responded opcode att r \<Longrightarrow> responded opcode att (do { (srv, _) \<leftarrow> r; Some (async_read_op_destroy srv, []) })"
  "responded opcode att r \<Longrightarrow> responded opcode att (do { (srv, _) \<leftarrow> r; Some (async_write_op_destroy srv, []) })"
  by (auto simp: responded_def)

lemma read_complete_responds:
  assumes ok: "srv_ok srv" and mem: "e_mem env" and att: "srv_att srv = att" and p: "pending_read_op srv = Some oper"
    and opc: "ro_opcode oper = BT_ATT_OP_READ_REQ \<or> ro_opcode oper = BT_ATT_OP_READ_BLOB_REQ"
    and q: "db_attr (srv_db srv) q = Some a"
  shows "responded (ro_opcode oper) att (read_complete_cb env srv q err val)"
proof -
  let ?op = "ro_opcode oper" and ?v = "case val of None \<Rightarrow> [] | Some v \<Rightarrow> v"
  have mtu: "23 \<le> unat (att_mtu att)" using srv_ok_mtu [OF ok] att by simp
  have rop: "response_opcode ?op (get_read_rsp_opcode ?op)"
    using opc response_opcodes(5,6) by (auto simp: get_read_rsp_opcode_def BT_ATT_OP_READ_REQ_def BT_ATT_OP_READ_BLOB_REQ_def)
  have "responded ?op att (if err \<noteq> 0 then srv_error env srv ?op (a_handle a) err
      else srv_send env srv (get_read_rsp_opcode ?op) (if ?v = [] then None else Some ?v)
        (min (unat (att_mtu att) - 1) (length ?v)))"
    using srv_error_responds [OF ok mem att, of ?op] opc srv_send_response [OF ok mem att rop] mtu
    by auto
  from destroy_responds(1) [OF this] show ?thesis
    using p by (simp add: read_complete_cb_def get_handle_valid(1) [OF q] Let_def att mtu_minus_simps(1) [OF mtu]
      cong: if_cong split del: if_split)
qed

lemma handle_read_answers:
  assumes ok: "srv_ok srv" and mem: "e_mem env" and att: "srv_att srv = att"
    and opc: "opcode = BT_ATT_OP_READ_REQ \<or> opcode = BT_ATT_OP_READ_BLOB_REQ"
  shows "answers opcode att (handle_read_req env srv opcode handle offset)"
proof -
  have wf: "db_wf (srv_db srv)" using ok by (simp add: srv_ok_def)
  have nz: "opcode \<noteq> 0" using opc by auto
  note err = srv_ecode_responds [OF ok mem att nz]
  show ?thesis
  proof (cases rule: get_attribute_cases [OF wf, of handle])
    case 1
    then show ?thesis using err by (auto simp: handle_read_req_def intro!: answersI(1))
  next
    case (2 q a)
    obtain ecode where ec: "check_permissions env srv q read_mask = Some ecode"
      using check_permissions_total [OF 2(2)] by blast
    let ?oper = "\<lparr>ro_opcode = opcode, ro_done = False, ro_pdu = [], ro_pdu_len = 0, ro_value_len = 0, ro_db_data = []\<rparr>"
    show ?thesis
    proof (cases "ecode \<noteq> 0 \<or> pending_read_op srv \<noteq> None")
      case True
      then show ?thesis using err by (auto simp: handle_read_req_def 2(1) ec intro!: answersI(1))
    next
      case False
      note unf = handle_read_req_def 2(1) ec Let_def
      show ?thesis
      proof (cases rule: db_read_cases [OF wf 2(2), of "e_timeout env" offset opcode att_ptr Read_complete_cb "Some Op_ptr"])
        case (1 e v)
        have "responded opcode att (read_complete_cb env (srv\<lparr>pending_read_op := Some ?oper\<rparr>) q e v)"
          using read_complete_responds [of "srv\<lparr>pending_read_op := Some ?oper\<rparr>" env att ?oper q a e v] ok mem att opc 2(2)
          by simp
        then show ?thesis using False 1 by (simp add: unf answersI(1))
      next
        case (2 db' rf i)
        then have "srv_ok (srv\<lparr>srv_db := db'\<rparr>)" using srv_ok_db [OF ok] by (simp add: keeps_def)
        then show ?thesis using False 2(2) att opc
          by (simp add: unf answersI(2) deferredI [where f = Read_complete_cb] awaits_def completable_def)
      qed
    qed
  qed
qed

lemma read_answers:
  "srv_ok srv \<Longrightarrow> e_mem env \<Longrightarrow> srv_att srv = att \<Longrightarrow> answers BT_ATT_OP_READ_REQ att (read_cb env srv BT_ATT_OP_READ_REQ pdu)"
  "srv_ok srv \<Longrightarrow> e_mem env \<Longrightarrow> srv_att srv = att \<Longrightarrow>
     answers BT_ATT_OP_READ_BLOB_REQ att (read_blob_cb env srv BT_ATT_OP_READ_BLOB_REQ pdu)"
  by (simp_all add: read_cb_def read_blob_cb_def handle_read_answers answersI(1) srv_ecode_responds)

lemma read_by_type_loop_answers:
  assumes "srv_ok srv" "e_mem env" "srv_att srv = att" "valid (srv_db srv) q" "rop_ok (att_mtu att) oper"
  shows "answers BT_ATT_OP_READ_BY_TYPE_REQ att (read_by_type_loop env srv oper q)"
  using assms(1,3-)
proof (induction q arbitrary: srv oper)
  case Nil
  have "responded BT_ATT_OP_READ_BY_TYPE_REQ att
      (srv_send env srv BT_ATT_OP_READ_BY_TYPE_RSP (Some (ro_pdu oper)) (ro_pdu_len oper))"
    using Nil by (intro srv_send_response [OF _ assms(2)]) (auto simp: rop_ok_def)
  from destroy_responds(1) [OF this] show ?case by (simp add: answersI(1))
next
  case (Cons attr q)
  let ?op = "BT_ATT_OP_READ_BY_TYPE_REQ"
  note ok = Cons.prems(1) and att = Cons.prems(2)
  have wf: "db_wf (srv_db srv)" using ok by (simp add: srv_ok_def)
  obtain a where a: "db_attr (srv_db srv) attr = Some a" using Cons.prems(3) by auto
  obtain ecode where ec: "check_permissions env srv attr read_mask = Some ecode"
    using check_permissions_total [OF a] by blast
  note unf = read_by_type_loop.simps(2) ec get_handle_valid(1) [OF a] Let_def
  have full: "responded ?op att (srv_send env srv BT_ATT_OP_READ_BY_TYPE_RSP (Some (ro_pdu oper)) (ro_pdu_len oper))"
    using Cons.prems by (intro srv_send_response [OF ok assms(2)]) (auto simp: rop_ok_def)
  note err = destroy_responds(1) [OF srv_ecode_responds [OF ok assms(2) att req_opcodes(4)]]
    and err2 = destroy_responds(1) [OF srv_error_responds [OF ok assms(2) att req_opcodes(4)]]
  show ?case
  proof (cases "ro_done oper \<or> ecode \<noteq> 0")
    case True
    then show ?thesis using destroy_responds(1) [OF full] err by (auto simp: unf intro!: answersI(1))
  next
    case False
    show ?thesis
    proof (cases rule: db_read_cases [OF wf a, of "e_timeout env" 0 "ro_opcode oper" att_ptr Read_by_type_read_complete_cb "Some Op_ptr"])
      case (1 e v)
      have mtu: "23 \<le> unat (att_mtu att)" using srv_ok_mtu [OF ok] att by simp
      obtain oper' where enc: "encode_read_by_type (att_mtu att) (a_handle a) oper (case v of None \<Rightarrow> [] | Some v \<Rightarrow> v) = Some oper'"
        "rop_ok (att_mtu att) oper'" using encode_read_by_type_ok [OF Cons.prems(4) mtu] by blast
      have "answers ?op att (read_by_type_loop env srv oper' q)"
        using Cons.IH [OF ok att _ enc(2)] Cons.prems(3) by simp
      then show ?thesis using False 1 err2 enc(1) by (simp add: unf att answersI(1))
    next
      case (2 db' rf i)
      then have "srv_ok (srv\<lparr>srv_db := db'\<rparr>)" using srv_ok_db [OF ok] by (simp add: keeps_def)
      moreover have "valid db' q" using valid_keeps [OF _ 2(1)] Cons.prems(3) by simp
      ultimately show ?thesis using False 2(2) att Cons.prems(4)
        by (simp add: unf answersI(2) deferredI [where f = Read_by_type_read_complete_cb] awaits_def completable_def rop_ok_def)
    qed
  qed
qed

lemma read_by_type_answers:
  assumes ok: "srv_ok srv" and mem: "e_mem env" and att: "srv_att srv = att"
  shows "answers BT_ATT_OP_READ_BY_TYPE_REQ att (read_by_type_cb env srv BT_ATT_OP_READ_BY_TYPE_REQ pdu)"
proof (cases "length pdu = 6 \<or> length pdu = 20")
  case False
  then show ?thesis using srv_ecode_responds [OF ok mem att req_opcodes(4)]
    by (auto simp: read_by_type_cb_def Let_def intro: answersI(1))
next
  case True
  let ?op = "BT_ATT_OP_READ_BY_TYPE_REQ"
  note err = answersI(1) [OF srv_ecode_responds [OF ok mem att req_opcodes(4)]]
  have wf: "db_wf (srv_db srv)" using ok by (simp add: srv_ok_def)
  have mtu: "23 \<le> unat (att_mtu att)" using srv_ok_mtu [OF ok] att by simp
  obtain u where u: "get_uuid_le (drop 4 pdu) (length pdu - 4) = Some u" using get_uuid_le_some [OF True] by blast
  obtain q where q: "gatt_db_read_by_type (srv_db srv) (get_le16 pdu) (get_le16 (drop 2 pdu)) u = Some q"
    "valid (srv_db srv) q" using searches_valid(2) [OF wf] by blast
  let ?oper = "\<lparr>ro_opcode = ?op, ro_done = False, ro_pdu = rsp_buf env (att_mtu att), ro_pdu_len = 0,
    ro_value_len = 0, ro_db_data = q\<rparr>"
  have "answers ?op att (process_read_by_type env (srv\<lparr>pending_read_op := Some ?oper\<rparr>) ?oper)"
    unfolding process_read_by_type_def using ok att q(2) mtu
    by (intro read_by_type_loop_answers mem) (auto simp: rop_ok_def)
  then show ?thesis using True err u q(1) mem by (simp add: read_by_type_cb_def Let_def att)
qed

lemma read_multiple_fill:
  assumes ok: "srv_ok srv" and mem: "e_mem env" and att: "srv_att srv = att"
    and rsp: "length rsp = unat (att_mtu att) - 1" "len \<le> unat (att_mtu att) - 1"
    and n: "n = min (length v) (unat (att_mtu att) - len - 1)"
  obtains p where "buf_write rsp len (take n v) = Some p" "length p = unat (att_mtu att) - 1" "len + n \<le> unat (att_mtu att) - 1"
    "responded BT_ATT_OP_READ_MULT_REQ att (srv_send env srv BT_ATT_OP_READ_MULT_RSP (Some p) (len + n))"
proof -
  have le: "len + length (take n v) \<le> length rsp" "len + n \<le> unat (att_mtu att) - 1" using rsp n by auto
  from buf_writeI [OF le(1)] obtain p where p: "buf_write rsp len (take n v) = Some p" "length p = length rsp" by blast
  have "responded BT_ATT_OP_READ_MULT_REQ att (srv_send env srv BT_ATT_OP_READ_MULT_RSP (Some p) (len + n))"
    using srv_ok_mtu [OF ok] att p(2) rsp(1) le(2) by (intro srv_send_response [OF ok mem att]) auto
  with p rsp(1) le(2) show ?thesis by (intro that) simp_all
qed

text \<open>The read of one attribute, with \<open>k\<close> to go on when it is answered at once.\<close>

lemma read_multiple_next:
  assumes ok: "srv_ok srv" and mem: "e_mem env" and att: "srv_att srv = att"
    and k: "\<And>q e v. db_attr (srv_db srv) q \<noteq> None \<Longrightarrow> answers BT_ATT_OP_READ_MULT_REQ att (k srv q e v)"
  shows "answers BT_ATT_OP_READ_MULT_REQ att (do {
      next_attr \<leftarrow> gatt_db_get_attribute (Some (srv_db srv)) h;
      case next_attr of None \<Rightarrow> srv_ecode env srv BT_ATT_OP_READ_MULT_REQ eh BT_ATT_ERROR_INVALID_HANDLE
      | Some next_attr \<Rightarrow> do {
          (ok, db, es) \<leftarrow> gatt_db_attribute_read (e_timeout env) (srv_db srv) (Some next_attr) 0 BT_ATT_OP_READ_MULT_REQ att_ptr
                            (Some Read_multiple_complete_cb) (Some Stack_ptr);
          if \<not> ok then srv_ecode env (srv\<lparr>srv_db := db\<rparr>) BT_ATT_OP_READ_MULT_REQ eh BT_ATT_ERROR_UNLIKELY
          else case es of
            [Read_done f q err val ud] \<Rightarrow> k (srv\<lparr>srv_db := db\<rparr>) q err val
          | _ \<Rightarrow> Some (srv\<lparr>srv_db := db\<rparr>, es) } })"
proof -
  have wf: "db_wf (srv_db srv)" using ok by (simp add: srv_ok_def)
  show ?thesis
  proof (cases rule: get_attribute_cases [OF wf, of h])
    case 1
    then show ?thesis using srv_ecode_responds [OF ok mem att] by (simp add: answersI(1))
  next
    case (2 q a)
    note found = 2
    show ?thesis
    proof (cases rule: db_read_cases [OF wf 2(2), of "e_timeout env" 0 BT_ATT_OP_READ_MULT_REQ att_ptr
        Read_multiple_complete_cb "Some Stack_ptr"])
      case (1 e v)
      then show ?thesis using k [of q] found by simp
    next
      case (2 db' rf i)
      then have "srv_ok (srv\<lparr>srv_db := db'\<rparr>)" using srv_ok_db [OF ok] by (simp add: keeps_def)
      then show ?thesis using found(1) 2(2) att by (simp add: answersI(2) deferredI)
    qed
  qed
qed

lemma read_multiple_complete_answers:
  assumes "srv_ok srv" "e_mem env" "srv_att srv = att" "db_attr (srv_db srv) q = Some a"
    "length rsp = unat (att_mtu att) - 1" "len \<le> unat (att_mtu att) - 1"
  shows "answers BT_ATT_OP_READ_MULT_REQ att
    (read_multiple_complete_cb env hs srv rsp len (unat (att_mtu att)) q err val)"
  using assms(1,3-)
proof (induction hs arbitrary: srv q a rsp len err val)
  case Nil
  note ok = Nil.prems(1) and att = Nil.prems(2)
  obtain ecode where ec: "check_permissions env srv q read_mask = Some ecode"
    using check_permissions_total [OF Nil.prems(3)] by blast
  obtain p where p: "buf_write rsp len (take (min (length (case val of None \<Rightarrow> [] | Some v \<Rightarrow> v)) (unat (att_mtu att) - len - 1))
      (case val of None \<Rightarrow> [] | Some v \<Rightarrow> v)) = Some p"
    "responded BT_ATT_OP_READ_MULT_REQ att (srv_send env srv BT_ATT_OP_READ_MULT_RSP (Some p)
       (len + min (length (case val of None \<Rightarrow> [] | Some v \<Rightarrow> v)) (unat (att_mtu att) - len - 1)))"
    by (rule read_multiple_fill [OF ok assms(2) att Nil.prems(4,5) refl])
  then show ?case using srv_ecode_responds [OF ok assms(2) att] srv_error_responds [OF ok assms(2) att]
    unfolding read_multiple_complete_cb.simps(1) get_handle_valid(1) [OF Nil.prems(3)] ec Let_def p(1) bind.bind_lunit
    by (simp add: answersI(1))
next
  case (Cons h hs)
  note ok = Cons.prems(1) and att = Cons.prems(2)
  note err = srv_ecode_responds [OF ok assms(2) att] srv_error_responds [OF ok assms(2) att]
  let ?v = "case val of None \<Rightarrow> [] | Some v \<Rightarrow> v"
  let ?n = "min (length ?v) (unat (att_mtu att) - len - 1)"
  obtain ecode where ec: "check_permissions env srv q read_mask = Some ecode"
    using check_permissions_total [OF Cons.prems(3)] by blast
  obtain p where p: "buf_write rsp len (take ?n ?v) = Some p" "length p = unat (att_mtu att) - 1" "len + ?n \<le> unat (att_mtu att) - 1"
    "responded BT_ATT_OP_READ_MULT_REQ att (srv_send env srv BT_ATT_OP_READ_MULT_RSP (Some p) (len + ?n))"
    by (rule read_multiple_fill [OF ok assms(2) att Cons.prems(4,5) refl])
  note unf = read_multiple_complete_cb.simps(2) get_handle_valid(1) [OF Cons.prems(3)] ec Let_def p(1) bind.bind_lunit
  show ?case
  proof (cases "err \<noteq> 0 \<or> ecode \<noteq> 0 \<or> unat (att_mtu att) - 1 \<le> len + ?n")
    case True
    then show ?thesis using err p(4) unfolding unf by (auto intro!: answersI(1))
  next
    case False
    have "answers BT_ATT_OP_READ_MULT_REQ att (read_multiple_complete_cb env hs srv p (len + ?n) (unat (att_mtu att)) q2 e v)"
      if "db_attr (srv_db srv) q2 \<noteq> None" for q2 e v using Cons.IH [OF ok att _ p(2,3), of q2] that by blast
    note nx = read_multiple_next [where k = "\<lambda>s q2 e v. read_multiple_complete_cb env hs s p (len + ?n)
      (unat (att_mtu att)) q2 e v" and h = h and eh = h, OF ok assms(2) att this]
    show ?thesis using False nx unfolding unf by simp
  qed
qed

lemma read_multiple_answers:
  assumes ok: "srv_ok srv" and mem: "e_mem env" and att: "srv_att srv = att"
  shows "answers BT_ATT_OP_READ_MULT_REQ att (read_multiple_cb env srv BT_ATT_OP_READ_MULT_REQ pdu)"
proof (cases "length pdu < 4")
  case True
  then show ?thesis using srv_ecode_responds [OF ok mem att req_opcodes(7)] by (simp add: read_multiple_cb_def answersI(1))
next
  case False
  let ?hs = "map (\<lambda>i. get_le16 (drop (i * 2) pdu)) [0..<length pdu div 2]"
  have "answers BT_ATT_OP_READ_MULT_REQ att (read_multiple_complete_cb env (tl ?hs) srv
      (map (e_junk env) [0..<unat (att_mtu att) - 1]) 0 (unat (att_mtu att)) q e v)" if "db_attr (srv_db srv) q \<noteq> None" for q e v
    using that by (auto intro!: read_multiple_complete_answers [OF ok mem att])
  note nx = read_multiple_next [where k = "\<lambda>s q e v. read_multiple_complete_cb env (tl ?hs) s
    (map (e_junk env) [0..<unat (att_mtu att) - 1]) 0 (unat (att_mtu att)) q e v" and h = "hd ?hs" and eh = 0, OF ok mem att this]
  show ?thesis using False mem nx by (simp add: read_multiple_cb_def att Let_def)
qed

section \<open>Write handlers\<close>

lemma write_complete_responds:
  assumes ok: "srv_ok srv" and mem: "e_mem env" and att: "srv_att srv = att"
    and p: "pending_write_op srv = Some oper" "wo_opcode oper = BT_ATT_OP_WRITE_REQ" and q: "db_attr (srv_db srv) q = Some a"
  shows "responded BT_ATT_OP_WRITE_REQ att (write_complete_cb env srv q err)"
proof -
  have "responded BT_ATT_OP_WRITE_REQ att (srv_send env srv BT_ATT_OP_WRITE_RSP None 0)"
    using srv_ok_mtu [OF ok] att by (intro srv_send_response [OF ok mem att]) auto
  then have "responded BT_ATT_OP_WRITE_REQ att (if err \<noteq> 0 then srv_error env srv BT_ATT_OP_WRITE_REQ (a_handle a) err
      else srv_send env srv BT_ATT_OP_WRITE_RSP None 0)"
    using srv_error_responds [OF ok mem att] by simp
  from destroy_responds(2) [OF this] show ?thesis
    using p by (simp add: write_complete_cb_def get_handle_valid(1) [OF q] BT_ATT_OP_WRITE_REQ_def BT_ATT_OP_WRITE_CMD_def
      cong: if_cong split del: if_split)
qed

text \<open>A command is never answered, whatever becomes of the write.\<close>

definition silent :: "'c fn bt_att \<Rightarrow> 'c srv_result \<Rightarrow> bool" where
  "silent att r \<longleftrightarrow> (\<exists>srv es. r = Some (srv, es) \<and> srv_ok srv \<and> srv_att srv = att)"

lemma write_cb_cases:
  assumes ok: "srv_ok srv"
  obtains (refused) handle ecode where "\<And>opcode. write_cb env srv opcode pdu = write_error env srv opcode handle ecode"
    | (found) q a where "db_attr (srv_db srv) q = Some a" "\<And>opcode. write_cb env srv opcode pdu = do {
        (ok, db, es) \<leftarrow> gatt_db_attribute_write (e_mem env) (e_junk env) (e_timeout env) (srv_db srv)
                          (Some q) 0 (drop 2 pdu) opcode att_ptr (Some Write_complete_cb) (Some Op_ptr);
        let srv = srv\<lparr>srv_db := db, pending_write_op := Some \<lparr>wo_opcode = opcode\<rparr>\<rparr>;
        if \<not> ok then write_error env (async_write_op_destroy srv) opcode (get_le16 pdu) BT_ATT_ERROR_UNLIKELY
        else case es of
          [Write_done f q err ud] \<Rightarrow> write_complete_cb env srv q err
        | _ \<Rightarrow> Some (srv, es) }"
proof (cases "length pdu < 2")
  case True
  then show ?thesis using refused [of 0 BT_ATT_ERROR_INVALID_PDU] by (simp add: write_cb_def)
next
  case False
  have wf: "db_wf (srv_db srv)" using ok by (simp add: srv_ok_def)
  show ?thesis
  proof (cases rule: get_attribute_cases [OF wf, of "get_le16 pdu"])
    case 1
    then show ?thesis using False refused [of "get_le16 pdu" BT_ATT_ERROR_INVALID_HANDLE] by (simp add: write_cb_def)
  next
    case (2 q a)
    obtain ecode where ec: "check_permissions env srv q write_mask = Some ecode"
      using check_permissions_total [OF 2(2)] by blast
    show ?thesis
    proof (cases "ecode \<noteq> 0 \<or> pending_write_op srv \<noteq> None")
      case True
      then show ?thesis using False 2(1) ec refused [of "get_le16 pdu" ecode] refused [of "get_le16 pdu" BT_ATT_ERROR_UNLIKELY]
        by (cases "ecode = 0") (auto simp: write_cb_def)
    next
      case free: False
      then show ?thesis using False 2(1) ec by (intro found [OF 2(2)]) (simp add: write_cb_def)
    qed
  qed
qed

lemma write_answers:
  assumes ok: "srv_ok srv" and mem: "e_mem env" and att: "srv_att srv = att"
  shows "answers BT_ATT_OP_WRITE_REQ att (write_cb env srv BT_ATT_OP_WRITE_REQ pdu)"
proof -
  let ?op = "BT_ATT_OP_WRITE_REQ"
  have e: "write_error env s ?op h ec = srv_ecode env s ?op h ec" for s h ec
    by (simp add: write_error_def BT_ATT_OP_WRITE_REQ_def BT_ATT_OP_WRITE_CMD_def)
  note err = answersI(1) [OF srv_ecode_responds [OF _ mem _ req_opcodes(9)]]
  have wf: "db_wf (srv_db srv)" using ok by (simp add: srv_ok_def)
  show ?thesis
  proof (cases rule: write_cb_cases [OF ok, of env pdu])
    case (1 handle ecode)
    then show ?thesis using err [OF ok att] by (simp add: e)
  next
    case (2 q a)
    note found = 2
    show ?thesis
    proof (cases rule: db_write_cases [OF wf 2(1), of "e_mem env" "e_junk env" "e_timeout env" 0 "drop 2 pdu" ?op att_ptr
        Write_complete_cb "Some Op_ptr"])
      case (1 db')
      let ?s = "srv\<lparr>srv_db := db', pending_write_op := Some \<lparr>wo_opcode = ?op\<rparr>\<rparr>"
      obtain a' where "db_attr (srv_db ?s) q = Some a'" using keepsD [OF 1(1) found(1)] by auto
      moreover have "srv_ok ?s" using 1(1) srv_ok_db [OF ok] by (simp add: keeps_def)
      ultimately have "responded ?op att (write_complete_cb env ?s q 0)"
        using write_complete_responds [of ?s env att "\<lparr>wo_opcode = ?op\<rparr>" q a' 0] mem att by simp
      then show ?thesis using 1(2) by (simp add: found(2) answersI(1))
    next
      case (2 db' wfn i)
      then have "srv_ok (srv\<lparr>srv_db := db'\<rparr>)" using srv_ok_db [OF ok] by (simp add: keeps_def)
      then show ?thesis using 2(2) att
        by (simp add: found(2) answersI(2) deferredI [where f = Write_complete_cb] awaits_def completable_def)
    next
      case 3
      then show ?thesis using err [of "async_write_op_destroy (srv\<lparr>pending_write_op := Some \<lparr>wo_opcode = ?op\<rparr>\<rparr>)"] ok att
        by (simp add: found(2) e)
    qed
  qed
qed

lemma write_command_silent:
  assumes ok: "srv_ok srv"
  shows "silent (srv_att srv) (write_cb env srv BT_ATT_OP_WRITE_CMD pdu)"
proof -
  let ?op = "BT_ATT_OP_WRITE_CMD"
  have e: "write_error env s ?op h ec = Some (s, [])" for s h ec by (simp add: write_error_def)
  have wf: "db_wf (srv_db srv)" using ok by (simp add: srv_ok_def)
  show ?thesis
  proof (cases rule: write_cb_cases [OF ok, of env pdu])
    case (1 handle ecode)
    then show ?thesis using ok by (simp add: e silent_def)
  next
    case (2 q a)
    note found = 2
    show ?thesis
    proof (cases rule: db_write_cases [OF wf 2(1), of "e_mem env" "e_junk env" "e_timeout env" 0 "drop 2 pdu" ?op att_ptr
        Write_complete_cb "Some Op_ptr"])
      case (1 db')
      then have "srv_ok (srv\<lparr>srv_db := db'\<rparr>)" using srv_ok_db [OF ok] by (simp add: keeps_def)
      then show ?thesis using 1(2) by (simp add: found(2) write_complete_cb_def silent_def)
    next
      case (2 db' wfn i)
      then have "srv_ok (srv\<lparr>srv_db := db'\<rparr>)" using srv_ok_db [OF ok] by (simp add: keeps_def)
      then show ?thesis using 2(2) by (simp add: found(2) silent_def)
    next
      case 3
      then show ?thesis using ok by (simp add: found(2) e silent_def)
    qed
  qed
qed

section \<open>Prepared writes\<close>

text \<open>
  The one prepared write that is not memory safe: it is permitted, continues the last one of the
  queue, and the two together have 65536 bytes or more, so that the 16-bit length wraps.
\<close>

definition prep_continues :: "'c bt_gatt_server \<Rightarrow> u16 \<Rightarrow> u16 \<Rightarrow> bool" where
  "prep_continues srv handle offset \<longleftrightarrow>
     prep_queue srv \<noteq> [] \<and> pd_handle (last (prep_queue srv)) = handle \<and>
     unat offset = unat (pd_length (last (prep_queue srv))) + unat (pd_offset (last (prep_queue srv)))"

definition prep_overflows :: "'c srv_env \<Rightarrow> 'c bt_gatt_server \<Rightarrow> bytes \<Rightarrow> bool" where
  "prep_overflows env srv pdu \<longleftrightarrow>
     4 \<le> length pdu \<and> length (prep_queue srv) < max_prep_queue_len srv \<and>
     (case gatt_db_get_attribute (Some (srv_db srv)) (get_le16 pdu) of
        Some (Some q) \<Rightarrow> check_permissions env srv q write_mask = Some 0 | _ \<Rightarrow> False) \<and>
     prep_continues srv (get_le16 pdu) (get_le16 (drop 2 pdu)) \<and>
     65536 \<le> unat (pd_length (last (prep_queue srv))) + length (drop 4 pdu)"

lemma append_prep_ok:
  assumes "prep_ok p" "e_mem env" "unat (pd_length p) + length val < 65536"
  shows "\<exists>p'. append_prep_data env p val = Some (True, p') \<and> prep_ok p' \<and>
    unat (pd_length p') = unat (pd_length p) + length val \<and> pd_value p' = pd_value p @ val \<and>
    pd_handle p' = pd_handle p \<and> pd_offset p' = pd_offset p \<and>
    pd_reliable_supported p' = pd_reliable_supported p"
proof (cases "val = []")
  case False
  let ?len = "pd_length p + of_nat (length val)"
  have "length val < 65536" using assms(3) by linarith
  then have len: "unat ?len = unat (pd_length p) + length val"
    using assms(3) unat_of_nat_less [where 'a = 16, of "length val"] by (simp add: unat_word_ariths)
  have "realloc_bytes (e_junk env) (pd_value p) (unat ?len) =
      pd_value p @ map (e_junk env) [length (pd_value p)..<unat ?len]"
    using assms(1) len by (simp add: realloc_bytes_def prep_ok_def)
  then have "buf_write (realloc_bytes (e_junk env) (pd_value p) (unat ?len)) (unat (pd_length p)) val =
      Some (pd_value p @ val)"
    using assms(1) len by (simp add: buf_write_def prep_ok_def)
  then show ?thesis using assms(1,2) False len by (simp add: append_prep_data_def Let_def prep_ok_def)
qed (use assms in \<open>simp add: append_prep_data_def\<close>)

lemma append_prep_wraps:
  assumes "prep_ok p" "e_mem env" "length val < 65536" "65536 \<le> unat (pd_length p) + length val"
  shows "append_prep_data env p val = None"
proof -
  let ?len = "pd_length p + of_nat (length val)"
  have "unat ?len = (unat (pd_length p) + length val) mod 65536"
    using unat_of_nat_less [where 'a = 16, of "length val"] assms(3) by (simp add: unat_word_ariths)
  also have "\<dots> < unat (pd_length p) + length val" 
  proof -
    have "(unat (pd_length p) + length val) mod 65536 < 65536" by simp
    with assms(4) show ?thesis by linarith
  qed
  finally have "buf_write (realloc_bytes (e_junk env) (pd_value p) (unat ?len)) (unat (pd_length p)) val = None"
    by (simp add: buf_write_def)
  moreover have "val \<noteq> []" using assms(4) unat_u16_less [of "pd_length p"] by (cases val) auto
  ultimately show ?thesis using assms(2) by (simp add: append_prep_data_def Let_def)
qed

lemma foreach_desc_valid:
  assumes "db_wf db" "db_attr db q = Some a"
  shows "\<exists>qs. gatt_db_service_foreach_desc db (Some q) (Some f) = Some qs \<and> valid db qs"
proof -
  obtain sv where sv: "a_service a = fst q" "svcs db (fst q) = Some sv" using db_attr_service [OF assms] by metis
  have v: "db_attr db (fst q, i) \<noteq> None" if "(i, b) \<in> set (svc_loop sv)" for i b
    using svc_loop_attr [OF that] sv(2) by (simp add: db_attr_def)
  show ?thesis using assms(2) sv v
    by (auto simp: gatt_db_service_foreach_desc_def Let_def valid_def dest!: set_takeWhileD)
qed

lemma ext_prop_loop_ok:
  assumes "db_wf db" "valid db qs"
  shows "\<exists>db' x' es'. ext_prop_loop tid cb ud qs (db, x, es) = Some (db', x', es') \<and> keeps db db'"
  using assms
proof (induction qs arbitrary: db x es)
  case (Cons q qs)
  obtain a where a: "db_attr db q = Some a" using Cons.prems(2) by auto
  have "\<exists>db1 x1 es1. read_ext_prop tid cb ud q (db, x, es) = Some (db1, x1, es1) \<and> keeps db db1"
    by (cases rule: db_read_cases [OF Cons.prems(1) a, of tid 0 BT_ATT_OP_READ_REQ None cb "Some ud"])
      (auto simp: read_ext_prop_def a Cons.prems(1))
  then obtain db1 x1 es1 where s: "read_ext_prop tid cb ud q (db, x, es) = Some (db1, x1, es1)" "keeps db db1" by blast
  have "db_wf db1" "valid db1 qs" using s(2) valid_keeps [OF _ s(2)] Cons.prems(2) by (auto simp: keeps_def)
  from Cons.IH [OF this, of x1 es1] show ?case using s keeps_trans by (auto simp: s(1))
qed simp

lemma char_data_ok:
  assumes "db_wf db" "db_attr db q = Some a"
  shows "\<exists>cd db' es. gatt_db_attribute_get_char_data tid cb ud db (Some q) = Some (cd, db', es) \<and> keeps db db'"
proof (cases "uuid_eq characteristic_uuid (a_uuid a) \<and> a_value a \<noteq> None \<and> (a_value_len a = 5 \<or> a_value_len a = 19)")
  case True
  then obtain v where v: "a_value a = Some v" by blast
  have "v \<noteq> []" using db_attr_ok [OF assms] True v by (auto simp: attr_ok_def)
  obtain qs where qs: "gatt_db_service_foreach_desc db (Some q) (Some cb) = Some qs" "valid db qs"
    using foreach_desc_valid [OF assms] by blast
  obtain db' x es where l: "ext_prop_loop tid cb ud qs (db, 0, []) = Some (db', x, es)" "keeps db db'"
    using ext_prop_loop_ok [OF assms(1) qs(2)] by blast
  have "\<exists>y db' es. get_char_extended_prop tid cb ud db (Some q) = Some (y, db', es) \<and> keeps db db'"
    using assms True v \<open>v \<noteq> []\<close> qs(1) l by (simp add: get_char_extended_prop_def)
  then show ?thesis using assms(2) True v by (auto simp: gatt_db_attribute_get_char_data_def)
next
  case False
  then show ?thesis using assms by (auto simp: gatt_db_attribute_get_char_data_def split: option.split)
qed

lemma reliable_write_ok:
  assumes "db_wf (srv_db srv)"
  shows "\<exists>rel db es. is_reliable_write_supported env srv h = Some (rel, db, es) \<and> keeps (srv_db srv) db"
proof (cases rule: get_attribute_cases [OF assms, of h])
  case 1
  then show ?thesis using assms by (simp add: is_reliable_write_supported_def ex_bool_eq)
next
  case (2 q a)
  then show ?thesis using char_data_ok [OF assms 2(2), of "e_timeout env" Read_ext_prop_value Stack_ptr]
    by (auto simp: is_reliable_write_supported_def)
qed

lemma store_prep_ok:
  assumes ok: "srv_ok srv" and mem: "e_mem env" and n: "length val < 65536"
    and room: "prep_continues srv handle offset \<Longrightarrow> unat (pd_length (last (prep_queue srv))) + length val < 65536"
    and q: "length (prep_queue srv) < max_prep_queue_len srv"
  shows "\<exists>srv' es. store_prep_data env srv handle offset val = Some (True, srv', es) \<and> srv_ok srv' \<and>
    srv_att srv' = srv_att srv"
proof (cases "prep_continues srv handle offset")
  case True
  then have q0: "prep_queue srv \<noteq> []" by (simp add: prep_continues_def)
  have "prep_ok (last (prep_queue srv))" using ok q0 by (auto simp: srv_ok_def)
  from append_prep_ok [OF this mem room [OF True]] obtain p' where
    p': "append_prep_data env (last (prep_queue srv)) val = Some (True, p')" "prep_ok p'" by blast
  have "srv_ok (srv\<lparr>prep_queue := butlast (prep_queue srv) @ [p']\<rparr>)"
    using ok p'(2) q by (auto simp: srv_ok_def dest: in_set_butlastD)
  then show ?thesis using True p'(1) by (simp add: store_prep_data_def prep_continues_def)
next
  case False
  let ?p = "\<lparr>pd_value = [], pd_handle = 0, pd_offset = 0, pd_length = 0, pd_reliable_supported = False\<rparr>"
  have "prep_ok ?p" "unat (pd_length ?p) + length val < 65536" using n by (simp_all add: prep_ok_def)
  from append_prep_ok [OF this(1) mem this(2)] obtain p' where
    p': "append_prep_data env ?p val = Some (True, p')" "prep_ok p'" by blast
  obtain rel db es where r: "is_reliable_write_supported env srv (handle - 1) = Some (rel, db, es)" "keeps (srv_db srv) db"
    using reliable_write_ok [of srv] ok by (metis srv_ok_def)
  have "srv_ok (srv\<lparr>srv_db := db, prep_queue := prep_queue srv @
      [p'\<lparr>pd_handle := handle, pd_offset := offset, pd_reliable_supported := rel\<rparr>]\<rparr>)"
    using ok p'(2) r(2) q by (auto simp: srv_ok_def keeps_def prep_ok_def)
  then show ?thesis using p'(1) r(1) unfolding store_prep_data_def prep_data_new_def if_not_P [OF False [unfolded prep_continues_def]] by simp
qed

lemma prep_write_responds:
  assumes ok: "srv_ok srv" and mem: "e_mem env" and att: "srv_att srv = att"
    and room: "\<not> prep_overflows env srv pdu" and n: "length pdu < unat (att_mtu att)"
  shows "responded BT_ATT_OP_PREP_WRITE_REQ att (prep_write_cb env srv BT_ATT_OP_PREP_WRITE_REQ pdu)"
proof (cases "length pdu < 4 \<or> length (prep_queue srv) \<ge> max_prep_queue_len srv")
  case True
  then show ?thesis using srv_ecode_responds [OF ok mem att req_opcodes(10)] by (auto simp: prep_write_cb_def)
next
  case False
  let ?op = "BT_ATT_OP_PREP_WRITE_REQ"
  have wf: "db_wf (srv_db srv)" using ok by (simp add: srv_ok_def)
  show ?thesis
  proof (cases rule: get_attribute_cases [OF wf, of "get_le16 pdu"])
    case 1
    then show ?thesis using False srv_ecode_responds [OF ok mem att req_opcodes(10)] by (simp add: prep_write_cb_def)
  next
    case (2 q a)
    obtain ecode where ec: "check_permissions env srv q write_mask = Some ecode"
      using check_permissions_total [OF 2(2)] by blast
    show ?thesis
    proof (cases "ecode = 0")
      case True
      have "length (drop 4 pdu) < 65536"
        using n unat_u16_less [of "att_mtu att"] by (simp del: unat_u16_less)
      moreover have "unat (pd_length (last (prep_queue srv))) + length (drop 4 pdu) < 65536"
        if "prep_continues srv (get_le16 pdu) (get_le16 (drop 2 pdu))"
        using room that False 2(1) ec True by (simp add: prep_overflows_def not_le)
      ultimately obtain srv' es where
        s: "store_prep_data env srv (get_le16 pdu) (get_le16 (drop 2 pdu)) (drop 4 pdu) = Some (True, srv', es)"
          "srv_ok srv'" "srv_att srv' = att" using store_prep_ok [OF ok mem] False att by (metis linorder_not_le)
      have "responded ?op att (srv_send env srv' BT_ATT_OP_PREP_WRITE_RSP (Some pdu) (length pdu))"
        using n by (intro srv_send_response [OF s(2) mem s(3)]) auto
      from responded_events [OF this, of es] show ?thesis
        using False 2(1) ec True s(1) by (simp add: prep_write_cb_def Let_def)
    next
      case ne: False
      then show ?thesis using False 2(1) ec srv_ecode_responds [OF ok mem att req_opcodes(10)]
        by (simp add: prep_write_cb_def Let_def)
    qed
  qed
qed

lemma prep_write_faults:
  assumes "srv_ok srv" "e_mem env" "prep_overflows env srv pdu" "length pdu < 65536"
  shows "prep_write_cb env srv opcode pdu = None"
proof -
  let ?p = "last (prep_queue srv)"
  obtain q where q: "4 \<le> length pdu" "length (prep_queue srv) < max_prep_queue_len srv"
    "gatt_db_get_attribute (Some (srv_db srv)) (get_le16 pdu) = Some (Some q)" "check_permissions env srv q write_mask = Some 0"
    "prep_continues srv (get_le16 pdu) (get_le16 (drop 2 pdu))" "65536 \<le> unat (pd_length ?p) + length (drop 4 pdu)"
    using assms(3) by (auto simp: prep_overflows_def split: option.splits)
  have "prep_ok ?p" using assms(1) q(5) by (auto simp: srv_ok_def prep_continues_def)
  from append_prep_wraps [OF this assms(2) _ q(6)] assms(4) have "append_prep_data env ?p (drop 4 pdu) = None" by simp
  then have "store_prep_data env srv (get_le16 pdu) (get_le16 (drop 2 pdu)) (drop 4 pdu) = None"
    using q(5) unfolding store_prep_data_def prep_continues_def by simp
  then show ?thesis using q(1-4) by (simp add: prep_write_cb_def Let_def)
qed

lemma exec_write_loop_answers:
  assumes "srv_ok srv" "e_mem env" "srv_att srv = att" "length q \<le> max_prep_queue_len srv" "\<forall>p \<in> set q. prep_ok p"
  shows "answers BT_ATT_OP_EXEC_WRITE_REQ att (exec_write_loop env q srv ehandle)"
  using assms(1,3-)
proof (induction q arbitrary: srv ehandle)
  case Nil
  have ok: "srv_ok (srv\<lparr>prep_queue := []\<rparr>)" "srv_att (srv\<lparr>prep_queue := []\<rparr>) = att"
    using Nil by (auto simp: srv_ok_def)
  have "0 < unat (att_mtu att)" using srv_ok_mtu [OF ok(1)] ok(2) by simp
  then show ?case using srv_send_response [OF ok(1) assms(2) ok(2) response_opcodes(11), of 0 None] by (simp add: answersI(1))
next
  case (Cons p q)
  let ?op = "BT_ATT_OP_EXEC_WRITE_REQ" and ?s = "srv\<lparr>prep_queue := q\<rparr>"
  have okq: "srv_ok ?s" "srv_att ?s = att" using Cons.prems by (auto simp: srv_ok_def)
  have wf: "db_wf (srv_db srv)" using Cons.prems(1) by (simp add: srv_ok_def)
  have err: "answers ?op att (exec_write_error env (?s\<lparr>srv_db := db\<rparr>) h e)" if "keeps (srv_db srv) db" for db h e
    unfolding exec_write_error_def using that okq
    by (intro answersI(1) srv_error_responds [OF _ assms(2)]) (auto simp: srv_ok_def keeps_def)
  have err0: "answers ?op att (exec_write_error env ?s h e)" for h e using err [of "srv_db srv"] wf by simp
  show ?case
  proof (cases rule: get_attribute_cases [OF wf, of "pd_handle p"])
    case 1
    then show ?thesis using err0 by simp
  next
    case (2 r a)
    note found = 2
    show ?thesis
    proof (cases rule: db_write_cases [OF wf 2(2), of "e_mem env" "e_junk env" "e_timeout env" "pd_offset p"
        "take (unat (pd_length p)) (pd_value p)" ?op att_ptr Exec_write_complete_cb "Some Server_ptr"])
      case (1 db')
      obtain a' where a': "db_attr db' r = Some a'" using keepsD [OF 1(1) found(2)] by blast
      have "answers ?op att (exec_write_loop env q (?s\<lparr>srv_db := db'\<rparr>) (a_handle a'))"
        using Cons.prems okq 1(1) by (intro Cons.IH) (auto simp: srv_ok_def keeps_def)
      then show ?thesis using found(1) 1(2) by (simp add: get_handle_valid(1) [OF a'])
    next
      case (2 db' wfn i)
      then have "srv_ok (?s\<lparr>srv_db := db'\<rparr>)" using srv_ok_db [OF okq(1)] by (simp add: keeps_def)
      then show ?thesis using found(1) 2(2) okq(2)
        by (simp add: answersI(2) deferredI [where f = Exec_write_complete_cb] awaits_def completable_def)
    next
      case 3
      then show ?thesis using found(1) err0 by simp
    qed
  qed
qed

lemma exec_next_answers:
  assumes ok: "srv_ok srv" and mem: "e_mem env" and att: "srv_att srv = att"
  shows "answers BT_ATT_OP_EXEC_WRITE_REQ att (exec_next_prep_write env srv ehandle err)"
proof (cases "err = 0")
  case True
  then show ?thesis using ok att unfolding exec_next_prep_write_def
    by (auto intro!: exec_write_loop_answers mem simp: srv_ok_def)
next
  case False
  have "srv_ok (srv\<lparr>prep_queue := []\<rparr>)" "srv_att (srv\<lparr>prep_queue := []\<rparr>) = att" using ok att by (auto simp: srv_ok_def)
  from srv_error_responds [OF this(1) mem this(2) req_opcodes(11)] False show ?thesis
    by (simp add: exec_next_prep_write_def exec_write_error_def answersI(1))
qed

lemma exec_write_answers:
  assumes ok: "srv_ok srv" and mem: "e_mem env" and att: "srv_att srv = att"
  shows "answers BT_ATT_OP_EXEC_WRITE_REQ att (exec_write_cb env srv BT_ATT_OP_EXEC_WRITE_REQ pdu)"
proof -
  have c: "srv_ok (srv\<lparr>prep_queue := []\<rparr>)" "srv_att (srv\<lparr>prep_queue := []\<rparr>) = att" using ok att by (auto simp: srv_ok_def)
  have "responded BT_ATT_OP_EXEC_WRITE_REQ att (srv_send env (srv\<lparr>prep_queue := []\<rparr>) BT_ATT_OP_EXEC_WRITE_RSP None 0)"
    using srv_ok_mtu [OF c(1)] c(2) by (intro srv_send_response [OF c(1) mem c(2)]) auto
  then show ?thesis using srv_ecode_responds [OF c(1) mem c(2) req_opcodes(11)] exec_next_answers [OF assms]
    by (auto simp: exec_write_cb_def Let_def intro: answersI(1) split: option.split)
qed

lemma exchange_mtu_responds:
  assumes ok: "srv_ok srv" and mem: "e_mem env" and att: "srv_att srv = att"
  shows "responded BT_ATT_OP_MTU_REQ att (exchange_mtu_cb env srv BT_ATT_OP_MTU_REQ pdu)"
proof (cases "length pdu = 2")
  case True
  let ?f = "max (min (get_le16 pdu) (srv_mtu srv)) BT_ATT_DEFAULT_LE_MTU"
  have "responded BT_ATT_OP_MTU_REQ att (srv_send env srv BT_ATT_OP_MTU_RSP (Some (put_le16 (srv_mtu srv))) 2)"
    using srv_ok_mtu [OF ok] att by (intro srv_send_response [OF ok mem att]) auto
  then obtain s es where s: "srv_send env srv BT_ATT_OP_MTU_RSP (Some (put_le16 (srv_mtu srv))) 2 = Some (s, es)"
    "srv_ok s" "queued_response BT_ATT_OP_MTU_REQ att (srv_att s)" by (auto simp: responded_def)
  have m: "snd (bt_att_set_mtu env (Some (srv_att s)) ?f) = Some (srv_att s\<lparr>att_mtu := ?f\<rparr>)"
    using mem by (auto simp: bt_att_set_mtu_def max_def)
  have "srv_ok (s\<lparr>srv_mtu := ?f, srv_att := srv_att s\<lparr>att_mtu := ?f\<rparr>\<rparr>)"
    using s(2) by (auto simp: srv_ok_def att_wf_defs)
  then show ?thesis using True s(1,3) m
    by (auto simp: exchange_mtu_cb_def Let_def responded_def queued_response_def)
next
  case False
  then show ?thesis using srv_ecode_responds [OF ok mem att req_opcodes(1)] by (simp add: exchange_mtu_cb_def)
qed

end
