(* ===== verification/Gatt_Server_Props.thy ===== *)
theory Gatt_Server_Props
  imports Gatt_Server_Safe Gatt_Db_Values
begin

text \<open>
  The GATT server on top of the ATT engine.  The locale \<open>srv_request\<close> is the interface between
  the two: what a handler registered for a request promises, and what follows for a PDU that
  arrives.  It is interpreted on each of the eleven request handlers of
  \<^verbatim>\<open>src/shared/gatt-server.c\<close>.
\<close>

section \<open>The interface of a request handler\<close>

text \<open>The ATT engine calls the registered handler, and no other, for each opcode of the server.\<close>

definition serving :: "'c bt_gatt_server \<Rightarrow> bool" where
  "serving srv \<longleftrightarrow> (\<forall>h \<in> set att_handlers.
     map an_callback (filter (\<lambda>n. opcode_match (an_opcode n) (fst h)) (att_notify_list (srv_att srv))) = [Some (snd h)])"

text \<open>A request can be taken: the server is in a good state and no request is in progress.\<close>

definition ready :: "'c srv_env \<Rightarrow> 'c bt_gatt_server \<Rightarrow> bytes \<Rightarrow> bool" where
  "ready env srv pdu \<longleftrightarrow> srv_ok srv \<and> serving srv \<and> \<not> in_req (srv_att srv) \<and> e_mem env \<and>
     length pdu < unat (att_mtu (srv_att srv))"

lemma notify_calls_one:
  assumes "map an_callback (filter (\<lambda>n. opcode_match (an_opcode n) opcode) (att_notify_list att)) = [Some f]"
  shows "\<exists>ud. notify_calls att opcode pdu = [Att_notify_callback f opcode pdu ud]"
    "\<exists>n \<in> set (att_notify_list att). opcode_match (an_opcode n) opcode"
proof -
  obtain n where n: "filter (\<lambda>n. opcode_match (an_opcode n) opcode) (att_notify_list att) = [n]" "an_callback n = Some f"
    using assms by (auto simp: map_eq_Cons_conv)
  then show "\<exists>ud. notify_calls att opcode pdu = [Att_notify_callback f opcode pdu ud]" by (simp add: notify_calls_def)
  have "n \<in> set (filter (\<lambda>n. opcode_match (an_opcode n) opcode) (att_notify_list att))" using n by simp
  then show "\<exists>n \<in> set (att_notify_list att). opcode_match (an_opcode n) opcode" by auto
qed

lemma srv_ok_in_req: "srv_ok srv \<Longrightarrow> srv_ok (srv\<lparr>srv_att := srv_att srv\<lparr>in_req := b\<rparr>\<rparr>)"
  by (auto simp: srv_ok_def att_wf_defs)

lemma prep_overflows_in_req [simp]:
  "prep_overflows env (srv\<lparr>srv_att := srv_att srv\<lparr>in_req := b\<rparr>\<rparr>) pdu = prep_overflows env srv pdu"
proof -
  have "bt_att_get_security env (Some (srv_att srv\<lparr>in_req := b\<rparr>)) = bt_att_get_security env (Some (srv_att srv))"
    by (simp add: bt_att_get_security_def)
  then have "check_permissions env (srv\<lparr>srv_att := srv_att srv\<lparr>in_req := b\<rparr>\<rparr>) q m = check_permissions env srv q m" for q m
    by (simp add: check_permissions_def Let_def cong: if_cong)
  then show ?thesis by (simp add: prep_overflows_def prep_continues_def cong: option.case_cong)
qed

lemma serving_cong: "att_notify_list (srv_att s') = att_notify_list (srv_att s) \<Longrightarrow> serving s' = serving s"
  by (simp add: serving_def)

locale srv_request =
  fixes handler :: "'c srv_env \<Rightarrow> 'c bt_gatt_server \<Rightarrow> u8 \<Rightarrow> bytes \<Rightarrow> 'c srv_result"
    and fn :: "'c fn" and req :: u8
  assumes dispatch: "srv_handler env srv fn req pdu = handler env srv req pdu"
    and registered: "(req, fn) \<in> set att_handlers"
    and request: "get_op_type req = ATT_OP_TYPE_REQ" "req AND ATT_OP_SIGNED_MASK = 0"
    and contract: "srv_ok srv \<Longrightarrow> e_mem env \<Longrightarrow> length pdu < unat (att_mtu (srv_att srv)) \<Longrightarrow>
      \<not> (req = BT_ATT_OP_PREP_WRITE_REQ \<and> prep_overflows env srv pdu) \<Longrightarrow>
      answers req (srv_att srv) (handler env srv req pdu)"
begin

lemma receive_waiting:
  assumes "serving (srv :: 'c bt_gatt_server)" "\<not> in_req (srv_att srv)"
  shows "\<exists>es. srv_receive (env :: 'c srv_env) srv (Some (req # pdu)) = do {
    (s, ds) \<leftarrow> handler env (srv\<lparr>srv_att := srv_att srv\<lparr>in_req := True\<rparr>\<rparr>) req pdu; Some (s, ds, es) }"
proof -
  let ?t = "srv_att srv\<lparr>in_req := True\<rparr>"
  have "map an_callback (filter (\<lambda>n. opcode_match (an_opcode n) req) (att_notify_list ?t)) = [Some fn]"
    using assms(1) registered by (auto simp: serving_def)
  from notify_calls_one(1) [OF this, of pdu] notify_calls_one(2) [OF this] obtain ud where
    "notify_calls ?t req pdu = [Att_notify_callback fn req pdu ud]"
    "\<exists>n \<in> set (att_notify_list ?t). opcode_match (an_opcode n) req" by blast
  then have "can_read_data env (srv_att srv) (Some (req # pdu)) = Some (True, ?t, [Att_notify_callback fn req pdu ud])"
    using assms(2) request by (simp add: can_read_data_def Bt_Att.handle_notify_def Let_def)
  then have "srv_receive env srv (Some (req # pdu)) = do {
      (s, ds) \<leftarrow> handler env (srv\<lparr>srv_att := ?t\<rparr>) req pdu; Some (s, ds, [Att_notify_callback fn req pdu ud]) }"
    by (cases "handler env (srv\<lparr>srv_att := ?t\<rparr>) req pdu") (auto simp: srv_receive_def dispatch)
  then show ?thesis by blast
qed

lemma receive:
  assumes "ready (env :: 'c srv_env) srv pdu"
  shows "\<exists>es. srv_receive env srv (Some (req # pdu)) = do {
    (s, ds) \<leftarrow> handler env (srv\<lparr>srv_att := srv_att srv\<lparr>in_req := True\<rparr>\<rparr>) req pdu; Some (s, ds, es) }"
  using assms by (intro receive_waiting) (simp_all add: ready_def)

lemma receive_answers:
  assumes "ready (env :: 'c srv_env) srv pdu" "\<not> (req = BT_ATT_OP_PREP_WRITE_REQ \<and> prep_overflows env srv pdu)"
  shows "\<exists>srv' ds es. srv_receive env srv (Some (req # pdu)) = Some (srv', ds, es) \<and> srv_ok srv' \<and> serving srv' \<and>
    (queued_response req (srv_att srv) (srv_att srv') \<or>
     write_queue (srv_att srv') = write_queue (srv_att srv) \<and> (\<exists>e. ds = [e] \<and> handed_over e) \<and>
     (req = BT_ATT_OP_READ_MULT_REQ \<or> (\<exists>f. awaits srv' f req \<and> completable srv' f)))"
proof -
  let ?s = "srv\<lparr>srv_att := srv_att srv\<lparr>in_req := True\<rparr>\<rparr>"
  have "answers req (srv_att ?s) (handler env ?s req pdu)"
    using assms srv_ok_in_req by (intro contract) (auto simp: ready_def)
  then consider (rsp) s ds where "handler env ?s req pdu = Some (s, ds)" "srv_ok s" "queued_response req (srv_att ?s) (srv_att s)"
    | (app) s e where "handler env ?s req pdu = Some (s, [e])" "handed_over e" "srv_ok s" "srv_att s = srv_att ?s"
      "req = BT_ATT_OP_READ_MULT_REQ \<or> (\<exists>f. awaits s f req \<and> completable s f)"
    unfolding answers_def responded_def deferred_def by blast
  then show ?thesis
  proof cases
    case rsp
    have "serving s" using assms rsp(3) serving_cong [of s srv] by (simp add: ready_def queued_response_def)
    then show ?thesis using receive [OF assms(1)] rsp by (auto simp: queued_response_def)
  next
    case app
    have "serving s" using assms app(4) serving_cong [of s srv] by (simp add: ready_def)
    then show ?thesis using receive [OF assms(1)] app by auto
  qed
qed

end

text \<open>The handlers of the server keep the contract.\<close>

lemmas req_opcode_defs = BT_ATT_OP_MTU_REQ_def BT_ATT_OP_FIND_INFO_REQ_def BT_ATT_OP_FIND_BY_TYPE_REQ_def
  BT_ATT_OP_READ_BY_TYPE_REQ_def BT_ATT_OP_READ_REQ_def BT_ATT_OP_READ_BLOB_REQ_def BT_ATT_OP_READ_MULT_REQ_def
  BT_ATT_OP_READ_BY_GRP_TYPE_REQ_def BT_ATT_OP_WRITE_REQ_def BT_ATT_OP_PREP_WRITE_REQ_def BT_ATT_OP_EXEC_WRITE_REQ_def
  BT_ATT_OP_WRITE_CMD_def

lemmas req_facts = req_opcode_defs att_handlers_def srv_handler_def opcode_eval ATT_OP_SIGNED_MASK_def

interpretation mtu_req: srv_request exchange_mtu_cb Exchange_mtu_cb BT_ATT_OP_MTU_REQ
  by unfold_locales (simp_all add: exchange_mtu_responds answersI(1), simp_all add: req_facts)

interpretation grp_req: srv_request read_by_grp_type_cb Read_by_grp_type_cb BT_ATT_OP_READ_BY_GRP_TYPE_REQ
  by unfold_locales (simp_all add: read_by_grp_type_responds answersI(1), simp_all add: req_facts)

interpretation type_req: srv_request read_by_type_cb Read_by_type_cb BT_ATT_OP_READ_BY_TYPE_REQ
  by unfold_locales (simp_all add: read_by_type_answers, simp_all add: req_facts)

interpretation info_req: srv_request find_info_cb Find_info_cb BT_ATT_OP_FIND_INFO_REQ
  by unfold_locales (simp_all add: find_info_responds answersI(1), simp_all add: req_facts)

interpretation value_req: srv_request find_by_type_val_cb Find_by_type_val_cb BT_ATT_OP_FIND_BY_TYPE_REQ
  by unfold_locales (simp_all add: find_by_type_val_responds answersI(1), simp_all add: req_facts)

interpretation write_req: srv_request write_cb Write_cb BT_ATT_OP_WRITE_REQ
  by unfold_locales (simp_all add: write_answers, simp_all add: req_facts)

interpretation read_req: srv_request read_cb Read_cb BT_ATT_OP_READ_REQ
  by unfold_locales (simp_all add: read_answers, simp_all add: req_facts)

interpretation blob_req: srv_request read_blob_cb Read_blob_cb BT_ATT_OP_READ_BLOB_REQ
  by unfold_locales (simp_all add: read_answers, simp_all add: req_facts)

interpretation multi_req: srv_request read_multiple_cb Read_multiple_cb BT_ATT_OP_READ_MULT_REQ
  by unfold_locales (simp_all add: read_multiple_answers, simp_all add: req_facts)

interpretation prep_req: srv_request prep_write_cb Prep_write_cb BT_ATT_OP_PREP_WRITE_REQ
  by unfold_locales (simp_all add: prep_write_responds answersI(1), simp_all add: req_facts)

interpretation exec_req: srv_request exec_write_cb Exec_write_cb BT_ATT_OP_EXEC_WRITE_REQ
  by unfold_locales (simp_all add: exec_write_answers, simp_all add: req_facts)

section \<open>A new server\<close>

lemma register_handlers_ok:
  assumes "att_io att" "register_handlers hs att = (ok, is, t)"
  shows "ok \<and> length is = length hs \<and> 0 \<notin> set is \<and>
    (\<exists>i ns. t = att\<lparr>next_reg_id := i, att_notify_list := att_notify_list att @ ns\<rparr> \<and>
       map (\<lambda>n. (an_opcode n, an_callback n)) ns = map (\<lambda>h. (fst h, Some (snd h))) hs)"
  using assms
proof (induction hs arbitrary: att ok "is" t)
  case Nil
  then show ?case by (auto intro!: exI [of _ "next_reg_id att"])
next
  case (Cons h hs)
  define i where "i = (if next_reg_id att < 1 then 1 else next_reg_id att)"
  define n where "n = \<lparr>an_id = i, an_opcode = fst h, an_callback = Some (snd h), an_destroy = None,
    an_user_data = Some Server_ptr\<rparr>"
  define a2 where "a2 = att\<lparr>next_reg_id := i + 1, att_notify_list := att_notify_list att @ [n]\<rparr>"
  have r: "bt_att_register (Some att) (fst h) (Some (snd h)) (Some Server_ptr) None = (i, Some a2)"
    using Cons.prems(1) by (simp add: bt_att_register_def Let_def i_def n_def a2_def)
  have i: "i \<noteq> 0" by (auto simp: i_def word_less_nat_alt unat_eq_zero)
  obtain ok2 is2 t2 where r2: "register_handlers hs a2 = (ok2, is2, t2)" by (cases "register_handlers hs a2")
  have "att_io a2" using Cons.prems(1) by (simp add: a2_def)
  from Cons.IH [OF this r2] obtain j ns where ih: "ok2" "length is2 = length hs" "0 \<notin> set is2"
    "t2 = a2\<lparr>next_reg_id := j, att_notify_list := att_notify_list a2 @ ns\<rparr>"
    "map (\<lambda>n. (an_opcode n, an_callback n)) ns = map (\<lambda>h. (fst h, Some (snd h))) hs" by blast
  have "(ok, is, t) = (ok2, i # is2, t2)" using Cons.prems(2) r r2 i by simp
  then show ?case using ih i
    by (auto simp: a2_def n_def intro!: exI [of _ j] exI [of _ "n # ns"])
qed

lemma opcode_match_nz: "opcode \<noteq> 0 \<Longrightarrow> opcode_match opcode test_opcode = (opcode = test_opcode)"
  by (simp add: opcode_match_def)

lemma map_callback_filter:
  "map an_callback (filter (\<lambda>n. P (an_opcode n)) ns) =
     map snd (filter (\<lambda>x. P (fst x)) (map (\<lambda>n. (an_opcode n, an_callback n)) ns))"
  by (induction ns) auto

lemma att_handlers_match:
  "h \<in> set att_handlers \<Longrightarrow>
     map snd (filter (\<lambda>x. opcode_match (fst x) (fst h)) (map (\<lambda>h. (fst h, Some (snd h))) att_handlers)) = [Some (snd h)]"
  by (auto simp: att_handlers_def req_opcode_defs opcode_match_nz)

lemma serving_registered:
  assumes "map (\<lambda>n. (an_opcode n, an_callback n)) (att_notify_list (srv_att srv)) = map (\<lambda>h. (fst h, Some (snd h))) att_handlers"
  shows "serving srv"
  unfolding serving_def
proof
  fix h :: "u8 \<times> 'a fn" assume "h \<in> set att_handlers"
  from att_handlers_match [OF this]
  show "map an_callback (filter (\<lambda>n. opcode_match (an_opcode n) (fst h)) (att_notify_list (srv_att srv))) = [Some (snd h)]"
    unfolding map_callback_filter [where P = "\<lambda>c. opcode_match c (fst h)"] assms .
qed

lemma server_new:
  assumes "db_wf db" "att_wf att" "att_io att" "att_notify_list att = []"
  shows "\<exists>srv. bt_gatt_server_new (Some db) (Some att) mtu = Some srv \<and> srv_ok srv \<and> serving srv \<and>
    srv_db srv = db\<lparr>ref_count := ref_count db + 1\<rparr> \<and> srv_mtu srv = max mtu BT_ATT_DEFAULT_LE_MTU \<and>
    length (handler_ids srv) = 12 \<and> 0 \<notin> set (handler_ids srv) \<and> prep_queue srv = [] \<and>
    in_req (srv_att srv) = in_req att \<and> att_mtu (srv_att srv) = att_mtu att \<and> write_queue (srv_att srv) = write_queue att \<and>
    pending_read_op srv = None \<and> pending_write_op srv = None \<and> max_prep_queue_len srv = DEFAULT_MAX_PREP_QUEUE_LEN"
proof -
  let ?t = "att\<lparr>att_ref_count := att_ref_count att + 1\<rparr>"
  obtain ok "is" t where r: "register_handlers att_handlers ?t = (ok, is, t)" by (rule prod_cases3)
  have "att_io ?t" using assms(3) by simp
  from register_handlers_ok [OF this r] obtain i ns where
    ok: "ok" "length is = length (att_handlers :: (u8 \<times> 'a fn) list)" "0 \<notin> set is"
      "t = ?t\<lparr>next_reg_id := i, att_notify_list := att_notify_list ?t @ ns\<rparr>"
      "map (\<lambda>n. (an_opcode n, an_callback n)) ns = map (\<lambda>h. (fst h, Some (snd h))) att_handlers" by blast
  define srv where "srv = \<lparr>srv_db = db\<lparr>ref_count := ref_count db + 1\<rparr>, srv_att = t, srv_ref_count = 1,
    srv_mtu = max mtu BT_ATT_DEFAULT_LE_MTU, handler_ids = is, prep_queue = [], max_prep_queue_len = DEFAULT_MAX_PREP_QUEUE_LEN,
    pending_read_op = None, pending_write_op = None, srv_debug_callback = None, srv_debug_destroy = None, srv_debug_data = None\<rparr>"
  have new: "bt_gatt_server_new (Some db) (Some att) mtu = Some srv"
    using r ok(1) by (simp add: bt_gatt_server_new_def gatt_db_ref_def bt_att_ref_def Let_def
      gatt_server_register_att_handlers_def bt_gatt_server_ref_def srv_def)
  have "att_wf t" "att_io t" using assms(2,3) unfolding ok(4) by (simp_all add: att_wf_defs)
  moreover have "db_wf (db\<lparr>ref_count := ref_count db + 1\<rparr>)" using assms(1) by (simp add: db_wf_def)
  ultimately have "srv_ok srv" by (simp add: srv_def srv_ok_def)
  moreover have "serving srv" using ok(4,5) assms(4) by (intro serving_registered) (simp add: srv_def)
  moreover have "srv_db srv = db\<lparr>ref_count := ref_count db + 1\<rparr>" "srv_mtu srv = max mtu BT_ATT_DEFAULT_LE_MTU"
    "length (handler_ids srv) = 12" "0 \<notin> set (handler_ids srv)" "prep_queue srv = []"
    "pending_read_op srv = None" "pending_write_op srv = None" "max_prep_queue_len srv = DEFAULT_MAX_PREP_QUEUE_LEN"
    "in_req (srv_att srv) = in_req att"
    "att_mtu (srv_att srv) = att_mtu att" "write_queue (srv_att srv) = write_queue att"
    using ok(2-4) by (simp_all add: srv_def att_handlers_def)
  ultimately show ?thesis using new by blast
qed

text \<open>A server of a database with one characteristic on a new connection.\<close>

lemma db_run_wf: "db_wf db \<and> notify_ok db \<Longrightarrow> db_run db ops = Some db' \<Longrightarrow> db_wf db' \<and> notify_ok db'"
proof (induction ops arbitrary: db)
  case (Cons oper ops)
  then obtain db1 es where "op_ok db oper" "db_step db oper = Some (db1, es)" "db_run db1 ops = Some db'"
    by (auto simp: bind_eq_Some_conv split: if_splits)
  with Cons step_safe [of db oper] show ?case by auto
qed simp

definition srv_example_env :: "nat srv_env" where
  "srv_example_env =
     \<lparr>e_mem = True, e_write_handler = True, e_send = (\<lambda>bs. int (length bs)), e_timeout = 7, e_security = 1,
      e_set_security = True, e_sign = (\<lambda>key msg c. Some (replicate 12 0)), e_counter = (\<lambda>f u c. Some 1),
      e_junk = (\<lambda>_. 0)\<rparr>"

definition srv_example_ops :: "nat fn dbop list" where
  "srv_example_ops =
     [Add_service True (BT_UUID16 0x1800) True 6,
      Add_characteristic True (Some (1, 0)) (BT_UUID16 0x2A00) 3 10 None None None,
      Add_characteristic True (Some (1, 0)) (BT_UUID16 0x2A01) 3 10 (Some (App 5)) (Some (App 6)) None,
      Write True (\<lambda>_. 0) 7 (Some (1, 2)) 0 [10, 20, 30] 0x12 None (Some (App 1)) None,
      Set_active (Some (1, 0)) True]"

lemmas srv_example_exec = gatt_db_exec srv_example_ops_def BT_ATT_PERM_READ_def gatt_db_attribute_write_def store_value_def
  realloc_bytes_def buf_write_def

definition srv_example_db :: "nat fn gatt_db" where
  "srv_example_db = the (db_run (the gatt_db_new) srv_example_ops)"

definition srv_example_att :: "nat fn bt_att" where
  "srv_example_att = the (bt_att_new srv_example_env 3 True True False True 1 0)"

definition srv_example :: "nat bt_gatt_server" where
  "srv_example = the (bt_gatt_server_new (Some srv_example_db) (Some srv_example_att) 64)"

lemma srv_example_db_eval: "db_run (the gatt_db_new) srv_example_ops = Some srv_example_db"
  unfolding srv_example_db_def by (simp add: srv_example_exec)

lemma srv_example_db_wf: "db_wf srv_example_db"
proof -
  have "gatt_db_new = Some (the gatt_db_new :: nat fn gatt_db)" by (simp add: gatt_db_new_def gatt_db_ref_def)
  from db_run_wf [OF new_db_wf [OF this] srv_example_db_eval] show ?thesis by blast
qed

lemma srv_example_new_att: "bt_att_new srv_example_env 3 True True False True 1 0 = Some srv_example_att"
  by (simp add: srv_example_att_def bt_att_new_def bt_att_ref_def srv_example_env_def BT_ATT_DEFAULT_LE_MTU_def)

lemma srv_example_att_facts:
  "att_wf srv_example_att" "att_io srv_example_att" "att_notify_list srv_example_att = []" "\<not> in_req srv_example_att"
  "att_mtu srv_example_att = 23" "write_queue srv_example_att = []"
  using new_wf [OF srv_example_new_att]
  by (simp_all add: srv_example_att_def bt_att_new_def bt_att_ref_def srv_example_env_def BT_ATT_DEFAULT_LE_MTU_def)

lemma srv_example_facts:
  "bt_gatt_server_new (Some srv_example_db) (Some srv_example_att) 64 = Some srv_example"
  "srv_ok srv_example" "serving srv_example" "prep_queue srv_example = []" "\<not> in_req (srv_att srv_example)"
  "att_mtu (srv_att srv_example) = 23" "write_queue (srv_att srv_example) = []" "e_mem srv_example_env"
  "pending_read_op srv_example = None" "max_prep_queue_len srv_example = 30"
  using server_new [OF srv_example_db_wf srv_example_att_facts(1-3), of 64] srv_example_att_facts
  by (auto simp: srv_example_def srv_example_env_def DEFAULT_MAX_PREP_QUEUE_LEN_def)

section \<open>Requests and completions\<close>

text \<open>
  C1: every request a client may send is answered, but for one.  Let a request arrive on a server in a
  good state.  If it is a prepared write that is permitted, continues the last one of the queue and
  makes it 65536 bytes or longer, the handler writes outside its memory (\<open>None\<close>).  Every other
  request is handled without a fault: it leaves the server in a good state and either queues exactly one
  response, which fits the MTU and is the response to that request or an error response that names
  it, or hands the request to one function of the application.  In the second case the server waits for
  the completion and can take it, except for a read of several attributes, whose data are on the stack of
  the handler, so that nothing is kept to complete it from.
\<close>

theorem server_answers:
  assumes "ready env srv pdu" "(opcode, f) \<in> set att_handlers" "opcode \<noteq> BT_ATT_OP_WRITE_CMD"
  shows "if opcode = BT_ATT_OP_PREP_WRITE_REQ \<and> prep_overflows env srv pdu
    then srv_receive env srv (Some (opcode # pdu)) = None
    else \<exists>srv' ds es. srv_receive env srv (Some (opcode # pdu)) = Some (srv', ds, es) \<and> srv_ok srv' \<and> serving srv' \<and>
      (queued_response opcode (srv_att srv) (srv_att srv') \<or>
       write_queue (srv_att srv') = write_queue (srv_att srv) \<and> (\<exists>e. ds = [e] \<and> handed_over e) \<and>
       (opcode = BT_ATT_OP_READ_MULT_REQ \<or> (\<exists>f. awaits srv' f opcode \<and> completable srv' f)))"
proof (cases "opcode = BT_ATT_OP_PREP_WRITE_REQ \<and> prep_overflows env srv pdu")
  case True
  let ?s = "srv\<lparr>srv_att := srv_att srv\<lparr>in_req := True\<rparr>\<rparr>"
  have "length pdu < 65536" using assms(1) unat_u16_less [of "att_mtu (srv_att srv)"] by (simp add: ready_def del: unat_u16_less)
  then have "prep_write_cb env ?s BT_ATT_OP_PREP_WRITE_REQ pdu = None"
    using assms(1) True by (intro prep_write_faults) (simp_all add: ready_def srv_ok_in_req)
  then show ?thesis using True prep_req.receive [OF assms(1)] by auto
next
  case False
  from assms(2,3) consider "opcode = BT_ATT_OP_MTU_REQ" | "opcode = BT_ATT_OP_READ_BY_GRP_TYPE_REQ"
    | "opcode = BT_ATT_OP_READ_BY_TYPE_REQ" | "opcode = BT_ATT_OP_FIND_INFO_REQ" | "opcode = BT_ATT_OP_FIND_BY_TYPE_REQ"
    | "opcode = BT_ATT_OP_WRITE_REQ" | "opcode = BT_ATT_OP_READ_REQ" | "opcode = BT_ATT_OP_READ_BLOB_REQ"
    | "opcode = BT_ATT_OP_READ_MULT_REQ" | "opcode = BT_ATT_OP_PREP_WRITE_REQ" | "opcode = BT_ATT_OP_EXEC_WRITE_REQ"
    unfolding att_handlers_def by auto
  then show ?thesis unfolding if_not_P [OF False] using False
    by cases (simp_all only: not_False_eq_True mtu_req.receive_answers [OF assms(1)] grp_req.receive_answers [OF assms(1)]
      type_req.receive_answers [OF assms(1)] info_req.receive_answers [OF assms(1)] value_req.receive_answers [OF assms(1)]
      write_req.receive_answers [OF assms(1)] read_req.receive_answers [OF assms(1)] blob_req.receive_answers [OF assms(1)]
      multi_req.receive_answers [OF assms(1)] prep_req.receive_answers [OF assms(1)] exec_req.receive_answers [OF assms(1)])
qed

text \<open>Witness of \<open>server_answers\<close>: a read of the first characteristic of the example.\<close>

theorem server_answers_witness:
  "\<exists>srv' ds es. srv_receive srv_example_env srv_example (Some (BT_ATT_OP_READ_REQ # [3, 0])) = Some (srv', ds, es) \<and>
     srv_ok srv'"
proof -
  have "ready srv_example_env srv_example [3, 0]"
    using srv_example_facts by (simp add: ready_def)
  from server_answers [OF this, of BT_ATT_OP_READ_REQ Read_cb] show ?thesis
    by (auto simp: att_handlers_def req_opcode_defs)
qed

text \<open>
  A server made for a well-formed database and a new connection registers its twelve handlers,
  is in a good state, and the connection dispatches each of its opcodes to its handler and to no
  other; its MTU is never below the default.
\<close>

theorem server_new_serves:
  assumes "db_wf db" "bt_att_new env fd ext handlers cr l2cap link m = Some att"
  shows "\<exists>srv. bt_gatt_server_new (Some db) (Some att) mtu = Some srv \<and> srv_ok srv \<and> serving srv \<and>
    length (handler_ids srv) = 12 \<and> 0 \<notin> set (handler_ids srv) \<and> 23 \<le> unat (srv_mtu srv) \<and>
    \<not> in_req (srv_att srv) \<and> prep_queue srv = []"
proof -
  have "att_notify_list att = []"
    using assms(2) by (auto simp: bt_att_new_def bt_att_ref_def Let_def split: if_splits)
  from server_new [OF assms(1) new_wf(1) [OF assms(2)] new_wf(6) [OF assms(2)] this, of mtu] new_wf(5) [OF assms(2)]
  show ?thesis by (fastforce simp: BT_ATT_DEFAULT_LE_MTU_def max_def word_le_nat_alt)
qed

text \<open>Witness of \<open>server_new_serves\<close>: the example server.\<close>

theorem server_new_serves_witness:
  "\<exists>srv. bt_gatt_server_new (Some srv_example_db) (Some srv_example_att) 64 = Some srv \<and> serving srv"
  using server_new_serves [OF srv_example_db_wf srv_example_new_att, of 64] by blast

text \<open>
  C17: a completion answers.  When the application reports the result of a read or a write the server
  waits for, the server queues exactly one response to the original request, or, when attributes
  of a read by type or prepared writes are left, asks the application for the next and waits again.
  For a read by type this needs two things the code does not ensure while it waits: the MTU has not
  grown beyond the buffer of the response, which is allocated for the MTU at the time of the request, and
  the attributes still to be read have not been removed.
\<close>

theorem completion_answers:
  assumes "srv_ok srv" "e_mem env" "awaits srv f opcode" "db_attr (srv_db srv) q = Some a"
    "e = (if f = Read_complete_cb \<or> f = Read_by_type_read_complete_cb then Read_done f q err val ud
          else Write_done f q err ud)"
    "completable srv f"
  shows "answers opcode (srv_att srv) (db_done env srv e)"
proof -
  from assms(3) consider "f = Read_complete_cb" | "f = Read_by_type_read_complete_cb" | "f = Write_complete_cb"
    | "f = Exec_write_complete_cb" by (cases f) (auto simp: awaits_def)
  then show ?thesis
  proof cases
    case 1
    then show ?thesis using assms read_complete_responds [of srv env "srv_att srv" _ q a err val]
      by (auto simp: db_done_def awaits_def answersI(1) split: option.splits)
  next
    case 2
    then obtain oper where o: "pending_read_op srv = Some oper" "opcode = BT_ATT_OP_READ_BY_TYPE_REQ"
      "rop_ok (att_mtu (srv_att srv)) oper" "valid (srv_db srv) (ro_db_data oper)"
      using assms(3,6) by (auto simp: awaits_def completable_def split: option.splits)
    obtain oper' where enc: "encode_read_by_type (att_mtu (srv_att srv)) (a_handle a) oper (case val of None \<Rightarrow> [] | Some v \<Rightarrow> v) = Some oper'"
      "rop_ok (att_mtu (srv_att srv)) oper'" using encode_read_by_type_ok [OF o(3) srv_ok_mtu [OF assms(1)]] by blast
    have "ro_db_data oper' = ro_db_data oper" using enc(1) by (rule encode_read_by_type_data)
    then have "answers opcode (srv_att srv) (process_read_by_type env srv oper')"
      using read_by_type_loop_answers [OF assms(1,2) refl _ enc(2), of "ro_db_data oper'"] o(2,4) by (simp add: process_read_by_type_def)
    then show ?thesis using 2 assms(5) o enc(1) destroy_responds(1) [OF srv_error_responds [OF assms(1,2) refl req_opcodes(4)]]
      by (simp add: db_done_def read_by_type_read_complete_cb_def get_handle_valid(1) [OF assms(4)] answersI(1))
  next
    case 3
    then show ?thesis using assms write_complete_responds [of srv env "srv_att srv" _ q a err]
      by (auto simp: db_done_def awaits_def answersI(1) split: option.splits)
  next
    case 4
    then show ?thesis using assms exec_next_answers [OF assms(1,2) refl]
      by (simp add: db_done_def awaits_def exec_write_complete_cb_def get_handle_valid(1) [OF assms(4)])
  qed
qed

text \<open>The two characteristic values of the example: one kept in the database, one of the application.\<close>

definition srv_example_attr ::
    "u16 \<Rightarrow> u16 \<Rightarrow> bytes option \<Rightarrow> nat fn option \<Rightarrow> nat fn option \<Rightarrow> nat fn gatt_db_attribute" where
  "srv_example_attr h u v r w =
     \<lparr>a_service = 1, a_handle = h, a_uuid = BT_UUID16 u, a_permissions = 3,
      a_value_len = (case v of None \<Rightarrow> 0 | Some v \<Rightarrow> of_nat (length v)), a_value = v,
      a_read_func = r, a_write_func = w, a_user_data = None, a_read_id = 0, a_pending_reads = [], a_write_id = 0,
      a_pending_writes = []\<rparr>"

lemma srv_example_db: "srv_db srv_example = srv_example_db\<lparr>ref_count := ref_count srv_example_db + 1\<rparr>"
  using server_new [OF srv_example_db_wf srv_example_att_facts(1-3), of 64] by (auto simp: srv_example_def)

lemma srv_example_attrs:
  "db_attr (srv_db srv_example) (1, 2) = Some (srv_example_attr 3 0x2A00 (Some [10, 20, 30]) None None)"
  "db_attr (srv_db srv_example) (1, 4) = Some (srv_example_attr 5 0x2A01 None (Some (App 5)) (Some (App 6)))"
  unfolding srv_example_db srv_example_db_def
  by (simp_all add: srv_example_exec srv_example_attr_def)

text \<open>Witness of \<open>completion_answers\<close>: the application reports the value of the second characteristic.\<close>

theorem completion_answers_witness:
  "answers BT_ATT_OP_READ_REQ (srv_att srv_example)
     (db_done srv_example_env
        (srv_example\<lparr>pending_read_op := Some \<lparr>ro_opcode = BT_ATT_OP_READ_REQ, ro_done = False, ro_pdu = [], ro_pdu_len = 0,
           ro_value_len = 0, ro_db_data = []\<rparr>\<rparr>)
        (Read_done Read_complete_cb (1, 4) 0 (Some [1, 2, 3]) (Some Op_ptr)))"
  (is "answers _ _ (db_done _ ?s _)")
proof -
  have "srv_ok ?s" "awaits ?s Read_complete_cb BT_ATT_OP_READ_REQ" "db_attr (srv_db ?s) (1, 4) \<noteq> None" "completable ?s Read_complete_cb"
    using srv_example_facts(2) srv_example_attrs(2) by (simp_all add: awaits_def completable_def)
  then show ?thesis
    using completion_answers [of ?s srv_example_env Read_complete_cb BT_ATT_OP_READ_REQ "(1, 4)" _
        "Read_done Read_complete_cb (1, 4) 0 (Some [1, 2, 3]) (Some Op_ptr)" 0 "Some [1, 2, 3]" "Some Op_ptr"]
      srv_example_facts(8) by auto
qed

section \<open>What a request does\<close>

text \<open>The server sends the PDU \<open>p\<close> and is otherwise as before.\<close>

definition sent :: "'c bt_gatt_server \<Rightarrow> bytes \<Rightarrow> 'c bt_gatt_server \<Rightarrow> bool" where
  "sent srv p srv' \<longleftrightarrow> srv_ok srv' \<and>
     (\<exists>att' oper. srv' = srv\<lparr>srv_att := att'\<rparr> \<and> write_queue att' = write_queue (srv_att srv) @ [oper] \<and> op_pdu oper = p \<and>
        att_mtu att' = att_mtu (srv_att srv) \<and> io_on_l2cap att' = io_on_l2cap (srv_att srv) \<and>
        io_sec_level att' = io_sec_level (srv_att srv))"

lemma wakeup_frame [simp]:
  "io_on_l2cap (wakeup_writer env att) = io_on_l2cap att" "io_sec_level (wakeup_writer env att) = io_sec_level att"
  by (simp_all add: wakeup_writer_def)

lemma send_frame:
  assumes "bt_att_send env (Some att) opcode pdu len f ud d = Some (i, Some att')"
  shows "io_on_l2cap att' = io_on_l2cap att \<and> io_sec_level att' = io_sec_level att"
proof (cases "create_att_send_op env att opcode pdu len f ud d")
  case None
  then show ?thesis using assms by (auto simp: bt_att_send_def split: if_splits)
next
  case (Some r)
  then show ?thesis using assms
    by (cases r; cases "op_type (the r)") (auto simp: bt_att_send_def Let_def split: if_splits)
qed

lemma send_sent:
  assumes "srv_ok srv" "e_mem env" "get_op_type rop = ATT_OP_TYPE_RSP" "rop AND ATT_OP_SIGNED_MASK = 0"
    "src_bytes pdu len = Some v" "unat len < unat (att_mtu (srv_att srv))"
  shows "\<exists>i att'. bt_att_send env (Some (srv_att srv)) rop pdu len None None None = Some (i, Some att') \<and>
    sent srv (rop # v) (srv\<lparr>srv_att := att'\<rparr>)"
proof -
  have ok: "att_wf (srv_att srv)" "att_io (srv_att srv)" using assms(1) by (auto simp: srv_ok_def)
  from att_send_queues [OF ok assms(2-6)] obtain i att' oper where
    s: "bt_att_send env (Some (srv_att srv)) rop pdu len None None None = Some (i, Some att')"
      "att_wf att'" "att_io att'" "att_mtu att' = att_mtu (srv_att srv)" "write_queue att' = write_queue (srv_att srv) @ [oper]"
      "op_pdu oper = rop # v" by blast
  have "srv_ok (srv\<lparr>srv_att := att'\<rparr>)" using assms(1) s(2,3) by (simp add: srv_ok_def)
  then show ?thesis using s send_frame [OF s(1)] unfolding sent_def by blast
qed

lemma srv_send_sent:
  assumes "srv_ok srv" "e_mem env" "response_opcode opcode rop" "n < unat (att_mtu (srv_att srv))"
    "n = 0 \<and> v = [] \<or> (\<exists>p. pdu = Some p \<and> n \<le> length p \<and> v = take n p)"
  shows "\<exists>srv'. srv_send env srv rop pdu n = Some (srv', []) \<and> sent srv (rop # v) srv'"
proof -
  have n: "n < 65536" using assms(4) unat_u16_less [of "att_mtu (srv_att srv)"] by linarith
  have v: "src_bytes pdu (of_nat n) = Some v" using assms(5) src_bytes_take [OF n] by auto
  have "unat (of_nat n :: u16) < unat (att_mtu (srv_att srv))" using n assms(4) by (simp add: unat_of_nat_less)
  from send_sent [OF assms(1,2) _ _ v this, of rop] assms(3) show ?thesis
    by (auto simp: response_opcode_def srv_send_def)
qed

lemma srv_ecode_sent:
  assumes "srv_ok srv" "e_mem env" "opcode \<noteq> 0"
  shows "\<exists>srv'. srv_error env srv opcode h err = Some (srv', []) \<and>
    sent srv ([BT_ATT_OP_ERROR_RSP, opcode] @ put_le16 h @ [att_ecode_from_error err]) srv'"
proof -
  let ?p = "[opcode] @ put_le16 h @ [att_ecode_from_error err]"
  have "src_bytes (Some ?p) 4 = Some ?p" using src_bytes_take [of 4 ?p] by (simp add: put_le16_def)
  moreover have "unat (4 :: u16) < unat (att_mtu (srv_att srv))" using srv_ok_mtu [OF assms(1)] by simp
  moreover have "get_op_type BT_ATT_OP_ERROR_RSP = ATT_OP_TYPE_RSP" "BT_ATT_OP_ERROR_RSP AND ATT_OP_SIGNED_MASK = 0"
    by (simp_all add: opcode_eval ATT_OP_SIGNED_MASK_def)
  ultimately obtain i att' where "bt_att_send env (Some (srv_att srv)) BT_ATT_OP_ERROR_RSP (Some ?p) 4 None None None = Some (i, Some att')"
    "sent srv (BT_ATT_OP_ERROR_RSP # ?p) (srv\<lparr>srv_att := att'\<rparr>)" using send_sent [OF assms(1,2)] by blast
  then show ?thesis using assms(3) by (auto simp: srv_error_def bt_att_send_error_rsp_def Let_def put_le16_def)
qed

text \<open>
  The MTU exchange.  The client learns the server's MTU; from then on both the connection and the
  server use the smaller of the two MTUs, but never less than the default of 23.
\<close>

theorem mtu_exchange:
  assumes "srv_ok srv" "e_mem env"
  shows "\<exists>srv1 srv'. exchange_mtu_cb env srv BT_ATT_OP_MTU_REQ (put_le16 client_mtu) = Some (srv', []) \<and>
    sent srv (BT_ATT_OP_MTU_RSP # put_le16 (srv_mtu srv)) srv1 \<and>
    write_queue (srv_att srv') = write_queue (srv_att srv1) \<and> srv_ok srv' \<and>
    att_mtu (srv_att srv') = srv_mtu srv' \<and>
    unat (srv_mtu srv') = max (min (unat client_mtu) (unat (srv_mtu srv))) 23"
proof -
  let ?f = "max (min client_mtu (srv_mtu srv)) BT_ATT_DEFAULT_LE_MTU"
  have "(2 :: nat) < unat (att_mtu (srv_att srv))" using srv_ok_mtu [OF assms(1)] by simp
  from srv_send_sent [OF assms response_opcodes(1) this, of "put_le16 (srv_mtu srv)" "Some (put_le16 (srv_mtu srv))"]
  obtain srv1 where s: "srv_send env srv BT_ATT_OP_MTU_RSP (Some (put_le16 (srv_mtu srv))) 2 = Some (srv1, [])"
    "sent srv (BT_ATT_OP_MTU_RSP # put_le16 (srv_mtu srv)) srv1" by auto
  let ?s = "srv1\<lparr>srv_mtu := ?f, srv_att := srv_att srv1\<lparr>att_mtu := ?f\<rparr>\<rparr>"
  have "snd (bt_att_set_mtu env (Some (srv_att srv1)) ?f) = Some (srv_att srv1\<lparr>att_mtu := ?f\<rparr>)"
    using assms(2) by (auto simp: bt_att_set_mtu_def max_def)
  then have r: "exchange_mtu_cb env srv BT_ATT_OP_MTU_REQ (put_le16 client_mtu) = Some (?s, [])"
    using s(1) by (simp add: exchange_mtu_cb_def Let_def)
  have "srv_ok ?s" using s(2) by (auto simp: sent_def srv_ok_def att_wf_defs)
  moreover have "unat ?f = max (min (unat client_mtu) (unat (srv_mtu srv))) 23"
    by (auto simp: max_def min_def BT_ATT_DEFAULT_LE_MTU_def word_le_nat_alt)
  ultimately show ?thesis using r s(2) by (intro exI [of _ srv1] exI [of _ ?s]) auto
qed

text \<open>Witness of \<open>mtu_exchange\<close>: a client with an MTU of 48 on the example server.\<close>

theorem mtu_exchange_witness:
  "\<exists>srv'. exchange_mtu_cb srv_example_env srv_example BT_ATT_OP_MTU_REQ (put_le16 48) = Some (srv', []) \<and>
     att_mtu (srv_att srv') = srv_mtu srv' \<and> srv_ok srv'"
  using mtu_exchange [OF srv_example_facts(2,8), of 48] by blast

end
