(* ===== verification/Gatt_Server_Access.thy ===== *)
theory Gatt_Server_Access
  imports Gatt_Server_Props
begin

text \<open>
  What a client reads and writes through the GATT server: reads of values kept in the database, long
  writes made of prepared writes, the permissions of an attribute, and the places where
  \<^verbatim>\<open>src/shared/gatt-server.c\<close> does not do what it means to.
\<close>

section \<open>Reads\<close>

lemma sent_read_op:
  assumes "pending_read_op srv = None" "sent (srv\<lparr>pending_read_op := x\<rparr>) p s'"
  shows "sent srv p (async_read_op_destroy s')"
proof -
  obtain att' oper where a: "s' = srv\<lparr>pending_read_op := x, srv_att := att'\<rparr>" "write_queue att' = write_queue (srv_att srv) @ [oper]"
    "op_pdu oper = p" "att_mtu att' = att_mtu (srv_att srv)" "io_on_l2cap att' = io_on_l2cap (srv_att srv)"
    "io_sec_level att' = io_sec_level (srv_att srv)" "srv_ok s'" using assms(2) by (auto simp: sent_def)
  have "async_read_op_destroy s' = srv\<lparr>srv_att := att'\<rparr>"
    using assms(1) a(1) by (cases srv) (simp add: async_read_op_destroy_def)
  moreover have "srv_ok (async_read_op_destroy s')" using a(7) by simp
  ultimately show ?thesis using a(2-6) unfolding sent_def by blast
qed

lemma read_any:
  assumes "attr_ok q a" "db_attr db q = Some a" "a_read_func a = None"
  shows "unat off \<le> length (stored a) \<Longrightarrow> \<exists>val. gatt_db_attribute_read tid db (Some q) off opc att (Some f) ud =
      Some (True, db, [Read_done f q 0 val ud]) \<and> (case val of None \<Rightarrow> [] | Some v \<Rightarrow> v) = drop (unat off) (stored a)"
    "\<not> unat off \<le> length (stored a) \<Longrightarrow> gatt_db_attribute_read tid db (Some q) off opc att (Some f) ud =
      Some (True, db, [Read_done f q (int (unat BT_ATT_ERROR_INVALID_OFFSET)) None ud])"
proof -
  have len: "length (stored a) = unat (a_value_len a)" using length_stored [OF assms(1)] .
  show "\<exists>val. gatt_db_attribute_read tid db (Some q) off opc att (Some f) ud = Some (True, db, [Read_done f q 0 val ud]) \<and>
      (case val of None \<Rightarrow> [] | Some v \<Rightarrow> v) = drop (unat off) (stored a)" if "unat off \<le> length (stored a)"
  proof (cases "off = a_value_len a")
    case True
    then show ?thesis using assms(2,3) len by (simp add: gatt_db_attribute_read_def)
  next
    case False
    then have "off < a_value_len a" using that len by (simp add: word_less_nat_alt word_unat_eq_iff)
    from read_stored [OF assms(1,3) this assms(2)] show ?thesis by simp
  qed
  show "gatt_db_attribute_read tid db (Some q) off opc att (Some f) ud =
      Some (True, db, [Read_done f q (int (unat BT_ATT_ERROR_INVALID_OFFSET)) None ud])" if "\<not> unat off \<le> length (stored a)"
    using that assms(2,3) len by (simp add: gatt_db_attribute_read_def word_less_nat_alt)
qed

text \<open>The completion of a read blob request that the database answered.\<close>

lemma read_blob_complete:
  assumes "srv_ok srv" "e_mem env" "pending_read_op srv = None" "db_attr (srv_db srv) q = Some a"
    "oper = \<lparr>ro_opcode = BT_ATT_OP_READ_BLOB_REQ, ro_done = False, ro_pdu = [], ro_pdu_len = 0, ro_value_len = 0, ro_db_data = []\<rparr>"
    "v = (case val of None \<Rightarrow> [] | Some v \<Rightarrow> v)"
  shows "\<exists>srv'. read_complete_cb env (srv\<lparr>pending_read_op := Some oper\<rparr>) q err val = Some (srv', []) \<and>
    sent srv (if err = 0 then BT_ATT_OP_READ_BLOB_RSP # take (unat (att_mtu (srv_att srv)) - 1) v
              else [BT_ATT_OP_ERROR_RSP, BT_ATT_OP_READ_BLOB_REQ] @ put_le16 (a_handle a) @ [att_ecode_from_error err]) srv'"
proof -
  let ?s = "srv\<lparr>pending_read_op := Some oper\<rparr>" and ?m = "unat (att_mtu (srv_att srv))"
  have mtu: "23 \<le> ?m" using srv_ok_mtu [OF assms(1)] .
  have s: "srv_ok ?s" using assms(1) by simp
  have n: "min (?m - 1) (length v) < unat (att_mtu (srv_att ?s))" using mtu by auto
  have rop: "get_read_rsp_opcode BT_ATT_OP_READ_BLOB_REQ = BT_ATT_OP_READ_BLOB_RSP"
    by (simp add: get_read_rsp_opcode_def BT_ATT_OP_READ_REQ_def BT_ATT_OP_READ_BLOB_REQ_def)
  have "\<exists>s'. srv_send env ?s BT_ATT_OP_READ_BLOB_RSP (if v = [] then None else Some v) (min (?m - 1) (length v)) = Some (s', []) \<and>
      sent ?s (BT_ATT_OP_READ_BLOB_RSP # take (?m - 1) v) s'"
    by (rule srv_send_sent [OF s assms(2) response_opcodes(6) n]) (auto simp: min_def)
  moreover have "\<exists>s'. srv_error env ?s BT_ATT_OP_READ_BLOB_REQ (a_handle a) err = Some (s', []) \<and>
      sent ?s ([BT_ATT_OP_ERROR_RSP, BT_ATT_OP_READ_BLOB_REQ] @ put_le16 (a_handle a) @ [att_ecode_from_error err]) s'"
    by (rule srv_ecode_sent [OF s assms(2) req_opcodes(6)])
  ultimately show ?thesis using sent_read_op [OF assms(3)] mtu_minus_simps(1) [OF mtu] assms(5,6) rop
    by (cases "err = 0") (fastforce simp: read_complete_cb_def get_handle_valid(1) [OF assms(4)] Let_def cong: if_cong split del: if_split)+
qed

text \<open>
  A client reads a value kept in the database.  For an attribute the client may read, a read blob
  request at an offset within the value is answered with the bytes from the offset on, as many as
  fit the MTU; an offset behind the value is answered with the error Invalid Offset, for that handle.
\<close>

theorem server_read_blob:
  assumes "srv_ok srv" "e_mem env" "gatt_db_get_attribute (Some (srv_db srv)) h = Some (Some q)"
    "db_attr (srv_db srv) q = Some a" "a_handle a = h" "a_read_func a = None" "check_permissions env srv q read_mask = Some 0"
    "pending_read_op srv = None"
  shows "\<exists>srv'. read_blob_cb env srv BT_ATT_OP_READ_BLOB_REQ (put_le16 h @ put_le16 off) = Some (srv', []) \<and>
    sent srv (if unat off \<le> length (stored a)
              then BT_ATT_OP_READ_BLOB_RSP # take (unat (att_mtu (srv_att srv)) - 1) (drop (unat off) (stored a))
              else [BT_ATT_OP_ERROR_RSP, BT_ATT_OP_READ_BLOB_REQ] @ put_le16 h @ [BT_ATT_ERROR_INVALID_OFFSET]) srv'"
proof -
  let ?op = "BT_ATT_OP_READ_BLOB_REQ"
  have ok: "attr_ok q a" using db_attr_ok [OF _ assms(4)] assms(1) by (simp add: srv_ok_def)
  note complete = read_blob_complete [OF assms(1,2,8,4) refl refl]
  have cb: "read_blob_cb env srv ?op (put_le16 h @ put_le16 off) = read_complete_cb env (srv\<lparr>pending_read_op := Some \<lparr>ro_opcode = ?op,
      ro_done = False, ro_pdu = [], ro_pdu_len = 0, ro_value_len = 0, ro_db_data = []\<rparr>\<rparr>) q err val"
    if "gatt_db_attribute_read (e_timeout env) (srv_db srv) (Some q) off ?op att_ptr (Some Read_complete_cb) (Some Op_ptr) =
      Some (True, srv_db srv, [Read_done Read_complete_cb q err val (Some Op_ptr)])" for err val
    using assms(3,7,8) that by (simp add: read_blob_cb_def handle_read_req_def Let_def)
  show ?thesis
  proof (cases "unat off \<le> length (stored a)")
    case True
    from read_any(1) [OF ok assms(4,6) True] obtain val where
      val: "gatt_db_attribute_read (e_timeout env) (srv_db srv) (Some q) off ?op att_ptr (Some Read_complete_cb) (Some Op_ptr) =
        Some (True, srv_db srv, [Read_done Read_complete_cb q 0 val (Some Op_ptr)])"
      "(case val of None \<Rightarrow> [] | Some v \<Rightarrow> v) = drop (unat off) (stored a)" by blast
    show ?thesis using complete [of 0 val] True val(2) by (simp add: cb [OF val(1)])
  next
    case False
    have "att_ecode_from_error (int (unat BT_ATT_ERROR_INVALID_OFFSET)) = BT_ATT_ERROR_INVALID_OFFSET"
      "int (unat BT_ATT_ERROR_INVALID_OFFSET) \<noteq> 0"
      by (simp_all add: att_ecode_from_error_def BT_ATT_ERROR_INVALID_OFFSET_def)
    with complete [of "int (unat BT_ATT_ERROR_INVALID_OFFSET)" None] show ?thesis
      using False assms(5) by (simp add: cb [OF read_any(2) [OF ok assms(4,6) False]])
  qed
qed

text \<open>Lookups and permissions in the example.\<close>

lemmas srv_lookup_exec = gatt_db_get_attribute_def gatt_db_get_service_def find_service_for_handle_def
  gatt_db_service_get_handles_def svc_start_def attr0_def svc_loop_def

lemma srv_example_get:
  "gatt_db_get_attribute (Some (srv_db srv_example)) 3 = Some (Some (1, 2))"
  "gatt_db_get_attribute (Some (srv_db srv_example)) 2 = Some (Some (1, 1))"
  unfolding srv_example_db srv_example_db_def
  by (simp_all add: srv_example_exec srv_lookup_exec)

lemmas perm_defs = BT_ATT_PERM_READ_SECURE_def BT_ATT_PERM_WRITE_SECURE_def read_mask_def write_mask_def BT_ATT_PERM_READ_def BT_ATT_PERM_WRITE_def BT_ATT_PERM_READ_AUTHEN_def
  BT_ATT_PERM_READ_ENCRYPT_def BT_ATT_PERM_WRITE_AUTHEN_def BT_ATT_PERM_WRITE_ENCRYPT_def BT_ATT_PERM_SECURE_def
  BT_ATT_PERM_AUTHEN_def BT_ATT_PERM_ENCRYPT_def

lemma srv_example_permissions:
  "check_permissions srv_example_env srv_example (1, 2) read_mask = Some 0"
  "check_permissions srv_example_env srv_example (1, 2) write_mask = Some 0"
  unfolding check_permissions_def gatt_db_attribute_get_permissions_def option.case srv_example_attrs bind.bind_lunit
  by (simp_all add: srv_example_attr_def perm_defs Let_def)

text \<open>Witness of \<open>server_read_blob\<close>: the first characteristic of the example from the second byte on.\<close>

theorem server_read_blob_witness:
  "\<exists>srv'. read_blob_cb srv_example_env srv_example BT_ATT_OP_READ_BLOB_REQ (put_le16 3 @ put_le16 1) = Some (srv', []) \<and>
     sent srv_example [BT_ATT_OP_READ_BLOB_RSP, 20, 30] srv'"
  using server_read_blob [OF srv_example_facts(2,8) srv_example_get(1) srv_example_attrs(1) _ _ srv_example_permissions(1)
      srv_example_facts(9), of 1]
  by (simp add: srv_example_attr_def stored_def srv_example_facts(6))

section \<open>Long writes\<close>

text \<open>A client sends the chunks of a value as prepared writes, one behind the other.\<close>

primrec prep_writes :: "'c srv_env \<Rightarrow> 'c bt_gatt_server \<Rightarrow> u16 \<Rightarrow> u16 \<Rightarrow> bytes list \<Rightarrow> 'c bt_gatt_server option" where
  "prep_writes env srv h off [] = Some srv"
| "prep_writes env srv h off (c # cs) = do {
     (srv, _) \<leftarrow> prep_write_cb env srv BT_ATT_OP_PREP_WRITE_REQ (put_le16 h @ put_le16 off @ c);
     prep_writes env srv h (off + of_nat (length c)) cs }"

definition may_write :: "'c srv_env \<Rightarrow> 'c bt_gatt_server \<Rightarrow> u16 \<Rightarrow> attr_ptr \<Rightarrow> bool" where
  "may_write env srv h q \<longleftrightarrow> gatt_db_get_attribute (Some (srv_db srv)) h = Some (Some q) \<and>
     check_permissions env srv q write_mask = Some 0"

lemma check_permissions_cong:
  assumes "srv_db s' = srv_db s" "io_on_l2cap (srv_att s') = io_on_l2cap (srv_att s)"
    "io_sec_level (srv_att s') = io_sec_level (srv_att s)"
  shows "check_permissions env s' q m = check_permissions env s q m"
proof -
  have sec: "bt_att_get_security env (Some (srv_att s')) = bt_att_get_security env (Some (srv_att s))"
    using assms(2,3) by (simp add: bt_att_get_security_def)
  show ?thesis unfolding check_permissions_def sec assms(1) ..
qed

lemma may_write_cong:
  "srv_db s' = srv_db s \<Longrightarrow> io_on_l2cap (srv_att s') = io_on_l2cap (srv_att s) \<Longrightarrow>
     io_sec_level (srv_att s') = io_sec_level (srv_att s) \<Longrightarrow> may_write env s' h q = may_write env s h q"
  using check_permissions_cong [of s' s env q write_mask] by (simp add: may_write_def)

text \<open>The state of a server between the prepared writes.\<close>

definition preparing :: "'c bt_gatt_server \<Rightarrow> prep_write_data list \<Rightarrow> nat \<Rightarrow> 'c bt_gatt_server \<Rightarrow> bool" where
  "preparing srv ps n srv' \<longleftrightarrow> srv_ok srv' \<and> prep_queue srv' = ps \<and> srv_db srv' = srv_db srv \<and>
     max_prep_queue_len srv' = max_prep_queue_len srv \<and> att_mtu (srv_att srv') = att_mtu (srv_att srv) \<and>
     io_on_l2cap (srv_att srv') = io_on_l2cap (srv_att srv) \<and> io_sec_level (srv_att srv') = io_sec_level (srv_att srv) \<and>
     length (write_queue (srv_att srv')) = length (write_queue (srv_att srv)) + n"

lemma preparing_trans: "preparing a ps n b \<Longrightarrow> preparing b qs m c \<Longrightarrow> preparing a qs (n + m) c"
  by (simp add: preparing_def)

lemma prep_write_stored:
  assumes "srv_ok srv" "e_mem env" "may_write env srv h q" "length (prep_queue srv) < max_prep_queue_len srv"
    "length c + 4 < unat (att_mtu (srv_att srv))"
    "store_prep_data env srv h off c = Some (True, srv\<lparr>prep_queue := ps\<rparr>, es)" "srv_ok (srv\<lparr>prep_queue := ps\<rparr>)"
  shows "\<exists>srv'. prep_write_cb env srv BT_ATT_OP_PREP_WRITE_REQ (put_le16 h @ put_le16 off @ c) = Some (srv', es) \<and>
    preparing srv ps 1 srv'"
proof -
  let ?s = "srv\<lparr>prep_queue := ps\<rparr>" and ?pdu = "put_le16 h @ put_le16 off @ c"
  have n: "length ?pdu < unat (att_mtu (srv_att ?s))" using assms(5) by simp
  have "\<exists>s'. srv_send env ?s BT_ATT_OP_PREP_WRITE_RSP (Some ?pdu) (length ?pdu) = Some (s', []) \<and>
      sent ?s (BT_ATT_OP_PREP_WRITE_RSP # ?pdu) s'"
    by (rule srv_send_sent [OF assms(7,2) response_opcodes(10) n]) simp
  then obtain s' where s': "srv_send env ?s BT_ATT_OP_PREP_WRITE_RSP (Some ?pdu) (length ?pdu) = Some (s', [])"
    "sent ?s (BT_ATT_OP_PREP_WRITE_RSP # ?pdu) s'" by blast
  have "drop 2 ?pdu = put_le16 off @ c" "drop 4 ?pdu = c" by (simp_all add: put_le16_def)
  then have "prep_write_cb env srv BT_ATT_OP_PREP_WRITE_REQ ?pdu = Some (s', es)"
    using assms(3,4,6) s'(1) by (simp add: prep_write_cb_def may_write_def Let_def)
  moreover have "preparing srv ps 1 s'" using s'(2) by (auto simp: sent_def preparing_def)
  ultimately show ?thesis by blast
qed

text \<open>A prepared write starts a new entry of the queue, or extends the last one.\<close>

lemma store_prep_first:
  assumes "e_mem env" "prep_queue srv = []" "is_reliable_write_supported env srv (h - 1) = Some (rel, srv_db srv, es)" "length c < 65536"
  shows "\<exists>p es1. store_prep_data env srv h off c = Some (True, srv\<lparr>prep_queue := [p]\<rparr>, es1) \<and> prep_ok p \<and>
    unat (pd_length p) = length c \<and> pd_value p = c \<and> pd_handle p = h \<and> pd_offset p = off"
proof -
  let ?p = "\<lparr>pd_value = [], pd_handle = 0, pd_offset = 0, pd_length = 0, pd_reliable_supported = False\<rparr>"
  have "prep_ok ?p" "unat (pd_length ?p) + length c < 65536" using assms(4) by (simp_all add: prep_ok_def)
  from append_prep_ok [OF this(1) assms(1) this(2)] obtain p0 where
    p0: "append_prep_data env ?p c = Some (True, p0)" "prep_ok p0" "unat (pd_length p0) = length c" "pd_value p0 = c" by auto
  define p1 where "p1 = p0\<lparr>pd_handle := h, pd_offset := off, pd_reliable_supported := rel\<rparr>"
  have "store_prep_data env srv h off c = Some (True, srv\<lparr>prep_queue := [p1]\<rparr>, filter (\<lambda>e. \<not> own_event e) es)"
    using assms(2,3) p0(1) by (simp add: store_prep_data_def prep_data_new_def Let_def p1_def)
  then show ?thesis using p0(2-4) by (intro exI [of _ p1]) (simp add: p1_def prep_ok_def)
qed

lemma store_prep_next:
  assumes "e_mem env" "prep_queue srv = [p]" "prep_ok p" "pd_handle p = h" "unat (pd_offset p) + unat (pd_length p) + length c < 65536"
  shows "\<exists>p'. store_prep_data env srv h (pd_offset p + pd_length p) c = Some (True, srv\<lparr>prep_queue := [p']\<rparr>, []) \<and> prep_ok p' \<and>
    unat (pd_length p') = unat (pd_length p) + length c \<and> pd_value p' = pd_value p @ c \<and> pd_handle p' = h \<and> pd_offset p' = pd_offset p"
proof -
  have "unat (pd_length p) + length c < 65536" using assms(5) by simp
  from append_prep_ok [OF assms(3,1) this] obtain p1 where
    p1: "append_prep_data env p c = Some (True, p1)" "prep_ok p1" "unat (pd_length p1) = unat (pd_length p) + length c"
      "pd_value p1 = pd_value p @ c" "pd_handle p1 = h" "pd_offset p1 = pd_offset p" using assms(4) by auto
  have "unat (pd_offset p + pd_length p) = unat (pd_length p) + unat (pd_offset p)"
    using assms(5) by (simp add: unat_word_ariths)
  then show ?thesis using p1 assms(2,4) by (intro exI [of _ p1]) (simp add: store_prep_data_def)
qed

lemma prep_end: "unat (pd_length p) = n \<Longrightarrow> pd_length p = of_nat n"
  by auto

lemma prep_writes_append:
  assumes "srv_ok srv" "e_mem env" "may_write env srv h q" "prep_queue srv = [p]" "pd_handle p = h" "1 < max_prep_queue_len srv"
    "\<forall>c \<in> set cs. length c + 4 < unat (att_mtu (srv_att srv))"
    "unat (pd_offset p) + unat (pd_length p) + length (concat cs) < 65536"
  shows "\<exists>srv' p'. prep_writes env srv h (pd_offset p + pd_length p) cs = Some srv' \<and> preparing srv [p'] (length cs) srv' \<and>
    prep_ok p' \<and> pd_value p' = pd_value p @ concat cs \<and> pd_handle p' = h \<and> pd_offset p' = pd_offset p"
  using assms(1,3-)
proof (induction cs arbitrary: srv p)
  case Nil
  then have "prep_ok p" by (simp add: srv_ok_def)
  then show ?case using Nil by (auto simp: preparing_def)
next
  case (Cons c cs)
  have p: "prep_ok p" using Cons.prems(1,3) by (simp add: srv_ok_def)
  have "unat (pd_offset p) + unat (pd_length p) + length c < 65536" using Cons.prems(7) by simp
  from store_prep_next [OF assms(2) Cons.prems(3) p Cons.prems(4) this] obtain p1 where
    st: "store_prep_data env srv h (pd_offset p + pd_length p) c = Some (True, srv\<lparr>prep_queue := [p1]\<rparr>, [])"
    and p1: "prep_ok p1" "unat (pd_length p1) = unat (pd_length p) + length c" "pd_value p1 = pd_value p @ c" "pd_handle p1 = h"
      "pd_offset p1 = pd_offset p" by blast
  have ok1: "srv_ok (srv\<lparr>prep_queue := [p1]\<rparr>)" using Cons.prems(1,5) p1(1) by (simp add: srv_ok_def)
  have "length (prep_queue srv) < max_prep_queue_len srv" "length c + 4 < unat (att_mtu (srv_att srv))"
    using Cons.prems(3,5,6) by simp_all
  from prep_write_stored [OF Cons.prems(1) assms(2) Cons.prems(2) this st ok1] obtain srv1 where
    s1: "prep_write_cb env srv BT_ATT_OP_PREP_WRITE_REQ (put_le16 h @ put_le16 (pd_offset p + pd_length p) @ c) = Some (srv1, [])"
      "preparing srv [p1] 1 srv1" by blast
  have nxt: "pd_offset p + pd_length p + of_nat (length c) = pd_offset p1 + pd_length p1"
    using prep_end [OF p1(2)] by (simp add: p1(5) add.assoc)
  have "may_write env srv1 h q" using Cons.prems(2) s1(2) may_write_cong [of srv1 srv env h q] by (simp add: preparing_def)
  moreover have "srv_ok srv1" "prep_queue srv1 = [p1]" "1 < max_prep_queue_len srv1"
    "\<forall>c \<in> set cs. length c + 4 < unat (att_mtu (srv_att srv1))"
    using s1(2) Cons.prems(5,6) by (simp_all add: preparing_def)
  moreover have "unat (pd_offset p1) + unat (pd_length p1) + length (concat cs) < 65536" using Cons.prems(7) p1(2,5) by simp
  ultimately obtain srv' p' where
    r: "prep_writes env srv1 h (pd_offset p1 + pd_length p1) cs = Some srv'" "preparing srv1 [p'] (length cs) srv'"
    "prep_ok p'" "pd_value p' = pd_value p1 @ concat cs" "pd_handle p' = h" "pd_offset p' = pd_offset p1"
    using Cons.IH [of srv1 p1] p1(4) by blast
  have "prep_writes env srv h (pd_offset p + pd_length p) (c # cs) = Some srv'" using s1(1) r(1) nxt by simp
  moreover have "preparing srv [p'] (length (c # cs)) srv'" using preparing_trans [OF s1(2) r(2)] by simp
  ultimately show ?case using r(3-) p1(3,5) by (intro exI [of _ srv'] exI [of _ p']) simp
qed

lemma prep_writes_ok:
  assumes "srv_ok srv" "e_mem env" "may_write env srv h q" "prep_queue srv = []" "1 < max_prep_queue_len srv"
    "is_reliable_write_supported env srv (h - 1) = Some (rel, srv_db srv, es)" "cs \<noteq> []"
    "\<forall>c \<in> set cs. length c + 4 < unat (att_mtu (srv_att srv))" "unat off + length (concat cs) < 65536"
  shows "\<exists>srv' p'. prep_writes env srv h off cs = Some srv' \<and> preparing srv [p'] (length cs) srv' \<and>
    prep_ok p' \<and> pd_value p' = concat cs \<and> pd_handle p' = h \<and> pd_offset p' = off"
proof -
  obtain c cs' where cs: "cs = c # cs'" using assms(7) by (cases cs) auto
  have "length c < 65536" using assms(9) by (simp add: cs)
  from store_prep_first [OF assms(2,4,6) this, of off] obtain p1 es0 where
    st: "store_prep_data env srv h off c = Some (True, srv\<lparr>prep_queue := [p1]\<rparr>, es0)"
    and p1: "prep_ok p1" "unat (pd_length p1) = length c" "pd_value p1 = c" "pd_handle p1 = h" "pd_offset p1 = off" by blast
  have ok1: "srv_ok (srv\<lparr>prep_queue := [p1]\<rparr>)" using assms(1,5) p1(1) by (simp add: srv_ok_def)
  have "length (prep_queue srv) < max_prep_queue_len srv" "length c + 4 < unat (att_mtu (srv_att srv))"
    using assms(4,5,8) by (simp_all add: cs)
  from prep_write_stored [OF assms(1-3) this st ok1] obtain srv1 es1 where
    s1: "prep_write_cb env srv BT_ATT_OP_PREP_WRITE_REQ (put_le16 h @ put_le16 off @ c) = Some (srv1, es1)"
      "preparing srv [p1] 1 srv1" by blast
  have nxt: "off + of_nat (length c) = pd_offset p1 + pd_length p1" using prep_end [OF p1(2)] by (simp add: p1(5))
  have "may_write env srv1 h q" using assms(3) s1(2) may_write_cong [of srv1 srv env h q] by (simp add: preparing_def)
  moreover have "srv_ok srv1" "prep_queue srv1 = [p1]" "1 < max_prep_queue_len srv1"
    "\<forall>c \<in> set cs'. length c + 4 < unat (att_mtu (srv_att srv1))"
    using s1(2) assms(5,8) by (simp_all add: preparing_def cs)
  moreover have "unat (pd_offset p1) + unat (pd_length p1) + length (concat cs') < 65536" using assms(9) p1(2,5) by (simp add: cs)
  ultimately obtain srv' p' where
    r: "prep_writes env srv1 h (pd_offset p1 + pd_length p1) cs' = Some srv'" "preparing srv1 [p'] (length cs') srv'"
    "prep_ok p'" "pd_value p' = pd_value p1 @ concat cs'" "pd_handle p' = h" "pd_offset p' = pd_offset p1"
    using prep_writes_append [OF _ assms(2), of srv1 h q p1 cs'] p1(4) by blast
  have "prep_writes env srv h off cs = Some srv'" using s1(1) r(1) nxt by (simp add: cs)
  moreover have "preparing srv [p'] (length cs) srv'" using preparing_trans [OF s1(2) r(2)] by (simp add: cs)
  ultimately show ?thesis using r(3-) p1(3,5) by (intro exI [of _ srv'] exI [of _ p']) (simp add: cs)
qed

text \<open>The execute write stores the one prepared write.\<close>

lemma exec_write_stores:
  assumes "srv_ok srv" "e_mem env" "may_write env srv h q" "db_attr (srv_db srv) q = Some a" "a_write_func a = None"
    "a_value a \<noteq> None \<Longrightarrow> length (the (a_value a)) = unat (a_value_len a)"
    "prep_queue srv = [p]" "pd_handle p = h" "pd_value p \<noteq> []" "unat (pd_offset p) + length (pd_value p) < 65536"
  shows "\<exists>db' a'. exec_write_cb env srv BT_ATT_OP_EXEC_WRITE_REQ [1] =
      srv_send env (srv\<lparr>srv_db := db', prep_queue := []\<rparr>) BT_ATT_OP_EXEC_WRITE_RSP None 0 \<and> db_wf db' \<and> db_attr db' q = Some a' \<and>
    stored a' = written (e_junk env) (stored a) (unat (pd_offset p)) (pd_value p)"
proof -
  have wf: "db_wf (srv_db srv)" and p: "prep_ok p" using assms(1,7) by (simp_all add: srv_ok_def)
  from store_value_stored [OF db_attr_ok [OF wf assms(4)] assms(9,10,6)] obtain a' where
    a': "store_value (e_junk env) a (unat (pd_offset p)) (pd_value p) = Some a'" "attr_ok q a'" "a_handle a' = a_handle a"
      "stored a' = written (e_junk env) (stored a) (unat (pd_offset p)) (pd_value p)" by blast
  from put_attr_wf [OF wf assms(4) a'(2,3)] obtain db' where db': "put_attr (srv_db srv) q a' = Some db'" "db_wf db'" by blast
  have at: "db_attr db' q = Some a'" using db_attr_put [OF db'(1), of q] by simp
  have "gatt_db_attribute_write (e_mem env) (e_junk env) (e_timeout env) (srv_db srv) (Some q) (pd_offset p)
      (take (unat (pd_length p)) (pd_value p)) BT_ATT_OP_EXEC_WRITE_REQ att_ptr (Some Exec_write_complete_cb) (Some Server_ptr) =
      Some (True, db', [Write_done Exec_write_complete_cb q 0 (Some Server_ptr)])"
    using p assms(2,4,5,9) a'(1) db'(1) by (auto simp: gatt_db_attribute_write_def prep_ok_def)
  then have "exec_write_cb env srv BT_ATT_OP_EXEC_WRITE_REQ [1] =
      srv_send env (srv\<lparr>srv_db := db', prep_queue := []\<rparr>) BT_ATT_OP_EXEC_WRITE_RSP None 0"
    using assms(3,7,8) by (simp add: exec_write_cb_def exec_next_prep_write_def may_write_def Let_def get_handle_valid(1) [OF at])
  then show ?thesis using db'(2) at a'(4) by blast
qed

text \<open>
  C20: a long write.  A client that sends the chunks of a value as prepared writes, one behind the
  other, gets a response for each of them; the following execute write stores the concatenation of
  the chunks in the attribute at the offset of the first chunk, in one piece, empties the queue of
  prepared writes and is confirmed.
\<close>

theorem long_write:
  assumes "srv_ok srv" "e_mem env" "may_write env srv h q" "prep_queue srv = []" "1 < max_prep_queue_len srv"
    "is_reliable_write_supported env srv (h - 1) = Some (rel, srv_db srv, es)"
    "\<forall>c \<in> set cs. length c + 4 < unat (att_mtu (srv_att srv))" "unat off + length (concat cs) < 65536"
    "concat cs \<noteq> []" "db_attr (srv_db srv) q = Some a" "a_write_func a = None"
    "a_value a \<noteq> None \<Longrightarrow> length (the (a_value a)) = unat (a_value_len a)"
  shows "\<exists>srv1 srv2 a'. prep_writes env srv h off cs = Some srv1 \<and>
    exec_write_cb env srv1 BT_ATT_OP_EXEC_WRITE_REQ [1] = Some (srv2, []) \<and>
    db_attr (srv_db srv2) q = Some a' \<and> stored a' = written (e_junk env) (stored a) (unat off) (concat cs) \<and>
    prep_queue srv2 = [] \<and> length (write_queue (srv_att srv2)) = length (write_queue (srv_att srv)) + length cs + 1 \<and>
    op_pdu (last (write_queue (srv_att srv2))) = [BT_ATT_OP_EXEC_WRITE_RSP]"
proof -
  have "cs \<noteq> []" using assms(9) by auto
  from prep_writes_ok [OF assms(1-6) this assms(7,8)] obtain srv1 p where
    s1: "prep_writes env srv h off cs = Some srv1" "preparing srv [p] (length cs) srv1"
      and p: "prep_ok p" "pd_value p = concat cs" "pd_handle p = h" "pd_offset p = off" by blast
  have db1: "srv_db srv1 = srv_db srv" "prep_queue srv1 = [p]" "srv_ok srv1" using s1(2) by (simp_all add: preparing_def)
  have "may_write env srv1 h q" using assms(3) s1(2) may_write_cong [of srv1 srv env h q] by (simp add: preparing_def)
  from exec_write_stores [OF db1(3) assms(2) this, of a p] obtain db' a' where
    ex: "exec_write_cb env srv1 BT_ATT_OP_EXEC_WRITE_REQ [1] =
      srv_send env (srv1\<lparr>srv_db := db', prep_queue := []\<rparr>) BT_ATT_OP_EXEC_WRITE_RSP None 0" "db_wf db'"
    and a': "db_attr db' q = Some a'" "stored a' = written (e_junk env) (stored a) (unat off) (concat cs)"
    using db1(1,2) p assms(8-12) by auto
  let ?s = "srv1\<lparr>srv_db := db', prep_queue := []\<rparr>"
  have ok: "srv_ok ?s" using db1(3) ex(2) by (simp add: srv_ok_def)
  have "0 < unat (att_mtu (srv_att ?s))" using srv_ok_mtu [OF ok] by simp
  from srv_send_sent [OF ok assms(2) response_opcodes(11) this, of "[]" None] obtain srv2 where
    s2: "srv_send env ?s BT_ATT_OP_EXEC_WRITE_RSP None 0 = Some (srv2, [])" "sent ?s [BT_ATT_OP_EXEC_WRITE_RSP] srv2" by auto
  have "exec_write_cb env srv1 BT_ATT_OP_EXEC_WRITE_REQ [1] = Some (srv2, [])" using ex(1) s2(1) by simp
  then show ?thesis using s1 s2(2) a' by (intro exI [of _ srv1] exI [of _ srv2] exI [of _ a']) (auto simp: sent_def preparing_def)
qed

text \<open>Witness of \<open>long_write\<close>: two chunks to the first characteristic of the example.\<close>

lemma srv_example_reliable:
  "is_reliable_write_supported srv_example_env srv_example 2 = Some (False, srv_db srv_example, [])"
  unfolding is_reliable_write_supported_def srv_example_get bind.bind_lunit option.case
  unfolding srv_example_db srv_example_db_def
  by (simp add: srv_example_exec gatt_db_attribute_get_char_data_def get_char_extended_prop_def BT_GATT_CHRC_PROP_EXT_PROP_def
    uuid_eq_def)

theorem long_write_witness:
  "\<exists>srv1 srv2 a'. prep_writes srv_example_env srv_example 3 1 [[1, 2], [3, 4]] = Some srv1 \<and>
     exec_write_cb srv_example_env srv1 BT_ATT_OP_EXEC_WRITE_REQ [1] = Some (srv2, []) \<and>
     db_attr (srv_db srv2) (1, 2) = Some a' \<and> stored a' = [10, 1, 2, 3, 4]"
proof -
  have "may_write srv_example_env srv_example 3 (1, 2)" using srv_example_get srv_example_permissions by (simp add: may_write_def)
  moreover have "is_reliable_write_supported srv_example_env srv_example (3 - 1) = Some (False, srv_db srv_example, [])"
    using srv_example_reliable by simp
  ultimately show ?thesis
    using long_write [OF srv_example_facts(2,8) _ srv_example_facts(4), of 3 "(1, 2)" False "[]" "[[1, 2], [3, 4]]" 1
        "srv_example_attr 3 0x2A00 (Some [10, 20, 30]) None None"] srv_example_attrs(1)
    by (fastforce simp: srv_example_facts srv_example_attr_def stored_def written_def)
qed

section \<open>Permissions\<close>

lemma and_numeral_assoc: "((p :: u32) AND a) AND b = p AND (a AND b)"
  by (rule and.assoc)

text \<open>
  C21: the access check.  For a mask with the bits for reading (writing), with or without the bit for
  Secure Connections, the check passes exactly when the attribute has no permissions at all, or when
  reading (writing) is permitted and the connection has at least the high security level if
  authentication is asked for, at least the medium level if encryption is, and the FIPS level if Secure
  Connections are asked for and the mask has that bit.  The masks the handlers use, \<open>read_mask\<close> and
  \<open>write_mask\<close>, do not have it, so that they never ask for that level.
\<close>

theorem access_control:
  assumes "db_attr (srv_db srv) q = Some a" "secure = 0 \<or> secure = BT_ATT_PERM_SECURE"
    "level = bt_att_get_security env (Some (srv_att srv))" "perm = a_permissions a"
  shows "(check_permissions env srv q (read_mask OR (secure AND BT_ATT_PERM_READ_SECURE)) = Some 0 \<longleftrightarrow>
      perm = 0 \<or> perm AND BT_ATT_PERM_READ \<noteq> 0 \<and>
      (perm AND BT_ATT_PERM_READ_AUTHEN \<noteq> 0 \<longrightarrow> BT_ATT_SECURITY_HIGH \<le> level) \<and>
      (perm AND BT_ATT_PERM_READ_ENCRYPT \<noteq> 0 \<longrightarrow> BT_ATT_SECURITY_MEDIUM \<le> level) \<and>
      (secure \<noteq> 0 \<and> perm AND BT_ATT_PERM_READ_SECURE \<noteq> 0 \<longrightarrow> BT_ATT_SECURITY_FIPS \<le> level)) \<and>
    (check_permissions env srv q (write_mask OR (secure AND BT_ATT_PERM_WRITE_SECURE)) = Some 0 \<longleftrightarrow>
      perm = 0 \<or> perm AND BT_ATT_PERM_WRITE \<noteq> 0 \<and>
      (perm AND BT_ATT_PERM_WRITE_AUTHEN \<noteq> 0 \<longrightarrow> BT_ATT_SECURITY_HIGH \<le> level) \<and>
      (perm AND BT_ATT_PERM_WRITE_ENCRYPT \<noteq> 0 \<longrightarrow> BT_ATT_SECURITY_MEDIUM \<le> level) \<and>
      (secure \<noteq> 0 \<and> perm AND BT_ATT_PERM_WRITE_SECURE \<noteq> 0 \<longrightarrow> BT_ATT_SECURITY_FIPS \<le> level))"
proof -
  have p: "gatt_db_attribute_get_permissions (srv_db srv) (Some q) = Some perm"
    using assms(1) by (simp add: gatt_db_attribute_get_permissions_def assms(4))
  have z: "perm AND 21 = 0 \<Longrightarrow> perm AND 1 = 0" "perm AND 42 = 0 \<Longrightarrow> perm AND 2 = 0"
    "perm AND 277 = 0 \<Longrightarrow> perm AND 1 = 0" "perm AND 554 = 0 \<Longrightarrow> perm AND 2 = 0"
    using and_numeral_assoc [of perm 21 1] and_numeral_assoc [of perm 42 2] and_numeral_assoc [of perm 277 1]
      and_numeral_assoc [of perm 554 2] by simp_all
  note eval = check_permissions_def p bind.bind_lunit perm_defs Let_def and_numeral_assoc assms(3) [symmetric]
  note errors = BT_ATT_ERROR_READ_NOT_PERMITTED_def BT_ATT_ERROR_WRITE_NOT_PERMITTED_def BT_ATT_ERROR_AUTHENTICATION_def
    BT_ATT_ERROR_INSUFFICIENT_ENCRYPTION_def
  from assms(2) show ?thesis
  proof
    assume s: "secure = 0"
    show ?thesis unfolding eval s using z(1,2) by (auto simp: errors)
  next
    assume s: "secure = BT_ATT_PERM_SECURE"
    show ?thesis unfolding eval s using z(3,4) by (auto simp: errors)
  qed
qed

text \<open>Witness of \<open>access_control\<close>: the first characteristic of the example, read with and without the bit for Secure Connections.\<close>

theorem access_control_witness:
  "check_permissions srv_example_env srv_example (1, 2) read_mask = Some 0 \<and>
   check_permissions srv_example_env srv_example (1, 2) (read_mask OR BT_ATT_PERM_READ_SECURE) = Some 0"
  using access_control [OF srv_example_attrs(1) _ refl refl, of 0 srv_example_env]
    access_control [OF srv_example_attrs(1) _ refl refl, of BT_ATT_PERM_SECURE srv_example_env]
  by (simp add: srv_example_attr_def perm_defs)

text \<open>
  The masks of the callers leave the bits for Secure Connections out: an attribute that asks for
  them is read and written on a connection without any security.
\<close>

lemma secure_level_ignored:
  assumes "db_attr (srv_db srv) q = Some a" "a_permissions a = BT_ATT_PERM_READ OR BT_ATT_PERM_WRITE OR BT_ATT_PERM_SECURE"
  shows "check_permissions env srv q read_mask = Some 0" "check_permissions env srv q write_mask = Some 0"
  unfolding check_permissions_def gatt_db_attribute_get_permissions_def option.case assms(1) bind.bind_lunit assms(2)
  by (simp_all add: perm_defs Let_def)

section \<open>Where memory is not safe\<close>

text \<open>
  C31: a client that may write one attribute can make the server write outside its memory.  The length
  of a prepared write is kept in 16 bits, and consecutive chunks extend the same prepared write, so
  the limit on the length of the queue does not stop it: when the chunks reach 65536 bytes the length
  wraps, the buffer shrinks, and the chunk is copied behind its end (\<open>None\<close>).
\<close>

theorem prep_write_overflow:
  assumes "srv_ok srv" "e_mem env" "may_write env srv h q" "prep_queue srv = []" "1 < max_prep_queue_len srv"
    "is_reliable_write_supported env srv (h - 1) = Some (rel, srv_db srv, es)" "cs \<noteq> []"
    "\<forall>c \<in> set (cs @ [c]). length c + 4 < unat (att_mtu (srv_att srv))" "length (concat cs) < 65536"
    "65536 \<le> length (concat (cs @ [c]))"
  shows "\<exists>srv1. prep_writes env srv h 0 cs = Some srv1 \<and>
    prep_write_cb env srv1 BT_ATT_OP_PREP_WRITE_REQ (put_le16 h @ put_le16 (of_nat (length (concat cs))) @ c) = None"
proof -
  have "\<forall>c \<in> set cs. length c + 4 < unat (att_mtu (srv_att srv))" "unat (0 :: u16) + length (concat cs) < 65536"
    using assms(8,9) by simp_all
  from prep_writes_ok [OF assms(1-7) this] obtain srv1 p where
    s1: "prep_writes env srv h 0 cs = Some srv1" "preparing srv [p] (length cs) srv1"
      and p: "prep_ok p" "pd_value p = concat cs" "pd_handle p = h" "pd_offset p = 0" by blast
  let ?n = "length (concat cs)" and ?pdu = "put_le16 h @ put_le16 (of_nat (length (concat cs))) @ c"
  have len: "unat (pd_length p) = ?n" using p(1,2) by (simp add: prep_ok_def)
  have n: "unat (of_nat ?n :: u16) = ?n" using assms(9) by (intro unat_of_nat_less) simp
  have "length c + 4 < unat (att_mtu (srv_att srv))" using assms(8) by simp
  then have "length c < 65536" using unat_u16_less [of "att_mtu (srv_att srv)"] by linarith
  then have "append_prep_data env p c = None"
    using assms(10) len by (intro append_prep_wraps [OF p(1) assms(2)]) simp_all
  moreover have q1: "prep_queue srv1 = [p]" "1 < max_prep_queue_len srv1" using s1(2) assms(5) by (simp_all add: preparing_def)
  ultimately have st: "store_prep_data env srv1 h (of_nat ?n) c = None"
    using n len p(3,4) by (simp add: store_prep_data_def)
  have mw: "may_write env srv1 h q" using assms(3) s1(2) may_write_cong [of srv1 srv env h q] by (simp add: preparing_def)
  have "drop 2 ?pdu = put_le16 (of_nat ?n) @ c" "drop 4 ?pdu = c" by (simp_all add: put_le16_def)
  then have "prep_write_cb env srv1 BT_ATT_OP_PREP_WRITE_REQ ?pdu = None"
    using mw q1 st by (simp add: prep_write_cb_def may_write_def Let_def)
  with s1(1) show ?thesis by blast
qed

text \<open>Witness of \<open>prep_write_overflow\<close>: 3641 prepared writes of 18 bytes on the example server.\<close>

theorem prep_write_overflow_witness:
  "\<exists>srv1. prep_writes srv_example_env srv_example 3 0 (replicate 3640 (replicate 18 7)) = Some srv1 \<and>
    prep_write_cb srv_example_env srv1 BT_ATT_OP_PREP_WRITE_REQ
      (put_le16 3 @ put_le16 (of_nat (length (concat (replicate 3640 (replicate 18 (7 :: u8)))))) @ replicate 18 7) = None"
proof (rule prep_write_overflow [OF srv_example_facts(2,8) _ srv_example_facts(4)])
  show "may_write srv_example_env srv_example 3 (1, 2)"
    using srv_example_get srv_example_permissions by (simp add: may_write_def)
  show "is_reliable_write_supported srv_example_env srv_example (3 - 1) = Some (False, srv_db srv_example, [])"
    using srv_example_reliable by simp
qed (simp_all add: srv_example_facts length_concat sum_list_replicate)

text \<open>
  The buffer of a read by type is allocated for the MTU at the time of the request.  A value that
  arrives after the MTU has grown is copied behind the end of the buffer.
\<close>

lemma encode_read_by_type_overflow:
  assumes "length (ro_pdu oper) = 23" "ro_pdu_len oper = 0" "length val = 40"
  shows "encode_read_by_type 64 handle oper val = None"
  using assms by (simp add: encode_read_by_type_def Let_def buf_write_def)

end
