(* ===== verification/Gatt_Helpers.thy ===== *)
theory Gatt_Helpers
  imports Bt_Att_Types
begin

text \<open>
  The client side of service discovery: \<^verbatim>\<open>src/shared/gatt-helpers.c\<close>.  A request sends one ATT
  request after the other, each from the handle behind the last one reported, and collects the
  responses; iterators read the collected data.  The functions and data handed to the ATT engine are
  the constructors of \<open>'c hfn\<close>; the objects they point to are kept in maps with their reference
  counts.  Calls of functions of the application are the events of the result.
\<close>

section \<open>State\<close>

datatype 'c hfn =
    Read_by_grp_type_cb | Find_by_type_val_cb | Discover_included_cb | Read_included_cb | Discover_chrcs_cb
  | Read_by_type_cb | Discover_descs_cb | Mtu_cb
  | Async_req_unref | Read_included_unref | Destroy_mtu_op
  | Req_ptr ptr | Incl_ptr ptr | Mtu_ptr ptr
  | Client 'c

text \<open>The chain of results is a list; \<^verbatim>\<open>pdu_len\<close> is the length of the copy, and \<^verbatim>\<open>op\<close> is the request.\<close>

record bt_gatt_result =
  res_opcode :: u8
  res_pdu :: bytes
  res_data_len :: u16

record 'c bt_gatt_request =
  rq_id :: u32
  rq_start_handle :: u16
  rq_end_handle :: u16
  rq_ref_count :: int
  rq_uuid :: bt_uuid_t
  rq_service_type :: u16
  rq_results :: "bt_gatt_result list"
  rq_callback :: "'c option"
  rq_user_data :: "'c option"
  rq_destroy :: "'c option"

text \<open>\<open>ri_result\<close> is the position of the result in the chain of the request.\<close>

record read_incl_data =
  ri_op :: ptr
  ri_result :: nat
  ri_pos :: nat
  ri_ref_count :: int

record 'c mtu_op =
  mo_client_rx_mtu :: u16
  mo_callback :: "'c option"
  mo_user_data :: "'c option"
  mo_destroy :: "'c option"

text \<open>The requests of one connection.\<close>

record 'c gatt_helpers =
  hl_att :: "'c hfn bt_att"
  hl_reqs :: "ptr \<rightharpoonup> 'c bt_gatt_request"
  hl_incls :: "ptr \<rightharpoonup> read_incl_data"
  hl_mtus :: "ptr \<rightharpoonup> 'c mtu_op"
  hl_next :: ptr

datatype 'c hl_event =
    Hl_callback 'c bool u8 "bt_gatt_result list option" "'c option"
  | Hl_mtu_callback 'c bool u8 "'c option"
  | Hl_destroy 'c "'c option"

type_synonym 'c hl_env = "'c hfn att_env"

type_synonym 'c hl_result = "('c gatt_helpers \<times> 'c hl_event list) option"

definition GATT_PRIM_SVC_UUID :: u16 where "GATT_PRIM_SVC_UUID = 0x2800"

definition GATT_SND_SVC_UUID :: u16 where "GATT_SND_SVC_UUID = 0x2801"

definition GATT_INCLUDE_UUID :: u16 where "GATT_INCLUDE_UUID = 0x2802"

definition GATT_CHARAC_UUID :: u16 where "GATT_CHARAC_UUID = 0x2803"

section \<open>Results\<close>

definition put_req :: "'c gatt_helpers \<Rightarrow> ptr \<Rightarrow> 'c bt_gatt_request \<Rightarrow> 'c gatt_helpers" where
  "put_req h p r = h\<lparr>hl_reqs := (hl_reqs h)(p \<mapsto> r)\<rparr>"

definition result_create :: "'c hl_env \<Rightarrow> u8 \<Rightarrow> bytes \<Rightarrow> u16 \<Rightarrow> bt_gatt_result option" where
  "result_create env opcode pdu data_len =
     (if \<not> e_mem env then None
      else Some \<lparr>res_opcode = opcode, res_pdu = pdu, res_data_len = data_len\<rparr>)"

definition result_append ::
    "'c hl_env \<Rightarrow> 'c gatt_helpers \<Rightarrow> ptr \<Rightarrow> u8 \<Rightarrow> bytes \<Rightarrow> u16 \<Rightarrow> (bool \<times> 'c gatt_helpers) option" where
  "result_append env h p opcode pdu data_len = do {
     op \<leftarrow> hl_reqs h p;
     case result_create env opcode pdu data_len of
       None \<Rightarrow> Some (False, h)
     | Some result \<Rightarrow> Some (True, put_req h p (op\<lparr>rq_results := rq_results op @ [result]\<rparr>)) }"

text \<open>A result with no data length would divide by zero.\<close>

primrec result_element_count :: "bt_gatt_result list \<Rightarrow> nat option" where
  "result_element_count [] = Some 0"
| "result_element_count (cur # rs) =
     (if res_data_len cur = 0 then None
      else do { n \<leftarrow> result_element_count rs; Some (length (res_pdu cur) div unat (res_data_len cur) + n) })"

definition bt_gatt_result_service_count :: "bt_gatt_result list \<Rightarrow> nat option" where
  "bt_gatt_result_service_count result =
     (case result of [] \<Rightarrow> Some 0
      | r # _ \<Rightarrow>
          if res_opcode r \<noteq> BT_ATT_OP_READ_BY_GRP_TYPE_RSP \<and> res_opcode r \<noteq> BT_ATT_OP_FIND_BY_TYPE_RSP then Some 0
          else result_element_count result)"

definition bt_gatt_result_characteristic_count :: "bt_gatt_result list \<Rightarrow> nat option" where
  "bt_gatt_result_characteristic_count result =
     (case result of [] \<Rightarrow> Some 0
      | r # _ \<Rightarrow>
          if res_opcode r \<noteq> BT_ATT_OP_READ_BY_TYPE_RSP then Some 0
          else if res_data_len r \<noteq> 21 \<and> res_data_len r \<noteq> 7 then Some 0
          else result_element_count result)"

definition bt_gatt_result_descriptor_count :: "bt_gatt_result list \<Rightarrow> nat option" where
  "bt_gatt_result_descriptor_count result =
     (case result of [] \<Rightarrow> Some 0
      | r # _ \<Rightarrow> if res_opcode r \<noteq> BT_ATT_OP_FIND_INFO_RSP then Some 0 else result_element_count result)"

primrec included_count_loop :: "bt_gatt_result list \<Rightarrow> nat option" where
  "included_count_loop [] = Some 0"
| "included_count_loop (cur # rs) = do {
     n \<leftarrow> included_count_loop rs;
     if res_opcode cur \<noteq> BT_ATT_OP_READ_BY_TYPE_RSP then Some n
     else if res_data_len cur = 0 then None
     else Some (length (res_pdu cur) div unat (res_data_len cur) + n) }"

definition bt_gatt_result_included_count :: "bt_gatt_result list \<Rightarrow> nat option" where
  "bt_gatt_result_included_count result =
     (case result of [] \<Rightarrow> Some 0
      | r # _ \<Rightarrow>
          if res_opcode r \<noteq> BT_ATT_OP_READ_BY_TYPE_RSP then Some 0
          else if res_data_len r \<noteq> 6 \<and> res_data_len r \<noteq> 8 then Some 0
          else included_count_loop result)"

section \<open>Iterators\<close>

text \<open>The chain from the current result on (\<^verbatim>\<open>NULL\<close> is the empty list) and the position in the result.\<close>

record bt_gatt_iter =
  it_result :: "bt_gatt_result list"
  it_pos :: u16

definition bt_gatt_iter_init :: "bt_gatt_result list \<Rightarrow> bt_gatt_iter option" where
  "bt_gatt_iter_init result = (if result = [] then None else Some \<lparr>it_result = result, it_pos = 0\<rparr>)"

definition bt_base_uuid :: bytes where
  "bt_base_uuid = [0, 0, 0, 0, 0, 0, 0x10, 0, 0x80, 0, 0, 0x80, 0x5F, 0x9B, 0x34, 0xFB]"

definition convert_uuid_le :: "bytes \<Rightarrow> nat \<Rightarrow> bytes option" where
  "convert_uuid_le src len =
     (if len = 16 then Some (bswap_128 src)
      else if len \<noteq> 2 then None
      else Some (bt_base_uuid[2 := src ! 1, 3 := src ! 0]))"

text \<open>
  The \<open>n\<close> bytes of the current data set: \<open>None\<close> when they are not all in the buffer.  \<open>uuid\<close> is what
  the output parameter holds before the call; a length that is not converted leaves it.
\<close>

definition data_at :: "bt_gatt_result \<Rightarrow> u16 \<Rightarrow> nat \<Rightarrow> bytes option" where
  "data_at r pos n = (if unat pos + n \<le> length (res_pdu r) then Some (take n (drop (unat pos) (res_pdu r))) else None)"

definition converted :: "bytes \<Rightarrow> bytes \<Rightarrow> nat \<Rightarrow> bytes" where
  "converted uuid src len = (case convert_uuid_le src len of None \<Rightarrow> uuid | Some u \<Rightarrow> u)"

text \<open>The step of an iterator behind the data set it has read; \<open>skip\<close> is the chain that follows.\<close>

definition iter_step :: "bt_gatt_result \<Rightarrow> bt_gatt_result list \<Rightarrow> bt_gatt_iter \<Rightarrow> bt_gatt_iter" where
  "iter_step r skip iter =
     (let pos = it_pos iter + res_data_len r
      in if unat pos = length (res_pdu r) then \<lparr>it_result = skip, it_pos = 0\<rparr> else iter\<lparr>it_pos := pos\<rparr>)"

text \<open>
  The result of an iterator is \<open>None\<close> when it reads outside the data; \<open>Some None\<close> is \<^verbatim>\<open>false\<close>.
\<close>

definition bt_gatt_iter_next_service ::
    "bt_uuid_t \<Rightarrow> bytes \<Rightarrow> bt_gatt_iter \<Rightarrow> ((u16 \<times> u16 \<times> bytes) \<times> bt_gatt_iter) option option" where
  "bt_gatt_iter_next_service op_uuid uuid iter =
     (case it_result iter of [] \<Rightarrow> Some None
      | r # rs \<Rightarrow>
          if res_opcode r = BT_ATT_OP_READ_BY_GRP_TYPE_RSP
          then do {
            d \<leftarrow> data_at r (it_pos iter) (unat (res_data_len r));
            Some (Some ((get_le16 d, get_le16 (drop 2 d), converted uuid (drop 4 d) (unat (res_data_len r) - 4)),
                        iter_step r rs iter)) }
          else if res_opcode r = BT_ATT_OP_FIND_BY_TYPE_RSP
          then do {
            d \<leftarrow> data_at r (it_pos iter) 4;
            Some (Some ((get_le16 d, get_le16 (drop 2 d),
                         case bt_uuid_to_uuid128 op_uuid (BT_UUID128 uuid) of BT_UUID128 v \<Rightarrow> v | _ \<Rightarrow> uuid),
                        iter_step r rs iter)) }
          else Some None)"

definition bt_gatt_iter_next_included_service ::
    "bt_uuid_t \<Rightarrow> bytes \<Rightarrow> bt_gatt_iter \<Rightarrow> ((u16 \<times> u16 \<times> u16 \<times> bytes) \<times> bt_gatt_iter) option option" where
  "bt_gatt_iter_next_included_service op_uuid uuid iter =
     (case it_result iter of [] \<Rightarrow> Some None
      | r # rs \<Rightarrow>
          if res_opcode r \<noteq> BT_ATT_OP_READ_BY_TYPE_RSP then Some None
          else if op_uuid \<noteq> BT_UUID_UNSPEC then Some None
          else if res_data_len r \<noteq> 8 \<and> res_data_len r \<noteq> 6 then Some None
          else do {
            d \<leftarrow> data_at r (it_pos iter) (unat (res_data_len r));
            if res_data_len r = 8
            then Some (Some ((get_le16 d, get_le16 (drop 2 d), get_le16 (drop 4 d), converted uuid (drop 6 d) 2),
                             iter_step r rs iter))
            else case drop (unat (it_pos iter) div unat (res_data_len r)) rs of
              [] \<Rightarrow> Some None
            | read_result # rest \<Rightarrow>
                Some (Some ((get_le16 d, get_le16 (drop 2 d), get_le16 (drop 4 d),
                             converted uuid (res_pdu read_result) (unat (res_data_len read_result))),
                            iter_step r rest iter)) })"

definition bt_gatt_iter_next_characteristic ::
    "bt_uuid_t \<Rightarrow> u16 \<Rightarrow> bytes \<Rightarrow> bt_gatt_iter \<Rightarrow> ((u16 \<times> u16 \<times> u16 \<times> u8 \<times> bytes) \<times> bt_gatt_iter) option option" where
  "bt_gatt_iter_next_characteristic op_uuid op_end uuid iter =
     (case it_result iter of [] \<Rightarrow> Some None
      | r # rs \<Rightarrow>
          if res_opcode r \<noteq> BT_ATT_OP_READ_BY_TYPE_RSP then Some None
          else if op_uuid \<noteq> BT_UUID_UNSPEC then Some None
          else if res_data_len r \<noteq> 21 \<and> res_data_len r \<noteq> 7 then Some None
          else do {
            d \<leftarrow> data_at r (it_pos iter) (unat (res_data_len r));
            let iter = iter_step r rs iter;
            end_handle \<leftarrow> (case it_result iter of [] \<Rightarrow> Some op_end
                           | r2 # _ \<Rightarrow> do { d2 \<leftarrow> data_at r2 (it_pos iter) 2; Some (get_le16 d2 - 1) });
            Some (Some ((get_le16 d, end_handle, get_le16 (drop 3 d), d ! 2,
                         converted uuid (drop 5 d) (unat (res_data_len r) - 5)), iter)) })"

definition bt_gatt_iter_next_descriptor ::
    "bytes \<Rightarrow> bt_gatt_iter \<Rightarrow> ((u16 \<times> bytes) \<times> bt_gatt_iter) option option" where
  "bt_gatt_iter_next_descriptor uuid iter =
     (case it_result iter of [] \<Rightarrow> Some None
      | r # rs \<Rightarrow>
          if res_opcode r \<noteq> BT_ATT_OP_FIND_INFO_RSP then Some None
          else do {
            d \<leftarrow> data_at r (it_pos iter) (unat (res_data_len r));
            Some (Some ((get_le16 d, converted uuid (drop 2 d) (unat (res_data_len r) - 2)), iter_step r rs iter)) })"

definition bt_gatt_iter_next_read_by_type ::
    "bt_uuid_t \<Rightarrow> bt_gatt_iter \<Rightarrow> ((u16 \<times> u16 \<times> bytes) \<times> bt_gatt_iter) option option" where
  "bt_gatt_iter_next_read_by_type op_uuid iter =
     (case it_result iter of [] \<Rightarrow> Some None
      | r # rs \<Rightarrow>
          if res_opcode r \<noteq> BT_ATT_OP_READ_BY_TYPE_RSP then Some None
          else if op_uuid = BT_UUID_UNSPEC then Some None
          else do {
            d \<leftarrow> data_at r (it_pos iter) (max 2 (unat (res_data_len r)));
            Some (Some ((get_le16 d, res_data_len r - 2, drop 2 d), iter_step r rs iter)) })"

section \<open>MTU exchange\<close>

definition destroy_mtu_op :: "'c gatt_helpers \<Rightarrow> ptr \<Rightarrow> 'c hl_result" where
  "destroy_mtu_op h p = do {
     op \<leftarrow> hl_mtus h p;
     Some (h\<lparr>hl_mtus := (hl_mtus h)(p := None)\<rparr>,
           case mo_destroy op of None \<Rightarrow> [] | Some f \<Rightarrow> [Hl_destroy f (mo_user_data op)]) }"

definition process_error :: "bytes option \<Rightarrow> u8" where
  "process_error pdu = (case pdu of None \<Rightarrow> 0 | Some b \<Rightarrow> if length b \<noteq> 4 then 0 else b ! 3)"

definition mtu_cb :: "'c hl_env \<Rightarrow> 'c gatt_helpers \<Rightarrow> ptr \<Rightarrow> u8 \<Rightarrow> bytes option \<Rightarrow> 'c hl_result" where
  "mtu_cb env h p opcode pdu = do {
     op \<leftarrow> hl_mtus h p;
     let report = (\<lambda>success ecode. case mo_callback op of None \<Rightarrow> []
                    | Some f \<Rightarrow> [Hl_mtu_callback f success ecode (mo_user_data op)]);
     if opcode = BT_ATT_OP_ERROR_RSP then Some (h, report False (process_error pdu))
     else case pdu of
       None \<Rightarrow> Some (h, report False 0)
     | Some b \<Rightarrow>
         if opcode \<noteq> BT_ATT_OP_MTU_RSP \<or> length b \<noteq> 2 then Some (h, report False 0)
         else do {
           t \<leftarrow> snd (bt_att_set_mtu env (Some (hl_att h)) (min (mo_client_rx_mtu op) (get_le16 b)));
           Some (h\<lparr>hl_att := t\<rparr>, report True 0) } }"

definition bt_gatt_exchange_mtu ::
    "'c hl_env \<Rightarrow> 'c gatt_helpers \<Rightarrow> u16 \<Rightarrow> 'c option \<Rightarrow> 'c option \<Rightarrow> 'c option \<Rightarrow> (u32 \<times> 'c gatt_helpers) option" where
  "bt_gatt_exchange_mtu env h client_rx_mtu callback user_data destroy =
     (if client_rx_mtu = 0 then Some (0, h)
      else do {
        let p = hl_next h;
        let op = \<lparr>mo_client_rx_mtu = client_rx_mtu, mo_callback = callback, mo_user_data = user_data, mo_destroy = destroy\<rparr>;
        (i, t) \<leftarrow> bt_att_send env (Some (hl_att h)) BT_ATT_OP_MTU_REQ (Some (put_le16 client_rx_mtu)) 2
                    (Some Mtu_cb) (Some (Mtu_ptr p)) (Some Destroy_mtu_op);
        t \<leftarrow> t;
        Some (i, h\<lparr>hl_att := t, hl_next := p + 1,
                   hl_mtus := (if i = 0 then hl_mtus h else (hl_mtus h)(p \<mapsto> op))\<rparr>) })"

section \<open>Requests\<close>

definition get_uuid_len :: "bt_uuid_t \<Rightarrow> nat" where
  "get_uuid_len uuid = (case uuid of BT_UUID16 _ \<Rightarrow> 2 | _ \<Rightarrow> 16)"

definition bt_gatt_request_ref :: "'c gatt_helpers \<Rightarrow> ptr \<Rightarrow> 'c gatt_helpers option" where
  "bt_gatt_request_ref h p = do {
     r \<leftarrow> hl_reqs h p; Some (put_req h p (r\<lparr>rq_ref_count := rq_ref_count r + 1\<rparr>)) }"

text \<open>
  The request whose reference an operation of the ATT engine gives up when it is cancelled: the
  operations whose identifier a request stores are sent with \<^verbatim>\<open>async_req_unref\<close>.
\<close>

primrec destroyed_req :: "'c hfn att_event list \<Rightarrow> ptr option" where
  "destroyed_req [] = None"
| "destroyed_req (e # es) =
     (case e of Att_op_destroy Async_req_unref (Some (Req_ptr q)) \<Rightarrow> Some q | _ \<Rightarrow> destroyed_req es)"

text \<open>
  The last reference cancels the request; the ATT engine may give up its own reference within that
  call.
\<close>

partial_function (option) bt_gatt_request_unref :: "'c hl_env \<Rightarrow> 'c gatt_helpers \<Rightarrow> ptr \<Rightarrow> 'c hl_result" where
  "bt_gatt_request_unref env h p = do {
     r \<leftarrow> hl_reqs h p;
     let r = r\<lparr>rq_ref_count := rq_ref_count r - 1\<rparr>;
     let h = put_req h p r;
     if rq_ref_count r \<noteq> 0 then Some (h, [])
     else do {
       (h, es) \<leftarrow>
         (if rq_id r = 0 then Some (h, [])
          else case bt_att_cancel env (Some (hl_att h)) (rq_id r) of
            (_, t, e) \<Rightarrow>
              (case destroyed_req e of
                 None \<Rightarrow> Some (h\<lparr>hl_att := the t\<rparr>, [])
               | Some q \<Rightarrow> bt_gatt_request_unref env (h\<lparr>hl_att := the t\<rparr>) q));
       Some (h\<lparr>hl_reqs := (hl_reqs h)(p := None)\<rparr>,
             es @ (case rq_destroy r of None \<Rightarrow> [] | Some f \<Rightarrow> [Hl_destroy f (rq_user_data r)])) } }"

definition bt_gatt_request_cancel :: "'c hl_env \<Rightarrow> 'c gatt_helpers \<Rightarrow> ptr \<Rightarrow> 'c hl_result" where
  "bt_gatt_request_cancel env h p = do {
     r \<leftarrow> hl_reqs h p;
     if rq_id r = 0 then Some (h, [])
     else case bt_att_cancel env (Some (hl_att h)) (rq_id r) of
       (_, t, e) \<Rightarrow> do {
         (h, es) \<leftarrow> (case destroyed_req e of
                       None \<Rightarrow> Some (h\<lparr>hl_att := the t\<rparr>, [])
                     | Some q \<Rightarrow> bt_gatt_request_unref env (h\<lparr>hl_att := the t\<rparr>) q);
         r \<leftarrow> hl_reqs h p;
         Some (put_req h p (r\<lparr>rq_id := 0\<rparr>), es) } }"

definition async_req_unref :: "'c hl_env \<Rightarrow> 'c gatt_helpers \<Rightarrow> ptr \<Rightarrow> 'c hl_result" where
  "async_req_unref env h p = bt_gatt_request_unref env h p"

definition discovery_op_complete ::
    "'c hl_env \<Rightarrow> 'c gatt_helpers \<Rightarrow> ptr \<Rightarrow> bool \<Rightarrow> u8 \<Rightarrow> 'c hl_result" where
  "discovery_op_complete env h p success ecode = do {
     op \<leftarrow> hl_reqs h p;
     let success = (success \<or> ecode = BT_ATT_ERROR_ATTRIBUTE_NOT_FOUND \<and> rq_results op \<noteq> []);
     let e = (case rq_callback op of None \<Rightarrow> []
              | Some f \<Rightarrow> [Hl_callback f success ecode (if success then Some (rq_results op) else None) (rq_user_data op)]);
     if rq_id op = 0
     then do { (h, es) \<leftarrow> async_req_unref env h p; Some (h, e @ es) }
     else Some (put_req h p (op\<lparr>rq_id := 0\<rparr>), e) }"

text \<open>
  A further ATT request of a request: the reference is taken before the call, and \<open>rq_id\<close> is the
  result of the call.
\<close>

definition request_send ::
    "'c hl_env \<Rightarrow> 'c gatt_helpers \<Rightarrow> ptr \<Rightarrow> u8 \<Rightarrow> bytes \<Rightarrow> 'c hfn \<Rightarrow> 'c gatt_helpers option" where
  "request_send env h p opcode pdu cb = do {
     h \<leftarrow> bt_gatt_request_ref h p;
     (i, t) \<leftarrow> bt_att_send env (Some (hl_att h)) opcode (Some pdu) (of_nat (length pdu))
                 (Some cb) (Some (Req_ptr p)) (Some Async_req_unref);
     t \<leftarrow> t;
     r \<leftarrow> hl_reqs h p;
     Some (put_req (h\<lparr>hl_att := t\<rparr>) p (r\<lparr>rq_id := i\<rparr>)) }"

text \<open>The end of a callback that goes on: it returns when the request was sent and fails otherwise.\<close>

definition request_continue ::
    "'c hl_env \<Rightarrow> 'c gatt_helpers \<Rightarrow> ptr \<Rightarrow> u8 \<Rightarrow> bytes \<Rightarrow> 'c hfn \<Rightarrow> 'c hl_result" where
  "request_continue env h p opcode pdu cb = do {
     h \<leftarrow> request_send env h p opcode pdu cb;
     r \<leftarrow> hl_reqs h p;
     if rq_id r \<noteq> 0 then Some (h, []) else discovery_op_complete env h p False 0 }"

text \<open>A new request, with the first ATT request sent; it is freed again when that fails.\<close>

definition request_start ::
    "'c hl_env \<Rightarrow> 'c gatt_helpers \<Rightarrow> 'c bt_gatt_request \<Rightarrow> u8 \<Rightarrow> bytes \<Rightarrow> 'c hfn \<Rightarrow> (ptr option \<times> 'c gatt_helpers) option" where
  "request_start env h r opcode pdu cb = do {
     let p = hl_next h;
     h \<leftarrow> request_send env (put_req (h\<lparr>hl_next := p + 1\<rparr>) p r) p opcode pdu cb;
     r \<leftarrow> hl_reqs h p;
     if rq_id r = 0 then Some (None, h\<lparr>hl_reqs := (hl_reqs h)(p := None)\<rparr>)
     else do { h \<leftarrow> bt_gatt_request_ref h p; Some (Some p, h) } }"

definition new_request ::
    "u16 \<Rightarrow> u16 \<Rightarrow> bt_uuid_t \<Rightarrow> u16 \<Rightarrow> 'c option \<Rightarrow> 'c option \<Rightarrow> 'c option \<Rightarrow> 'c bt_gatt_request" where
  "new_request start end_handle uuid service_type callback user_data destroy =
     \<lparr>rq_id = 0, rq_start_handle = start, rq_end_handle = end_handle, rq_ref_count = 0, rq_uuid = uuid,
      rq_service_type = service_type, rq_results = [], rq_callback = callback, rq_user_data = user_data,
      rq_destroy = destroy\<rparr>"

section \<open>Services\<close>

definition read_by_grp_type_cb ::
    "'c hl_env \<Rightarrow> 'c gatt_helpers \<Rightarrow> ptr \<Rightarrow> u8 \<Rightarrow> bytes option \<Rightarrow> 'c hl_result" where
  "read_by_grp_type_cb env h p opcode pdu =
     (if opcode = BT_ATT_OP_ERROR_RSP then discovery_op_complete env h p False (process_error pdu)
      else case pdu of None \<Rightarrow> discovery_op_complete env h p False 0
      | Some b \<Rightarrow>
          if opcode \<noteq> BT_ATT_OP_READ_BY_GRP_TYPE_RSP \<or> length b < 7 then discovery_op_complete env h p False 0
          else let data_length = unat (hd b); list_length = length b - 1
            in if data_length \<noteq> 6 \<and> data_length \<noteq> 20 \<or> list_length mod data_length \<noteq> 0
               then discovery_op_complete env h p False 0
               else do {
                 (ok, h) \<leftarrow> result_append env h p opcode (tl b) (of_nat data_length);
                 op \<leftarrow> hl_reqs h p;
                 let last_end = get_le16 (drop (length b - data_length + 2) b);
                 if \<not> ok \<or> last_end < rq_start_handle op then discovery_op_complete env h p False 0
                 else do {
                   let op = op\<lparr>rq_start_handle := last_end + 1\<rparr>;
                   let h = put_req h p op;
                   if last_end < rq_end_handle op
                   then request_continue env h p BT_ATT_OP_READ_BY_GRP_TYPE_REQ
                          (put_le16 (rq_start_handle op) @ put_le16 (rq_end_handle op) @ put_le16 (rq_service_type op))
                          Read_by_grp_type_cb
                   else if last_end = 0xffff \<and> last_end \<noteq> rq_end_handle op
                   then do {
                     let cur_result = last (rq_results op);
                     d \<leftarrow> buf_write (res_pdu cur_result) (length b - data_length + 1) (put_le16 (rq_end_handle op));
                     discovery_op_complete env
                       (put_req h p (op\<lparr>rq_results := butlast (rq_results op) @ [cur_result\<lparr>res_pdu := d\<rparr>]\<rparr>)) p True 0 }
                   else discovery_op_complete env h p True 0 } })"

definition find_by_type_val_cb ::
    "'c hl_env \<Rightarrow> 'c gatt_helpers \<Rightarrow> ptr \<Rightarrow> u8 \<Rightarrow> bytes option \<Rightarrow> 'c hl_result" where
  "find_by_type_val_cb env h p opcode pdu =
     (if opcode = BT_ATT_OP_ERROR_RSP then discovery_op_complete env h p False (process_error pdu)
      else case pdu of None \<Rightarrow> discovery_op_complete env h p False 0
      | Some b \<Rightarrow>
          if opcode \<noteq> BT_ATT_OP_FIND_BY_TYPE_RSP \<or> b = [] \<or> length b mod 4 \<noteq> 0
          then discovery_op_complete env h p False 0
          else do {
            (ok, h) \<leftarrow> result_append env h p opcode b 4;
            op \<leftarrow> hl_reqs h p;
            let last_end = get_le16 (drop (length b - 2) b);
            if \<not> ok \<or> last_end < rq_start_handle op then discovery_op_complete env h p False 0
            else do {
              let op = op\<lparr>rq_start_handle := last_end + 1\<rparr>;
              let h = put_req h p op;
              if last_end < rq_end_handle op
              then request_continue env h p BT_ATT_OP_FIND_BY_TYPE_REQ
                     (put_le16 (rq_start_handle op) @ put_le16 (rq_end_handle op) @ put_le16 (rq_service_type op) @
                      the (bt_uuid_to_le (rq_uuid op))) Find_by_type_val_cb
              else discovery_op_complete env h p True 0 } })"

text \<open>A request by UUID is refused when the UUID has no type; \<open>None\<close> is the absent UUID.\<close>

definition discover_services ::
    "'c hl_env \<Rightarrow> 'c gatt_helpers \<Rightarrow> bt_uuid_t option \<Rightarrow> u16 \<Rightarrow> u16 \<Rightarrow> 'c option \<Rightarrow> 'c option \<Rightarrow> 'c option \<Rightarrow> bool
       \<Rightarrow> (ptr option \<times> 'c gatt_helpers) option" where
  "discover_services env h uuid start end_handle callback user_data destroy primary =
     (let service_type = (if primary then GATT_PRIM_SVC_UUID else GATT_SND_SVC_UUID)
      in case uuid of
        None \<Rightarrow>
          request_start env h (new_request start end_handle BT_UUID_UNSPEC service_type callback user_data destroy)
            BT_ATT_OP_READ_BY_GRP_TYPE_REQ (put_le16 start @ put_le16 end_handle @ put_le16 service_type)
            Read_by_grp_type_cb
      | Some u \<Rightarrow>
          (case bt_uuid_to_le u of
             None \<Rightarrow> Some (None, h)
           | Some le \<Rightarrow>
               request_start env h (new_request start end_handle u service_type callback user_data destroy)
                 BT_ATT_OP_FIND_BY_TYPE_REQ (put_le16 start @ put_le16 end_handle @ put_le16 service_type @ le)
                 Find_by_type_val_cb))"

definition bt_gatt_discover_primary_services ::
    "'c hl_env \<Rightarrow> 'c gatt_helpers \<Rightarrow> bt_uuid_t option \<Rightarrow> u16 \<Rightarrow> u16 \<Rightarrow> 'c option \<Rightarrow> 'c option \<Rightarrow> 'c option
       \<Rightarrow> (ptr option \<times> 'c gatt_helpers) option" where
  "bt_gatt_discover_primary_services env h uuid start end_handle callback user_data destroy =
     discover_services env h uuid start end_handle callback user_data destroy True"

definition bt_gatt_discover_all_primary_services ::
    "'c hl_env \<Rightarrow> 'c gatt_helpers \<Rightarrow> bt_uuid_t option \<Rightarrow> 'c option \<Rightarrow> 'c option \<Rightarrow> 'c option
       \<Rightarrow> (ptr option \<times> 'c gatt_helpers) option" where
  "bt_gatt_discover_all_primary_services env h uuid callback user_data destroy =
     bt_gatt_discover_primary_services env h uuid 0x0001 0xffff callback user_data destroy"

definition bt_gatt_discover_secondary_services ::
    "'c hl_env \<Rightarrow> 'c gatt_helpers \<Rightarrow> bt_uuid_t option \<Rightarrow> u16 \<Rightarrow> u16 \<Rightarrow> 'c option \<Rightarrow> 'c option \<Rightarrow> 'c option
       \<Rightarrow> (ptr option \<times> 'c gatt_helpers) option" where
  "bt_gatt_discover_secondary_services env h uuid start end_handle callback user_data destroy =
     discover_services env h uuid start end_handle callback user_data destroy False"

section \<open>Included services\<close>

definition new_read_included :: "'c gatt_helpers \<Rightarrow> ptr \<Rightarrow> nat \<Rightarrow> (ptr \<times> 'c gatt_helpers) option" where
  "new_read_included h op res = do {
     h \<leftarrow> bt_gatt_request_ref h op;
     let d = hl_next h;
     Some (d, h\<lparr>hl_next := d + 1,
                hl_incls := (hl_incls h)(d \<mapsto> \<lparr>ri_op = op, ri_result = res, ri_pos = 0, ri_ref_count = 0\<rparr>)\<rparr>) }"

definition read_included_ref :: "'c gatt_helpers \<Rightarrow> ptr \<Rightarrow> 'c gatt_helpers option" where
  "read_included_ref h d = do {
     x \<leftarrow> hl_incls h d;
     Some (h\<lparr>hl_incls := (hl_incls h)(d \<mapsto> x\<lparr>ri_ref_count := ri_ref_count x + 1\<rparr>)\<rparr>) }"

definition read_included_unref :: "'c hl_env \<Rightarrow> 'c gatt_helpers \<Rightarrow> ptr \<Rightarrow> 'c hl_result" where
  "read_included_unref env h d = do {
     x \<leftarrow> hl_incls h d;
     if ri_ref_count x - 1 \<noteq> 0
     then Some (h\<lparr>hl_incls := (hl_incls h)(d \<mapsto> x\<lparr>ri_ref_count := ri_ref_count x - 1\<rparr>)\<rparr>, [])
     else do {
       (h, es) \<leftarrow> async_req_unref env h (ri_op x);
       Some (h\<lparr>hl_incls := (hl_incls h)(d := None)\<rparr>, es) } }"

text \<open>The read of the UUID at the current position; the position moves on before the call.\<close>

definition send_read_included :: "'c hl_env \<Rightarrow> 'c gatt_helpers \<Rightarrow> ptr \<Rightarrow> (u32 \<times> 'c gatt_helpers) option" where
  "send_read_included env h d = do {
     x \<leftarrow> hl_incls h d;
     op \<leftarrow> hl_reqs h (ri_op x);
     r \<leftarrow> (if ri_result x < length (rq_results op) then Some (rq_results op ! ri_result x) else None);
     read_pdu \<leftarrow> (if ri_pos x + 4 \<le> length (res_pdu r) then Some (take 2 (drop (ri_pos x + 2) (res_pdu r))) else None);
     let h = h\<lparr>hl_incls := (hl_incls h)(d \<mapsto> x\<lparr>ri_pos := ri_pos x + unat (res_data_len r)\<rparr>)\<rparr>;
     h \<leftarrow> read_included_ref h d;
     (i, t) \<leftarrow> bt_att_send env (Some (hl_att h)) BT_ATT_OP_READ_REQ (Some read_pdu) 2
                 (Some Read_included_cb) (Some (Incl_ptr d)) (Some Read_included_unref);
     t \<leftarrow> t;
     Some (i, h\<lparr>hl_att := t\<rparr>) }"

definition include_request :: "u16 \<Rightarrow> u16 \<Rightarrow> bytes" where
  "include_request start end_handle = put_le16 start @ put_le16 end_handle @ put_le16 GATT_INCLUDE_UUID"

definition read_included_cb :: "'c hl_env \<Rightarrow> 'c gatt_helpers \<Rightarrow> ptr \<Rightarrow> u8 \<Rightarrow> bytes option \<Rightarrow> 'c hl_result" where
  "read_included_cb env h d opcode pdu = do {
     x \<leftarrow> hl_incls h d;
     let p = ri_op x;
     if opcode = BT_ATT_OP_ERROR_RSP then discovery_op_complete env h p False (process_error pdu)
     else case pdu of None \<Rightarrow> discovery_op_complete env h p False 0
     | Some b \<Rightarrow>
         if opcode \<noteq> BT_ATT_OP_READ_RSP \<or> length b \<noteq> 16 then discovery_op_complete env h p False 0
         else do {
           (ok, h) \<leftarrow> result_append env h p opcode b 16;
           op \<leftarrow> hl_reqs h p;
           r \<leftarrow> (if ri_result x < length (rq_results op) then Some (rq_results op ! ri_result x) else None);
           if \<not> ok then discovery_op_complete env h p False 0
           else if ri_pos x = length (res_pdu r)
           then do {
             last_handle \<leftarrow> (if unat (res_data_len r) \<le> ri_pos x
                             then Some (get_le16 (drop (ri_pos x - unat (res_data_len r)) (res_pdu r))) else None);
             if last_handle = rq_end_handle op then discovery_op_complete env h p True 0
             else request_continue env h p BT_ATT_OP_READ_BY_TYPE_REQ (include_request (last_handle + 1) (rq_end_handle op))
                    Discover_included_cb }
           else do {
             (i, h) \<leftarrow> send_read_included env h d;
             if i \<noteq> 0 then Some (h, [])
             else do {
               (h, es) \<leftarrow> read_included_unref env h d;
               (h, es') \<leftarrow> discovery_op_complete env h p False 0;
               Some (h, es @ es') } } } }"

definition read_included :: "'c hl_env \<Rightarrow> 'c gatt_helpers \<Rightarrow> ptr \<Rightarrow> 'c hl_result" where
  "read_included env h d = do {
     x \<leftarrow> hl_incls h d;
     (i, h) \<leftarrow> send_read_included env h d;
     op \<leftarrow> hl_reqs h (ri_op x);
     if i \<noteq> 0 then Some (h, [])
     else do {
       (h, es) \<leftarrow> read_included_unref env h d;
       Some (h, (case rq_callback op of None \<Rightarrow> [] | Some f \<Rightarrow> [Hl_callback f False 0 None (rq_user_data op)]) @ es) } }"

definition discover_included_cb :: "'c hl_env \<Rightarrow> 'c gatt_helpers \<Rightarrow> ptr \<Rightarrow> u8 \<Rightarrow> bytes option \<Rightarrow> 'c hl_result" where
  "discover_included_cb env h p opcode pdu =
     (if opcode = BT_ATT_OP_ERROR_RSP then discovery_op_complete env h p False (process_error pdu)
      else case pdu of None \<Rightarrow> discovery_op_complete env h p False 0
      | Some b \<Rightarrow>
          if opcode \<noteq> BT_ATT_OP_READ_BY_TYPE_RSP \<or> length b < 6 then discovery_op_complete env h p False 0
          else let data_length = unat (hd b)
            in if data_length \<noteq> 8 \<and> data_length \<noteq> 6 \<or> (length b - 1) mod data_length \<noteq> 0
               then discovery_op_complete env h p False 0
               else do {
                 (ok, h) \<leftarrow> result_append env h p opcode (tl b) (of_nat data_length);
                 op \<leftarrow> hl_reqs h p;
                 let last_handle = get_le16 (drop (length b - data_length) b);
                 if \<not> ok then discovery_op_complete env h p False 0
                 else if data_length = 6
                 then do {
                   (d, h) \<leftarrow> new_read_included h p (length (rq_results op) - 1);
                   read_included env h d }
                 else if last_handle < rq_start_handle op then discovery_op_complete env h p False 0
                 else do {
                   let op = op\<lparr>rq_start_handle := last_handle + 1\<rparr>;
                   let h = put_req h p op;
                   if last_handle \<noteq> rq_end_handle op
                   then request_continue env h p BT_ATT_OP_READ_BY_TYPE_REQ
                          (include_request (rq_start_handle op) (rq_end_handle op)) Discover_included_cb
                   else discovery_op_complete env h p True 0 } })"

definition bt_gatt_discover_included_services ::
    "'c hl_env \<Rightarrow> 'c gatt_helpers \<Rightarrow> u16 \<Rightarrow> u16 \<Rightarrow> 'c option \<Rightarrow> 'c option \<Rightarrow> 'c option
       \<Rightarrow> (ptr option \<times> 'c gatt_helpers) option" where
  "bt_gatt_discover_included_services env h start end_handle callback user_data destroy =
     request_start env h (new_request start end_handle BT_UUID_UNSPEC 0 callback user_data destroy)
       BT_ATT_OP_READ_BY_TYPE_REQ (include_request start end_handle) Discover_included_cb"

section \<open>Characteristics, values by type and descriptors\<close>

definition chrc_request :: "u16 \<Rightarrow> u16 \<Rightarrow> bytes" where
  "chrc_request start end_handle = put_le16 start @ put_le16 end_handle @ put_le16 GATT_CHARAC_UUID"

text \<open>
  The common end of the callbacks for characteristics, values by type and descriptors, from the test
  of the last handle on: \<open>req\<close> is the PDU of the next request.
\<close>

definition handles_continue ::
    "'c hl_env \<Rightarrow> 'c gatt_helpers \<Rightarrow> ptr \<Rightarrow> u16 \<Rightarrow> u8 \<Rightarrow> (u16 \<Rightarrow> u16 \<Rightarrow> bytes) \<Rightarrow> 'c hfn \<Rightarrow> 'c hl_result" where
  "handles_continue env h p last_handle opcode req cb = do {
     op \<leftarrow> hl_reqs h p;
     if last_handle < rq_start_handle op then discovery_op_complete env h p False 0
     else do {
       let op = op\<lparr>rq_start_handle := last_handle + 1\<rparr>;
       let h = put_req h p op;
       if last_handle \<noteq> rq_end_handle op
       then request_continue env h p opcode (req (rq_start_handle op) (rq_end_handle op)) cb
       else discovery_op_complete env h p True 0 } }"

definition discover_chrcs_cb :: "'c hl_env \<Rightarrow> 'c gatt_helpers \<Rightarrow> ptr \<Rightarrow> u8 \<Rightarrow> bytes option \<Rightarrow> 'c hl_result" where
  "discover_chrcs_cb env h p opcode pdu =
     (if opcode = BT_ATT_OP_ERROR_RSP then discovery_op_complete env h p False (process_error pdu)
      else case pdu of None \<Rightarrow> discovery_op_complete env h p False 0
      | Some b \<Rightarrow>
          if opcode \<noteq> BT_ATT_OP_READ_BY_TYPE_RSP \<or> length b < 8 then discovery_op_complete env h p False 0
          else let data_length = unat (hd b)
            in if data_length \<noteq> 7 \<and> data_length \<noteq> 21 \<or> (length b - 1) mod data_length \<noteq> 0
               then discovery_op_complete env h p False 0
               else do {
                 (ok, h) \<leftarrow> result_append env h p opcode (tl b) (of_nat data_length);
                 if \<not> ok then discovery_op_complete env h p False 0
                 else handles_continue env h p (get_le16 (drop (length b - data_length) b)) BT_ATT_OP_READ_BY_TYPE_REQ
                        chrc_request Discover_chrcs_cb })"

definition bt_gatt_discover_characteristics ::
    "'c hl_env \<Rightarrow> 'c gatt_helpers \<Rightarrow> u16 \<Rightarrow> u16 \<Rightarrow> 'c option \<Rightarrow> 'c option \<Rightarrow> 'c option
       \<Rightarrow> (ptr option \<times> 'c gatt_helpers) option" where
  "bt_gatt_discover_characteristics env h start end_handle callback user_data destroy =
     request_start env h (new_request start end_handle BT_UUID_UNSPEC 0 callback user_data destroy)
       BT_ATT_OP_READ_BY_TYPE_REQ (chrc_request start end_handle) Discover_chrcs_cb"

text \<open>
  The length of a data set is whatever the peer sent.  A length of 0 divides by zero, and with a
  length of 1, or an empty list, the last handle is read outside the PDU.
\<close>

definition read_by_type_cb :: "'c hl_env \<Rightarrow> 'c gatt_helpers \<Rightarrow> ptr \<Rightarrow> u8 \<Rightarrow> bytes option \<Rightarrow> 'c hl_result" where
  "read_by_type_cb env h p opcode pdu =
     (if opcode = BT_ATT_OP_ERROR_RSP then discovery_op_complete env h p False (process_error pdu)
      else case pdu of None \<Rightarrow> discovery_op_complete env h p False 0
      | Some b \<Rightarrow>
          if opcode \<noteq> BT_ATT_OP_READ_BY_TYPE_RSP then discovery_op_complete env h p False 0
          else let data_length = unat (hd b)
            in if b = [] \<or> data_length = 0 then None
               else if (length b - 1) mod data_length \<noteq> 0 then discovery_op_complete env h p False 0
               else do {
                 (ok, h) \<leftarrow> result_append env h p opcode (tl b) (of_nat data_length);
                 op \<leftarrow> hl_reqs h p;
                 if \<not> ok then discovery_op_complete env h p False 0
                 else if data_length < 2 \<or> length b < data_length then None
                 else handles_continue env h p (get_le16 (drop (length b - data_length) b)) BT_ATT_OP_READ_BY_TYPE_REQ
                        (\<lambda>start end_handle. put_le16 start @ put_le16 end_handle @ the (bt_uuid_to_le (rq_uuid op)))
                        Read_by_type_cb })"

definition bt_gatt_read_by_type ::
    "'c hl_env \<Rightarrow> 'c gatt_helpers \<Rightarrow> u16 \<Rightarrow> u16 \<Rightarrow> bt_uuid_t option \<Rightarrow> 'c option \<Rightarrow> 'c option \<Rightarrow> 'c option
       \<Rightarrow> (bool \<times> 'c gatt_helpers) option" where
  "bt_gatt_read_by_type env h start end_handle uuid callback user_data destroy =
     (case uuid of None \<Rightarrow> Some (False, h)
      | Some u \<Rightarrow>
          (case bt_uuid_to_le u of None \<Rightarrow> Some (False, h)
           | Some le \<Rightarrow> do {
               let p = hl_next h;
               h \<leftarrow> request_send env
                     (put_req (h\<lparr>hl_next := p + 1\<rparr>) p (new_request start end_handle u 0 callback user_data destroy)) p
                     BT_ATT_OP_READ_BY_TYPE_REQ (put_le16 start @ put_le16 end_handle @ le) Read_by_type_cb;
               r \<leftarrow> hl_reqs h p;
               if rq_id r \<noteq> 0 then Some (True, h) else Some (False, h\<lparr>hl_reqs := (hl_reqs h)(p := None)\<rparr>) }))"

definition desc_request :: "u16 \<Rightarrow> u16 \<Rightarrow> bytes" where
  "desc_request start end_handle = put_le16 start @ put_le16 end_handle"

definition discover_descs_cb :: "'c hl_env \<Rightarrow> 'c gatt_helpers \<Rightarrow> ptr \<Rightarrow> u8 \<Rightarrow> bytes option \<Rightarrow> 'c hl_result" where
  "discover_descs_cb env h p opcode pdu =
     (if opcode = BT_ATT_OP_ERROR_RSP then discovery_op_complete env h p False (process_error pdu)
      else case pdu of None \<Rightarrow> discovery_op_complete env h p False 0
      | Some b \<Rightarrow>
          if opcode \<noteq> BT_ATT_OP_FIND_INFO_RSP \<or> length b < 5 then discovery_op_complete env h p False 0
          else if hd b \<noteq> 0x01 \<and> hd b \<noteq> 0x02 then discovery_op_complete env h p False 0
          else let data_length = (if hd b = 0x01 then 4 else 18)
            in if (length b - 1) mod data_length \<noteq> 0 then discovery_op_complete env h p False 0
               else do {
                 (ok, h) \<leftarrow> result_append env h p opcode (tl b) (of_nat data_length);
                 if \<not> ok then discovery_op_complete env h p False 0
                 else handles_continue env h p (get_le16 (drop (length b - data_length) b)) BT_ATT_OP_FIND_INFO_REQ
                        desc_request Discover_descs_cb })"

definition bt_gatt_discover_descriptors ::
    "'c hl_env \<Rightarrow> 'c gatt_helpers \<Rightarrow> u16 \<Rightarrow> u16 \<Rightarrow> 'c option \<Rightarrow> 'c option \<Rightarrow> 'c option
       \<Rightarrow> (ptr option \<times> 'c gatt_helpers) option" where
  "bt_gatt_discover_descriptors env h start end_handle callback user_data destroy =
     request_start env h (new_request start end_handle BT_UUID_UNSPEC 0 callback user_data destroy)
       BT_ATT_OP_FIND_INFO_REQ (desc_request start end_handle) Discover_descs_cb"

section \<open>Dispatch\<close>

text \<open>The calls of the ATT engine: callbacks of its operations and the release of their data.\<close>

definition hl_call :: "'c hl_env \<Rightarrow> 'c gatt_helpers \<Rightarrow> 'c hfn \<Rightarrow> u8 \<Rightarrow> bytes option \<Rightarrow> 'c hfn option \<Rightarrow> 'c hl_result" where
  "hl_call env h f opcode pdu ud =
     (case (f, ud) of
        (Read_by_grp_type_cb, Some (Req_ptr p)) \<Rightarrow> read_by_grp_type_cb env h p opcode pdu
      | (Find_by_type_val_cb, Some (Req_ptr p)) \<Rightarrow> find_by_type_val_cb env h p opcode pdu
      | (Discover_included_cb, Some (Req_ptr p)) \<Rightarrow> discover_included_cb env h p opcode pdu
      | (Read_included_cb, Some (Incl_ptr d)) \<Rightarrow> read_included_cb env h d opcode pdu
      | (Discover_chrcs_cb, Some (Req_ptr p)) \<Rightarrow> discover_chrcs_cb env h p opcode pdu
      | (Read_by_type_cb, Some (Req_ptr p)) \<Rightarrow> read_by_type_cb env h p opcode pdu
      | (Discover_descs_cb, Some (Req_ptr p)) \<Rightarrow> discover_descs_cb env h p opcode pdu
      | (Mtu_cb, Some (Mtu_ptr p)) \<Rightarrow> mtu_cb env h p opcode pdu
      | _ \<Rightarrow> Some (h, []))"

definition hl_release :: "'c hl_env \<Rightarrow> 'c gatt_helpers \<Rightarrow> 'c hfn \<Rightarrow> 'c hfn option \<Rightarrow> 'c hl_result" where
  "hl_release env h f ud =
     (case (f, ud) of
        (Async_req_unref, Some (Req_ptr p)) \<Rightarrow> async_req_unref env h p
      | (Read_included_unref, Some (Incl_ptr d)) \<Rightarrow> read_included_unref env h d
      | (Destroy_mtu_op, Some (Mtu_ptr p)) \<Rightarrow> destroy_mtu_op h p
      | _ \<Rightarrow> Some (h, []))"

primrec hl_handle_events :: "'c hl_env \<Rightarrow> 'c hfn att_event list \<Rightarrow> 'c gatt_helpers \<Rightarrow> 'c hl_result" where
  "hl_handle_events env [] h = Some (h, [])"
| "hl_handle_events env (e # es) h = do {
     (h, d) \<leftarrow> (case e of
                  Att_op_callback i f opcode pdu ud \<Rightarrow> hl_call env h f opcode pdu ud
                | Att_op_destroy f ud \<Rightarrow> hl_release env h f ud
                | _ \<Rightarrow> Some (h, []));
     (h, ds) \<leftarrow> hl_handle_events env es h;
     Some (h, d @ ds) }"

definition hl_receive :: "'c hl_env \<Rightarrow> 'c gatt_helpers \<Rightarrow> bytes option \<Rightarrow> 'c hl_result" where
  "hl_receive env h bs = do {
     (_, t, es) \<leftarrow> can_read_data env (hl_att h) bs;
     hl_handle_events env es (h\<lparr>hl_att := t\<rparr>) }"

end
