(* ===== verification/Gatt_Helpers_Props.thy ===== *)
theory Gatt_Helpers_Props
  imports Gatt_Helpers Bt_Att_Protocol
begin

text \<open>
  What the discovery procedures of the client promise: a response either ends the procedure with one
  report or sends one further request, from a larger handle; discovery of services ends whatever the
  peer answers.  Where the code does not keep such a promise (the procedures that compare the last
  handle with the end handle by inequality, a read by type with data sets of no length), the lemmas
  say so.
\<close>

section \<open>Sending a request\<close>

text \<open>A short unsigned request: it is queued with a fresh identifier, or refused with the state unchanged.\<close>

definition queued_op :: "u32 \<Rightarrow> u8 \<Rightarrow> bytes \<Rightarrow> 'c hfn \<Rightarrow> 'c hfn \<Rightarrow> 'c hfn \<Rightarrow> 'c hfn att_send_op" where
  "queued_op i opcode pdu cb ud d =
     \<lparr>op_id = i, op_timeout_id = 0, op_type = ATT_OP_TYPE_REQ, op_opcode = opcode, op_pdu = opcode # pdu,
      op_callback = Some cb, op_destroy = Some d, op_user_data = Some ud\<rparr>"

definition next_id :: "'c bt_att \<Rightarrow> u32" where
  "next_id att = (if next_send_id att < 1 then 1 else next_send_id att)"

lemma next_id_not_0 [simp]: "next_id att \<noteq> 0"
  by (auto simp: next_id_def word_less_nat_alt unat_eq_0)

definition req_opcode :: "u8 \<Rightarrow> bool" where
  "req_opcode opcode \<longleftrightarrow> get_op_type opcode = ATT_OP_TYPE_REQ \<and> opcode AND ATT_OP_SIGNED_MASK = 0"

lemma request_opcodes [simp]:
  "req_opcode BT_ATT_OP_READ_BY_GRP_TYPE_REQ" "req_opcode BT_ATT_OP_FIND_BY_TYPE_REQ"
  "req_opcode BT_ATT_OP_READ_BY_TYPE_REQ" "req_opcode BT_ATT_OP_FIND_INFO_REQ" "req_opcode BT_ATT_OP_READ_REQ"
  "req_opcode BT_ATT_OP_MTU_REQ"
  by (simp_all add: req_opcode_def opcode_eval ATT_OP_SIGNED_MASK_def BT_ATT_OP_READ_BY_GRP_TYPE_REQ_def
      BT_ATT_OP_FIND_BY_TYPE_REQ_def BT_ATT_OP_READ_BY_TYPE_REQ_def BT_ATT_OP_FIND_INFO_REQ_def BT_ATT_OP_READ_REQ_def
      BT_ATT_OP_MTU_REQ_def)

lemma request_queued:
  assumes "req_opcode opcode" "length pdu < unat (att_mtu att)" "att_io att" "e_mem env"
  shows "bt_att_send env (Some att) opcode (Some pdu) (of_nat (length pdu)) (Some cb) (Some ud) (Some d) =
    Some (next_id att, Some (wakeup_writer env (att\<lparr>next_send_id := next_id att + 1,
            req_queue := req_queue att @ [queued_op (next_id att) opcode pdu cb ud d]\<rparr>)))"
proof -
  have n: "length pdu < 65536" using assms(2) unat_u16_less [of "att_mtu att"] by linarith
  have "encode_pdu env att opcode (Some pdu) (of_nat (length pdu)) = Some (Some (opcode # pdu))"
    using encode_unsigned [of opcode "Some pdu" "of_nat (length pdu)" pdu att env] src_bytes_take [OF n, of pdu] assms n
    by (simp add: req_opcode_def unat_of_nat_less)
  then show ?thesis using assms(1,3)
    by (simp add: bt_att_send_def create_att_send_op_def req_opcode_def Let_def next_id_def queued_op_def)
qed

lemma request_refused:
  assumes "req_opcode opcode" "length pdu < 65000" "\<not> (length pdu < unat (att_mtu att) \<and> att_io att \<and> e_mem env)"
  shows "bt_att_send env (Some att) opcode (Some pdu) (of_nat (length pdu)) (Some cb) (Some ud) (Some d) = Some (0, Some att)"
proof -
  have n: "unat (of_nat (length pdu) :: u16) = length pdu" using assms(2) by (simp add: unat_of_nat_less)
  have "unat (1 + of_nat (length pdu) :: u16) = 1 + length pdu" using assms(2) n by (simp add: unat_word_ariths)
  then have "att_io att \<Longrightarrow> encode_pdu env att opcode (Some pdu) (of_nat (length pdu)) = Some None"
    using assms(1,3) n by (auto simp: encode_pdu_def req_opcode_def Let_def word_less_nat_alt)
  then show ?thesis using assms(1)
    by (simp add: bt_att_send_def create_att_send_op_def req_opcode_def Let_def)
qed

section \<open>One response\<close>

text \<open>The report of a request that ends, and what stays of a request over its callbacks.\<close>

definition report :: "'c bt_gatt_request \<Rightarrow> bool \<Rightarrow> u8 \<Rightarrow> 'c hl_event list" where
  "report op success ecode =
     (case rq_callback op of None \<Rightarrow> []
      | Some f \<Rightarrow>
          let success = success \<or> ecode = BT_ATT_ERROR_ATTRIBUTE_NOT_FOUND \<and> rq_results op \<noteq> []
          in [Hl_callback f success ecode (if success then Some (rq_results op) else None) (rq_user_data op)])"

definition same_request :: "'c bt_gatt_request \<Rightarrow> 'c bt_gatt_request \<Rightarrow> bool" where
  "same_request op op' \<longleftrightarrow>
     rq_end_handle op' = rq_end_handle op \<and> rq_uuid op' = rq_uuid op \<and> rq_service_type op' = rq_service_type op \<and>
     rq_callback op' = rq_callback op \<and> rq_user_data op' = rq_user_data op \<and> rq_destroy op' = rq_destroy op \<and>
     (\<exists>xs. rq_results op' = rq_results op @ xs)"

definition ended :: "ptr \<Rightarrow> 'c bt_gatt_request \<Rightarrow> 'c hl_result \<Rightarrow> bool" where
  "ended p op r \<longleftrightarrow>
     (\<exists>h op' success ecode. r = Some (h, report op' success ecode) \<and> hl_reqs h p = Some op' \<and> same_request op op' \<and>
        rq_id op' = 0 \<and> rq_ref_count op' = rq_ref_count op)"

definition asked :: "ptr \<Rightarrow> 'c bt_gatt_request \<Rightarrow> u16 \<Rightarrow> 'c hl_result \<Rightarrow> bool" where
  "asked p op start r \<longleftrightarrow>
     (\<exists>h op'. r = Some (h, []) \<and> hl_reqs h p = Some op' \<and> same_request op op' \<and>
        rq_id op' \<noteq> 0 \<and> rq_ref_count op' = rq_ref_count op + 1 \<and> rq_start_handle op' = start)"

lemma put_req_simps [simp]:
  "hl_reqs (put_req h p op) = (hl_reqs h)(p \<mapsto> op)" "hl_att (put_req h p op) = hl_att h"
  "hl_incls (put_req h p op) = hl_incls h" "hl_mtus (put_req h p op) = hl_mtus h" "hl_next (put_req h p op) = hl_next h"
  "put_req (put_req h p op) p op' = put_req h p op'"
  by (simp_all add: put_req_def)

lemma same_request_refl [simp]: "same_request op op"
  by (simp add: same_request_def)

lemma complete_ended:
  assumes "hl_reqs h p = Some op'" "rq_id op' \<noteq> 0" "same_request op op'" "rq_ref_count op' = rq_ref_count op"
  shows "ended p op (discovery_op_complete env h p success ecode)"
proof -
  have "discovery_op_complete env h p success ecode =
    Some (put_req h p (op'\<lparr>rq_id := 0\<rparr>), report (op'\<lparr>rq_id := 0\<rparr>) success ecode)"
    using assms(1,2) by (simp add: discovery_op_complete_def report_def Let_def split: option.split)
  then show ?thesis using assms(3,4) by (auto simp: ended_def same_request_def)
qed

lemma unref_shared:
  assumes "hl_reqs h p = Some op" "rq_ref_count op \<noteq> 1"
  shows "bt_gatt_request_unref env h p = Some (put_req h p (op\<lparr>rq_ref_count := rq_ref_count op - 1\<rparr>), [])"
  using assms by (subst bt_gatt_request_unref.simps) (simp add: Let_def)

text \<open>The state after a request was sent: the reference, the identifier and the queue of the connection.\<close>

lemma request_send_cases:
  assumes "hl_reqs h p = Some op" "req_opcode opcode" "length pdu < 65000"
  shows "request_send env h p opcode pdu cb = Some
    (if length pdu < unat (att_mtu (hl_att h)) \<and> att_io (hl_att h) \<and> e_mem env
     then put_req (h\<lparr>hl_att := wakeup_writer env ((hl_att h)\<lparr>next_send_id := next_id (hl_att h) + 1,
            req_queue := req_queue (hl_att h) @ [queued_op (next_id (hl_att h)) opcode pdu cb (Req_ptr p) Async_req_unref]\<rparr>)\<rparr>) p
            (op\<lparr>rq_ref_count := rq_ref_count op + 1, rq_id := next_id (hl_att h)\<rparr>)
     else put_req h p (op\<lparr>rq_ref_count := rq_ref_count op + 1, rq_id := 0\<rparr>))"
  using assms request_queued [OF assms(2), of pdu "hl_att h" env cb "Req_ptr p" Async_req_unref]
    request_refused [OF assms(2,3), of "hl_att h" env cb "Req_ptr p" Async_req_unref]
  by (auto simp: request_send_def bt_gatt_request_ref_def put_req_def)

lemma continue_cases:
  assumes "hl_reqs h p = Some op'" "req_opcode opcode" "length pdu < 65000" "1 \<le> rq_ref_count op"
    "same_request op op'" "rq_ref_count op' = rq_ref_count op"
  shows "asked p op (rq_start_handle op') (request_continue env h p opcode pdu cb) \<or>
    ended p op (request_continue env h p opcode pdu cb)"
proof (cases "length pdu < unat (att_mtu (hl_att h)) \<and> att_io (hl_att h) \<and> e_mem env")
  case True
  then have "asked p op (rq_start_handle op') (request_continue env h p opcode pdu cb)"
    using assms(5,6) by (simp add: request_continue_def request_send_cases [OF assms(1-3)] asked_def same_request_def)
  then show ?thesis ..
next
  case False
  let ?op = "op'\<lparr>rq_ref_count := rq_ref_count op' + 1, rq_id := 0\<rparr>"
  have "bt_gatt_request_unref env (put_req h p ?op) p = Some (put_req h p (op'\<lparr>rq_id := 0\<rparr>), [])"
    using assms(4) by (subst unref_shared [of _ _ ?op]) (use assms(6) in \<open>cases op'; simp\<close>)+
  then have "request_continue env h p opcode pdu cb =
      Some (put_req h p (op'\<lparr>rq_id := 0\<rparr>), report (op'\<lparr>rq_id := 0\<rparr>) False 0)"
    using request_send_cases [OF assms(1-3), of env cb, unfolded if_not_P [OF False]]
    by (simp add: request_continue_def discovery_op_complete_def async_req_unref_def report_def Let_def
        split: option.split)
  then have "ended p op (request_continue env h p opcode pdu cb)"
    using assms(5,6) by (auto simp: ended_def same_request_def)
  then show ?thesis ..
qed


lemma append_eval:
  assumes "hl_reqs h p = Some op"
  shows "result_append env h p opcode pdu n = Some
    (if e_mem env
     then (True, put_req h p (op\<lparr>rq_results := rq_results op @ [\<lparr>res_opcode = opcode, res_pdu = pdu, res_data_len = n\<rparr>]\<rparr>))
     else (False, h))"
  using assms by (simp add: result_append_def result_create_def)

definition service_step :: "ptr \<Rightarrow> 'c bt_gatt_request \<Rightarrow> 'c hl_result \<Rightarrow> bool" where
  "service_step p op r \<longleftrightarrow>
     ended p op r \<or> (\<exists>start. rq_start_handle op < start \<and> start \<le> rq_end_handle op \<and> asked p op start r)"

lemma u16_next:
  assumes "(a :: u16) \<le> l" "l < e"
  shows "a < l + 1 \<and> l + 1 \<le> e"
proof -
  have "unat l + 1 < 65536" using assms(2) unat_u16_less [of e] unfolding word_less_nat_alt by linarith
  then have "unat (l + 1) = unat l + 1" by (simp add: unat_word_ariths)
  then show ?thesis using assms by (simp add: word_less_nat_alt word_le_nat_alt)
qed

lemma service_continue:
  assumes "hl_reqs h p = Some op1" "op' = op1\<lparr>rq_start_handle := l + 1\<rparr>" "same_request op op1" "rq_ref_count op1 = rq_ref_count op"
    "req_opcode opcode" "length pdu < 65000" "1 \<le> rq_ref_count op" "rq_start_handle op \<le> l" "l < rq_end_handle op"
  shows "service_step p op (request_continue env (put_req h p op') p opcode pdu cb)"
proof -
  have *: "hl_reqs (put_req h p op') p = Some op'" "same_request op op'" "rq_ref_count op' = rq_ref_count op"
    using assms(2-4) by (simp_all add: same_request_def)
  have st: "rq_start_handle op' = l + 1" by (simp add: assms(2))
  from continue_cases [OF *(1) assms(5-7) *(2,3), of env cb, unfolded st] show ?thesis
    unfolding service_step_def using u16_next [OF assms(8,9)] by blast
qed

text \<open>A well-formed response: the last end handle, the request with the response, and what the callback does.\<close>

definition grp_rsp :: "bytes \<Rightarrow> bool" where
  "grp_rsp b \<longleftrightarrow> 7 \<le> length b \<and> (unat (hd b) = 6 \<or> unat (hd b) = 20) \<and> (length b - 1) mod unat (hd b) = 0"

definition last_end :: "bytes \<Rightarrow> u16" where
  "last_end b = get_le16 (drop (length b - unat (hd b) + 2) b)"

definition with_result :: "'c bt_gatt_request \<Rightarrow> u8 \<Rightarrow> bytes \<Rightarrow> u16 \<Rightarrow> 'c bt_gatt_request" where
  "with_result op opcode pdu n =
     op\<lparr>rq_results := rq_results op @ [\<lparr>res_opcode = opcode, res_pdu = pdu, res_data_len = n\<rparr>]\<rparr>"

lemma with_result_simps [simp]:
  "rq_start_handle (with_result op oc b n) = rq_start_handle op" "rq_end_handle (with_result op oc b n) = rq_end_handle op"
  "rq_id (with_result op oc b n) = rq_id op" "rq_ref_count (with_result op oc b n) = rq_ref_count op"
  "rq_service_type (with_result op oc b n) = rq_service_type op" "rq_uuid (with_result op oc b n) = rq_uuid op"
  "rq_results (with_result op oc b n) = rq_results op @ [\<lparr>res_opcode = oc, res_pdu = b, res_data_len = n\<rparr>]"
  "rq_callback (with_result op oc b n) = rq_callback op" "rq_user_data (with_result op oc b n) = rq_user_data op"
  "rq_destroy (with_result op oc b n) = rq_destroy op" "same_request op (with_result op oc b n)"
  by (simp_all add: with_result_def same_request_def)

lemma grp_rsp_len: "grp_rsp b \<Longrightarrow> unat (hd b) \<le> length b - 1"
  by (cases "length b - 1 < unat (hd b)") (auto simp: grp_rsp_def)

lemma grp_type_eval:
  assumes "hl_reqs h p = Some op" "grp_rsp b" "e_mem env"
  obtains d where "read_by_grp_type_cb env h p BT_ATT_OP_READ_BY_GRP_TYPE_RSP (Some b) =
    (let op1 = with_result op BT_ATT_OP_READ_BY_GRP_TYPE_RSP (tl b) (ucast (hd b));
         op2 = op1\<lparr>rq_start_handle := last_end b + 1\<rparr>
     in if last_end b < rq_start_handle op then discovery_op_complete env (put_req h p op1) p False 0
        else if last_end b < rq_end_handle op
        then request_continue env (put_req h p op2) p BT_ATT_OP_READ_BY_GRP_TYPE_REQ
               (put_le16 (last_end b + 1) @ put_le16 (rq_end_handle op) @ put_le16 (rq_service_type op)) Read_by_grp_type_cb
        else if last_end b = 0xffff \<and> rq_end_handle op \<noteq> 0xffff
        then discovery_op_complete env (put_req h p (op2\<lparr>rq_results := rq_results op @
               [\<lparr>res_opcode = BT_ATT_OP_READ_BY_GRP_TYPE_RSP, res_pdu = d, res_data_len = ucast (hd b)\<rparr>]\<rparr>)) p True 0
        else discovery_op_complete env (put_req h p op2) p True 0)"
proof -
  obtain d where d: "buf_write (tl b) (length b - unat (hd b) + 1) (put_le16 (rq_end_handle op)) = Some d"
    using grp_rsp_len [OF assms(2)] assms(2) by (force simp: buf_write_def grp_rsp_def)
  have b: "\<not> length b < 7" "\<not> (unat (hd b) \<noteq> 6 \<and> unat (hd b) \<noteq> 20 \<or> (length b - 1) mod unat (hd b) \<noteq> 0)"
    "BT_ATT_OP_READ_BY_GRP_TYPE_RSP \<noteq> BT_ATT_OP_ERROR_RSP"
    using assms(2) by (auto simp: grp_rsp_def BT_ATT_OP_READ_BY_GRP_TYPE_RSP_def BT_ATT_OP_ERROR_RSP_def)
  show ?thesis
    by (rule that [of d])
      (use b d assms(3) in \<open>auto simp: read_by_grp_type_cb_def append_eval [OF assms(1)] Let_def with_result_def last_end_def\<close>)
qed

lemma complete_step:
  assumes "same_request op op'" "rq_ref_count op' = rq_ref_count op" "rq_id op' \<noteq> 0"
  shows "service_step p op (discovery_op_complete env (put_req h p op') p success ecode)"
  using complete_ended [of "put_req h p op'" p op' op] assms by (simp add: service_step_def)

lemma grp_type_accepted:
  assumes "hl_reqs h p = Some op" "rq_id op \<noteq> 0" "1 \<le> rq_ref_count op" "grp_rsp b" "e_mem env"
  shows "service_step p op (read_by_grp_type_cb env h p BT_ATT_OP_READ_BY_GRP_TYPE_RSP (Some b))"
proof -
  define op1 where "op1 = with_result op BT_ATT_OP_READ_BY_GRP_TYPE_RSP (tl b) (ucast (hd b))"
  define op2 where "op2 = op1\<lparr>rq_start_handle := last_end b + 1\<rparr>"
  have op2: "same_request op (op2\<lparr>rq_results := rq_results op @ xs\<rparr>)" "same_request op op2" "rq_ref_count op2 = rq_ref_count op"
    "rq_id op2 \<noteq> 0" for xs
    using assms(2) by (simp_all add: op2_def op1_def same_request_def)
  have cont: "service_step p op (request_continue env (put_req h p op2) p BT_ATT_OP_READ_BY_GRP_TYPE_REQ pdu Read_by_grp_type_cb)"
    if "\<not> last_end b < rq_start_handle op" "last_end b < rq_end_handle op" "length pdu < 65000" for pdu
    using service_continue [of "put_req h p op1" p op1 op2 "last_end b"] assms(3) that op2_def by (simp add: op1_def)
  show ?thesis
    by (rule grp_type_eval [OF assms(1,4,5)], unfold Let_def op1_def [symmetric] op2_def [symmetric])
      (use cont op2 assms(2) in \<open>simp add: complete_step op1_def\<close>)
qed

lemma grp_type_step:
  assumes "hl_reqs h p = Some op" "rq_id op \<noteq> 0" "1 \<le> rq_ref_count op"
  shows "service_step p op (read_by_grp_type_cb env h p opcode pdu)"
proof -
  have fail: "service_step p op (discovery_op_complete env h p s e)" for s e
    using complete_ended [OF assms(1,2)] by (simp add: service_step_def)
  show ?thesis
  proof (cases pdu)
    case None
    then show ?thesis using fail by (simp add: read_by_grp_type_cb_def)
  next
    case (Some b)
    consider "opcode = BT_ATT_OP_ERROR_RSP \<or> opcode \<noteq> BT_ATT_OP_READ_BY_GRP_TYPE_RSP \<or> length b < 7 \<or>
        unat (hd b) \<noteq> 6 \<and> unat (hd b) \<noteq> 20 \<or> (length b - 1) mod unat (hd b) \<noteq> 0"
      | "opcode = BT_ATT_OP_READ_BY_GRP_TYPE_RSP" "7 \<le> length b" "unat (hd b) = 6 \<or> unat (hd b) = 20"
        "(length b - 1) mod unat (hd b) = 0" "\<not> e_mem env"
      | "opcode = BT_ATT_OP_READ_BY_GRP_TYPE_RSP" "grp_rsp b" "e_mem env" by (force simp: grp_rsp_def)
    then show ?thesis
    proof cases
      case 1
      then show ?thesis using Some by (elim disjE; simp add: read_by_grp_type_cb_def Let_def fail)
    next
      case 2
      then show ?thesis using fail Some assms(1)
        by (simp add: read_by_grp_type_cb_def Let_def append_eval BT_ATT_OP_READ_BY_GRP_TYPE_RSP_def BT_ATT_OP_ERROR_RSP_def)
    next
      case 3
      then show ?thesis using grp_type_accepted [OF assms] Some by simp
    qed
  qed
qed

lemma find_type_step:
  assumes "hl_reqs h p = Some op" "rq_id op \<noteq> 0" "1 \<le> rq_ref_count op" "bt_uuid_to_le (rq_uuid op) \<noteq> None"
  shows "service_step p op (find_by_type_val_cb env h p opcode pdu)"
proof -
  have fail: "service_step p op (discovery_op_complete env h p s e)" for s e
    using complete_ended [OF assms(1,2)] by (simp add: service_step_def)
  obtain le where le: "bt_uuid_to_le (rq_uuid op) = Some le" "length le \<le> 16"
    using assms(4) uuid_le_length by fastforce
  show ?thesis
  proof (cases "opcode = BT_ATT_OP_ERROR_RSP \<or> pdu = None \<or> opcode \<noteq> BT_ATT_OP_FIND_BY_TYPE_RSP \<or>
      the pdu = [] \<or> length (the pdu) mod 4 \<noteq> 0 \<or> \<not> e_mem env")
    case True
    then show ?thesis using assms(1)
      by (cases pdu; elim disjE; simp add: find_by_type_val_cb_def append_eval fail)
  next
    case False
    then obtain b where b: "pdu = Some b" "opcode = BT_ATT_OP_FIND_BY_TYPE_RSP" "b \<noteq> []" "length b mod 4 = 0" "e_mem env"
      by auto
    define l where "l = get_le16 (drop (length b - 2) b)"
    define op1 where "op1 = with_result op BT_ATT_OP_FIND_BY_TYPE_RSP b 4"
    define op2 where "op2 = op1\<lparr>rq_start_handle := l + 1\<rparr>"
    have op2: "same_request op op2" "rq_ref_count op2 = rq_ref_count op" "rq_id op2 \<noteq> 0"
      using assms(2) by (simp_all add: op2_def op1_def same_request_def)
    have cont: "service_step p op (request_continue env (put_req h p op2) p BT_ATT_OP_FIND_BY_TYPE_REQ q Find_by_type_val_cb)"
      if "\<not> l < rq_start_handle op" "l < rq_end_handle op" "length q < 65000" for q
      using service_continue [of "put_req h p op1" p op1 op2 l] assms(3) that op2_def by (simp add: op1_def)
    have "find_by_type_val_cb env h p opcode pdu =
      (if l < rq_start_handle op then discovery_op_complete env (put_req h p op1) p False 0
       else if l < rq_end_handle op
       then request_continue env (put_req h p op2) p BT_ATT_OP_FIND_BY_TYPE_REQ
              (put_le16 (l + 1) @ put_le16 (rq_end_handle op) @ put_le16 (rq_service_type op) @ le) Find_by_type_val_cb
       else discovery_op_complete env (put_req h p op2) p True 0)"
      using b le(1) by (auto simp: find_by_type_val_cb_def append_eval [OF assms(1)] Let_def with_result_def l_def op1_def op2_def
          BT_ATT_OP_FIND_BY_TYPE_RSP_def BT_ATT_OP_ERROR_RSP_def)
    then show ?thesis using cont op2 assms(2) le(2) by (simp add: complete_step op1_def)
  qed
qed

section \<open>Discovery of services ends\<close>

text \<open>
  The runs of a discovery of services after \<open>n\<close> responses that did not end it.  The peer chooses every
  response, and between two of them the connection and the other requests may change in any way; the
  request itself changes its reference count only.  A request by UUID has a UUID with a type.
\<close>

inductive asking :: "ptr \<Rightarrow> 'c gatt_helpers \<Rightarrow> nat \<Rightarrow> 'c gatt_helpers \<Rightarrow> bool" for p h where
  asking_start: "asking p h 0 h"
| asking_other:
    "asking p h n h1 \<Longrightarrow> hl_reqs h1 p = Some op \<Longrightarrow> hl_reqs h2 p = Some (op\<lparr>rq_ref_count := k\<rparr>) \<Longrightarrow> 1 \<le> k \<Longrightarrow>
       asking p h n h2"
| asking_grp_type:
    "asking p h n h1 \<Longrightarrow> read_by_grp_type_cb env h1 p opcode pdu = Some (h2, es) \<Longrightarrow>
       hl_reqs h2 p = Some op \<Longrightarrow> rq_id op \<noteq> 0 \<Longrightarrow> asking p h (Suc n) h2"
| asking_find_type:
    "asking p h n h1 \<Longrightarrow> hl_reqs h1 p = Some op1 \<Longrightarrow> bt_uuid_to_le (rq_uuid op1) \<noteq> None \<Longrightarrow>
       find_by_type_val_cb env h1 p opcode pdu = Some (h2, es) \<Longrightarrow>
       hl_reqs h2 p = Some op \<Longrightarrow> rq_id op \<noteq> 0 \<Longrightarrow> asking p h (Suc n) h2"

definition open_request :: "'c bt_gatt_request \<Rightarrow> bool" where
  "open_request op \<longleftrightarrow> rq_id op \<noteq> 0 \<and> 1 \<le> rq_ref_count op"

lemma step_asked:
  assumes "service_step p op r" "r = Some (h, es)" "hl_reqs h p = Some op'" "rq_id op' \<noteq> 0" "open_request op"
  shows "open_request op' \<and> rq_end_handle op' = rq_end_handle op \<and> rq_start_handle op < rq_start_handle op' \<and>
    rq_start_handle op' \<le> rq_end_handle op"
  using assms by (auto simp: service_step_def ended_def asked_def same_request_def open_request_def)

lemma asking_inv:
  assumes "asking p h n h'" "hl_reqs h p = Some op" "open_request op"
  shows "\<exists>op'. hl_reqs h' p = Some op' \<and> open_request op' \<and> rq_end_handle op' = rq_end_handle op \<and>
    unat (rq_start_handle op) + n \<le> unat (rq_start_handle op') \<and>
    (n = 0 \<or> unat (rq_start_handle op') \<le> unat (rq_end_handle op))"
  using assms(1)
proof induction
  case (asking_grp_type n h1 env opcode pdu h2 es op2)
  from asking_grp_type.IH obtain op1 where op1: "hl_reqs h1 p = Some op1" "open_request op1"
    "rq_end_handle op1 = rq_end_handle op" "unat (rq_start_handle op) + n \<le> unat (rq_start_handle op1)" by blast
  have "service_step p op1 (read_by_grp_type_cb env h1 p opcode pdu)"
    using grp_type_step [OF op1(1)] op1(2) by (simp add: open_request_def)
  from step_asked [OF this asking_grp_type.hyps(2-4) op1(2)] op1(3,4) asking_grp_type.hyps(3) show ?case
    by (simp add: word_less_nat_alt word_le_nat_alt)
next
  case (asking_find_type n h1 op0 env opcode pdu h2 es op2)
  from asking_find_type.IH obtain op1 where op1: "hl_reqs h1 p = Some op1" "open_request op1"
    "rq_end_handle op1 = rq_end_handle op" "unat (rq_start_handle op) + n \<le> unat (rq_start_handle op1)" by blast
  have "service_step p op1 (find_by_type_val_cb env h1 p opcode pdu)"
    using find_type_step [OF op1(1)] op1(1,2) asking_find_type.hyps(2,3) by (simp add: open_request_def)
  from step_asked [OF this asking_find_type.hyps(4-6) op1(2)] op1(3,4) asking_find_type.hyps(5) show ?case
    by (simp add: word_less_nat_alt word_le_nat_alt)
qed (use assms(2,3) in \<open>auto simp: open_request_def\<close>)

text \<open>
  C11: discovery of services ends whatever the peer answers.  After any sequence of responses that did
  not end it, at most as many requests were sent as there are handles between the start and the end
  of the range, and the next response makes the callback return: it either ends the discovery with
  exactly one report or sends one further request, from a strictly larger handle within the range.
\<close>

theorem discovery_terminates:
  assumes "asking p h n h'" "hl_reqs h p = Some op" "open_request op"
  shows "n \<le> unat (rq_end_handle op) - unat (rq_start_handle op) \<and>
    (\<exists>op'. hl_reqs h' p = Some op' \<and>
       (\<forall>env opcode pdu. service_step p op' (read_by_grp_type_cb env h' p opcode pdu)) \<and>
       (bt_uuid_to_le (rq_uuid op') \<noteq> None \<longrightarrow>
         (\<forall>env opcode pdu. service_step p op' (find_by_type_val_cb env h' p opcode pdu))))"
proof -
  obtain op' where op': "hl_reqs h' p = Some op'" "open_request op'"
    "unat (rq_start_handle op) + n \<le> unat (rq_start_handle op')"
    "n = 0 \<or> unat (rq_start_handle op') \<le> unat (rq_end_handle op)" using asking_inv [OF assms] by blast
  then have "n \<le> unat (rq_end_handle op) - unat (rq_start_handle op)" by auto
  with op'(1,2) grp_type_step [OF op'(1)] find_type_step [OF op'(1)] show ?thesis by (auto simp: open_request_def)
qed

text \<open>A client that has asked for all primary services, and the response with the services 1 to 5.\<close>

definition cl_env :: "nat hl_env" where
  "cl_env =
     \<lparr>e_mem = True, e_write_handler = True, e_send = (\<lambda>bs. int (length bs)), e_timeout = 7, e_security = 1,
      e_set_security = True, e_sign = (\<lambda>key msg c. Some (replicate 12 0)), e_counter = (\<lambda>f u c. Some 1),
      e_junk = (\<lambda>_. 0)\<rparr>"

definition cl_state :: "nat gatt_helpers" where
  "cl_state = \<lparr>hl_att = the (bt_att_new cl_env 3 True True False True 1 0), hl_reqs = Map.empty, hl_incls = Map.empty,
     hl_mtus = Map.empty, hl_next = 1\<rparr>"

definition cl_asking :: "nat gatt_helpers" where
  "cl_asking = snd (the (bt_gatt_discover_all_primary_services cl_env cl_state None (Some 100) None None))"

definition cl_rsp :: bytes where "cl_rsp = [6, 1, 0, 5, 0, 0x00, 0x18]"

definition cl_asked :: "nat gatt_helpers" where
  "cl_asked = fst (the (read_by_grp_type_cb cl_env cl_asking 1 BT_ATT_OP_READ_BY_GRP_TYPE_RSP (Some cl_rsp)))"

lemma cl_att: "att_mtu (hl_att cl_state) = 23" "att_io (hl_att cl_state)" "hl_reqs cl_state = Map.empty" "hl_next cl_state = 1"
  "e_mem cl_env" "next_id (hl_att cl_state) = 1"
  by (simp_all add: cl_state_def cl_env_def bt_att_new_def bt_att_ref_def BT_ATT_DEFAULT_LE_MTU_def next_id_def)

definition cl_request :: "nat bt_gatt_request" where
  "cl_request = (new_request 1 0xffff BT_UUID_UNSPEC GATT_PRIM_SVC_UUID (Some 100) None None)\<lparr>rq_ref_count := 2, rq_id := 1\<rparr>"

lemma cl_asking_req:
  "hl_reqs cl_asking 1 = Some cl_request" "att_mtu (hl_att cl_asking) = 23" "att_io (hl_att cl_asking)"
  by (simp_all add: cl_asking_def bt_gatt_discover_all_primary_services_def bt_gatt_discover_primary_services_def
      discover_services_def request_start_def request_send_cases cl_att Let_def bt_gatt_request_ref_def cl_request_def new_request_def)

lemma cl_asked_req: "read_by_grp_type_cb cl_env cl_asking 1 BT_ATT_OP_READ_BY_GRP_TYPE_RSP (Some cl_rsp) = Some (cl_asked, [])"
  "\<exists>op. hl_reqs cl_asked 1 = Some op \<and> rq_id op \<noteq> 0"
proof -
  have "grp_rsp cl_rsp" "last_end cl_rsp = 5" by (simp_all add: grp_rsp_def last_end_def cl_rsp_def)
  then have "\<exists>h. read_by_grp_type_cb cl_env cl_asking 1 BT_ATT_OP_READ_BY_GRP_TYPE_RSP (Some cl_rsp) = Some (h, []) \<and>
      (\<exists>op. hl_reqs h 1 = Some op \<and> rq_id op \<noteq> 0)"
    by - (rule grp_type_eval [OF cl_asking_req(1) _ cl_att(5)],
        auto simp: Let_def cl_request_def new_request_def request_continue_def request_send_cases cl_asking_req cl_att)
  then show "read_by_grp_type_cb cl_env cl_asking 1 BT_ATT_OP_READ_BY_GRP_TYPE_RSP (Some cl_rsp) = Some (cl_asked, [])"
    "\<exists>op. hl_reqs cl_asked 1 = Some op \<and> rq_id op \<noteq> 0" by (auto simp: cl_asked_def)
qed

text \<open>Witness of \<open>discovery_terminates\<close>: all primary services, after one response.\<close>

theorem discovery_terminates_witness:
  "asking 1 cl_asking 1 cl_asked \<and>
   (\<exists>op'. hl_reqs cl_asked 1 = Some op' \<and> (\<forall>env opcode pdu. service_step 1 op' (read_by_grp_type_cb env cl_asked 1 opcode pdu)))"
proof -
  obtain op where op: "hl_reqs cl_asked 1 = Some op" "rq_id op \<noteq> 0" using cl_asked_req(2) by blast
  have run: "asking 1 cl_asking (Suc 0) cl_asked" by (rule asking_grp_type [OF asking_start cl_asked_req(1) op])
  have "open_request cl_request" by (simp add: open_request_def cl_request_def)
  from discovery_terminates [OF run cl_asking_req(1) this] run show ?thesis by auto
qed

section \<open>Discovery of characteristics and descriptors need not end\<close>

definition can_send :: "'c hl_env \<Rightarrow> 'c gatt_helpers \<Rightarrow> bool" where
  "can_send env h \<longleftrightarrow> e_mem env \<and> att_io (hl_att h) \<and> 23 \<le> unat (att_mtu (hl_att h))"

lemma handles_wrap:
  assumes "hl_reqs h p = Some op" "rq_end_handle op \<noteq> 0xffff" "can_send env h"
    "req_opcode opcode" "length (req 0 (rq_end_handle op)) < 23"
  shows "\<exists>h' op'. handles_continue env h p 0xffff opcode req cb = Some (h', []) \<and> can_send env h' \<and>
    hl_reqs h' p = Some op' \<and> same_request op op' \<and> rq_id op' \<noteq> 0 \<and> rq_start_handle op' = 0"
proof -
  let ?op = "op\<lparr>rq_start_handle := 0\<rparr>"
  have put: "hl_reqs (put_req h p ?op) p = Some ?op" by simp
  define l where "l = (0xffff :: u16)"
  have l: "l + 1 = 0" "\<not> l < rq_start_handle op" "l \<noteq> rq_end_handle op"
    using unat_u16_less [of "rq_start_handle op"] assms(2) unfolding l_def word_less_nat_alt by (simp_all del: unat_u16_less)
  have len: "length (req 0 (rq_end_handle op)) < 65000"
    "length (req 0 (rq_end_handle op)) < unat (att_mtu (hl_att (put_req h p ?op))) \<and> att_io (hl_att (put_req h p ?op)) \<and> e_mem env"
    using assms(3,5) by (auto simp: can_send_def)
  have "handles_continue env h p 0xffff opcode req cb =
      request_continue env (put_req h p ?op) p opcode (req 0 (rq_end_handle op)) cb"
    using assms(1) l unfolding l_def [symmetric] by (simp add: handles_continue_def Let_def)
  then show ?thesis
    using assms(3) len(2) by (simp add: request_continue_def request_send_cases [OF put assms(4) len(1)] same_request_def can_send_def)
qed

text \<open>The responses with the one handle 0xffff: a descriptor, and a characteristic declaration.\<close>

definition wrap_desc :: bytes where "wrap_desc = [0x01, 0xff, 0xff, 0x02, 0x29]"

definition wrap_chrc :: bytes where "wrap_chrc = [7, 0xff, 0xff, 0x02, 0xff, 0xff, 0x00, 0x2a]"

definition looping :: "'c hl_env \<Rightarrow> u16 \<Rightarrow> ptr \<Rightarrow> 'c gatt_helpers \<Rightarrow> bool" where
  "looping env e p h \<longleftrightarrow> can_send env h \<and> (\<exists>op. hl_reqs h p = Some op \<and> rq_id op \<noteq> 0 \<and> rq_end_handle op = e)"

lemma wrap_step:
  assumes "looping env e p h" "e \<noteq> 0xffff"
  shows "\<exists>h'. discover_descs_cb env h p BT_ATT_OP_FIND_INFO_RSP (Some wrap_desc) = Some (h', []) \<and> looping env e p h'"
    "\<exists>h'. discover_chrcs_cb env h p BT_ATT_OP_READ_BY_TYPE_RSP (Some wrap_chrc) = Some (h', []) \<and> looping env e p h'"
proof -
  obtain op where op: "hl_reqs h p = Some op" "rq_end_handle op = e" and env: "can_send env h"
    using assms(1) by (auto simp: looping_def)
  have "\<exists>h'. handles_continue env (put_req h p (with_result op oc b n)) p 0xffff opcode req cb = Some (h', []) \<and> looping env e p h'"
    if "req_opcode opcode" "length (req 0 e) < 23" for oc b n opcode req cb
    using handles_wrap [of "put_req h p (with_result op oc b n)" p "with_result op oc b n" env opcode req cb] that op(2) env assms(2)
    by (auto simp: can_send_def looping_def same_request_def)
  from this [OF request_opcodes(4), of desc_request BT_ATT_OP_FIND_INFO_RSP "tl wrap_desc" 4 Discover_descs_cb]
    this [OF request_opcodes(3), of chrc_request BT_ATT_OP_READ_BY_TYPE_RSP "tl wrap_chrc" 7 Discover_chrcs_cb]
  show "\<exists>h'. discover_descs_cb env h p BT_ATT_OP_FIND_INFO_RSP (Some wrap_desc) = Some (h', []) \<and> looping env e p h'"
    "\<exists>h'. discover_chrcs_cb env h p BT_ATT_OP_READ_BY_TYPE_RSP (Some wrap_chrc) = Some (h', []) \<and> looping env e p h'"
    using env by (simp_all add: discover_descs_cb_def discover_chrcs_cb_def append_eval [OF op(1)] can_send_def with_result_def
        wrap_desc_def wrap_chrc_def desc_request_def chrc_request_def BT_ATT_OP_FIND_INFO_RSP_def BT_ATT_OP_READ_BY_TYPE_RSP_def
        BT_ATT_OP_ERROR_RSP_def)
qed

text \<open>The same response \<open>n\<close> times, and the reports.\<close>

primrec respond :: "('c gatt_helpers \<Rightarrow> 'c hl_result) \<Rightarrow> nat \<Rightarrow> 'c gatt_helpers \<Rightarrow> 'c hl_result" where
  "respond f 0 h = Some (h, [])"
| "respond f (Suc n) h = do { (h, es) \<leftarrow> f h; (h, es') \<leftarrow> respond f n h; Some (h, es @ es') }"

lemma respond_loops:
  assumes "\<And>h. P h \<Longrightarrow> \<exists>h'. f h = Some (h', []) \<and> P h'" "P h"
  shows "\<exists>h'. respond f n h = Some (h', []) \<and> P h'"
  using assms(2) by (induction n arbitrary: h) (use assms(1) in fastforce)+

text \<open>
  C33: a discovery of descriptors or of characteristics whose range ends before 0xffff need not end: a
  peer that answers with the handle 0xffff makes the start handle wrap to 0, which no later handle is
  below, so after any number of such responses the request is still open and nothing was reported.
\<close>

theorem handle_discovery_loops:
  assumes "looping env e p h" "e \<noteq> 0xffff"
  shows "(\<exists>h'. respond (\<lambda>h. discover_descs_cb env h p BT_ATT_OP_FIND_INFO_RSP (Some wrap_desc)) n h = Some (h', []) \<and>
      looping env e p h') \<and>
    (\<exists>h'. respond (\<lambda>h. discover_chrcs_cb env h p BT_ATT_OP_READ_BY_TYPE_RSP (Some wrap_chrc)) n h = Some (h', []) \<and>
      looping env e p h')"
  using assms by (intro conjI respond_loops [where P = "looping env e p"] wrap_step)

text \<open>Witness of \<open>handle_discovery_loops\<close>: the example client with a range that ends at 9.\<close>

theorem handle_discovery_loops_witness:
  "\<exists>h'. respond (\<lambda>h. discover_descs_cb cl_env h 1 BT_ATT_OP_FIND_INFO_RSP (Some wrap_desc)) 1000
      (put_req cl_asking 1 (cl_request\<lparr>rq_end_handle := 9\<rparr>)) = Some (h', []) \<and> looping cl_env 9 1 h'"
proof -
  have "looping cl_env 9 1 (put_req cl_asking 1 (cl_request\<lparr>rq_end_handle := 9\<rparr>))"
    by (simp add: looping_def can_send_def cl_asking_req cl_att) (simp add: cl_request_def)
  from handle_discovery_loops [OF this] show ?thesis by simp
qed

section \<open>A data set of no length\<close>

text \<open>
  A read by type trusts the length of the data sets in the response: with a length of 0 the
  callback divides by zero, on every connection where the request is pending.
\<close>

theorem read_by_type_zero_length:
  assumes "att_wf (hl_att h)" "pending_req (hl_att h) = Some oper" "op_opcode oper = BT_ATT_OP_READ_BY_TYPE_REQ"
    "op_callback oper = Some Read_by_type_cb" "op_user_data oper = Some (Req_ptr p)"
  shows "hl_receive env h (Some (BT_ATT_OP_READ_BY_TYPE_RSP # 0 # bs)) = None"
proof -
  have rsp: "get_op_type BT_ATT_OP_READ_BY_TYPE_RSP = ATT_OP_TYPE_RSP" "\<not> retries env (hl_att h) BT_ATT_OP_READ_BY_TYPE_RSP (0 # bs)"
    "rsp_matches oper BT_ATT_OP_READ_BY_TYPE_RSP (0 # bs)"
    using assms(3) by (simp_all add: opcode_eval retries_def rsp_matches_def BT_ATT_OP_READ_BY_TYPE_RSP_def
        BT_ATT_OP_READ_BY_TYPE_REQ_def)
  have oper: "op_wf oper" "op_type oper = ATT_OP_TYPE_REQ" using assms(1,2) by (auto simp: att_wf_defs)
  have "handle_rsp env (hl_att h) BT_ATT_OP_READ_BY_TYPE_RSP (0 # bs) =
      finish_req env (hl_att h) oper BT_ATT_OP_READ_BY_TYPE_RSP (Some (0 # bs))"
    using handle_rsp_final [OF assms(2) oper rsp(1,2)] rsp(3) by simp
  then show ?thesis using rsp(1) assms(4,5)
    by (simp add: hl_receive_def can_read_data_def finish_req_def hl_call_def read_by_type_cb_def
        BT_ATT_OP_READ_BY_TYPE_RSP_def BT_ATT_OP_ERROR_RSP_def)
qed

text \<open>Witness of \<open>read_by_type_zero_length\<close>: the example client reads the device names.\<close>

definition cl_reading :: "nat gatt_helpers" where
  "cl_reading = (let h = snd (the (bt_gatt_read_by_type cl_env cl_state 1 0xffff (Some (BT_UUID16 0x2a00)) None None None))
     in h\<lparr>hl_att := (fst (snd (can_write_data cl_env (hl_att h))))\<rparr>)"

lemma cl_reading_att:
  "hl_att cl_reading = fst (snd (can_write_data cl_env (wakeup_writer cl_env ((hl_att cl_state)\<lparr>next_send_id := 2,
     req_queue := req_queue (hl_att cl_state) @ [queued_op 1 BT_ATT_OP_READ_BY_TYPE_REQ (put_le16 1 @ put_le16 0xffff @ put_le16 0x2a00)
       Read_by_type_cb (Req_ptr 1) Async_req_unref]\<rparr>))))"
  by (simp add: cl_reading_def bt_gatt_read_by_type_def bt_uuid_to_le_def request_send_cases cl_att Let_def new_request_def)

theorem read_by_type_zero_length_witness:
  "hl_receive cl_env cl_reading (Some [0x09, 0]) = None"
proof -
  have "att_wf (hl_att cl_reading)" and
    "pending_req (hl_att cl_reading) = Some ((queued_op 1 BT_ATT_OP_READ_BY_TYPE_REQ (put_le16 1 @ put_le16 0xffff @ put_le16 0x2a00)
       Read_by_type_cb (Req_ptr 1) Async_req_unref)\<lparr>op_timeout_id := 7\<rparr>)"
    by (simp_all add: cl_reading_att queued_op_def can_write_data_def pick_next_send_op_def wakeup_writer_def cl_state_def
        cl_env_def bt_att_new_def bt_att_ref_def BT_ATT_DEFAULT_LE_MTU_def att_wf_defs op_wf_def opcode_eval
        BT_ATT_OP_READ_BY_TYPE_REQ_def)
  from read_by_type_zero_length [OF this] show ?thesis by (simp add: queued_op_def BT_ATT_OP_READ_BY_TYPE_RSP_def)
qed

section \<open>Iterators\<close>

text \<open>
  The data sets of a result, and the whole loop of an application: the iterator is called until it
  returns \<^verbatim>\<open>false\<close>; a fault, or more than \<open>n\<close> calls, is \<open>None\<close>.
\<close>

definition data_sets :: "bt_gatt_result \<Rightarrow> bytes list" where
  "data_sets r = map (\<lambda>k. take (unat (res_data_len r)) (drop (k * unat (res_data_len r)) (res_pdu r)))
     [0..<length (res_pdu r) div unat (res_data_len r)]"

definition result_wf :: "bt_gatt_result \<Rightarrow> bool" where
  "result_wf r \<longleftrightarrow> 0 < unat (res_data_len r) \<and> res_pdu r \<noteq> [] \<and> unat (res_data_len r) dvd length (res_pdu r) \<and>
     length (res_pdu r) < 65536"

primrec iter_collect :: "(bt_gatt_iter \<Rightarrow> ('a \<times> bt_gatt_iter) option option) \<Rightarrow> nat \<Rightarrow> bt_gatt_iter \<Rightarrow> 'a list option" where
  "iter_collect f 0 iter = None"
| "iter_collect f (Suc n) iter =
     (case f iter of None \<Rightarrow> None | Some None \<Rightarrow> Some []
      | Some (Some (x, iter)) \<Rightarrow> map_option (Cons x) (iter_collect f n iter))"

definition first_iter :: "bt_gatt_result list \<Rightarrow> bt_gatt_iter" where
  "first_iter rs = \<lparr>it_result = rs, it_pos = 0\<rparr>"

text \<open>What every iterator promises: it decodes the data set at its position and steps behind it.\<close>

locale result_iterator =
  fixes advance :: "bt_gatt_iter \<Rightarrow> ('a \<times> bt_gatt_iter) option option"
    and accepts :: "bt_gatt_result \<Rightarrow> bool"
    and decode :: "bt_gatt_result \<Rightarrow> bytes \<Rightarrow> 'a"
  assumes advance_end: "advance (first_iter []) = Some None"
    and advance_data: "accepts r \<Longrightarrow> unat pos + unat (res_data_len r) \<le> length (res_pdu r) \<Longrightarrow>
      advance \<lparr>it_result = r # rs, it_pos = pos\<rparr> =
        Some (Some (decode r (take (unat (res_data_len r)) (drop (unat pos) (res_pdu r))),
                    iter_step r rs \<lparr>it_result = r # rs, it_pos = pos\<rparr>))"
begin

lemma collect_result:
  assumes "accepts r" "result_wf r" "k < length (data_sets r)"
  shows "iter_collect advance (length (data_sets r) - k + n) \<lparr>it_result = r # rs, it_pos = of_nat (k * unat (res_data_len r))\<rparr> =
    map_option (append (map (decode r) (drop k (data_sets r)))) (iter_collect advance n (first_iter rs))"
  using assms(3)
proof (induction "length (data_sets r) - k" arbitrary: k)
  case (Suc m)
  let ?d = "unat (res_data_len r)" and ?l = "length (res_pdu r)"
  have wf: "0 < ?d" "?d dvd ?l" "?l < 65536" using assms(2) by (auto simp: result_wf_def)
  have "length (data_sets r) * ?d = ?l" using wf(2) by (simp add: data_sets_def)
  then have "k * ?d + ?d \<le> ?l" and last: "k * ?d + ?d = ?l \<longleftrightarrow> Suc k = length (data_sets r)"
    using Suc.prems wf(1) by (metis Suc_leI add.commute mult_Suc mult_le_mono1,
        metis add.commute mult_Suc mult_cancel2 less_irrefl)
  note le = this(1)
  have pos: "unat (of_nat (k * ?d) :: u16) = k * ?d" "unat (of_nat (k * ?d) + res_data_len r) = k * ?d + ?d"
    using le wf(3) unat_of_nat_less [of "k * ?d", where 'a = 16]
    by (simp_all add: unat_word_ariths(1) del: of_nat_mult)
  have nxt: "of_nat (k * ?d) + res_data_len r = of_nat (Suc k * ?d)" by simp
  have m: "length (data_sets r) - k + n = Suc (m + n)" "m = length (data_sets r) - Suc k" using Suc by auto
  have step: "advance \<lparr>it_result = r # rs, it_pos = of_nat (k * ?d)\<rparr> =
      Some (Some (decode r (data_sets r ! k),
        if Suc k = length (data_sets r) then first_iter rs else \<lparr>it_result = r # rs, it_pos = of_nat (Suc k * ?d)\<rparr>))"
    using advance_data [OF assms(1), of "of_nat (k * ?d)" rs] le pos last nxt Suc.prems
    by (simp add: iter_step_def Let_def first_iter_def data_sets_def del: of_nat_mult of_nat_Suc)
  have split: "drop k (data_sets r) = data_sets r ! k # drop (Suc k) (data_sets r)"
    using Suc.prems by (simp add: Cons_nth_drop_Suc)
  show ?case
  proof (cases "Suc k = length (data_sets r)")
    case True
    then show ?thesis unfolding m(1) split using m(2) step
      by (cases "iter_collect advance n (first_iter rs)") (simp_all del: of_nat_mult of_nat_Suc)
  next
    case False
    then have "Suc k < length (data_sets r)" using Suc.prems by simp
    from Suc.hyps(1) [OF m(2) this] show ?thesis unfolding m(1) split using m(2) step False
      by (cases "iter_collect advance n (first_iter rs)") (simp_all del: of_nat_mult of_nat_Suc)
  qed
qed simp

lemma collect_all:
  assumes "\<forall>r \<in> set rs. accepts r \<and> result_wf r"
  shows "iter_collect advance (Suc (sum_list (map (\<lambda>r. length (data_sets r)) rs))) (first_iter rs) =
    Some (concat (map (\<lambda>r. map (decode r) (data_sets r)) rs))"
  using assms
proof (induction rs)
  case Nil
  then show ?case by (simp add: advance_end)
next
  case (Cons r rs)
  have "0 < length (data_sets r)" using Cons.prems by (auto simp: result_wf_def data_sets_def div_greater_zero_iff dvd_imp_le)
  from collect_result [OF _ _ this, of "Suc (sum_list (map (\<lambda>r. length (data_sets r)) rs))" rs] Cons show ?case
    by (simp add: first_iter_def del: iter_collect.simps)
qed

end

text \<open>The results of the three procedures and what their data sets mean.\<close>

definition service_result :: "bt_gatt_result \<Rightarrow> bool" where
  "service_result r \<longleftrightarrow> res_opcode r = BT_ATT_OP_READ_BY_GRP_TYPE_RSP \<or>
     res_opcode r = BT_ATT_OP_FIND_BY_TYPE_RSP \<and> res_data_len r = 4"

definition service_of :: "bt_uuid_t \<Rightarrow> bytes \<Rightarrow> bt_gatt_result \<Rightarrow> bytes \<Rightarrow> u16 \<times> u16 \<times> bytes" where
  "service_of op_uuid uuid r d =
     (get_le16 d, get_le16 (drop 2 d),
      if res_opcode r = BT_ATT_OP_READ_BY_GRP_TYPE_RSP then converted uuid (drop 4 d) (unat (res_data_len r) - 4)
      else case bt_uuid_to_uuid128 op_uuid (BT_UUID128 uuid) of BT_UUID128 v \<Rightarrow> v | _ \<Rightarrow> uuid)"

definition descriptor_of :: "bytes \<Rightarrow> bt_gatt_result \<Rightarrow> bytes \<Rightarrow> u16 \<times> bytes" where
  "descriptor_of uuid r d = (get_le16 d, converted uuid (drop 2 d) (unat (res_data_len r) - 2))"

definition value_of :: "bt_gatt_result \<Rightarrow> bytes \<Rightarrow> u16 \<times> u16 \<times> bytes" where
  "value_of r d = (get_le16 d, res_data_len r - 2, drop 2 d)"

interpretation services: result_iterator "bt_gatt_iter_next_service op_uuid uuid" service_result "service_of op_uuid uuid"
  for op_uuid uuid
  by unfold_locales
    (auto simp: bt_gatt_iter_next_service_def service_result_def service_of_def data_at_def first_iter_def
      BT_ATT_OP_READ_BY_GRP_TYPE_RSP_def BT_ATT_OP_FIND_BY_TYPE_RSP_def)

interpretation descriptors: result_iterator "bt_gatt_iter_next_descriptor uuid"
    "\<lambda>r. res_opcode r = BT_ATT_OP_FIND_INFO_RSP" "descriptor_of uuid" for uuid
  by unfold_locales (auto simp: bt_gatt_iter_next_descriptor_def descriptor_of_def data_at_def first_iter_def)

interpretation read_values: result_iterator "bt_gatt_iter_next_read_by_type op_uuid"
    "\<lambda>r. res_opcode r = BT_ATT_OP_READ_BY_TYPE_RSP \<and> op_uuid \<noteq> BT_UUID_UNSPEC \<and> 2 \<le> unat (res_data_len r)" value_of for op_uuid
  by unfold_locales (auto simp: bt_gatt_iter_next_read_by_type_def value_of_def data_at_def first_iter_def max_def)

lemma element_count:
  "\<forall>r \<in> set rs. result_wf r \<Longrightarrow> result_element_count rs = Some (sum_list (map (\<lambda>r. length (data_sets r)) rs))"
  by (induction rs) (auto simp: result_wf_def data_sets_def)

text \<open>
  C32: the iterators deliver the data sets of all results, in order and each once, and then return
  false; the number of services or descriptors the count functions report is the number the
  iterator delivers.
\<close>

theorem iterators_deliver:
  assumes "\<forall>r \<in> set rs. result_wf r" "rs \<noteq> []"
  shows "((\<forall>r \<in> set rs. service_result r) \<longrightarrow>
      (\<exists>n. bt_gatt_result_service_count rs = Some n \<and> n = length (concat (map data_sets rs)) \<and>
         iter_collect (bt_gatt_iter_next_service op_uuid uuid) (Suc n) (first_iter rs) =
           Some (concat (map (\<lambda>r. map (service_of op_uuid uuid r) (data_sets r)) rs)))) \<and>
    ((\<forall>r \<in> set rs. res_opcode r = BT_ATT_OP_FIND_INFO_RSP) \<longrightarrow>
      (\<exists>n. bt_gatt_result_descriptor_count rs = Some n \<and> n = length (concat (map data_sets rs)) \<and>
         iter_collect (bt_gatt_iter_next_descriptor uuid) (Suc n) (first_iter rs) =
           Some (concat (map (\<lambda>r. map (descriptor_of uuid r) (data_sets r)) rs)))) \<and>
    ((\<forall>r \<in> set rs. res_opcode r = BT_ATT_OP_READ_BY_TYPE_RSP \<and> 2 \<le> unat (res_data_len r)) \<and> op_uuid \<noteq> BT_UUID_UNSPEC \<longrightarrow>
       iter_collect (bt_gatt_iter_next_read_by_type op_uuid) (Suc (length (concat (map data_sets rs)))) (first_iter rs) =
         Some (concat (map (\<lambda>r. map (value_of r) (data_sets r)) rs)))"
proof -
  obtain r rs' where rs: "rs = r # rs'" using assms(2) by (cases rs) auto
  have n: "length (concat (map data_sets rs)) = sum_list (map (\<lambda>r. length (data_sets r)) rs)" 
    by (simp add: length_concat comp_def)
  note count = element_count [OF assms(1)]
  show ?thesis
  proof (intro conjI impI, goal_cases)
    case 1
    then show ?case using services.collect_all [of rs op_uuid uuid] count assms(1) n
      by (auto simp: bt_gatt_result_service_count_def rs service_result_def simp del: iter_collect.simps)
  next
    case 2
    then show ?case using descriptors.collect_all [of rs uuid] count assms(1) n
      by (auto simp: bt_gatt_result_descriptor_count_def rs simp del: iter_collect.simps)
  next
    case 3
    then show ?case using read_values.collect_all [of rs op_uuid] assms(1) n by (simp del: iter_collect.simps)
  qed
qed

text \<open>Witness of \<open>iterators_deliver\<close>: two services of one result and one of another.\<close>

theorem iterators_deliver_witness:
  "iter_collect (bt_gatt_iter_next_service BT_UUID_UNSPEC []) 4 (first_iter
     [\<lparr>res_opcode = 0x11, res_pdu = [1, 0, 5, 0, 0x00, 0x18, 6, 0, 9, 0, 0x01, 0x18], res_data_len = 6\<rparr>,
      \<lparr>res_opcode = 0x11, res_pdu = [10, 0, 12, 0, 0x0F, 0x18], res_data_len = 6\<rparr>]) =
   Some [(1, 5, bt_base_uuid[2 := 0x18, 3 := 0x00]), (6, 9, bt_base_uuid[2 := 0x18, 3 := 0x01]),
         (10, 12, bt_base_uuid[2 := 0x18, 3 := 0x0F])]"
proof -
  let ?rs = "[\<lparr>res_opcode = 0x11, res_pdu = [1, 0, 5, 0, 0x00, 0x18, 6, 0, 9, 0, 0x01, 0x18], res_data_len = 6\<rparr>,
      \<lparr>res_opcode = 0x11, res_pdu = [10, 0, 12, 0, 0x0F, 0x18], res_data_len = 6\<rparr>] :: bt_gatt_result list"
  have rs: "\<forall>r \<in> set ?rs. result_wf r" "?rs \<noteq> []" "\<forall>r \<in> set ?rs. service_result r"
    by (simp_all add: result_wf_def service_result_def BT_ATT_OP_READ_BY_GRP_TYPE_RSP_def dvd_eq_mod_eq_0)
  have sets: "concat (map data_sets ?rs) = [[1, 0, 5, 0, 0x00, 0x18], [6, 0, 9, 0, 0x01, 0x18], [10, 0, 12, 0, 0x0F, 0x18]]"
    "concat (map (\<lambda>r. map (service_of BT_UUID_UNSPEC [] r) (data_sets r)) ?rs) =
       [(1, 5, bt_base_uuid[2 := 0x18, 3 := 0x00]), (6, 9, bt_base_uuid[2 := 0x18, 3 := 0x01]),
         (10, 12, bt_base_uuid[2 := 0x18, 3 := 0x0F])]"
    by (simp_all add: data_sets_def service_of_def converted_def convert_uuid_le_def BT_ATT_OP_READ_BY_GRP_TYPE_RSP_def
        upt_rec)
  from iterators_deliver [OF rs(1,2), of BT_UUID_UNSPEC "[]", unfolded sets] rs(3) show ?thesis
    by (simp add: numeral_eq_Suc del: iter_collect.simps)
qed

end
