(* ===== verification/Gatt_Discovery.thy ===== *)
theory Gatt_Discovery
  imports Gatt_Helpers_Props Gatt_Server_Props Gatt_Db_Props
begin

text \<open>
  Client and server together: the discovery of all primary services by
  \<^verbatim>\<open>src/shared/gatt-helpers.c\<close> on one side of a link and \<^verbatim>\<open>src/shared/gatt-server.c\<close> with its database
  on the other.  Every PDU goes through both ATT engines.  The client is told exactly the active
  primary services of the database of the server, in the order of their handles.
\<close>

section \<open>The answer of the server\<close>

text \<open>A service declaration as the database creates it: a stored UUID of 2 or 16 bytes.\<close>

definition declared :: "'c gatt_db_service \<Rightarrow> bool" where
  "declared sv =
     (case attr0 sv of None \<Rightarrow> False | Some a \<Rightarrow> a_read_func a = None \<and> (a_value_len a = 2 \<or> a_value_len a = 16))"

definition decl_value :: "'c gatt_db_service \<Rightarrow> bytes" where
  "decl_value sv = (case attr0 sv of None \<Rightarrow> [] | Some a \<Rightarrow> take (unat (a_value_len a)) (the (a_value a)))"

definition svc_entry :: "'c gatt_db_service \<Rightarrow> u16 \<times> u16 \<times> bytes" where
  "svc_entry sv = (svc_start sv, snd (gatt_db_service_get_handles sv), decl_value sv)"

definition enc_entry :: "u16 \<times> u16 \<times> bytes \<Rightarrow> bytes" where
  "enc_entry e = (case e of (st, en, v) \<Rightarrow> put_le16 st @ put_le16 en @ v)"

lemma declared_facts:
  assumes "svc_ok s sv" "declared sv"
  shows "length (decl_value sv) = unat (decl_len sv)" "decl_len sv = 2 \<or> decl_len sv = 16" "decl_value sv \<noteq> []"
    "\<exists>a v. attr0 sv = Some a \<and> svc_attr sv 0 = Some a \<and> a_service a = s \<and> a_read_func a = None \<and> a_value a = Some v \<and>
      decl_value sv = take (unat (a_value_len a)) v \<and> a_value_len a \<noteq> 0"
proof -
  obtain a where a: "attr0 sv = Some a" "svc_attr sv 0 = Some a" using svc_ok_attr0 [OF assms(1)] by blast
  have ok: "attr_ok (s, 0) a" using assms(1) a(2) by (auto simp: svc_ok_def)
  have d: "a_read_func a = None" "a_value_len a = 2 \<or> a_value_len a = 16" using assms(2) a(1) by (simp_all add: declared_def)
  then obtain v where v: "a_value a = Some v" "unat (a_value_len a) \<le> length v"
    using ok by (cases "a_value a") (auto simp: attr_ok_def)
  show "length (decl_value sv) = unat (decl_len sv)" "decl_len sv = 2 \<or> decl_len sv = 16" "decl_value sv \<noteq> []"
    "\<exists>a v. attr0 sv = Some a \<and> svc_attr sv 0 = Some a \<and> a_service a = s \<and> a_read_func a = None \<and> a_value a = Some v \<and>
      decl_value sv = take (unat (a_value_len a)) v \<and> a_value_len a \<noteq> 0"
    using a d v ok by (auto simp: decl_value_def decl_len_def attr_ok_def)
qed

lemma read_declaration:
  assumes "db_wf db" "svcs db s = Some sv" "declared sv"
  shows "gatt_db_attribute_read tid db (Some (s, 0)) 0 opcode att (Some f) ud =
      Some (True, db, [Read_done f (s, 0) 0 (Some (decl_value sv)) ud])"
    "gatt_db_attribute_get_service_handles db (Some (s, 0)) = Some (Some (fst (svc_entry sv), fst (snd (svc_entry sv))))"
proof -
  obtain a v where a: "svc_attr sv 0 = Some a" "a_service a = s" "a_read_func a = None" "a_value a = Some v"
    "decl_value sv = take (unat (a_value_len a)) v" "a_value_len a \<noteq> 0"
    using declared_facts(4) [OF db_wf_svc [OF assms(1,2)] assms(3)] by blast
  then have "\<not> a_value_len a < 0" "0 \<noteq> a_value_len a" by auto
  with a assms(2) show "gatt_db_attribute_read tid db (Some (s, 0)) 0 opcode att (Some f) ud =
      Some (True, db, [Read_done f (s, 0) 0 (Some (decl_value sv)) ud])"
    by (simp add: gatt_db_attribute_read_def db_attr_def)
  show "gatt_db_attribute_get_service_handles db (Some (s, 0)) = Some (Some (fst (svc_entry sv), fst (snd (svc_entry sv))))"
    using a assms(2) by (simp add: gatt_db_attribute_get_service_handles_def db_attr_def svc_entry_def gatt_db_service_get_handles_def)
qed

text \<open>A service of the database whose declaration has \<open>n\<close> bytes, and the entries of a list of services.\<close>

definition declares :: "'c gatt_db \<Rightarrow> nat \<Rightarrow> svc_ptr \<Rightarrow> bool" where
  "declares db n s = (case svcs db s of None \<Rightarrow> False | Some sv \<Rightarrow> declared sv \<and> length (decl_value sv) = n)"

definition entries :: "'c gatt_db \<Rightarrow> svc_ptr list \<Rightarrow> (u16 \<times> u16 \<times> bytes) list" where
  "entries db ss = map (\<lambda>s. svc_entry (the (svcs db s))) ss"

definition enc_entries :: "'c gatt_db \<Rightarrow> svc_ptr list \<Rightarrow> bytes" where
  "enc_entries db ss = concat (map enc_entry (entries db ss))"

lemma enc_entries_simps [simp]:
  "enc_entries db [] = []" "enc_entries db (s # ss) = enc_entry (svc_entry (the (svcs db s))) @ enc_entries db ss"
  by (simp_all add: enc_entries_def entries_def)

lemma enc_entry_length: "declares db n s \<Longrightarrow> length (enc_entry (svc_entry (the (svcs db s)))) = n + 4"
  by (auto simp: declares_def enc_entry_def svc_entry_def split: option.splits)

lemma enc_entries_length: "\<forall>s \<in> set ss. declares db n s \<Longrightarrow> length (enc_entries db ss) = length ss * (n + 4)"
  by (induction ss) (auto simp: enc_entry_length)

lemma buf_write_prefix: "buf_write b off bs = Some b' \<Longrightarrow> take (off + length bs) b' = take off b @ bs \<and> length b' = length b"
  by (auto simp: buf_write_def split: if_splits)

lemma rsp_loop_rest:
  assumes "db_wf db" "\<forall>s \<in> set ss. declares db n s" "0 < n" "length pdu = unat mtu" "0 < iter" "iter < unat mtu"
  shows "\<exists>k pdu'. k \<le> length ss \<and> iter + k * (n + 4) < unat mtu \<and>
    grp_type_rsp_loop env mtu db (map (\<lambda>s. (s, 0)) ss) pdu iter n = Some (Some (pdu', iter + k * (n + 4)), db, []) \<and>
    length pdu' = unat mtu \<and> take (iter + k * (n + 4)) pdu' = take iter pdu @ enc_entries db (take k ss)"
  using assms(2,4-6)
proof (induction ss arbitrary: pdu iter)
  case Nil
  then show ?case by auto
next
  case (Cons s ss)
  obtain sv where sv: "svcs db s = Some sv" "declared sv" "length (decl_value sv) = n"
    using Cons.prems(1) by (auto simp: declares_def split: option.splits)
  note rd = read_declaration [OF assms(1) sv(1,2)]
  have ne: "decl_value sv \<noteq> []" using sv(3) assms(3) by auto
  show ?case
  proof (cases "iter + n + 4 > unat mtu - 1")
    case True
    then show ?thesis using Cons.prems ne rd sv(3)
      by (intro exI [of _ 0] exI [of _ pdu]) (simp add: attribute_read_cb_def Let_def)
  next
    case False
    let ?e = "enc_entry (svc_entry sv)"
    have lt: "iter + (n + 4) < unat mtu" using False Cons.prems(4) by linarith
    have len: "length ?e = n + 4" using sv(3) by (simp add: enc_entry_def svc_entry_def)
    have e: "put_le16 (fst (svc_entry sv)) @ put_le16 (fst (snd (svc_entry sv))) @ take n (decl_value sv) = ?e"
      using sv(3) by (simp add: enc_entry_def svc_entry_def)
    obtain p1 where p1: "buf_write pdu iter ?e = Some p1" using len False Cons.prems(2,4) by (force simp: buf_write_def)
    have p1': "take (iter + (n + 4)) p1 = take iter pdu @ ?e" "length p1 = unat mtu"
      using buf_write_prefix [OF p1] len Cons.prems(2) by simp_all
    from Cons.IH [of p1 "iter + (n + 4)"] obtain k pdu' where k: "k \<le> length ss" "iter + (n + 4) + k * (n + 4) < unat mtu"
      "grp_type_rsp_loop env mtu db (map (\<lambda>s. (s, 0)) ss) p1 (iter + (n + 4)) n =
         Some (Some (pdu', iter + (n + 4) + k * (n + 4)), db, [])"
      "length pdu' = unat mtu" "take (iter + (n + 4) + k * (n + 4)) pdu' = take (iter + (n + 4)) p1 @ enc_entries db (take k ss)"
      using Cons.prems p1'(2) lt by auto
    have "grp_type_rsp_loop env mtu db (map (\<lambda>s. (s, 0)) (s # ss)) pdu iter n =
        Some (Some (pdu', iter + (n + 4) + k * (n + 4)), db, [])"
      using False rd ne sv(3) e p1 k(3) Cons.prems(3)
      by (simp add: attribute_read_cb_def Let_def add.assoc [symmetric])
    then show ?thesis using k p1'(1) sv(1)
      by (intro exI [of _ "Suc k"] exI [of _ pdu']) (simp add: algebra_simps)
  qed
qed

lemma rsp_loop_first:
  assumes "db_wf db" "\<forall>s \<in> set ss. declares db n s" "ss \<noteq> []" "n = 2 \<or> n = 16" "length pdu = unat mtu" "23 \<le> unat mtu"
  shows "\<exists>k pdu'. 0 < k \<and> k \<le> length ss \<and> 1 + k * (n + 4) < unat mtu \<and>
    grp_type_rsp_loop env mtu db (map (\<lambda>s. (s, 0)) ss) pdu 0 0 = Some (Some (pdu', 1 + k * (n + 4)), db, []) \<and>
    length pdu' = unat mtu \<and> take (1 + k * (n + 4)) pdu' = of_nat (n + 4) # enc_entries db (take k ss)"
proof -
  obtain s ss' where ss: "ss = s # ss'" using assms(3) by (cases ss) auto
  obtain sv where sv: "svcs db s = Some sv" "declared sv" "length (decl_value sv) = n"
    using assms(2) ss by (auto simp: declares_def split: option.splits)
  note rd = read_declaration [OF assms(1) sv(1,2)]
  have ne: "decl_value sv \<noteq> []" using sv(3) assms(4) by auto
  have n: "min (min (unat ((ucast mtu :: u32) - 6)) 251) (length (decl_value sv)) = n"
    using mtu_minus [OF assms(6), of 6] assms(4,6) sv(3) by auto
  let ?e = "enc_entry (svc_entry sv)"
  have len: "length ?e = n + 4" using sv(3) by (simp add: enc_entry_def svc_entry_def)
  have e: "put_le16 (fst (svc_entry sv)) @ put_le16 (fst (snd (svc_entry sv))) @ take n (decl_value sv) = ?e"
    using sv(3) by (simp add: enc_entry_def svc_entry_def)
  have lt: "1 + (n + 4) < unat mtu" using assms(4,6) by auto
  obtain p0 where p0: "buf_write pdu 0 [of_nat (n + 4)] = Some p0" using assms(5,6) by (simp add: buf_write_def)
  have p0': "take 1 p0 = [of_nat (n + 4)]" "length p0 = unat mtu" using buf_write_prefix [OF p0] assms(5) by simp_all
  obtain p1 where p1: "buf_write p0 1 ?e = Some p1" using len lt p0'(2) by (force simp: buf_write_def)
  have p1': "take (1 + (n + 4)) p1 = of_nat (n + 4) # ?e" "length p1 = unat mtu"
    using buf_write_prefix [OF p1] len p0' by simp_all
  obtain k pdu' where k: "k \<le> length ss'" "1 + (n + 4) + k * (n + 4) < unat mtu"
    "grp_type_rsp_loop env mtu db (map (\<lambda>s. (s, 0)) ss') p1 (1 + (n + 4)) n = Some (Some (pdu', 1 + (n + 4) + k * (n + 4)), db, [])"
    "length pdu' = unat mtu" "take (1 + (n + 4) + k * (n + 4)) pdu' = take (1 + (n + 4)) p1 @ enc_entries db (take k ss')"
    using rsp_loop_rest [OF assms(1) _ _ p1'(2) _ lt, of ss' n env] assms(2,4) ss by auto
  have "grp_type_rsp_loop env mtu db (map (\<lambda>s. (s, 0)) ss) pdu 0 0 = Some (Some (pdu', 1 + (n + 4) + k * (n + 4)), db, [])"
    using rd ne n e p0 p1 k(3) lt unfolding ss
    by (simp add: attribute_read_cb_def Let_def add.assoc [symmetric] del: of_nat_add)
  then show ?thesis using k p1'(1) sv(1) unfolding ss
    by (intro exI [of _ "Suc k"] exI [of _ pdu']) (simp add: algebra_simps)
qed

section \<open>The server on the link\<close>

text \<open>A server that waits for a request, and an environment in which nothing fails.\<close>

definition srv_idle :: "'c bt_gatt_server \<Rightarrow> bool" where
  "srv_idle srv \<longleftrightarrow> srv_ok srv \<and> serving srv \<and> \<not> in_req (srv_att srv) \<and> write_queue (srv_att srv) = [] \<and> prep_queue srv = []"

definition link_env :: "'c att_env \<Rightarrow> bool" where
  "link_env env \<longleftrightarrow> e_mem env \<and> (\<forall>bs. 0 \<le> e_send env bs)"

definition in_request :: "'c bt_gatt_server \<Rightarrow> 'c bt_gatt_server" where
  "in_request srv = srv\<lparr>srv_att := srv_att srv\<lparr>in_req := True\<rparr>\<rparr>"

text \<open>The result of a handler puts \<open>rsp\<close> on the link and the server waits again, with the same database.\<close>

definition sends :: "'c srv_env \<Rightarrow> 'c bt_gatt_server \<Rightarrow> bytes \<Rightarrow> 'c srv_result \<Rightarrow> bool" where
  "sends env srv rsp r \<longleftrightarrow>
     (\<exists>s ds t es. r = Some (s, ds) \<and> can_write_data env (srv_att s) = (True, t, Att_send_pdu rsp # es) \<and>
        srv_idle (s\<lparr>srv_att := t\<rparr>) \<and> srv_db s = srv_db srv \<and> att_mtu t = att_mtu (srv_att srv))"

lemma att_send_sends:
  assumes "srv_idle srv" "link_env env" "get_op_type rop = ATT_OP_TYPE_RSP" "rop AND ATT_OP_SIGNED_MASK = 0"
    "src_bytes pdu len = Some v" "unat len < unat (att_mtu (srv_att srv))"
  shows "\<exists>i t. bt_att_send env (Some (srv_att (in_request srv))) rop pdu len None None None = Some (i, Some t) \<and>
    sends env srv (rop # v) (Some ((in_request srv)\<lparr>srv_att := t\<rparr>, ds))"
proof -
  have wf: "att_wf (srv_att (in_request srv))" "att_io (srv_att (in_request srv))" "e_mem env"
    using assms(1,2) srv_ok_in_req by (auto simp: srv_idle_def in_request_def srv_ok_def link_env_def)
  have lt: "unat len < unat (att_mtu (srv_att (in_request srv)))" using assms(6) by (simp add: in_request_def)
  from att_send_queues [OF wf assms(3-5) lt] obtain i t oper where t: "att_wf t" "att_io t"
    "bt_att_send env (Some (srv_att (in_request srv))) rop pdu len None None None = Some (i, Some t)"
    "att_mtu t = att_mtu (srv_att srv)" "att_notify_list t = att_notify_list (srv_att srv)"
    "write_queue t = [oper]" "op_type oper = ATT_OP_TYPE_RSP" "op_pdu oper = rop # v"
    using assms(1) by (auto simp: in_request_def srv_idle_def)
  let ?t = "t\<lparr>write_queue := [], in_req := False\<rparr>"
  have "\<not> e_send env (rop # v) < 0" using assms(2) by (auto simp: link_env_def not_less)
  then have w: "\<exists>es. can_write_data env t = (True, ?t, Att_send_pdu (rop # v) # es)"
    using t(6-8) by (simp add: can_write_data_def pick_next_send_op_def)
  have "serving ((in_request srv)\<lparr>srv_att := ?t\<rparr>)"
    using assms(1) t(5) serving_cong [of "(in_request srv)\<lparr>srv_att := ?t\<rparr>" srv] by (simp add: srv_idle_def)
  moreover have "att_wf ?t" using t(1) by (auto simp: att_wf_defs)
  ultimately have "srv_idle ((in_request srv)\<lparr>srv_att := ?t\<rparr>)"
    using assms(1) t(2) by (simp add: srv_idle_def srv_ok_def in_request_def)
  then show ?thesis using t(3,4) w by (auto simp: sends_def in_request_def)
qed

lemma srv_send_sends:
  assumes "srv_idle srv" "link_env env" "get_op_type rop = ATT_OP_TYPE_RSP" "rop AND ATT_OP_SIGNED_MASK = 0"
    "n < unat (att_mtu (srv_att srv))" "n \<le> length p"
  shows "sends env srv (rop # take n p) (do { (s, _) \<leftarrow> srv_send env (in_request srv) rop (Some p) n; Some (s, ds) })"
proof -
  have n: "n < 65536" using assms(5) unat_u16_less [of "att_mtu (srv_att srv)"] by linarith
  have "unat (of_nat n :: u16) < unat (att_mtu (srv_att srv))" using assms(5) n by (simp add: unat_of_nat_less)
  from att_send_sends [OF assms(1-4) src_bytes_take [OF n assms(6)] this, of ds] show ?thesis by (auto simp: srv_send_def)
qed

lemma srv_ecode_sends:
  assumes "srv_idle srv" "link_env env" "opcode \<noteq> 0" "0 < ecode" "ecode < 255"
  shows "sends env srv (BT_ATT_OP_ERROR_RSP # opcode # put_le16 handle @ [ecode])
    (srv_ecode env (in_request srv) opcode handle ecode)"
proof -
  let ?p = "opcode # put_le16 handle @ [ecode]"
  have rsp: "get_op_type BT_ATT_OP_ERROR_RSP = ATT_OP_TYPE_RSP" "BT_ATT_OP_ERROR_RSP AND ATT_OP_SIGNED_MASK = 0"
    by (simp_all add: opcode_eval ATT_OP_SIGNED_MASK_def)
  have "0 < uint ecode" "uint ecode < 255" using assms(4,5) by (simp_all add: word_less_def)
  then have ec: "att_ecode_from_error (int (unat ecode)) = ecode" by (simp add: att_ecode_from_error_def)
  have "unat (4 :: u16) < unat (att_mtu (srv_att srv))" using assms(1) srv_ok_mtu [of srv] by (simp add: srv_idle_def)
  moreover have "src_bytes (Some ?p) 4 = Some ?p" using src_bytes_take [of 4 ?p] by simp
  ultimately show ?thesis using att_send_sends [OF assms(1,2) rsp, of "Some ?p" 4 ?p "[]"] assms(3) ec
    by (auto simp: srv_ecode_def srv_error_def bt_att_send_error_rsp_def Let_def)
qed

text \<open>The active primary services that start in a range that reaches to the last handle.\<close>

definition primary_from :: "'c gatt_db \<Rightarrow> u16 \<Rightarrow> svc_ptr list" where
  "primary_from db st = filter (\<lambda>s. group_match st 0xffff primary_service_uuid (the (svcs db s))) (services db)"

definition db_declared :: "'c gatt_db \<Rightarrow> bool" where
  "db_declared db \<longleftrightarrow> (\<forall>s sv. svcs db s = Some sv \<longrightarrow> declared sv)"

definition grp_request :: "u16 \<Rightarrow> bytes" where
  "grp_request st = put_le16 st @ put_le16 0xffff @ put_le16 GATT_PRIM_SVC_UUID"

lemma grp_request_eval:
  "length (grp_request st) = 6" "get_le16 (grp_request st) = st" "get_le16 (drop 2 (grp_request st)) = 0xffff"
  "get_uuid_le (drop 4 (grp_request st)) 2 = Some primary_service_uuid"
  by (simp_all add: grp_request_def get_uuid_le_def primary_service_uuid_def GATT_PRIM_SVC_UUID_def)

lemma u16_max [simp]: "\<not> (0xffff :: u16) < w"
  using unat_u16_less [of w] unfolding word_less_nat_alt by (simp del: unat_u16_less)

lemma u16_le_max [simp]: "(w :: u16) \<le> 0xffff"
  by (rule leI [OF u16_max])

lemma u16_below_max: "w \<noteq> 0xffff \<Longrightarrow> (w :: u16) < 0xffff"
  using u16_max [of w] by (cases w "0xffff :: u16" rule: linorder_cases) auto

lemma primary_uuid_eq: "uuid_eq primary_service_uuid primary_service_uuid"
  by (simp add: uuid_eq_def uuid_cmp_memcmp primary_service_uuid_def memcmp_0_iff)

lemma primary_declares:
  assumes "db_wf db" "db_declared db" "s \<in> set (primary_from db st)"
  shows "declares db (unat (decl_len (the (svcs db s)))) s" "decl_len (the (svcs db s)) = 2 \<or> decl_len (the (svcs db s)) = 16"
proof -
  obtain sv where sv: "svcs db s = Some sv" using db_wf_dom [OF assms(1)] assms(3) by (auto simp: primary_from_def)
  then have "declared sv" using assms(2) by (simp add: db_declared_def)
  from declared_facts(1,2) [OF db_wf_svc [OF assms(1) sv] this] this sv
  show "declares db (unat (decl_len (the (svcs db s)))) s" "decl_len (the (svcs db s)) = 2 \<or> decl_len (the (svcs db s)) = 16"
    by (simp_all add: declares_def)
qed

text \<open>
  What the server answers to a request from the handle \<open>st\<close> on: a nonempty prefix of the services from
  there, encoded with their common length, or the error Attribute Not Found.
\<close>

definition grp_answer :: "'c gatt_db \<Rightarrow> u16 \<Rightarrow> bytes \<Rightarrow> bool" where
  "grp_answer db st rsp \<longleftrightarrow>
     (if primary_from db st = []
      then rsp = BT_ATT_OP_ERROR_RSP # BT_ATT_OP_READ_BY_GRP_TYPE_REQ # put_le16 st @ [BT_ATT_ERROR_ATTRIBUTE_NOT_FOUND]
      else \<exists>k n. 0 < k \<and> k \<le> length (primary_from db st) \<and> (n = 2 \<or> n = 16) \<and>
             (\<forall>s \<in> set (take k (primary_from db st)). declares db n s) \<and>
             rsp = BT_ATT_OP_READ_BY_GRP_TYPE_RSP # of_nat (n + 4) # enc_entries db (take k (primary_from db st)) \<and>
             1 + k * (n + 4) < 65536)"

lemma grp_type_opcodes:
  "get_op_type BT_ATT_OP_READ_BY_GRP_TYPE_RSP = ATT_OP_TYPE_RSP" "BT_ATT_OP_READ_BY_GRP_TYPE_RSP AND ATT_OP_SIGNED_MASK = 0"
  "BT_ATT_OP_READ_BY_GRP_TYPE_REQ \<noteq> 0" "0 < BT_ATT_ERROR_ATTRIBUTE_NOT_FOUND" "BT_ATT_ERROR_ATTRIBUTE_NOT_FOUND < 255"
  by (simp_all add: opcode_eval ATT_OP_SIGNED_MASK_def BT_ATT_OP_READ_BY_GRP_TYPE_RSP_def BT_ATT_OP_READ_BY_GRP_TYPE_REQ_def
      BT_ATT_ERROR_ATTRIBUTE_NOT_FOUND_def)

lemma grp_handler_sends:
  assumes "srv_idle srv" "link_env env" "db_declared (srv_db srv)" "st \<noteq> 0"
  shows "\<exists>rsp. grp_answer (srv_db srv) st rsp \<and>
    sends env srv rsp (Gatt_Server.read_by_grp_type_cb env (in_request srv) BT_ATT_OP_READ_BY_GRP_TYPE_REQ (grp_request st))"
proof -
  let ?db = "srv_db srv" and ?op = BT_ATT_OP_READ_BY_GRP_TYPE_REQ and ?mtu = "att_mtu (srv_att srv)"
  define ms where "ms = primary_from ?db st"
  have wf: "db_wf ?db" and mtu: "23 \<le> unat ?mtu" using assms(1) srv_ok_mtu [of srv] by (auto simp: srv_idle_def srv_ok_def)
  have rq: "srv_db (in_request srv) = ?db" "att_mtu (srv_att (in_request srv)) = ?mtu"
    "(in_request srv)\<lparr>srv_db := ?db\<rparr> = in_request srv" by (simp_all add: in_request_def)
  have "\<forall>s sv. svcs ?db s = Some sv \<longrightarrow> decl_len sv \<noteq> 0"
    using assms(3) declared_facts(2) [OF db_wf_svc [OF wf]] by (fastforce simp: db_declared_def)
  from gatt_db_group_type [OF wf this, of st "0xffff" primary_service_uuid]
  have q: "gatt_db_read_by_group_type ?db st 0xffff primary_service_uuid = Some (map (\<lambda>s. (s, 0))
      (takeWhile (\<lambda>s. decl_len (the (svcs ?db s)) = decl_len (the (svcs ?db (hd ms)))) ms))"
    by (simp add: ms_def primary_from_def Let_def)
  show ?thesis
  proof (cases "ms = []")
    case True
    then show ?thesis
      using srv_ecode_sends [OF assms(1,2) grp_type_opcodes(3-5), of st] assms(4) q rq
      by (simp add: Gatt_Server.read_by_grp_type_cb_def Let_def grp_request_eval primary_uuid_eq grp_answer_def ms_def)
  next
    case False
    define n where "n = unat (decl_len (the (svcs ?db (hd ms))))"
    define ss where "ss = takeWhile (\<lambda>s. decl_len (the (svcs ?db s)) = decl_len (the (svcs ?db (hd ms)))) ms"
    have n: "n = 2 \<or> n = 16" using primary_declares(2) [OF wf assms(3), of "hd ms" st] False by (auto simp: n_def ms_def)
    have "declares ?db n s" if "s \<in> set ss" for s
      using set_takeWhileD [OF that [unfolded ss_def]] primary_declares(1) [OF wf assms(3), of s st] by (simp add: n_def ms_def)
    then have ss: "\<forall>s \<in> set ss. declares ?db n s" "ss \<noteq> []"
      using False by (auto simp: ss_def takeWhile_eq_Nil_iff)
    obtain k p where k: "0 < k" "k \<le> length ss" "1 + k * (n + 4) < unat ?mtu"
      "grp_type_rsp_loop env ?mtu ?db (map (\<lambda>s. (s, 0)) ss) (rsp_buf env ?mtu) 0 0 = Some (Some (p, 1 + k * (n + 4)), ?db, [])"
      "length p = unat ?mtu" "take (1 + k * (n + 4)) p = of_nat (n + 4) # enc_entries ?db (take k ss)"
      using rsp_loop_first [OF wf ss n _ mtu, of "rsp_buf env ?mtu" env] by auto
    have h: "Gatt_Server.read_by_grp_type_cb env (in_request srv) ?op (grp_request st) = do {
        (s, _) \<leftarrow> srv_send env (in_request srv) BT_ATT_OP_READ_BY_GRP_TYPE_RSP (Some p) (1 + k * (n + 4)); Some (s, []) }"
      using assms(4) q k(4) ss(2)
      by (simp add: rq Gatt_Server.read_by_grp_type_cb_def Let_def grp_request_eval primary_uuid_eq encode_read_by_grp_type_rsp_def
          ss_def [symmetric])
    have le: "1 + k * (n + 4) \<le> length p" "1 + k * (n + 4) < 65536"
      using k(3,5) unat_u16_less [of ?mtu] by linarith+
    have pre: "take k ss = take k ms" "length ss \<le> length ms"
      using k(2) unfolding ss_def by (metis min.absorb1 take_take takeWhile_eq_take) (rule length_takeWhile_le)
    have "\<forall>s \<in> set (take k ms). declares ?db n s" using ss(1) pre(1) by (metis in_set_takeD)
    then have "grp_answer ?db st (BT_ATT_OP_READ_BY_GRP_TYPE_RSP # of_nat (n + 4) # enc_entries ?db (take k ms))"
      using False k(1,2) pre(2) n le(2) unfolding grp_answer_def ms_def [symmetric]
      by (simp only: if_False) (intro exI [of _ k] exI [of _ n]; auto)
    then show ?thesis
      using srv_send_sends [OF assms(1,2) grp_type_opcodes(1,2) k(3) le(1), of "[]"] unfolding h k(6) pre(1) by blast
  qed
qed

lemma server_reply:
  assumes "srv_idle srv" "link_env env" "db_declared (srv_db srv)" "st \<noteq> 0"
  shows "\<exists>rsp s ds es t es'. grp_answer (srv_db srv) st rsp \<and>
    srv_receive env srv (Some (BT_ATT_OP_READ_BY_GRP_TYPE_REQ # grp_request st)) = Some (s, ds, es) \<and>
    can_write_data env (srv_att s) = (True, t, Att_send_pdu rsp # es') \<and>
    srv_idle (s\<lparr>srv_att := t\<rparr>) \<and> srv_db s = srv_db srv"
proof -
  have "ready env srv (grp_request st)"
    using assms(1,2) srv_ok_mtu [of srv]
    by (auto simp: ready_def srv_idle_def link_env_def grp_request_eval)
  from grp_req.receive [OF this] grp_handler_sends [OF assms] show ?thesis
    unfolding in_request_def [symmetric] sends_def by fastforce
qed

section \<open>One response at the client\<close>

lemma concat_chunk:
  assumes "\<forall>x \<in> set xs. length x = d" "k < length xs"
  shows "take d (drop (k * d) (concat xs)) = xs ! k"
  using assms
proof (induction xs arbitrary: k)
  case (Cons x xs)
  then show ?case by (cases k) (auto simp: add.commute)
qed simp

lemma data_sets_concat:
  assumes "\<forall>x \<in> set xs. length x = unat (res_data_len r)" "res_pdu r = concat xs" "0 < unat (res_data_len r)"
  shows "data_sets r = xs"
proof -
  have "length (concat xs) = length xs * unat (res_data_len r)" using assms(1) by (induction xs) auto
  then show ?thesis using assms concat_chunk [OF assms(1)]
    by (intro nth_equalityI) (auto simp: data_sets_def)
qed

text \<open>The result the client stores for an answer with the services \<open>ss\<close>.\<close>

definition grp_result :: "'c gatt_db \<Rightarrow> nat \<Rightarrow> svc_ptr list \<Rightarrow> bt_gatt_result" where
  "grp_result db n ss = \<lparr>res_opcode = BT_ATT_OP_READ_BY_GRP_TYPE_RSP, res_pdu = enc_entries db ss, res_data_len = of_nat (n + 4)\<rparr>"

lemma grp_result_facts:
  assumes "n = 2 \<or> n = 16" "\<forall>s \<in> set ss. declares db n s" "ss \<noteq> []" "1 + length ss * (n + 4) < 65536"
  shows "data_sets (grp_result db n ss) = map enc_entry (entries db ss)" "result_wf (grp_result db n ss)"
    "service_result (grp_result db n ss)" "unat (res_data_len (grp_result db n ss)) = n + 4"
proof -
  show n: "unat (res_data_len (grp_result db n ss)) = n + 4"
    using assms(1) unat_of_nat_less [of "n + 4", where 'a = 16] by (auto simp: grp_result_def)
  have "\<forall>x \<in> set (map enc_entry (entries db ss)). length x = n + 4"
    using assms(2) enc_entry_length by (force simp: entries_def)
  then show "data_sets (grp_result db n ss) = map enc_entry (entries db ss)"
    using n by (intro data_sets_concat) (simp_all add: grp_result_def enc_entries_def)
  have "0 < length ss * (n + 4)" using assms(3) by simp
  then show "result_wf (grp_result db n ss)" using n assms(4) enc_entries_length [OF assms(2)]
    by (auto simp: result_wf_def) (auto simp: grp_result_def)
  show "service_result (grp_result db n ss)" by (simp add: service_result_def grp_result_def)
qed

definition last_svc_end :: "'c gatt_db \<Rightarrow> svc_ptr list \<Rightarrow> u16" where
  "last_svc_end db ss = snd (gatt_db_service_get_handles (the (svcs db (last ss))))"

lemma grp_rsp_facts:
  assumes "n = 2 \<or> n = 16" "\<forall>s \<in> set ss. declares db n s" "ss \<noteq> []" "b = of_nat (n + 4) # enc_entries db ss"
  shows "grp_rsp b" "last_end b = last_svc_end db ss" "ucast (hd b) = (of_nat (n + 4) :: u16)"
proof -
  have hd: "unat (hd b) = n + 4" using assms(1,4) by auto
  have len: "length b = 1 + length ss * (n + 4)" using enc_entries_length [OF assms(2)] assms(4) by simp
  obtain ss' s where ss: "ss = ss' @ [s]" using assms(3) by (cases ss rule: rev_cases) auto
  have "1 \<le> length ss" using assms(3) by (cases ss) auto
  then have "n + 4 \<le> length ss * (n + 4)" by (metis mult_1 mult_le_mono1)
  then show "grp_rsp b" using hd len assms(1) by (auto simp: grp_rsp_def)
  have "\<forall>s \<in> set ss'. declares db n s" using assms(2) ss by simp
  then have "b = (of_nat (n + 4) # enc_entries db ss') @ enc_entry (svc_entry (the (svcs db s)))"
    "length (of_nat (n + 4) # enc_entries db ss' :: bytes) = length b - (n + 4)"
    using assms(4) ss len enc_entries_length by (auto simp: enc_entries_def entries_def)
  then have "drop (length b - unat (hd b) + 2) b = drop 2 (enc_entry (svc_entry (the (svcs db s))))"
    unfolding hd by (metis add.commute append_eq_conv_conj drop_drop)
  then show "last_end b = last_svc_end db ss"
    using ss by (simp add: last_end_def last_svc_end_def enc_entry_def svc_entry_def)
  show "ucast (hd b) = (of_nat (n + 4) :: u16)" using assms(1,4) by auto
qed

lemma primary_from_mem:
  assumes "db_wf db"
  shows "s \<in> set (primary_from db st) \<longleftrightarrow> (\<exists>sv a. svcs db s = Some sv \<and> attr0 sv = Some a \<and> s_active sv \<and>
    uuid_eq primary_service_uuid (a_uuid a) \<and> st \<le> svc_start sv)"
  using db_wf_dom [OF assms, of s]
  by (auto simp: primary_from_def group_match_def svc_start_def not_less [symmetric] split: option.splits)

text \<open>Behind the last service of a prefix the remaining services start.\<close>

lemma primary_from_next:
  assumes "db_wf db" "db_sorted db" "0 < k" "k \<le> length (primary_from db st)"
  defines "e \<equiv> last_svc_end db (take k (primary_from db st))"
  shows "st \<le> e" "e \<noteq> 0xffff \<Longrightarrow> primary_from db (e + 1) = drop k (primary_from db st)"
    "e = 0xffff \<Longrightarrow> drop k (primary_from db st) = []"
proof -
  define ms where "ms = primary_from db st"
  let ?st = "\<lambda>s. unat (svc_start (the (svcs db s)))" and ?en = "\<lambda>s. svc_end (the (svcs db s))"
  have svc: "\<exists>sv. svcs db s = Some sv \<and> svc_ok s sv \<and> st \<le> svc_start sv" if "s \<in> set ms" for s
    using that primary_from_mem [OF assms(1)] db_wf_svc [OF assms(1)] by (auto simp: ms_def)
  have srt: "sorted_wrt (\<lambda>s t. ?en s < ?st t) ms"
    using assms(2) by (simp add: db_sorted_def ms_def primary_from_def sorted_wrt_filter)
  define l where "l = last (take k ms)"
  have ne: "take k ms \<noteq> []" "ms \<noteq> []" using assms(3,4) by (auto simp: ms_def)
  then have lm: "l \<in> set ms" unfolding l_def by (metis in_set_takeD last_in_set)
  obtain sv where sv: "svcs db l = Some sv" "svc_ok l sv" "st \<le> svc_start sv" using svc [OF lm] by blast
  have e: "unat e = ?en l" using svc_get_handles_nat(2) [OF sv(2)] sv(1) by (simp add: e_def last_svc_end_def l_def ms_def)
  have le: "unat (svc_start sv) \<le> svc_end sv" by (rule svc_start_le_end [OF sv(2)])
  show "st \<le> e" using e le sv(1,3) by (simp add: word_le_nat_alt)
  have lt: "?en l < ?st s" if "s \<in> set (drop k ms)" for s
  proof -
    have "l \<in> set (take k ms)" using ne by (simp add: l_def)
    then show ?thesis using that srt by (metis append_take_drop_id sorted_wrt_append)
  qed
  have pre: "?st s \<le> ?en l" if s: "s \<in> set (take k ms)" for s
  proof -
    obtain xs where xs: "take k ms = xs @ [l]" using ne(1) by (metis append_butlast_last_id l_def)
    have "sorted_wrt (\<lambda>s t. ?en s < ?st t) (xs @ [l])" using srt xs by (metis append_take_drop_id sorted_wrt_append)
    then have "?en s < ?st l" if "s \<in> set xs" for s using that by (simp add: sorted_wrt_append)
    moreover obtain v where "svcs db s = Some v" "svc_ok s v" using svc [OF in_set_takeD [OF s]] by blast
    ultimately show ?thesis using s xs le sv(1) svc_start_le_end [of s v] by fastforce
  qed
  show "drop k (primary_from db st) = []" if "e = 0xffff"
  proof (rule ccontr)
    assume "drop k (primary_from db st) \<noteq> []"
    then obtain s where "s \<in> set (drop k ms)" unfolding ms_def by (meson last_in_set)
    from lt [OF this] e that have "65535 < ?st s" by simp
    then show False using unat_u16_less [of "svc_start (the (svcs db s))"] by linarith
  qed
  show "primary_from db (e + 1) = drop k (primary_from db st)" if "e \<noteq> 0xffff"
  proof -
    have lt_max: "e < 0xffff" by (rule u16_below_max [OF that])
    then have e1: "unat (e + 1) = unat e + 1"
      using unat_u16_less [of e] by (simp add: unat_word_ariths word_less_nat_alt)
    have "primary_from db (e + 1) = filter (\<lambda>s. unat e < ?st s) ms"
      unfolding primary_from_def ms_def filter_filter using \<open>st \<le> e\<close> e1
      by (intro filter_cong) (auto simp: group_match_def svc_start_def word_le_nat_alt split: option.splits)
    also have "\<dots> = filter (\<lambda>s. unat e < ?st s) (take k ms) @ filter (\<lambda>s. unat e < ?st s) (drop k ms)"
      by (metis append_take_drop_id filter_append)
    also have "\<dots> = drop k ms" using pre lt e by (auto simp: filter_empty_conv not_less filter_id_conv)
    finally show ?thesis by (simp add: ms_def)
  qed
qed

section \<open>The client on the link\<close>

text \<open>A client whose request for the services from \<open>st\<close> on is the next PDU it sends.\<close>

abbreviation grp_op :: "u32 \<Rightarrow> u16 \<Rightarrow> ptr \<Rightarrow> 'c hfn att_send_op" where
  "grp_op i st p \<equiv> queued_op i BT_ATT_OP_READ_BY_GRP_TYPE_REQ (grp_request st) Gatt_Helpers.Read_by_grp_type_cb (Req_ptr p) Async_req_unref"

definition idle_link :: "'c hl_env \<Rightarrow> 'c gatt_helpers \<Rightarrow> bool" where
  "idle_link env h \<longleftrightarrow> can_send env h \<and> pending_req (hl_att h) = None \<and> write_queue (hl_att h) = []"

definition discovering :: "'c hl_env \<Rightarrow> 'c gatt_helpers \<Rightarrow> ptr \<Rightarrow> 'c bt_gatt_request \<Rightarrow> u16 \<Rightarrow> bool" where
  "discovering env h p op st \<longleftrightarrow>
     hl_reqs h p = Some op \<and> rq_id op \<noteq> 0 \<and> rq_ref_count op = 2 \<and> rq_start_handle op = st \<and> rq_end_handle op = 0xffff \<and>
     rq_service_type op = GATT_PRIM_SVC_UUID \<and> idle_link env h \<and> (\<exists>i. i \<noteq> 0 \<and> req_queue (hl_att h) = [grp_op i st p])"

text \<open>The request is sent, then the response is delivered to the callback and the engine gives up its reference.\<close>

definition requested :: "'c hl_env \<Rightarrow> 'c gatt_helpers \<Rightarrow> u32 \<Rightarrow> u16 \<Rightarrow> ptr \<Rightarrow> 'c gatt_helpers" where
  "requested env h i st p = h\<lparr>hl_att := (hl_att h)\<lparr>req_queue := [], pending_req := Some ((grp_op i st p)\<lparr>op_timeout_id := e_timeout env\<rparr>)\<rparr>\<rparr>"

definition answered :: "'c gatt_helpers \<Rightarrow> 'c gatt_helpers" where
  "answered h = h\<lparr>hl_att := (hl_att h)\<lparr>req_queue := [], pending_req := None\<rparr>\<rparr>"

lemma client_sends:
  assumes "discovering env h p op st" "link_env env" "req_queue (hl_att h) = [grp_op i st p]"
  shows "can_write_data env (hl_att h) =
    (True, hl_att (requested env h i st p), [Att_send_pdu (BT_ATT_OP_READ_BY_GRP_TYPE_REQ # grp_request st)])"
  using assms by (simp add: discovering_def idle_link_def link_env_def can_write_data_def pick_next_send_op_def queued_op_def
      requested_def leD)

lemma client_receives:
  fixes env :: "'c hl_env"
  assumes "i \<noteq> 0" "params \<noteq> []" "get_op_type oc = ATT_OP_TYPE_RSP"
    "\<not> retries env (hl_att (requested env h i st p)) oc params"
    "rsp_matches (grp_op i st p :: 'c hfn att_send_op) oc params"
  shows "hl_receive env (requested env h i st p) (Some (oc # params)) = do {
    (h, es) \<leftarrow> Gatt_Helpers.read_by_grp_type_cb env
      ((answered h)\<lparr>hl_att := wakeup_writer env (hl_att (answered h))\<rparr>) p oc (Some params);
    (h, es') \<leftarrow> bt_gatt_request_unref env h p;
    Some (h, es @ es') }"
proof -
  let ?o = "(grp_op i st p)\<lparr>op_timeout_id := e_timeout env\<rparr> :: 'c hfn att_send_op" and ?t = "hl_att (requested env h i st p)"
  have pend: "pending_req ?t = Some ?o" by (simp add: requested_def)
  have req: "get_op_type BT_ATT_OP_READ_BY_GRP_TYPE_REQ = ATT_OP_TYPE_REQ"
    by (simp add: opcode_eval BT_ATT_OP_READ_BY_GRP_TYPE_REQ_def)
  have wf: "op_wf ?o" "op_type ?o = ATT_OP_TYPE_REQ" using assms(1) req by (simp_all add: op_wf_def queued_op_def)
  have m: "rsp_matches ?o oc params" using assms(5) by (simp add: rsp_matches_def split: if_splits)
  have att: "?t\<lparr>pending_req := None\<rparr> = hl_att (answered h)" by (simp add: requested_def answered_def)
  have "handle_rsp env ?t oc params = (wakeup_writer env (hl_att (answered h)),
      Att_op_callback i Gatt_Helpers.Read_by_grp_type_cb oc (Some params) (Some (Req_ptr p)) # destroy_att_send_op ?o)"
    using handle_rsp_final [OF pend wf assms(3,4)] m assms(2) att by (simp add: finish_req_def queued_op_def)
  moreover have "(requested env h i st p)\<lparr>hl_att := t\<rparr> = (answered h)\<lparr>hl_att := t\<rparr>" for t by (simp add: requested_def answered_def)
  ultimately have "hl_receive env (requested env h i st p) (Some (oc # params)) =
    hl_handle_events env (Att_op_callback i Gatt_Helpers.Read_by_grp_type_cb oc (Some params) (Some (Req_ptr p)) #
      destroy_att_send_op ?o) ((answered h)\<lparr>hl_att := wakeup_writer env (hl_att (answered h))\<rparr>)"
    using assms(3) by (simp add: hl_receive_def can_read_data_def)
  then show ?thesis
    by (auto simp: hl_call_def destroy_att_send_op_def queued_op_def hl_release_def async_req_unref_def bind_eq_Some_conv
        split: Option.bind_split)
qed

text \<open>
  One round on the link: the client sends the PDU at the head of its queue, the server receives it and
  sends its response, and the client receives that.
\<close>

definition link_round ::
    "'c hl_env \<Rightarrow> 'd srv_env \<Rightarrow> 'c gatt_helpers \<times> 'd bt_gatt_server
       \<Rightarrow> (('c gatt_helpers \<times> 'd bt_gatt_server) \<times> 'c hl_event list) option" where
  "link_round env senv s =
     (case (s, can_write_data env (hl_att (fst s))) of
        ((h, srv), _, t, Att_send_pdu req # _) \<Rightarrow> do {
          (srv, _, _) \<leftarrow> srv_receive senv srv (Some req);
          case can_write_data senv (srv_att srv) of
            (_, t', Att_send_pdu rsp # _) \<Rightarrow> do {
              (h, es) \<leftarrow> hl_receive env (h\<lparr>hl_att := t\<rparr>) (Some rsp);
              Some ((h, srv\<lparr>srv_att := t'\<rparr>), es) }
          | _ \<Rightarrow> None }
      | _ \<Rightarrow> None)"

lemma round_eval:
  assumes "discovering env h p op st" "link_env env" "srv_idle srv" "link_env senv" "db_declared (srv_db srv)" "st \<noteq> 0"
  shows "\<exists>i rsp srv'. i \<noteq> 0 \<and> grp_answer (srv_db srv) st rsp \<and> srv_idle srv' \<and> srv_db srv' = srv_db srv \<and>
    link_round env senv (h, srv) = do {
      (h, es) \<leftarrow> hl_receive env (requested env h i st p) (Some rsp);
      Some ((h, srv'), es) }"
proof -
  obtain i where i: "i \<noteq> 0" "req_queue (hl_att h) = [grp_op i st p]" using assms(1) by (auto simp: discovering_def)
  have "h\<lparr>hl_att := hl_att (requested env h i st p)\<rparr> = requested env h i st p" by (simp add: requested_def)
  moreover obtain rsp s ds es t es' where "grp_answer (srv_db srv) st rsp"
    "srv_receive senv srv (Some (BT_ATT_OP_READ_BY_GRP_TYPE_REQ # grp_request st)) = Some (s, ds, es)"
    "can_write_data senv (srv_att s) = (True, t, Att_send_pdu rsp # es')" "srv_idle (s\<lparr>srv_att := t\<rparr>)" "srv_db s = srv_db srv"
    using server_reply [OF assms(3-6)] by blast
  ultimately show ?thesis using client_sends [OF assms(1,2) i(2)] i(1)
    by (intro exI [of _ i] exI [of _ rsp] exI [of _ "s\<lparr>srv_att := t\<rparr>"]) (simp add: link_round_def)
qed

lemma wakeup_link:
  "idle_link env (h\<lparr>hl_att := wakeup_writer env t\<rparr>) = idle_link env (h\<lparr>hl_att := t\<rparr>)"
  "req_queue (wakeup_writer env t) = req_queue t" "pending_req (wakeup_writer env t) = pending_req t"
  by (simp_all add: idle_link_def can_send_def wakeup_writer_def)

lemma round_not_found:
  assumes "discovering env h p op st" "link_env env" "srv_idle srv" "link_env senv" "db_declared (srv_db srv)" "st \<noteq> 0"
    "primary_from (srv_db srv) st = []"
  shows "\<exists>h' srv'. link_round env senv (h, srv) = Some ((h', srv'), report op False BT_ATT_ERROR_ATTRIBUTE_NOT_FOUND) \<and>
    srv_idle srv' \<and> srv_db srv' = srv_db srv"
proof -
  let ?nf = BT_ATT_ERROR_ATTRIBUTE_NOT_FOUND
  obtain i rsp srv' where i: "i \<noteq> 0" "grp_answer (srv_db srv) st rsp" "srv_idle srv'" "srv_db srv' = srv_db srv"
    "link_round env senv (h, srv) = do {
      (h, es) \<leftarrow> hl_receive env (requested env h i st p) (Some rsp); Some ((h, srv'), es) }"
    using round_eval [OF assms(1-6)] by blast
  define params where "params = BT_ATT_OP_READ_BY_GRP_TYPE_REQ # put_le16 st @ [?nf]"
  have par: "length params = 4" "params ! 3 = ?nf" "hd params = BT_ATT_OP_READ_BY_GRP_TYPE_REQ" "params \<noteq> []"
    by (simp_all add: params_def put_le16_def)
  have rsp: "rsp = BT_ATT_OP_ERROR_RSP # params" using i(2) assms(7) by (simp add: grp_answer_def params_def)
  have "\<not> fst (change_security env t ?nf)" for t
    by (simp add: change_security_def BT_ATT_ERROR_ATTRIBUTE_NOT_FOUND_def BT_ATT_ERROR_INSUFFICIENT_ENCRYPTION_def
        BT_ATT_ERROR_AUTHENTICATION_def)
  then have rt: "\<not> retries env t BT_ATT_OP_ERROR_RSP params" for t using par by (simp add: retries_def)
  define h1 where "h1 = (answered h)\<lparr>hl_att := wakeup_writer env (hl_att (answered h))\<rparr>"
  have op: "hl_reqs h1 p = Some op" "rq_id op \<noteq> 0" "rq_ref_count op = 2"
    using assms(1) by (simp_all add: h1_def answered_def discovering_def)
  have cb: "Gatt_Helpers.read_by_grp_type_cb env h1 p BT_ATT_OP_ERROR_RSP (Some params) =
      Some (put_req h1 p (op\<lparr>rq_id := 0\<rparr>), report op False ?nf)"
    using op par by (simp add: Gatt_Helpers.read_by_grp_type_cb_def process_error_def discovery_op_complete_def report_def Let_def
        split: option.split)
  have un: "bt_gatt_request_unref env (put_req h1 p (op\<lparr>rq_id := 0\<rparr>)) p =
      Some (put_req h1 p (op\<lparr>rq_id := 0, rq_ref_count := 1\<rparr>), [])"
    using unref_shared [of "put_req h1 p (op\<lparr>rq_id := 0\<rparr>)" p "op\<lparr>rq_id := 0\<rparr>" env] op by simp
  have "get_op_type BT_ATT_OP_ERROR_RSP = ATT_OP_TYPE_RSP" by (simp add: opcode_eval)
  from client_receives [OF i(1) par(4) this rt, of st p h, folded h1_def] par
  have "hl_receive env (requested env h i st p) (Some rsp) =
      Some (put_req h1 p (op\<lparr>rq_id := 0, rq_ref_count := 1\<rparr>), report op False ?nf)"
    using cb un unfolding rsp by (simp add: rsp_matches_def queued_op_def)
  then show ?thesis using i by auto
qed

text \<open>The request after an answer, and the callback on it.\<close>

definition grown :: "'c bt_gatt_request \<Rightarrow> bt_gatt_result \<Rightarrow> u16 \<Rightarrow> 'c bt_gatt_request" where
  "grown op r st = op\<lparr>rq_results := rq_results op @ [r], rq_start_handle := st\<rparr>"

lemma grp_cb_services:
  assumes op: "hl_reqs h p = Some op" "rq_id op \<noteq> 0" "rq_ref_count op = 2" "rq_end_handle op = 0xffff"
      "rq_service_type op = GATT_PRIM_SVC_UUID"
    and env: "idle_link env h" "req_queue (hl_att h) = []"
    and b: "n = 2 \<or> n = 16" "\<forall>s \<in> set ss. declares db n s" "ss \<noteq> []" "b = of_nat (n + 4) # enc_entries db ss"
      "rq_start_handle op \<le> last_svc_end db ss"
  shows "\<exists>h'. do { (h, es) \<leftarrow> Gatt_Helpers.read_by_grp_type_cb env h p BT_ATT_OP_READ_BY_GRP_TYPE_RSP (Some b);
               (h, es') \<leftarrow> bt_gatt_request_unref env h p; Some (h, es @ es') } =
    Some (h', if last_svc_end db ss = 0xffff then report (grown op (grp_result db n ss) 0) True 0 else []) \<and>
    (last_svc_end db ss \<noteq> 0xffff \<longrightarrow> (\<exists>i. discovering env h' p
       ((grown op (grp_result db n ss) (last_svc_end db ss + 1))\<lparr>rq_id := i\<rparr>) (last_svc_end db ss + 1)))"
proof -
  note rsp = grp_rsp_facts [OF b(1-4)]
  define l where "l = last_svc_end db ss"
  define op2 where "op2 = grown op (grp_result db n ss) (l + 1)"
  have mem: "e_mem env" using env(1) by (simp add: idle_link_def can_send_def)
  have w: "(with_result op BT_ATT_OP_READ_BY_GRP_TYPE_RSP (tl b) (ucast (hd b)))\<lparr>rq_start_handle := l + 1\<rparr> = op2"
    using rsp(3) b(4) by (simp add: with_result_def op2_def grown_def grp_result_def)
  have op2: "rq_id op2 \<noteq> 0" "rq_ref_count op2 = 2" "rq_start_handle op2 = l + 1" "rq_end_handle op2 = 0xffff"
    "rq_service_type op2 = GATT_PRIM_SVC_UUID"
    using op by (simp_all add: op2_def grown_def)
  show ?thesis
  proof (cases "l = 0xffff")
    case True
    have "Gatt_Helpers.read_by_grp_type_cb env h p BT_ATT_OP_READ_BY_GRP_TYPE_RSP (Some b) =
        discovery_op_complete env (put_req h p op2) p True 0"
      using True op(4) rsp(2) w b(5)
      by - (rule grp_type_eval [OF op(1) rsp(1) mem], simp add: Let_def l_def [symmetric])
    moreover have "discovery_op_complete env (put_req h p op2) p True 0 =
        Some (put_req h p (op2\<lparr>rq_id := 0\<rparr>), report op2 True 0)"
      using op2(1) by (simp add: discovery_op_complete_def report_def split: option.split)
    moreover have "bt_gatt_request_unref env (put_req h p (op2\<lparr>rq_id := 0\<rparr>)) p =
        Some (put_req h p (op2\<lparr>rq_id := 0, rq_ref_count := 1\<rparr>), [])"
      using unref_shared [of "put_req h p (op2\<lparr>rq_id := 0\<rparr>)" p "op2\<lparr>rq_id := 0\<rparr>" env] op2 by simp
    moreover have "report op2 True 0 = report (grown op (grp_result db n ss) 0) True 0"
      by (simp add: report_def op2_def grown_def split: option.split)
    ultimately show ?thesis using True by (simp add: l_def [symmetric])
  next
    case False
    let ?i = "next_id (hl_att h)"
    let ?op = "BT_ATT_OP_READ_BY_GRP_TYPE_REQ"
    have lt: "l < 0xffff" by (rule u16_below_max [OF False])
    have ge: "\<not> l < rq_start_handle op" using b(5) by (simp add: l_def not_less)
    have put: "hl_reqs (put_req h p op2) p = Some op2" by simp
    have can: "length (grp_request (l + 1)) < unat (att_mtu (hl_att (put_req h p op2))) \<and> att_io (hl_att (put_req h p op2)) \<and> e_mem env"
      using env(1) by (simp add: idle_link_def can_send_def grp_request_eval)
    define h2 where "h2 = h\<lparr>hl_att := wakeup_writer env ((hl_att h)\<lparr>next_send_id := ?i + 1, req_queue := [grp_op ?i (l + 1) p]\<rparr>)\<rparr>"
    have snd: "request_send env (put_req h p op2) p ?op (grp_request (l + 1)) Gatt_Helpers.Read_by_grp_type_cb =
        Some (put_req h2 p (op2\<lparr>rq_ref_count := 3, rq_id := ?i\<rparr>))"
      using request_send_cases [OF put request_opcodes(1), of "grp_request (l + 1)" env] can op2(2) env(2)
      by (simp add: grp_request_eval h2_def put_req_def)
    have "Gatt_Helpers.read_by_grp_type_cb env h p BT_ATT_OP_READ_BY_GRP_TYPE_RSP (Some b) =
        request_continue env (put_req h p op2) p ?op (grp_request (l + 1)) Gatt_Helpers.Read_by_grp_type_cb"
      using lt op(4,5) rsp(2) w ge
      by - (rule grp_type_eval [OF op(1) rsp(1) mem], simp add: Let_def l_def [symmetric] grp_request_def)
    moreover have "bt_gatt_request_unref env (put_req h2 p (op2\<lparr>rq_ref_count := 3, rq_id := ?i\<rparr>)) p =
        Some (put_req h2 p (op2\<lparr>rq_id := ?i, rq_ref_count := 2\<rparr>), [])"
      using unref_shared [of "put_req h2 p (op2\<lparr>rq_ref_count := 3, rq_id := ?i\<rparr>)" p "op2\<lparr>rq_ref_count := 3, rq_id := ?i\<rparr>" env] by simp
    moreover have "op2\<lparr>rq_id := ?i, rq_ref_count := 2\<rparr> = op2\<lparr>rq_id := ?i\<rparr>" using op2(2) by (cases op2) simp
    moreover have "discovering env (put_req h2 p (op2\<lparr>rq_id := ?i\<rparr>)) p (op2\<lparr>rq_id := ?i\<rparr>) (l + 1)"
      using op2 env by (simp add: discovering_def h2_def idle_link_def can_send_def) (rule exI [of _ ?i], simp)
    ultimately show ?thesis using False snd unfolding l_def [symmetric] op2_def [symmetric]
      by (auto simp: request_continue_def)
  qed
qed

lemma round_services:
  assumes "discovering env h p op st" "link_env env" "srv_idle srv" "link_env senv" "db_declared (srv_db srv)" "st \<noteq> 0"
    "db_sorted (srv_db srv)" "primary_from (srv_db srv) st \<noteq> []"
  defines "ms \<equiv> primary_from (srv_db srv) st" and "db \<equiv> srv_db srv"
  shows "\<exists>h' srv' k n. srv_idle srv' \<and> srv_db srv' = db \<and> 0 < k \<and> k \<le> length ms \<and> (n = 2 \<or> n = 16) \<and>
    (\<forall>s \<in> set (take k ms). declares db n s) \<and> 1 + k * (n + 4) < 65536 \<and>
    link_round env senv (h, srv) = Some ((h', srv'),
      if last_svc_end db (take k ms) = 0xffff then report (grown op (grp_result db n (take k ms)) 0) True 0 else []) \<and>
    (last_svc_end db (take k ms) \<noteq> 0xffff \<longrightarrow> (\<exists>i. discovering env h' p
       ((grown op (grp_result db n (take k ms)) (last_svc_end db (take k ms) + 1))\<lparr>rq_id := i\<rparr>)
       (last_svc_end db (take k ms) + 1)))"
proof -
  obtain i rsp srv' where i: "i \<noteq> 0" "grp_answer db st rsp" "srv_idle srv'" "srv_db srv' = db"
    "link_round env senv (h, srv) = do {
      (h, es) \<leftarrow> hl_receive env (requested env h i st p) (Some rsp); Some ((h, srv'), es) }"
    using round_eval [OF assms(1-6)] unfolding db_def by blast
  from i(2) assms(8) obtain k n where k: "0 < k" "k \<le> length ms" "n = 2 \<or> n = 16" "\<forall>s \<in> set (take k ms). declares db n s"
    "1 + k * (n + 4) < 65536" and rsp: "rsp = BT_ATT_OP_READ_BY_GRP_TYPE_RSP # of_nat (n + 4) # enc_entries db (take k ms)"
    unfolding grp_answer_def ms_def db_def by auto
  define b where "b = of_nat (n + 4) # enc_entries db (take k ms)"
  define h1 where "h1 = (answered h)\<lparr>hl_att := wakeup_writer env (hl_att (answered h))\<rparr>"
  have op: "hl_reqs h1 p = Some op" "rq_id op \<noteq> 0" "rq_ref_count op = 2" "rq_end_handle op = 0xffff"
      "rq_service_type op = GATT_PRIM_SVC_UUID" "idle_link env h1" "req_queue (hl_att h1) = []"
    using assms(1) by (auto simp: h1_def answered_def discovering_def idle_link_def can_send_def wakeup_link)
  have wf: "db_wf db" using assms(3) by (simp add: db_def srv_idle_def srv_ok_def)
  have "take k ms \<noteq> []" using k(1,2) by auto
  moreover have "rq_start_handle op \<le> last_svc_end db (take k ms)"
    using primary_from_next(1) [OF wf _ k(1)] assms(1,7) k(2) by (auto simp: discovering_def db_def ms_def)
  ultimately obtain h' where h': "do { (h, es) \<leftarrow> Gatt_Helpers.read_by_grp_type_cb env h1 p BT_ATT_OP_READ_BY_GRP_TYPE_RSP (Some b);
               (h, es') \<leftarrow> bt_gatt_request_unref env h p; Some (h, es @ es') } =
    Some (h', if last_svc_end db (take k ms) = 0xffff then report (grown op (grp_result db n (take k ms)) 0) True 0 else [])"
    "last_svc_end db (take k ms) \<noteq> 0xffff \<longrightarrow> (\<exists>i. discovering env h' p
       ((grown op (grp_result db n (take k ms)) (last_svc_end db (take k ms) + 1))\<lparr>rq_id := i\<rparr>) (last_svc_end db (take k ms) + 1))"
    using grp_cb_services [OF op k(3,4) _ b_def] by blast
  have "\<not> retries env t BT_ATT_OP_READ_BY_GRP_TYPE_RSP b" for t
    by (simp add: retries_def BT_ATT_OP_READ_BY_GRP_TYPE_RSP_def BT_ATT_OP_ERROR_RSP_def)
  from client_receives [OF i(1) _ grp_type_opcodes(1) this, of st p h, folded h1_def]
  have "hl_receive env (requested env h i st p) (Some rsp) =
      Some (h', if last_svc_end db (take k ms) = 0xffff then report (grown op (grp_result db n (take k ms)) 0) True 0 else [])"
    unfolding rsp b_def [symmetric] h'(1)
    by (simp add: b_def rsp_matches_def queued_op_def BT_ATT_OP_READ_BY_GRP_TYPE_RSP_def BT_ATT_OP_READ_BY_GRP_TYPE_REQ_def
        BT_ATT_OP_ERROR_RSP_def)
  then show ?thesis using i(3-5) k h'(2)
    by (intro exI [of _ h'] exI [of _ srv'] exI [of _ k] exI [of _ n]) simp
qed

section \<open>The whole discovery\<close>

primrec link_rounds ::
    "'c hl_env \<Rightarrow> 'd srv_env \<Rightarrow> nat \<Rightarrow> 'c gatt_helpers \<times> 'd bt_gatt_server
       \<Rightarrow> (('c gatt_helpers \<times> 'd bt_gatt_server) \<times> 'c hl_event list) option" where
  "link_rounds env senv 0 s = Some (s, [])"
| "link_rounds env senv (Suc n) s = do {
     (s, es) \<leftarrow> link_round env senv s; (s, es') \<leftarrow> link_rounds env senv n s; Some (s, es @ es') }"

text \<open>An entry as the iterator of the client shows it.\<close>

definition shown :: "bytes \<Rightarrow> u16 \<times> u16 \<times> bytes \<Rightarrow> u16 \<times> u16 \<times> bytes" where
  "shown uuid e = (case e of (st, en, v) \<Rightarrow> (st, en, converted uuid v (length v)))"

definition collected :: "'c gatt_db \<Rightarrow> bt_gatt_result list \<Rightarrow> svc_ptr list \<Rightarrow> bool" where
  "collected db rs ss \<longleftrightarrow> (rs = [] \<longleftrightarrow> ss = []) \<and> (\<forall>r \<in> set rs. service_result r \<and> result_wf r) \<and>
     (\<forall>uuid. concat (map (\<lambda>r. map (service_of BT_UUID_UNSPEC uuid r) (data_sets r)) rs) = map (shown uuid) (entries db ss))"

lemma collected_snoc:
  assumes "collected db rs ss" "n = 2 \<or> n = 16" "\<forall>s \<in> set ss'. declares db n s" "ss' \<noteq> []" "1 + length ss' * (n + 4) < 65536"
  shows "collected db (rs @ [grp_result db n ss']) (ss @ ss')"
proof -
  note r = grp_result_facts [OF assms(2-5)]
  have "service_of BT_UUID_UNSPEC uuid (grp_result db n ss') (enc_entry e) = shown uuid e" if "e \<in> set (entries db ss')" for e uuid
    using that assms(3) r(4)
    by (auto simp: service_of_def grp_result_def enc_entry_def shown_def entries_def svc_entry_def declares_def split: option.splits)
  then show ?thesis using assms(1,4) r by (auto simp: collected_def entries_def)
qed

lemma collected_iter:
  assumes "collected db rs ss"
  shows "iter_collect (bt_gatt_iter_next_service BT_UUID_UNSPEC uuid) (Suc (length ss)) (first_iter rs) =
    Some (map (shown uuid) (entries db ss))"
proof -
  have eq: "concat (map (\<lambda>r. map (service_of BT_UUID_UNSPEC uuid r) (data_sets r)) rs) = map (shown uuid) (entries db ss)"
    using assms by (simp add: collected_def)
  then have "sum_list (map (\<lambda>r. length (data_sets r)) rs) = length ss"
    by (auto simp: entries_def length_concat comp_def dest: arg_cong [where f = length])
  then show ?thesis using services.collect_all [of rs BT_UUID_UNSPEC uuid] assms eq
    by (simp add: collected_def del: iter_collect.simps)
qed

lemma discovery_runs:
  assumes "link_env env" "link_env senv" "db_declared db" "db_sorted db"
    and "discovering env h p op st" "srv_idle srv" "srv_db srv = db" "st \<noteq> 0" "collected db (rq_results op) ss"
  shows "\<exists>m h' srv' op' success ecode. m \<le> length (primary_from db st) + 1 \<and>
    link_rounds env senv m (h, srv) = Some ((h', srv'), report op' success ecode) \<and>
    (success \<or> ecode = BT_ATT_ERROR_ATTRIBUTE_NOT_FOUND) \<and> (success \<longrightarrow> rq_results op' \<noteq> []) \<and>
    srv_idle srv' \<and> srv_db srv' = db \<and> rq_callback op' = rq_callback op \<and> rq_user_data op' = rq_user_data op \<and>
    collected db (rq_results op') (ss @ primary_from db st)"
  using assms(5-)
proof (induction "length (primary_from db st)" arbitrary: h op st srv ss rule: less_induct)
  case less
  have decl: "db_declared (srv_db srv)" "db_sorted (srv_db srv)" using assms(3,4) less.prems(3) by simp_all
  show ?case
  proof (cases "primary_from db st = []")
    case True
    then obtain h' srv' where "link_round env senv (h, srv) = Some ((h', srv'), report op False BT_ATT_ERROR_ATTRIBUTE_NOT_FOUND)"
      "srv_idle srv'" "srv_db srv' = db"
      using round_not_found [OF less.prems(1) assms(1) less.prems(2) assms(2) decl(1) less.prems(4)] less.prems(3) by auto
    then show ?thesis using True less.prems(5)
      by (intro exI [of _ 1] exI [of _ h'] exI [of _ srv'] exI [of _ op] exI [of _ False]
          exI [of _ BT_ATT_ERROR_ATTRIBUTE_NOT_FOUND]) simp
  next
    case False
    define ms where "ms = primary_from db st"
    obtain h' srv' k n where k: "srv_idle srv'" "srv_db srv' = db" "0 < k" "k \<le> length ms" "n = 2 \<or> n = 16"
      "\<forall>s \<in> set (take k ms). declares db n s" "1 + k * (n + 4) < 65536"
      "link_round env senv (h, srv) = Some ((h', srv'),
        if last_svc_end db (take k ms) = 0xffff then report (grown op (grp_result db n (take k ms)) 0) True 0 else [])"
      "last_svc_end db (take k ms) \<noteq> 0xffff \<longrightarrow> (\<exists>i. discovering env h' p
         ((grown op (grp_result db n (take k ms)) (last_svc_end db (take k ms) + 1))\<lparr>rq_id := i\<rparr>)
         (last_svc_end db (take k ms) + 1))"
      using round_services [OF less.prems(1) assms(1) less.prems(2) assms(2) decl(1) less.prems(4) decl(2)] False
      unfolding ms_def less.prems(3) by blast
    have wf: "db_wf db" using less.prems(2,3) by (auto simp: srv_idle_def srv_ok_def)
    have col: "collected db (rq_results op @ [grp_result db n (take k ms)]) (ss @ take k ms)"
      using k(3-7) by (intro collected_snoc [OF less.prems(5)]) auto
    note nxt = primary_from_next [OF wf assms(4) k(3), of st, folded ms_def, OF k(4)]
    show ?thesis
    proof (cases "last_svc_end db (take k ms) = 0xffff")
      case True
      then have "take k ms = ms" using nxt(3) by (metis append_Nil2 append_take_drop_id)
      then show ?thesis using True k(1,2,8) col unfolding ms_def
        by (intro exI [of _ 1] exI [of _ h'] exI [of _ srv'] exI [of _ "grown op (grp_result db n (primary_from db st)) 0"]
            exI [of _ True] exI [of _ 0]) (simp add: grown_def)
    next
      case False
      define st' where "st' = last_svc_end db (take k ms) + 1"
      obtain i where i: "discovering env h' p ((grown op (grp_result db n (take k ms)) st')\<lparr>rq_id := i\<rparr>) st'"
        using k(9) False by (auto simp: st'_def)
      have rest: "primary_from db st' = drop k ms" using nxt(2) False by (simp add: st'_def)
      have "st' \<noteq> 0"
        using u16_next [OF order_refl u16_below_max [OF False]] by (auto simp: st'_def)
      moreover have "length (primary_from db st') < length (primary_from db st)"
        using rest k(3,4) by (simp add: ms_def)
      ultimately obtain m h2 srv2 op' success ecode where m: "m \<le> length (primary_from db st') + 1"
        "link_rounds env senv m (h', srv') = Some ((h2, srv2), report op' success ecode)"
        "success \<or> ecode = BT_ATT_ERROR_ATTRIBUTE_NOT_FOUND" "success \<longrightarrow> rq_results op' \<noteq> []" "srv_idle srv2" "srv_db srv2 = db"
        "rq_callback op' = rq_callback op" "rq_user_data op' = rq_user_data op"
        "collected db (rq_results op') ((ss @ take k ms) @ primary_from db st')"
        using less.hyps [OF _ i k(1,2), of "ss @ take k ms"] col by (auto simp: grown_def)
      have "link_rounds env senv (Suc m) (h, srv) = Some ((h2, srv2), report op' success ecode)" using k(8) False m(2) by simp
      moreover have "Suc m \<le> length (primary_from db st) + 1" using m(1) rest k(3,4) by (simp add: ms_def)
      moreover have "(ss @ take k ms) @ primary_from db st' = ss @ primary_from db st" using rest by (simp add: ms_def)
      ultimately show ?thesis using m(3-9) by metis
    qed
  qed
qed

text \<open>The active primary services of a database, in the order of the queue.\<close>

definition primary_services :: "'c gatt_db \<Rightarrow> svc_ptr list" where
  "primary_services db = filter (\<lambda>s. case svcs db s of None \<Rightarrow> False
     | Some sv \<Rightarrow> s_active sv \<and> (case attr0 sv of None \<Rightarrow> False | Some a \<Rightarrow> uuid_eq primary_service_uuid (a_uuid a))) (services db)"

lemma primary_from_1: "db_wf db \<Longrightarrow> primary_from db 1 = primary_services db"
  unfolding primary_from_def primary_services_def
proof (intro filter_cong refl, goal_cases)
  case (1 s)
  then obtain sv where sv: "svcs db s = Some sv" "svc_ok s sv" using db_wf_dom db_wf_svc by blast
  then have "1 \<le> svc_start sv" by (simp add: svc_ok_def word_le_nat_alt)
  then show ?case using sv(1) by (auto simp: group_match_def svc_start_def split: option.splits)
qed

lemma discovery_starts:
  assumes "idle_link env h" "req_queue (hl_att h) = []"
  shows "\<exists>h1 op. bt_gatt_discover_all_primary_services env h None callback ud destroy = Some (Some (hl_next h), h1) \<and>
    discovering env h1 (hl_next h) op 1 \<and> rq_results op = [] \<and> rq_callback op = callback \<and> rq_user_data op = ud"
proof -
  let ?p = "hl_next h" and ?i = "next_id (hl_att h)"
  define op where "op = (new_request 1 0xffff BT_UUID_UNSPEC GATT_PRIM_SVC_UUID callback ud destroy :: 'a bt_gatt_request)"
  define h0 where "h0 = put_req (h\<lparr>hl_next := Suc ?p\<rparr>) ?p op"
  define h1 where "h1 = h0\<lparr>hl_att := wakeup_writer env ((hl_att h)\<lparr>next_send_id := ?i + 1, req_queue := [grp_op ?i 1 ?p]\<rparr>)\<rparr>"
  have h0: "hl_reqs h0 ?p = Some op" "hl_att h0 = hl_att h" by (simp_all add: h0_def)
  have can: "length (grp_request 1) < unat (att_mtu (hl_att h0)) \<and> att_io (hl_att h0) \<and> e_mem env"
    using assms(1) h0(2) by (simp add: idle_link_def can_send_def grp_request_eval)
  have "request_send env h0 ?p BT_ATT_OP_READ_BY_GRP_TYPE_REQ (grp_request 1) Gatt_Helpers.Read_by_grp_type_cb =
      Some (put_req h1 ?p (op\<lparr>rq_ref_count := 1, rq_id := ?i\<rparr>))"
    using request_send_cases [OF h0(1) request_opcodes(1), of "grp_request 1" env] can h0(2) assms(2)
    by (simp add: grp_request_eval h1_def op_def new_request_def)
  then have "bt_gatt_discover_all_primary_services env h None callback ud destroy =
      Some (Some ?p, put_req h1 ?p (op\<lparr>rq_id := ?i, rq_ref_count := 2\<rparr>))"
    by (simp add: bt_gatt_discover_all_primary_services_def bt_gatt_discover_primary_services_def discover_services_def
        request_start_def Let_def bt_gatt_request_ref_def op_def [symmetric] h0_def [symmetric] grp_request_def [symmetric])
  moreover have "discovering env (put_req h1 ?p (op\<lparr>rq_id := ?i, rq_ref_count := 2\<rparr>)) ?p (op\<lparr>rq_id := ?i, rq_ref_count := 2\<rparr>) 1"
    using assms by (simp add: discovering_def h1_def h0_def idle_link_def can_send_def op_def new_request_def)
      (rule exI [of _ ?i], simp)
  ultimately show ?thesis by (auto simp: op_def new_request_def)
qed

text \<open>
  C2: the discovery of all primary services, client and server together.  On a link where nothing
  fails, a client that asks a server for its primary services is told the result once, after at most
  one round more than there are services: exactly the active primary services of the database of
  the server, with their ranges and UUIDs, in the order of their handles, as the iterator reads them
  from the results; for a server without one, the error Attribute Not Found.  The database of the
  server does not change and the server waits for the next request.
\<close>

theorem discover_all_services:
  assumes "idle_link env h" "req_queue (hl_att h) = []" "link_env env" "srv_idle srv" "link_env senv"
    "db_declared (srv_db srv)" "db_sorted (srv_db srv)"
  shows "\<exists>h1 m h2 srv2 rs ecode.
    bt_gatt_discover_all_primary_services env h None (Some f) ud destroy = Some (Some (hl_next h), h1) \<and>
    m \<le> length (primary_services (srv_db srv)) + 1 \<and>
    link_rounds env senv m (h1, srv) = Some ((h2, srv2),
      [if primary_services (srv_db srv) = [] then Hl_callback f False BT_ATT_ERROR_ATTRIBUTE_NOT_FOUND None ud
       else Hl_callback f True ecode (Some rs) ud]) \<and>
    srv_idle srv2 \<and> srv_db srv2 = srv_db srv \<and>
    (\<forall>uuid. iter_collect (bt_gatt_iter_next_service BT_UUID_UNSPEC uuid)
       (Suc (length (primary_services (srv_db srv)))) (first_iter rs) =
       Some (map (shown uuid) (entries (srv_db srv) (primary_services (srv_db srv)))))"
proof -
  let ?db = "srv_db srv"
  have wf: "db_wf ?db" using assms(4) by (simp add: srv_idle_def srv_ok_def)
  obtain h1 op where start: "bt_gatt_discover_all_primary_services env h None (Some f) ud destroy = Some (Some (hl_next h), h1)"
    "discovering env h1 (hl_next h) op 1" "rq_results op = []" "rq_callback op = Some f" "rq_user_data op = ud"
    using discovery_starts [OF assms(1,2)] by blast
  have "collected ?db (rq_results op) []" by (simp add: start(3) collected_def entries_def)
  from discovery_runs [OF assms(3,5-7) start(2) assms(4) refl _ this]
  obtain m h2 srv2 op' success ecode where m: "m \<le> length (primary_services ?db) + 1"
    "link_rounds env senv m (h1, srv) = Some ((h2, srv2), report op' success ecode)"
    "success \<or> ecode = BT_ATT_ERROR_ATTRIBUTE_NOT_FOUND" "success \<longrightarrow> rq_results op' \<noteq> []" "srv_idle srv2" "srv_db srv2 = ?db"
    "rq_callback op' = Some f" "rq_user_data op' = ud" "collected ?db (rq_results op') (primary_services ?db)"
    using start(4,5) by (auto simp: primary_from_1 [OF wf])
  have "rq_results op' = [] \<longleftrightarrow> primary_services ?db = []" using m(9) by (simp add: collected_def)
  then have "report op' success ecode =
      [if primary_services ?db = [] then Hl_callback f False BT_ATT_ERROR_ATTRIBUTE_NOT_FOUND None ud
       else Hl_callback f True ecode (Some (rq_results op')) ud]"
    using m(3,4,7,8) by (auto simp: report_def Let_def)
  with start(1) m collected_iter [OF m(9)] show ?thesis
    by (intro exI [of _ h1] exI [of _ m] exI [of _ h2] exI [of _ srv2] exI [of _ "rq_results op'"] exI [of _ ecode]) simp
qed

text \<open>Witness of \<open>discover_all_services\<close>: the example client and the example server with one service.\<close>

lemma srv_example_services:
  "db_declared (srv_db srv_example)" "db_sorted (srv_db srv_example)" "primary_services (srv_db srv_example) = [1]"
  "entries (srv_db srv_example) [1] = [(1, 6, [0x00, 0x18])]"
  unfolding srv_example_db srv_example_db_def
  by (simp_all add: srv_example_exec db_declared_def declared_def attr0_def db_sorted_def primary_services_def entries_def
      svc_entry_def svc_start_def decl_value_def primary_uuid_eq gatt_db_service_get_handles_def)

theorem discover_all_services_witness:
  "\<exists>h1 m h2 srv2 rs ecode.
    bt_gatt_discover_all_primary_services cl_env cl_state None (Some 100) None None = Some (Some 1, h1) \<and>
    link_rounds cl_env srv_example_env m (h1, srv_example) = Some ((h2, srv2), [Hl_callback 100 True ecode (Some rs) None]) \<and>
    iter_collect (bt_gatt_iter_next_service BT_UUID_UNSPEC []) 2 (first_iter rs) = Some [(1, 6, bt_base_uuid[2 := 0x18, 3 := 0x00])]"
proof -
  have cl: "idle_link cl_env cl_state" "req_queue (hl_att cl_state) = []" "hl_next cl_state = 1"
    by (simp_all add: idle_link_def can_send_def cl_att) (simp_all add: cl_state_def cl_env_def bt_att_new_def bt_att_ref_def
        BT_ATT_DEFAULT_LE_MTU_def)
  have env: "link_env cl_env" "link_env srv_example_env" by (simp_all add: link_env_def cl_env_def srv_example_env_def)
  have idle: "srv_idle srv_example" using srv_example_facts by (simp add: srv_idle_def)
  have "shown [] (1, 6, [0x00, 0x18]) = (1, 6, bt_base_uuid[2 := 0x18, 3 := 0x00])"
    by (simp add: shown_def converted_def convert_uuid_le_def)
  with discover_all_services [OF cl(1,2) env(1) idle env(2) srv_example_services(1,2), of 100 None None] srv_example_services(3,4) cl(3)
  show ?thesis by (fastforce simp: numeral_2_eq_2 simp del: iter_collect.simps)
qed

end
