(* ===== verification/Bt_Ad.thy ===== *)
theory Bt_Ad
  imports Bt_Uuid Bt_Queue
begin

text \<open>
  Advertising data: \<^verbatim>\<open>src/shared/ad.c\<close>.  A peripheral collects UUIDs, manufacturer data, service data,
  its name and its appearance, and generates the at most 31 bytes it advertises.  The queues are
  lists, a pointer to the object that may be \<^verbatim>\<open>NULL\<close> is an option, a C string is the list of its
  bytes without the terminator.
\<close>

section \<open>State\<close>

definition MAX_ADV_DATA_LEN :: nat where "MAX_ADV_DATA_LEN = 31"

definition UINT16_MAX :: u16 where "UINT16_MAX = 0xffff"

record bt_ad_manufacturer_data =
  md_manufacturer_id :: u16
  md_data :: bytes

record bt_ad_service_data =
  sd_uuid :: bt_uuid_t
  sd_data :: bytes

record bt_ad =
  ad_ref_count :: int
  ad_name :: "bytes option"
  ad_appearance :: u16
  ad_service_uuids :: "bt_uuid_t list"
  ad_manufacturer_data :: "bt_ad_manufacturer_data list"
  ad_solicit_uuids :: "bt_uuid_t list"
  ad_service_data :: "bt_ad_service_data list"

definition EIR_UUID16_ALL :: u8 where "EIR_UUID16_ALL = 0x03"

definition EIR_UUID32_ALL :: u8 where "EIR_UUID32_ALL = 0x05"

definition EIR_UUID128_ALL :: u8 where "EIR_UUID128_ALL = 0x07"

definition EIR_NAME_SHORT :: u8 where "EIR_NAME_SHORT = 0x08"

definition EIR_NAME_COMPLETE :: u8 where "EIR_NAME_COMPLETE = 0x09"

definition EIR_SOLICIT16 :: u8 where "EIR_SOLICIT16 = 0x14"

definition EIR_SOLICIT128 :: u8 where "EIR_SOLICIT128 = 0x15"

definition EIR_SVC_DATA16 :: u8 where "EIR_SVC_DATA16 = 0x16"

definition EIR_GAP_APPEARANCE :: u8 where "EIR_GAP_APPEARANCE = 0x19"

definition EIR_SOLICIT32 :: u8 where "EIR_SOLICIT32 = 0x1F"

definition EIR_SVC_DATA32 :: u8 where "EIR_SVC_DATA32 = 0x20"

definition EIR_SVC_DATA128 :: u8 where "EIR_SVC_DATA128 = 0x21"

definition EIR_MANUFACTURER_DATA :: u8 where "EIR_MANUFACTURER_DATA = 0xFF"

definition bt_ad_ref :: "bt_ad option \<Rightarrow> bt_ad option" where
  "bt_ad_ref ad = (case ad of None \<Rightarrow> None | Some a \<Rightarrow> Some (a\<lparr>ad_ref_count := ad_ref_count a + 1\<rparr>))"

definition bt_ad_new :: "bt_ad option" where
  "bt_ad_new = bt_ad_ref (Some \<lparr>ad_ref_count = 0, ad_name = None, ad_appearance = UINT16_MAX, ad_service_uuids = [],
     ad_manufacturer_data = [], ad_solicit_uuids = [], ad_service_data = []\<rparr>)"

text \<open>\<open>None\<close> is the freed object.\<close>

definition bt_ad_unref :: "bt_ad option \<Rightarrow> bt_ad option" where
  "bt_ad_unref ad =
     (case ad of None \<Rightarrow> None
      | Some a \<Rightarrow> if ad_ref_count a - 1 \<noteq> 0 then Some (a\<lparr>ad_ref_count := ad_ref_count a - 1\<rparr>) else None)"

section \<open>The length\<close>

primrec uuid_list_sum :: "bt_uuid_t list \<Rightarrow> nat" where
  "uuid_list_sum [] = 0"
| "uuid_list_sum (u # us) = bt_uuid_len u + uuid_list_sum us"

definition is_type :: "bt_uuid_t \<Rightarrow> nat \<Rightarrow> bool" where
  "is_type u bits = (case u of BT_UUID_UNSPEC \<Rightarrow> bits = 0 | BT_UUID16 _ \<Rightarrow> bits = 16 | BT_UUID32 _ \<Rightarrow> bits = 32
     | BT_UUID128 _ \<Rightarrow> bits = 128)"

definition uuid_list_length :: "bt_uuid_t list \<Rightarrow> nat" where
  "uuid_list_length us =
     uuid_list_sum us +
     (if list_ex (\<lambda>u. is_type u 16) us then 2 else 0) +
     (if list_ex (\<lambda>u. is_type u 32) us then 2 else 0) +
     (if list_ex (\<lambda>u. \<not> is_type u 16 \<and> \<not> is_type u 32) us then 2 else 0)"

primrec mfg_data_length :: "bt_ad_manufacturer_data list \<Rightarrow> nat" where
  "mfg_data_length [] = 0"
| "mfg_data_length (d # ds) = 2 + 2 + length (md_data d) + mfg_data_length ds"

primrec uuid_data_length :: "bt_ad_service_data list \<Rightarrow> nat" where
  "uuid_data_length [] = 0"
| "uuid_data_length (d # ds) = 2 + bt_uuid_len (sd_uuid d) + length (sd_data d) + uuid_data_length ds"

text \<open>The difference is a \<^verbatim>\<open>size_t\<close>, which wraps when more than 31 bytes are taken.\<close>

definition name_length :: "bytes option \<Rightarrow> nat \<Rightarrow> nat" where
  "name_length name pos =
     (case name of None \<Rightarrow> 0
      | Some s \<Rightarrow>
          let len = 2 + length s; room = nat ((int MAX_ADV_DATA_LEN - int pos) mod 2 ^ 64)
          in if len > room then room else len)"

definition calculate_length :: "bt_ad \<Rightarrow> nat" where
  "calculate_length ad =
     (let l = uuid_list_length (ad_service_uuids ad);
          l = l + uuid_list_length (ad_solicit_uuids ad);
          l = l + mfg_data_length (ad_manufacturer_data ad);
          l = l + uuid_data_length (ad_service_data ad);
          l = l + name_length (ad_name ad) l
      in l + (if ad_appearance ad \<noteq> UINT16_MAX then 4 else 0))"

section \<open>Serialisation\<close>

text \<open>
  A serialiser takes the buffer and the position; \<open>None\<close> is a store outside the buffer.  \<open>put\<close> is a
  run of \<^verbatim>\<open>buf[(*pos)++] = x\<close> or a \<^verbatim>\<open>memcpy\<close> with the advance that follows it.  A position beyond the
  31 bytes is never stored to, so the 8 bits of \<^verbatim>\<open>pos\<close> do not wrap.
\<close>

type_synonym serializer = "bytes \<Rightarrow> nat \<Rightarrow> (bytes \<times> nat) option"

definition put :: "bytes \<Rightarrow> serializer" where
  "put bs buf pos = do { buf \<leftarrow> buf_write buf pos bs; Some (buf, pos + length bs) }"

text \<open>The bytes of a UUID; one without a type has none.\<close>

definition put_uuid :: "bt_uuid_t \<Rightarrow> serializer" where
  "put_uuid u =
     (case u of BT_UUID32 v \<Rightarrow> put (put_le32 v)
      | _ \<Rightarrow> (case bt_uuid_to_le u of None \<Rightarrow> put [] | Some le \<Rightarrow> put le))"

primrec serialize_uuids_loop ::
    "nat \<Rightarrow> u8 \<Rightarrow> bt_uuid_t list \<Rightarrow> bytes \<Rightarrow> nat \<Rightarrow> bool \<Rightarrow> nat \<Rightarrow> (bytes \<times> nat \<times> bool \<times> nat) option" where
  "serialize_uuids_loop uuid_type ad_type [] buf pos added length_pos = Some (buf, pos, added, length_pos)"
| "serialize_uuids_loop uuid_type ad_type (uuid # us) buf pos added length_pos =
     (if \<not> is_type uuid uuid_type then serialize_uuids_loop uuid_type ad_type us buf pos added length_pos
      else do {
        let length_pos = (if added then length_pos else pos);
        (buf, pos) \<leftarrow> (if added then Some (buf, pos) else put [ad_type] buf (pos + 1));
        (buf, pos) \<leftarrow> put_uuid uuid buf pos;
        serialize_uuids_loop uuid_type ad_type us buf pos True length_pos })"

definition serialize_uuids :: "bt_uuid_t list \<Rightarrow> nat \<Rightarrow> u8 \<Rightarrow> serializer" where
  "serialize_uuids us uuid_type ad_type buf pos = do {
     (buf, pos, added, length_pos) \<leftarrow> serialize_uuids_loop uuid_type ad_type us buf pos False 0;
     if added then do { buf \<leftarrow> buf_write buf length_pos [of_nat (pos - length_pos - 1)]; Some (buf, pos) }
     else Some (buf, pos) }"

definition serialize_service_uuids :: "bt_uuid_t list \<Rightarrow> serializer" where
  "serialize_service_uuids us buf pos = do {
     (buf, pos) \<leftarrow> serialize_uuids us 16 EIR_UUID16_ALL buf pos;
     (buf, pos) \<leftarrow> serialize_uuids us 32 EIR_UUID32_ALL buf pos;
     serialize_uuids us 128 EIR_UUID128_ALL buf pos }"

definition serialize_solicit_uuids :: "bt_uuid_t list \<Rightarrow> serializer" where
  "serialize_solicit_uuids us buf pos = do {
     (buf, pos) \<leftarrow> serialize_uuids us 16 EIR_SOLICIT16 buf pos;
     (buf, pos) \<leftarrow> serialize_uuids us 32 EIR_SOLICIT32 buf pos;
     serialize_uuids us 128 EIR_SOLICIT128 buf pos }"

primrec serialize_manuf_data :: "bt_ad_manufacturer_data list \<Rightarrow> serializer" where
  "serialize_manuf_data [] buf pos = Some (buf, pos)"
| "serialize_manuf_data (d # ds) buf pos = do {
     (buf, pos) \<leftarrow> put [of_nat (length (md_data d) + 2 + 1)] buf pos;
     (buf, pos) \<leftarrow> put [EIR_MANUFACTURER_DATA] buf pos;
     (buf, pos) \<leftarrow> put (put_le16 (md_manufacturer_id d)) buf pos;
     (buf, pos) \<leftarrow> put (md_data d) buf pos;
     serialize_manuf_data ds buf pos }"

primrec serialize_service_data :: "bt_ad_service_data list \<Rightarrow> serializer" where
  "serialize_service_data [] buf pos = Some (buf, pos)"
| "serialize_service_data (d # ds) buf pos = do {
     let uuid_len = bt_uuid_len (sd_uuid d);
     (buf, pos) \<leftarrow> put [of_nat (uuid_len + length (sd_data d) + 1)] buf pos;
     (buf, pos) \<leftarrow> put (if uuid_len = 2 then [EIR_SVC_DATA16] else if uuid_len = 4 then [EIR_SVC_DATA32]
                        else if uuid_len = 16 then [EIR_SVC_DATA128] else []) buf pos;
     (buf, pos) \<leftarrow> put_uuid (sd_uuid d) buf pos;
     (buf, pos) \<leftarrow> put (sd_data d) buf pos;
     serialize_service_data ds buf pos }"

text \<open>\<^verbatim>\<open>len\<close> is an \<^verbatim>\<open>int\<close>: when it is negative, the copy has the length of a huge \<^verbatim>\<open>size_t\<close>.\<close>

definition serialize_name :: "bytes option \<Rightarrow> serializer" where
  "serialize_name name buf pos =
     (case name of None \<Rightarrow> Some (buf, pos)
      | Some s \<Rightarrow> do {
          let room = int MAX_ADV_DATA_LEN - (int pos + 2);
          let (type, len) = (if int (length s) > room then (EIR_NAME_SHORT, room) else (EIR_NAME_COMPLETE, int (length s)));
          (buf, pos) \<leftarrow> put [of_int (len + 1)] buf pos;
          (buf, pos) \<leftarrow> put [type] buf pos;
          if len < 0 then None else put (take (nat len) s) buf pos })"

definition serialize_appearance :: "u16 \<Rightarrow> serializer" where
  "serialize_appearance value buf pos =
     (if value = UINT16_MAX then Some (buf, pos)
      else do {
        (buf, pos) \<leftarrow> put [2 + 1] buf pos;
        (buf, pos) \<leftarrow> put [EIR_GAP_APPEARANCE] buf pos;
        put (put_le16 value) buf pos })"

text \<open>The result is the data, with its length; the inner \<open>None\<close> is \<^verbatim>\<open>NULL\<close>.\<close>

definition bt_ad_generate :: "bool \<Rightarrow> bt_ad option \<Rightarrow> bytes option option" where
  "bt_ad_generate mem ad =
     (case ad of None \<Rightarrow> Some None
      | Some a \<Rightarrow>
          let len = calculate_length a
          in if len > MAX_ADV_DATA_LEN then Some None
             else if \<not> mem then Some None
             else do {
               let (buf, pos) = (replicate len 0, 0);
               (buf, pos) \<leftarrow> serialize_service_uuids (ad_service_uuids a) buf pos;
               (buf, pos) \<leftarrow> serialize_solicit_uuids (ad_solicit_uuids a) buf pos;
               (buf, pos) \<leftarrow> serialize_manuf_data (ad_manufacturer_data a) buf pos;
               (buf, pos) \<leftarrow> serialize_service_data (ad_service_data a) buf pos;
               (buf, pos) \<leftarrow> serialize_name (ad_name a) buf pos;
               (buf, pos) \<leftarrow> serialize_appearance (ad_appearance a) buf pos;
               Some (Some buf) })"

section \<open>Contents\<close>

definition queue_add_uuid :: "bt_uuid_t list \<Rightarrow> bt_uuid_t \<Rightarrow> bt_uuid_t list" where
  "queue_add_uuid q uuid = q @ [uuid]"

text \<open>The result of a comparison is an \<^verbatim>\<open>int\<close>, here taken for a truth value: two UUIDs match when
  they differ, or when one of them has no type (its bytes are then not initialised).\<close>

definition uuid_match :: "bt_uuid_t \<Rightarrow> bt_uuid_t \<Rightarrow> bool" where
  "uuid_match data elem \<longleftrightarrow> bt_uuid_cmp data elem \<noteq> Some 0"

definition queue_remove_uuid :: "bt_uuid_t list \<Rightarrow> bt_uuid_t option \<Rightarrow> bool \<times> bt_uuid_t list" where
  "queue_remove_uuid q uuid =
     (case uuid of None \<Rightarrow> (False, q)
      | Some u \<Rightarrow> (list_ex (\<lambda>d. uuid_match d u) q, remove_first (\<lambda>d. uuid_match d u) q))"

definition bt_ad_add_service_uuid :: "bt_ad option \<Rightarrow> bt_uuid_t \<Rightarrow> bool \<times> bt_ad option" where
  "bt_ad_add_service_uuid ad uuid =
     (case ad of None \<Rightarrow> (False, None)
      | Some a \<Rightarrow> (True, Some (a\<lparr>ad_service_uuids := queue_add_uuid (ad_service_uuids a) uuid\<rparr>)))"

definition bt_ad_remove_service_uuid :: "bt_ad option \<Rightarrow> bt_uuid_t option \<Rightarrow> bool \<times> bt_ad option" where
  "bt_ad_remove_service_uuid ad uuid =
     (case ad of None \<Rightarrow> (False, None)
      | Some a \<Rightarrow> (let (b, q) = queue_remove_uuid (ad_service_uuids a) uuid in (b, Some (a\<lparr>ad_service_uuids := q\<rparr>))))"

definition bt_ad_clear_service_uuid :: "bt_ad option \<Rightarrow> bt_ad option" where
  "bt_ad_clear_service_uuid ad = map_option (\<lambda>a. a\<lparr>ad_service_uuids := []\<rparr>) ad"

definition manufacturer_id_data_match :: "bt_ad_manufacturer_data \<Rightarrow> u16 \<Rightarrow> bool" where
  "manufacturer_id_data_match m i \<longleftrightarrow> md_manufacturer_id m = i"

text \<open>
  The first entry a test finds gets new data: \<open>upd\<close> is the entry with the data.  A failed \<^verbatim>\<open>realloc\<close> is
  not noticed, and the copy that follows it stores to \<^verbatim>\<open>NULL\<close> (\<open>None\<close>).
\<close>

primrec replace_first :: "('d \<Rightarrow> bool) \<Rightarrow> ('d \<Rightarrow> 'd) \<Rightarrow> 'd list \<Rightarrow> 'd list" where
  "replace_first f upd [] = []"
| "replace_first f upd (x # xs) = (if f x then upd x # xs else x # replace_first f upd xs)"

definition bt_ad_add_manufacturer_data :: "bool \<Rightarrow> bt_ad option \<Rightarrow> u16 \<Rightarrow> bytes \<Rightarrow> (bool \<times> bt_ad option) option" where
  "bt_ad_add_manufacturer_data mem ad manufacturer_id data =
     (case ad of None \<Rightarrow> Some (False, None)
      | Some a \<Rightarrow>
          if length data > MAX_ADV_DATA_LEN - 2 - 2 then Some (False, ad)
          else case find (\<lambda>m. manufacturer_id_data_match m manufacturer_id) (ad_manufacturer_data a) of
            Some new_data \<Rightarrow>
              if md_data new_data = data then Some (False, ad)
              else if \<not> mem \<and> data \<noteq> [] then None
              else Some (True, Some (a\<lparr>ad_manufacturer_data :=
                     replace_first (\<lambda>m. manufacturer_id_data_match m manufacturer_id) (\<lambda>m. m\<lparr>md_data := data\<rparr>)
                       (ad_manufacturer_data a)\<rparr>))
          | None \<Rightarrow>
              if \<not> mem then Some (False, ad)
              else Some (True, Some (a\<lparr>ad_manufacturer_data :=
                     ad_manufacturer_data a @ [\<lparr>md_manufacturer_id = manufacturer_id, md_data = data\<rparr>]\<rparr>)))"

definition manufacturer_data_match :: "bt_ad_manufacturer_data \<Rightarrow> bt_ad_manufacturer_data \<Rightarrow> bool" where
  "manufacturer_data_match m1 m2 \<longleftrightarrow>
     md_manufacturer_id m1 = md_manufacturer_id m2 \<and> length (md_data m1) = length (md_data m2) \<and> md_data m1 = md_data m2"

definition bt_ad_has_manufacturer_data :: "bt_ad option \<Rightarrow> bt_ad_manufacturer_data option \<Rightarrow> bool" where
  "bt_ad_has_manufacturer_data ad data =
     (case ad of None \<Rightarrow> False
      | Some a \<Rightarrow>
          (case data of None \<Rightarrow> ad_manufacturer_data a \<noteq> []
           | Some d \<Rightarrow> find (\<lambda>m. manufacturer_data_match m d) (ad_manufacturer_data a) \<noteq> None))"

text \<open>The data the function is called with, in order.\<close>

definition bt_ad_foreach_manufacturer_data :: "bt_ad option \<Rightarrow> bt_ad_manufacturer_data list" where
  "bt_ad_foreach_manufacturer_data ad = (case ad of None \<Rightarrow> [] | Some a \<Rightarrow> ad_manufacturer_data a)"

text \<open>
  \<open>manuf_match\<close> takes its second argument, the identifier cast to a pointer, for the entry and reads
  the identifier there: a read at an address below 65536 (\<open>None\<close>).
\<close>

definition manuf_match :: "bt_ad_manufacturer_data \<Rightarrow> u16 \<Rightarrow> bool option" where
  "manuf_match data elem = None"

primrec remove_manuf :: "u16 \<Rightarrow> bt_ad_manufacturer_data list \<Rightarrow> (bool \<times> bt_ad_manufacturer_data list) option" where
  "remove_manuf i [] = Some (False, [])"
| "remove_manuf i (m # ms) = do {
     b \<leftarrow> manuf_match m i;
     if b then Some (True, ms) else do { (r, q) \<leftarrow> remove_manuf i ms; Some (r, m # q) } }"

definition bt_ad_remove_manufacturer_data :: "bt_ad option \<Rightarrow> u16 \<Rightarrow> (bool \<times> bt_ad option) option" where
  "bt_ad_remove_manufacturer_data ad manufacturer_id =
     (case ad of None \<Rightarrow> Some (False, None)
      | Some a \<Rightarrow> do {
          (b, q) \<leftarrow> remove_manuf manufacturer_id (ad_manufacturer_data a);
          Some (b, Some (a\<lparr>ad_manufacturer_data := q\<rparr>)) })"

definition bt_ad_clear_manufacturer_data :: "bt_ad option \<Rightarrow> bt_ad option" where
  "bt_ad_clear_manufacturer_data ad = map_option (\<lambda>a. a\<lparr>ad_manufacturer_data := []\<rparr>) ad"

definition bt_ad_add_solicit_uuid :: "bt_ad option \<Rightarrow> bt_uuid_t \<Rightarrow> bool \<times> bt_ad option" where
  "bt_ad_add_solicit_uuid ad uuid =
     (case ad of None \<Rightarrow> (False, None)
      | Some a \<Rightarrow> (True, Some (a\<lparr>ad_solicit_uuids := queue_add_uuid (ad_solicit_uuids a) uuid\<rparr>)))"

definition bt_ad_remove_solicit_uuid :: "bt_ad option \<Rightarrow> bt_uuid_t option \<Rightarrow> bool \<times> bt_ad option" where
  "bt_ad_remove_solicit_uuid ad uuid =
     (case ad of None \<Rightarrow> (False, None)
      | Some a \<Rightarrow> (let (b, q) = queue_remove_uuid (ad_solicit_uuids a) uuid in (b, Some (a\<lparr>ad_solicit_uuids := q\<rparr>))))"

definition bt_ad_clear_solicit_uuid :: "bt_ad option \<Rightarrow> bt_ad option" where
  "bt_ad_clear_solicit_uuid ad = map_option (\<lambda>a. a\<lparr>ad_solicit_uuids := []\<rparr>) ad"

definition service_uuid_match :: "bt_ad_service_data \<Rightarrow> bt_uuid_t \<Rightarrow> bool" where
  "service_uuid_match s uuid \<longleftrightarrow> bt_uuid_cmp (sd_uuid s) uuid = Some 0"

text \<open>The bound is a \<^verbatim>\<open>size_t\<close>; the length of a UUID is at most 16.\<close>

definition bt_ad_add_service_data :: "bool \<Rightarrow> bt_ad option \<Rightarrow> bt_uuid_t \<Rightarrow> bytes \<Rightarrow> (bool \<times> bt_ad option) option" where
  "bt_ad_add_service_data mem ad uuid data =
     (case ad of None \<Rightarrow> Some (False, None)
      | Some a \<Rightarrow>
          if length data > MAX_ADV_DATA_LEN - 2 - bt_uuid_len uuid then Some (False, ad)
          else case find (\<lambda>s. service_uuid_match s uuid) (ad_service_data a) of
            Some new_data \<Rightarrow>
              if sd_data new_data = data then Some (False, ad)
              else if \<not> mem \<and> data \<noteq> [] then None
              else Some (True, Some (a\<lparr>ad_service_data :=
                     replace_first (\<lambda>s. service_uuid_match s uuid) (\<lambda>s. s\<lparr>sd_data := data\<rparr>) (ad_service_data a)\<rparr>))
          | None \<Rightarrow>
              if \<not> mem then Some (False, ad)
              else Some (True, Some (a\<lparr>ad_service_data := ad_service_data a @ [\<lparr>sd_uuid = uuid, sd_data = data\<rparr>]\<rparr>)))"

definition service_data_match :: "bt_ad_service_data \<Rightarrow> bt_ad_service_data \<Rightarrow> bool" where
  "service_data_match s1 s2 \<longleftrightarrow>
     bt_uuid_cmp (sd_uuid s1) (sd_uuid s2) = Some 0 \<and> length (sd_data s1) = length (sd_data s2) \<and> sd_data s1 = sd_data s2"

definition bt_ad_has_service_data :: "bt_ad option \<Rightarrow> bt_ad_service_data option \<Rightarrow> bool" where
  "bt_ad_has_service_data ad data =
     (case ad of None \<Rightarrow> False
      | Some a \<Rightarrow>
          (case data of None \<Rightarrow> ad_service_data a \<noteq> []
           | Some d \<Rightarrow> find (\<lambda>s. service_data_match s d) (ad_service_data a) \<noteq> None))"

definition bt_ad_foreach_service_data :: "bt_ad option \<Rightarrow> bt_ad_service_data list" where
  "bt_ad_foreach_service_data ad = (case ad of None \<Rightarrow> [] | Some a \<Rightarrow> ad_service_data a)"

text \<open>
  \<open>uuid_data_match\<close> has its arguments exchanged too, but a service data entry begins with its UUID, so
  each of them is read as the UUID it is or begins with.
\<close>

definition uuid_data_match :: "bt_ad_service_data \<Rightarrow> bt_uuid_t \<Rightarrow> bool" where
  "uuid_data_match data elem \<longleftrightarrow> bt_uuid_cmp elem (sd_uuid data) = Some 0"

definition bt_ad_remove_service_data :: "bt_ad option \<Rightarrow> bt_uuid_t \<Rightarrow> bool \<times> bt_ad option" where
  "bt_ad_remove_service_data ad uuid =
     (case ad of None \<Rightarrow> (False, None)
      | Some a \<Rightarrow>
          (list_ex (\<lambda>d. uuid_data_match d uuid) (ad_service_data a),
           Some (a\<lparr>ad_service_data := remove_first (\<lambda>d. uuid_data_match d uuid) (ad_service_data a)\<rparr>)))"

definition bt_ad_clear_service_data :: "bt_ad option \<Rightarrow> bt_ad option" where
  "bt_ad_clear_service_data ad = map_option (\<lambda>a. a\<lparr>ad_service_data := []\<rparr>) ad"

text \<open>Without memory for the copy the name is \<^verbatim>\<open>NULL\<close>.\<close>

definition bt_ad_add_name :: "bool \<Rightarrow> bt_ad option \<Rightarrow> bytes \<Rightarrow> bool \<times> bt_ad option" where
  "bt_ad_add_name mem ad name =
     (case ad of None \<Rightarrow> (False, None)
      | Some a \<Rightarrow> (True, Some (a\<lparr>ad_name := (if mem then Some name else None)\<rparr>)))"

definition bt_ad_clear_name :: "bt_ad option \<Rightarrow> bt_ad option" where
  "bt_ad_clear_name ad = map_option (\<lambda>a. a\<lparr>ad_name := None\<rparr>) ad"

definition bt_ad_add_appearance :: "bt_ad option \<Rightarrow> u16 \<Rightarrow> bool \<times> bt_ad option" where
  "bt_ad_add_appearance ad appearance =
     (case ad of None \<Rightarrow> (False, None) | Some a \<Rightarrow> (True, Some (a\<lparr>ad_appearance := appearance\<rparr>)))"

definition bt_ad_clear_appearance :: "bt_ad option \<Rightarrow> bt_ad option" where
  "bt_ad_clear_appearance ad = map_option (\<lambda>a. a\<lparr>ad_appearance := UINT16_MAX\<rparr>) ad"

section \<open>What is generated\<close>

text \<open>Advertising data are a sequence of structures: a length, a type and data.  The parser is the reference.\<close>

fun ad_structs :: "bytes \<Rightarrow> (u8 \<times> bytes) list option" where
  "ad_structs [] = Some []"
| "ad_structs (l # rest) =
     (if l = 0 \<or> length rest < unat l then None
      else map_option (Cons (hd rest, take (unat l - 1) (tl rest))) (ad_structs (drop (unat l) rest)))"

definition enc_struct :: "u8 \<times> bytes \<Rightarrow> bytes" where
  "enc_struct x = of_nat (1 + length (snd x)) # fst x # snd x"

lemma ad_structs_enc:
  "\<forall>x \<in> set xs. length (snd x) < 255 \<Longrightarrow> ad_structs (concat (map enc_struct xs)) = Some xs"
proof (induction xs)
  case (Cons x xs)
  have "unat (of_nat (1 + length (snd x)) :: u8) = 1 + length (snd x)" using Cons.prems by (intro unat_of_nat_less) simp
  moreover from this have "(of_nat (1 + length (snd x)) :: u8) \<noteq> 0" by (metis Suc_eq_plus1_left nat.distinct(1) unat_0)
  ultimately show ?case using Cons by (simp add: enc_struct_def del: of_nat_add of_nat_Suc)
qed simp

text \<open>The structures of an object, in the order the code writes them.\<close>

definition uuid_le :: "bt_uuid_t \<Rightarrow> bytes" where
  "uuid_le u = (case u of BT_UUID32 v \<Rightarrow> put_le32 v | _ \<Rightarrow> the (bt_uuid_to_le u))"

definition uuids_struct :: "nat \<Rightarrow> u8 \<Rightarrow> bt_uuid_t list \<Rightarrow> (u8 \<times> bytes) list" where
  "uuids_struct bits type us =
     (let ms = filter (\<lambda>u. is_type u bits) us in if ms = [] then [] else [(type, concat (map uuid_le ms))])"

definition manuf_struct :: "bt_ad_manufacturer_data \<Rightarrow> u8 \<times> bytes" where
  "manuf_struct d = (EIR_MANUFACTURER_DATA, put_le16 (md_manufacturer_id d) @ md_data d)"

definition service_data_struct :: "bt_ad_service_data \<Rightarrow> u8 \<times> bytes" where
  "service_data_struct d =
     (case sd_uuid d of BT_UUID16 _ \<Rightarrow> EIR_SVC_DATA16 | BT_UUID32 _ \<Rightarrow> EIR_SVC_DATA32 | _ \<Rightarrow> EIR_SVC_DATA128,
      uuid_le (sd_uuid d) @ sd_data d)"

definition base_structs :: "bt_ad \<Rightarrow> (u8 \<times> bytes) list" where
  "base_structs a =
     uuids_struct 16 EIR_UUID16_ALL (ad_service_uuids a) @ uuids_struct 32 EIR_UUID32_ALL (ad_service_uuids a) @
     uuids_struct 128 EIR_UUID128_ALL (ad_service_uuids a) @
     uuids_struct 16 EIR_SOLICIT16 (ad_solicit_uuids a) @ uuids_struct 32 EIR_SOLICIT32 (ad_solicit_uuids a) @
     uuids_struct 128 EIR_SOLICIT128 (ad_solicit_uuids a) @
     map manuf_struct (ad_manufacturer_data a) @ map service_data_struct (ad_service_data a)"

definition base_length :: "bt_ad \<Rightarrow> nat" where
  "base_length a = length (concat (map enc_struct (base_structs a)))"

definition name_struct :: "bytes option \<Rightarrow> nat \<Rightarrow> (u8 \<times> bytes) list" where
  "name_struct name pos =
     (case name of None \<Rightarrow> []
      | Some s \<Rightarrow> if length s \<le> 29 - pos then [(EIR_NAME_COMPLETE, s)] else [(EIR_NAME_SHORT, take (29 - pos) s)])"

definition appearance_struct :: "u16 \<Rightarrow> (u8 \<times> bytes) list" where
  "appearance_struct v = (if v = UINT16_MAX then [] else [(EIR_GAP_APPEARANCE, put_le16 v)])"

definition all_structs :: "bt_ad \<Rightarrow> (u8 \<times> bytes) list" where
  "all_structs a = base_structs a @ name_struct (ad_name a) (base_length a) @ appearance_struct (ad_appearance a)"

text \<open>UUIDs have a type; a name needs room for its two header bytes.\<close>

definition uuids_typed :: "bt_ad \<Rightarrow> bool" where
  "uuids_typed a \<longleftrightarrow> list_all uuid_ok (ad_service_uuids a) \<and> list_all uuid_ok (ad_solicit_uuids a) \<and>
     list_all (\<lambda>d. uuid_ok (sd_uuid d)) (ad_service_data a)"

definition ad_ok :: "bt_ad \<Rightarrow> bool" where
  "ad_ok a \<longleftrightarrow> uuids_typed a \<and> (ad_name a \<noteq> None \<longrightarrow> base_length a \<noteq> 30 \<and> base_length a \<noteq> 31)"

section \<open>The serialisers\<close>

text \<open>From the position \<open>pos\<close> on, the serialiser stores exactly \<open>bs\<close> into a buffer with enough room.\<close>

definition overlay :: "bytes \<Rightarrow> nat \<Rightarrow> bytes \<Rightarrow> bytes" where
  "overlay buf pos bs = take pos buf @ bs @ drop (pos + length bs) buf"

definition emits :: "serializer \<Rightarrow> nat \<Rightarrow> bytes \<Rightarrow> bool" where
  "emits f pos bs \<longleftrightarrow> (\<forall>buf. pos + length bs \<le> length buf \<longrightarrow> f buf pos = Some (overlay buf pos bs, pos + length bs))"

lemma length_overlay [simp]: "pos + length bs \<le> length buf \<Longrightarrow> length (overlay buf pos bs) = length buf"
  by (simp add: overlay_def)

lemma overlay_Nil [simp]: "overlay buf pos [] = buf"
  by (simp add: overlay_def)

lemma overlay_overlay:
  assumes "pos + length a + length b \<le> length buf" "p = pos + length a"
  shows "overlay (overlay buf pos a) p b = overlay buf pos (a @ b)"
proof -
  have "take (pos + length a) (overlay buf pos a) = take pos buf @ a" using assms(1) by (simp add: overlay_def)
  moreover have "drop (pos + length a + length b) (overlay buf pos a) = drop (pos + length (a @ b)) buf"
    using assms(1) by (simp add: overlay_def ac_simps)
  ultimately show ?thesis unfolding assms(2) overlay_def [of "overlay buf pos a"] by (simp add: overlay_def)
qed

lemma overlay_before:
  assumes "Suc pos + length a \<le> length buf"
  shows "overlay (overlay buf (Suc pos) a) pos [x] = overlay buf pos (x # a)"
  using assms by (simp add: overlay_def min_def)

lemma write_overlay: "pos + length bs \<le> length buf \<Longrightarrow> buf_write buf pos bs = Some (overlay buf pos bs)"
  by (simp add: buf_write_def overlay_def)

lemma emits_put: "emits (put bs) pos bs"
  by (simp add: emits_def put_def write_overlay)

lemma emitsD: "emits f pos bs \<Longrightarrow> pos + length bs \<le> length buf \<Longrightarrow> f buf pos = Some (overlay buf pos bs, pos + length bs)"
  by (simp add: emits_def)

lemma emits_seq:
  assumes "emits f pos a" "emits g (pos + length a) b"
  shows "emits (\<lambda>buf pos. do { (buf, pos) \<leftarrow> f buf pos; g buf pos }) pos (a @ b)"
  using assms by (auto simp: emits_def overlay_overlay add.assoc [symmetric])

lemma uuid_le_len: "uuid_ok u \<Longrightarrow> length (uuid_le u) = bt_uuid_len u"
  by (cases u) (auto simp: uuid_le_def bt_uuid_len_def bt_uuid_to_le_def uuid_ok_def)

lemma emits_uuid: "uuid_ok u \<Longrightarrow> emits (put_uuid u) pos (uuid_le u)"
  by (cases u) (auto simp: put_uuid_def uuid_le_def bt_uuid_to_le_def uuid_ok_def emits_put)

abbreviation uuids_le :: "nat \<Rightarrow> bt_uuid_t list \<Rightarrow> bytes" where
  "uuids_le bits us \<equiv> concat (map uuid_le (filter (\<lambda>u. is_type u bits) us))"

lemma uuids_loop_added:
  assumes "list_all uuid_ok us" "pos + length (uuids_le bits us) \<le> length buf"
  shows "serialize_uuids_loop bits type us buf pos True lp =
    Some (overlay buf pos (uuids_le bits us), pos + length (uuids_le bits us), True, lp)"
  using assms
proof (induction us arbitrary: buf pos)
  case (Cons u us)
  then show ?case
    using emitsD [OF emits_uuid, of u pos buf] by (auto simp: overlay_overlay add.assoc [symmetric])
qed simp

lemma emits_uuids:
  assumes "list_all uuid_ok us"
  shows "emits (serialize_uuids us bits type) pos (concat (map enc_struct (uuids_struct bits type us)))"
proof (cases "filter (\<lambda>u. is_type u bits) us = []")
  case True
  then have "serialize_uuids_loop bits type us buf pos False lp = Some (buf, pos, False, lp)" for buf lp
    by (induction us) (auto split: if_splits)
  then show ?thesis using True by (simp add: emits_def serialize_uuids_def uuids_struct_def)
next
  case False
  then obtain us1 u us2 where us: "us = us1 @ u # us2" "\<forall>x \<in> set us1. \<not> is_type x bits" "is_type u bits"
    by (metis filter_False split_list_first_prop)
  have le: "uuids_le bits us = uuid_le u @ uuids_le bits us2" using us by simp
  have ok: "uuid_ok u" "list_all uuid_ok us2" using assms us(1) by simp_all
  have "serialize_uuids us bits type buf pos =
      Some (overlay buf pos (of_nat (1 + length (uuids_le bits us)) # type # uuids_le bits us), pos + 2 + length (uuids_le bits us))"
    if room: "pos + 2 + length (uuids_le bits us) \<le> length buf" for buf
  proof -
    have "serialize_uuids_loop bits type us buf pos False 0 = serialize_uuids_loop bits type (u # us2) buf pos False 0"
      unfolding us(1) using us(2) by (induction us1) auto
    also have "\<dots> = Some (overlay buf (pos + 1) (type # uuids_le bits us), pos + 2 + length (uuids_le bits us), True, pos)"
      using us(3) room emitsD [OF emits_put, of "pos + 1" "[type]" buf]
        emitsD [OF emits_uuid [OF ok(1)], of "pos + 2" "overlay buf (pos + 1) [type]"]
        uuids_loop_added [OF ok(2), of "pos + 2 + length (uuid_le u)" bits] unfolding le
      by (simp add: overlay_overlay add.assoc [symmetric])
    finally show ?thesis using room
      by (simp add: serialize_uuids_def write_overlay overlay_before)
  qed
  then show ?thesis using False by (simp add: emits_def uuids_struct_def Let_def enc_struct_def add.assoc [symmetric])
qed


abbreviation enc_structs :: "(u8 \<times> bytes) list \<Rightarrow> bytes" where
  "enc_structs xs \<equiv> concat (map enc_struct xs)"

lemma emits_Cons:
  assumes "emits f pos a" "emits g (pos + length a) b" "\<And>buf. h buf pos = do { (buf, pos) \<leftarrow> f buf pos; g buf pos }"
  shows "emits h pos (a @ b)"
  using emits_seq [OF assms(1, 2)] assms(3) by (simp add: emits_def)

lemma bind_pair_assoc:
  fixes m :: "('a \<times> 'b) option" and f :: "'a \<Rightarrow> 'b \<Rightarrow> ('c \<times> 'd) option" and g :: "'c \<Rightarrow> 'd \<Rightarrow> 'e option"
  shows "do { (a, b) \<leftarrow> do { (a, b) \<leftarrow> m; f a b }; g a b } = do { (a, b) \<leftarrow> m; (a, b) \<leftarrow> f a b; g a b }"
  by (cases m) auto

lemma emits_manuf: "emits (serialize_manuf_data ds) pos (enc_structs (map manuf_struct ds))"
proof (induction ds arbitrary: pos)
  case (Cons d ds)
  have "emits (\<lambda>buf pos. do { (buf, pos) \<leftarrow> put [of_nat (length (md_data d) + 2 + 1)] buf pos;
      (buf, pos) \<leftarrow> put [EIR_MANUFACTURER_DATA] buf pos;
      (buf, pos) \<leftarrow> put (put_le16 (md_manufacturer_id d)) buf pos; put (md_data d) buf pos }) pos
    ([of_nat (length (md_data d) + 2 + 1)] @ [EIR_MANUFACTURER_DATA] @ put_le16 (md_manufacturer_id d) @ md_data d)"
    by (intro emits_seq emits_put)
  also have "[of_nat (length (md_data d) + 2 + 1)] @ [EIR_MANUFACTURER_DATA] @ put_le16 (md_manufacturer_id d) @ md_data d =
      enc_struct (manuf_struct d)"
    by (simp add: enc_struct_def manuf_struct_def add_ac)
  finally show ?case unfolding list.map concat.simps
    by (rule emits_Cons [OF _ Cons]) (simp only: serialize_manuf_data.simps bind_pair_assoc)
qed (simp add: emits_def)

lemma emits_service_data:
  assumes "list_all (\<lambda>d. uuid_ok (sd_uuid d)) ds"
  shows "emits (serialize_service_data ds) pos (enc_structs (map service_data_struct ds))"
  using assms
proof (induction ds arbitrary: pos)
  case (Cons d ds)
  define t where "t = fst (service_data_struct d)"
  have ok: "uuid_ok (sd_uuid d)" using Cons.prems by simp
  then have t: "(let l = bt_uuid_len (sd_uuid d) in if l = 2 then [EIR_SVC_DATA16] else if l = 4 then [EIR_SVC_DATA32]
                        else if l = 16 then [EIR_SVC_DATA128] else []) = [t]"
    by (cases "sd_uuid d") (auto simp: t_def service_data_struct_def bt_uuid_len_def)
  have "emits (\<lambda>buf pos. do { (buf, pos) \<leftarrow> put [of_nat (bt_uuid_len (sd_uuid d) + length (sd_data d) + 1)] buf pos;
      (buf, pos) \<leftarrow> put [t] buf pos; (buf, pos) \<leftarrow> put_uuid (sd_uuid d) buf pos; put (sd_data d) buf pos }) pos
    ([of_nat (bt_uuid_len (sd_uuid d) + length (sd_data d) + 1)] @ [t] @ uuid_le (sd_uuid d) @ sd_data d)"
    by (intro emits_seq emits_put emits_uuid ok)
  also have "[of_nat (bt_uuid_len (sd_uuid d) + length (sd_data d) + 1)] @ [t] @ uuid_le (sd_uuid d) @ sd_data d =
      enc_struct (service_data_struct d)"
    using uuid_le_len [OF ok] by (simp add: enc_struct_def t_def service_data_struct_def add_ac)
  finally show ?case unfolding list.map concat.simps
    by (rule emits_Cons [OF _ Cons.IH]) (use Cons.prems t in \<open>simp_all add: Let_def bind_pair_assoc del: Option.bind_assoc\<close>)
qed (simp add: emits_def)

lemma emits_name:
  assumes "name \<noteq> None \<longrightarrow> pos \<le> 29"
  shows "emits (serialize_name name) pos (enc_structs (name_struct name pos))"
proof (cases name)
  case (Some s)
  define short where "short = (length s > 29 - pos)"
  define d where "d = (if short then take (29 - pos) s else s)"
  define t where "t = (if short then EIR_NAME_SHORT else EIR_NAME_COMPLETE)"
  have pos: "pos \<le> 29" using Some assms by simp
  then have "(if int (length s) > 29 - int pos then (EIR_NAME_SHORT, 29 - int pos) else (EIR_NAME_COMPLETE, int (length s))) =
      (t, int (length d))" and d: "take (length d) s = d"
    by (auto simp: short_def d_def t_def)
  then have "serialize_name name buf pos =
      do { (buf, pos) \<leftarrow> put [of_nat (1 + length d)] buf pos; (buf, pos) \<leftarrow> put [t] buf pos; put d buf pos }" for buf
    using Some by (simp add: serialize_name_def MAX_ADV_DATA_LEN_def Let_def add.commute)
  moreover have "emits (\<lambda>buf pos. do { (buf, pos) \<leftarrow> put [of_nat (1 + length d)] buf pos; (buf, pos) \<leftarrow> put [t] buf pos;
      put d buf pos }) pos ([of_nat (1 + length d)] @ [t] @ d)"
    by (intro emits_seq emits_put)
  moreover have "enc_structs (name_struct name pos) = [of_nat (1 + length d)] @ [t] @ d"
    using Some by (simp add: name_struct_def enc_struct_def d_def t_def short_def)
  ultimately show ?thesis by (simp add: emits_def)
qed (simp add: emits_def serialize_name_def name_struct_def)

lemma emits_appearance: "emits (serialize_appearance v) pos (enc_structs (appearance_struct v))"
proof -
  have "emits (\<lambda>buf pos. do { (buf, pos) \<leftarrow> put [3] buf pos; (buf, pos) \<leftarrow> put [EIR_GAP_APPEARANCE] buf pos;
      put (put_le16 v) buf pos }) pos ([3] @ [EIR_GAP_APPEARANCE] @ put_le16 v)"
    by (intro emits_seq emits_put)
  then show ?thesis
    by (simp add: emits_def serialize_appearance_def appearance_struct_def enc_struct_def)
qed


lemma emits_uuid_groups:
  assumes "list_all uuid_ok us"
  shows "emits (serialize_service_uuids us) pos (enc_structs (uuids_struct 16 EIR_UUID16_ALL us @
      uuids_struct 32 EIR_UUID32_ALL us @ uuids_struct 128 EIR_UUID128_ALL us))"
    and "emits (serialize_solicit_uuids us) pos (enc_structs (uuids_struct 16 EIR_SOLICIT16 us @
      uuids_struct 32 EIR_SOLICIT32 us @ uuids_struct 128 EIR_SOLICIT128 us))"
  unfolding map_append concat_append serialize_service_uuids_def [abs_def] serialize_solicit_uuids_def [abs_def]
  by (intro emits_seq emits_uuids assms)+

section \<open>The length of the structures\<close>

lemma length_uuids_struct:
  "length (enc_structs (uuids_struct bits t us)) =
     (if list_ex (\<lambda>u. is_type u bits) us then 2 + length (uuids_le bits us) else 0)"
  by (auto simp: uuids_struct_def Let_def enc_struct_def filter_empty_conv list_ex_iff)

lemma uuid_list_sum_groups:
  "list_all uuid_ok us \<Longrightarrow>
   uuid_list_sum us = length (uuids_le 16 us) + length (uuids_le 32 us) + length (uuids_le 128 us)"
proof (induction us)
  case (Cons u us)
  then show ?case using uuid_le_len [of u] by (cases u) (auto simp: is_type_def)
qed simp

lemma uuid_list_length_groups:
  assumes "list_all uuid_ok us"
  shows "uuid_list_length us = length (enc_structs (uuids_struct 16 t us @ uuids_struct 32 t' us @ uuids_struct 128 t'' us))"
proof -
  have none: "length (uuids_le bits us) = 0" if "\<not> list_ex (\<lambda>u. is_type u bits) us" for bits
    using that by (auto simp: list_ex_iff filter_empty_conv)
  have "(\<not> is_type u 16 \<and> \<not> is_type u 32) = is_type u 128" if "u \<in> set us" for u
    using assms that by (cases u) (auto simp: is_type_def list_all_iff)
  then have "list_ex (\<lambda>u. \<not> is_type u 16 \<and> \<not> is_type u 32) us = list_ex (\<lambda>u. is_type u 128) us"
    by (auto simp: list_ex_iff)
  then show ?thesis
    using none [of 16] none [of 32] none [of 128] uuid_list_sum_groups [OF assms]
    by (simp only: uuid_list_length_def map_append concat_append length_append length_uuids_struct) auto
qed

lemma mfg_data_length_structs: "mfg_data_length ds = length (enc_structs (map manuf_struct ds))"
  by (induction ds) (auto simp: enc_struct_def manuf_struct_def)

lemma uuid_data_length_structs:
  "list_all (\<lambda>d. uuid_ok (sd_uuid d)) ds \<Longrightarrow> uuid_data_length ds = length (enc_structs (map service_data_struct ds))"
  by (induction ds) (auto simp: enc_struct_def service_data_struct_def uuid_le_len)

lemma base_length_eq:
  assumes "uuids_typed a"
  shows "base_length a = uuid_list_length (ad_service_uuids a) + uuid_list_length (ad_solicit_uuids a) +
    mfg_data_length (ad_manufacturer_data a) + uuid_data_length (ad_service_data a)"
proof -
  have "base_length a =
      length (enc_structs (uuids_struct 16 EIR_UUID16_ALL (ad_service_uuids a) @ uuids_struct 32 EIR_UUID32_ALL (ad_service_uuids a) @
        uuids_struct 128 EIR_UUID128_ALL (ad_service_uuids a))) +
      length (enc_structs (uuids_struct 16 EIR_SOLICIT16 (ad_solicit_uuids a) @ uuids_struct 32 EIR_SOLICIT32 (ad_solicit_uuids a) @
        uuids_struct 128 EIR_SOLICIT128 (ad_solicit_uuids a))) +
      length (enc_structs (map manuf_struct (ad_manufacturer_data a))) +
      length (enc_structs (map service_data_struct (ad_service_data a)))"
    by (simp add: base_length_def base_structs_def)
  then show ?thesis using assms unfolding uuids_typed_def
    by (simp only: uuid_list_length_groups [symmetric] mfg_data_length_structs uuid_data_length_structs)
qed

lemma name_length_struct:
  "name \<noteq> None \<longrightarrow> pos \<le> 29 \<Longrightarrow> name_length name pos = length (enc_structs (name_struct name pos))"
  by (auto simp: name_length_def name_struct_def enc_struct_def MAX_ADV_DATA_LEN_def Let_def nat_diff_distrib' split: option.split)

lemma calculate_length_eq:
  assumes "ad_ok a"
  shows "calculate_length a > 31 \<longleftrightarrow> length (enc_structs (all_structs a)) > 31"
    and "length (enc_structs (all_structs a)) \<le> 31 \<Longrightarrow> calculate_length a = length (enc_structs (all_structs a))"
proof -
  have typed: "uuids_typed a" using assms by (simp add: ad_ok_def)
  have app: "length (enc_structs (appearance_struct v)) = (if v \<noteq> UINT16_MAX then 4 else 0)" for v
    by (simp add: appearance_struct_def enc_struct_def)
  have calc: "calculate_length a = base_length a + name_length (ad_name a) (base_length a) +
      length (enc_structs (appearance_struct (ad_appearance a)))"
    by (simp add: calculate_length_def base_length_eq [OF typed] Let_def app del: map_append)
  have all: "length (enc_structs (all_structs a)) = base_length a + length (enc_structs (name_struct (ad_name a) (base_length a))) +
      length (enc_structs (appearance_struct (ad_appearance a)))"
    by (simp add: all_structs_def base_length_def)
  have eq: "calculate_length a = length (enc_structs (all_structs a))" if "base_length a \<le> 31"
  proof -
    have "ad_name a \<noteq> None \<longrightarrow> base_length a \<le> 29" using assms that by (auto simp: ad_ok_def)
    then show ?thesis unfolding calc all by (simp add: name_length_struct)
  qed
  then show "calculate_length a > 31 \<longleftrightarrow> length (enc_structs (all_structs a)) > 31"
    using calc all by (cases "base_length a \<le> 31") linarith+
  show "length (enc_structs (all_structs a)) \<le> 31 \<Longrightarrow> calculate_length a = length (enc_structs (all_structs a))"
    using all eq by linarith
qed

section \<open>Properties\<close>

definition serialize_base :: "bt_ad \<Rightarrow> serializer" where
  "serialize_base a buf pos = do {
     (buf, pos) \<leftarrow> serialize_service_uuids (ad_service_uuids a) buf pos;
     (buf, pos) \<leftarrow> serialize_solicit_uuids (ad_solicit_uuids a) buf pos;
     (buf, pos) \<leftarrow> serialize_manuf_data (ad_manufacturer_data a) buf pos;
     serialize_service_data (ad_service_data a) buf pos }"

lemma emits_base:
  assumes "uuids_typed a"
  shows "emits (serialize_base a) pos (enc_structs (base_structs a))"
proof -
  have oks: "list_all uuid_ok (ad_service_uuids a)" "list_all uuid_ok (ad_solicit_uuids a)"
    "list_all (\<lambda>d. uuid_ok (sd_uuid d)) (ad_service_data a)"
    using assms by (simp_all add: uuids_typed_def)
  have "enc_structs (base_structs a) =
      enc_structs (uuids_struct 16 EIR_UUID16_ALL (ad_service_uuids a) @ uuids_struct 32 EIR_UUID32_ALL (ad_service_uuids a) @
        uuids_struct 128 EIR_UUID128_ALL (ad_service_uuids a)) @
      enc_structs (uuids_struct 16 EIR_SOLICIT16 (ad_solicit_uuids a) @ uuids_struct 32 EIR_SOLICIT32 (ad_solicit_uuids a) @
        uuids_struct 128 EIR_SOLICIT128 (ad_solicit_uuids a)) @
      enc_structs (map manuf_struct (ad_manufacturer_data a)) @ enc_structs (map service_data_struct (ad_service_data a))"
    by (simp add: base_structs_def)
  then show ?thesis unfolding serialize_base_def [abs_def]
    by (simp only:) (intro emits_seq emits_uuid_groups emits_manuf emits_service_data oks)
qed

lemma generate_base:
  assumes "calculate_length a \<le> 31"
  shows "bt_ad_generate True (Some a) = do {
    (buf, pos) \<leftarrow> serialize_base a (replicate (calculate_length a) 0) 0;
    (buf, pos) \<leftarrow> serialize_name (ad_name a) buf pos;
    (buf, pos) \<leftarrow> serialize_appearance (ad_appearance a) buf pos;
    Some (Some buf) }"
  using assms unfolding serialize_base_def bind_pair_assoc by (simp add: bt_ad_generate_def MAX_ADV_DATA_LEN_def)

lemma generate_emits:
  assumes "ad_ok a" "length (enc_structs (all_structs a)) \<le> 31"
  shows "bt_ad_generate True (Some a) = Some (Some (enc_structs (all_structs a)))"
proof -
  let ?e = "enc_structs (all_structs a)" and ?b = "enc_structs (base_structs a)"
  have e: "?e = ?b @ enc_structs (name_struct (ad_name a) (base_length a)) @ enc_structs (appearance_struct (ad_appearance a))"
    by (simp add: all_structs_def)
  have typed: "uuids_typed a" and name: "ad_name a \<noteq> None \<longrightarrow> 0 + length ?b \<le> 29"
    using assms e by (auto simp: ad_ok_def base_length_def)
  have "emits (\<lambda>buf pos. do { (buf, pos) \<leftarrow> serialize_base a buf pos; (buf, pos) \<leftarrow> serialize_name (ad_name a) buf pos;
      serialize_appearance (ad_appearance a) buf pos }) 0 ?e"
    unfolding e base_length_def
    using emits_name [OF name] by (intro emits_seq emits_base typed emits_appearance) simp
  then have "do { (buf, pos) \<leftarrow> serialize_base a (replicate (length ?e) 0) 0; (buf, pos) \<leftarrow> serialize_name (ad_name a) buf pos;
      serialize_appearance (ad_appearance a) buf pos } = Some (?e, length ?e)"
    by (simp add: emits_def overlay_def)
  then have "do { (buf, pos) \<leftarrow> do { (buf, pos) \<leftarrow> serialize_base a (replicate (length ?e) 0) 0;
      (buf, pos) \<leftarrow> serialize_name (ad_name a) buf pos; serialize_appearance (ad_appearance a) buf pos };
      Some (Some buf) } = Some (Some ?e)"
    by simp
  then show ?thesis using generate_base [of a] calculate_length_eq [OF assms(1)] assms(2)
    by (simp add: bind_pair_assoc del: Option.bind_assoc)
qed

lemma structs_short:
  assumes "length (enc_structs xs) \<le> 31"
  shows "ad_structs (enc_structs xs) = Some xs"
proof (rule ad_structs_enc, rule ballI)
  fix x assume "x \<in> set xs"
  then have "length (enc_struct x) \<le> length (enc_structs xs)"
    by (induction xs) auto
  then show "length (snd x) < 255" using assms by (simp add: enc_struct_def)
qed

text \<open>
  C34: \<open>bt_ad_generate\<close> writes what the object holds.  For typed UUIDs, and with room for the two header
  bytes of a name, it returns \<^verbatim>\<open>NULL\<close> exactly when the structures of the object need more than 31
  bytes; otherwise no store leaves the buffer, the buffer is filled exactly, and a reader that splits it
  into structures gets those of the object, in order and with the name shortened to the room left.
\<close>

theorem ad_generate_structs:
  assumes "ad_ok a"
  shows "if 31 < length (concat (map enc_struct (all_structs a))) then bt_ad_generate True (Some a) = Some None
    else \<exists>data. bt_ad_generate True (Some a) = Some (Some data) \<and> length data = calculate_length a \<and>
           ad_structs data = Some (all_structs a)"
  using assms calculate_length_eq [OF assms] generate_emits [OF assms] structs_short [of "all_structs a"]
  by (simp add: bt_ad_generate_def MAX_ADV_DATA_LEN_def)

definition demo_ad :: bt_ad where
  "demo_ad = \<lparr>ad_ref_count = 1, ad_name = Some (replicate 20 0x61), ad_appearance = UINT16_MAX,
     ad_service_uuids = [BT_UUID16 0x180d, BT_UUID32 0x12345678, BT_UUID16 0x180f],
     ad_manufacturer_data = [\<lparr>md_manufacturer_id = 0x05f1, md_data = [1, 2]\<rparr>], ad_solicit_uuids = [], ad_service_data = []\<rparr>"

theorem ad_generate_structs_witness:
  "\<exists>data. bt_ad_generate True (Some demo_ad) = Some (Some data) \<and> length data = 31 \<and>
     ad_structs data = Some [(0x03, [0x0d, 0x18, 0x0f, 0x18]), (0x05, [0x78, 0x56, 0x34, 0x12]),
       (0xFF, [0xf1, 0x05, 1, 2]), (0x08, replicate 11 0x61)]"
proof -
  have ok: "ad_ok demo_ad" by code_simp
  have s: "all_structs demo_ad = [(0x03, [0x0d, 0x18, 0x0f, 0x18]), (0x05, [0x78, 0x56, 0x34, 0x12]),
       (0xFF, [0xf1, 0x05, 1, 2]), (0x08, replicate 11 0x61)]" by code_simp
  have l: "calculate_length demo_ad = 31" by code_simp
  show ?thesis using ad_generate_structs [OF ok] unfolding s l by (simp add: enc_struct_def)
qed


lemma name_no_room:
  assumes "pos = 30 \<or> pos = 31" "length buf = 31"
  shows "serialize_name (Some s) buf pos = None"
  using assms by (auto simp: serialize_name_def MAX_ADV_DATA_LEN_def put_def buf_write_def)

lemma calculate_length_no_room:
  assumes "uuids_typed a" "ad_name a = Some s" "base_length a = 30 \<or> base_length a = 31"
  shows "calculate_length a = 31 + (if ad_appearance a \<noteq> UINT16_MAX then 4 else 0)"
  using assms(2, 3) unfolding calculate_length_def Let_def base_length_eq [OF assms(1), symmetric]
  by (auto simp: name_length_def MAX_ADV_DATA_LEN_def)

text \<open>
  C35: when \<open>bt_ad_generate\<close> stores outside its buffer.  For typed UUIDs this happens exactly when
  there is a name and no appearance and the UUIDs, the manufacturer data and the service data take
  30 or 31 of the 31 bytes: the length of the name is bounded by the room left, which is too small
  for its two header bytes, but \<open>serialize_name\<close> writes them all the same.
\<close>

theorem ad_generate_faults:
  assumes "uuids_typed a"
  shows "bt_ad_generate True (Some a) = None \<longleftrightarrow>
    ad_name a \<noteq> None \<and> ad_appearance a = UINT16_MAX \<and> (base_length a = 30 \<or> base_length a = 31)"
proof (cases "ad_ok a")
  case True
  then have "bt_ad_generate True (Some a) \<noteq> None"
    using calculate_length_eq [OF True] generate_emits [OF True] by (cases "31 < calculate_length a")
      (auto simp: bt_ad_generate_def MAX_ADV_DATA_LEN_def)
  then show ?thesis using True by (auto simp: ad_ok_def)
next
  case False
  then obtain s where s: "ad_name a = Some s" "base_length a = 30 \<or> base_length a = 31"
    using assms by (auto simp: ad_ok_def)
  note len = calculate_length_no_room [OF assms s]
  show ?thesis
  proof (cases "ad_appearance a = UINT16_MAX")
    case True
    have "serialize_base a (replicate 31 0) 0 = Some (overlay (replicate 31 0) 0 (enc_structs (base_structs a)), base_length a)"
      using emitsD [OF emits_base [OF assms], of 0 "replicate 31 0"] s(2) by (auto simp: base_length_def)
    then have "bt_ad_generate True (Some a) = None"
      using generate_base [of a] len True s name_no_room [OF s(2)]
      by (auto simp: base_length_def)
    then show ?thesis using True s by simp
  next
    case False
    then show ?thesis using len by (simp add: bt_ad_generate_def MAX_ADV_DATA_LEN_def)
  qed
qed

definition full_ad :: bt_ad where
  "full_ad = demo_ad\<lparr>ad_service_uuids := replicate 14 (BT_UUID16 0x180d), ad_manufacturer_data := []\<rparr>"

theorem ad_generate_faults_witness:
  "uuids_typed full_ad \<and> base_length full_ad = 30 \<and> bt_ad_generate True (Some full_ad) = None"
proof -
  have t: "uuids_typed full_ad" and b: "base_length full_ad = 30" by code_simp+
  have "ad_name full_ad \<noteq> None" "ad_appearance full_ad = UINT16_MAX" by (simp_all add: full_ad_def demo_ad_def)
  then show ?thesis using ad_generate_faults [OF t] t b by simp
qed

lemma remove_first_cong: "(\<And>x. x \<in> set xs \<Longrightarrow> f x = g x) \<Longrightarrow> remove_first f xs = remove_first g xs"
  by (induction xs) auto

lemma remove_first_takeWhile: "remove_first (\<lambda>x. \<not> f x) xs = takeWhile f xs @ tl (dropWhile f xs)"
  by (induction xs) auto

lemma uuid_match_iff: "uuid_ok u \<Longrightarrow> uuid_ok v \<Longrightarrow> uuid_match u v \<longleftrightarrow> uuid_bytes u \<noteq> uuid_bytes v"
  by (simp add: uuid_match_def uuid_cmp_0_iff)

text \<open>
  Removing a service UUID removes another one.  The first UUID of the object that differs from the
  given one goes, whether or not the given one is there; an object that holds only copies of the given
  UUID keeps them all and the call reports that there was nothing to remove.
\<close>

theorem ad_remove_service_uuid_other:
  assumes "uuids_typed a" "uuid_ok u"
  shows "bt_ad_remove_service_uuid (Some a) (Some u) =
    (let same = (\<lambda>v. uuid_bytes v = uuid_bytes u); us = ad_service_uuids a
     in (\<not> list_all same us, Some (a\<lparr>ad_service_uuids := takeWhile same us @ tl (dropWhile same us)\<rparr>)))"
proof -
  have m: "uuid_match x u \<longleftrightarrow> uuid_bytes x \<noteq> uuid_bytes u" if "x \<in> set (ad_service_uuids a)" for x
    using assms that by (simp add: uuids_typed_def list_all_iff uuid_match_iff)
  then have "remove_first (\<lambda>d. uuid_match d u) (ad_service_uuids a) =
      remove_first (\<lambda>d. uuid_bytes d \<noteq> uuid_bytes u) (ad_service_uuids a)"
    by (rule remove_first_cong)
  then show ?thesis using m
    by (auto simp: bt_ad_remove_service_uuid_def queue_remove_uuid_def list_ex_iff list_all_iff remove_first_takeWhile Let_def)
qed

theorem ad_remove_service_uuid_other_witness:
  "bt_ad_remove_service_uuid (Some demo_ad) (Some (BT_UUID16 0x180d)) =
     (True, Some (demo_ad\<lparr>ad_service_uuids := [BT_UUID16 0x180d, BT_UUID16 0x180f]\<rparr>))"
proof -
  have t: "uuids_typed demo_ad" by code_simp
  have "ad_service_uuids demo_ad = [BT_UUID16 0x180d, BT_UUID32 0x12345678, BT_UUID16 0x180f]"
    by (simp add: demo_ad_def)
  moreover have "uuid_bytes (BT_UUID32 0x12345678) \<noteq> uuid_bytes (BT_UUID16 0x180d)" by code_simp
  ultimately show ?thesis
    using ad_remove_service_uuid_other [OF t, of "BT_UUID16 0x180d"] by simp
qed

lemma ad_remove_manufacturer_faults:
  "ad_manufacturer_data a \<noteq> [] \<Longrightarrow> bt_ad_remove_manufacturer_data (Some a) i = None"
  by (cases "ad_manufacturer_data a") (simp_all add: bt_ad_remove_manufacturer_data_def manuf_match_def)

text \<open>The manufacturer data as a finite map.\<close>

definition manufacturer_map :: "bt_ad \<Rightarrow> u16 \<Rightarrow> bytes option" where
  "manufacturer_map a = map_of (map (\<lambda>m. (md_manufacturer_id m, md_data m)) (ad_manufacturer_data a))"

lemma find_manufacturer:
  "manufacturer_map a i = map_option md_data (find (\<lambda>m. manufacturer_id_data_match m i) (ad_manufacturer_data a))"
proof -
  have "map_of (map (\<lambda>m. (md_manufacturer_id m, md_data m)) ms) i = map_option md_data (find (\<lambda>m. manufacturer_id_data_match m i) ms)" for ms
    by (induction ms) (auto simp: manufacturer_id_data_match_def)
  then show ?thesis by (simp add: manufacturer_map_def)
qed

lemma replace_manufacturer:
  assumes "i \<in> md_manufacturer_id ` set ms"
  shows "map_of (map (\<lambda>m. (md_manufacturer_id m, md_data m))
      (replace_first (\<lambda>m. manufacturer_id_data_match m i) (\<lambda>m. m\<lparr>md_data := d\<rparr>) ms)) =
    (map_of (map (\<lambda>m. (md_manufacturer_id m, md_data m)) ms)) (i \<mapsto> d)"
  using assms by (induction ms) (auto simp: manufacturer_id_data_match_def fun_eq_iff)

lemma append_manufacturer:
  assumes "i \<notin> md_manufacturer_id ` set ms"
  shows "map_of (map (\<lambda>m. (md_manufacturer_id m, md_data m)) (ms @ [\<lparr>md_manufacturer_id = i, md_data = d\<rparr>])) =
    (map_of (map (\<lambda>m. (md_manufacturer_id m, md_data m)) ms)) (i \<mapsto> d)"
  using assms by (induction ms) (auto simp: fun_eq_iff)

lemma replace_first_ids:
  "map md_manufacturer_id (replace_first f (\<lambda>m. m\<lparr>md_data := d\<rparr>) ms) = map md_manufacturer_id ms"
  by (induction ms) auto

text \<open>
  \<open>bt_ad_add_manufacturer_data\<close> is an update of a finite map from identifiers to data.  Data that do
  not fit into an advertisement are refused and nothing changes; otherwise the identifier has the new data,
  the others keep theirs, no identifier appears twice, the result says whether anything changed, and
  the entry is found again.
\<close>

theorem ad_add_manufacturer_data_map:
  assumes "distinct (map md_manufacturer_id (ad_manufacturer_data a))"
  shows "\<exists>a'. bt_ad_add_manufacturer_data True (Some a) i d = Some (a' \<noteq> a, Some a') \<and>
    distinct (map md_manufacturer_id (ad_manufacturer_data a')) \<and>
    (if 27 < length d then a' = a
     else manufacturer_map a' = (manufacturer_map a)(i \<mapsto> d) \<and>
       bt_ad_has_manufacturer_data (Some a') (Some \<lparr>md_manufacturer_id = i, md_data = d\<rparr>))"
proof (cases "27 < length d")
  case True
  then show ?thesis using assms by (simp add: bt_ad_add_manufacturer_data_def MAX_ADV_DATA_LEN_def)
next
  case False
  let ?f = "\<lambda>m. manufacturer_id_data_match m i" and ?ms = "ad_manufacturer_data a"
  have has: "bt_ad_has_manufacturer_data (Some a') (Some \<lparr>md_manufacturer_id = i, md_data = d\<rparr>)"
    if "manufacturer_map a' i = Some d" for a'
    using map_of_SomeD [OF that [unfolded manufacturer_map_def]]
    by (auto simp: bt_ad_has_manufacturer_data_def find_None_iff manufacturer_data_match_def)
  show ?thesis
  proof (cases "find ?f ?ms")
    case None
    then have i: "i \<notin> md_manufacturer_id ` set ?ms" by (auto simp: find_None_iff manufacturer_id_data_match_def)
    let ?a = "a\<lparr>ad_manufacturer_data := ?ms @ [\<lparr>md_manufacturer_id = i, md_data = d\<rparr>]\<rparr>"
    have "manufacturer_map ?a = (manufacturer_map a)(i \<mapsto> d)"
      using append_manufacturer [OF i] by (simp add: manufacturer_map_def)
    moreover have "?a \<noteq> a" by (metis append_self_conv bt_ad.select_convs(5) bt_ad.surjective bt_ad.update_convs(5) not_Cons_self2)
    ultimately show ?thesis
      using False None assms i has [of ?a] by (simp add: bt_ad_add_manufacturer_data_def MAX_ADV_DATA_LEN_def)
  next
    case (Some m)
    then have m: "manufacturer_map a i = Some (md_data m)" and i: "i \<in> md_manufacturer_id ` set ?ms"
      using find_Some_iff [of ?f ?ms m] by (auto simp: find_manufacturer manufacturer_id_data_match_def)
    let ?a = "a\<lparr>ad_manufacturer_data := replace_first ?f (\<lambda>m. m\<lparr>md_data := d\<rparr>) ?ms\<rparr>"
    have map: "manufacturer_map ?a = (manufacturer_map a)(i \<mapsto> d)"
      using replace_manufacturer [OF i] by (simp add: manufacturer_map_def)
    show ?thesis
    proof (cases "md_data m = d")
      case True
      then show ?thesis using False Some assms m has [of a]
        by (auto simp: bt_ad_add_manufacturer_data_def MAX_ADV_DATA_LEN_def fun_eq_iff)
    next
      case ne: False
      then have "?a \<noteq> a" using m map by (metis fun_upd_same option.inject)
      then show ?thesis using False Some ne assms map has [of ?a]
        by (simp add: bt_ad_add_manufacturer_data_def MAX_ADV_DATA_LEN_def replace_first_ids)
    qed
  qed
qed

theorem ad_add_manufacturer_data_map_witness:
  "\<exists>a'. bt_ad_add_manufacturer_data True (Some demo_ad) 0x05f1 [9] = Some (a' \<noteq> demo_ad, Some a') \<and>
     manufacturer_map a' 0x05f1 = Some [9]"
  using ad_add_manufacturer_data_map [of demo_ad "0x05f1" "[9]"] by (auto simp: demo_ad_def)

end
