(* ===== verification/Uuid_Helper.thy ===== *)
theory Uuid_Helper
  imports Bt_Uuid
begin

text \<open>
  The UUIDs of the daemon: \<^verbatim>\<open>src/uuid-helper.c\<close>, with the functions of \<^verbatim>\<open>lib/sdp.c\<close> that create and
  widen the UUIDs of the service discovery protocol.  The tagged union \<^verbatim>\<open>uuid_t\<close> is a datatype; the
  host is little endian.  \<open>mem\<close> says whether \<^verbatim>\<open>asprintf\<close> gets its memory; \<open>None\<close> is \<^verbatim>\<open>NULL\<close>, or
  \<^verbatim>\<open>-EINVAL\<close> of a parser.
\<close>

section \<open>SDP UUIDs\<close>

datatype uuid_t = SDP_UUID16 u16 | SDP_UUID32 u32 | SDP_UUID128 bytes | SDP_UUID_other u8

definition htons :: "u16 \<Rightarrow> u16" where
  "htons v = get_le16 (put_be16 v)"

definition htonl :: "u32 \<Rightarrow> u32" where
  "htonl v = get_le32 (put_be32 v)"

definition sdp_uuid16_create :: "u16 \<Rightarrow> uuid_t" where
  "sdp_uuid16_create val = SDP_UUID16 val"

definition sdp_uuid128_create :: "bytes \<Rightarrow> uuid_t" where
  "sdp_uuid128_create val = SDP_UUID128 val"

definition sdp_uuid16_to_uuid128 :: "u16 \<Rightarrow> bytes" where
  "sdp_uuid16_to_uuid128 uuid16 =
     (let data1 = get_le16 (take 2 (drop 2 bluetooth_base_uuid));
          data1 = data1 + htons uuid16
      in patch 2 (put_le16 data1) bluetooth_base_uuid)"

definition sdp_uuid32_to_uuid128 :: "u32 \<Rightarrow> bytes" where
  "sdp_uuid32_to_uuid128 uuid32 =
     (let data0 = get_le32 (take 4 (drop 0 bluetooth_base_uuid));
          data0 = data0 + htonl uuid32
      in patch 0 (put_le32 data0) bluetooth_base_uuid)"

section \<open>Strings\<close>

definition toupper :: "char \<Rightarrow> char" where
  "toupper c = (let n = of_char c :: nat in if 97 \<le> n \<and> n \<le> 122 then char_of (n - 32) else c)"

definition tolower :: "char \<Rightarrow> char" where
  "tolower c = (let n = of_char c :: nat in if 65 \<le> n \<and> n \<le> 90 then char_of (n + 32) else c)"

text \<open>\<^verbatim>\<open>%04X\<close> of a 16-bit value, and equality up to case, \<^verbatim>\<open>strcasecmp(a, b) == 0\<close>.\<close>

definition print_04X :: "u16 \<Rightarrow> string" where
  "print_04X v = map toupper (print_x 4 (unat v))"

definition strcaseeq :: "string \<Rightarrow> string \<Rightarrow> bool" where
  "strcaseeq a b \<longleftrightarrow> map tolower a = map tolower b"

definition bt_modalias :: "bool \<Rightarrow> u16 \<Rightarrow> u16 \<Rightarrow> u16 \<Rightarrow> u16 \<Rightarrow> string option" where
  "bt_modalias mem source vendor product version =
     (let fmt = (\<lambda>s. if mem then Some (s @ '':v'' @ print_04X vendor @ ''p'' @ print_04X product @ ''d'' @ print_04X version)
                     else None)
      in if source = 0x0001 then fmt ''bluetooth''
         else if source = 0x0002 then fmt ''usb''
         else None)"

definition bt_uuid2string :: "bool \<Rightarrow> uuid_t option \<Rightarrow> string option" where
  "bt_uuid2string mem uuid =
     (case uuid of None \<Rightarrow> None
      | Some u \<Rightarrow> do {
          data \<leftarrow> (case u of
              SDP_UUID16 v \<Rightarrow> Some (sdp_uuid16_to_uuid128 v)
            | SDP_UUID32 v \<Rightarrow> Some (sdp_uuid32_to_uuid128 v)
            | SDP_UUID128 v \<Rightarrow> Some v
            | SDP_UUID_other _ \<Rightarrow> None);
          let data0 = get_be32 (drop 0 data);
          let data1 = get_be16 (drop 4 data);
          let data2 = get_be16 (drop 6 data);
          let data3 = get_be16 (drop 8 data);
          let data4 = get_be32 (drop 10 data);
          let data5 = get_be16 (drop 14 data);
          if mem
          then Some (print_x 8 (unat data0) @ ''-'' @ print_x 4 (unat data1) @ ''-'' @
                     print_x 4 (unat data2) @ ''-'' @ print_x 4 (unat data3) @ ''-'' @
                     print_x 8 (unat data4) @ print_x 4 (unat data5))
          else None })"

definition bt_services :: "(string \<times> u16) list" where
  "bt_services =
     [(''pbap'', 0x1130), (''sap'', 0x112d), (''ftp'', 0x1106), (''bpp'', 0x1122), (''bip'', 0x111a),
      (''synch'', 0x1104), (''dun'', 0x1103), (''opp'', 0x1105), (''fax'', 0x1111), (''spp'', 0x1101),
      (''hsp'', 0x1108), (''hsp-hs'', 0x1108), (''hsp-ag'', 0x1112), (''hfp'', 0x111e), (''hfp-hf'', 0x111e),
      (''hfp-ag'', 0x111f), (''pbap-pce'', 0x112e), (''pbap-pse'', 0x112f), (''map-mse'', 0x1132),
      (''map-mas'', 0x1132), (''map-mce'', 0x1133), (''map-mns'', 0x1133), (''gnss'', 0x1136)]"

definition name2class :: "string \<Rightarrow> u16" where
  "name2class pattern =
     (case find (\<lambda>(name, cl). strcaseeq name pattern) bt_services of Some (name, cl) \<Rightarrow> cl | None \<Rightarrow> 0)"

definition is_uuid128 :: "string \<Rightarrow> bool" where
  "is_uuid128 s \<longleftrightarrow>
     length s = 36 \<and> s ! 8 = CHR ''-'' \<and> s ! 13 = CHR ''-'' \<and> s ! 18 = CHR ''-'' \<and> s ! 23 = CHR ''-''"

definition string2uuid16 :: "string \<Rightarrow> uuid_t option" where
  "string2uuid16 s =
     (if length s \<noteq> 4 \<and> length s \<noteq> 6 then None
      else let (v, endptr) = strtol s
           in if endptr = [] then Some (sdp_uuid16_create (word_of_int v)) else None)"

definition bt_name2string :: "bool \<Rightarrow> string \<Rightarrow> string option" where
  "bt_name2string mem pattern =
     (if is_uuid128 pattern then (if mem then Some pattern else None)
      else let proceed = (\<lambda>uuid16. bt_uuid2string mem (Some (sdp_uuid16_create uuid16)));
               uuid16 = name2class pattern
           in if uuid16 \<noteq> 0 then proceed uuid16
              else let uuid16 = word_of_int (fst (strtol pattern))
                   in if list_ex (\<lambda>(name, cl). cl = uuid16) bt_services then proceed uuid16
                      else None)"

text \<open>The six conversions of \<^verbatim>\<open>sscanf\<close>; \<open>None\<close> when one of them fails.\<close>

definition scan_uuid128 :: "string \<Rightarrow> (u32 \<times> u16 \<times> u16 \<times> u16 \<times> u32 \<times> u16) option" where
  "scan_uuid128 s = do {
     (data0, s) \<leftarrow> scan_x 8 s; s \<leftarrow> scan_lit ''-'' s;
     (data1, s) \<leftarrow> scan_x 4 s; s \<leftarrow> scan_lit ''-'' s;
     (data2, s) \<leftarrow> scan_x 4 s; s \<leftarrow> scan_lit ''-'' s;
     (data3, s) \<leftarrow> scan_x 4 s; s \<leftarrow> scan_lit ''-'' s;
     (data4, s) \<leftarrow> scan_x 8 s;
     (data5, s) \<leftarrow> scan_x 4 s;
     Some (word_of_int data0, word_of_int data1, word_of_int data2, word_of_int data3, word_of_int data4,
           word_of_int data5) }"

definition bt_string2uuid :: "string \<Rightarrow> uuid_t option" where
  "bt_string2uuid s =
     (case (if is_uuid128 s then scan_uuid128 s else None) of
        Some (data0, data1, data2, data3, data4, data5) \<Rightarrow>
          Some (sdp_uuid128_create
            (put_le32 (htonl data0) @ put_le16 (htons data1) @ put_le16 (htons data2) @ put_le16 (htons data3) @
             put_le32 (htonl data4) @ put_le16 (htons data5)))
      | None \<Rightarrow>
          let cl = name2class s
          in if cl \<noteq> 0 then Some (sdp_uuid16_create cl) else string2uuid16 s)"

section \<open>Lemmas\<close>

lemma put_get_le32: "put_le32 (get_le32 [a, b, c, d]) = [a, b, c, d]"
  using bit_imp_le_length [of a] bit_imp_le_length [of b] bit_imp_le_length [of c] bit_imp_le_length [of d]
  by (force simp: put_le32_def intro!: bit_word_eqI simp: bit_simps)

lemma put_htons [simp]: "put_le16 (htons v) = put_be16 v"
  unfolding htons_def put_be16_def by (simp only: put_get_le16)

lemma put_htonl [simp]: "put_le32 (htonl v) = put_be32 v"
  unfolding htonl_def put_be32_def by (simp only: put_get_le32)

text \<open>The UUID of the attribute protocol a UUID of the service discovery protocol stands for.\<close>

definition sdp_of :: "bt_uuid_t \<Rightarrow> uuid_t" where
  "sdp_of u = (case u of BT_UUID16 v \<Rightarrow> SDP_UUID16 v | BT_UUID32 v \<Rightarrow> SDP_UUID32 v | BT_UUID128 b \<Rightarrow> SDP_UUID128 b
     | BT_UUID_UNSPEC \<Rightarrow> SDP_UUID_other 0)"

lemma base_zero: "get_le16 (take 2 (drop 2 bluetooth_base_uuid)) = 0" "get_le32 (take 4 bluetooth_base_uuid) = 0"
  by (simp_all add: bluetooth_base_uuid_def)

lemma sdp_uuid16_bytes: "sdp_uuid16_to_uuid128 v = uuid_bytes (BT_UUID16 v)"
  by (simp add: sdp_uuid16_to_uuid128_def base_zero uuid_bytes_def bt_uuid_to_uuid128_def bt_uuid16_to_uuid128_def
      BASE_UUID16_OFFSET_def)

lemma sdp_uuid32_bytes: "sdp_uuid32_to_uuid128 v = uuid_bytes (BT_UUID32 v)"
  by (simp add: sdp_uuid32_to_uuid128_def base_zero uuid_bytes_def bt_uuid_to_uuid128_def bt_uuid32_to_uuid128_def
      BASE_UUID32_OFFSET_def)

lemma uuid2string_bytes:
  assumes "uuid_ok u"
  shows "bt_uuid2string True (Some (sdp_of u)) = (let b = uuid_bytes u in Some (uuid_str (get_be32 b) (get_be16 (drop 4 b))
    (get_be16 (drop 6 b)) (get_be16 (drop 8 b)) (get_be32 (drop 10 b)) (get_be16 (drop 14 b))))"
proof -
  have "(case sdp_of u of SDP_UUID16 v \<Rightarrow> Some (sdp_uuid16_to_uuid128 v) | SDP_UUID32 v \<Rightarrow> Some (sdp_uuid32_to_uuid128 v)
      | SDP_UUID128 v \<Rightarrow> Some v | SDP_UUID_other _ \<Rightarrow> None) = Some (uuid_bytes u)"
    using assms by (cases u) (simp_all add: sdp_of_def sdp_uuid16_bytes sdp_uuid32_bytes, simp add: uuid_bytes_def bt_uuid_to_uuid128_def)
  then show ?thesis by (simp add: bt_uuid2string_def uuid_str_def Let_def)
qed

lemma scan_uuid_str: "scan_uuid128 (uuid_str d0 d1 d2 d3 d4 d5) = Some (d0, d1, d2, d3, d4, d5)"
proof -
  note p = scan_x_print [of 8, OF _ unat_u32_pow, simplified]
    scan_x_print [of 4, OF _ unat_u16_pow, simplified]
    scan_x_print [of 4, OF _ unat_u16_pow, of _ "[]", simplified]
  show ?thesis by (simp add: scan_uuid128_def uuid_str_def p del: print_x.simps)
qed

lemma is_uuid128_eq: "is_uuid128 s = Bt_Uuid.is_uuid128 s"
  by (simp add: is_uuid128_def Bt_Uuid.is_uuid128_def)

lemma string2uuid_str: "bt_string2uuid (uuid_str d0 d1 d2 d3 d4 d5) = Some (SDP_UUID128 (uuid_data d0 d1 d2 d3 d4 d5))"
  by (simp add: bt_string2uuid_def is_uuid128_eq is_uuid128_str scan_uuid_str sdp_uuid128_create_def uuid_data_def)

section \<open>Properties\<close>

text \<open>
  The daemon and the library agree on the strings of UUIDs.  \<open>bt_uuid2string\<close> prints a UUID as
  \<open>bt_uuid_to_string\<close> of \<^verbatim>\<open>lib/uuid.c\<close> does, and \<open>bt_string2uuid\<close> reads the sixteen bytes of the UUID back.
\<close>

theorem uuid2string_roundtrip:
  assumes "uuid_ok u"
  shows "\<exists>s. bt_uuid2string True (Some (sdp_of u)) = Some s \<and> bt_uuid_to_string (Some u) 37 = (0, s) \<and>
    bt_string2uuid s = Some (SDP_UUID128 (uuid_bytes u))"
proof -
  let ?b = "uuid_bytes u"
  let ?s = "uuid_str (get_be32 ?b) (get_be16 (drop 4 ?b)) (get_be16 (drop 6 ?b)) (get_be16 (drop 8 ?b)) (get_be32 (drop 10 ?b))
    (get_be16 (drop 14 ?b))"
  have "bt_uuid_to_string (Some u) 37 = (0, take 36 ?s)"
    using assms by (auto simp: bt_uuid_to_string_def uuid_to_128_bytes uuid_str_def)
  then have "bt_uuid_to_string (Some u) 37 = (0, ?s)" by simp
  moreover have "bt_string2uuid ?s = Some (SDP_UUID128 ?b)"
    using bytes16_data [OF length_uuid_bytes [OF assms]] by (simp add: string2uuid_str)
  ultimately show ?thesis using uuid2string_bytes [OF assms] by (simp add: Let_def)
qed

theorem uuid2string_roundtrip_witness:
  "\<exists>s. bt_uuid2string True (Some (SDP_UUID16 0x180d)) = Some s \<and>
     bt_string2uuid s = Some (SDP_UUID128 (uuid_bytes (BT_UUID16 0x180d)))"
  using uuid2string_roundtrip [of "BT_UUID16 0x180d"] by (auto simp: sdp_of_def)

text \<open>A service has the same UUID under its name and under the string \<open>bt_name2string\<close> makes of it.\<close>

lemma name2string_named:
  assumes "name2class s \<noteq> 0" "\<not> is_uuid128 s"
  shows "bt_string2uuid s = Some (SDP_UUID16 (name2class s)) \<and>
    (\<exists>t. bt_name2string True s = Some t \<and> bt_string2uuid t = Some (SDP_UUID128 (uuid_bytes (BT_UUID16 (name2class s)))))"
proof -
  have "bt_string2uuid s = Some (SDP_UUID16 (name2class s))"
    using assms by (simp add: bt_string2uuid_def sdp_uuid16_create_def)
  moreover have "bt_name2string True s = bt_uuid2string True (Some (sdp_of (BT_UUID16 (name2class s))))"
    using assms by (simp add: bt_name2string_def sdp_uuid16_create_def sdp_of_def)
  moreover have "\<exists>t. bt_uuid2string True (Some (sdp_of (BT_UUID16 v))) = Some t \<and>
      bt_string2uuid t = Some (SDP_UUID128 (uuid_bytes (BT_UUID16 v)))" for v
    using bytes16_data [OF length_uuid_bytes [of "BT_UUID16 v"]] by (simp add: uuid2string_bytes Let_def string2uuid_str)
  ultimately show ?thesis by metis
qed

lemma scan_digits_numeral:
  "scan_digits (numeral k) acc (c # cs) =
     (case hex_val c of Some d \<Rightarrow> scan_digits (pred_numeral k) (16 * acc + d) cs | None \<Rightarrow> (acc, c # cs))"
  by (simp add: numeral_eq_Suc)

text \<open>A hexadecimal number is cut to 16 bits: the number 21101 of five digits names the serial port.\<close>

lemma name2string_truncates: "bt_name2string True ''21101'' = bt_name2string True ''spp''"
proof -
  have "name2class ''21101'' = 0" "name2class ''spp'' = 0x1101" by code_simp+
  moreover have "strtol ''21101'' = (0x21101, [])"
    by (simp add: strtol_def scan_x_def scan_sign_def scan_prefix_def starts_hex_def isspace_def hex_val_def scan_digits_numeral)
  moreover have "sdp_uuid16_create 135425 = sdp_uuid16_create 4353" by code_simp
  ultimately show ?thesis
    by (simp add: bt_name2string_def is_uuid128_def bt_services_def)
qed

end
