(* ===== verification/Eir.thy ===== *)
theory Eir
  imports Bt_Ad Uuid_Helper
begin

text \<open>
  Extended inquiry response and out-of-band data: \<^verbatim>\<open>src/eir.c\<close>.  A scanning device parses with it
  what a peripheral advertises.  A pointer into the received data is the list of the bytes from it to the
  end of the memory; a result \<open>None\<close> is an access outside the memory.  The functions of GLib
  that look into a name, \<^verbatim>\<open>g_utf8_validate\<close> and \<^verbatim>\<open>g_strstrip\<close>, are parameters; a \<^verbatim>\<open>GSList\<close> is a
  list and \<^verbatim>\<open>g_malloc\<close> does not fail.
\<close>

section \<open>Data\<close>

record glib =
  g_utf8_validate :: "bytes \<Rightarrow> bool"
  g_strstrip :: "bytes \<Rightarrow> bytes"
  asprintf_mem :: bool

record eir_msd =
  msd_company :: u16
  msd_data :: bytes

record eir_sd =
  eir_sd_uuid :: string
  eir_sd_data :: bytes

record eir_data =
  eir_services :: "string list"
  eir_flags :: u32
  eir_name :: "bytes option"
  eir_class :: u32
  eir_appearance :: u16
  eir_name_complete :: bool
  eir_tx_power :: u8
  eir_hash :: "bytes option"
  eir_randomizer :: "bytes option"
  eir_addr :: bytes
  eir_did_vendor :: u16
  eir_did_product :: u16
  eir_did_version :: u16
  eir_did_source :: u16
  eir_msd_list :: "eir_msd list"
  eir_sd_list :: "eir_sd list"

definition EIR_FLAGS :: u8 where "EIR_FLAGS = 0x01"

definition EIR_UUID16_SOME :: u8 where "EIR_UUID16_SOME = 0x02"

definition EIR_UUID32_SOME :: u8 where "EIR_UUID32_SOME = 0x04"

definition EIR_UUID128_SOME :: u8 where "EIR_UUID128_SOME = 0x06"

definition EIR_TX_POWER :: u8 where "EIR_TX_POWER = 0x0A"

definition EIR_CLASS_OF_DEV :: u8 where "EIR_CLASS_OF_DEV = 0x0D"

definition EIR_SSP_HASH :: u8 where "EIR_SSP_HASH = 0x0E"

definition EIR_SSP_RANDOMIZER :: u8 where "EIR_SSP_RANDOMIZER = 0x0F"

definition EIR_DEVICE_ID :: u8 where "EIR_DEVICE_ID = 0x10"

definition EIR_SD_MAX_LEN :: nat where "EIR_SD_MAX_LEN = 238"

definition EIR_MSD_MAX_LEN :: nat where "EIR_MSD_MAX_LEN = 236"

definition EIR_OOB_MIN :: nat where "EIR_OOB_MIN = 2 + 6"

definition HCI_MAX_NAME_LENGTH :: nat where "HCI_MAX_NAME_LENGTH = 248"

definition HCI_MAX_EIR_LENGTH :: nat where "HCI_MAX_EIR_LENGTH = 240"

definition SIZEOF_UUID128 :: nat where "SIZEOF_UUID128 = 16"

definition PNP_INFO_SVCLASS_ID :: u16 where "PNP_INFO_SVCLASS_ID = 0x1200"

definition eir_data_free :: "eir_data \<Rightarrow> eir_data" where
  "eir_data_free eir = eir\<lparr>eir_services := [], eir_name := None, eir_hash := None, eir_randomizer := None,
     eir_msd_list := [], eir_sd_list := []\<rparr>"

section \<open>Parsing\<close>

text \<open>A read of \<open>n\<close> bytes at a pointer, and a copy into an array of \<open>n\<close> bytes.\<close>

definition rd :: "nat \<Rightarrow> bytes \<Rightarrow> bytes option" where
  "rd n p = (if n \<le> length p then Some (take n p) else None)"

definition copy_max :: "nat \<Rightarrow> bytes \<Rightarrow> bytes option" where
  "copy_max n bs = (if length bs \<le> n then Some bs else None)"

definition add_service :: "glib \<Rightarrow> eir_data \<Rightarrow> uuid_t \<Rightarrow> eir_data" where
  "add_service g eir service =
     (case bt_uuid2string (asprintf_mem g) (Some service) of None \<Rightarrow> eir
      | Some str \<Rightarrow> eir\<lparr>eir_services := eir_services eir @ [str]\<rparr>)"

primrec uuid16_loop :: "nat \<Rightarrow> glib \<Rightarrow> eir_data \<Rightarrow> bytes \<Rightarrow> eir_data option" where
  "uuid16_loop 0 g eir uuid16 = Some eir"
| "uuid16_loop (Suc n) g eir uuid16 = do {
     b \<leftarrow> rd 2 uuid16;
     uuid16_loop n g (add_service g eir (SDP_UUID16 (get_le16 b))) (drop 2 uuid16) }"

definition eir_parse_uuid16 :: "glib \<Rightarrow> eir_data \<Rightarrow> bytes \<Rightarrow> nat \<Rightarrow> eir_data option" where
  "eir_parse_uuid16 g eir data len = uuid16_loop (len div 2) g eir data"

primrec uuid32_loop :: "nat \<Rightarrow> glib \<Rightarrow> eir_data \<Rightarrow> bytes \<Rightarrow> eir_data option" where
  "uuid32_loop 0 g eir uuid32 = Some eir"
| "uuid32_loop (Suc n) g eir uuid32 = do {
     b \<leftarrow> rd 4 uuid32;
     uuid32_loop n g (add_service g eir (SDP_UUID32 (get_le32 b))) (drop 4 uuid32) }"

definition eir_parse_uuid32 :: "glib \<Rightarrow> eir_data \<Rightarrow> bytes \<Rightarrow> nat \<Rightarrow> eir_data option" where
  "eir_parse_uuid32 g eir data len = uuid32_loop (len div 4) g eir data"

text \<open>Without memory for the string the pointer is not moved on.\<close>

primrec uuid128_loop :: "nat \<Rightarrow> glib \<Rightarrow> eir_data \<Rightarrow> bytes \<Rightarrow> eir_data option" where
  "uuid128_loop 0 g eir uuid_ptr = Some eir"
| "uuid128_loop (Suc n) g eir uuid_ptr = do {
     b \<leftarrow> rd 16 uuid_ptr;
     case bt_uuid2string (asprintf_mem g) (Some (SDP_UUID128 (bswap_128 b))) of
       None \<Rightarrow> uuid128_loop n g eir uuid_ptr
     | Some str \<Rightarrow> uuid128_loop n g (eir\<lparr>eir_services := eir_services eir @ [str]\<rparr>) (drop 16 uuid_ptr) }"

definition eir_parse_uuid128 :: "glib \<Rightarrow> eir_data \<Rightarrow> bytes \<Rightarrow> nat \<Rightarrow> eir_data option" where
  "eir_parse_uuid128 g eir data len = uuid128_loop (len div 16) g eir data"

text \<open>
  \<^verbatim>\<open>g_strndup\<close> copies up to a zero byte.  \<^verbatim>\<open>strncpy\<close> fills \<open>len\<close> bytes of the buffer of 250, and the loop
  over the copy stops at a zero byte of the buffer.
\<close>

definition name2utf8 :: "glib \<Rightarrow> bytes \<Rightarrow> nat \<Rightarrow> bytes option" where
  "name2utf8 g name len = do {
     b \<leftarrow> rd len name;
     let s = takeWhile (\<lambda>c. c \<noteq> 0) b;
     if g_utf8_validate g b then Some s
     else if HCI_MAX_NAME_LENGTH + 2 < len \<or> HCI_MAX_NAME_LENGTH + 2 \<le> length s then None
     else Some (g_strstrip g (map (\<lambda>c. if c < 128 then c else 0x20) s)) }"

definition eir_parse_msd :: "eir_data \<Rightarrow> bytes \<Rightarrow> nat \<Rightarrow> eir_data option" where
  "eir_parse_msd eir data len =
     (if len < 2 \<or> len > 2 + EIR_MSD_MAX_LEN then Some eir
      else do {
        b \<leftarrow> rd 2 data;
        d \<leftarrow> rd (len - 2) (drop 2 data);
        d \<leftarrow> copy_max EIR_MSD_MAX_LEN d;
        Some (eir\<lparr>eir_msd_list := eir_msd_list eir @ [\<lparr>msd_company = get_le16 b, msd_data = d\<rparr>]\<rparr>) })"

definition eir_parse_sd :: "glib \<Rightarrow> eir_data \<Rightarrow> uuid_t \<Rightarrow> bytes \<Rightarrow> nat \<Rightarrow> eir_data option" where
  "eir_parse_sd g eir service data len =
     (case bt_uuid2string (asprintf_mem g) (Some service) of None \<Rightarrow> Some eir
      | Some uuid \<Rightarrow> do {
          d \<leftarrow> rd len data;
          d \<leftarrow> copy_max EIR_SD_MAX_LEN d;
          Some (eir\<lparr>eir_sd_list := eir_sd_list eir @ [\<lparr>eir_sd_uuid = uuid, eir_sd_data = d\<rparr>]\<rparr>) })"

definition eir_parse_uuid16_data :: "glib \<Rightarrow> eir_data \<Rightarrow> bytes \<Rightarrow> nat \<Rightarrow> eir_data option" where
  "eir_parse_uuid16_data g eir data len =
     (if len < 2 \<or> len > EIR_SD_MAX_LEN then Some eir
      else do { b \<leftarrow> rd 2 data; eir_parse_sd g eir (SDP_UUID16 (get_le16 b)) (drop 2 data) (len - 2) })"

definition eir_parse_uuid32_data :: "glib \<Rightarrow> eir_data \<Rightarrow> bytes \<Rightarrow> nat \<Rightarrow> eir_data option" where
  "eir_parse_uuid32_data g eir data len =
     (if len < 4 \<or> len > EIR_SD_MAX_LEN then Some eir
      else do { b \<leftarrow> rd 4 data; eir_parse_sd g eir (SDP_UUID32 (get_le32 b)) (drop 4 data) (len - 4) })"

definition eir_parse_uuid128_data :: "glib \<Rightarrow> eir_data \<Rightarrow> bytes \<Rightarrow> nat \<Rightarrow> eir_data option" where
  "eir_parse_uuid128_data g eir data len =
     (if len < 16 \<or> len > EIR_SD_MAX_LEN then Some eir
      else do { b \<leftarrow> rd 16 data; eir_parse_sd g eir (SDP_UUID128 (bswap_128 b)) (drop 16 data) (len - 16) })"

text \<open>The zero bytes at the end of a name are not counted.\<close>

fun trim_nul :: "bytes \<Rightarrow> nat \<Rightarrow> nat option" where
  "trim_nul data 0 = Some 0"
| "trim_nul data (Suc n) =
     (if length data \<le> n then None else if data ! n = 0 then trim_nul data n else Some (Suc n))"

text \<open>The cases of the switch on the type of a field.\<close>

definition eir_field :: "glib \<Rightarrow> eir_data \<Rightarrow> u8 \<Rightarrow> bytes \<Rightarrow> nat \<Rightarrow> eir_data option" where
  "eir_field g eir type data data_len =
     (if type = EIR_UUID16_SOME \<or> type = EIR_UUID16_ALL then eir_parse_uuid16 g eir data data_len
      else if type = EIR_UUID32_SOME \<or> type = EIR_UUID32_ALL then eir_parse_uuid32 g eir data data_len
      else if type = EIR_UUID128_SOME \<or> type = EIR_UUID128_ALL then eir_parse_uuid128 g eir data data_len
      else if type = EIR_FLAGS then
        (if data_len > 0 then do { b \<leftarrow> rd 1 data; Some (eir\<lparr>eir_flags := ucast (b ! 0)\<rparr>) } else Some eir)
      else if type = EIR_NAME_SHORT \<or> type = EIR_NAME_COMPLETE then do {
        data_len \<leftarrow> trim_nul data data_len;
        name \<leftarrow> name2utf8 g data data_len;
        Some (eir\<lparr>eir_name := Some name, eir_name_complete := (type = EIR_NAME_COMPLETE)\<rparr>) }
      else if type = EIR_TX_POWER then
        (if data_len < 1 then Some eir else do { b \<leftarrow> rd 1 data; Some (eir\<lparr>eir_tx_power := b ! 0\<rparr>) })
      else if type = EIR_CLASS_OF_DEV then
        (if data_len < 3 then Some eir
         else do {
           b \<leftarrow> rd 3 data;
           Some (eir\<lparr>eir_class := ucast (b ! 0) OR push_bit 8 (ucast (b ! 1)) OR push_bit 16 (ucast (b ! 2))\<rparr>) })
      else if type = EIR_GAP_APPEARANCE then
        (if data_len < 2 then Some eir else do { b \<leftarrow> rd 2 data; Some (eir\<lparr>eir_appearance := get_le16 b\<rparr>) })
      else if type = EIR_SSP_HASH then
        (if data_len < 16 then Some eir else do { b \<leftarrow> rd 16 data; Some (eir\<lparr>eir_hash := Some b\<rparr>) })
      else if type = EIR_SSP_RANDOMIZER then
        (if data_len < 16 then Some eir else do { b \<leftarrow> rd 16 data; Some (eir\<lparr>eir_randomizer := Some b\<rparr>) })
      else if type = EIR_DEVICE_ID then
        (if data_len < 8 then Some eir
         else do {
           b \<leftarrow> rd 8 data;
           Some (eir\<lparr>eir_did_source := ucast (b ! 0) OR push_bit 8 (ucast (b ! 1)),
                     eir_did_vendor := ucast (b ! 2) OR push_bit 8 (ucast (b ! 3)),
                     eir_did_product := ucast (b ! 4) OR push_bit 8 (ucast (b ! 5)),
                     eir_did_version := ucast (b ! 6) OR push_bit 8 (ucast (b ! 7))\<rparr>) })
      else if type = EIR_SVC_DATA16 then eir_parse_uuid16_data g eir data data_len
      else if type = EIR_SVC_DATA32 then eir_parse_uuid32_data g eir data data_len
      else if type = EIR_SVC_DATA128 then eir_parse_uuid128_data g eir data data_len
      else if type = EIR_MANUFACTURER_DATA then eir_parse_msd eir data data_len
      else Some eir)"

text \<open>\<^verbatim>\<open>len\<close> stays below 512, so its 16 bits do not wrap.\<close>

function eir_parse_loop :: "glib \<Rightarrow> eir_data \<Rightarrow> bytes \<Rightarrow> nat \<Rightarrow> nat \<Rightarrow> eir_data option" where
  "eir_parse_loop g eir eir_data len eir_len =
     (if int len < int eir_len - 1 then do {
        b \<leftarrow> rd 1 eir_data;
        let field_len = unat (b ! 0);
        if field_len = 0 then Some eir
        else if len + field_len + 1 > eir_len then Some eir
        else do {
          b \<leftarrow> rd 2 eir_data;
          eir \<leftarrow> eir_field g eir (b ! 1) (drop 2 eir_data) (field_len - 1);
          eir_parse_loop g eir (drop (field_len + 1) eir_data) (len + field_len + 1) eir_len } }
      else Some eir)"
  by pat_completeness auto
termination
  by (relation "measure (\<lambda>(g, eir, eir_data, len, eir_len). eir_len - len)") auto

definition eir_parse :: "glib \<Rightarrow> eir_data \<Rightarrow> bytes option \<Rightarrow> u8 \<Rightarrow> eir_data option" where
  "eir_parse g eir eir_data eir_len =
     (let eir = eir\<lparr>eir_flags := 0, eir_tx_power := 127\<rparr>
      in case eir_data of None \<Rightarrow> Some eir | Some p \<Rightarrow> eir_parse_loop g eir p 0 (unat eir_len))"

text \<open>The length given to \<open>eir_parse\<close> is cut to eight bits.\<close>

definition eir_parse_oob :: "glib \<Rightarrow> eir_data \<Rightarrow> bytes \<Rightarrow> u16 \<Rightarrow> (int \<times> eir_data) option" where
  "eir_parse_oob g eir eir_data eir_len =
     (if unat eir_len < EIR_OOB_MIN then Some (- 1, eir)
      else do {
        b \<leftarrow> rd 2 eir_data;
        if eir_len \<noteq> get_le16 b then Some (- 1, eir)
        else do {
          let eir_data = drop 2 eir_data;
          let eir_len = eir_len - 2;
          b \<leftarrow> rd 6 eir_data;
          let eir = eir\<lparr>eir_addr := b\<rparr>;
          let eir_data = drop 6 eir_data;
          let eir_len = eir_len - 6;
          if eir_len > 0 then do { eir \<leftarrow> eir_parse g eir (Some eir_data) (ucast eir_len); Some (0, eir) }
          else Some (0, eir) } })"

section \<open>Generating\<close>

text \<open>
  The UUIDs are those of the service classes of the records.  The 128-bit UUIDs are stored in place
  behind two bytes for the length and the type.
\<close>

primrec uuid128_gen_loop :: "uuid_t list \<Rightarrow> bytes \<Rightarrow> nat \<Rightarrow> nat \<Rightarrow> nat \<Rightarrow> (bytes \<times> nat \<times> nat \<times> bool) option" where
  "uuid128_gen_loop [] buf uuid128 uuid_count len = Some (buf, uuid_count, len, False)"
| "uuid128_gen_loop (uuid # list) buf uuid128 uuid_count len =
     (case uuid of
        SDP_UUID128 uuid128_data \<Rightarrow>
          if len + 2 + SIZEOF_UUID128 > HCI_MAX_EIR_LENGTH then Some (buf, uuid_count, len, True)
          else if list_ex (\<lambda>i. take SIZEOF_UUID128 (drop (uuid128 + i * SIZEOF_UUID128) buf) = bswap_128 uuid128_data) [0..<uuid_count]
          then uuid128_gen_loop list buf uuid128 uuid_count len
          else do {
            buf \<leftarrow> buf_write buf (uuid128 + uuid_count * SIZEOF_UUID128) (bswap_128 uuid128_data);
            uuid128_gen_loop list buf uuid128 (uuid_count + 1) (len + SIZEOF_UUID128) }
      | _ \<Rightarrow> uuid128_gen_loop list buf uuid128 uuid_count len)"

definition eir_generate_uuid128 :: "uuid_t list \<Rightarrow> bytes \<Rightarrow> nat \<Rightarrow> nat \<Rightarrow> (bytes \<times> nat) option" where
  "eir_generate_uuid128 list buf ptr eir_len = do {
     (buf, uuid_count, len, truncated) \<leftarrow> uuid128_gen_loop list buf (ptr + 2) 0 eir_len;
     if uuid_count > 0 \<or> truncated then do {
       buf \<leftarrow> buf_write buf ptr [of_nat (uuid_count * SIZEOF_UUID128 + 1), if truncated then EIR_UUID128_SOME else EIR_UUID128_ALL];
       Some (buf, len + 2) }
     else Some (buf, eir_len) }"

text \<open>The array of 16-bit UUIDs holds 120 entries; the bound on the length keeps the count below.\<close>

primrec uuid16_group :: "uuid_t list \<Rightarrow> u16 list \<Rightarrow> nat \<Rightarrow> u16 list \<times> nat \<times> bool" where
  "uuid16_group [] uuid16 eir_optional_len = (uuid16, eir_optional_len, False)"
| "uuid16_group (uuid # l) uuid16 eir_optional_len =
     (case uuid of
        SDP_UUID16 v \<Rightarrow>
          if v < 0x1100 then uuid16_group l uuid16 eir_optional_len
          else if v = PNP_INFO_SVCLASS_ID then uuid16_group l uuid16 eir_optional_len
          else if eir_optional_len + 2 + 2 > HCI_MAX_EIR_LENGTH then (uuid16, eir_optional_len, True)
          else if v \<in> set uuid16 then uuid16_group l uuid16 eir_optional_len
          else uuid16_group l (uuid16 @ [v]) (eir_optional_len + 2)
      | _ \<Rightarrow> uuid16_group l uuid16 eir_optional_len)"

text \<open>A part that is written when its condition holds: the bytes, with the length they add.\<close>

definition put_if :: "bool \<Rightarrow> bytes \<Rightarrow> bytes \<Rightarrow> nat \<Rightarrow> nat \<Rightarrow> (bytes \<times> nat \<times> nat) option" where
  "put_if c bs buf ptr eir_optional_len =
     (if c then do { (buf, ptr) \<leftarrow> put bs buf ptr; Some (buf, ptr, eir_optional_len + length bs) }
      else Some (buf, ptr, eir_optional_len))"

text \<open>The optional fields before the UUIDs.\<close>

definition oob_fields ::
    "bytes \<Rightarrow> u32 \<Rightarrow> bytes option \<Rightarrow> bytes option \<Rightarrow> u16 \<Rightarrow> u16 \<Rightarrow> u16 \<Rightarrow> u16 \<Rightarrow> bytes \<Rightarrow> nat \<Rightarrow> nat \<Rightarrow>
     (bytes \<times> nat \<times> nat) option" where
  "oob_fields name cod hash randomizer did_vendor did_product did_version did_source buf ptr len = do {
     (buf, ptr, len) \<leftarrow> put_if (cod > 0)
       [4, EIR_CLASS_OF_DEV, ucast cod, ucast (drop_bit 8 cod), ucast (drop_bit 16 cod)] buf ptr len;
     (buf, ptr, len) \<leftarrow> put_if (hash \<noteq> None) (17 # EIR_SSP_HASH # the hash) buf ptr len;
     (buf, ptr, len) \<leftarrow> put_if (randomizer \<noteq> None) (17 # EIR_SSP_RANDOMIZER # the randomizer) buf ptr len;
     (buf, ptr, len) \<leftarrow> put_if (length name > 0)
       (let (n, type) = (if length name > 48 then (48, EIR_NAME_SHORT) else (length name, EIR_NAME_COMPLETE))
        in of_nat (n + 1) # type # take n name) buf ptr len;
     put_if (did_vendor \<noteq> 0)
       ([9, EIR_DEVICE_ID] @ put_le16 did_source @ put_le16 did_vendor @ put_le16 did_product @ put_le16 did_version) buf ptr len }"

definition oob_put_uuid16 :: "uuid_t list \<Rightarrow> bytes \<Rightarrow> nat \<Rightarrow> nat \<Rightarrow> (bytes \<times> nat \<times> nat) option" where
  "oob_put_uuid16 uuids buf ptr len =
     (let (uuid16, len, truncated) = uuid16_group uuids [] len
      in if uuid16 \<noteq> [] then do {
           (buf, ptr) \<leftarrow> put [of_nat (length uuid16 * 2 + 1), if truncated then EIR_UUID16_SOME else EIR_UUID16_ALL] buf ptr;
           (buf, ptr) \<leftarrow> put (concat (map put_le16 uuid16)) buf ptr;
           Some (buf, ptr, len + 2) }
         else Some (buf, ptr, len))"

definition eir_create_oob ::
    "bytes \<Rightarrow> bytes \<Rightarrow> u32 \<Rightarrow> bytes option \<Rightarrow> bytes option \<Rightarrow> u16 \<Rightarrow> u16 \<Rightarrow> u16 \<Rightarrow> u16 \<Rightarrow> uuid_t list \<Rightarrow> bytes \<Rightarrow>
     (nat \<times> bytes) option" where
  "eir_create_oob addr name cod hash randomizer did_vendor did_product did_version did_source uuids data = do {
     let eir_total_len = 2 + 6;
     (buf, ptr) \<leftarrow> put addr data 2;
     (buf, ptr, len) \<leftarrow> oob_fields name cod hash randomizer did_vendor did_product did_version did_source buf ptr 0;
     (buf, ptr, len) \<leftarrow> oob_put_uuid16 uuids buf ptr len;
     (buf, len) \<leftarrow> (if len \<le> HCI_MAX_EIR_LENGTH - 2 then eir_generate_uuid128 uuids buf ptr len else Some (buf, len));
     let eir_total_len = eir_total_len + len;
     buf \<leftarrow> buf_write buf 0 (put_le16 (of_nat eir_total_len));
     Some (eir_total_len, buf) }"

end
