(* ===== verification/Eir_Props.thy ===== *)
theory Eir_Props
  imports Eir
begin

text \<open>
  Properties of \<^verbatim>\<open>src/eir.c\<close>: parsing stays in the received data, and what is advertised or
  generated is parsed back.
\<close>

section \<open>Reads\<close>

lemma rd_append [simp]: "n \<le> length d \<Longrightarrow> rd n (d @ rest) = rd n d"
  by (simp add: rd_def)

lemma rd_Some [simp]: "n \<le> length d \<Longrightarrow> rd n d = Some (take n d)"
  by (simp add: rd_def)

lemma uuid16_loop_safe: "2 * n \<le> length p \<Longrightarrow> uuid16_loop n g eir p \<noteq> None"
  by (induction n arbitrary: eir p) auto

lemma uuid32_loop_safe: "4 * n \<le> length p \<Longrightarrow> uuid32_loop n g eir p \<noteq> None"
  by (induction n arbitrary: eir p) auto

lemma uuid128_loop_safe: "16 * n \<le> length p \<Longrightarrow> uuid128_loop n g eir p \<noteq> None"
  by (induction n arbitrary: eir p) (auto split: option.split)

lemma trim_nul_safe: "n \<le> length p \<Longrightarrow> \<exists>m \<le> n. trim_nul p n = Some m"
proof (induction n)
  case (Suc n)
  then show ?case by (cases "p ! n = 0") (auto intro: le_SucI)
qed simp

lemma trim_nul_full:
  assumes "0 \<notin> set s"
  shows "trim_nul s (length s) = Some (length s)"
proof (cases "length s")
  case (Suc n)
  then have "s ! n \<noteq> 0" using assms by (metis lessI nth_mem)
  then show ?thesis using Suc by simp
qed simp

lemma get_put_le32_Nil [simp]: "get_le32 (put_le32 v) = v"
  using get_put_le32 [of v "[]"] by simp

lemma name2utf8_safe: "n \<le> length p \<Longrightarrow> n \<le> 249 \<Longrightarrow> name2utf8 g p n \<noteq> None"
  using length_takeWhile_le [of "\<lambda>c. c \<noteq> 0" "take n p"] by (simp add: name2utf8_def HCI_MAX_NAME_LENGTH_def Let_def)

lemma parse_sd_safe: "n \<le> length p \<Longrightarrow> n \<le> 238 \<Longrightarrow> eir_parse_sd g eir u p n \<noteq> None"
  by (simp add: eir_parse_sd_def copy_max_def EIR_SD_MAX_LEN_def split: option.split)

lemmas data_parser_defs = eir_parse_uuid16_data_def eir_parse_uuid32_data_def eir_parse_uuid128_data_def

lemma parse_data_safe:
  assumes "n \<le> length p"
  shows "eir_parse_uuid16_data g eir p n \<noteq> None" "eir_parse_uuid32_data g eir p n \<noteq> None"
    "eir_parse_uuid128_data g eir p n \<noteq> None"
  using assms
  by (simp_all add: data_parser_defs EIR_SD_MAX_LEN_def del: not_None_eq) (intro impI parse_sd_safe; auto)+

lemma parse_msd_safe: "n \<le> length p \<Longrightarrow> eir_parse_msd eir p n \<noteq> None"
  by (auto simp: eir_parse_msd_def copy_max_def EIR_MSD_MAX_LEN_def)

lemma parse_uuids_safe:
  assumes "n \<le> length p"
  shows "eir_parse_uuid16 g eir p n \<noteq> None" "eir_parse_uuid32 g eir p n \<noteq> None" "eir_parse_uuid128 g eir p n \<noteq> None"
  using assms unfolding eir_parse_uuid16_def eir_parse_uuid32_def eir_parse_uuid128_def
  by (simp_all add: uuid16_loop_safe uuid32_loop_safe uuid128_loop_safe del: not_None_eq)

lemma eir_field_safe:
  assumes "n \<le> length p" "n \<le> 249"
  shows "eir_field g eir t p n \<noteq> None"
proof -
  obtain m where m: "m \<le> n" "trim_nul p n = Some m" using trim_nul_safe [OF assms(1)] by auto
  have "name2utf8 g p m \<noteq> None" using assms m by (intro name2utf8_safe) auto
  then obtain s where s: "name2utf8 g p m = Some s" by blast
  show ?thesis unfolding eir_field_def
    using assms(1) by (simp add: m(2) s parse_data_safe parse_msd_safe parse_uuids_safe del: not_None_eq)
qed

declare eir_parse_loop.simps [simp del]

lemma eir_parse_loop_stop:
  "int len \<ge> int eir_len - 1 \<or> p ! 0 = 0 \<or> len + unat (p ! 0) + 1 > eir_len \<Longrightarrow> 1 \<le> length p \<or> int len \<ge> int eir_len - 1 \<Longrightarrow>
   eir_parse_loop g eir p len eir_len = Some eir"
  by (subst eir_parse_loop.simps) (auto simp: unat_eq_0 Let_def)

lemma eir_parse_loop_step:
  assumes "int len < int eir_len - 1" "p ! 0 \<noteq> 0" "len + unat (p ! 0) + 1 \<le> eir_len" "2 \<le> length p"
  shows "eir_parse_loop g eir p len eir_len = do {
    eir \<leftarrow> eir_field g eir (p ! 1) (drop 2 p) (unat (p ! 0) - 1);
    eir_parse_loop g eir (drop (unat (p ! 0) + 1) p) (len + unat (p ! 0) + 1) eir_len }"
  using assms by (subst eir_parse_loop.simps) (simp add: unat_eq_0 Let_def)

lemma eir_parse_loop_safe:
  "eir_len \<le> len + length p \<Longrightarrow> eir_len \<le> 251 \<Longrightarrow> eir_parse_loop g eir p len eir_len \<noteq> None"
proof (induction "eir_len - len" arbitrary: eir p len rule: less_induct)
  case less
  show ?case
  proof (cases "int len < int eir_len - 1 \<and> p ! 0 \<noteq> 0 \<and> len + unat (p ! 0) + 1 \<le> eir_len")
    case True
    let ?n = "unat (p ! 0)"
    have p: "2 \<le> length p" "?n - 1 \<le> length (drop 2 p)" "?n - 1 \<le> 249" using True less.prems by auto
    obtain eir' where e: "eir_field g eir (p ! 1) (drop 2 p) (?n - 1) = Some eir'"
      using eir_field_safe [OF p(2, 3)] by blast
    have "eir_parse_loop g eir' (drop (?n + 1) p) (len + ?n + 1) eir_len \<noteq> None"
      using True less.prems by (intro less.hyps) auto
    then show ?thesis using True p e by (simp add: eir_parse_loop_step)
  next
    case False
    then show ?thesis using less.prems by (subst eir_parse_loop_stop) auto
  qed
qed

text \<open>
  C36: \<open>eir_parse\<close> is safe on any input of at most 251 bytes: whatever the bytes of the data are, no
  read leaves the data, no copy leaves its array, and the parser returns.
\<close>

theorem eir_parse_safe:
  assumes "unat eir_len \<le> length p" "unat eir_len \<le> 251"
  shows "\<exists>eir'. eir_parse g eir (Some p) eir_len = Some eir'"
  using eir_parse_loop_safe [of "unat eir_len" 0 p g] assms by (auto simp: eir_parse_def Let_def)

definition demo_glib :: glib where
  "demo_glib = \<lparr>g_utf8_validate = list_all (\<lambda>c. c < 128), g_strstrip = (\<lambda>s. s), asprintf_mem = True\<rparr>"

definition empty_eir :: eir_data where
  "empty_eir = \<lparr>eir_services = [], eir_flags = 0, eir_name = None, eir_class = 0, eir_appearance = 0, eir_name_complete = False,
     eir_tx_power = 0, eir_hash = None, eir_randomizer = None, eir_addr = [], eir_did_vendor = 0, eir_did_product = 0,
     eir_did_version = 0, eir_did_source = 0, eir_msd_list = [], eir_sd_list = []\<rparr>"

theorem eir_parse_safe_witness:
  "\<exists>eir'. eir_parse demo_glib empty_eir (Some [0x11, 0x03, 0x12, 0xff]) 4 = Some eir'"
  using eir_parse_safe [of 4 "[0x11, 0x03, 0x12, 0xff]"] by simp

section \<open>Structures\<close>

text \<open>A field only depends on its own data.\<close>

lemma uuid16_loop_local: "2 * n \<le> length d \<Longrightarrow> uuid16_loop n g eir (d @ rest) = uuid16_loop n g eir d"
  by (induction n arbitrary: eir d) auto

lemma uuid32_loop_local: "4 * n \<le> length d \<Longrightarrow> uuid32_loop n g eir (d @ rest) = uuid32_loop n g eir d"
  by (induction n arbitrary: eir d) auto

lemma uuid128_loop_local: "16 * n \<le> length d \<Longrightarrow> uuid128_loop n g eir (d @ rest) = uuid128_loop n g eir d"
  by (induction n arbitrary: eir d) (auto split: option.split)

lemma trim_nul_local: "n \<le> length d \<Longrightarrow> trim_nul (d @ rest) n = trim_nul d n"
  by (induction n) (auto simp: nth_append)

lemma name2utf8_local: "n \<le> length d \<Longrightarrow> name2utf8 g (d @ rest) n = name2utf8 g d n"
  by (simp add: name2utf8_def)

lemma parse_sd_local: "n \<le> length d \<Longrightarrow> eir_parse_sd g eir u (d @ rest) n = eir_parse_sd g eir u d n"
  by (simp add: eir_parse_sd_def split: option.split)

lemma parse_data_local:
  assumes "n \<le> length d"
  shows "eir_parse_uuid16_data g eir (d @ rest) n = eir_parse_uuid16_data g eir d n"
    "eir_parse_uuid32_data g eir (d @ rest) n = eir_parse_uuid32_data g eir d n"
    "eir_parse_uuid128_data g eir (d @ rest) n = eir_parse_uuid128_data g eir d n"
    "eir_parse_msd eir (d @ rest) n = eir_parse_msd eir d n"
  using assms by (auto simp: data_parser_defs eir_parse_msd_def parse_sd_local)

lemma parse_uuids_local:
  assumes "n \<le> length d"
  shows "eir_parse_uuid16 g eir (d @ rest) n = eir_parse_uuid16 g eir d n"
    "eir_parse_uuid32 g eir (d @ rest) n = eir_parse_uuid32 g eir d n"
    "eir_parse_uuid128 g eir (d @ rest) n = eir_parse_uuid128 g eir d n"
  using assms unfolding eir_parse_uuid16_def eir_parse_uuid32_def eir_parse_uuid128_def
  by (simp_all add: uuid16_loop_local uuid32_loop_local uuid128_loop_local)

lemma eir_field_local:
  assumes "n \<le> length d"
  shows "eir_field g eir t (d @ rest) n = eir_field g eir t d n"
proof -
  obtain m where m: "m \<le> n" "trim_nul d n = Some m" using trim_nul_safe [OF assms] by auto
  show ?thesis unfolding eir_field_def
    using assms m by (simp add: trim_nul_local name2utf8_local parse_data_local parse_uuids_local)
qed

text \<open>Applied to the structures of a buffer, one after the other.\<close>

primrec apply_fields :: "glib \<Rightarrow> (u8 \<times> bytes) list \<Rightarrow> eir_data \<Rightarrow> eir_data option" where
  "apply_fields g [] eir = Some eir"
| "apply_fields g (x # xs) eir = do {
     eir \<leftarrow> eir_field g eir (fst x) (snd x) (length (snd x));
     apply_fields g xs eir }"

lemma apply_fields_append: "apply_fields g (xs @ ys) eir = do { eir \<leftarrow> apply_fields g xs eir; apply_fields g ys eir }"
  by (induction xs arbitrary: eir) auto

lemma loop_structs:
  assumes "\<forall>x \<in> set xs. length (snd x) < 255" "eir_len = len + length (enc_structs xs)"
  shows "eir_parse_loop g eir (enc_structs xs @ rest) len eir_len = apply_fields g xs eir"
  using assms
proof (induction xs arbitrary: eir len)
  case Nil
  then show ?case by (simp add: eir_parse_loop_stop)
next
  case (Cons x xs)
  let ?n = "length (snd x)"
  have n: "unat (of_nat (1 + ?n) :: u8) = 1 + ?n" using Cons.prems(1) by (intro unat_of_nat_less) simp
  then have nz: "(of_nat (1 + ?n) :: u8) \<noteq> 0" by (metis Suc_eq_plus1_left nat.distinct(1) unat_0)
  have p: "enc_structs (x # xs) @ rest = of_nat (1 + ?n) # fst x # snd x @ enc_structs xs @ rest"
    by (simp add: enc_struct_def)
  have "eir_parse_loop g eir (enc_structs (x # xs) @ rest) len eir_len = do {
      eir \<leftarrow> eir_field g eir (fst x) (snd x @ enc_structs xs @ rest) ?n;
      eir_parse_loop g eir (enc_structs xs @ rest) (len + ?n + 2) eir_len }"
    unfolding p using nz n Cons.prems(2)
    by (subst eir_parse_loop_step) (simp_all add: enc_struct_def del: of_nat_add of_nat_Suc)
  also have "\<dots> = apply_fields g (x # xs) eir"
  proof -
    have "eir_parse_loop g eir' (enc_structs xs @ rest) (len + ?n + 2) eir_len = apply_fields g xs eir'" for eir'
      using Cons.prems by (intro Cons.IH) (simp_all add: enc_struct_def [of x])
    then show ?thesis by (simp add: eir_field_local del: add_2_eq_Suc')
  qed
  finally show ?case .
qed

lemma parse_structs:
  assumes "\<forall>x \<in> set xs. length (snd x) < 255" "length (enc_structs xs) < 256"
  shows "eir_parse g eir (Some (enc_structs xs @ rest)) (of_nat (length (enc_structs xs))) =
    apply_fields g xs (eir\<lparr>eir_flags := 0, eir_tx_power := 127\<rparr>)"
proof -
  have "unat (of_nat (length (enc_structs xs)) :: u8) = length (enc_structs xs)"
    using assms(2) by (intro unat_of_nat_less) simp
  then show ?thesis using loop_structs [OF assms(1), of "length (enc_structs xs)" 0] by (simp add: eir_parse_def Let_def)
qed

lemmas eir_types = EIR_FLAGS_def EIR_UUID16_SOME_def EIR_UUID16_ALL_def EIR_UUID32_SOME_def EIR_UUID32_ALL_def
  EIR_UUID128_SOME_def EIR_UUID128_ALL_def EIR_NAME_SHORT_def EIR_NAME_COMPLETE_def EIR_TX_POWER_def EIR_CLASS_OF_DEV_def
  EIR_SSP_HASH_def EIR_SSP_RANDOMIZER_def EIR_DEVICE_ID_def EIR_SOLICIT16_def EIR_SOLICIT128_def EIR_SVC_DATA16_def
  EIR_GAP_APPEARANCE_def EIR_SOLICIT32_def EIR_SVC_DATA32_def EIR_SVC_DATA128_def EIR_MANUFACTURER_DATA_def

text \<open>
  A name of 250 bytes that is not UTF-8 overruns the buffer it is copied to: the bound of the safety
  theorem is the largest one.
\<close>

lemma eir_parse_name_overflow:
  assumes "length d = 250" "0 \<notin> set d" "\<not> g_utf8_validate g d"
  shows "eir_parse g eir (Some (251 # EIR_NAME_COMPLETE # d)) 252 = None"
proof -
  have "takeWhile (\<lambda>c. c \<noteq> 0) d = d" using assms(2) by (auto simp: takeWhile_eq_all_conv)
  note tw = this
  have n: "name2utf8 g d 250 = None" using assms by (simp add: name2utf8_def HCI_MAX_NAME_LENGTH_def tw Let_def)
  have t: "trim_nul d 250 = Some 250" using trim_nul_full [OF assms(2)] assms(1) by simp
  have "eir_parse g eir (Some (enc_structs [(EIR_NAME_COMPLETE, d)] @ [])) (of_nat (length (enc_structs [(EIR_NAME_COMPLETE, d)]))) =
      apply_fields g [(EIR_NAME_COMPLETE, d)] (eir\<lparr>eir_flags := 0, eir_tx_power := 127\<rparr>)"
    using assms(1) by (intro parse_structs) (simp_all add: enc_struct_def)
  then show ?thesis using assms(1) n t by (simp add: enc_struct_def eir_field_def eir_types)
qed

section \<open>What an advertisement says\<close>

definition uuid_string :: "bt_uuid_t \<Rightarrow> string" where
  "uuid_string u = snd (bt_uuid_to_string (Some u) 37)"

definition add_services :: "eir_data \<Rightarrow> bt_uuid_t list \<Rightarrow> eir_data" where
  "add_services eir us = eir\<lparr>eir_services := eir_services eir @ map uuid_string us\<rparr>"

lemma uuid_string_helper:
  assumes "uuid_ok u"
  shows "bt_uuid2string True (Some (sdp_of u)) = Some (uuid_string u)"
proof -
  have "bt_uuid_to_string (Some u) 37 = (0, take 36 (the (bt_uuid2string True (Some (sdp_of u)))))"
    using assms by (auto simp: bt_uuid_to_string_def uuid_to_128_bytes uuid_str_def uuid2string_bytes Let_def)
  then show ?thesis using uuid2string_bytes [OF assms] by (simp add: uuid_string_def Let_def)
qed

lemma uuid16_loop_services:
  assumes "asprintf_mem g" "\<forall>u \<in> set us. is_type u 16"
  shows "uuid16_loop (length us) g eir (concat (map uuid_le us)) = Some (add_services eir us)"
  using assms(2)
proof (induction us arbitrary: eir)
  case (Cons u us)
  then obtain v where "u = BT_UUID16 v" by (cases u) (auto simp: is_type_def)
  then show ?case using Cons uuid_string_helper [of u] assms(1)
    by (simp add: uuid_le_def bt_uuid_to_le_def add_service_def add_services_def sdp_of_def)
qed (simp add: add_services_def)

lemma uuid32_loop_services:
  assumes "asprintf_mem g" "\<forall>u \<in> set us. is_type u 32"
  shows "uuid32_loop (length us) g eir (concat (map uuid_le us)) = Some (add_services eir us)"
  using assms(2)
proof (induction us arbitrary: eir)
  case (Cons u us)
  then obtain v where "u = BT_UUID32 v" by (cases u) (auto simp: is_type_def)
  then show ?case using Cons uuid_string_helper [of u] assms(1)
    by (simp add: uuid_le_def add_service_def add_services_def sdp_of_def)
qed (simp add: add_services_def)

lemma uuid128_loop_services:
  assumes "asprintf_mem g" "\<forall>u \<in> set us. is_type u 128 \<and> uuid_ok u"
  shows "uuid128_loop (length us) g eir (concat (map uuid_le us)) = Some (add_services eir us)"
  using assms(2)
proof (induction us arbitrary: eir)
  case (Cons u us)
  then obtain b where "u = BT_UUID128 b" "length b = 16" by (cases u) (auto simp: is_type_def)
  then show ?case using Cons uuid_string_helper [of u] assms(1)
    by (simp add: uuid_le_def bt_uuid_to_le_def add_services_def sdp_of_def)
qed (simp add: add_services_def)

lemma length_uuids_le:
  assumes "list_all uuid_ok us" "\<forall>u \<in> set us. bt_uuid_len u = k"
  shows "length (concat (map uuid_le us)) = k * length us"
  using assms by (induction us) (auto simp: uuid_le_len)

text \<open>The structures the advertiser writes, one kind at a time.\<close>

lemma fields_service_uuids:
  assumes "asprintf_mem g" "list_all uuid_ok us"
  shows "apply_fields g (uuids_struct 16 EIR_UUID16_ALL us) eir = Some (add_services eir (filter (\<lambda>u. is_type u 16) us))"
    "apply_fields g (uuids_struct 32 EIR_UUID32_ALL us) eir = Some (add_services eir (filter (\<lambda>u. is_type u 32) us))"
    "apply_fields g (uuids_struct 128 EIR_UUID128_ALL us) eir = Some (add_services eir (filter (\<lambda>u. is_type u 128) us))"
proof -
  have nil: "add_services eir [] = eir" by (simp add: add_services_def)
  have f: "list_all uuid_ok (filter p us)" for p using assms(2) by (auto simp: list_all_iff)
  have "\<forall>u \<in> set (filter (\<lambda>u. is_type u b) us). bt_uuid_len u = b div 8" for b
    using assms(2) by (auto simp: list_all_iff is_type_def bt_uuid_len_def split: bt_uuid_t.splits)
  note len = length_uuids_le [OF f this]
  show "apply_fields g (uuids_struct 16 EIR_UUID16_ALL us) eir = Some (add_services eir (filter (\<lambda>u. is_type u 16) us))"
    using uuid16_loop_services [OF assms(1), of "filter (\<lambda>u. is_type u 16) us" eir] len [of 16] nil
    by (simp add: uuids_struct_def Let_def eir_field_def eir_parse_uuid16_def)
  show "apply_fields g (uuids_struct 32 EIR_UUID32_ALL us) eir = Some (add_services eir (filter (\<lambda>u. is_type u 32) us))"
    using uuid32_loop_services [OF assms(1), of "filter (\<lambda>u. is_type u 32) us" eir] len [of 32] nil
    by (simp add: uuids_struct_def Let_def eir_field_def eir_parse_uuid32_def eir_types)
  show "apply_fields g (uuids_struct 128 EIR_UUID128_ALL us) eir = Some (add_services eir (filter (\<lambda>u. is_type u 128) us))"
    using uuid128_loop_services [OF assms(1), of "filter (\<lambda>u. is_type u 128) us" eir] len [of 128] nil f
    by (simp add: uuids_struct_def Let_def eir_field_def eir_parse_uuid128_def eir_types list_all_iff)
qed

lemma field_solicit:
  "eir_field g eir EIR_SOLICIT16 p n = Some eir" "eir_field g eir EIR_SOLICIT32 p n = Some eir"
  "eir_field g eir EIR_SOLICIT128 p n = Some eir"
  by (simp_all add: eir_field_def eir_types)

lemma fields_solicit:
  "apply_fields g (uuids_struct b EIR_SOLICIT16 us) eir = Some eir" "apply_fields g (uuids_struct b EIR_SOLICIT32 us) eir = Some eir"
  "apply_fields g (uuids_struct b EIR_SOLICIT128 us) eir = Some eir"
  by (simp_all add: uuids_struct_def Let_def field_solicit)

definition add_msds :: "eir_data \<Rightarrow> bt_ad_manufacturer_data list \<Rightarrow> eir_data" where
  "add_msds eir ds = eir\<lparr>eir_msd_list := eir_msd_list eir @
     map (\<lambda>d. \<lparr>msd_company = md_manufacturer_id d, msd_data = md_data d\<rparr>) ds\<rparr>"

lemma field_manuf:
  assumes "length (md_data d) \<le> 236"
  shows "eir_field g eir (fst (manuf_struct d)) (snd (manuf_struct d)) (length (snd (manuf_struct d))) = Some (add_msds eir [d])"
proof -
  have "eir_field g eir EIR_MANUFACTURER_DATA p n = eir_parse_msd eir p n" for p n
    by (simp add: eir_field_def eir_types)
  then show ?thesis using assms
    by (simp add: add_msds_def manuf_struct_def eir_parse_msd_def EIR_MSD_MAX_LEN_def copy_max_def)
qed

lemma fields_manuf:
  "\<forall>d \<in> set ds. length (md_data d) \<le> 236 \<Longrightarrow> apply_fields g (map manuf_struct ds) eir = Some (add_msds eir ds)"
proof (induction ds arbitrary: eir)
  case (Cons d ds)
  have "add_msds (add_msds eir [d]) ds = add_msds eir (d # ds)" by (simp add: add_msds_def)
  then show ?case using Cons field_manuf [of d g eir] by simp
qed (simp add: add_msds_def)

definition add_sds :: "eir_data \<Rightarrow> bt_ad_service_data list \<Rightarrow> eir_data" where
  "add_sds eir ds = eir\<lparr>eir_sd_list := eir_sd_list eir @
     map (\<lambda>d. \<lparr>eir_sd_uuid = uuid_string (sd_uuid d), eir_sd_data = sd_data d\<rparr>) ds\<rparr>"

lemma field_service_data:
  assumes "asprintf_mem g" "uuid_ok (sd_uuid d)" "length (sd_data d) \<le> 222"
  shows "eir_field g eir (fst (service_data_struct d)) (snd (service_data_struct d)) (length (snd (service_data_struct d))) =
    Some (add_sds eir [d])"
proof -
  have sd: "eir_parse_sd g eir (sdp_of (sd_uuid d)) (sd_data d) (length (sd_data d)) = Some (add_sds eir [d])"
    using assms uuid_string_helper [OF assms(2)]
    by (simp add: eir_parse_sd_def copy_max_def EIR_SD_MAX_LEN_def add_sds_def)
  show ?thesis
  proof (cases "sd_uuid d")
    case (BT_UUID16 v)
    then show ?thesis using sd assms(3) unfolding service_data_struct_def eir_field_def
      by (simp add: uuid_le_def bt_uuid_to_le_def eir_types eir_parse_uuid16_data_def EIR_SD_MAX_LEN_def sdp_of_def)
  next
    case (BT_UUID32 v)
    then show ?thesis using sd assms(3) unfolding service_data_struct_def eir_field_def
      by (simp add: uuid_le_def eir_types eir_parse_uuid32_data_def EIR_SD_MAX_LEN_def sdp_of_def)
  next
    case (BT_UUID128 b)
    then show ?thesis using sd assms(2, 3) unfolding service_data_struct_def eir_field_def
      by (simp add: uuid_le_def bt_uuid_to_le_def eir_types eir_parse_uuid128_data_def EIR_SD_MAX_LEN_def sdp_of_def)
  qed (use assms(2) in simp)
qed

lemma fields_service_data:
  assumes "asprintf_mem g" "list_all (\<lambda>d. uuid_ok (sd_uuid d)) ds" "\<forall>d \<in> set ds. length (sd_data d) \<le> 222"
  shows "apply_fields g (map service_data_struct ds) eir = Some (add_sds eir ds)"
  using assms(2, 3)
proof (induction ds arbitrary: eir)
  case (Cons d ds)
  have "add_sds (add_sds eir [d]) ds = add_sds eir (d # ds)" by (simp add: add_sds_def)
  then show ?case using Cons field_service_data [OF assms(1), of d eir] by simp
qed (simp add: add_sds_def)

text \<open>The name a parser shows for the bytes of a name.\<close>

definition shown_name :: "glib \<Rightarrow> bytes \<Rightarrow> bytes" where
  "shown_name g s = (if g_utf8_validate g s then s else g_strstrip g (map (\<lambda>c. if c < 128 then c else 0x20) s))"

lemma field_name:
  assumes "0 \<notin> set s" "length s \<le> 249" "t = EIR_NAME_SHORT \<or> t = EIR_NAME_COMPLETE"
  shows "eir_field g eir t s (length s) = Some (eir\<lparr>eir_name := Some (shown_name g s), eir_name_complete := (t = EIR_NAME_COMPLETE)\<rparr>)"
proof -
  have tw: "takeWhile (\<lambda>c. c \<noteq> 0) s = s" using assms(1) by (auto simp: takeWhile_eq_all_conv)
  show ?thesis using assms(2, 3) trim_nul_full [OF assms(1)]
    by (auto simp: eir_field_def eir_types name2utf8_def shown_name_def tw Let_def HCI_MAX_NAME_LENGTH_def)
qed

lemma field_appearance: "eir_field g eir EIR_GAP_APPEARANCE (put_le16 v) 2 = Some (eir\<lparr>eir_appearance := v\<rparr>)"
  by (simp add: eir_field_def eir_types)

definition add_name :: "glib \<Rightarrow> eir_data \<Rightarrow> bytes option \<Rightarrow> nat \<Rightarrow> eir_data" where
  "add_name g eir name room =
     (case name of None \<Rightarrow> eir
      | Some s \<Rightarrow> eir\<lparr>eir_name := Some (shown_name g (take room s)), eir_name_complete := (length s \<le> room)\<rparr>)"

definition add_appearance :: "eir_data \<Rightarrow> u16 \<Rightarrow> eir_data" where
  "add_appearance eir v = (if v = UINT16_MAX then eir else eir\<lparr>eir_appearance := v\<rparr>)"

lemma fields_name:
  assumes "\<forall>s. name = Some s \<longrightarrow> 0 \<notin> set s"
  shows "apply_fields g (name_struct name pos) eir = Some (add_name g eir name (29 - pos))"
proof (cases name)
  case (Some s)
  have "EIR_NAME_SHORT \<noteq> EIR_NAME_COMPLETE" by (simp add: eir_types)
  moreover have "0 \<notin> set (take n s)" for n using assms Some by (auto dest: in_set_takeD)
  ultimately show ?thesis
    using Some field_name [of "take (29 - pos) s" EIR_NAME_SHORT g eir] field_name [of s EIR_NAME_COMPLETE g eir] assms
    by (auto simp: name_struct_def add_name_def)
qed (simp add: name_struct_def add_name_def)

lemma fields_appearance: "apply_fields g (appearance_struct v) eir = Some (add_appearance eir v)"
  by (simp add: appearance_struct_def add_appearance_def field_appearance)

text \<open>What a scanner knows after it has received an advertisement.\<close>

definition by_size :: "bt_uuid_t list \<Rightarrow> bt_uuid_t list" where
  "by_size us = filter (\<lambda>u. is_type u 16) us @ filter (\<lambda>u. is_type u 32) us @ filter (\<lambda>u. is_type u 128) us"

lemma structs_small:
  assumes "x \<in> set xs"
  shows "length (snd x) + 2 \<le> length (enc_structs xs)"
proof -
  have "length (enc_struct x) \<le> length (enc_structs xs)" using assms by (induction xs) auto
  then show ?thesis by (simp add: enc_struct_def)
qed

lemma fields_all:
  assumes "asprintf_mem g" "uuids_typed a" "length (enc_structs (all_structs a)) \<le> 31" "\<forall>s. ad_name a = Some s \<longrightarrow> 0 \<notin> set s"
  shows "apply_fields g (all_structs a) eir =
    Some (add_appearance (add_name g (add_sds (add_msds (add_services eir (by_size (ad_service_uuids a))) (ad_manufacturer_data a))
      (ad_service_data a)) (ad_name a) (29 - base_length a)) (ad_appearance a))"
proof -
  have "\<forall>x \<in> set (all_structs a). length (snd x) \<le> 29" using structs_small assms(3) by fastforce
  then have small: "\<forall>d \<in> set (ad_manufacturer_data a). length (md_data d) \<le> 236" "\<forall>d \<in> set (ad_service_data a). length (sd_data d) \<le> 222"
    by (auto simp: all_structs_def base_structs_def ball_Un manuf_struct_def service_data_struct_def)
  have s: "add_services (add_services (add_services eir us) vs) ws = add_services eir (us @ vs @ ws)" for us vs ws
    by (simp add: add_services_def)
  show ?thesis using assms(2)
    by (simp add: all_structs_def base_structs_def apply_fields_append uuids_typed_def fields_service_uuids [OF assms(1)] fields_solicit
        fields_manuf [OF small(1)] fields_service_data [OF assms(1) _ small(2)] fields_name [OF assms(4)] fields_appearance s by_size_def)
qed

text \<open>
  C5: what a peripheral advertises is what a scanner learns.  Whenever \<open>bt_ad_generate\<close> produces data,
  \<open>eir_parse\<close> accepts them and finds the service UUIDs, grouped by size, as strings, the manufacturer data, the
  service data, the name or what fits of it, with the flag that tells the two apart, and the
  appearance of the object.
\<close>

theorem advertise_scan:
  assumes "ad_ok a" "bt_ad_generate True (Some a) = Some (Some data)" "asprintf_mem g" "\<forall>s. ad_name a = Some s \<longrightarrow> 0 \<notin> set s"
  shows "\<exists>eir'. eir_parse g empty_eir (Some data) (of_nat (length data)) = Some eir' \<and>
    eir_services eir' = map uuid_string (by_size (ad_service_uuids a)) \<and>
    eir_msd_list eir' = map (\<lambda>d. \<lparr>msd_company = md_manufacturer_id d, msd_data = md_data d\<rparr>) (ad_manufacturer_data a) \<and>
    eir_sd_list eir' = map (\<lambda>d. \<lparr>eir_sd_uuid = uuid_string (sd_uuid d), eir_sd_data = sd_data d\<rparr>) (ad_service_data a) \<and>
    eir_name eir' = map_option (\<lambda>s. shown_name g (take (29 - base_length a) s)) (ad_name a) \<and>
    (\<forall>s. ad_name a = Some s \<longrightarrow> eir_name_complete eir' = (length s \<le> 29 - base_length a)) \<and>
    (ad_appearance a \<noteq> UINT16_MAX \<longrightarrow> eir_appearance eir' = ad_appearance a)"
proof -
  have typed: "uuids_typed a" using assms(1) by (simp add: ad_ok_def)
  have "length (enc_structs (all_structs a)) \<le> 31"
    using assms(2) calculate_length_eq(1) [OF assms(1)] by (auto simp: bt_ad_generate_def MAX_ADV_DATA_LEN_def split: if_splits)
  note len = this
  then have data: "data = enc_structs (all_structs a)" using generate_emits [OF assms(1)] assms(2) by simp
  have "\<forall>x \<in> set (all_structs a). length (snd x) < 255" using structs_small len by fastforce
  then have "eir_parse g empty_eir (Some data) (of_nat (length data)) =
      apply_fields g (all_structs a) (empty_eir\<lparr>eir_flags := 0, eir_tx_power := 127\<rparr>)"
    using parse_structs [of "all_structs a" g empty_eir "[]"] len unfolding data by simp
  then show ?thesis unfolding fields_all [OF assms(3) typed len assms(4)]
    by (auto simp: add_appearance_def add_name_def add_sds_def add_msds_def add_services_def empty_eir_def split: option.split)
qed

lemma demo_scan: "by_size (ad_service_uuids demo_ad) = [BT_UUID16 0x180d, BT_UUID16 0x180f, BT_UUID32 0x12345678]"
  by code_simp

lemma demo_shown: "map_option (\<lambda>s. shown_name demo_glib (take 11 s)) (ad_name demo_ad) = Some (replicate 11 0x61)"
  by code_simp

theorem advertise_scan_witness:
  "\<exists>data eir'. bt_ad_generate True (Some demo_ad) = Some (Some data) \<and>
     eir_parse demo_glib empty_eir (Some data) (of_nat (length data)) = Some eir' \<and>
     eir_services eir' = map uuid_string [BT_UUID16 0x180d, BT_UUID16 0x180f, BT_UUID32 0x12345678] \<and>
     eir_msd_list eir' = [\<lparr>msd_company = 0x05f1, msd_data = [1, 2]\<rparr>] \<and>
     eir_name eir' = Some (replicate 11 0x61) \<and> \<not> eir_name_complete eir'"
proof -
  have ok: "ad_ok demo_ad" by code_simp
  have len: "length (enc_structs (all_structs demo_ad)) \<le> 31" by code_simp
  have nul: "\<forall>s. ad_name demo_ad = Some s \<longrightarrow> 0 \<notin> set s" by (simp add: demo_ad_def)
  have mem: "asprintf_mem demo_glib" by (simp add: demo_glib_def)
  have b: "29 - base_length demo_ad = 11" by code_simp
  have x: "ad_name demo_ad = Some (replicate 20 0x61)" "ad_manufacturer_data demo_ad = [\<lparr>md_manufacturer_id = 0x05f1, md_data = [1, 2]\<rparr>]"
    by (simp_all add: demo_ad_def)
  note gen = generate_emits [OF ok len]
  obtain eir' where e: "eir_parse demo_glib empty_eir (Some (enc_structs (all_structs demo_ad)))
      (of_nat (length (enc_structs (all_structs demo_ad)))) = Some eir'"
    "eir_services eir' = map uuid_string (by_size (ad_service_uuids demo_ad))"
    "eir_msd_list eir' = map (\<lambda>d. \<lparr>msd_company = md_manufacturer_id d, msd_data = md_data d\<rparr>) (ad_manufacturer_data demo_ad)"
    "eir_name eir' = map_option (\<lambda>s. shown_name demo_glib (take 11 s)) (ad_name demo_ad)"
    "\<forall>s. ad_name demo_ad = Some s \<longrightarrow> eir_name_complete eir' = (length s \<le> 11)"
    using advertise_scan [OF ok gen mem nul] unfolding b by blast
  have c: "\<not> eir_name_complete eir'" using e(5) x(1) by simp
  have m: "eir_msd_list eir' = [\<lparr>msd_company = 0x05f1, msd_data = [1, 2]\<rparr>]" unfolding e(3) x(2) by simp
  show ?thesis using gen e(1) e(2) [unfolded demo_scan] m e(4) [unfolded demo_shown] c by blast
qed

end
