(* ===== verification/Eir_Oob.thy ===== *)
theory Eir_Oob
  imports Eir_Props
begin

text \<open>
  Out-of-band data: what \<open>eir_create_oob\<close> stores, that it stays within 248 bytes, and that
  \<open>eir_parse_oob\<close> reads it back.
\<close>

section \<open>The selection of UUIDs\<close>

text \<open>The 128-bit UUIDs the loop takes, without the buffer; they are kept as the bytes that are sent.\<close>

primrec uuid128_sel :: "uuid_t list \<Rightarrow> bytes list \<Rightarrow> nat \<Rightarrow> bytes list \<times> nat \<times> bool" where
  "uuid128_sel [] acc len = (acc, len, False)"
| "uuid128_sel (u # us) acc len =
     (case u of
        SDP_UUID128 d \<Rightarrow>
          if len + 18 > 240 then (acc, len, True)
          else if bswap_128 d \<in> set acc then uuid128_sel us acc len
          else uuid128_sel us (acc @ [bswap_128 d]) (len + 16)
      | _ \<Rightarrow> uuid128_sel us acc len)"

lemma length_concat16: "\<forall>x \<in> set acc. length x = 16 \<Longrightarrow> length (concat acc) = 16 * length acc"
  by (induction acc) auto

lemma nth_concat16:
  "\<forall>x \<in> set acc. length x = 16 \<Longrightarrow> i < length acc \<Longrightarrow> take 16 (drop (i * 16) (concat acc)) = acc ! i"
proof (induction acc arbitrary: i)
  case (Cons x acc)
  then show ?case by (cases i) auto
qed simp

lemma dup_check:
  assumes "\<forall>x \<in> set acc. length x = 16" "p + 16 * length acc \<le> length buf"
  shows "list_ex (\<lambda>i. take 16 (drop (p + i * 16) (overlay buf p (concat acc))) = x) [0..<length acc] \<longleftrightarrow> x \<in> set acc"
proof -
  have len: "length (concat acc) = 16 * length acc" by (rule length_concat16 [OF assms(1)])
  have "take 16 (drop (p + i * 16) (overlay buf p (concat acc))) = acc ! i" if "i < length acc" for i
  proof -
    have "drop (p + i * 16) (overlay buf p (concat acc)) = drop (i * 16) (concat acc) @ drop (p + 16 * length acc) buf"
      using assms(2) that by (simp add: overlay_def len)
    moreover have "16 \<le> length (drop (i * 16) (concat acc))" using that by (simp add: len)
    ultimately show ?thesis using nth_concat16 [OF assms(1) that] by simp
  qed
  then show ?thesis by (auto simp: list_ex_iff in_set_conv_nth)
qed

lemma gen_loop_sel:
  assumes "\<forall>x \<in> set acc. length x = 16" "p + 16 * length acc + (238 - len) \<le> length buf"
  shows "uuid128_gen_loop us (overlay buf p (concat acc)) p (length acc) len =
    (case uuid128_sel us acc len of (acc', len', tr) \<Rightarrow> Some (overlay buf p (concat acc'), length acc', len', tr))"
  using assms
proof (induction us arbitrary: acc len)
  case (Cons u us)
  note dup = dup_check [OF Cons.prems(1), of p buf]
  have "buf_write (overlay buf p (concat acc)) (p + length acc * 16) d = Some (overlay buf p (concat (acc @ [d])))"
    if "length d = 16" "len + 18 \<le> 240" for d
    using that Cons.prems length_concat16 [OF Cons.prems(1)]
    by (simp add: write_overlay overlay_overlay)
  note w = this
  show ?case
  proof (cases u)
    case (SDP_UUID128 d)
    have IH: "uuid128_gen_loop us (overlay buf p (concat (acc @ [bswap_128 d]))) p (length (acc @ [bswap_128 d])) (len + 16) =
        (case uuid128_sel us (acc @ [bswap_128 d]) (len + 16) of (acc', len', tr) \<Rightarrow> Some (overlay buf p (concat acc'), length acc', len', tr))"
      if "len + 18 \<le> 240"
      using Cons.prems that by (intro Cons.IH) auto
    show ?thesis using SDP_UUID128 Cons.prems Cons.IH [OF Cons.prems] dup [of "bswap_128 d"] w [of "bswap_128 d"] IH
      by (simp add: SIZEOF_UUID128_def HCI_MAX_EIR_LENGTH_def)
  qed (use Cons.IH [OF Cons.prems] in simp_all)
qed simp

lemma sel128_bounds:
  "uuid128_sel us acc len = (acc', len', tr) \<Longrightarrow> \<forall>x \<in> set acc. length x = 16 \<Longrightarrow>
   (\<forall>x \<in> set acc'. length x = 16) \<and> len' = len + 16 * (length acc' - length acc) \<and> length acc \<le> length acc' \<and>
   (acc' \<noteq> acc \<longrightarrow> len' + 2 \<le> 240)"
proof (induction us arbitrary: acc len)
  case (Cons u us)
  show ?case
  proof (cases u)
    case (SDP_UUID128 d)
    consider "len + 18 > 240" | "len + 18 \<le> 240" "bswap_128 d \<in> set acc" | "len + 18 \<le> 240" "bswap_128 d \<notin> set acc" by linarith
    then show ?thesis
    proof cases
      case 3
      then have "uuid128_sel us (acc @ [bswap_128 d]) (len + 16) = (acc', len', tr)" using Cons.prems(1) SDP_UUID128 by simp
      from Cons.IH [OF this] Cons.prems(2) 3(1) show ?thesis by (cases "acc' = acc @ [bswap_128 d]") auto
    qed (use Cons SDP_UUID128 in auto)
  qed (use Cons in auto)
qed auto

lemma group16_bounds:
  "uuid16_group us acc len = (acc', len', tr) \<Longrightarrow>
   len' = len + 2 * (length acc' - length acc) \<and> length acc \<le> length acc' \<and> (acc' \<noteq> acc \<longrightarrow> len' + 2 \<le> 240)"
proof (induction us arbitrary: acc len)
  case (Cons u us)
  show ?case
  proof (cases u)
    case (SDP_UUID16 v)
    show ?thesis
    proof (cases "v < 0x1100 \<or> v = PNP_INFO_SVCLASS_ID \<or> len + 4 > 240 \<or> v \<in> set acc")
      case False
      then have "uuid16_group us (acc @ [v]) (len + 2) = (acc', len', tr)"
        using Cons.prems SDP_UUID16 by (auto simp: HCI_MAX_EIR_LENGTH_def)
      from Cons.IH [OF this] False show ?thesis by (cases "acc' = acc @ [v]") auto
    qed (use Cons SDP_UUID16 in \<open>auto simp: HCI_MAX_EIR_LENGTH_def split: if_splits\<close>)
  qed (use Cons in auto)
qed auto

section \<open>The bytes that are stored\<close>

definition oob_uuid128 :: "nat \<Rightarrow> uuid_t list \<Rightarrow> (u8 \<times> bytes) list" where
  "oob_uuid128 len us =
     (case uuid128_sel us [] len of (acc, len', tr) \<Rightarrow>
        if len \<le> 238 \<and> (acc \<noteq> [] \<or> tr) then [(if tr then EIR_UUID128_SOME else EIR_UUID128_ALL, concat acc)] else [])"

definition oob_uuid16 :: "nat \<Rightarrow> uuid_t list \<Rightarrow> (u8 \<times> bytes) list" where
  "oob_uuid16 len us =
     (case uuid16_group us [] len of (acc, len', tr) \<Rightarrow>
        if acc \<noteq> [] then [(if tr then EIR_UUID16_SOME else EIR_UUID16_ALL, concat (map put_le16 acc))] else [])"

definition oob_head :: "bytes \<Rightarrow> u32 \<Rightarrow> bytes option \<Rightarrow> bytes option \<Rightarrow> u16 \<Rightarrow> u16 \<Rightarrow> u16 \<Rightarrow> u16 \<Rightarrow> (u8 \<times> bytes) list" where
  "oob_head name cod hash randomizer did_vendor did_product did_version did_source =
     (if cod > 0 then [(EIR_CLASS_OF_DEV, [ucast cod, ucast (drop_bit 8 cod), ucast (drop_bit 16 cod)])] else []) @
     (case hash of None \<Rightarrow> [] | Some h \<Rightarrow> [(EIR_SSP_HASH, h)]) @
     (case randomizer of None \<Rightarrow> [] | Some r \<Rightarrow> [(EIR_SSP_RANDOMIZER, r)]) @
     (if name \<noteq> [] then [(if length name > 48 then EIR_NAME_SHORT else EIR_NAME_COMPLETE, take 48 name)] else []) @
     (if did_vendor \<noteq> 0 then [(EIR_DEVICE_ID, put_le16 did_source @ put_le16 did_vendor @ put_le16 did_product @ put_le16 did_version)] else [])"

definition oob_uuids :: "nat \<Rightarrow> uuid_t list \<Rightarrow> (u8 \<times> bytes) list" where
  "oob_uuids len us = (let u16s = oob_uuid16 len us in u16s @ oob_uuid128 (len + length (enc_structs u16s)) us)"

lemma write_front:
  assumes "p + length h + length a \<le> length buf"
  shows "buf_write (overlay buf (p + length h) a) p h = Some (overlay buf p (h @ a))"
  using assms by (auto simp: buf_write_def overlay_def min_def add.assoc)

lemma generate_uuid128_eq:
  assumes "len \<le> 238" "ptr + (240 - len) \<le> length buf"
  shows "eir_generate_uuid128 us buf ptr len =
    Some (overlay buf ptr (enc_structs (oob_uuid128 len us)), len + length (enc_structs (oob_uuid128 len us)))"
proof -
  obtain acc len' tr where sel: "uuid128_sel us [] len = (acc, len', tr)" by (metis prod_cases3)
  have b: "\<forall>x \<in> set acc. length x = 16" "len' = len + 16 * length acc" "acc \<noteq> [] \<longrightarrow> len' + 2 \<le> 240"
    using sel128_bounds [OF sel] by auto
  note lc = length_concat16 [OF b(1)]
  have "ptr + 2 + length (concat acc) \<le> length buf" using assms b(2, 3) lc by (cases "acc = []") auto
  then have w: "buf_write (overlay buf (Suc (Suc ptr)) (concat acc)) ptr [x, y] = Some (overlay buf ptr (x # y # concat acc))" for x y
    using write_front [of ptr "[x, y]" "concat acc" buf] by simp
  have "uuid128_gen_loop us buf (ptr + 2) 0 len = Some (overlay buf (ptr + 2) (concat acc), length acc, len', tr)"
    using gen_loop_sel [of "[]" "ptr + 2" len buf us] assms sel by simp
  then show ?thesis
    using assms(1) sel b(2) lc by (auto simp: eir_generate_uuid128_def oob_uuid128_def w enc_struct_def SIZEOF_UUID128_def mult.commute)
qed

lemma oob_head_length:
  assumes "\<forall>h. hash = Some h \<longrightarrow> length h = 16" "\<forall>r. randomizer = Some r \<longrightarrow> length r = 16"
  shows "length (enc_structs (oob_head name cod hash randomizer v p ver src)) \<le> 101"
  using assms by (auto simp: oob_head_def enc_struct_def min_def split: option.split)

lemma oob_uuids_length:
  assumes "len \<le> 101"
  shows "len + length (enc_structs (oob_uuids len us)) \<le> 240" "len + length (enc_structs (oob_uuid16 len us)) \<le> 240"
proof -
  have le2: "length (concat (map put_le16 xs)) = 2 * length xs" for xs by (induction xs) auto
  obtain acc len' tr where g: "uuid16_group us [] len = (acc, len', tr)" by (metis prod_cases3)
  show u16: "len + length (enc_structs (oob_uuid16 len us)) \<le> 240"
    using group16_bounds [OF g] g assms by (auto simp: oob_uuid16_def enc_struct_def le2)
  let ?l = "len + length (enc_structs (oob_uuid16 len us))"
  obtain acc2 len2 tr2 where s: "uuid128_sel us [] ?l = (acc2, len2, tr2)" by (metis prod_cases3)
  have "\<forall>x \<in> set acc2. length x = 16" using sel128_bounds [OF s] by simp
  from length_concat16 [OF this] have "?l + length (enc_structs (oob_uuid128 ?l us)) \<le> 240"
    using sel128_bounds [OF s] s u16 by (cases "acc2 = []") (auto simp: oob_uuid128_def enc_struct_def)
  then show "len + length (enc_structs (oob_uuids len us)) \<le> 240" by (simp add: oob_uuids_def Let_def)
qed

text \<open>A part that stores \<open>bs\<close> and adds their length.\<close>

definition emits_len :: "(bytes \<Rightarrow> nat \<Rightarrow> nat \<Rightarrow> (bytes \<times> nat \<times> nat) option) \<Rightarrow> bytes \<Rightarrow> bool" where
  "emits_len f bs \<longleftrightarrow> (\<forall>buf ptr len. ptr + length bs \<le> length buf \<longrightarrow>
     f buf ptr len = Some (overlay buf ptr bs, ptr + length bs, len + length bs))"

lemma emits_len_seq:
  assumes "emits_len f a" "emits_len g b"
  shows "emits_len (\<lambda>buf ptr len. do { (buf, ptr, len) \<leftarrow> f buf ptr len; g buf ptr len }) (a @ b)"
  using assms by (auto simp: emits_len_def overlay_overlay add.assoc [symmetric])

lemma emits_put_if: "emits_len (put_if c bs) (if c then bs else [])"
  by (simp add: emits_len_def put_if_def put_def write_overlay)

lemma emits_oob_fields:
  assumes "\<forall>h. hash = Some h \<longrightarrow> length h = 16" "\<forall>r. randomizer = Some r \<longrightarrow> length r = 16"
  shows "emits_len (oob_fields name cod hash randomizer v p ver src) (enc_structs (oob_head name cod hash randomizer v p ver src))"
proof -
  have "enc_structs (oob_head name cod hash randomizer v p ver src) =
    (if cod > 0 then [4, EIR_CLASS_OF_DEV, ucast cod, ucast (drop_bit 8 cod), ucast (drop_bit 16 cod)] else []) @
    (if hash \<noteq> None then 17 # EIR_SSP_HASH # the hash else []) @
    (if randomizer \<noteq> None then 17 # EIR_SSP_RANDOMIZER # the randomizer else []) @
    (if length name > 0 then let (n, type) = (if length name > 48 then (48, EIR_NAME_SHORT) else (length name, EIR_NAME_COMPLETE))
        in of_nat (n + 1) # type # take n name else []) @
    (if v \<noteq> 0 then [9, EIR_DEVICE_ID] @ put_le16 src @ put_le16 v @ put_le16 p @ put_le16 ver else [])"
    using assms by (cases hash; cases randomizer) (simp_all add: oob_head_def enc_struct_def add.commute)
  then show ?thesis unfolding oob_fields_def [abs_def]
    by (simp only:) (intro emits_len_seq emits_put_if)
qed

lemma put_uuid16_eq:
  assumes "ptr + length (enc_structs (oob_uuid16 len us)) \<le> length buf"
  shows "oob_put_uuid16 us buf ptr len = Some (overlay buf ptr (enc_structs (oob_uuid16 len us)),
    ptr + length (enc_structs (oob_uuid16 len us)), len + length (enc_structs (oob_uuid16 len us)))"
proof -
  obtain acc len' tr where g: "uuid16_group us [] len = (acc, len', tr)" by (metis prod_cases3)
  have le2: "length (concat (map put_le16 acc)) = 2 * length acc" by (induction acc) auto
  have "len' = len + 2 * length acc" using group16_bounds [OF g] by simp
  then show ?thesis using assms g le2
    by (cases "acc = []")
      (simp_all add: oob_put_uuid16_def oob_uuid16_def put_def write_overlay overlay_overlay enc_struct_def mult.commute)
qed

lemma create_oob_bytes:
  assumes "length addr = 6" "\<forall>h. hash = Some h \<longrightarrow> length h = 16" "\<forall>r. randomizer = Some r \<longrightarrow> length r = 16" "248 \<le> length buf"
    and hs: "hs = oob_head name cod hash randomizer did_vendor did_product did_version did_source"
    and e: "e = enc_structs (hs @ oob_uuids (length (enc_structs hs)) us)"
  shows "eir_create_oob addr name cod hash randomizer did_vendor did_product did_version did_source us buf =
    Some (8 + length e, overlay buf 0 (put_le16 (of_nat (8 + length e)) @ addr @ e))"
proof -
  let ?h = "enc_structs hs"
  let ?u = "enc_structs (oob_uuid16 (length ?h) us)"
  let ?l = "length ?h + length ?u"
  let ?w = "enc_structs (oob_uuid128 ?l us)"
  have hl: "length ?h \<le> 101" unfolding hs by (rule oob_head_length [OF assms(2, 3)])
  have e': "e = ?h @ ?u @ ?w" unfolding e by (simp add: oob_uuids_def Let_def)
  have room: "length e \<le> 240" "?l \<le> 240"
    using oob_uuids_length [OF hl, of us] unfolding e by (simp_all add: oob_uuids_def)
  have 1: "put addr buf 2 = Some (overlay buf 2 addr, 8)"
    using assms(1, 4) emitsD [OF emits_put, of 2 addr buf] by simp
  have 2: "oob_fields name cod hash randomizer did_vendor did_product did_version did_source (overlay buf 2 addr) 8 0 =
      Some (overlay buf 2 (addr @ ?h), 8 + length ?h, length ?h)"
    using emits_oob_fields [OF assms(2, 3), of name cod did_vendor did_product did_version did_source] assms(1, 4) hl
    unfolding hs by (simp add: emits_len_def overlay_overlay)
  have 3: "oob_put_uuid16 us (overlay buf 2 (addr @ ?h)) (8 + length ?h) (length ?h) =
      Some (overlay buf 2 (addr @ ?h @ ?u), 8 + ?l, ?l)"
    using put_uuid16_eq [of "8 + length ?h" "length ?h" us "overlay buf 2 (addr @ ?h)"] assms(1, 4) room
    by (simp add: overlay_overlay)
  have 4: "(if ?l \<le> HCI_MAX_EIR_LENGTH - 2 then eir_generate_uuid128 us (overlay buf 2 (addr @ ?h @ ?u)) (8 + ?l) ?l
      else Some (overlay buf 2 (addr @ ?h @ ?u), ?l)) = Some (overlay buf 2 (addr @ e), length e)"
  proof (cases "?l \<le> 238")
    case True
    then show ?thesis using generate_uuid128_eq [OF True, of "8 + ?l" "overlay buf 2 (addr @ ?h @ ?u)" us] assms(1, 4) room
      by (simp add: HCI_MAX_EIR_LENGTH_def overlay_overlay e')
  next
    case False
    then have "oob_uuid128 ?l us = []" by (simp add: oob_uuid128_def split: prod.split)
    then show ?thesis using False by (simp add: HCI_MAX_EIR_LENGTH_def e')
  qed
  have 5: "buf_write (overlay buf 2 (addr @ e)) 0 (put_le16 x) = Some (overlay buf 0 (put_le16 x @ addr @ e))" for x
    using write_front [of 0 "put_le16 x" "addr @ e" buf] assms(1, 4) room by (simp add: numeral_2_eq_2)
  show ?thesis unfolding eir_create_oob_def Let_def by (simp only: 1 2 3 4 5 bind.bind_lunit prod.case) simp
qed

section \<open>Reading the data back\<close>

lemma class_bits:
  "ucast (ucast cod :: u8) OR push_bit 8 (ucast (ucast (drop_bit 8 cod) :: u8)) OR push_bit 16 (ucast (ucast (drop_bit 16 cod) :: u8)) =
   (take_bit 24 cod :: u32)" (is "?l = ?r")
proof (rule bit_word_eqI)
  fix n assume "n < LENGTH(32)"
  then consider "n < 8" | "8 \<le> n" "n < 16" | "16 \<le> n" "n < 24" | "24 \<le> n" "n < 32" by force
  then show "bit ?l n \<longleftrightarrow> bit ?r n"
    by cases (auto simp: bit_simps)
qed

lemma field_class:
  "eir_field g eir EIR_CLASS_OF_DEV [ucast cod, ucast (drop_bit 8 cod), ucast (drop_bit 16 cod)] 3 = Some (eir\<lparr>eir_class := take_bit 24 cod\<rparr>)"
  by (simp add: eir_field_def eir_types class_bits)

lemma field_ssp:
  "length h = 16 \<Longrightarrow> eir_field g eir EIR_SSP_HASH h 16 = Some (eir\<lparr>eir_hash := Some h\<rparr>)"
  "length h = 16 \<Longrightarrow> eir_field g eir EIR_SSP_RANDOMIZER h 16 = Some (eir\<lparr>eir_randomizer := Some h\<rparr>)"
  by (simp_all add: eir_field_def eir_types)

lemma le16_bytes: "ucast (ucast v :: u8) OR push_bit 8 (ucast (ucast (drop_bit 8 v) :: u8)) = (v :: u16)"
  using get_put_le16_Nil [of v] by (simp add: put_le16_def)

lemma field_device_id:
  "eir_field g eir EIR_DEVICE_ID (put_le16 src @ put_le16 v @ put_le16 p @ put_le16 ver) 8 =
   Some (eir\<lparr>eir_did_source := src, eir_did_vendor := v, eir_did_product := p, eir_did_version := ver\<rparr>)"
  by (simp add: eir_field_def eir_types put_le16_def le16_bytes)

lemma field_uuid16s:
  assumes "asprintf_mem g" "t = EIR_UUID16_SOME \<or> t = EIR_UUID16_ALL"
  shows "eir_field g eir t (concat (map put_le16 vs)) (length (concat (map put_le16 vs))) = Some (add_services eir (map BT_UUID16 vs))"
proof -
  have le2: "length (concat (map put_le16 vs)) = 2 * length vs" by (induction vs) auto
  have eq: "map uuid_le (map BT_UUID16 vs) = map put_le16 vs" by (simp add: uuid_le_def bt_uuid_to_le_def)
  have "uuid16_loop (length vs) g eir (concat (map put_le16 vs)) = Some (add_services eir (map BT_UUID16 vs))"
    using uuid16_loop_services [OF assms(1), of "map BT_UUID16 vs" eir] unfolding eq by (simp add: is_type_def)
  then show ?thesis using assms(2) le2 by (simp add: eir_field_def eir_parse_uuid16_def)
qed

lemma field_uuid128s:
  assumes "asprintf_mem g" "t = EIR_UUID128_SOME \<or> t = EIR_UUID128_ALL" "\<forall>x \<in> set xs. length x = 16"
  shows "eir_field g eir t (concat xs) (length (concat xs)) = Some (add_services eir (map (\<lambda>x. BT_UUID128 (bswap_128 x)) xs))"
proof -
  let ?us = "map (\<lambda>x. BT_UUID128 (bswap_128 x)) xs"
  have "map uuid_le ?us = xs" using assms(3) by (simp add: uuid_le_def bt_uuid_to_le_def map_idI)
  then have "uuid128_loop (length xs) g eir (concat xs) = Some (add_services eir ?us)"
    using uuid128_loop_services [OF assms(1), of ?us eir] by (simp add: is_type_def)
  moreover have "eir_field g eir t p n = eir_parse_uuid128 g eir p n" for p n
    using assms(2) by (auto simp: eir_field_def eir_types)
  ultimately show ?thesis using length_concat16 [OF assms(3)] by (simp add: eir_parse_uuid128_def)
qed

lemma fields_oob_uuids:
  assumes "asprintf_mem g" "uuid16_group us [] len = (vs, len1, tr1)"
    "uuid128_sel us [] (len + length (enc_structs (oob_uuid16 len us))) = (xs, len2, tr2)"
    "len + length (enc_structs (oob_uuid16 len us)) \<le> 238"
  shows "apply_fields g (oob_uuids len us) eir =
    Some (add_services eir (map BT_UUID16 vs @ map (\<lambda>x. BT_UUID128 (bswap_128 x)) xs))"
proof -
  have x16: "\<forall>x \<in> set xs. length x = 16" using sel128_bounds [OF assms(3)] by simp
  have add: "add_services (add_services eir as) bs = add_services eir (as @ bs)" "add_services eir [] = eir" for eir as bs
    by (simp_all add: add_services_def)
  have 1: "apply_fields g (oob_uuid16 len us) eir = Some (add_services eir (map BT_UUID16 vs))" for eir
    using field_uuid16s [OF assms(1), of _ eir vs] by (auto simp: oob_uuid16_def assms(2) add)
  have 2: "apply_fields g (oob_uuid128 (len + length (enc_structs (oob_uuid16 len us))) us) eir =
      Some (add_services eir (map (\<lambda>x. BT_UUID128 (bswap_128 x)) xs))" for eir
    using field_uuid128s [OF assms(1) _ x16, of _ eir] assms(4) by (auto simp: oob_uuid128_def assms(3) add)
  show ?thesis by (simp add: oob_uuids_def Let_def apply_fields_append 1 2 add)
qed

text \<open>The fields before the UUIDs.\<close>

definition oob_state ::
    "glib \<Rightarrow> eir_data \<Rightarrow> bytes \<Rightarrow> u32 \<Rightarrow> bytes option \<Rightarrow> bytes option \<Rightarrow> u16 \<Rightarrow> u16 \<Rightarrow> u16 \<Rightarrow> u16 \<Rightarrow> eir_data" where
  "oob_state g eir name cod hash randomizer did_vendor did_product did_version did_source =
     (let eir = (if cod > 0 then eir\<lparr>eir_class := take_bit 24 cod\<rparr> else eir);
          eir = (if hash \<noteq> None then eir\<lparr>eir_hash := hash\<rparr> else eir);
          eir = (if randomizer \<noteq> None then eir\<lparr>eir_randomizer := randomizer\<rparr> else eir);
          eir = (if name \<noteq> [] then eir\<lparr>eir_name := Some (shown_name g (take 48 name)), eir_name_complete := (length name \<le> 48)\<rparr> else eir)
      in if did_vendor \<noteq> 0 then eir\<lparr>eir_did_source := did_source, eir_did_vendor := did_vendor, eir_did_product := did_product,
           eir_did_version := did_version\<rparr> else eir)"

lemma field_oob_name:
  assumes "0 \<notin> set name"
  shows "eir_field g eir (if length name > 48 then EIR_NAME_SHORT else EIR_NAME_COMPLETE) (take 48 name) (length (take 48 name)) =
    Some (eir\<lparr>eir_name := Some (shown_name g (take 48 name)), eir_name_complete := (length name \<le> 48)\<rparr>)"
proof -
  have "EIR_NAME_SHORT \<noteq> EIR_NAME_COMPLETE" by (simp add: eir_types)
  moreover have "0 \<notin> set (take 48 name)" using assms by (auto dest: in_set_takeD)
  ultimately show ?thesis using field_name [of "take 48 name" _ g eir] by auto
qed

lemma fields_oob_head:
  assumes "\<forall>h. hash = Some h \<longrightarrow> length h = 16" "\<forall>r. randomizer = Some r \<longrightarrow> length r = 16" "0 \<notin> set name"
  shows "apply_fields g (oob_head name cod hash randomizer did_vendor did_product did_version did_source) eir =
    Some (oob_state g eir name cod hash randomizer did_vendor did_product did_version did_source)"
proof -
  note app = apply_fields_append
  have 1: "apply_fields g (if cod > 0 then [(EIR_CLASS_OF_DEV, [ucast cod, ucast (drop_bit 8 cod), ucast (drop_bit 16 cod)])] else []) eir =
      Some (if cod > 0 then eir\<lparr>eir_class := take_bit 24 cod\<rparr> else eir)" for eir
    using field_class [of g eir cod] by (simp add: numeral_3_eq_3)
  have 2: "apply_fields g (case hash of None \<Rightarrow> [] | Some h \<Rightarrow> [(EIR_SSP_HASH, h)]) eir = Some (if hash \<noteq> None then eir\<lparr>eir_hash := hash\<rparr> else eir)" for eir
    using assms(1) by (cases hash) (simp_all add: field_ssp)
  have 3: "apply_fields g (case randomizer of None \<Rightarrow> [] | Some r \<Rightarrow> [(EIR_SSP_RANDOMIZER, r)]) eir =
      Some (if randomizer \<noteq> None then eir\<lparr>eir_randomizer := randomizer\<rparr> else eir)" for eir
    using assms(2) by (cases randomizer) (simp_all add: field_ssp)
  have 4: "apply_fields g (if name \<noteq> [] then [(if length name > 48 then EIR_NAME_SHORT else EIR_NAME_COMPLETE, take 48 name)] else []) eir =
      Some (if name \<noteq> [] then eir\<lparr>eir_name := Some (shown_name g (take 48 name)), eir_name_complete := (length name \<le> 48)\<rparr> else eir)" for eir
    using field_oob_name [OF assms(3), of g eir] by simp
  have 5: "apply_fields g (if did_vendor \<noteq> 0 then [(EIR_DEVICE_ID, put_le16 did_source @ put_le16 did_vendor @ put_le16 did_product @ put_le16 did_version)] else []) eir =
      Some (if did_vendor \<noteq> 0 then eir\<lparr>eir_did_source := did_source, eir_did_vendor := did_vendor, eir_did_product := did_product,
           eir_did_version := did_version\<rparr> else eir)" for eir
    by (simp add: field_device_id [simplified])
  show ?thesis unfolding oob_head_def app 1 2 3 4 5 by (simp add: oob_state_def Let_def app 2 3 4 5 del: apply_fields.simps)
qed

section \<open>UUIDs that fit\<close>

text \<open>The UUIDs a record set offers; \<open>nub\<close> keeps the first of equal elements.\<close>

definition cand16 :: "uuid_t list \<Rightarrow> u16 list" where
  "cand16 us = concat (map (\<lambda>u. case u of SDP_UUID16 v \<Rightarrow> if v < 0x1100 \<or> v = PNP_INFO_SVCLASS_ID then [] else [v] | _ \<Rightarrow> []) us)"

definition cand128 :: "uuid_t list \<Rightarrow> bytes list" where
  "cand128 us = concat (map (\<lambda>u. case u of SDP_UUID128 d \<Rightarrow> [d] | _ \<Rightarrow> []) us)"

definition insert_new :: "'a list \<Rightarrow> 'a \<Rightarrow> 'a list" where
  "insert_new acc x = (if x \<in> set acc then acc else acc @ [x])"

definition nub :: "'a list \<Rightarrow> 'a list" where
  "nub xs = foldl insert_new [] xs"

lemma cand_simps [simp]:
  "cand16 [] = []" "cand128 [] = []"
  "cand16 (u # us) = (case u of SDP_UUID16 v \<Rightarrow> if v < 0x1100 \<or> v = PNP_INFO_SVCLASS_ID then [] else [v] | _ \<Rightarrow> []) @ cand16 us"
  "cand128 (u # us) = (case u of SDP_UUID128 d \<Rightarrow> [d] | _ \<Rightarrow> []) @ cand128 us"
  by (simp_all add: cand16_def cand128_def)

lemma group16_fits:
  "len + 2 * length (cand16 us) + 2 \<le> 240 \<Longrightarrow>
   \<exists>len'. uuid16_group us acc len = (foldl insert_new acc (cand16 us), len', False)"
proof (induction us arbitrary: acc len)
  case (Cons u us)
  show ?case
  proof (cases u)
    case (SDP_UUID16 v)
    then show ?thesis
      using Cons.prems Cons.IH [of len acc] Cons.IH [of "len + 2" "acc @ [v]"]
      by (auto simp add: insert_new_def HCI_MAX_EIR_LENGTH_def split: if_splits)
  qed (use Cons in simp_all)
qed simp

lemma sel128_fits:
  "len + 16 * length (cand128 us) + 2 \<le> 240 \<Longrightarrow>
   \<exists>len'. uuid128_sel us acc len = (foldl insert_new acc (map bswap_128 (cand128 us)), len', False)"
proof (induction us arbitrary: acc len)
  case (Cons u us)
  show ?case
  proof (cases u)
    case (SDP_UUID128 d)
    then show ?thesis
      using Cons.prems Cons.IH [of len acc] Cons.IH [of "len + 16" "acc @ [bswap_128 d]"]
      by (simp add: insert_new_def split: if_splits)
  qed (use Cons in simp_all)
qed simp

lemma nub_length: "length (nub xs) \<le> length xs"
proof -
  have "length (foldl insert_new acc xs) \<le> length acc + length xs" for acc
  proof (induction xs arbitrary: acc)
    case (Cons x xs)
    show ?case using Cons [of "insert_new acc x"] by (simp add: insert_new_def split: if_splits)
  qed simp
  from this [of "[]"] show ?thesis by (simp add: nub_def)
qed

lemma nub_map:
  assumes "inj_on f (set xs)"
  shows "nub (map f xs) = map f (nub xs)"
proof -
  have "foldl insert_new (map f acc) (map f xs) = map f (foldl insert_new acc xs)" if "inj_on f (set acc \<union> set xs)" for acc
    using that
  proof (induction xs arbitrary: acc)
    case (Cons x xs)
    have "insert_new (map f acc) (f x) = map f (insert_new acc x)"
      using Cons.prems by (auto simp: insert_new_def inj_on_def)
    moreover have "inj_on f (set (insert_new acc x) \<union> set xs)"
      using Cons.prems by (rule inj_on_subset) (auto simp: insert_new_def)
    ultimately show ?case using Cons.IH by simp
  qed simp
  from this [of "[]"] assms show ?thesis by (simp add: nub_def)
qed

lemma set_nub: "set (nub xs) = set xs" "distinct (nub xs)"
proof -
  have "set (foldl insert_new acc xs) = set acc \<union> set xs \<and> (distinct acc \<longrightarrow> distinct (foldl insert_new acc xs))" for acc
  proof (induction xs arbitrary: acc)
    case (Cons x xs)
    show ?case using Cons [of "insert_new acc x"] by (auto simp: insert_new_def)
  qed simp
  from this [of "[]"] show "set (nub xs) = set xs" "distinct (nub xs)" by (simp_all add: nub_def)
qed

lemma bswap_nub:
  assumes "\<forall>d \<in> set ds. length d = 16"
  shows "map bswap_128 (nub (map bswap_128 ds)) = nub ds"
proof -
  have "inj_on bswap_128 (set ds)" using assms by (metis bswap_128_invol inj_onI)
  then have "nub (map bswap_128 ds) = map bswap_128 (nub ds)" by (rule nub_map)
  then show ?thesis using assms set_nub(1) [of ds] by (auto intro!: map_idI)
qed

section \<open>Properties\<close>

text \<open>
  C38: \<open>eir_create_oob\<close> stays within its bounds.  Whatever the arguments and however many records there
  are, it writes the block into a buffer of 248 bytes without leaving it, and the length it returns
  is that of the block: the two bytes of the length, the address and at most 240 bytes of fields.
\<close>

theorem create_oob_bound:
  assumes "length addr = 6" "\<forall>h. hash = Some h \<longrightarrow> length h = 16" "\<forall>r. randomizer = Some r \<longrightarrow> length r = 16" "248 \<le> length buf"
  shows "\<exists>n e buf'. eir_create_oob addr name cod hash randomizer did_vendor did_product did_version did_source us buf = Some (n, buf') \<and>
    n \<le> 248 \<and> n = 8 + length e \<and> length buf' = length buf \<and> take n buf' = put_le16 (of_nat n) @ addr @ e \<and> ad_structs e \<noteq> None"
proof -
  define hs where "hs = oob_head name cod hash randomizer did_vendor did_product did_version did_source"
  define xs where "xs = hs @ oob_uuids (length (enc_structs hs)) us"
  have "length (enc_structs hs) \<le> 101" unfolding hs_def by (rule oob_head_length [OF assms(2, 3)])
  from oob_uuids_length(1) [OF this, of us] have l: "length (enc_structs xs) \<le> 240" by (simp add: xs_def)
  have "\<forall>x \<in> set xs. length (snd x) < 255" using structs_small l by fastforce
  then have "ad_structs (enc_structs xs) = Some xs" by (rule ad_structs_enc)
  moreover define b where "b = overlay buf 0 (put_le16 (of_nat (8 + length (enc_structs xs))) @ addr @ enc_structs xs)"
  have "eir_create_oob addr name cod hash randomizer did_vendor did_product did_version did_source us buf =
      Some (8 + length (enc_structs xs), b)"
    using create_oob_bytes [OF assms hs_def refl, of us] unfolding xs_def [symmetric] b_def .
  moreover have "length b = length buf"
    "take (8 + length (enc_structs xs)) b = put_le16 (of_nat (8 + length (enc_structs xs))) @ addr @ enc_structs xs"
    using assms(1, 4) l by (simp_all add: b_def overlay_def)
  moreover have "8 + length (enc_structs xs) \<le> 248" using l by simp
  ultimately show ?thesis by (metis option.distinct(1))
qed

lemma parse_oob_block:
  assumes "length addr = 6" "length (enc_structs xs) \<le> 240"
  shows "eir_parse_oob g eir (put_le16 (of_nat (8 + length (enc_structs xs))) @ addr @ enc_structs xs @ rest)
      (of_nat (8 + length (enc_structs xs))) =
    map_option (Pair 0) (apply_fields g xs (if xs = [] then eir\<lparr>eir_addr := addr\<rparr>
      else eir\<lparr>eir_addr := addr, eir_flags := 0, eir_tx_power := 127\<rparr>))"
proof -
  let ?e = "enc_structs xs"
  have n: "unat (of_nat (8 + length ?e) :: u16) = 8 + length ?e" using assms(2) by (intro unat_of_nat_less) simp
  have m: "(of_nat (8 + length ?e) :: u16) - 2 - 6 = of_nat (length ?e)" by simp
  have z: "(of_nat (length ?e) :: u16) > 0 \<longleftrightarrow> xs \<noteq> []"
  proof -
    have "unat (of_nat (length ?e) :: u16) = length ?e" using assms(2) by (intro unat_of_nat_less) simp
    then have "(of_nat (length ?e) :: u16) = 0 \<longleftrightarrow> length ?e = 0" by (metis unat_eq_0)
    moreover have "?e = [] \<longleftrightarrow> xs = []" by (cases xs) (simp_all add: enc_struct_def)
    ultimately show ?thesis by (simp add: word_gt_0)
  qed
  have "(ucast (of_nat (length ?e) :: u16) :: u8) = of_nat (unat (of_nat (length ?e) :: u16))" by simp
  also have "unat (of_nat (length ?e) :: u16) = length ?e" using assms(2) by (intro unat_of_nat_less) simp
  finally have u: "(ucast (of_nat (length ?e) :: u16) :: u8) = of_nat (length ?e)" .
  have p: "eir_parse g (eir\<lparr>eir_addr := addr\<rparr>) (Some (?e @ rest)) (of_nat (length ?e)) =
      apply_fields g xs (eir\<lparr>eir_addr := addr, eir_flags := 0, eir_tx_power := 127\<rparr>)"
  proof -
    have "\<forall>x \<in> set xs. length (snd x) < 255" using structs_small assms(2) by fastforce
    from parse_structs [OF this, of g "eir\<lparr>eir_addr := addr\<rparr>" rest] assms(2) show ?thesis by simp
  qed
  have "drop 6 (addr @ ?e @ rest) = ?e @ rest" "take 6 (addr @ ?e @ rest) = addr" using assms(1) by simp_all
  then show ?thesis unfolding eir_parse_oob_def n
    using assms(1) z by (cases "xs = []") (simp_all add: EIR_OOB_MIN_def Let_def m u p map_option_case split: option.split)
qed

theorem create_oob_bound_witness:
  "\<exists>n e buf'. eir_create_oob [1, 2, 3, 4, 5, 6] [0x61] 0x200404 None None 0 0 0 0 [SDP_UUID16 0x110a] (replicate 248 0) = Some (n, buf') \<and>
     n \<le> 248 \<and> take n buf' = put_le16 (of_nat n) @ [1, 2, 3, 4, 5, 6] @ e"
  using create_oob_bound [of "[1, 2, 3, 4, 5, 6]" None None "replicate 248 0" "[0x61]" "0x200404" 0 0 0 0 "[SDP_UUID16 0x110a]"] by fastforce

text \<open>The room the UUIDs of the records take at most.\<close>

definition oob_fits :: "(u8 \<times> bytes) list \<Rightarrow> uuid_t list \<Rightarrow> bool" where
  "oob_fits hs us \<longleftrightarrow> length (enc_structs hs) + 2 * length (cand16 us) + 16 * length (cand128 us) + 4 \<le> 240"

lemma fields_oob_fit:
  assumes "asprintf_mem g" "oob_fits hs us" "\<forall>d \<in> set (cand128 us). length d = 16"
  shows "apply_fields g (oob_uuids (length (enc_structs hs)) us) eir =
    Some (add_services eir (map BT_UUID16 (nub (cand16 us)) @ map BT_UUID128 (nub (cand128 us))))"
proof -
  let ?l = "length (enc_structs hs)"
  let ?l2 = "?l + length (enc_structs (oob_uuid16 ?l us))"
  obtain len1 where g: "uuid16_group us [] ?l = (nub (cand16 us), len1, False)"
    using group16_fits [of ?l us "[]"] assms(2) by (auto simp: oob_fits_def nub_def)
  have "length (concat (map put_le16 vs)) = 2 * length vs" for vs by (induction vs) auto
  then have l2: "?l2 \<le> ?l + 2 + 2 * length (cand16 us)"
    using g nub_length [of "cand16 us"] by (simp add: oob_uuid16_def enc_struct_def)
  then obtain len2 where s: "uuid128_sel us [] ?l2 = (nub (map bswap_128 (cand128 us)), len2, False)"
    using sel128_fits [of ?l2 us "[]"] assms(2) by (auto simp: oob_fits_def nub_def)
  have "map (\<lambda>x. BT_UUID128 (bswap_128 x)) (nub (map bswap_128 (cand128 us))) = map BT_UUID128 (nub (cand128 us))"
    using bswap_nub [OF assms(3)] by (metis (no_types, lifting) list.map_comp map_eq_conv comp_apply)
  then show ?thesis
    using fields_oob_uuids [OF assms(1) g s, of eir] l2 assms(2) by (simp add: oob_fits_def)
qed

text \<open>
  C37: what one device creates as out-of-band data the other reads.  When the service classes of the records fit,
  \<open>eir_parse_oob\<close> accepts the block \<open>eir_create_oob\<close> has written and finds the address, the 24 bits of the
  class, the hash and the randomizer, the name or its first 48 bytes, the device identification,
  and every service class of the records once, in their order, the short ones first.
\<close>

theorem oob_roundtrip:
  assumes "length addr = 6" "\<forall>h. hash = Some h \<longrightarrow> length h = 16" "\<forall>r. randomizer = Some r \<longrightarrow> length r = 16" "248 \<le> length buf"
    and "\<forall>d \<in> set (cand128 us). length d = 16" "0 \<notin> set name" "asprintf_mem g"
    and fits: "oob_fits (oob_head name cod hash randomizer did_vendor did_product did_version did_source) us"
  shows "\<exists>n buf' eir'.
    eir_create_oob addr name cod hash randomizer did_vendor did_product did_version did_source us buf = Some (n, buf') \<and>
    eir_parse_oob g empty_eir buf' (of_nat n) = Some (0, eir') \<and>
    eir_addr eir' = addr \<and> eir_class eir' = take_bit 24 cod \<and> eir_hash eir' = hash \<and> eir_randomizer eir' = randomizer \<and>
    eir_name eir' = (if name = [] then None else Some (shown_name g (take 48 name))) \<and>
    (did_vendor \<noteq> 0 \<longrightarrow> eir_did_vendor eir' = did_vendor \<and> eir_did_product eir' = did_product \<and>
       eir_did_version eir' = did_version \<and> eir_did_source eir' = did_source) \<and>
    eir_services eir' = map uuid_string (map BT_UUID16 (nub (cand16 us)) @ map BT_UUID128 (nub (cand128 us)))"
proof -
  define hs where "hs = oob_head name cod hash randomizer did_vendor did_product did_version did_source"
  define xs where "xs = hs @ oob_uuids (length (enc_structs hs)) us"
  let ?e0 = "if xs = [] then empty_eir\<lparr>eir_addr := addr\<rparr> else empty_eir\<lparr>eir_addr := addr, eir_flags := 0, eir_tx_power := 127\<rparr>"
  let ?s = "add_services (oob_state g ?e0 name cod hash randomizer did_vendor did_product did_version did_source)
    (map BT_UUID16 (nub (cand16 us)) @ map BT_UUID128 (nub (cand128 us)))"
  have "length (enc_structs hs) \<le> 101" unfolding hs_def by (rule oob_head_length [OF assms(2, 3)])
  from oob_uuids_length(1) [OF this, of us] have l: "length (enc_structs xs) \<le> 240" by (simp add: xs_def)
  have fields: "apply_fields g xs ?e0 = Some ?s"
    using fields_oob_head [OF assms(2, 3, 6)] fields_oob_fit [OF assms(7) fits assms(5)]
    unfolding xs_def apply_fields_append hs_def by simp
  have create: "eir_create_oob addr name cod hash randomizer did_vendor did_product did_version did_source us buf =
      Some (8 + length (enc_structs xs), put_le16 (of_nat (8 + length (enc_structs xs))) @ addr @ enc_structs xs @ drop (8 + length (enc_structs xs)) buf)"
    using create_oob_bytes [OF assms(1, 2, 3, 4) hs_def refl, of us] assms(1) unfolding xs_def [symmetric] by (simp add: overlay_def)
  note parse = parse_oob_block [OF assms(1) l, of g empty_eir "drop (8 + length (enc_structs xs)) buf", unfolded fields]
  have "cod = 0 \<or> cod > 0" by (simp add: word_gt_0)
  then have "eir_addr ?s = addr \<and> eir_class ?s = take_bit 24 cod \<and> eir_hash ?s = hash \<and> eir_randomizer ?s = randomizer \<and>
      eir_name ?s = (if name = [] then None else Some (shown_name g (take 48 name))) \<and>
      (did_vendor \<noteq> 0 \<longrightarrow> eir_did_vendor ?s = did_vendor \<and> eir_did_product ?s = did_product \<and>
       eir_did_version ?s = did_version \<and> eir_did_source ?s = did_source) \<and>
      eir_services ?s = map uuid_string (map BT_UUID16 (nub (cand16 us)) @ map BT_UUID128 (nub (cand128 us)))"
    by (auto simp: oob_state_def Let_def add_services_def empty_eir_def)
  then show ?thesis using create parse by auto
qed

theorem oob_roundtrip_witness:
  "\<exists>n buf' eir'. eir_create_oob [1, 2, 3, 4, 5, 6] [0x61] 0x200404 None None 0 0 0 0 [SDP_UUID16 0x110a, SDP_UUID16 0x110a] (replicate 248 0) =
       Some (n, buf') \<and>
     eir_parse_oob demo_glib empty_eir buf' (of_nat n) = Some (0, eir') \<and> eir_class eir' = 0x200404 \<and> eir_name eir' = Some [0x61] \<and>
     eir_services eir' = [uuid_string (BT_UUID16 0x110a)]"
proof -
  have f: "oob_fits (oob_head [0x61] 0x200404 None None 0 0 0 0) [SDP_UUID16 0x110a, SDP_UUID16 0x110a]" by code_simp
  have c: "cand128 [SDP_UUID16 0x110a, SDP_UUID16 0x110a] = []" "nub (cand16 [SDP_UUID16 0x110a, SDP_UUID16 0x110a]) = [0x110a]" by code_simp+
  have s: "shown_name demo_glib (take 48 [0x61]) = [0x61]" by code_simp
  have t: "take_bit 24 (0x200404 :: u32) = 0x200404" by code_simp
  show ?thesis
    using oob_roundtrip [of "[1, 2, 3, 4, 5, 6]" None None "replicate 248 0" "[SDP_UUID16 0x110a, SDP_UUID16 0x110a]" "[0x61]" demo_glib
        "0x200404" 0 0 0 0] f s t unfolding c by (simp add: demo_glib_def nub_def) blast
qed

end
