(* ===== verification/Gatt_Client.thy ===== *)
theory Gatt_Client
  imports Gatt_Helpers
begin

text \<open>
  The GATT client object, \<^verbatim>\<open>src/shared/gatt-client.c\<close>: reads, writes, long writes and reliable write
  sessions of an application, and their cancellation.  The requests the ATT engine and the queues
  point to are kept in a map with their reference counts; what \<^verbatim>\<open>req->data\<close> points to is a value of
  a datatype with one constructor for every structure, so that a callback that takes it for another
  structure has no meaning (\<open>None\<close>), as has the use of a request that was freed.  Calls of functions
  of the application are the events of the result, in their order.  The operations are those of an
  existing client: every one of them returns at once when its pointer is \<^verbatim>\<open>NULL\<close>.
\<close>

section \<open>State\<close>

text \<open>The functions and data the client hands to the ATT engine.\<close>

datatype gfn =
    Read_cb | Read_multiple_cb | Read_long_cb | Write_cb | Prepare_write_cb | Execute_write_cb | Prep_write_cb
  | Exec_write_cb | Cancel_long_write_cb | Cancel_prep_write_cb | Request_unref
  | Enable_ccc_callback | Disable_ccc_callback | Notify_data_unref | Notify_cb | Find_ccc
  | Request_ptr ptr | Notify_ptr ptr | Client_ptr

record 'd read_op =
  ro_callback :: "'d option"
  ro_user_data :: "'d option"
  ro_destroy :: "'d option"

text \<open>\<open>rl_iov\<close> is what \<^verbatim>\<open>iov.iov_base\<close> points to, with the length \<^verbatim>\<open>iov.iov_len\<close>.\<close>

record 'd read_long_op =
  rl_value_handle :: u16
  rl_offset :: u16
  rl_iov :: "bytes option"
  rl_callback :: "'d option"
  rl_user_data :: "'d option"
  rl_destroy :: "'d option"

record 'd write_op =
  wo_callback :: "'d option"
  wo_user_data :: "'d option"
  wo_destroy :: "'d option"

record 'd long_write_op =
  lw_reliable :: bool
  lw_success :: bool
  lw_att_ecode :: u8
  lw_reliable_error :: bool
  lw_value_handle :: u16
  lw_value :: bytes
  lw_length :: u16
  lw_offset :: u16
  lw_index :: u16
  lw_cur_length :: u16
  lw_callback :: "'d option"
  lw_user_data :: "'d option"
  lw_destroy :: "'d option"

record 'd prep_write_op =
  pw_callback :: "'d option"
  pw_user_data :: "'d option"
  pw_destroy :: "'d option"
  pw_pdu :: bytes

datatype 'd req_data =
    Read_data "'d read_op"
  | Read_long_data "'d read_long_op"
  | Write_data "'d write_op"
  | Long_write_data "'d long_write_op"
  | Prep_write_data "'d prep_write_op"

datatype req_destroy =
    Destroy_read_op | Destroy_read_long_op | Destroy_write_op | Long_write_op_free | Destroy_prep_write_op

record 'd request =
  r_long_write :: bool
  r_prep_write :: bool
  r_removed :: bool
  r_ref_count :: int
  r_id :: u32
  r_att_id :: u32
  r_data :: "'d req_data option"
  r_destroy :: "req_destroy option"

record notify_chrc =
  nc_value_handle :: u16
  nc_ccc_handle :: u16
  nc_properties :: u16
  nc_notify_count :: int
  nc_reg_notify_queue :: "ptr list"
  nc_ccc_write_id :: u32

record 'd notify_data =
  nd_id :: u32
  nd_att_id :: u32
  nd_ref_count :: int
  nd_chrc :: ptr
  nd_callback :: "'d option"
  nd_notify :: "'d option"
  nd_user_data :: "'d option"
  nd_destroy :: "'d option"

text \<open>
  \<open>gc_att\<close> says whether \<^verbatim>\<open>client->att\<close> is not \<^verbatim>\<open>NULL\<close>; the engine itself is the one the helpers use.
  \<open>gc_next\<close> numbers the objects the client allocates.
\<close>

record 'd gatt_client =
  gc_hl :: "gfn gatt_helpers"
  gc_att :: bool
  gc_parent :: bool
  gc_db :: "gfn gatt_db"
  gc_reqs :: "ptr \<rightharpoonup> 'd request"
  gc_pending_requests :: "ptr list"
  gc_next_request_id :: u32
  gc_long_write_queue :: "ptr list"
  gc_in_long_write :: bool
  gc_session_id :: u32
  gc_notify_data :: "ptr \<rightharpoonup> 'd notify_data"
  gc_chrcs :: "ptr \<rightharpoonup> notify_chrc"
  gc_notify_list :: "ptr list"
  gc_notify_chrcs :: "ptr list"
  gc_next_reg_id :: u32
  gc_in_svc_chngd :: bool
  gc_discovery_req :: "ptr option"
  gc_mtu_req_id :: u32
  gc_next :: ptr

datatype 'd gc_event =
    Gc_read_callback 'd bool u8 "bytes option" u16 "'d option"
  | Gc_callback 'd bool u8 "'d option"
  | Gc_write_long_callback 'd bool bool u8 "'d option"
  | Gc_register_callback 'd u16 "'d option"
  | Gc_notify_callback 'd u16 "bytes option" u16 "'d option"
  | Gc_destroy 'd "'d option"
  | Gc_helper "gfn hl_event"

type_synonym gc_env = "gfn hl_env"

type_synonym 'd gc_result = "('d gatt_client \<times> 'd gc_event list) option"

definition BT_ATT_MAX_VALUE_LEN :: nat where "BT_ATT_MAX_VALUE_LEN = 512"

definition BT_ATT_OP_SIGNED_WRITE_CMD :: u8 where "BT_ATT_OP_SIGNED_WRITE_CMD = 0xD2"

section \<open>Sending\<close>

definition client_att :: "'d gatt_client \<Rightarrow> gfn hfn bt_att option" where
  "client_att c = (if gc_att c then Some (hl_att (gc_hl c)) else None)"

definition set_att :: "'d gatt_client \<Rightarrow> gfn hfn bt_att option \<Rightarrow> 'd gatt_client" where
  "set_att c t = (case t of None \<Rightarrow> c | Some t \<Rightarrow> c\<lparr>gc_hl := (gc_hl c)\<lparr>hl_att := t\<rparr>\<rparr>)"

text \<open>A call of \<^verbatim>\<open>bt_att_send\<close> with the PDU of the client, whose size is cut to 16 bits.\<close>

definition client_send ::
    "gc_env \<Rightarrow> 'd gatt_client \<Rightarrow> u8 \<Rightarrow> bytes \<Rightarrow> gfn option \<Rightarrow> gfn option \<Rightarrow> gfn option \<Rightarrow> (u32 \<times> 'd gatt_client) option" where
  "client_send env c opcode pdu callback user_data destroy = do {
     (i, t) \<leftarrow> bt_att_send env (client_att c) opcode (Some pdu) (of_nat (length pdu))
                 (map_option Client callback) (map_option Client user_data) (map_option Client destroy);
     Some (i, set_att c t) }"

definition client_mtu :: "'d gatt_client \<Rightarrow> int" where
  "client_mtu c = uint (bt_att_get_mtu (client_att c))"

definition pdu_len :: "bytes option \<Rightarrow> u16" where
  "pdu_len pdu = (case pdu of None \<Rightarrow> 0 | Some b \<Rightarrow> of_nat (length b))"

definition call_user :: "'d option \<Rightarrow> ('d \<Rightarrow> 'd gc_event) \<Rightarrow> 'd gc_event list" where
  "call_user f e = (case f of None \<Rightarrow> [] | Some g \<Rightarrow> [e g])"

section \<open>Requests and registrations\<close>

definition put_request :: "'d gatt_client \<Rightarrow> ptr \<Rightarrow> 'd request \<Rightarrow> 'd gatt_client" where
  "put_request c p r = c\<lparr>gc_reqs := (gc_reqs c)(p \<mapsto> r)\<rparr>"

definition request_ref :: "'d gatt_client \<Rightarrow> ptr \<Rightarrow> 'd gatt_client option" where
  "request_ref c p = do { r \<leftarrow> gc_reqs c p; Some (put_request c p (r\<lparr>r_ref_count := r_ref_count r + 1\<rparr>)) }"

text \<open>\<open>None\<close> is the result \<^verbatim>\<open>NULL\<close>.\<close>

definition request_create :: "'d gatt_client \<Rightarrow> (ptr \<times> 'd gatt_client) option" where
  "request_create c =
     (if \<not> gc_att c then None
      else let i = (if gc_next_request_id c < 1 then 1 else gc_next_request_id c);
               p = gc_next c
        in Some (p, c\<lparr>gc_next := p + 1, gc_next_request_id := i + 1,
                      gc_pending_requests := gc_pending_requests c @ [p],
                      gc_reqs := (gc_reqs c)(p \<mapsto>
                        \<lparr>r_long_write = False, r_prep_write = False, r_removed = False, r_ref_count = 1,
                         r_id = i, r_att_id = 0, r_data = None, r_destroy = None\<rparr>)\<rparr>))"

definition destroy_read_op :: "'d read_op \<Rightarrow> 'd gc_event list" where
  "destroy_read_op op = call_user (ro_destroy op) (\<lambda>f. Gc_destroy f (ro_user_data op))"

definition destroy_read_long_op :: "'d read_long_op \<Rightarrow> 'd gc_event list" where
  "destroy_read_long_op op = call_user (rl_destroy op) (\<lambda>f. Gc_destroy f (rl_user_data op))"

definition destroy_write_op :: "'d write_op \<Rightarrow> 'd gc_event list" where
  "destroy_write_op op = call_user (wo_destroy op) (\<lambda>f. Gc_destroy f (wo_user_data op))"

definition long_write_op_free :: "'d long_write_op \<Rightarrow> 'd gc_event list" where
  "long_write_op_free op = call_user (lw_destroy op) (\<lambda>f. Gc_destroy f (lw_user_data op))"

definition destroy_prep_write_op :: "'d prep_write_op \<Rightarrow> 'd gc_event list" where
  "destroy_prep_write_op op = call_user (pw_destroy op) (\<lambda>f. Gc_destroy f (pw_user_data op))"

text \<open>The call of \<^verbatim>\<open>req->destroy\<close>.\<close>

definition call_req_destroy :: "req_destroy \<Rightarrow> 'd req_data option \<Rightarrow> 'd gc_event list option" where
  "call_req_destroy f d =
     (case (f, d) of
        (Destroy_read_op, Some (Read_data op)) \<Rightarrow> Some (destroy_read_op op)
      | (Destroy_read_long_op, Some (Read_long_data op)) \<Rightarrow> Some (destroy_read_long_op op)
      | (Destroy_write_op, Some (Write_data op)) \<Rightarrow> Some (destroy_write_op op)
      | (Long_write_op_free, Some (Long_write_data op)) \<Rightarrow> Some (long_write_op_free op)
      | (Destroy_prep_write_op, Some (Prep_write_data op)) \<Rightarrow> Some (destroy_prep_write_op op)
      | _ \<Rightarrow> None)"

definition request_unref :: "'d gatt_client \<Rightarrow> ptr \<Rightarrow> 'd gc_result" where
  "request_unref c p = do {
     r \<leftarrow> gc_reqs c p;
     let r = r\<lparr>r_ref_count := r_ref_count r - 1\<rparr>;
     if r_ref_count r \<noteq> 0 then Some (put_request c p r, [])
     else do {
       es \<leftarrow> (case r_destroy r of None \<Rightarrow> Some [] | Some f \<Rightarrow> call_req_destroy f (r_data r));
       Some (c\<lparr>gc_reqs := (gc_reqs c)(p := None),
               gc_pending_requests :=
                 (if r_removed r then gc_pending_requests c else remove1 p (gc_pending_requests c))\<rparr>, es) } }"

definition put_notify_data :: "'d gatt_client \<Rightarrow> ptr \<Rightarrow> 'd notify_data \<Rightarrow> 'd gatt_client" where
  "put_notify_data c p n = c\<lparr>gc_notify_data := (gc_notify_data c)(p \<mapsto> n)\<rparr>"

definition notify_data_ref :: "'d gatt_client \<Rightarrow> ptr \<Rightarrow> 'd gatt_client option" where
  "notify_data_ref c p = do {
     n \<leftarrow> gc_notify_data c p; Some (put_notify_data c p (n\<lparr>nd_ref_count := nd_ref_count n + 1\<rparr>)) }"

definition notify_data_unref :: "'d gatt_client \<Rightarrow> ptr \<Rightarrow> 'd gc_result" where
  "notify_data_unref c p = do {
     n \<leftarrow> gc_notify_data c p;
     let n = n\<lparr>nd_ref_count := nd_ref_count n - 1\<rparr>;
     if nd_ref_count n \<noteq> 0 then Some (put_notify_data c p n, [])
     else Some (c\<lparr>gc_notify_data := (gc_notify_data c)(p := None)\<rparr>,
                call_user (nd_destroy n) (\<lambda>f. Gc_destroy f (nd_user_data n))) }"

text \<open>
  The release of the data of an operation of the ATT engine.  The discovery of the client is reached
  through the helpers; its functions are called by the events \<open>Gc_helper\<close>.
\<close>

definition client_release :: "gc_env \<Rightarrow> 'd gatt_client \<Rightarrow> gfn hfn \<Rightarrow> gfn hfn option \<Rightarrow> 'd gc_result" where
  "client_release env c f ud =
     (case (f, ud) of
        (Client Request_unref, Some (Client (Request_ptr p))) \<Rightarrow> request_unref c p
      | (Client Notify_data_unref, Some (Client (Notify_ptr p))) \<Rightarrow> notify_data_unref c p
      | (Client _, _) \<Rightarrow> Some (c, [])
      | _ \<Rightarrow> do { (h, es) \<leftarrow> hl_release env (gc_hl c) f ud; Some (c\<lparr>gc_hl := h\<rparr>, map Gc_helper es) })"

primrec release_all :: "gc_env \<Rightarrow> gfn hfn att_event list \<Rightarrow> 'd gatt_client \<Rightarrow> 'd gc_result" where
  "release_all env [] c = Some (c, [])"
| "release_all env (e # es) c = do {
     (c, d) \<leftarrow> (case e of Att_op_destroy f ud \<Rightarrow> client_release env c f ud | _ \<Rightarrow> Some (c, []));
     (c, ds) \<leftarrow> release_all env es c;
     Some (c, d @ ds) }"

definition client_cancel_op :: "gc_env \<Rightarrow> 'd gatt_client \<Rightarrow> u32 \<Rightarrow> (bool \<times> 'd gatt_client \<times> 'd gc_event list) option" where
  "client_cancel_op env c i =
     (case bt_att_cancel env (client_att c) i of
        (ok, t, e) \<Rightarrow> do { (c, es) \<leftarrow> release_all env e (set_att c t); Some (ok, c, es) })"

section \<open>Cancellation\<close>

text \<open>The search meets the requests that are allocated; one that was freed while queued would be read after its release.\<close>

definition match_req_id :: "'d gatt_client \<Rightarrow> u32 \<Rightarrow> ptr \<Rightarrow> bool" where
  "match_req_id c i p = (case gc_reqs c p of None \<Rightarrow> False | Some r \<Rightarrow> r_id r = i)"

definition cancel_long_write_cb :: "'d gatt_client \<Rightarrow> 'd gatt_client" where
  "cancel_long_write_cb c = (if gc_long_write_queue c = [] then c\<lparr>gc_in_long_write := False\<rparr> else c)"

definition cancel_long_write_req ::
    "gc_env \<Rightarrow> 'd gatt_client \<Rightarrow> ptr \<Rightarrow> (bool \<times> 'd gatt_client \<times> 'd gc_event list) option" where
  "cancel_long_write_req env c p = do {
     r \<leftarrow> gc_reqs c p;
     if r_att_id r = 0
     then Some (p \<in> set (gc_long_write_queue c), c\<lparr>gc_long_write_queue := remove1 p (gc_long_write_queue c)\<rparr>, [])
     else do {
       (i, c) \<leftarrow> client_send env c BT_ATT_OP_EXEC_WRITE_REQ [0x00] (Some Cancel_long_write_cb) (Some Client_ptr) None;
       Some (i \<noteq> 0, c, []) } }"

definition cancel_prep_write_cb :: "'d gatt_client \<Rightarrow> ptr \<Rightarrow> 'd gatt_client option" where
  "cancel_prep_write_cb c p = do { r \<leftarrow> gc_reqs c p; Some (c\<lparr>gc_session_id := 0\<rparr>) }"

definition cancel_prep_write_session ::
    "gc_env \<Rightarrow> 'd gatt_client \<Rightarrow> ptr \<Rightarrow> (bool \<times> 'd gatt_client \<times> 'd gc_event list) option" where
  "cancel_prep_write_session env c p = do {
     (i, c) \<leftarrow> client_send env c BT_ATT_OP_EXEC_WRITE_REQ [0x00] (Some Cancel_prep_write_cb) (Some (Request_ptr p))
                 (Some Request_unref);
     Some (i \<noteq> 0, c, []) }"

definition cancel_request :: "gc_env \<Rightarrow> 'd gatt_client \<Rightarrow> ptr \<Rightarrow> (bool \<times> 'd gatt_client \<times> 'd gc_event list) option" where
  "cancel_request env c p = do {
     r \<leftarrow> gc_reqs c p;
     let c = put_request c p (r\<lparr>r_removed := True\<rparr>);
     if r_long_write r then cancel_long_write_req env c p
     else if r_prep_write r then cancel_prep_write_session env c p
     else client_cancel_op env c (r_att_id r) }"

definition bt_gatt_client_cancel ::
    "gc_env \<Rightarrow> 'd gatt_client \<Rightarrow> u32 \<Rightarrow> (bool \<times> 'd gatt_client \<times> 'd gc_event list) option" where
  "bt_gatt_client_cancel env c i =
     (if i = 0 \<or> \<not> gc_att c then Some (False, c, [])
      else case find (match_req_id c i) (gc_pending_requests c) of
        None \<Rightarrow> Some (False, c, [])
      | Some p \<Rightarrow>
          cancel_request env (c\<lparr>gc_pending_requests := remove_first (match_req_id c i) (gc_pending_requests c)\<rparr>) p)"

primrec cancel_requests :: "gc_env \<Rightarrow> ptr list \<Rightarrow> 'd gatt_client \<Rightarrow> 'd gc_result" where
  "cancel_requests env [] c = Some (c, [])"
| "cancel_requests env (p # ps) c = do {
     (_, c, es) \<leftarrow> cancel_request env c p;
     (c, es') \<leftarrow> cancel_requests env ps c;
     Some (c, es @ es') }"

text \<open>\<^verbatim>\<open>queue_remove_all\<close> empties the queue before it calls the function on the entries.\<close>

definition bt_gatt_client_cancel_all :: "gc_env \<Rightarrow> 'd gatt_client \<Rightarrow> (bool \<times> 'd gatt_client \<times> 'd gc_event list) option" where
  "bt_gatt_client_cancel_all env c =
     (if \<not> gc_att c then Some (False, c, [])
      else do {
        (c, e1) \<leftarrow> cancel_requests env (gc_pending_requests c) (c\<lparr>gc_pending_requests := []\<rparr>);
        (c, e2) \<leftarrow> (case gc_discovery_req c of
                       None \<Rightarrow> Some (c, [])
                     | Some q \<Rightarrow> do {
                         (h, d1) \<leftarrow> bt_gatt_request_cancel env (gc_hl c) q;
                         (h, d2) \<leftarrow> bt_gatt_request_unref env h q;
                         Some (c\<lparr>gc_hl := h, gc_discovery_req := None\<rparr>, map Gc_helper (d1 @ d2)) });
        (c, e3) \<leftarrow> (if gc_mtu_req_id c = 0 then Some (c, [])
                     else do { (_, c, es) \<leftarrow> client_cancel_op env c (gc_mtu_req_id c); Some (c, es) });
        Some (True, c, e1 @ e2 @ e3) })"

section \<open>Reads\<close>

text \<open>\<^verbatim>\<open>op->destroy = NULL\<close>\<close>

definition no_destroy :: "'d req_data \<Rightarrow> 'd req_data" where
  "no_destroy d =
     (case d of
        Read_data op \<Rightarrow> Read_data (op\<lparr>ro_destroy := None\<rparr>)
      | Read_long_data op \<Rightarrow> Read_long_data (op\<lparr>rl_destroy := None\<rparr>)
      | Write_data op \<Rightarrow> Write_data (op\<lparr>wo_destroy := None\<rparr>)
      | Long_write_data op \<Rightarrow> Long_write_data (op\<lparr>lw_destroy := None\<rparr>)
      | Prep_write_data op \<Rightarrow> Prep_write_data (op\<lparr>pw_destroy := None\<rparr>))"

text \<open>
  The end of the operations that send one ATT operation for a request: the identifier is stored, and
  the request is given up when there is none.
\<close>

definition send_request ::
    "gc_env \<Rightarrow> 'd gatt_client \<Rightarrow> ptr \<Rightarrow> u8 \<Rightarrow> bytes \<Rightarrow> gfn option \<Rightarrow> gfn option
       \<Rightarrow> (u32 \<times> 'd gatt_client \<times> 'd gc_event list) option" where
  "send_request env c p opcode pdu callback destroy = do {
     (i, c) \<leftarrow> client_send env c opcode pdu callback (Some (Request_ptr p)) destroy;
     r \<leftarrow> gc_reqs c p;
     let r = r\<lparr>r_att_id := i\<rparr>;
     if i = 0
     then do {
       (c, es) \<leftarrow> request_unref (put_request c p (r\<lparr>r_data := map_option no_destroy (r_data r)\<rparr>)) p;
       Some (0, c, es) }
     else Some (r_id r, put_request c p r, []) }"

text \<open>A new request with its data.\<close>

definition create_request ::
    "'d gatt_client \<Rightarrow> 'd req_data option \<Rightarrow> req_destroy option \<Rightarrow> (ptr \<times> 'd gatt_client) option" where
  "create_request c d f = do {
     (p, c) \<leftarrow> request_create c;
     r \<leftarrow> gc_reqs c p;
     Some (p, put_request c p (r\<lparr>r_data := d, r_destroy := f\<rparr>)) }"

text \<open>The value is a \<^verbatim>\<open>NULL\<close> pointer on errors; the length is always that of the response.\<close>

definition read_cb :: "'d gatt_client \<Rightarrow> ptr \<Rightarrow> u8 \<Rightarrow> bytes option \<Rightarrow> 'd gc_result" where
  "read_cb c p opcode pdu = do {
     r \<leftarrow> gc_reqs c p;
     op \<leftarrow> (case r_data r of Some (Read_data op) \<Rightarrow> Some op | _ \<Rightarrow> None);
     let (success, att_ecode, val) =
       (if opcode = BT_ATT_OP_ERROR_RSP then (False, process_error pdu, None)
        else if opcode \<noteq> BT_ATT_OP_READ_RSP then (False, 0, None)
        else (True, 0, if pdu_len pdu \<noteq> 0 then pdu else None));
     Some (c, call_user (ro_callback op) (\<lambda>f. Gc_read_callback f success att_ecode val (pdu_len pdu) (ro_user_data op))) }"

definition bt_gatt_client_read_value ::
    "gc_env \<Rightarrow> 'd gatt_client \<Rightarrow> u16 \<Rightarrow> 'd option \<Rightarrow> 'd option \<Rightarrow> 'd option
       \<Rightarrow> (u32 \<times> 'd gatt_client \<times> 'd gc_event list) option" where
  "bt_gatt_client_read_value env c value_handle callback user_data destroy =
     (case create_request c (Some (Read_data \<lparr>ro_callback = callback, ro_user_data = user_data, ro_destroy = destroy\<rparr>))
             (Some Destroy_read_op) of
        None \<Rightarrow> Some (0, c, [])
      | Some (p, c) \<Rightarrow>
          send_request env c p BT_ATT_OP_READ_REQ (put_le16 value_handle) (Some Read_cb) (Some Request_unref))"

definition read_multiple_cb :: "'d gatt_client \<Rightarrow> ptr \<Rightarrow> u8 \<Rightarrow> bytes option \<Rightarrow> 'd gc_result" where
  "read_multiple_cb c p opcode pdu = do {
     r \<leftarrow> gc_reqs c p;
     op \<leftarrow> (case r_data r of Some (Read_data op) \<Rightarrow> Some op | _ \<Rightarrow> None);
     let (success, att_ecode, pdu) =
       (if opcode \<noteq> BT_ATT_OP_READ_MULT_RSP
        then (False, if opcode = BT_ATT_OP_ERROR_RSP then process_error pdu else 0, None)
        else (True, 0, pdu));
     Some (c, call_user (ro_callback op) (\<lambda>f. Gc_read_callback f success att_ecode pdu (pdu_len pdu) (ro_user_data op))) }"

text \<open>\<open>handles\<close> is the array, which holds at least \<open>num_handles\<close> entries; a read behind its end is a fault.\<close>

definition bt_gatt_client_read_multiple ::
    "gc_env \<Rightarrow> 'd gatt_client \<Rightarrow> u16 list \<Rightarrow> u8 \<Rightarrow> 'd option \<Rightarrow> 'd option \<Rightarrow> 'd option
       \<Rightarrow> (u32 \<times> 'd gatt_client \<times> 'd gc_event list) option" where
  "bt_gatt_client_read_multiple env c handles num_handles callback user_data destroy =
     (if num_handles < 2 then Some (0, c, [])
      else if uint num_handles * 2 > client_mtu c - 1 then Some (0, c, [])
      else case create_request c (Some (Read_data \<lparr>ro_callback = callback, ro_user_data = user_data, ro_destroy = destroy\<rparr>))
                  (Some Destroy_read_op) of
        None \<Rightarrow> Some (0, c, [])
      | Some (p, c) \<Rightarrow>
          if length handles < unat num_handles then None
          else send_request env c p BT_ATT_OP_READ_MULT_REQ (concat (map put_le16 (take (unat num_handles) handles)))
                 (Some Read_multiple_cb) (Some Request_unref))"

text \<open>
  \<open>append_chunk\<close>: the outer \<open>None\<close> is a copy of more bytes than the response has, \<open>Some None\<close> the result
  \<^verbatim>\<open>false\<close>.  The length is 16 bits wide: with an offset above the maximum it wraps.
\<close>

definition append_chunk :: "gc_env \<Rightarrow> 'd read_long_op \<Rightarrow> bytes \<Rightarrow> u16 \<Rightarrow> 'd read_long_op option option" where
  "append_chunk env op data len =
     (let len = (if unat (rl_offset op) + unat len > BT_ATT_MAX_VALUE_LEN
                 then of_nat BT_ATT_MAX_VALUE_LEN - rl_offset op else len)
      in if \<not> e_mem env then Some None
         else if length data < unat len then None
         else Some (Some (op\<lparr>rl_iov := Some ((case rl_iov op of None \<Rightarrow> [] | Some b \<Rightarrow> b) @ take (unat len) data),
                             rl_offset := rl_offset op + len\<rparr>)))"

definition set_data :: "'d gatt_client \<Rightarrow> ptr \<Rightarrow> 'd req_data \<Rightarrow> 'd gatt_client option" where
  "set_data c p d = do { r \<leftarrow> gc_reqs c p; Some (put_request c p (r\<lparr>r_data := Some d\<rparr>)) }"

text \<open>
  A further ATT request of a request, which takes a reference: \<open>False\<close> when it was not sent and the
  reference was given up again.
\<close>

definition resend_request ::
    "gc_env \<Rightarrow> 'd gatt_client \<Rightarrow> ptr \<Rightarrow> u8 \<Rightarrow> bytes \<Rightarrow> gfn \<Rightarrow> (bool \<times> 'd gatt_client \<times> 'd gc_event list) option" where
  "resend_request env c p opcode pdu callback = do {
     c \<leftarrow> request_ref c p;
     (i, c) \<leftarrow> client_send env c opcode pdu (Some callback) (Some (Request_ptr p)) (Some Request_unref);
     r \<leftarrow> gc_reqs c p;
     let c = put_request c p (r\<lparr>r_att_id := i\<rparr>);
     if i \<noteq> 0 then Some (True, c, [])
     else do { (c, es) \<leftarrow> request_unref c p; Some (False, c, es) } }"

definition read_long_done :: "'d gatt_client \<Rightarrow> 'd read_long_op \<Rightarrow> bool \<Rightarrow> u8 \<Rightarrow> 'd gc_result" where
  "read_long_done c op success att_ecode =
     Some (c, call_user (rl_callback op)
       (\<lambda>f. Gc_read_callback f success att_ecode (rl_iov op) (pdu_len (rl_iov op)) (rl_user_data op)))"

definition read_long_cb :: "gc_env \<Rightarrow> 'd gatt_client \<Rightarrow> ptr \<Rightarrow> u8 \<Rightarrow> bytes option \<Rightarrow> 'd gc_result" where
  "read_long_cb env c p opcode pdu = do {
     r \<leftarrow> gc_reqs c p;
     op \<leftarrow> (case r_data r of Some (Read_long_data op) \<Rightarrow> Some op | _ \<Rightarrow> None);
     if opcode = BT_ATT_OP_ERROR_RSP then read_long_done c op False (process_error pdu)
     else if rl_offset op = 0 \<and> opcode \<noteq> BT_ATT_OP_READ_RSP \<or> rl_offset op \<noteq> 0 \<and> opcode \<noteq> BT_ATT_OP_READ_BLOB_RSP
     then read_long_done c op False 0
     else if pdu_len pdu = 0 then read_long_done c op True 0
     else do {
       b \<leftarrow> pdu;
       x \<leftarrow> append_chunk env op b (pdu_len pdu);
       case x of
         None \<Rightarrow> read_long_done c op False 0
       | Some op \<Rightarrow> do {
           c \<leftarrow> set_data c p (Read_long_data op);
           if BT_ATT_MAX_VALUE_LEN \<le> unat (rl_offset op) then read_long_done c op True 0
           else if uint (pdu_len pdu) \<ge> client_mtu c - 1
           then do {
             (sent, c, es) \<leftarrow> resend_request env c p BT_ATT_OP_READ_BLOB_REQ
                                (put_le16 (rl_value_handle op) @ put_le16 (rl_offset op)) Read_long_cb;
             if sent then Some (c, es)
             else do { (c, es') \<leftarrow> read_long_done c op False 0; Some (c, es @ es') } }
           else read_long_done c op True 0 } } }"

definition bt_gatt_client_read_long_value ::
    "gc_env \<Rightarrow> 'd gatt_client \<Rightarrow> u16 \<Rightarrow> u16 \<Rightarrow> 'd option \<Rightarrow> 'd option \<Rightarrow> 'd option
       \<Rightarrow> (u32 \<times> 'd gatt_client \<times> 'd gc_event list) option" where
  "bt_gatt_client_read_long_value env c value_handle offset callback user_data destroy =
     (case create_request c (Some (Read_long_data
             \<lparr>rl_value_handle = value_handle, rl_offset = offset, rl_iov = None, rl_callback = callback,
              rl_user_data = user_data, rl_destroy = destroy\<rparr>)) (Some Destroy_read_long_op) of
        None \<Rightarrow> Some (0, c, [])
      | Some (p, c) \<Rightarrow>
          if offset \<noteq> 0
          then send_request env c p BT_ATT_OP_READ_BLOB_REQ (put_le16 value_handle @ put_le16 offset)
                 (Some Read_long_cb) (Some Request_unref)
          else send_request env c p BT_ATT_OP_READ_REQ (put_le16 value_handle) (Some Read_long_cb) (Some Request_unref))"

section \<open>Writes\<close>

definition bt_gatt_client_write_without_response ::
    "gc_env \<Rightarrow> 'd gatt_client \<Rightarrow> u16 \<Rightarrow> bool \<Rightarrow> bytes option \<Rightarrow> u16 \<Rightarrow> (u32 \<times> 'd gatt_client \<times> 'd gc_event list) option" where
  "bt_gatt_client_write_without_response env c value_handle signed_write val len =
     (case create_request c None None of
        None \<Rightarrow> Some (0, c, [])
      | Some (p, c) \<Rightarrow> do {
          let op = (if signed_write
                    then if bt_att_get_security env (client_att c) > BT_ATT_SECURITY_LOW then BT_ATT_OP_WRITE_CMD
                         else BT_ATT_OP_SIGNED_WRITE_CMD
                    else BT_ATT_OP_WRITE_CMD);
          v \<leftarrow> src_bytes val len;
          send_request env c p op (put_le16 value_handle @ v) None (Some Request_unref) })"

definition write_cb :: "'d gatt_client \<Rightarrow> ptr \<Rightarrow> u8 \<Rightarrow> bytes option \<Rightarrow> 'd gc_result" where
  "write_cb c p opcode pdu = do {
     r \<leftarrow> gc_reqs c p;
     op \<leftarrow> (case r_data r of Some (Write_data op) \<Rightarrow> Some op | _ \<Rightarrow> None);
     let (success, att_ecode) =
       (if opcode = BT_ATT_OP_ERROR_RSP then (False, process_error pdu)
        else (opcode = BT_ATT_OP_WRITE_RSP \<and> pdu = None, 0));
     Some (c, call_user (wo_callback op) (\<lambda>f. Gc_callback f success att_ecode (wo_user_data op))) }"

definition bt_gatt_client_write_value ::
    "gc_env \<Rightarrow> 'd gatt_client \<Rightarrow> u16 \<Rightarrow> bytes option \<Rightarrow> u16 \<Rightarrow> 'd option \<Rightarrow> 'd option \<Rightarrow> 'd option
       \<Rightarrow> (u32 \<times> 'd gatt_client \<times> 'd gc_event list) option" where
  "bt_gatt_client_write_value env c value_handle val len callback user_data destroy =
     (case create_request c (Some (Write_data \<lparr>wo_callback = callback, wo_user_data = user_data, wo_destroy = destroy\<rparr>))
             (Some Destroy_write_op) of
        None \<Rightarrow> Some (0, c, [])
      | Some (p, c) \<Rightarrow> do {
          v \<leftarrow> src_bytes val len;
          send_request env c p BT_ATT_OP_WRITE_REQ (put_le16 value_handle @ v) (Some Write_cb) (Some Request_unref) })"

section \<open>Long writes\<close>

text \<open>The bytes of the value from \<open>i\<close> on, as many as \<open>n\<close>; outside the value there is nothing to read.\<close>

definition value_chunk :: "bytes \<Rightarrow> u16 \<Rightarrow> u16 \<Rightarrow> bytes option" where
  "value_chunk v i n = (if unat i + unat n \<le> length v then Some (take (unat n) (drop (unat i) v)) else None)"

definition long_write_of :: "'d gatt_client \<Rightarrow> ptr \<Rightarrow> 'd long_write_op option" where
  "long_write_of c p = do {
     r \<leftarrow> gc_reqs c p; case r_data r of Some (Long_write_data op) \<Rightarrow> Some op | _ \<Rightarrow> None }"

text \<open>
  \<open>complete_write_long_op\<close>, \<open>handle_next_prep_write\<close> and \<open>start_next_long_write\<close> call each other.  The
  first two are split where they would call \<open>start_next_long_write\<close>, which is the last thing they do:
  the boolean of \<open>complete_attempt\<close> and \<open>prep_write_attempt\<close> says that this call is due, because
  the request to execute the write was not sent either.
\<close>

definition complete_attempt ::
    "gc_env \<Rightarrow> 'd gatt_client \<Rightarrow> ptr \<Rightarrow> bool \<Rightarrow> u8 \<Rightarrow> bool \<Rightarrow> (bool \<times> 'd gatt_client \<times> 'd gc_event list) option" where
  "complete_attempt env c p success att_ecode reliable_error = do {
     op \<leftarrow> long_write_of c p;
     c \<leftarrow> set_data c p (Long_write_data
            (op\<lparr>lw_success := success, lw_att_ecode := att_ecode, lw_reliable_error := reliable_error\<rparr>));
     (sent, c, es) \<leftarrow> resend_request env c p BT_ATT_OP_EXEC_WRITE_REQ [if success then 0x01 else 0x00] Execute_write_cb;
     if sent then Some (False, c, es)
     else Some (True, c, es @ call_user (lw_callback op)
                  (\<lambda>f. Gc_write_long_callback f False reliable_error att_ecode (lw_user_data op))) }"

definition prep_write_attempt :: "gc_env \<Rightarrow> 'd gatt_client \<Rightarrow> ptr \<Rightarrow> (bool \<times> 'd gatt_client \<times> 'd gc_event list) option" where
  "prep_write_attempt env c p = do {
     op \<leftarrow> long_write_of c p;
     if \<not> e_mem env then complete_attempt env c p False 0 False
     else do {
       v \<leftarrow> value_chunk (lw_value op) (lw_index op) (lw_cur_length op);
       (sent, c, es) \<leftarrow> resend_request env c p BT_ATT_OP_PREP_WRITE_REQ
                          (put_le16 (lw_value_handle op) @ put_le16 (lw_offset op + lw_index op) @ v) Prepare_write_cb;
       if sent then Some (False, c, es)
       else do { (next, c, es') \<leftarrow> complete_attempt env c p False 0 False; Some (next, c, es @ es') } } }"

definition pop_long_write :: "'d gatt_client \<Rightarrow> 'd gatt_client" where
  "pop_long_write c = c\<lparr>gc_long_write_queue := tl (gc_long_write_queue c)\<rparr>"

lemma client_send_queue:
  "client_send env c opcode pdu f u d = Some (i, c') \<Longrightarrow> gc_long_write_queue c' = gc_long_write_queue c"
  by (auto simp: client_send_def set_att_def bind_eq_Some_conv split: option.splits)

lemma request_queue:
  "request_ref c p = Some c1 \<Longrightarrow> gc_long_write_queue c1 = gc_long_write_queue c"
  "request_unref c p = Some (c2, es) \<Longrightarrow> gc_long_write_queue c2 = gc_long_write_queue c"
  "set_data c p d = Some c3 \<Longrightarrow> gc_long_write_queue c3 = gc_long_write_queue c"
  by (auto simp: request_ref_def request_unref_def set_data_def put_request_def bind_eq_Some_conv Let_def split: if_splits)

lemma resend_queue:
  "resend_request env c p opcode pdu f = Some (b, c', es) \<Longrightarrow> gc_long_write_queue c' = gc_long_write_queue c"
  by (auto simp: resend_request_def put_request_def bind_eq_Some_conv request_queue Let_def split: if_splits
      dest!: client_send_queue request_queue(1,2))

lemma complete_attempt_queue:
  "complete_attempt env c p s a r = Some (b, c', es) \<Longrightarrow> gc_long_write_queue c' = gc_long_write_queue c"
  by (auto simp: complete_attempt_def bind_eq_Some_conv split: if_splits dest!: resend_queue request_queue(3))

lemma prep_write_attempt_queue:
  "prep_write_attempt env c p = Some (b, c', es) \<Longrightarrow> gc_long_write_queue c' = gc_long_write_queue c"
  by (auto simp: prep_write_attempt_def bind_eq_Some_conv split: if_splits
      dest!: resend_queue complete_attempt_queue)

function start_next_long_write :: "gc_env \<Rightarrow> 'd gatt_client \<Rightarrow> 'd gc_result" where
  "start_next_long_write env c =
     (case gc_long_write_queue c of
        [] \<Rightarrow> Some (c\<lparr>gc_in_long_write := False\<rparr>, [])
      | p # _ \<Rightarrow> do {
          (next, c, e1) \<leftarrow> prep_write_attempt env (pop_long_write c) p;
          (c, e2) \<leftarrow> (if next then start_next_long_write env c else Some (c, []));
          (c, e3) \<leftarrow> request_unref c p;
          Some (c, e1 @ e2 @ e3) })"
  by pat_completeness auto
termination
  by (relation "measure (\<lambda>(env, c). length (gc_long_write_queue c))")
    (auto simp: pop_long_write_def dest!: prep_write_attempt_queue)

declare start_next_long_write.simps [simp del]

definition complete_write_long_op :: "gc_env \<Rightarrow> 'd gatt_client \<Rightarrow> ptr \<Rightarrow> bool \<Rightarrow> u8 \<Rightarrow> bool \<Rightarrow> 'd gc_result" where
  "complete_write_long_op env c p success att_ecode reliable_error = do {
     (next, c, es) \<leftarrow> complete_attempt env c p success att_ecode reliable_error;
     (c, es') \<leftarrow> (if next then start_next_long_write env c else Some (c, []));
     Some (c, es @ es') }"

definition handle_next_prep_write :: "gc_env \<Rightarrow> 'd gatt_client \<Rightarrow> ptr \<Rightarrow> 'd gc_result" where
  "handle_next_prep_write env c p = do {
     (next, c, es) \<leftarrow> prep_write_attempt env c p;
     (c, es') \<leftarrow> (if next then start_next_long_write env c else Some (c, []));
     Some (c, es @ es') }"

definition execute_write_cb :: "gc_env \<Rightarrow> 'd gatt_client \<Rightarrow> ptr \<Rightarrow> u8 \<Rightarrow> bytes option \<Rightarrow> 'd gc_result" where
  "execute_write_cb env c p opcode pdu = do {
     op \<leftarrow> long_write_of c p;
     let (success, att_ecode) =
       (if opcode = BT_ATT_OP_ERROR_RSP then (False, process_error pdu)
        else (lw_success op \<and> opcode = BT_ATT_OP_EXEC_WRITE_RSP \<and> pdu = None, lw_att_ecode op));
     (c, es) \<leftarrow> start_next_long_write env c;
     Some (c, call_user (lw_callback op)
                (\<lambda>f. Gc_write_long_callback f success (lw_reliable_error op) att_ecode (lw_user_data op)) @ es) }"

text \<open>The response of a reliable write repeats the request.\<close>

definition reliable_match :: "'d long_write_op \<Rightarrow> bytes option \<Rightarrow> bool option" where
  "reliable_match op pdu =
     (case pdu of None \<Rightarrow> Some False
      | Some b \<Rightarrow>
          if length b \<noteq> unat (lw_cur_length op) + 4 then Some False
          else if get_le16 b \<noteq> lw_value_handle op \<or> unat (get_le16 (drop 2 b)) \<noteq> unat (lw_offset op) + unat (lw_index op)
          then Some False
          else do { v \<leftarrow> value_chunk (lw_value op) (lw_index op) (lw_cur_length op); Some (drop 4 b = v) })"

definition prepare_write_cb :: "gc_env \<Rightarrow> 'd gatt_client \<Rightarrow> ptr \<Rightarrow> u8 \<Rightarrow> bytes option \<Rightarrow> 'd gc_result" where
  "prepare_write_cb env c p opcode pdu = do {
     op \<leftarrow> long_write_of c p;
     if opcode = BT_ATT_OP_ERROR_RSP then complete_write_long_op env c p False (process_error pdu) False
     else if opcode \<noteq> BT_ATT_OP_PREP_WRITE_RSP then complete_write_long_op env c p False 0 False
     else do {
       ok \<leftarrow> (if lw_reliable op then reliable_match op pdu else Some True);
       if \<not> ok then complete_write_long_op env c p False 0 True
       else do {
         let next_index = lw_index op + lw_cur_length op;
         if next_index = lw_length op then complete_write_long_op env c p True 0 False
         else if uint (lw_cur_length op) \<ge> client_mtu c - 5
         then do {
           c \<leftarrow> set_data c p (Long_write_data (op\<lparr>lw_index := next_index,
                  lw_cur_length := word_of_int (min (uint (lw_length op) - uint next_index) (client_mtu c - 5))\<rparr>));
           handle_next_prep_write env c p }
         else complete_write_long_op env c p True 0 False } } }"

text \<open>The allocations of the value and of the first PDU succeed or fail together.\<close>

definition bt_gatt_client_write_long_value ::
    "gc_env \<Rightarrow> 'd gatt_client \<Rightarrow> bool \<Rightarrow> u16 \<Rightarrow> u16 \<Rightarrow> bytes option \<Rightarrow> u16 \<Rightarrow> 'd option \<Rightarrow> 'd option \<Rightarrow> 'd option
       \<Rightarrow> (u32 \<times> 'd gatt_client \<times> 'd gc_event list) option" where
  "bt_gatt_client_write_long_value env c reliable value_handle offset val len callback user_data destroy =
     (if unat len + unat offset > 0xffff then Some (0, c, [])
      else if len = 0 \<or> val = None then Some (0, c, [])
      else if \<not> e_mem env then Some (0, c, [])
      else case request_create c of
        None \<Rightarrow> Some (0, c, [])
      | Some (p, c) \<Rightarrow> do {
          v \<leftarrow> src_bytes val len;
          let op = \<lparr>lw_reliable = reliable, lw_success = False, lw_att_ecode = 0, lw_reliable_error = False,
                     lw_value_handle = value_handle, lw_value = v, lw_length = len, lw_offset = offset, lw_index = 0,
                     lw_cur_length = word_of_int (min (uint len) (client_mtu c - 5)),
                     lw_callback = callback, lw_user_data = user_data, lw_destroy = destroy\<rparr>;
          r \<leftarrow> gc_reqs c p;
          let c = put_request c p (r\<lparr>r_data := Some (Long_write_data op), r_destroy := Some Long_write_op_free,
                                     r_long_write := True\<rparr>);
          if gc_in_long_write c \<or> gc_session_id c > 0
          then Some (r_id r, c\<lparr>gc_long_write_queue := gc_long_write_queue c @ [p]\<rparr>, [])
          else do {
            b \<leftarrow> value_chunk v 0 (lw_cur_length op);
            (i, c, es) \<leftarrow> send_request env c p BT_ATT_OP_PREP_WRITE_REQ (put_le16 value_handle @ put_le16 offset @ b)
                            (Some Prepare_write_cb) (Some Request_unref);
            Some (i, if i = 0 then c else c\<lparr>gc_in_long_write := True\<rparr>, es) } })"

section \<open>Reliable write sessions\<close>

definition prep_write_cb :: "'d gatt_client \<Rightarrow> ptr \<Rightarrow> u8 \<Rightarrow> bytes option \<Rightarrow> 'd gc_result" where
  "prep_write_cb c p opcode pdu = do {
     r \<leftarrow> gc_reqs c p;
     op \<leftarrow> (case r_data r of Some (Prep_write_data op) \<Rightarrow> Some op | _ \<Rightarrow> None);
     let (success, reliable_error, att_ecode) =
       (if opcode = BT_ATT_OP_ERROR_RSP then (False, False, process_error pdu)
        else if opcode \<noteq> BT_ATT_OP_PREP_WRITE_RSP then (False, False, 0)
        else if pdu \<noteq> Some (pw_pdu op) then (False, True, 0)
        else (True, False, 0));
     Some (c, call_user (pw_callback op)
                (\<lambda>f. Gc_write_long_callback f success reliable_error att_ecode (pw_user_data op))) }"

text \<open>The request of the session, or a new one; the data of an earlier prepare write is replaced.\<close>

definition get_reliable_request :: "'d gatt_client \<Rightarrow> u32 \<Rightarrow> (ptr \<times> 'd gatt_client) option" where
  "get_reliable_request c i = do {
     (p, c) \<leftarrow> (if i \<noteq> 0 then do { p \<leftarrow> find (match_req_id c i) (gc_pending_requests c); Some (p, c) }
                else request_create c);
     c \<leftarrow> set_data c p (Prep_write_data \<lparr>pw_callback = None, pw_user_data = None, pw_destroy = None, pw_pdu = []\<rparr>);
     Some (p, c) }"

text \<open>
  The stored PDU has the length \<open>length + 4\<close> cut to 16 bits; the send has the whole size, which the engine
  cuts to 16 bits as well.
\<close>

definition bt_gatt_client_prepare_write ::
    "gc_env \<Rightarrow> 'd gatt_client \<Rightarrow> u32 \<Rightarrow> u16 \<Rightarrow> u16 \<Rightarrow> bytes option \<Rightarrow> u16 \<Rightarrow> 'd option \<Rightarrow> 'd option \<Rightarrow> 'd option
       \<Rightarrow> (u32 \<times> 'd gatt_client \<times> 'd gc_event list) option" where
  "bt_gatt_client_prepare_write env c i value_handle offset val len callback user_data destroy =
     (if gc_in_long_write c then Some (0, c, [])
      else if i \<noteq> gc_session_id c then Some (0, c, [])
      else case get_reliable_request c i of
        None \<Rightarrow> Some (0, c, [])
      | Some (p, c) \<Rightarrow> do {
          v \<leftarrow> src_bytes val len;
          let pdu = put_le16 value_handle @ put_le16 offset @ v;
          r \<leftarrow> gc_reqs c p;
          let op = \<lparr>pw_callback = callback, pw_user_data = user_data, pw_destroy = destroy, pw_pdu = take (unat (len + 4)) pdu\<rparr>;
          let c = put_request c p (r\<lparr>r_data := Some (Prep_write_data op), r_destroy := Some Destroy_prep_write_op,
                                     r_prep_write := True\<rparr>);
          (j, c, es) \<leftarrow> (if \<not> e_mem env
                          then do { c \<leftarrow> set_data c p (no_destroy (Prep_write_data op));
                                    (c, es) \<leftarrow> request_unref c p; Some (0, c, es) }
                          else send_request env c p BT_ATT_OP_PREP_WRITE_REQ pdu (Some Prep_write_cb) None);
          if j = 0 then Some (0, c, es)
          else let s = (if gc_session_id c = 0 then r_id r else gc_session_id c)
            in Some (s, c\<lparr>gc_session_id := s\<rparr>, es) })"

definition exec_write_cb :: "gc_env \<Rightarrow> 'd gatt_client \<Rightarrow> ptr \<Rightarrow> u8 \<Rightarrow> bytes option \<Rightarrow> 'd gc_result" where
  "exec_write_cb env c p opcode pdu = do {
     r \<leftarrow> gc_reqs c p;
     op \<leftarrow> (case r_data r of Some (Write_data op) \<Rightarrow> Some op | _ \<Rightarrow> None);
     let (success, att_ecode) =
       (if opcode = BT_ATT_OP_ERROR_RSP then (False, process_error pdu)
        else (opcode = BT_ATT_OP_EXEC_WRITE_RSP \<and> pdu = None, 0));
     (c, es) \<leftarrow> start_next_long_write env (c\<lparr>gc_session_id := 0\<rparr>);
     Some (c, call_user (wo_callback op) (\<lambda>f. Gc_callback f success att_ecode (wo_user_data op)) @ es) }"

definition bt_gatt_client_write_execute ::
    "gc_env \<Rightarrow> 'd gatt_client \<Rightarrow> u32 \<Rightarrow> 'd option \<Rightarrow> 'd option \<Rightarrow> 'd option
       \<Rightarrow> (u32 \<times> 'd gatt_client \<times> 'd gc_event list) option" where
  "bt_gatt_client_write_execute env c i callback user_data destroy =
     (if gc_in_long_write c then Some (0, c, [])
      else if gc_session_id c \<noteq> i then Some (0, c, [])
      else case find (match_req_id c i) (gc_pending_requests c) of
        None \<Rightarrow> Some (0, c, [])
      | Some p \<Rightarrow> do {
          r \<leftarrow> gc_reqs c p;
          let op = \<lparr>wo_callback = callback, wo_user_data = user_data, wo_destroy = destroy\<rparr>;
          (j, c, es) \<leftarrow> send_request env (put_request c p (r\<lparr>r_data := Some (Write_data op), r_destroy := Some Destroy_write_op\<rparr>))
                          p BT_ATT_OP_EXEC_WRITE_REQ [0x01] (Some Exec_write_cb) (Some Request_unref);
          Some (if j = 0 then 0 else i, c, es) })"

end
