(* ===== verification/Gatt_Client_Notify.thy ===== *)
theory Gatt_Client_Notify
  imports Gatt_Client
begin

text \<open>
  The second half of \<^verbatim>\<open>src/shared/gatt-client.c\<close>: registration for notifications and indications, with
  the writes to the client characteristic configuration (CCC) descriptor of the peer that turn them
  on and off, the delivery of notifications, and the dispatch of the calls of the ATT engine.  An
  assertion that fails ends the program, which is the result \<open>None\<close> too.
\<close>

definition GATT_CLIENT_CHARAC_CFG_UUID :: u16 where "GATT_CLIENT_CHARAC_CFG_UUID = 0x2902"

definition BT_GATT_CHRC_PROP_NOTIFY :: u16 where "BT_GATT_CHRC_PROP_NOTIFY = 0x10"

definition BT_GATT_CHRC_PROP_INDICATE :: u16 where "BT_GATT_CHRC_PROP_INDICATE = 0x20"

definition INT_MAX :: int where "INT_MAX = 2 ^ 31 - 1"

section \<open>Characteristics with registrations\<close>

primrec find_ccc :: "gfn gatt_db \<Rightarrow> attr_ptr option \<Rightarrow> attr_ptr list \<Rightarrow> attr_ptr option option" where
  "find_ccc db ccc [] = Some ccc"
| "find_ccc db ccc (attr # attrs) =
     (if ccc \<noteq> None then find_ccc db ccc attrs
      else do {
        a \<leftarrow> db_attr db attr;
        find_ccc db (if uuid_eq (BT_UUID16 GATT_CLIENT_CHARAC_CFG_UUID) (a_uuid a) then Some attr else None) attrs })"

text \<open>\<^verbatim>\<open>gatt_db_attribute_get_char_data\<close> of which only the properties are wanted.\<close>

definition char_properties :: "gfn gatt_db_attribute \<Rightarrow> u8 option" where
  "char_properties a =
     (if \<not> uuid_eq characteristic_uuid (a_uuid a) then None
      else case a_value a of None \<Rightarrow> None
      | Some v \<Rightarrow> if a_value_len a \<noteq> 5 \<and> a_value_len a \<noteq> 19 then None else Some (hd v))"

definition put_chrc :: "'d gatt_client \<Rightarrow> ptr \<Rightarrow> notify_chrc \<Rightarrow> 'd gatt_client" where
  "put_chrc c q ch = c\<lparr>gc_chrcs := (gc_chrcs c)(q \<mapsto> ch)\<rparr>"

definition notify_chrc_create :: "'d gatt_client \<Rightarrow> u16 \<Rightarrow> (ptr option \<times> 'd gatt_client) option" where
  "notify_chrc_create c value_handle = do {
     attr \<leftarrow> gatt_db_get_attribute (Some (gc_db c)) (value_handle - 1);
     case attr of
       None \<Rightarrow> Some (None, c)
     | Some p \<Rightarrow> do {
         a \<leftarrow> db_attr (gc_db c) p;
         if \<not> uuid_eq (BT_UUID16 GATT_CHARAC_UUID) (a_uuid a) then Some (None, c)
         else case char_properties a of
           None \<Rightarrow> Some (None, c)
         | Some properties \<Rightarrow> do {
             ds \<leftarrow> gatt_db_service_foreach_desc (gc_db c) attr (Some Find_ccc);
             ccc \<leftarrow> find_ccc (gc_db c) None ds;
             ccc_handle \<leftarrow> gatt_db_attribute_get_handle (gc_db c) ccc;
             let q = gc_next c;
             Some (Some q, (put_chrc c q
               \<lparr>nc_value_handle = value_handle, nc_ccc_handle = ccc_handle, nc_properties = ucast properties,
                nc_notify_count = 0, nc_reg_notify_queue = [], nc_ccc_write_id = 0\<rparr>)
               \<lparr>gc_next := q + 1, gc_notify_chrcs := gc_notify_chrcs c @ [q]\<rparr>) } } }"

section \<open>Writes to the CCC descriptor\<close>

definition complete_notify_request :: "'d gatt_client \<Rightarrow> ptr \<Rightarrow> 'd gc_result" where
  "complete_notify_request c p = do {
     n \<leftarrow> gc_notify_data c p;
     Some (put_notify_data c p (n\<lparr>nd_att_id := 0\<rparr>),
           call_user (nd_callback n) (\<lambda>f. Gc_register_callback f 0 (nd_user_data n))) }"

primrec complete_notify_requests :: "ptr list \<Rightarrow> 'd gatt_client \<Rightarrow> 'd gc_result" where
  "complete_notify_requests [] c = Some (c, [])"
| "complete_notify_requests (p # ps) c = do {
     (c, es) \<leftarrow> complete_notify_request c p;
     (c, es') \<leftarrow> complete_notify_requests ps c;
     Some (c, es @ es') }"

definition ccc_value :: "notify_chrc \<Rightarrow> u8" where
  "ccc_value ch =
     (if nc_properties ch AND BT_GATT_CHRC_PROP_NOTIFY \<noteq> 0 then 0x01 else 0) OR
     (if nc_properties ch AND BT_GATT_CHRC_PROP_INDICATE \<noteq> 0 then 0x02 else 0)"

text \<open>The reference for the operation is taken whether or not it is sent.\<close>

definition notify_data_write_ccc :: "gc_env \<Rightarrow> 'd gatt_client \<Rightarrow> ptr \<Rightarrow> bool \<Rightarrow> gfn \<Rightarrow> (bool \<times> 'd gatt_client) option" where
  "notify_data_write_ccc env c p enable callback = do {
     n \<leftarrow> gc_notify_data c p;
     ch \<leftarrow> gc_chrcs c (nd_chrc n);
     if nc_ccc_handle ch = 0 then None
     else if enable \<and> ccc_value ch = 0 then Some (False, c)
     else do {
       c \<leftarrow> notify_data_ref c p;
       (i, c) \<leftarrow> client_send env c BT_ATT_OP_WRITE_REQ
                   (put_le16 (nc_ccc_handle ch) @ [if enable then ccc_value ch else 0, 0])
                   (Some callback) (Some (Notify_ptr p)) (Some Notify_data_unref);
       n \<leftarrow> gc_notify_data c p;
       Some (i \<noteq> 0, put_chrc (put_notify_data c p (n\<lparr>nd_att_id := i\<rparr>)) (nd_chrc n) (ch\<lparr>nc_ccc_write_id := i\<rparr>)) } }"

text \<open>
  The loops over the registrations that wait: the entry is taken from the queue of the characteristic \<open>q\<close>,
  then the write is tried; the loop ends with the first that is sent.
\<close>

definition set_reg_queue :: "'d gatt_client \<Rightarrow> ptr \<Rightarrow> ptr list \<Rightarrow> 'd gatt_client option" where
  "set_reg_queue c q ps = do { ch \<leftarrow> gc_chrcs c q; Some (put_chrc c q (ch\<lparr>nc_reg_notify_queue := ps\<rparr>)) }"

primrec enable_next :: "gc_env \<Rightarrow> ptr \<Rightarrow> ptr list \<Rightarrow> 'd gatt_client \<Rightarrow> 'd gatt_client option" where
  "enable_next env q [] c = Some c"
| "enable_next env q (p # ps) c = do {
     c \<leftarrow> set_reg_queue c q ps;
     (ok, c) \<leftarrow> notify_data_write_ccc env c p True Enable_ccc_callback;
     if ok then Some c else enable_next env q ps c }"

primrec disable_next :: "gc_env \<Rightarrow> ptr \<Rightarrow> ptr \<Rightarrow> ptr list \<Rightarrow> 'd gatt_client \<Rightarrow> 'd gatt_client option" where
  "disable_next env notify_data q [] c = Some c"
| "disable_next env notify_data q (next_data # ps) c = do {
     c \<leftarrow> set_reg_queue c q ps;
     (ok, c) \<leftarrow> notify_data_write_ccc env c notify_data True Enable_ccc_callback;
     if ok then Some c else disable_next env notify_data q ps c }"

text \<open>On an error the callback is called without a test for \<^verbatim>\<open>NULL\<close>.\<close>

definition enable_ccc_callback :: "gc_env \<Rightarrow> 'd gatt_client \<Rightarrow> ptr \<Rightarrow> u8 \<Rightarrow> bytes option \<Rightarrow> 'd gc_result" where
  "enable_ccc_callback env c p opcode pdu = do {
     n \<leftarrow> gc_notify_data c p;
     let q = nd_chrc n;
     ch \<leftarrow> gc_chrcs c q;
     if nc_ccc_write_id ch = 0 then None
     else do {
       let c = put_chrc c q (ch\<lparr>nc_ccc_write_id := 0\<rparr>);
       if opcode = BT_ATT_OP_ERROR_RSP
       then do {
         let c = c\<lparr>gc_notify_list := remove1 p (gc_notify_list c)\<rparr>;
         f \<leftarrow> nd_callback n;
         c \<leftarrow> enable_next env q (nc_reg_notify_queue ch) c;
         Some (c, [Gc_register_callback f (ucast (process_error pdu)) (nd_user_data n)]) }
       else do {
         (c, es) \<leftarrow> complete_notify_request c p;
         c \<leftarrow> set_reg_queue c q [];
         (c, es') \<leftarrow> complete_notify_requests (nc_reg_notify_queue ch) c;
         Some (c, es @ es') } } }"

definition disable_ccc_callback :: "gc_env \<Rightarrow> 'd gatt_client \<Rightarrow> ptr \<Rightarrow> 'd gc_result" where
  "disable_ccc_callback env c p = do {
     n \<leftarrow> gc_notify_data c p;
     let q = nd_chrc n;
     ch \<leftarrow> gc_chrcs c q;
     if nc_ccc_write_id ch = 0 then None
     else do {
       c \<leftarrow> disable_next env p q (nc_reg_notify_queue ch) (put_chrc c q (ch\<lparr>nc_ccc_write_id := 0\<rparr>));
       Some (c, []) } }"

section \<open>Registration\<close>

definition match_notify_chrc_value_handle :: "'d gatt_client \<Rightarrow> u16 \<Rightarrow> ptr \<Rightarrow> bool" where
  "match_notify_chrc_value_handle c value_handle q =
     (case gc_chrcs c q of None \<Rightarrow> False | Some ch \<Rightarrow> nc_value_handle ch = value_handle)"

definition match_notify_data_id :: "'d gatt_client \<Rightarrow> u32 \<Rightarrow> ptr \<Rightarrow> bool" where
  "match_notify_data_id c i p = (case gc_notify_data c p of None \<Rightarrow> False | Some n \<Rightarrow> nd_id n = i)"

text \<open>\<^verbatim>\<open>client->next_reg_id\<close> is a signed integer.\<close>

definition new_notify_data ::
    "'d gatt_client \<Rightarrow> ptr \<Rightarrow> 'd option \<Rightarrow> 'd option \<Rightarrow> 'd option \<Rightarrow> 'd option \<Rightarrow> ptr \<times> u32 \<times> 'd gatt_client" where
  "new_notify_data c q callback notify user_data destroy =
     (let p = gc_next c;
          i = (if sint (gc_next_reg_id c) < 1 then 1 else gc_next_reg_id c)
      in (p, i, (put_notify_data c p
            \<lparr>nd_id = i, nd_att_id = 0, nd_ref_count = 1, nd_chrc = q, nd_callback = callback, nd_notify = notify,
             nd_user_data = user_data, nd_destroy = destroy\<rparr>)
            \<lparr>gc_next := p + 1, gc_notify_list := gc_notify_list c @ [p], gc_next_reg_id := i + 1\<rparr>))"

definition register_notify ::
    "gc_env \<Rightarrow> 'd gatt_client \<Rightarrow> u16 \<Rightarrow> 'd option \<Rightarrow> 'd option \<Rightarrow> 'd option \<Rightarrow> 'd option
       \<Rightarrow> (u32 \<times> 'd gatt_client \<times> 'd gc_event list) option" where
  "register_notify env c handle callback notify user_data destroy = do {
     (chrc, c) \<leftarrow> (case find (match_notify_chrc_value_handle c handle) (gc_notify_chrcs c) of
                      Some q \<Rightarrow> Some (Some q, c)
                    | None \<Rightarrow> notify_chrc_create c handle);
     case chrc of
       None \<Rightarrow> Some (0, c, [])
     | Some q \<Rightarrow> do {
         ch \<leftarrow> gc_chrcs c q;
         if nc_notify_count ch = INT_MAX then Some (0, c, [])
         else do {
           let (p, i, c) = new_notify_data c q callback notify user_data destroy;
           let ch = ch\<lparr>nc_notify_count := nc_notify_count ch + 1\<rparr>;
           let c = put_chrc c q ch;
           if nc_ccc_write_id ch \<noteq> 0
           then do { c \<leftarrow> set_reg_queue c q (nc_reg_notify_queue ch @ [p]); Some (i, c, []) }
           else if nc_notify_count ch > 1 \<or> nc_ccc_handle ch = 0
           then do { (c, es) \<leftarrow> complete_notify_request c p; Some (i, c, es) }
           else do {
             (ok, c) \<leftarrow> notify_data_write_ccc env c p True Enable_ccc_callback;
             if ok then Some (i, c, [])
             else Some (0, c\<lparr>gc_notify_list := remove1 p (gc_notify_list c),
                            gc_notify_data := (gc_notify_data c)(p := None)\<rparr>, []) } } } }"

definition bt_gatt_client_register_notify ::
    "gc_env \<Rightarrow> 'd gatt_client \<Rightarrow> u16 \<Rightarrow> 'd option \<Rightarrow> 'd option \<Rightarrow> 'd option \<Rightarrow> 'd option
       \<Rightarrow> (u32 \<times> 'd gatt_client \<times> 'd gc_event list) option" where
  "bt_gatt_client_register_notify env c chrc_value_handle callback notify user_data destroy =
     (if chrc_value_handle = 0 \<or> callback = None then Some (0, c, [])
      else if gc_in_svc_chngd c then Some (0, c, [])
      else register_notify env c chrc_value_handle callback notify user_data destroy)"

definition complete_unregister_notify :: "gc_env \<Rightarrow> 'd gatt_client \<Rightarrow> ptr \<Rightarrow> 'd gc_result" where
  "complete_unregister_notify env c p = do {
     n \<leftarrow> gc_notify_data c p;
     (c, es) \<leftarrow>
       (if nd_att_id n \<noteq> 0
        then do {
          (_, c, es) \<leftarrow> client_cancel_op env c (nd_att_id n);
          n \<leftarrow> gc_notify_data c p;
          Some (put_notify_data c p (n\<lparr>nd_att_id := 0\<rparr>), es) }
        else do {
          ch \<leftarrow> gc_chrcs c (nd_chrc n);
          let ch = ch\<lparr>nc_notify_count := nc_notify_count ch - 1\<rparr>;
          let c = put_chrc c (nd_chrc n) ch;
          if nc_notify_count ch \<noteq> 0 \<or> nc_ccc_handle ch = 0 then Some (c, [])
          else do { (_, c) \<leftarrow> notify_data_write_ccc env c p False Disable_ccc_callback; Some (c, []) } });
     (c, es') \<leftarrow> notify_data_unref c p;
     Some (c, es @ es') }"

definition bt_gatt_client_unregister_notify ::
    "gc_env \<Rightarrow> 'd gatt_client \<Rightarrow> u32 \<Rightarrow> (bool \<times> 'd gatt_client \<times> 'd gc_event list) option" where
  "bt_gatt_client_unregister_notify env c i =
     (if i = 0 then Some (False, c, [])
      else case find (match_notify_data_id c i) (gc_notify_list c) of
        None \<Rightarrow> Some (False, c, [])
      | Some p \<Rightarrow> do {
          let c = c\<lparr>gc_notify_list := remove_first (match_notify_data_id c i) (gc_notify_list c)\<rparr>;
          n \<leftarrow> gc_notify_data c p;
          ch \<leftarrow> gc_chrcs c (nd_chrc n);
          c \<leftarrow> set_reg_queue c (nd_chrc n) (remove1 p (nc_reg_notify_queue ch));
          (c, es) \<leftarrow> complete_unregister_notify env (put_notify_data c p (n\<lparr>nd_callback := None, nd_notify := None\<rparr>)) p;
          Some (True, c, es) })"

section \<open>Delivery\<close>

text \<open>
  The handle of a notification that is too short is read from what the receive buffer held before;
  the length is 16 bits wide and wraps.
\<close>

definition notify_handler :: "gc_env \<Rightarrow> 'd gatt_client \<Rightarrow> bytes \<Rightarrow> ptr \<Rightarrow> 'd gc_event list option" where
  "notify_handler env c pdu p = do {
     n \<leftarrow> gc_notify_data c p;
     ch \<leftarrow> gc_chrcs c (nd_chrc n);
     let value_handle = get_le16 (pdu @ map (e_junk env) [length pdu..<2]);
     if nc_value_handle ch \<noteq> value_handle then Some []
     else Some (call_user (nd_notify n) (\<lambda>f. Gc_notify_callback f value_handle
                  (if length pdu > 2 then Some (drop 2 pdu) else None) (of_nat (length pdu) - 2) (nd_user_data n))) }"

primrec notify_handlers :: "gc_env \<Rightarrow> 'd gatt_client \<Rightarrow> bytes \<Rightarrow> ptr list \<Rightarrow> 'd gc_event list option" where
  "notify_handlers env c pdu [] = Some []"
| "notify_handlers env c pdu (p # ps) = do {
     es \<leftarrow> notify_handler env c pdu p; es' \<leftarrow> notify_handlers env c pdu ps; Some (es @ es') }"

definition notify_cb :: "gc_env \<Rightarrow> 'd gatt_client \<Rightarrow> u8 \<Rightarrow> bytes \<Rightarrow> 'd gc_result" where
  "notify_cb env c opcode pdu = do {
     es \<leftarrow> notify_handlers env c pdu (gc_notify_list c);
     (_, c) \<leftarrow> (if opcode = BT_ATT_OP_HANDLE_VAL_IND \<and> \<not> gc_parent c
                then client_send env c BT_ATT_OP_HANDLE_VAL_CONF [] None None None else Some (0, c));
     Some (c, es) }"

section \<open>Dispatch\<close>

definition client_call :: "gc_env \<Rightarrow> 'd gatt_client \<Rightarrow> gfn hfn \<Rightarrow> u8 \<Rightarrow> bytes option \<Rightarrow> gfn hfn option \<Rightarrow> 'd gc_result" where
  "client_call env c f opcode pdu ud =
     (case (f, ud) of
        (Client Read_cb, Some (Client (Request_ptr p))) \<Rightarrow> read_cb c p opcode pdu
      | (Client Read_multiple_cb, Some (Client (Request_ptr p))) \<Rightarrow> read_multiple_cb c p opcode pdu
      | (Client Read_long_cb, Some (Client (Request_ptr p))) \<Rightarrow> read_long_cb env c p opcode pdu
      | (Client Write_cb, Some (Client (Request_ptr p))) \<Rightarrow> write_cb c p opcode pdu
      | (Client Prepare_write_cb, Some (Client (Request_ptr p))) \<Rightarrow> prepare_write_cb env c p opcode pdu
      | (Client Execute_write_cb, Some (Client (Request_ptr p))) \<Rightarrow> execute_write_cb env c p opcode pdu
      | (Client Prep_write_cb, Some (Client (Request_ptr p))) \<Rightarrow> prep_write_cb c p opcode pdu
      | (Client Exec_write_cb, Some (Client (Request_ptr p))) \<Rightarrow> exec_write_cb env c p opcode pdu
      | (Client Cancel_long_write_cb, _) \<Rightarrow> Some (cancel_long_write_cb c, [])
      | (Client Cancel_prep_write_cb, Some (Client (Request_ptr p))) \<Rightarrow>
          do { c \<leftarrow> cancel_prep_write_cb c p; Some (c, []) }
      | (Client Enable_ccc_callback, Some (Client (Notify_ptr p))) \<Rightarrow> enable_ccc_callback env c p opcode pdu
      | (Client Disable_ccc_callback, Some (Client (Notify_ptr p))) \<Rightarrow> disable_ccc_callback env c p
      | (Client _, _) \<Rightarrow> Some (c, [])
      | _ \<Rightarrow> do { (h, es) \<leftarrow> hl_call env (gc_hl c) f opcode pdu ud; Some (c\<lparr>gc_hl := h\<rparr>, map Gc_helper es) })"

definition client_event :: "gc_env \<Rightarrow> 'd gatt_client \<Rightarrow> gfn hfn att_event \<Rightarrow> 'd gc_result" where
  "client_event env c e =
     (case e of
        Att_op_callback i f opcode pdu ud \<Rightarrow> client_call env c f opcode pdu ud
      | Att_op_destroy f ud \<Rightarrow> client_release env c f ud
      | Att_notify_callback (Client Notify_cb) opcode pdu ud \<Rightarrow> notify_cb env c opcode pdu
      | _ \<Rightarrow> Some (c, []))"

primrec client_handle_events :: "gc_env \<Rightarrow> gfn hfn att_event list \<Rightarrow> 'd gatt_client \<Rightarrow> 'd gc_result" where
  "client_handle_events env [] c = Some (c, [])"
| "client_handle_events env (e # es) c = do {
     (c, d) \<leftarrow> client_event env c e;
     (c, ds) \<leftarrow> client_handle_events env es c;
     Some (c, d @ ds) }"

definition client_receive :: "gc_env \<Rightarrow> 'd gatt_client \<Rightarrow> bytes option \<Rightarrow> 'd gc_result" where
  "client_receive env c bs = do {
     (_, t, es) \<leftarrow> can_read_data env (hl_att (gc_hl c)) bs;
     client_handle_events env es (set_att c (Some t)) }"

definition client_writable :: "gc_env \<Rightarrow> 'd gatt_client \<Rightarrow> 'd gc_result" where
  "client_writable env c =
     (case can_write_data env (hl_att (gc_hl c)) of
        (_, t, es) \<Rightarrow> client_handle_events env es (set_att c (Some t)))"

definition client_timeout :: "gc_env \<Rightarrow> 'd gatt_client \<Rightarrow> u32 \<Rightarrow> 'd gc_result" where
  "client_timeout env c i =
     (case timeout_cb (hl_att (gc_hl c)) i of (t, es) \<Rightarrow> client_handle_events env es (set_att c (Some t)))"

end
