(* ===== verification/Gatt_Client_Link.thy ===== *)
theory Gatt_Client_Link
  imports Gatt_Client_Notify Gatt_Discovery Gatt_Server_Access
begin

text \<open>
  The GATT client on a link.  A peer is anything that answers a request PDU with a response PDU; the
  locales say what the client relies on when it reads and writes a value, and the procedures of the
  client are shown to do what they promise with every such peer.  The GATT server with its database
  is one.
\<close>

section \<open>One request of the client\<close>

abbreviation client_op :: "u32 \<Rightarrow> u8 \<Rightarrow> bytes \<Rightarrow> gfn \<Rightarrow> ptr \<Rightarrow> gfn hfn att_send_op" where
  "client_op i opcode pdu cb p \<equiv> queued_op i opcode pdu (Client cb) (Client (Request_ptr p)) (Client Request_unref)"

abbreviation engine :: "'d gatt_client \<Rightarrow> gfn hfn bt_att" where
  "engine c \<equiv> hl_att (gc_hl c)"

definition client_up :: "gc_env \<Rightarrow> 'd gatt_client \<Rightarrow> bool" where
  "client_up env c \<longleftrightarrow> gc_att c \<and> idle_link env (gc_hl c)"

lemma set_att_simps [simp]:
  "engine (set_att c (Some t)) = t" "gc_reqs (set_att c x) = gc_reqs c" "gc_att (set_att c x) = gc_att c"
  "gc_pending_requests (set_att c x) = gc_pending_requests c" "gc_long_write_queue (set_att c x) = gc_long_write_queue c"
  "gc_in_long_write (set_att c x) = gc_in_long_write c" "gc_session_id (set_att c x) = gc_session_id c"
  "set_att (set_att c (Some u)) (Some t) = set_att c (Some t)"
  by (simp_all add: set_att_def split: option.split)

lemma put_request_simps [simp]:
  "gc_reqs (put_request c p r) = (gc_reqs c)(p \<mapsto> r)" "gc_hl (put_request c p r) = gc_hl c" "gc_att (put_request c p r) = gc_att c"
  "gc_pending_requests (put_request c p r) = gc_pending_requests c" "gc_long_write_queue (put_request c p r) = gc_long_write_queue c"
  "gc_in_long_write (put_request c p r) = gc_in_long_write c" "gc_session_id (put_request c p r) = gc_session_id c"
  "put_request (put_request c p r) p r' = put_request c p r'"
  "set_att (put_request c p r) x = put_request (set_att c x) p r"
  by (simp_all add: put_request_def set_att_def split: option.split)

definition enqueued :: "gc_env \<Rightarrow> 'd gatt_client \<Rightarrow> gfn hfn att_send_op \<Rightarrow> 'd gatt_client" where
  "enqueued env c oper = set_att c (Some (wakeup_writer env ((engine c)\<lparr>next_send_id := next_id (engine c) + 1,
     req_queue := req_queue (engine c) @ [oper]\<rparr>)))"

lemma enqueued_simps [simp]:
  "gc_reqs (enqueued env c x) = gc_reqs c" "gc_att (enqueued env c x) = gc_att c"
  "gc_pending_requests (enqueued env c x) = gc_pending_requests c" "gc_long_write_queue (enqueued env c x) = gc_long_write_queue c"
  "gc_in_long_write (enqueued env c x) = gc_in_long_write c" "gc_session_id (enqueued env c x) = gc_session_id c"
  "req_queue (engine (enqueued env c x)) = req_queue (engine c) @ [x]"
  "att_mtu (engine (enqueued env c x)) = att_mtu (engine c)"
  "client_up env (enqueued env c x) = client_up env c"
  "enqueued env (put_request c p r) x = put_request (enqueued env c x) p r"
  by (simp_all add: enqueued_def client_up_def idle_link_def can_send_def wakeup_link)

lemma client_up_put_request [simp]: "client_up env (put_request c p r) = client_up env c"
  by (simp add: client_up_def)

lemma client_send_eval:
  assumes "client_up env c" "req_opcode opcode" "length pdu < unat (att_mtu (engine c))"
  shows "client_send env c opcode pdu (Some cb) (Some ud) (Some d) =
    Some (next_id (engine c), enqueued env c (queued_op (next_id (engine c)) opcode pdu (Client cb) (Client ud) (Client d)))"
  using request_queued [OF assms(2,3), of env] assms(1)
  by (simp add: client_send_def client_att_def client_up_def idle_link_def can_send_def enqueued_def)

lemma read_opcodes [simp]:
  "req_opcode BT_ATT_OP_READ_BLOB_REQ" "req_opcode BT_ATT_OP_PREP_WRITE_REQ" "req_opcode BT_ATT_OP_EXEC_WRITE_REQ"
  "req_opcode BT_ATT_OP_WRITE_REQ"
  by (simp_all add: req_opcode_def opcode_eval ATT_OP_SIGNED_MASK_def BT_ATT_OP_READ_BLOB_REQ_def BT_ATT_OP_PREP_WRITE_REQ_def
      BT_ATT_OP_EXEC_WRITE_REQ_def BT_ATT_OP_WRITE_REQ_def)

lemma resend_eval:
  assumes "client_up env c" "gc_reqs c p = Some r" "req_opcode opcode" "length pdu < unat (att_mtu (engine c))"
  shows "resend_request env c p opcode pdu cb = Some (True,
    put_request (enqueued env c (client_op (next_id (engine c)) opcode pdu cb p)) p
      (r\<lparr>r_ref_count := r_ref_count r + 1, r_att_id := next_id (engine c)\<rparr>), [])"
proof -
  let ?c = "put_request c p (r\<lparr>r_ref_count := r_ref_count r + 1\<rparr>)"
  have "client_up env ?c" "length pdu < unat (att_mtu (engine ?c))" using assms(1,4) by (simp_all add: client_up_def)
  from client_send_eval [OF this(1) assms(3) this(2)] show ?thesis
    using assms(2) by (simp add: resend_request_def request_ref_def)
qed

lemma unref_shared_request:
  assumes "gc_reqs c p = Some r" "r_ref_count r \<noteq> 1"
  shows "request_unref c p = Some (put_request c p (r\<lparr>r_ref_count := r_ref_count r - 1\<rparr>), [])"
  using assms by (simp add: request_unref_def)

section \<open>One round on the link\<close>

text \<open>
  The client sends the PDU at the head of its queue, the peer takes it and answers, and the client
  receives the answer.
\<close>

definition client_round ::
    "gc_env \<Rightarrow> ('s \<Rightarrow> bytes \<Rightarrow> (bytes \<times> 's) option) \<Rightarrow> 'd gatt_client \<times> 's
       \<Rightarrow> (('d gatt_client \<times> 's) \<times> 'd gc_event list) option" where
  "client_round env peer cs =
     (case can_write_data env (engine (fst cs)) of
        (_, t, Att_send_pdu req # _) \<Rightarrow> do {
          (rsp, s) \<leftarrow> peer (snd cs) req;
          (c, es) \<leftarrow> client_receive env (set_att (fst cs) (Some t)) (Some rsp);
          Some ((c, s), es) }
      | _ \<Rightarrow> None)"

primrec client_rounds ::
    "gc_env \<Rightarrow> ('s \<Rightarrow> bytes \<Rightarrow> (bytes \<times> 's) option) \<Rightarrow> nat \<Rightarrow> 'd gatt_client \<times> 's
       \<Rightarrow> (('d gatt_client \<times> 's) \<times> 'd gc_event list) option" where
  "client_rounds env peer 0 cs = Some (cs, [])"
| "client_rounds env peer (Suc n) cs = do {
     (cs, es) \<leftarrow> client_round env peer cs; (cs, es') \<leftarrow> client_rounds env peer n cs; Some (cs, es @ es') }"

text \<open>The client whose only operation was answered.\<close>

definition quiet :: "gc_env \<Rightarrow> 'd gatt_client \<Rightarrow> 'd gatt_client" where
  "quiet env c = set_att c (Some (wakeup_writer env ((engine c)\<lparr>req_queue := [], pending_req := None\<rparr>)))"

lemma quiet_simps [simp]:
  "gc_reqs (quiet env c) = gc_reqs c" "gc_att (quiet env c) = gc_att c"
  "gc_pending_requests (quiet env c) = gc_pending_requests c" "gc_long_write_queue (quiet env c) = gc_long_write_queue c"
  "gc_in_long_write (quiet env c) = gc_in_long_write c" "gc_session_id (quiet env c) = gc_session_id c"
  "req_queue (engine (quiet env c)) = []" "att_mtu (engine (quiet env c)) = att_mtu (engine c)"
  "client_up env c \<Longrightarrow> client_up env (quiet env c)"
  by (simp_all add: quiet_def client_up_def idle_link_def can_send_def wakeup_link)

lemma src_bytes_all: "length b < 65536 \<Longrightarrow> src_bytes (Some b) (of_nat (length b)) = Some b"
  using src_bytes_take [of "length b" b] by simp

lemma client_release_request [simp]:
  "client_release env c (Client Request_unref) (Some (Client (Request_ptr p))) = request_unref c p"
  "client_release env c (Client Notify_data_unref) (Some (Client (Notify_ptr p))) = notify_data_unref c p"
  by (simp_all add: client_release_def)

lemma round_completes:
  assumes "client_up env c" "link_env env" "req_queue (engine c) = [queued_op i opcode pdu (Client cb) (Client ud) (Client d)]" "i \<noteq> 0"
    and "get_op_type opcode = ATT_OP_TYPE_REQ"
    and "peer s (opcode # pdu) = Some (oc # params, s')" "get_op_type oc = ATT_OP_TYPE_RSP" "oc = opcode + 1" "oc \<noteq> BT_ATT_OP_ERROR_RSP"
  shows "client_round env peer (c, s) = do {
    (c, es) \<leftarrow> client_call env (quiet env c) (Client cb) oc (if params = [] then None else Some params) (Some (Client ud));
    (c, es') \<leftarrow> client_release env c (Client d) (Some (Client ud));
    Some ((c, s'), es @ es') }"
proof -
  let ?o = "(queued_op i opcode pdu (Client cb) (Client ud) (Client d))\<lparr>op_timeout_id := e_timeout env\<rparr>"
  let ?t = "(engine c)\<lparr>req_queue := [], pending_req := Some ?o\<rparr>"
  have w: "can_write_data env (engine c) = (True, ?t, [Att_send_pdu (opcode # pdu)])"
    using assms(1-3) by (simp add: client_up_def idle_link_def link_env_def can_write_data_def pick_next_send_op_def queued_op_def leD)
  have wf: "op_wf ?o" "op_type ?o = ATT_OP_TYPE_REQ" using assms(4,5) by (simp_all add: op_wf_def queued_op_def)
  have m: "rsp_matches ?o oc params" using assms(8,9) by (simp add: rsp_matches_def queued_op_def)
  have rt: "\<not> retries env ?t oc params" using assms(9) by (simp add: retries_def)
  have q: "set_att c (Some (wakeup_writer env (?t\<lparr>pending_req := None\<rparr>))) = quiet env c" by (simp add: quiet_def)
  have "handle_rsp env ?t oc params = (wakeup_writer env (?t\<lparr>pending_req := None\<rparr>),
      Att_op_callback i (Client cb) oc (if params = [] then None else Some params) (Some (Client ud)) # destroy_att_send_op ?o)"
    using handle_rsp_final [OF _ wf assms(7) rt] m by (simp add: finish_req_def queued_op_def)
  then have "client_receive env (set_att c (Some ?t)) (Some (oc # params)) = client_handle_events env
      (Att_op_callback i (Client cb) oc (if params = [] then None else Some params) (Some (Client ud)) # destroy_att_send_op ?o)
      (quiet env c)"
    using assms(7) q by (simp add: client_receive_def can_read_data_def)
  then show ?thesis using w assms(6)
    by (auto simp: client_round_def client_event_def destroy_att_send_op_def queued_op_def bind_eq_Some_conv split: Option.bind_split)
qed

lemmas round_answered = round_completes [where ud = "Request_ptr p" and d = Request_unref for p, unfolded client_release_request]

section \<open>Long reads\<close>

text \<open>A client that has read \<open>n\<close> bytes of the value \<open>v\<close> of the handle \<open>h\<close> and asks for the next ones.\<close>

definition long_read_op :: "'d gatt_client \<Rightarrow> ptr \<Rightarrow> 'd read_long_op \<Rightarrow> u16 \<Rightarrow> bytes \<Rightarrow> nat \<Rightarrow> bool" where
  "long_read_op c p op h v n \<longleftrightarrow>
     (\<exists>r. gc_reqs c p = Some r \<and> r_ref_count r = 1 \<and> r_data r = Some (Read_long_data op) \<and>
        r_destroy r = Some Destroy_read_long_op) \<and>
     rl_value_handle op = h \<and> rl_offset op = of_nat n \<and> rl_iov op = (if n = 0 then None else Some (take n v))"

definition long_reading :: "gc_env \<Rightarrow> 'd gatt_client \<Rightarrow> ptr \<Rightarrow> 'd read_long_op \<Rightarrow> u16 \<Rightarrow> bytes \<Rightarrow> nat \<Rightarrow> bool" where
  "long_reading env c p op h v n \<longleftrightarrow> client_up env c \<and> long_read_op c p op h v n \<and>
     (\<exists>i. i \<noteq> 0 \<and> req_queue (engine c) =
        [client_op i (if n = 0 then BT_ATT_OP_READ_REQ else BT_ATT_OP_READ_BLOB_REQ)
           (put_le16 h @ (if n = 0 then [] else put_le16 (of_nat n))) Read_long_cb p])"

definition same_long_read :: "'d read_long_op \<Rightarrow> 'd read_long_op \<Rightarrow> bool" where
  "same_long_read a b \<longleftrightarrow> rl_callback b = rl_callback a \<and> rl_user_data b = rl_user_data a \<and> rl_destroy b = rl_destroy a"

text \<open>What the application is told of a value: the call of its callback, then the release of its data.\<close>

definition read_report :: "'d option \<Rightarrow> 'd option \<Rightarrow> 'd option \<Rightarrow> bytes \<Rightarrow> 'd gc_event list" where
  "read_report callback user_data destroy v =
     call_user callback (\<lambda>f. Gc_read_callback f True 0 (if v = [] then None else Some v) (of_nat (length v)) user_data) @
     call_user destroy (\<lambda>f. Gc_destroy f user_data)"

definition long_read_report :: "'d read_long_op \<Rightarrow> bytes \<Rightarrow> 'd gc_event list" where
  "long_read_report op v = read_report (rl_callback op) (rl_user_data op) (rl_destroy op) v"

lemma read_long_finish:
  assumes "long_read_op c p op h v (length v)"
  shows "\<exists>c'. do { (c, es) \<leftarrow> read_long_done c op True 0; (c, es') \<leftarrow> request_unref c p; Some (c, es @ es') } =
    Some (c', long_read_report op v)"
proof -
  obtain r where "gc_reqs c p = Some r" "r_ref_count r = 1" "r_data r = Some (Read_long_data op)" "r_destroy r = Some Destroy_read_long_op"
    using assms by (auto simp: long_read_op_def)
  then have "\<exists>c'. request_unref c p = Some (c', destroy_read_long_op op)" by (simp add: request_unref_def call_req_destroy_def)
  moreover have "rl_iov op = (if v = [] then None else Some v)" "pdu_len (rl_iov op) = of_nat (length v)"
    using assms by (auto simp: long_read_op_def pdu_len_def)
  ultimately show ?thesis by (auto simp: read_long_done_def destroy_read_long_op_def long_read_report_def read_report_def)
qed

lemma append_chunk_eval:
  assumes "e_mem env" "unat (rl_offset op) + length b \<le> BT_ATT_MAX_VALUE_LEN"
  shows "append_chunk env op b (of_nat (length b)) = Some (Some (op\<lparr>
    rl_iov := Some ((case rl_iov op of None \<Rightarrow> [] | Some x \<Rightarrow> x) @ b), rl_offset := rl_offset op + of_nat (length b)\<rparr>))"
  using assms by (simp add: append_chunk_def BT_ATT_MAX_VALUE_LEN_def unat_of_nat_less Let_def)

lemma read_long_cb_eval:
  assumes "gc_reqs c p = Some r" "r_data r = Some (Read_long_data op)"
    "oc = (if rl_offset op = 0 then BT_ATT_OP_READ_RSP else BT_ATT_OP_READ_BLOB_RSP)"
  shows "read_long_cb env c p oc pdu =
    (if pdu_len pdu = 0 then read_long_done c op True 0
     else do {
       b \<leftarrow> pdu;
       x \<leftarrow> append_chunk env op b (pdu_len pdu);
       case x of
         None \<Rightarrow> read_long_done c op False 0
       | Some op \<Rightarrow> do {
           c \<leftarrow> set_data c p (Read_long_data op);
           if BT_ATT_MAX_VALUE_LEN \<le> unat (rl_offset op) then read_long_done c op True 0
           else if uint (pdu_len pdu) \<ge> client_mtu c - 1
           then do {
             (sent, c, es) \<leftarrow> resend_request env c p BT_ATT_OP_READ_BLOB_REQ
                                (put_le16 (rl_value_handle op) @ put_le16 (rl_offset op)) Read_long_cb;
             if sent then Some (c, es)
             else do { (c, es') \<leftarrow> read_long_done c op False 0; Some (c, es @ es') } }
           else read_long_done c op True 0 } })"
  using assms by (cases "rl_offset op = 0")
    (simp_all add: read_long_cb_def BT_ATT_OP_ERROR_RSP_def BT_ATT_OP_READ_RSP_def BT_ATT_OP_READ_BLOB_RSP_def)

lemma read_long_cb_value:
  assumes "client_up env c" "req_queue (engine c) = []" "long_read_op c p op h v n" "n \<le> length v" "length v \<le> BT_ATT_MAX_VALUE_LEN"
    and "oc = (if n = 0 then BT_ATT_OP_READ_RSP else BT_ATT_OP_READ_BLOB_RSP)"
      "b = take (unat (att_mtu (engine c)) - 1) (drop n v)"
  defines "res \<equiv> do {
    (c, es) \<leftarrow> read_long_cb env c p oc (if b = [] then None else Some b); (c, es') \<leftarrow> request_unref c p; Some (c, es @ es') }"
  shows "(\<exists>c'. res = Some (c', long_read_report op v)) \<or>
    (\<exists>c' op' n'. res = Some (c', []) \<and> n' = n + (unat (att_mtu (engine c)) - 1) \<and> n' \<le> length v \<and> long_reading env c' p op' h v n' \<and> same_long_read op op' \<and>
       att_mtu (engine c') = att_mtu (engine c))"
proof -
  let ?m = "unat (att_mtu (engine c))"
  have up: "e_mem env" "23 \<le> ?m" "gc_att c" using assms(1) by (simp_all add: client_up_def idle_link_def can_send_def)
  obtain r where r: "gc_reqs c p = Some r" "r_ref_count r = 1" "r_data r = Some (Read_long_data op)"
    "r_destroy r = Some Destroy_read_long_op" and op: "rl_value_handle op = h" "rl_offset op = of_nat n"
    "rl_iov op = (if n = 0 then None else Some (take n v))" using assms(3) by (auto simp: long_read_op_def)
  have n: "unat (of_nat n :: u16) = n" "n \<le> 512" using assms(4,5) by (simp_all add: unat_of_nat_less BT_ATT_MAX_VALUE_LEN_def)
  have z: "(of_nat n :: u16) = 0 \<longleftrightarrow> n = 0" using n(1) by (metis unat_eq_zero)
  have "oc = (if rl_offset op = 0 then BT_ATT_OP_READ_RSP else BT_ATT_OP_READ_BLOB_RSP)" using assms(6) z op(2) by simp
  note eval = read_long_cb_eval [OF r(1,3) this, of env]
  show ?thesis
  proof (cases "b = []")
    case True
    then have "n = length v" using assms(4,7) up(2) by auto
    with assms(3) have "long_read_op c p op h v (length v)" by simp
    from read_long_finish [OF this] show ?thesis
      using True unfolding res_def eval by (simp add: pdu_len_def)
  next
    case False
    define n' where "n' = n + length b"
    define op' where "op' = op\<lparr>rl_iov := Some (take n' v), rl_offset := of_nat n'\<rparr>"
    have len: "length b \<le> length v - n" "length b \<le> ?m - 1" using assms(7) by auto
    then have n': "n < n'" "n' \<le> length v" "n' \<le> 512" using False assms(4,5) by (auto simp: n'_def BT_ATT_MAX_VALUE_LEN_def)
    have w: "unat (of_nat (length b) :: u16) = length b" "unat (of_nat n' :: u16) = n'"
      using n'(3) len(1) assms(5) by (simp_all add: unat_of_nat_less BT_ATT_MAX_VALUE_LEN_def)
    have tk: "take n' v = take n v @ b" using assms(7) by (auto simp: n'_def take_add min_def)
    have ap: "append_chunk env op b (pdu_len (Some b)) = Some (Some op')"
      using append_chunk_eval [OF up(1), of op b] n n'(3) tk op
      by (simp add: pdu_len_def op'_def n'_def BT_ATT_MAX_VALUE_LEN_def)
    have ne: "pdu_len (Some b) \<noteq> 0" using w(1) False by (metis pdu_len_def option.case(2) unat_0 length_0_conv)
    define c1 where "c1 = put_request c p (r\<lparr>r_data := Some (Read_long_data op')\<rparr>)"
    have "uint (pdu_len (Some b)) = int (length b)" using w(1) by (simp add: pdu_len_def uint_nat)
    moreover have "client_mtu c1 = int ?m" using up(3) by (simp add: client_mtu_def client_att_def c1_def bt_att_get_mtu_def)
    ultimately have ge: "client_mtu c1 - 1 \<le> uint (pdu_len (Some b)) \<longleftrightarrow> \<not> length b < ?m - 1" using up(2) by linarith
    have o': "rl_value_handle op' = h" "rl_offset op' = of_nat n'" using op(1) by (simp_all add: op'_def)
    have st: "set_data c p (Read_long_data op') = Some c1" using r(1) by (simp add: set_data_def c1_def)
    have cb: "read_long_cb env c p oc (if b = [] then None else Some b) =
      (if 512 \<le> n' \<or> length b < ?m - 1 then read_long_done c1 op' True 0
       else do {
         (sent, c, es) \<leftarrow> resend_request env c1 p BT_ATT_OP_READ_BLOB_REQ (put_le16 h @ put_le16 (of_nat n')) Read_long_cb;
         if sent then Some (c, es) else do { (c, es') \<leftarrow> read_long_done c op' False 0; Some (c, es @ es') } })"
      using False ne unfolding eval by (simp add: ap st ge o' w(2) BT_ATT_MAX_VALUE_LEN_def)
    have lr: "long_read_op c1 p op' h v n'" using r op n'(1) by (simp add: long_read_op_def c1_def op'_def)
    have sm: "same_long_read op op'" "long_read_report op' v = long_read_report op v"
      by (simp_all add: same_long_read_def op'_def long_read_report_def)
    show ?thesis
    proof (cases "512 \<le> n' \<or> length b < ?m - 1")
      case True
      then have "n' = length v" using n'(2,3) assms(4,5,7) len by (auto simp: n'_def BT_ATT_MAX_VALUE_LEN_def)
      with lr have "long_read_op c1 p op' h v (length v)" by simp
      from read_long_finish [OF this] show ?thesis using True sm(2) unfolding res_def cb by simp
    next
      case more: False
      have "client_up env c1" "length (put_le16 h @ put_le16 (of_nat n')) < unat (att_mtu (engine c1))"
        "gc_reqs c1 p = Some (r\<lparr>r_data := Some (Read_long_data op')\<rparr>)"
        using assms(1) up(2) by (simp_all add: c1_def client_up_def)
      from resend_eval [OF this(1,3) read_opcodes(1) this(2), of Read_long_cb]
      obtain r' i where sd: "resend_request env c1 p BT_ATT_OP_READ_BLOB_REQ (put_le16 h @ put_le16 (of_nat n')) Read_long_cb =
          Some (True, put_request (enqueued env c1 (client_op i BT_ATT_OP_READ_BLOB_REQ (put_le16 h @ put_le16 (of_nat n')) Read_long_cb p)) p r', [])"
        "i \<noteq> 0" "r_ref_count r' = 2" "r_data r' = Some (Read_long_data op')" "r_destroy r' = Some Destroy_read_long_op"
        using r(2,4) by simp
      let ?c2 = "enqueued env c1 (client_op i BT_ATT_OP_READ_BLOB_REQ (put_le16 h @ put_le16 (of_nat n')) Read_long_cb p)"
      have "res = Some (put_request ?c2 p (r'\<lparr>r_ref_count := 1\<rparr>), [])"
        using more sd(1,3) unref_shared_request [of "put_request ?c2 p r'" p r'] unfolding res_def cb by simp
      moreover have "long_reading env (put_request ?c2 p (r'\<lparr>r_ref_count := 1\<rparr>)) p op' h v n'"
        using sd(2-5) lr assms(1,2) n'(1) by (auto simp: long_reading_def long_read_op_def c1_def)
      moreover have "n' = n + (?m - 1)" using more len(2) by (simp add: n'_def)
      ultimately show ?thesis using n' sm(1) by (intro disjI2 exI [of _ "put_request ?c2 p (r'\<lparr>r_ref_count := 1\<rparr>)"] exI [of _ op'] exI [of _ n']) (simp add: c1_def)
    qed
  qed
qed

text \<open>What the client relies on: a peer that holds the value \<open>v\<close> of the handle \<open>h\<close> and answers reads of it.\<close>

locale readable_peer =
  fixes peer :: "'s \<Rightarrow> bytes \<Rightarrow> (bytes \<times> 's) option"
    and holds :: "'s \<Rightarrow> u16 \<Rightarrow> bytes \<Rightarrow> nat \<Rightarrow> bool"
  assumes read: "holds s h v m \<Longrightarrow>
      \<exists>s'. peer s (BT_ATT_OP_READ_REQ # put_le16 h) = Some (BT_ATT_OP_READ_RSP # take (m - 1) v, s') \<and> holds s' h v m"
    and read_blob: "holds s h v m \<Longrightarrow> unat off \<le> length v \<Longrightarrow>
      \<exists>s'. peer s (BT_ATT_OP_READ_BLOB_REQ # put_le16 h @ put_le16 off) =
        Some (BT_ATT_OP_READ_BLOB_RSP # take (m - 1) (drop (unat off) v), s') \<and> holds s' h v m"
begin

lemma long_read_round:
  assumes "long_reading env c p op h v n" "link_env env" "holds s h v (unat (att_mtu (engine c)))" "n \<le> length v"
    "length v \<le> BT_ATT_MAX_VALUE_LEN"
  shows "\<exists>c' s'. holds s' h v (unat (att_mtu (engine c))) \<and>
    (client_round env peer (c, s) = Some ((c', s'), long_read_report op v) \<or>
     (\<exists>op'. client_round env peer (c, s) = Some ((c', s'), []) \<and>
       long_reading env c' p op' h v (n + (unat (att_mtu (engine c)) - 1)) \<and> n + (unat (att_mtu (engine c)) - 1) \<le> length v \<and>
       same_long_read op op' \<and> att_mtu (engine c') = att_mtu (engine c)))"
proof -
  let ?m = "unat (att_mtu (engine c))" and ?b = "take (unat (att_mtu (engine c)) - 1) (drop n v)"
  let ?oc = "if n = 0 then BT_ATT_OP_READ_RSP else BT_ATT_OP_READ_BLOB_RSP"
  let ?rq = "if n = 0 then BT_ATT_OP_READ_REQ else BT_ATT_OP_READ_BLOB_REQ"
  let ?pdu = "put_le16 h @ (if n = 0 then [] else put_le16 (of_nat n))"
  obtain i where i: "i \<noteq> 0" "req_queue (engine c) = [client_op i ?rq ?pdu Read_long_cb p]" and up: "client_up env c"
    "long_read_op c p op h v n" using assms(1) by (auto simp: long_reading_def)
  have "unat (of_nat n :: u16) = n" using assms(4,5) by (simp add: unat_of_nat_less BT_ATT_MAX_VALUE_LEN_def)
  with read [OF assms(3)] read_blob [OF assms(3), of "of_nat n"] assms(4) obtain s' where
    s': "peer s (?rq # ?pdu) = Some (?oc # ?b, s')" "holds s' h v ?m" by (cases "n = 0") auto
  have oc: "get_op_type ?rq = ATT_OP_TYPE_REQ" "get_op_type ?oc = ATT_OP_TYPE_RSP" "?oc = ?rq + 1" "?oc \<noteq> BT_ATT_OP_ERROR_RSP"
    by (simp_all add: opcode_eval BT_ATT_OP_READ_REQ_def BT_ATT_OP_READ_BLOB_REQ_def BT_ATT_OP_READ_RSP_def
        BT_ATT_OP_READ_BLOB_RSP_def BT_ATT_OP_ERROR_RSP_def)
  define res where "res = do {
    (c, es) \<leftarrow> read_long_cb env (quiet env c) p ?oc (if ?b = [] then None else Some ?b); (c, es') \<leftarrow> request_unref c p; Some (c, es @ es') }"
  have r: "client_round env peer (c, s) = do { (c, es) \<leftarrow> res; Some ((c, s'), es) }"
    using round_answered [where peer = peer, OF up(1) assms(2) i(2,1) oc(1) s'(1) oc(2-4)]
    by (simp add: res_def client_call_def split_def)
  have "client_up env (quiet env c)" "long_read_op (quiet env c) p op h v n" using up by (simp_all add: long_read_op_def)
  from read_long_cb_value [OF this(1) quiet_simps(7) this(2) assms(4,5) refl refl]
  consider c' where "res = Some (c', long_read_report op v)"
    | c' op' where "res = Some (c', [])" "n + (?m - 1) \<le> length v" "long_reading env c' p op' h v (n + (?m - 1))"
        "same_long_read op op'" "att_mtu (engine c') = att_mtu (engine c)"
    unfolding res_def quiet_simps by blast
  then show ?thesis
  proof cases
    case (1 c')
    then show ?thesis unfolding r using s'(2) by (intro exI [of _ c'] exI [of _ s']) simp
  next
    case (2 c' op')
    then show ?thesis unfolding r using s'(2) by (intro exI [of _ c'] exI [of _ s']) auto
  qed
qed

lemma long_read_runs:
  assumes "link_env env" "length v \<le> BT_ATT_MAX_VALUE_LEN" "long_reading env c p op h v n"
    "holds s h v (unat (att_mtu (engine c)))" "n \<le> length v" "m = unat (att_mtu (engine c))"
  shows "\<exists>k c' s'. k \<le> Suc ((length v - n) div (m - 1)) \<and> holds s' h v m \<and>
    client_rounds env peer k (c, s) = Some ((c', s'), long_read_report op v)"
  using assms(3-)
proof (induction "length v - n" arbitrary: c op n s rule: less_induct)
  case less
  have m: "23 \<le> m" using less.prems(1,4) by (simp add: long_reading_def client_up_def idle_link_def can_send_def)
  from long_read_round [OF less.prems(1) assms(1) less.prems(2,3) assms(2), folded less.prems(4)] obtain c' s' where
    c': "holds s' h v m" "client_round env peer (c, s) = Some ((c', s'), long_read_report op v) \<or>
     (\<exists>op'. client_round env peer (c, s) = Some ((c', s'), []) \<and> long_reading env c' p op' h v (n + (m - 1)) \<and>
       n + (m - 1) \<le> length v \<and> same_long_read op op' \<and> att_mtu (engine c') = att_mtu (engine c))" by blast
  show ?case
  proof (cases "client_round env peer (c, s) = Some ((c', s'), long_read_report op v)")
    case True
    then show ?thesis using c'(1) by (intro exI [of _ 1] exI [of _ c'] exI [of _ s']) simp
  next
    case False
    with c'(2) obtain op' where op': "client_round env peer (c, s) = Some ((c', s'), [])" "long_reading env c' p op' h v (n + (m - 1))"
      "n + (m - 1) \<le> length v" "same_long_read op op'" "unat (att_mtu (engine c')) = m" using less.prems(4) by auto
    have "length v - (n + (m - 1)) < length v - n" using op'(3) m by linarith
    from less.hyps [OF this op'(2)] c'(1) op'(3,5) obtain k c'' s'' where
      k: "k \<le> Suc ((length v - (n + (m - 1))) div (m - 1))" "holds s'' h v m"
      "client_rounds env peer k (c', s') = Some ((c'', s''), long_read_report op' v)" by metis
    have "(length v - n) div (m - 1) = Suc ((length v - (n + (m - 1))) div (m - 1))"
      using op'(3) m by (simp add: le_div_geq)
    moreover have "long_read_report op' v = long_read_report op v" using op'(4) by (simp add: long_read_report_def same_long_read_def)
    ultimately show ?thesis using k op'(1) by (intro exI [of _ "Suc k"] exI [of _ c''] exI [of _ s'']) simp
  qed
qed

text \<open>The whole procedure.\<close>

lemma long_read:
  assumes "client_up env c" "req_queue (engine c) = []" "link_env env" "holds s h v m" "m = unat (att_mtu (engine c))"
    "length v \<le> BT_ATT_MAX_VALUE_LEN"
  shows "\<exists>i c1 k c' s'. i \<noteq> 0 \<and> bt_gatt_client_read_long_value env c h 0 callback user_data destroy = Some (i, c1, []) \<and>
    k \<le> Suc (length v div (m - 1)) \<and> holds s' h v m \<and>
    client_rounds env peer k (c1, s) = Some ((c', s'), read_report callback user_data destroy v)"
proof -
  define op where "op = \<lparr>rl_value_handle = h, rl_offset = 0, rl_iov = None, rl_callback = callback, rl_user_data = user_data,
    rl_destroy = destroy\<rparr>"
  have up: "gc_att c" "23 \<le> m" using assms(1,5) by (simp_all add: client_up_def idle_link_def can_send_def)
  obtain p c0 r where c0: "create_request c (Some (Read_long_data op)) (Some Destroy_read_long_op) = Some (p, c0)"
    "gc_reqs c0 p = Some r" "r_ref_count r = 1" "r_data r = Some (Read_long_data op)" "r_destroy r = Some Destroy_read_long_op"
    "r_id r \<noteq> 0" "gc_hl c0 = gc_hl c" "gc_att c0"
    using up(1) by (auto simp: create_request_def request_create_def Let_def put_request_def word_less_nat_alt unat_eq_0)
  have "client_up env c0" "length (put_le16 h) < unat (att_mtu (engine c0))" using assms(1,5) c0(7,8) up(2) by (simp_all add: client_up_def)
  note sd = client_send_eval [OF this(1) request_opcodes(5) this(2)]
  define c1 where "c1 = put_request (enqueued env c0 (client_op (next_id (engine c0)) BT_ATT_OP_READ_REQ (put_le16 h) Read_long_cb p)) p
    (r\<lparr>r_att_id := next_id (engine c0)\<rparr>)"
  have st: "bt_gatt_client_read_long_value env c h 0 callback user_data destroy = Some (r_id r, c1, [])"
    using c0(1,2) sd by (simp add: bt_gatt_client_read_long_value_def op_def send_request_def c1_def)
  have mtu: "m = unat (att_mtu (engine c1))" using assms(5) c0(7) by (simp add: c1_def)
  have "client_up env c1" using \<open>client_up env c0\<close> by (simp add: c1_def)
  moreover have "long_read_op c1 p op h v 0" using c0(2-6) by (simp add: long_read_op_def op_def c1_def)
  moreover have "req_queue (engine c1) = [client_op (next_id (engine c0)) BT_ATT_OP_READ_REQ (put_le16 h) Read_long_cb p]"
    using assms(2) c0(7) by (simp add: c1_def)
  ultimately have "long_reading env c1 p op h v 0"
    unfolding long_reading_def by (intro conjI exI [of _ "next_id (engine c0)"]) simp_all
  from long_read_runs [OF assms(3,6) this _ _ mtu] assms(4) mtu obtain k c' s' where
    "k \<le> Suc (length v div (m - 1))" "holds s' h v m" "client_rounds env peer k (c1, s) = Some ((c', s'), long_read_report op v)"
    by (metis diff_zero le0)
  then show ?thesis using st c0(6)
    by (intro exI [of _ "r_id r"] exI [of _ c1] exI [of _ k] exI [of _ c'] exI [of _ s']) (simp add: long_read_report_def op_def)
qed

end

section \<open>The server as a peer\<close>

text \<open>The server receives a request and sends its response.\<close>

definition serve :: "'c srv_env \<Rightarrow> 'c bt_gatt_server \<Rightarrow> bytes \<Rightarrow> (bytes \<times> 'c bt_gatt_server) option" where
  "serve env srv req = do {
     (srv, _, _) \<leftarrow> srv_receive env srv (Some req);
     case can_write_data env (srv_att srv) of
       (_, t, Att_send_pdu rsp # _) \<Rightarrow> Some (rsp, srv\<lparr>srv_att := t\<rparr>)
     | _ \<Rightarrow> None }"

text \<open>A server that waits for a request; prepared writes may be pending.\<close>

definition srv_waits :: "'c bt_gatt_server \<Rightarrow> bool" where
  "srv_waits srv \<longleftrightarrow> srv_ok srv \<and> serving srv \<and> \<not> in_req (srv_att srv) \<and> write_queue (srv_att srv) = []"

definition served :: "'c bt_gatt_server \<Rightarrow> 'c fn bt_att \<Rightarrow> bool" where
  "served srv t \<longleftrightarrow> srv_waits (srv\<lparr>srv_att := t\<rparr>) \<and> att_mtu t = att_mtu (srv_att srv) \<and>
     io_on_l2cap t = io_on_l2cap (srv_att srv) \<and> io_sec_level t = io_sec_level (srv_att srv)"

lemma srv_waits_idle: "srv_idle srv \<longleftrightarrow> srv_waits srv \<and> prep_queue srv = []"
  by (auto simp: srv_idle_def srv_waits_def)

lemma srv_send_reply:
  assumes "srv_waits srv" "link_env env" "get_op_type rop = ATT_OP_TYPE_RSP" "rop AND ATT_OP_SIGNED_MASK = 0"
    "src_bytes pdu (of_nat n) = Some v" "n < unat (att_mtu (srv_att srv))"
  shows "\<exists>t t' es. srv_send env (in_request srv) rop pdu n = Some ((in_request srv)\<lparr>srv_att := t\<rparr>, []) \<and>
    can_write_data env t = (True, t', Att_send_pdu (rop # v) # es) \<and> served srv t'"
proof -
  let ?a = "srv_att (in_request srv)"
  have wf: "att_wf ?a" "att_io ?a" "e_mem env" "write_queue ?a = []"
    using assms(1,2) srv_ok_in_req by (auto simp: srv_waits_def in_request_def srv_ok_def link_env_def)
  have n: "n < 65536" using assms(6) unat_u16_less [of "att_mtu (srv_att srv)"] by linarith
  then have lt: "unat (of_nat n :: u16) < unat (att_mtu ?a)" using assms(6) by (simp add: in_request_def unat_of_nat_less)
  from att_send_queues [OF wf(1-3) assms(3-5) lt] obtain i t oper where t: "att_wf t" "att_io t"
    "bt_att_send env (Some ?a) rop pdu (of_nat n) None None None = Some (i, Some t)"
    "att_mtu t = att_mtu (srv_att srv)" "att_notify_list t = att_notify_list (srv_att srv)"
    "write_queue t = [oper]" "op_type oper = ATT_OP_TYPE_RSP" "op_pdu oper = rop # v"
    using wf(4) by (auto simp: in_request_def)
  let ?t = "t\<lparr>write_queue := [], in_req := False\<rparr>"
  have "\<not> e_send env (rop # v) < 0" using assms(2) by (auto simp: link_env_def not_less)
  then have w: "\<exists>es. can_write_data env t = (True, ?t, Att_send_pdu (rop # v) # es)"
    using t(6-8) by (simp add: can_write_data_def pick_next_send_op_def)
  have "serving (srv\<lparr>srv_att := ?t\<rparr>)"
    using assms(1) t(5) serving_cong [of "srv\<lparr>srv_att := ?t\<rparr>" srv] by (simp add: srv_waits_def)
  moreover have "att_wf ?t" using t(1) by (auto simp: att_wf_defs)
  ultimately have "srv_waits (srv\<lparr>srv_att := ?t\<rparr>)" using assms(1) t(2) by (simp add: srv_waits_def srv_ok_def)
  moreover have "io_on_l2cap t = io_on_l2cap (srv_att srv)" "io_sec_level t = io_sec_level (srv_att srv)"
    using send_frame [OF t(3)] by (simp_all add: in_request_def)
  ultimately have "served srv ?t" using t(4) by (simp add: served_def)
  then show ?thesis using t(3) w by (auto simp: srv_send_def)
qed

text \<open>An attribute whose value is kept in the database and may be read.\<close>

definition serves_value :: "'c srv_env \<Rightarrow> 'c bt_gatt_server \<Rightarrow> u16 \<Rightarrow> bytes \<Rightarrow> nat \<Rightarrow> bool" where
  "serves_value env srv h v m \<longleftrightarrow> srv_idle srv \<and> link_env env \<and> pending_read_op srv = None \<and> m = unat (att_mtu (srv_att srv)) \<and>
     (\<exists>q a. gatt_db_get_attribute (Some (srv_db srv)) h = Some (Some q) \<and> db_attr (srv_db srv) q = Some a \<and>
        a_read_func a = None \<and> check_permissions env srv q read_mask = Some 0 \<and> stored a = v)"

lemma serves_value_keep:
  assumes "serves_value env srv h v m" "served srv t"
  shows "serves_value env (srv\<lparr>srv_att := t\<rparr>) h v m"
  using assms check_permissions_cong [of "srv\<lparr>srv_att := t\<rparr>" srv env _ read_mask]
  by (auto simp: serves_value_def served_def srv_waits_idle)

lemma read_reply:
  assumes "serves_value env srv h v m" "unat off \<le> length v" "opc = BT_ATT_OP_READ_REQ \<or> opc = BT_ATT_OP_READ_BLOB_REQ"
  shows "\<exists>t t' es. handle_read_req env (in_request srv) opc h off = Some ((in_request srv)\<lparr>srv_att := t\<rparr>, []) \<and>
    can_write_data env t = (True, t', Att_send_pdu ((opc + 1) # take (m - 1) (drop (unat off) v)) # es) \<and> served srv t'"
proof -
  obtain q a where qa: "gatt_db_get_attribute (Some (srv_db srv)) h = Some (Some q)" "db_attr (srv_db srv) q = Some a"
    "a_read_func a = None" "check_permissions env srv q read_mask = Some 0" "stored a = v" "srv_idle srv" "link_env env"
    "pending_read_op srv = None" "m = unat (att_mtu (srv_att srv))" using assms(1) by (auto simp: serves_value_def)
  have ok: "attr_ok q a" using db_attr_ok [OF _ qa(2)] qa(6) by (simp add: srv_idle_def srv_ok_def)
  have m: "23 \<le> m" using srv_ok_mtu [of srv] qa(6,9) by (simp add: srv_idle_def)
  let ?op = "\<lparr>ro_opcode = opc, ro_done = False, ro_pdu = [], ro_pdu_len = 0, ro_value_len = 0, ro_db_data = []\<rparr>"
  let ?s = "(in_request srv)\<lparr>pending_read_op := Some ?op\<rparr>" and ?w = "drop (unat off) v"
  from read_any(1) [OF ok qa(2,3)] assms(2) qa(5) obtain val where
    val: "gatt_db_attribute_read (e_timeout env) (srv_db srv) (Some q) off opc att_ptr (Some Read_complete_cb) (Some Op_ptr) =
      Some (True, srv_db srv, [Read_done Read_complete_cb q 0 val (Some Op_ptr)])"
    "(case val of None \<Rightarrow> [] | Some v \<Rightarrow> v) = ?w" by blast
  have perm: "check_permissions env (in_request srv) q read_mask = Some 0"
    using check_permissions_cong [of "in_request srv" srv env q read_mask] qa(4) by (simp add: in_request_def)
  have h: "handle_read_req env (in_request srv) opc h off = read_complete_cb env ?s q 0 val"
    using qa(1,8) perm val(1) by (simp add: handle_read_req_def Let_def in_request_def)
  have rsp: "get_read_rsp_opcode opc = opc + 1" "get_op_type (opc + 1) = ATT_OP_TYPE_RSP" "(opc + 1) AND ATT_OP_SIGNED_MASK = 0"
    using assms(3) by (auto simp: get_read_rsp_opcode_def opcode_eval ATT_OP_SIGNED_MASK_def BT_ATT_OP_READ_REQ_def
        BT_ATT_OP_READ_BLOB_REQ_def BT_ATT_OP_READ_RSP_def BT_ATT_OP_READ_BLOB_RSP_def)
  have "min (m - 1) (length ?w) < 65536" using qa(9) unat_u16_less [of "att_mtu (srv_att srv)"] by linarith
  then have src: "src_bytes (if ?w = [] then None else Some ?w) (of_nat (min (m - 1) (length ?w))) = Some (take (m - 1) ?w)"
    using src_bytes_take [of "min (m - 1) (length ?w)" ?w] by (auto simp: min_def)
  define s1 where "s1 = srv\<lparr>pending_read_op := Some ?op\<rparr>"
  have lt: "min (m - 1) (length ?w) < unat (att_mtu (srv_att s1))" using qa(9) m by (auto simp: s1_def)
  have "srv_waits s1" using qa(6) serving_cong [of s1 srv] by (simp add: s1_def srv_waits_def srv_idle_def)
  from srv_send_reply [OF this qa(7) rsp(2,3) src lt] obtain t t' es where
    t: "srv_send env (in_request s1) (opc + 1) (if ?w = [] then None else Some ?w) (min (m - 1) (length ?w)) =
      Some ((in_request s1)\<lparr>srv_att := t\<rparr>, [])"
    "can_write_data env t = (True, t', Att_send_pdu ((opc + 1) # take (m - 1) ?w) # es)" "served s1 t'" by blast
  have s1: "in_request s1 = ?s" by (simp add: s1_def in_request_def)
  have "served srv t'" using t(3) serving_cong [of "srv\<lparr>srv_att := t'\<rparr>" "s1\<lparr>srv_att := t'\<rparr>"]
    by (simp add: served_def srv_waits_def srv_ok_def s1_def)
  have "srv\<lparr>srv_att := t, pending_read_op := None\<rparr> = srv\<lparr>srv_att := t\<rparr>" using qa(8) by (cases srv) simp
  moreover have "unat ((ucast (att_mtu (srv_att srv)) :: u32) - 1) = m - 1" using mtu_minus_simps(1) [of "att_mtu (srv_att srv)"] m qa(9) by simp
  ultimately have "read_complete_cb env ?s q 0 val = Some ((in_request srv)\<lparr>srv_att := t\<rparr>, [])"
    using t(1) [unfolded s1] val(2) rsp(1) get_handle_valid(1) [OF qa(2)]
    by (simp add: read_complete_cb_def async_read_op_destroy_def in_request_def bt_att_get_mtu_def Let_def cong: if_cong split del: if_split)
  then show ?thesis using h t(2) \<open>served srv t'\<close> by auto
qed

interpretation server_values: readable_peer "serve env" "serves_value env" for env :: "'c srv_env"
proof
  fix s :: "'c bt_gatt_server" and h v m off
  assume a: "serves_value env s h v m"
  then have rdy: "ready env s (put_le16 h)" "ready env s (put_le16 h @ put_le16 off)"
    using srv_ok_mtu [of s] by (auto simp: serves_value_def ready_def srv_idle_def link_env_def)
  from read_reply [OF a, of 0 BT_ATT_OP_READ_REQ] obtain t t' es where
    "handle_read_req env (in_request s) BT_ATT_OP_READ_REQ h 0 = Some ((in_request s)\<lparr>srv_att := t\<rparr>, [])"
    "can_write_data env t = (True, t', Att_send_pdu (BT_ATT_OP_READ_RSP # take (m - 1) v) # es)" "served s t'"
    by (auto simp: BT_ATT_OP_READ_REQ_def BT_ATT_OP_READ_RSP_def)
  with read_req.receive [OF rdy(1)] serves_value_keep [OF a]
  show "\<exists>s'. serve env s (BT_ATT_OP_READ_REQ # put_le16 h) = Some (BT_ATT_OP_READ_RSP # take (m - 1) v, s') \<and> serves_value env s' h v m"
    by (auto simp: serve_def Gatt_Server.read_cb_def in_request_def)
  assume off: "unat off \<le> length v"
  from read_reply [OF a off, of BT_ATT_OP_READ_BLOB_REQ] obtain t t' es where
    "handle_read_req env (in_request s) BT_ATT_OP_READ_BLOB_REQ h off = Some ((in_request s)\<lparr>srv_att := t\<rparr>, [])"
    "can_write_data env t = (True, t', Att_send_pdu (BT_ATT_OP_READ_BLOB_RSP # take (m - 1) (drop (unat off) v)) # es)" "served s t'"
    by (auto simp: BT_ATT_OP_READ_BLOB_REQ_def BT_ATT_OP_READ_BLOB_RSP_def)
  with blob_req.receive [OF rdy(2)] serves_value_keep [OF a]
  show "\<exists>s'. serve env s (BT_ATT_OP_READ_BLOB_REQ # put_le16 h @ put_le16 off) =
      Some (BT_ATT_OP_READ_BLOB_RSP # take (m - 1) (drop (unat off) v), s') \<and> serves_value env s' h v m"
    by (auto simp: serve_def read_blob_cb_def in_request_def)
qed

text \<open>
  C4: a long read through both stacks.  A client on a link to a server whose database keeps a value of
  at most 512 bytes under a handle the client may read starts a long read; every PDU goes through
  both ATT engines.  After at most one round for every full PDU and one more, the callback of the
  application is called exactly once, with success and the whole value (a null pointer when it is
  empty), then its data is released; the server still serves the value.
\<close>

theorem client_reads_server:
  assumes "client_up env c" "req_queue (engine c) = []" "link_env env"
    "serves_value senv srv h v m" "m = unat (att_mtu (engine c))" "length v \<le> BT_ATT_MAX_VALUE_LEN"
  shows "\<exists>i c1 k c' srv'. i \<noteq> 0 \<and> bt_gatt_client_read_long_value env c h 0 (Some f) user_data (Some d) = Some (i, c1, []) \<and>
    k \<le> Suc (length v div (m - 1)) \<and>
    client_rounds env (serve senv) k (c1, srv) = Some ((c', srv'),
      [Gc_read_callback f True 0 (if v = [] then None else Some v) (of_nat (length v)) user_data, Gc_destroy d user_data]) \<and>
    serves_value senv srv' h v m"
proof -
  from server_values.long_read [OF assms, of "Some f" user_data "Some d"] obtain i c1 k c' srv' where
    "i \<noteq> 0" "bt_gatt_client_read_long_value env c h 0 (Some f) user_data (Some d) = Some (i, c1, [])"
    "k \<le> Suc (length v div (m - 1))" "serves_value senv srv' h v m"
    "client_rounds env (serve senv) k (c1, srv) = Some ((c', srv'), read_report (Some f) user_data (Some d) v)" by blast
  then show ?thesis by (intro exI [of _ i] exI [of _ c1] exI [of _ k] exI [of _ c'] exI [of _ srv']) (simp add: read_report_def call_user_def)
qed

text \<open>A new client on a new connection.\<close>

definition gc_example_env :: gc_env where
  "gc_example_env =
     \<lparr>e_mem = True, e_write_handler = True, e_send = (\<lambda>bs. int (length bs)), e_timeout = 7, e_security = 1,
      e_set_security = True, e_sign = (\<lambda>key msg c. Some (replicate 12 0)), e_counter = (\<lambda>f u c. Some 1),
      e_junk = (\<lambda>_. 0)\<rparr>"

definition gc_example :: "nat gatt_client" where
  "gc_example =
     \<lparr>gc_hl = \<lparr>hl_att = the (bt_att_new gc_example_env 3 True True False True 1 0), hl_reqs = Map.empty, hl_incls = Map.empty,
               hl_mtus = Map.empty, hl_next = 1\<rparr>,
      gc_att = True, gc_parent = False, gc_db = the gatt_db_new, gc_reqs = Map.empty, gc_pending_requests = [],
      gc_next_request_id = 0, gc_long_write_queue = [], gc_in_long_write = False, gc_session_id = 0,
      gc_notify_data = Map.empty, gc_chrcs = Map.empty, gc_notify_list = [], gc_notify_chrcs = [], gc_next_reg_id = 0,
      gc_in_svc_chngd = False, gc_discovery_req = None, gc_mtu_req_id = 0, gc_next = 1\<rparr>"

lemma gc_example_facts:
  "client_up gc_example_env gc_example" "req_queue (engine gc_example) = []" "link_env gc_example_env"
  "att_mtu (engine gc_example) = 23" "gc_att gc_example" "pending_req (engine gc_example) = None"
  by (simp_all add: client_up_def idle_link_def can_send_def link_env_def gc_example_def gc_example_env_def bt_att_new_def
      bt_att_ref_def BT_ATT_DEFAULT_LE_MTU_def)

text \<open>Witness of \<open>client_reads_server\<close>: the example client reads the first characteristic of the example server.\<close>

lemma srv_example_serves: "serves_value srv_example_env srv_example 3 [10, 20, 30] 23"
  using srv_example_facts srv_example_get(1) srv_example_attrs(1) srv_example_permissions(1)
  by (auto simp: serves_value_def srv_idle_def link_env_def srv_example_env_def srv_example_attr_def stored_def)

theorem client_reads_server_witness:
  "\<exists>i c1 k c' srv'. bt_gatt_client_read_long_value gc_example_env gc_example 3 0 (Some 8) None (Some 9) = Some (i, c1, []) \<and>
    k \<le> 1 \<and> client_rounds gc_example_env (serve srv_example_env) k (c1, srv_example) =
      Some ((c', srv'), [Gc_read_callback 8 True 0 (Some [10, 20, 30]) 3 None, Gc_destroy 9 None])"
  using client_reads_server [OF gc_example_facts(1-3) srv_example_serves, of 8 None 9] gc_example_facts(4)
  by (fastforce simp: BT_ATT_MAX_VALUE_LEN_def)

end
