(* ===== verification/Gatt_Client_Write.thy ===== *)
theory Gatt_Client_Write
  imports Gatt_Client_Link
begin

text \<open>
  Long writes of the GATT client on a link: the chunks of the value are prepared one behind the other,
  one execute write ends the procedure, and the server stores the value in one piece.
\<close>

section \<open>The client\<close>

lemma u16_nat: "k < 65536 \<Longrightarrow> unat (of_nat k :: u16) = k"
  by (simp add: unat_of_nat_less)

lemma u16_uint: "k < 65536 \<Longrightarrow> uint (of_nat k :: u16) = int k"
  using u16_nat [of k] by (metis uint_nat)

lemma u16_inj: "a < 65536 \<Longrightarrow> b < 65536 \<Longrightarrow> (of_nat a :: u16) = of_nat b \<longleftrightarrow> a = b"
  using u16_nat [of a] u16_nat [of b] by metis

lemma client_mtu_eval: "gc_att c \<Longrightarrow> client_mtu c = int (unat (att_mtu (engine c)))"
  by (simp add: client_mtu_def client_att_def bt_att_get_mtu_def)

text \<open>The chunk of the value from \<open>n\<close> on, for the MTU \<open>m\<close>, and the PDU that prepares it.\<close>

definition chunk :: "bytes \<Rightarrow> nat \<Rightarrow> nat \<Rightarrow> bytes" where
  "chunk v m n = take (m - 5) (drop n v)"

definition prep_pdu :: "u16 \<Rightarrow> u16 \<Rightarrow> bytes \<Rightarrow> nat \<Rightarrow> nat \<Rightarrow> bytes" where
  "prep_pdu h off v m n = put_le16 h @ put_le16 (off + of_nat n) @ chunk v m n"

text \<open>The data of a long write that has prepared \<open>n\<close> bytes of the value.\<close>

definition writing_op :: "'d long_write_op \<Rightarrow> u16 \<Rightarrow> u16 \<Rightarrow> bytes \<Rightarrow> nat \<Rightarrow> nat \<Rightarrow> bool" where
  "writing_op op h off v m n \<longleftrightarrow> lw_value_handle op = h \<and> lw_offset op = off \<and> lw_value op = v \<and>
     lw_length op = of_nat (length v) \<and> lw_index op = of_nat n \<and> lw_cur_length op = of_nat (length (chunk v m n))"

definition long_write_data :: "'d gatt_client \<Rightarrow> ptr \<Rightarrow> 'd long_write_op \<Rightarrow> bool" where
  "long_write_data c p op \<longleftrightarrow> gc_long_write_queue c = [] \<and>
     (\<exists>r. gc_reqs c p = Some r \<and> r_ref_count r = 1 \<and> r_data r = Some (Long_write_data op) \<and> r_destroy r = Some Long_write_op_free)"

definition long_writing ::
    "gc_env \<Rightarrow> 'd gatt_client \<Rightarrow> ptr \<Rightarrow> 'd long_write_op \<Rightarrow> u16 \<Rightarrow> u16 \<Rightarrow> bytes \<Rightarrow> nat \<Rightarrow> bool" where
  "long_writing env c p op h off v n \<longleftrightarrow> client_up env c \<and> long_write_data c p op \<and>
     writing_op op h off v (unat (att_mtu (engine c))) n \<and>
     (\<exists>i. i \<noteq> 0 \<and> req_queue (engine c) =
        [client_op i BT_ATT_OP_PREP_WRITE_REQ (prep_pdu h off v (unat (att_mtu (engine c))) n) Prepare_write_cb p])"

definition executing :: "gc_env \<Rightarrow> 'd gatt_client \<Rightarrow> ptr \<Rightarrow> 'd long_write_op \<Rightarrow> bool" where
  "executing env c p op \<longleftrightarrow> client_up env c \<and> long_write_data c p op \<and>
     lw_success op \<and> lw_att_ecode op = 0 \<and> \<not> lw_reliable_error op \<and>
     (\<exists>i. i \<noteq> 0 \<and> req_queue (engine c) = [client_op i BT_ATT_OP_EXEC_WRITE_REQ [1] Execute_write_cb p])"

definition same_long_write :: "'d long_write_op \<Rightarrow> 'd long_write_op \<Rightarrow> bool" where
  "same_long_write a b \<longleftrightarrow> lw_callback b = lw_callback a \<and> lw_user_data b = lw_user_data a \<and> lw_destroy b = lw_destroy a"

lemma chunk_facts:
  "n \<le> length v \<Longrightarrow> n + length (chunk v m n) \<le> length v"
  "n < length v \<Longrightarrow> 5 < m \<Longrightarrow> chunk v m n \<noteq> []"
  "length (chunk v m n) \<le> m - 5"
  "n + length (chunk v m n) < length v \<Longrightarrow> length (chunk v m n) = m - 5"
  "take (length (chunk v m n)) (drop n v) = chunk v m n"
  "take n v @ chunk v m n = take (n + length (chunk v m n)) v"
  by (auto simp: chunk_def min_def take_add)

lemma writing_chunk:
  assumes "writing_op op h off v m n" "n \<le> length v" "length v < 65536"
  shows "value_chunk (lw_value op) (lw_index op) (lw_cur_length op) = Some (chunk v m n)"
    "lw_index op + lw_cur_length op = of_nat (n + length (chunk v m n))"
    "unat (lw_cur_length op) = length (chunk v m n)"
proof -
  have n: "unat (of_nat n :: u16) = n" "unat (of_nat (length (chunk v m n)) :: u16) = length (chunk v m n)"
    using assms(2,3) chunk_facts(1) [of n v m] by (simp_all add: u16_nat)
  with assms chunk_facts(1) [of n v m]
  show "value_chunk (lw_value op) (lw_index op) (lw_cur_length op) = Some (chunk v m n)"
    "lw_index op + lw_cur_length op = of_nat (n + length (chunk v m n))" "unat (lw_cur_length op) = length (chunk v m n)"
    by (simp_all add: value_chunk_def writing_op_def chunk_facts(5))
qed

lemma reliable_echo:
  assumes "writing_op op h off v m n" "n \<le> length v" "unat off + length v < 65536"
  shows "reliable_match op (Some (prep_pdu h off v m n)) = Some True"
proof -
  have v: "length v < 65536" using assms(3) by linarith
  have "unat (off + of_nat n) = unat off + n" using assms(2,3) by (simp add: unat_word_ariths u16_nat)
  moreover have "unat (lw_index op) = n" using assms v by (simp add: writing_op_def u16_nat)
  moreover have "drop 2 (prep_pdu h off v m n) = put_le16 (off + of_nat n) @ chunk v m n" "drop 4 (prep_pdu h off v m n) = chunk v m n"
    "length (prep_pdu h off v m n) = length (chunk v m n) + 4" by (simp_all add: prep_pdu_def put_le16_def)
  ultimately show ?thesis using writing_chunk [OF assms(1,2) v] assms(1)
    by (simp add: reliable_match_def prep_pdu_def writing_op_def)
qed

text \<open>An operation is sent for the request from within a callback, and the engine gives up the one that was answered.\<close>

lemma resend_unref:
  assumes "client_up env c" "gc_reqs c p = Some r" "r_ref_count r = 1" "req_opcode opcode" "length pdu < unat (att_mtu (engine c))"
    "req_queue (engine c) = []"
  shows "\<exists>c1 c' i. resend_request env c p opcode pdu cb = Some (True, c1, []) \<and> request_unref c1 p = Some (c', []) \<and> i \<noteq> 0 \<and> req_queue (engine c') = [client_op i opcode pdu cb p] \<and> client_up env c' \<and>
    gc_reqs c' p = Some (r\<lparr>r_att_id := i\<rparr>) \<and> gc_long_write_queue c' = gc_long_write_queue c \<and>
    att_mtu (engine c') = att_mtu (engine c)"
proof -
  let ?i = "next_id (engine c)"
  let ?c = "enqueued env c (client_op ?i opcode pdu cb p)" and ?r = "r\<lparr>r_ref_count := r_ref_count r + 1, r_att_id := ?i\<rparr>"
  have "request_unref (put_request ?c p ?r) p = Some (put_request ?c p (?r\<lparr>r_ref_count := 1\<rparr>), [])"
    using unref_shared_request [of "put_request ?c p ?r" p ?r] assms(3) by simp
  moreover have "?r\<lparr>r_ref_count := 1\<rparr> = r\<lparr>r_att_id := ?i\<rparr>" using assms(3) by (cases r) simp
  ultimately show ?thesis using resend_eval [OF assms(1,2,4,5), of cb] assms(1,6)
    by (intro exI [of _ "put_request ?c p ?r"] exI [of _ "put_request ?c p (r\<lparr>r_att_id := ?i\<rparr>)"] exI [of _ ?i]) simp
qed

lemma prepare_cb_eval:
  assumes "gc_reqs c p = Some r" "r_data r = Some (Long_write_data op)" "writing_op op h off v m n" "n < length v"
    "unat off + length v < 65536" "gc_att c" "m = unat (att_mtu (engine c))" "23 \<le> m"
  defines "n' \<equiv> n + length (chunk v m n)"
  shows "prepare_write_cb env c p BT_ATT_OP_PREP_WRITE_RSP (Some (prep_pdu h off v m n)) =
    (if n' = length v then complete_write_long_op env c p True 0 False
     else handle_next_prep_write env (put_request c p (r\<lparr>r_data := Some (Long_write_data
            (op\<lparr>lw_index := of_nat n', lw_cur_length := of_nat (length (chunk v m n'))\<rparr>))\<rparr>)) p)"
proof -
  have v: "length v < 65536" "n \<le> length v" using assms(4,5) by linarith+
  note op = writing_chunk [OF assms(3) v(2,1), folded n'_def]
  have n': "n' \<le> length v" using chunk_facts(1) [OF v(2), of m] by (simp add: n'_def)
  have ok: "(if lw_reliable op then reliable_match op (Some (prep_pdu h off v m n)) else Some True) = Some True"
    using reliable_echo [OF assms(3) v(2) assms(5)] by simp
  have lw: "long_write_of c p = Some op" "lw_length op = of_nat (length v)" "unat (lw_cur_length op) = length (chunk v m n)"
    using assms(1-3) op(3) by (simp_all add: long_write_of_def writing_op_def)
  have len: "lw_index op + lw_cur_length op = lw_length op \<longleftrightarrow> n' = length v"
    unfolding op(2) lw(2) using n' v(1) by (intro u16_inj) simp_all
  have ge: "client_mtu c - 5 \<le> uint (lw_cur_length op)" if "n' \<noteq> length v"
  proof -
    have "length (chunk v m n) = m - 5" using that n' chunk_facts(4) [of n v m] by (simp add: n'_def)
    then have "uint (lw_cur_length op) = int m - 5" using lw(3) assms(8) unfolding uint_nat by (simp add: of_nat_diff)
    then show ?thesis using client_mtu_eval [OF assms(6)] assms(7) by simp
  qed
  have "min (uint (lw_length op) - uint (lw_index op + lw_cur_length op)) (client_mtu c - 5) = int (length (chunk v m n'))"
    using n' v(1) assms(8) client_mtu_eval [OF assms(6)] unfolding op(2) lw(2) assms(7) [symmetric]
    by (simp add: u16_uint chunk_def min_def of_nat_diff) arith
  then have cur: "(word_of_int (min (uint (lw_length op) - uint (lw_index op + lw_cur_length op)) (client_mtu c - 5)) :: u16) =
      of_nat (length (chunk v m n'))" by simp
  show ?thesis
    using len ge cur op(2) assms(1) lw(1) ok
    by (cases "n' = length v")
      (simp_all add: prepare_write_cb_def set_data_def BT_ATT_OP_PREP_WRITE_RSP_def BT_ATT_OP_ERROR_RSP_def Let_def)
qed

lemma prepare_cb_value:
  assumes "client_up env c" "req_queue (engine c) = []" "long_write_data c p op" "writing_op op h off v m n"
    "m = unat (att_mtu (engine c))" "n < length v" "unat off + length v < 65536"
  defines "n' \<equiv> n + length (chunk v m n)"
  shows "\<exists>c1 c' op'. prepare_write_cb env c p BT_ATT_OP_PREP_WRITE_RSP (Some (prep_pdu h off v m n)) = Some (c1, []) \<and>
    request_unref c1 p = Some (c', []) \<and> same_long_write op op' \<and> att_mtu (engine c') = att_mtu (engine c) \<and>
    (if n' = length v then executing env c' p op' else long_writing env c' p op' h off v n')"
proof -
  obtain r where r: "gc_reqs c p = Some r" "r_ref_count r = 1" "r_data r = Some (Long_write_data op)"
    "r_destroy r = Some Long_write_op_free" "gc_long_write_queue c = []" using assms(3) by (auto simp: long_write_data_def)
  have up: "gc_att c" "23 \<le> m" using assms(1,5) by (simp_all add: client_up_def idle_link_def can_send_def)
  note eval = prepare_cb_eval [OF r(1,3) assms(4,6,7) up(1) assms(5) up(2), of env, folded n'_def]
  let ?put = "\<lambda>op. put_request c p (r\<lparr>r_data := Some (Long_write_data op)\<rparr>)"
  have send: "\<exists>c1 c' i. resend_request env (?put op') p opcode pdu cb = Some (True, c1, []) \<and> request_unref c1 p = Some (c', []) \<and>
      i \<noteq> 0 \<and> req_queue (engine c') = [client_op i opcode pdu cb p] \<and> client_up env c' \<and> long_write_data c' p op' \<and>
      att_mtu (engine c') = att_mtu (engine c)"
    if "req_opcode opcode" "length pdu < m" for op' opcode pdu cb
    using resend_unref [of env "?put op'" p "r\<lparr>r_data := Some (Long_write_data op')\<rparr>" opcode pdu cb] that assms(1,2,5) r
    by (fastforce simp: long_write_data_def)
  show ?thesis
  proof (cases "n' = length v")
    case True
    define op' where "op' = op\<lparr>lw_success := True, lw_att_ecode := 0, lw_reliable_error := False\<rparr>"
    from send [of BT_ATT_OP_EXEC_WRITE_REQ "[1]" op' Execute_write_cb] up(2) obtain c1 c' i where
      c1: "resend_request env (?put op') p BT_ATT_OP_EXEC_WRITE_REQ [1] Execute_write_cb = Some (True, c1, [])"
      "request_unref c1 p = Some (c', [])" "i \<noteq> 0" "req_queue (engine c') = [client_op i BT_ATT_OP_EXEC_WRITE_REQ [1] Execute_write_cb p]"
      "client_up env c'" "long_write_data c' p op'" "att_mtu (engine c') = att_mtu (engine c)" by auto
    have "complete_write_long_op env c p True 0 False = Some (c1, [])"
      using c1(1) r(1,3) by (simp add: complete_write_long_op_def complete_attempt_def long_write_of_def set_data_def op'_def)
    moreover have "executing env c' p op'" using c1(3-6) by (auto simp: executing_def op'_def)
    ultimately show ?thesis using True eval c1(2,7)
      by (intro exI [of _ c1] exI [of _ c'] exI [of _ op']) (simp add: same_long_write_def op'_def)
  next
    case False
    define op' where "op' = op\<lparr>lw_index := of_nat n', lw_cur_length := of_nat (length (chunk v m n'))\<rparr>"
    have n': "n' \<le> length v" using assms(6) chunk_facts(1) [of n v m] by (simp add: n'_def)
    have w: "writing_op op' h off v m n'" using assms(4) by (simp add: writing_op_def op'_def)
    have "length (prep_pdu h off v m n') < m" using chunk_facts(3) [of v m n'] up(2) by (simp add: prep_pdu_def)
    from send [OF read_opcodes(2) this, of op' Prepare_write_cb] obtain c1 c' i where
      c1: "resend_request env (?put op') p BT_ATT_OP_PREP_WRITE_REQ (prep_pdu h off v m n') Prepare_write_cb = Some (True, c1, [])"
      "request_unref c1 p = Some (c', [])" "i \<noteq> 0"
      "req_queue (engine c') = [client_op i BT_ATT_OP_PREP_WRITE_REQ (prep_pdu h off v m n') Prepare_write_cb p]"
      "client_up env c'" "long_write_data c' p op'" "att_mtu (engine c') = att_mtu (engine c)" by auto
    have "long_write_of (?put op') p = Some op'" by (simp add: long_write_of_def)
    moreover have "e_mem env" using assms(1) by (simp add: client_up_def idle_link_def can_send_def)
    moreover have "lw_value_handle op' = h" "lw_offset op' + lw_index op' = off + of_nat n'"
      using assms(4) by (simp_all add: writing_op_def op'_def)
    moreover have "value_chunk (lw_value op') (lw_index op') (lw_cur_length op') = Some (chunk v m n')"
      using writing_chunk(1) [OF w n'] assms(7) by simp
    ultimately have "handle_next_prep_write env (?put op') p = Some (c1, [])"
      using c1(1) by (simp add: handle_next_prep_write_def prep_write_attempt_def prep_pdu_def)
    moreover have "long_writing env c' p op' h off v n'" using c1(3-7) w assms(5) by (auto simp: long_writing_def)
    ultimately show ?thesis using False eval c1(2,7) unfolding op'_def [symmetric]
      by (intro exI [of _ c1] exI [of _ c'] exI [of _ op']) (simp add: same_long_write_def op'_def)
  qed
qed

section \<open>The procedure\<close>

definition write_report :: "'d option \<Rightarrow> 'd option \<Rightarrow> 'd option \<Rightarrow> 'd gc_event list" where
  "write_report callback user_data destroy =
     call_user callback (\<lambda>f. Gc_write_long_callback f True False 0 user_data) @ call_user destroy (\<lambda>f. Gc_destroy f user_data)"

definition long_write_report :: "'d long_write_op \<Rightarrow> 'd gc_event list" where
  "long_write_report op = write_report (lw_callback op) (lw_user_data op) (lw_destroy op)"

lemma execute_cb_value:
  assumes "long_write_data c p op" "lw_success op" "lw_att_ecode op = 0" "\<not> lw_reliable_error op"
  shows "\<exists>c1 c' es es'. execute_write_cb env c p BT_ATT_OP_EXEC_WRITE_RSP None = Some (c1, es) \<and> request_unref c1 p = Some (c', es') \<and>
    es @ es' = long_write_report op \<and> \<not> gc_in_long_write c'"
proof -
  obtain r where r: "gc_reqs c p = Some r" "r_ref_count r = 1" "r_data r = Some (Long_write_data op)"
    "r_destroy r = Some Long_write_op_free" "gc_long_write_queue c = []" using assms(1) by (auto simp: long_write_data_def)
  let ?c = "c\<lparr>gc_in_long_write := False\<rparr>"
  have "start_next_long_write env c = Some (?c, [])" using r(5) by (simp add: start_next_long_write.simps)
  then have "execute_write_cb env c p BT_ATT_OP_EXEC_WRITE_RSP None =
      Some (?c, call_user (lw_callback op) (\<lambda>f. Gc_write_long_callback f True False 0 (lw_user_data op)))"
    using assms(2-4) r(1,3) by (simp add: execute_write_cb_def long_write_of_def BT_ATT_OP_EXEC_WRITE_RSP_def BT_ATT_OP_ERROR_RSP_def)
  moreover have "\<exists>c'. request_unref ?c p = Some (c', long_write_op_free op) \<and> \<not> gc_in_long_write c'"
    using r by (simp add: request_unref_def call_req_destroy_def)
  ultimately show ?thesis by (auto simp: long_write_report_def write_report_def long_write_op_free_def)
qed

text \<open>
  What the client relies on: a peer that takes prepared writes of consecutive bytes, which it repeats
  in its response, and stores them on the execute write.
\<close>

locale writable_peer =
  fixes peer :: "'s \<Rightarrow> bytes \<Rightarrow> (bytes \<times> 's) option"
    and prepared :: "'s \<Rightarrow> u16 \<Rightarrow> u16 \<Rightarrow> nat \<Rightarrow> bytes \<Rightarrow> 's \<Rightarrow> bool"
    and wrote :: "'s \<Rightarrow> u16 \<Rightarrow> u16 \<Rightarrow> bytes \<Rightarrow> 's \<Rightarrow> bool"
  assumes prepare: "prepared s0 h off m w s \<Longrightarrow> x \<noteq> [] \<Longrightarrow> length x \<le> m - 5 \<Longrightarrow> unat off + length w + length x < 65536 \<Longrightarrow>
      \<exists>s'. peer s (BT_ATT_OP_PREP_WRITE_REQ # put_le16 h @ put_le16 (off + of_nat (length w)) @ x) =
        Some (BT_ATT_OP_PREP_WRITE_RSP # put_le16 h @ put_le16 (off + of_nat (length w)) @ x, s') \<and>
        prepared s0 h off m (w @ x) s'"
    and execute: "prepared s0 h off m w s \<Longrightarrow> w \<noteq> [] \<Longrightarrow> unat off + length w < 65536 \<Longrightarrow>
      \<exists>s'. peer s [BT_ATT_OP_EXEC_WRITE_REQ, 1] = Some ([BT_ATT_OP_EXEC_WRITE_RSP], s') \<and> wrote s0 h off w s'"
begin

lemma execute_round:
  assumes "executing env c p op" "link_env env" "prepared s0 h off m w s" "w \<noteq> []" "unat off + length w < 65536"
  shows "\<exists>c' s'. client_round env peer (c, s) = Some ((c', s'), long_write_report op) \<and> wrote s0 h off w s' \<and> \<not> gc_in_long_write c'"
proof -
  obtain i where i: "i \<noteq> 0" "req_queue (engine c) = [client_op i BT_ATT_OP_EXEC_WRITE_REQ [1] Execute_write_cb p]"
    and ex: "client_up env c" "long_write_data c p op" "lw_success op" "lw_att_ecode op = 0" "\<not> lw_reliable_error op"
    using assms(1) by (auto simp: executing_def)
  obtain s' where s': "peer s [BT_ATT_OP_EXEC_WRITE_REQ, 1] = Some ([BT_ATT_OP_EXEC_WRITE_RSP], s')" "wrote s0 h off w s'"
    using execute [OF assms(3-5)] by blast
  have "long_write_data (quiet env c) p op" using ex(2) by (simp add: long_write_data_def)
  from execute_cb_value [OF this ex(3-5), of env] obtain c1 c' es es' where
    "execute_write_cb env (quiet env c) p BT_ATT_OP_EXEC_WRITE_RSP None = Some (c1, es)" "request_unref c1 p = Some (c', es')"
    "es @ es' = long_write_report op" "\<not> gc_in_long_write c'" by blast
  moreover have "get_op_type BT_ATT_OP_EXEC_WRITE_REQ = ATT_OP_TYPE_REQ" "get_op_type BT_ATT_OP_EXEC_WRITE_RSP = ATT_OP_TYPE_RSP"
    "BT_ATT_OP_EXEC_WRITE_RSP = BT_ATT_OP_EXEC_WRITE_REQ + 1" "BT_ATT_OP_EXEC_WRITE_RSP \<noteq> BT_ATT_OP_ERROR_RSP"
    by (simp_all add: opcode_eval BT_ATT_OP_EXEC_WRITE_REQ_def BT_ATT_OP_EXEC_WRITE_RSP_def BT_ATT_OP_ERROR_RSP_def)
  ultimately show ?thesis
    using round_answered [where peer = peer, OF ex(1) assms(2) i(2,1) _ s'(1)] s'(2) by (auto simp: client_call_def)
qed

lemma prepare_round:
  assumes "long_writing env c p op h off v n" "link_env env" "m = unat (att_mtu (engine c))" "prepared s0 h off m (take n v) s"
    "n < length v" "unat off + length v < 65536"
  defines "n' \<equiv> n + length (chunk v m n)"
  shows "\<exists>c' s' op'. client_round env peer (c, s) = Some ((c', s'), []) \<and> prepared s0 h off m (take n' v) s' \<and>
    same_long_write op op' \<and> att_mtu (engine c') = att_mtu (engine c) \<and>
    (if n' = length v then executing env c' p op' else long_writing env c' p op' h off v n')"
proof -
  obtain i where i: "i \<noteq> 0" "req_queue (engine c) = [client_op i BT_ATT_OP_PREP_WRITE_REQ (prep_pdu h off v m n) Prepare_write_cb p]"
    and lw: "client_up env c" "long_write_data c p op" "writing_op op h off v m n"
    using assms(1,3) by (auto simp: long_writing_def)
  have m: "23 \<le> m" using lw(1) assms(3) by (simp add: client_up_def idle_link_def can_send_def)
  have "chunk v m n \<noteq> []" "length (chunk v m n) \<le> m - 5" "unat off + length (take n v) + length (chunk v m n) < 65536"
    using chunk_facts(1,2) [of n v m] chunk_facts(3) [of v m n] assms(5,6) m by simp_all
  from prepare [OF assms(4) this] assms(5) obtain s' where
    s': "peer s (BT_ATT_OP_PREP_WRITE_REQ # prep_pdu h off v m n) = Some (BT_ATT_OP_PREP_WRITE_RSP # prep_pdu h off v m n, s')"
    "prepared s0 h off m (take n' v) s'" by (auto simp: prep_pdu_def n'_def chunk_facts(6) min_def)
  have "client_up env (quiet env c)" "long_write_data (quiet env c) p op" using lw(1,2) by (simp_all add: long_write_data_def)
  from prepare_cb_value [OF this(1) quiet_simps(7) this(2) lw(3) _ assms(5,6)] assms(3) obtain c1 c' op' where
    c1: "prepare_write_cb env (quiet env c) p BT_ATT_OP_PREP_WRITE_RSP (Some (prep_pdu h off v m n)) = Some (c1, [])"
    "request_unref c1 p = Some (c', [])" "same_long_write op op'" "att_mtu (engine c') = att_mtu (engine c)"
    "if n' = length v then executing env c' p op' else long_writing env c' p op' h off v n'"
    unfolding n'_def quiet_simps by blast
  have "get_op_type BT_ATT_OP_PREP_WRITE_REQ = ATT_OP_TYPE_REQ" "get_op_type BT_ATT_OP_PREP_WRITE_RSP = ATT_OP_TYPE_RSP"
    "BT_ATT_OP_PREP_WRITE_RSP = BT_ATT_OP_PREP_WRITE_REQ + 1" "BT_ATT_OP_PREP_WRITE_RSP \<noteq> BT_ATT_OP_ERROR_RSP"
    by (simp_all add: opcode_eval BT_ATT_OP_PREP_WRITE_REQ_def BT_ATT_OP_PREP_WRITE_RSP_def BT_ATT_OP_ERROR_RSP_def)
  moreover have "prep_pdu h off v m n \<noteq> []" by (simp add: prep_pdu_def put_le16_def)
  ultimately have "client_round env peer (c, s) = Some ((c', s'), [])"
    using round_answered [where peer = peer, OF lw(1) assms(2) i(2,1) _ s'(1)] c1(1,2) by (simp add: client_call_def)
  then show ?thesis using s'(2) c1(3-5) by blast
qed

lemma long_write_runs:
  assumes "link_env env" "unat off + length v < 65536" "long_writing env c p op h off v n" "m = unat (att_mtu (engine c))"
    "prepared s0 h off m (take n v) s" "n < length v"
  shows "\<exists>c' s'. client_rounds env peer ((length v - n - 1) div (m - 5) + 2) (c, s) = Some ((c', s'), long_write_report op) \<and>
    wrote s0 h off v s' \<and> \<not> gc_in_long_write c'"
  using assms(3-)
proof (induction "length v - n" arbitrary: c op n s rule: less_induct)
  case less
  have m: "23 \<le> m" using less.prems(1,2) by (simp add: long_writing_def client_up_def idle_link_def can_send_def)
  let ?n = "n + length (chunk v m n)"
  from prepare_round [OF less.prems(1) assms(1) less.prems(2-4) assms(2)] obtain c1 s1 op1 where
    r1: "client_round env peer (c, s) = Some ((c1, s1), [])" "prepared s0 h off m (take ?n v) s1" "same_long_write op op1"
    "att_mtu (engine c1) = att_mtu (engine c)" "if ?n = length v then executing env c1 p op1 else long_writing env c1 p op1 h off v ?n"
    by blast
  have rep: "long_write_report op1 = long_write_report op" using r1(3) by (simp add: long_write_report_def same_long_write_def)
  show ?case
  proof (cases "?n = length v")
    case True
    then have "(length v - n - 1) div (m - 5) = 0" using chunk_facts(3) [of v m n] m by (simp add: div_eq_0_iff)
    moreover have "v \<noteq> []" "executing env c1 p op1" "prepared s0 h off m v s1" using less.prems(4) r1(2,5) True by auto
    then obtain c' s' where "client_round env peer (c1, s1) = Some ((c', s'), long_write_report op1)" "wrote s0 h off v s'" "\<not> gc_in_long_write c'"
      using execute_round [OF _ assms(1) _ _ assms(2)] by blast
    ultimately show ?thesis using r1(1) rep by (intro exI [of _ c'] exI [of _ s']) (simp add: numeral_2_eq_2)
  next
    case False
    have n: "?n < length v" "?n = n + (m - 5)"
      using False less.prems(4) chunk_facts(1,4) [of n v m] by auto
    have w: "long_writing env c1 p op1 h off v ?n" "m = unat (att_mtu (engine c1))" using r1(4,5) less.prems(2) False by auto
    have "length v - ?n < length v - n" using n m by linarith
    from less.hyps [OF this w r1(2) n(1)] obtain c' s' where
      c': "client_rounds env peer ((length v - ?n - 1) div (m - 5) + 2) (c1, s1) = Some ((c', s'), long_write_report op1)"
      "wrote s0 h off v s'" "\<not> gc_in_long_write c'" by blast
    have "(length v - n - 1) div (m - 5) = Suc ((length v - ?n - 1) div (m - 5))"
    proof -
      have "m - 5 \<noteq> 0" using m by linarith
      then have "(a + (m - 5)) div (m - 5) = Suc (a div (m - 5))" for a by (metis div_add_self2 Suc_eq_plus1)
      moreover have "length v - n - 1 = (length v - ?n - 1) + (m - 5)" using n m by linarith
      ultimately show ?thesis by metis
    qed
    then show ?thesis using r1(1) c' rep by (intro exI [of _ c'] exI [of _ s']) simp
  qed
qed

text \<open>The whole procedure.\<close>

lemma long_write_all:
  assumes "client_up env c" "req_queue (engine c) = []" "link_env env" "\<not> gc_in_long_write c" "gc_session_id c = 0"
    "gc_long_write_queue c = []" "prepared s h off m [] s" "m = unat (att_mtu (engine c))" "v \<noteq> []" "unat off + length v < 65536"
  shows "\<exists>i c1 c' s'. i \<noteq> 0 \<and>
    bt_gatt_client_write_long_value env c reliable h off (Some v) (of_nat (length v)) callback user_data destroy = Some (i, c1, []) \<and>
    gc_in_long_write c1 \<and>
    client_rounds env peer ((length v - 1) div (m - 5) + 2) (c1, s) = Some ((c', s'), write_report callback user_data destroy) \<and>
    wrote s h off v s' \<and> \<not> gc_in_long_write c'"
proof -
  have up: "gc_att c" "23 \<le> m" "e_mem env" using assms(1,8) by (simp_all add: client_up_def idle_link_def can_send_def)
  have len: "unat (of_nat (length v) :: u16) = length v" "(of_nat (length v) :: u16) \<noteq> 0"
    using assms(9,10) u16_nat [of "length v"] by (simp_all, metis length_0_conv unat_0)
  define op where "op = \<lparr>lw_reliable = reliable, lw_success = False, lw_att_ecode = 0, lw_reliable_error = False,
    lw_value_handle = h, lw_value = v, lw_length = of_nat (length v), lw_offset = off, lw_index = 0,
    lw_cur_length = of_nat (length (chunk v m 0)), lw_callback = callback, lw_user_data = user_data, lw_destroy = destroy\<rparr>"
  have w: "writing_op op h off v m 0" by (simp add: writing_op_def op_def)
  obtain p c0 r where c0: "request_create c = Some (p, c0)" "gc_reqs c0 p = Some r" "r_ref_count r = 1" "r_id r \<noteq> 0"
    "gc_hl c0 = gc_hl c" "gc_att c0" "gc_in_long_write c0 = gc_in_long_write c" "gc_session_id c0 = gc_session_id c"
    "gc_long_write_queue c0 = gc_long_write_queue c"
    using up(1) by (auto simp: request_create_def Let_def word_less_nat_alt unat_eq_0)
  let ?r = "r\<lparr>r_data := Some (Long_write_data op), r_destroy := Some Long_write_op_free, r_long_write := True\<rparr>"
  let ?c = "put_request c0 p ?r"
  have "client_up env ?c" "length (prep_pdu h off v m 0) < unat (att_mtu (engine ?c))"
    using assms(1,8) c0(5,6) up(2) chunk_facts(3) [of v m 0] by (simp_all add: client_up_def prep_pdu_def)
  note sd = client_send_eval [OF this(1) read_opcodes(2) this(2)]
  define i where "i = next_id (engine c0)"
  define c1 where "c1 = (put_request (enqueued env c0 (client_op i BT_ATT_OP_PREP_WRITE_REQ (prep_pdu h off v m 0) Prepare_write_cb p)) p
    (?r\<lparr>r_att_id := i\<rparr>))\<lparr>gc_in_long_write := True\<rparr>"
  have "uint (of_nat (length v) :: u16) = int (length v)" "client_mtu c0 = int m"
    using u16_uint assms(10) client_mtu_eval [OF c0(6)] assms(8) c0(5) by simp_all
  then have "min (uint (of_nat (length v) :: u16)) (client_mtu c0 - 5) = int (length (chunk v m 0))"
    using up(2) by (simp add: chunk_def min_def of_nat_diff) arith
  then have cur: "(word_of_int (min (uint (of_nat (length v) :: u16)) (client_mtu c0 - 5)) :: u16) = of_nat (length (chunk v m 0))" by simp
  have "value_chunk v 0 (of_nat (length (chunk v m 0))) = Some (chunk v m 0)"
    using writing_chunk(1) [OF w] assms(10) by (simp add: op_def)
  moreover have "lw_cur_length op = of_nat (length (chunk v m 0))" by (simp add: op_def)
  moreover have "src_bytes (Some v) (of_nat (length v)) = Some v" using src_bytes_all [of v] assms(10) by simp
  ultimately have st: "bt_gatt_client_write_long_value env c reliable h off (Some v) (of_nat (length v)) callback user_data destroy =
      Some (r_id r, c1, [])"
    using assms(4,5,10) len up(3) c0 sd cur
    by (simp add: bt_gatt_client_write_long_value_def send_request_def op_def [symmetric] prep_pdu_def i_def c1_def)
  have m: "m = unat (att_mtu (engine c1))" using assms(8) c0(5) by (simp add: c1_def)
  have up1: "client_up env (x\<lparr>gc_in_long_write := b\<rparr>) = client_up env x" for x :: "'a gatt_client" and b
    by (simp add: client_up_def)
  have "client_up env c1" using \<open>client_up env ?c\<close> by (simp add: c1_def up1)
  moreover have "long_write_data c1 p op" using c0(3,9) assms(6) by (simp add: long_write_data_def c1_def)
  moreover have "req_queue (engine c1) = [client_op i BT_ATT_OP_PREP_WRITE_REQ (prep_pdu h off v m 0) Prepare_write_cb p]" "i \<noteq> 0"
    using assms(2) c0(5) by (simp_all add: c1_def i_def)
  ultimately have "long_writing env c1 p op h off v 0" using w m unfolding long_writing_def by blast
  then obtain c' s' where "client_rounds env peer ((length v - 1) div (m - 5) + 2) (c1, s) = Some ((c', s'), long_write_report op)"
    "wrote s h off v s'" "\<not> gc_in_long_write c'"
    using long_write_runs [OF assms(3,10) _ m] assms(7,9) by fastforce
  moreover have "gc_in_long_write c1" by (simp add: c1_def)
  ultimately show ?thesis using st c0(4)
    by (intro exI [of _ "r_id r"] exI [of _ c1] exI [of _ c'] exI [of _ s']) (simp add: long_write_report_def op_def)
qed

end

section \<open>The server\<close>

text \<open>An attribute whose value is kept in the database and may be written.\<close>

definition kept_value :: "'c srv_env \<Rightarrow> 'c bt_gatt_server \<Rightarrow> u16 \<Rightarrow> attr_ptr \<Rightarrow> 'c fn gatt_db_attribute \<Rightarrow> bool" where
  "kept_value env srv h q a \<longleftrightarrow> may_write env srv h q \<and> db_attr (srv_db srv) q = Some a \<and> a_write_func a = None \<and>
     (a_value a \<noteq> None \<longrightarrow> length (the (a_value a)) = unat (a_value_len a)) \<and>
     (\<exists>rel es. is_reliable_write_supported env srv (h - 1) = Some (rel, srv_db srv, es))"

text \<open>The server of \<open>srv0\<close> after prepared writes of the bytes \<open>w\<close> from the offset on.\<close>

definition prepared_write :: "'c srv_env \<Rightarrow> 'c bt_gatt_server \<Rightarrow> u16 \<Rightarrow> u16 \<Rightarrow> nat \<Rightarrow> bytes \<Rightarrow> 'c bt_gatt_server \<Rightarrow> bool" where
  "prepared_write env srv0 h off m w srv \<longleftrightarrow> srv_waits srv \<and> link_env env \<and> m = unat (att_mtu (srv_att srv)) \<and>
     1 < max_prep_queue_len srv \<and> srv_db srv = srv_db srv0 \<and> (\<exists>q a. kept_value env srv h q a) \<and>
     (if w = [] then prep_queue srv = [] else \<exists>p. prep_queue srv = [p] \<and> pd_value p = w \<and> pd_handle p = h \<and> pd_offset p = off)"

definition wrote_value :: "'c srv_env \<Rightarrow> 'c bt_gatt_server \<Rightarrow> u16 \<Rightarrow> u16 \<Rightarrow> bytes \<Rightarrow> 'c bt_gatt_server \<Rightarrow> bool" where
  "wrote_value env srv0 h off w srv \<longleftrightarrow> srv_idle srv \<and>
     (\<exists>q a a'. gatt_db_get_attribute (Some (srv_db srv0)) h = Some (Some q) \<and> db_attr (srv_db srv0) q = Some a \<and>
        db_attr (srv_db srv) q = Some a' \<and> stored a' = written (e_junk env) (stored a) (unat off) w)"

lemma kept_value_cong:
  assumes "srv_db s' = srv_db s" "io_on_l2cap (srv_att s') = io_on_l2cap (srv_att s)"
    "io_sec_level (srv_att s') = io_sec_level (srv_att s)"
  shows "kept_value env s' h q a = kept_value env s h q a"
proof -
  have "is_reliable_write_supported env s' x = is_reliable_write_supported env s x" for x
    unfolding is_reliable_write_supported_def assms(1) ..
  then show ?thesis using may_write_cong [OF assms] by (simp add: kept_value_def assms(1))
qed

lemma in_request_simps [simp]:
  "srv_db (in_request srv) = srv_db srv" "prep_queue (in_request srv) = prep_queue srv"
  "max_prep_queue_len (in_request srv) = max_prep_queue_len srv" "in_request (srv\<lparr>prep_queue := ps\<rparr>) = (in_request srv)\<lparr>prep_queue := ps\<rparr>"
  "in_request (srv\<lparr>srv_db := db\<rparr>) = (in_request srv)\<lparr>srv_db := db\<rparr>"
  "kept_value env (in_request srv) h q a = kept_value env srv h q a" "(in_request srv)\<lparr>srv_att := t\<rparr> = srv\<lparr>srv_att := t\<rparr>"
  "(in_request srv)\<lparr>prep_queue := ps, srv_att := t\<rparr> = srv\<lparr>prep_queue := ps, srv_att := t\<rparr>"
  "(in_request srv)\<lparr>srv_db := db, prep_queue := ps, srv_att := t\<rparr> = srv\<lparr>srv_db := db, prep_queue := ps, srv_att := t\<rparr>"
  by (simp_all add: in_request_def) (rule kept_value_cong; simp)

lemma prepared_store:
  assumes "prepared_write env srv0 h off m w srv" "unat off + length w + length x < 65536"
  shows "\<exists>p es. store_prep_data env (in_request srv) h (off + of_nat (length w)) x = Some (True, (in_request srv)\<lparr>prep_queue := [p]\<rparr>, es) \<and>
    prep_ok p \<and> pd_value p = w @ x \<and> pd_handle p = h \<and> pd_offset p = off"
proof -
  obtain q a where pw: "srv_ok srv" "e_mem env" "kept_value env (in_request srv) h q a"
    using assms(1) by (auto simp: prepared_write_def srv_waits_def link_env_def)
  show ?thesis
  proof (cases "w = []")
    case True
    then have "prep_queue (in_request srv) = []" "length x < 65536" using assms by (simp_all add: prepared_write_def)
    with store_prep_first [OF pw(2), of "in_request srv" h _ _ x off] pw(3) obtain p es where
      "store_prep_data env (in_request srv) h off x = Some (True, (in_request srv)\<lparr>prep_queue := [p]\<rparr>, es)"
      "prep_ok p" "pd_value p = x" "pd_handle p = h" "pd_offset p = off" by (auto simp: kept_value_def)
    then show ?thesis using True by (intro exI [of _ p] exI [of _ es]) simp
  next
    case False
    then obtain p where p: "prep_queue (in_request srv) = [p]" "pd_value p = w" "pd_handle p = h" "pd_offset p = off"
      using assms(1) by (auto simp: prepared_write_def)
    have ok: "prep_ok p" using p(1) pw(1) by (simp add: srv_ok_def)
    then have len: "unat (pd_length p) = length w" using p(2) by (simp add: prep_ok_def)
    from store_prep_next [OF pw(2) p(1) ok p(3), of x] assms(2) len p(2,4) show ?thesis
      by (auto simp: prep_end [OF len])
  qed
qed

lemma prepare_reply:
  assumes "prepared_write env srv0 h off m w srv" "x \<noteq> []" "length x \<le> m - 5" "unat off + length w + length x < 65536"
  defines "pdu \<equiv> put_le16 h @ put_le16 (off + of_nat (length w)) @ x"
  shows "\<exists>srv'. serve env srv (BT_ATT_OP_PREP_WRITE_REQ # pdu) = Some (BT_ATT_OP_PREP_WRITE_RSP # pdu, srv') \<and>
    prepared_write env srv0 h off m (w @ x) srv'"
proof -
  obtain q a where pw: "srv_waits srv" "link_env env" "m = unat (att_mtu (srv_att srv))" "1 < max_prep_queue_len srv"
    "srv_db srv = srv_db srv0" "kept_value env srv h q a" "length (prep_queue srv) \<le> 1"
    using assms(1) by (auto simp: prepared_write_def split: if_splits)
  obtain p es where st: "store_prep_data env (in_request srv) h (off + of_nat (length w)) x =
      Some (True, (in_request srv)\<lparr>prep_queue := [p]\<rparr>, es)"
    "prep_ok p" "pd_value p = w @ x" "pd_handle p = h" "pd_offset p = off"
    using prepared_store [OF assms(1,4)] by blast
  let ?s = "srv\<lparr>prep_queue := [p]\<rparr>"
  have m: "23 \<le> m" using srv_ok_mtu [of srv] pw(1,3) by (simp add: srv_waits_def)
  have n: "length pdu < unat (att_mtu (srv_att ?s))" using assms(3) m pw(3) by (simp add: pdu_def)
  have w: "srv_waits ?s" using pw(1,4) st(2) serving_cong [of ?s srv] by (simp add: srv_waits_def srv_ok_def)
  have "src_bytes (Some pdu) (of_nat (length pdu)) = Some pdu"
    using src_bytes_all [of pdu] n unat_u16_less [of "att_mtu (srv_att srv)"] by fastforce
  from srv_send_reply [OF w pw(2) _ _ this n, of BT_ATT_OP_PREP_WRITE_RSP] response_opcodes(10) obtain t t' ev where
    t: "srv_send env (in_request ?s) BT_ATT_OP_PREP_WRITE_RSP (Some pdu) (length pdu) = Some (?s\<lparr>srv_att := t\<rparr>, [])"
    "can_write_data env t = (True, t', Att_send_pdu (BT_ATT_OP_PREP_WRITE_RSP # pdu) # ev)" "served ?s t'"
    by (auto simp: response_opcode_def)
  have "drop 2 pdu = put_le16 (off + of_nat (length w)) @ x" "drop 4 pdu = x" by (simp_all add: pdu_def put_le16_def)
  moreover have "kept_value env (in_request srv) h q a" using pw(6) by simp
  ultimately have "prep_write_cb env (in_request srv) BT_ATT_OP_PREP_WRITE_REQ pdu = Some (?s\<lparr>srv_att := t\<rparr>, es)"
    using pw(4,7) st(1) t(1) by (simp add: prep_write_cb_def kept_value_def may_write_def Let_def pdu_def)
  then have "serve env srv (BT_ATT_OP_PREP_WRITE_REQ # pdu) = Some (BT_ATT_OP_PREP_WRITE_RSP # pdu, ?s\<lparr>srv_att := t'\<rparr>)"
    using prep_req.receive_waiting [of srv env pdu, folded in_request_def] pw(1) t(2) by (auto simp: serve_def srv_waits_def)
  moreover have "prepared_write env srv0 h off m (w @ x) (?s\<lparr>srv_att := t'\<rparr>)"
    using t(3) pw st(3-5) assms(2) kept_value_cong [of "?s\<lparr>srv_att := t'\<rparr>" srv env h q a]
    by (auto simp: prepared_write_def served_def simp del: split_paired_Ex)
  ultimately show ?thesis by blast
qed

lemma execute_reply:
  assumes "prepared_write env srv0 h off m w srv" "w \<noteq> []" "unat off + length w < 65536"
  shows "\<exists>srv'. serve env srv [BT_ATT_OP_EXEC_WRITE_REQ, 1] = Some ([BT_ATT_OP_EXEC_WRITE_RSP], srv') \<and> wrote_value env srv0 h off w srv'"
proof -
  obtain q a p where pw: "srv_waits srv" "link_env env" "srv_db srv = srv_db srv0" "kept_value env (in_request srv) h q a"
    "prep_queue (in_request srv) = [p]" "pd_value p = w" "pd_handle p = h" "pd_offset p = off"
    using assms(1,2) by (auto simp: prepared_write_def)
  have ok: "srv_ok (in_request srv)" "e_mem env" using pw(1,2) srv_ok_in_req by (auto simp: srv_waits_def in_request_def link_env_def)
  from exec_write_stores [OF ok, of h q a p] pw(4-8) assms(2,3) obtain db' a' where
    ex: "exec_write_cb env (in_request srv) BT_ATT_OP_EXEC_WRITE_REQ [1] =
      srv_send env ((in_request srv)\<lparr>srv_db := db', prep_queue := []\<rparr>) BT_ATT_OP_EXEC_WRITE_RSP None 0" "db_wf db'"
    and a': "db_attr db' q = Some a'" "stored a' = written (e_junk env) (stored a) (unat off) w"
    by (auto simp: kept_value_def)
  let ?s = "srv\<lparr>srv_db := db', prep_queue := []\<rparr>"
  have w: "srv_waits ?s" using pw(1) ex(2) serving_cong [of ?s srv] by (simp add: srv_waits_def srv_ok_def)
  have "0 < unat (att_mtu (srv_att ?s))" using srv_ok_mtu [of ?s] w by (simp add: srv_waits_def)
  from srv_send_reply [OF w pw(2) _ _ _ this, of BT_ATT_OP_EXEC_WRITE_RSP None "[]"] response_opcodes(11) obtain t t' ev where
    t: "srv_send env (in_request ?s) BT_ATT_OP_EXEC_WRITE_RSP None 0 = Some (?s\<lparr>srv_att := t\<rparr>, [])"
    "can_write_data env t = (True, t', Att_send_pdu [BT_ATT_OP_EXEC_WRITE_RSP] # ev)" "served ?s t'"
    by (auto simp: response_opcode_def)
  have "serve env srv [BT_ATT_OP_EXEC_WRITE_REQ, 1] = Some ([BT_ATT_OP_EXEC_WRITE_RSP], ?s\<lparr>srv_att := t'\<rparr>)"
    using exec_req.receive_waiting [of srv env "[1]", folded in_request_def] pw(1) ex(1) t(1,2) by (auto simp: serve_def srv_waits_def)
  moreover have "wrote_value env srv0 h off w (?s\<lparr>srv_att := t'\<rparr>)"
    using t(3) pw(3,4) a' by (auto simp: wrote_value_def served_def srv_waits_idle kept_value_def may_write_def)
  ultimately show ?thesis by blast
qed

interpretation server_writes: writable_peer "serve env" "prepared_write env" "wrote_value env" for env :: "'c srv_env"
  by unfold_locales (use prepare_reply execute_reply in blast)+

text \<open>
  C3: a long write through both stacks.  A client on a link to a server whose database keeps a value the
  client may write starts a long write; every PDU goes through both ATT engines.  After exactly one
  round for every chunk of the MTU less five bytes and one for the execute write, the server has stored
  the bytes at the offset in one piece and holds no prepared write any more, and the callback of the
  application is called exactly once, with success, then its data is released.  While it runs,
  the client is marked as in a long write, so that further ones are queued.
\<close>

theorem client_writes_server:
  assumes "client_up env c" "req_queue (engine c) = []" "link_env env" "\<not> gc_in_long_write c" "gc_session_id c = 0"
    "gc_long_write_queue c = []" "srv_idle srv" "link_env senv" "1 < max_prep_queue_len srv" "kept_value senv srv h q a"
    "att_mtu (srv_att srv) = att_mtu (engine c)" "v \<noteq> []" "unat off + length v < 65536"
  shows "\<exists>i c1 c' srv' a'. i \<noteq> 0 \<and>
    bt_gatt_client_write_long_value env c reliable h off (Some v) (of_nat (length v)) (Some f) user_data (Some d) = Some (i, c1, []) \<and>
    gc_in_long_write c1 \<and>
    client_rounds env (serve senv) ((length v - 1) div (unat (att_mtu (engine c)) - 5) + 2) (c1, srv) =
      Some ((c', srv'), [Gc_write_long_callback f True False 0 user_data, Gc_destroy d user_data]) \<and>
    srv_idle srv' \<and> db_attr (srv_db srv') q = Some a' \<and> stored a' = written (e_junk senv) (stored a) (unat off) v \<and>
    \<not> gc_in_long_write c'"
proof -
  have "prepared_write senv srv h off (unat (att_mtu (engine c))) [] srv"
    using assms(7-11) by (auto simp: prepared_write_def srv_waits_idle simp del: split_paired_Ex)
  from server_writes.long_write_all [OF assms(1-6) this refl assms(12,13), of reliable "Some f" user_data "Some d"]
  obtain i c1 c' srv' where "i \<noteq> 0" "gc_in_long_write c1" "\<not> gc_in_long_write c'" "wrote_value senv srv h off v srv'"
    "bt_gatt_client_write_long_value env c reliable h off (Some v) (of_nat (length v)) (Some f) user_data (Some d) = Some (i, c1, [])"
    "client_rounds env (serve senv) ((length v - 1) div (unat (att_mtu (engine c)) - 5) + 2) (c1, srv) =
      Some ((c', srv'), write_report (Some f) user_data (Some d))" by blast
  moreover from this(4) assms(10) obtain a' where "srv_idle srv'" "db_attr (srv_db srv') q = Some a'"
    "stored a' = written (e_junk senv) (stored a) (unat off) v"
    by (auto simp: wrote_value_def kept_value_def may_write_def)
  ultimately show ?thesis
    by (intro exI [of _ i] exI [of _ c1] exI [of _ c'] exI [of _ srv'] exI [of _ a']) (simp add: write_report_def call_user_def)
qed

text \<open>Witness of \<open>client_writes_server\<close>: the example client writes 20 bytes behind the first byte of a characteristic of the example server.\<close>

lemma srv_example_kept: "kept_value srv_example_env srv_example 3 (1, 2) (srv_example_attr 3 0x2A00 (Some [10, 20, 30]) None None)"
  using srv_example_get(1) srv_example_attrs(1) srv_example_permissions(2) srv_example_reliable
  by (auto simp: kept_value_def may_write_def srv_example_attr_def)

theorem client_writes_server_witness:
  "\<exists>i c1 c' srv' a'. bt_gatt_client_write_long_value gc_example_env gc_example True 3 1 (Some (replicate 20 7)) 20 (Some 8) None (Some 9) =
      Some (i, c1, []) \<and>
    client_rounds gc_example_env (serve srv_example_env) 3 (c1, srv_example) =
      Some ((c', srv'), [Gc_write_long_callback 8 True False 0 None, Gc_destroy 9 None]) \<and>
    db_attr (srv_db srv') (1, 2) = Some a' \<and> stored a' = 10 # replicate 20 7"
proof -
  have "srv_idle srv_example" "link_env srv_example_env" "1 < max_prep_queue_len srv_example"
    "att_mtu (srv_att srv_example) = att_mtu (engine gc_example)"
    using srv_example_facts gc_example_facts(4) by (simp_all add: srv_idle_def link_env_def srv_example_env_def)
  moreover have "\<not> gc_in_long_write gc_example" "gc_session_id gc_example = 0" "gc_long_write_queue gc_example = []"
    by (simp_all add: gc_example_def)
  ultimately obtain i c1 c' srv' a' where
    "bt_gatt_client_write_long_value gc_example_env gc_example True 3 1 (Some (replicate 20 7)) (of_nat (length (replicate 20 (7 :: u8))))
      (Some 8) None (Some 9) = Some (i, c1, [])"
    "client_rounds gc_example_env (serve srv_example_env)
      ((length (replicate 20 (7 :: u8)) - 1) div (unat (att_mtu (engine gc_example)) - 5) + 2) (c1, srv_example) =
      Some ((c', srv'), [Gc_write_long_callback 8 True False 0 None, Gc_destroy 9 None])"
    "db_attr (srv_db srv') (1, 2) = Some a'"
    "stored a' = written (e_junk srv_example_env) (stored (srv_example_attr 3 0x2A00 (Some [10, 20, 30]) None None)) (unat (1 :: u16)) (replicate 20 7)"
    using client_writes_server [OF gc_example_facts(1-3) _ _ _ _ _ _ srv_example_kept, of "replicate 20 7" 1 True 8 None 9]
    by fastforce
  moreover have "written (e_junk srv_example_env) (stored (srv_example_attr 3 0x2A00 (Some [10, 20, 30]) None None)) (unat (1 :: u16))
      (replicate 20 7) = 10 # replicate 20 7" by (simp add: srv_example_attr_def stored_def written_def)
  moreover have "(length (replicate 20 (7 :: u8)) - 1) div (unat (att_mtu (engine gc_example)) - 5) + 2 = 3"
    "(of_nat (length (replicate 20 (7 :: u8))) :: u16) = 20" by (simp_all add: gc_example_facts(4))
  ultimately show ?thesis by metis
qed

end
