(* ===== verification/Gatt_Client_Subscribe.thy ===== *)
theory Gatt_Client_Subscribe
  imports Gatt_Client_Link
begin

text \<open>
  Notifications between server and client: which functions of the application a notification reaches,
  how registrations for one characteristic share a write of its configuration descriptor, and the
  states in which the client takes a characteristic or a session for something it is not.
\<close>

section \<open>Delivery\<close>

text \<open>
  What the application is told of a value of the handle \<open>h\<close>: the functions registered for it, in the order of
  registration.
\<close>

definition subscriber :: "'d gatt_client \<Rightarrow> u16 \<Rightarrow> bytes \<Rightarrow> ptr \<Rightarrow> 'd gc_event list" where
  "subscriber c h v p =
     (case gc_notify_data c p of None \<Rightarrow> []
      | Some n \<Rightarrow>
          if map_option nc_value_handle (gc_chrcs c (nd_chrc n)) = Some h
          then call_user (nd_notify n) (\<lambda>f. Gc_notify_callback f h (if v = [] then None else Some v) (of_nat (length v)) (nd_user_data n))
          else [])"

definition registrations_ok :: "'d gatt_client \<Rightarrow> bool" where
  "registrations_ok c \<longleftrightarrow> (\<forall>p \<in> set (gc_notify_list c). \<exists>n. gc_notify_data c p = Some n \<and> nd_chrc n \<in> dom (gc_chrcs c))"

definition listening :: "'d gatt_client \<Rightarrow> bool" where
  "listening c \<longleftrightarrow> map an_callback (filter (\<lambda>n. opcode_match (an_opcode n) BT_ATT_OP_HANDLE_VAL_NOT) (att_notify_list (engine c))) =
     [Some (Client Notify_cb)]"

lemma notify_handlers_eval:
  assumes "\<forall>p \<in> set ps. \<exists>n. gc_notify_data c p = Some n \<and> nd_chrc n \<in> dom (gc_chrcs c)"
  shows "notify_handlers env c (put_le16 h @ v) ps = Some (concat (map (subscriber c h v) ps))"
  using assms
proof (induction ps)
  case (Cons p ps)
  then obtain n ch where "gc_notify_data c p = Some n" "gc_chrcs c (nd_chrc n) = Some ch" by auto
  moreover have "length (put_le16 h @ v) = length v + 2" "drop 2 (put_le16 h @ v) = v" by (simp_all add: put_le16_def)
  ultimately have "notify_handler env c (put_le16 h @ v) p = Some (subscriber c h v p)"
    by (auto simp: notify_handler_def subscriber_def)
  then show ?case using Cons by simp
qed simp

lemma notification_opcode [simp]:
  "get_op_type BT_ATT_OP_HANDLE_VAL_NOT = ATT_OP_TYPE_NOT" "BT_ATT_OP_HANDLE_VAL_NOT AND ATT_OP_SIGNED_MASK = 0"
  "BT_ATT_OP_HANDLE_VAL_NOT \<noteq> BT_ATT_OP_HANDLE_VAL_IND"
  by (simp_all add: opcode_eval BT_ATT_OP_HANDLE_VAL_NOT_def ATT_OP_SIGNED_MASK_def BT_ATT_OP_HANDLE_VAL_IND_def)

lemma client_notified:
  assumes "listening c" "registrations_ok c"
  shows "client_receive env c (Some (BT_ATT_OP_HANDLE_VAL_NOT # put_le16 h @ v)) =
    Some (c, concat (map (subscriber c h v) (gc_notify_list c)))"
proof -
  from notify_calls_one(1) [OF assms(1) [unfolded listening_def], of "put_le16 h @ v"]
    notify_calls_one(2) [OF assms(1) [unfolded listening_def]] obtain ud where
    "notify_calls (engine c) BT_ATT_OP_HANDLE_VAL_NOT (put_le16 h @ v) = [Att_notify_callback (Client Notify_cb) BT_ATT_OP_HANDLE_VAL_NOT (put_le16 h @ v) ud]"
    "\<exists>n \<in> set (att_notify_list (engine c)). opcode_match (an_opcode n) BT_ATT_OP_HANDLE_VAL_NOT" by blast
  then have "can_read_data env (engine c) (Some (BT_ATT_OP_HANDLE_VAL_NOT # put_le16 h @ v)) =
      Some (True, engine c, [Att_notify_callback (Client Notify_cb) BT_ATT_OP_HANDLE_VAL_NOT (put_le16 h @ v) ud])"
    by (simp add: can_read_data_def Bt_Att.handle_notify_def Let_def)
  moreover have "set_att c (Some (engine c)) = c" by (simp add: set_att_def)
  moreover have "notify_handlers env c (put_le16 h @ v) (gc_notify_list c) = Some (concat (map (subscriber c h v) (gc_notify_list c)))"
    using assms(2) by (intro notify_handlers_eval) (simp add: registrations_ok_def)
  ultimately show ?thesis by (simp add: client_receive_def client_event_def notify_cb_def)
qed

lemma server_notifies:
  assumes "srv_waits srv" "link_env env" "length v < 65536"
  shows "\<exists>srv1 t es. bt_gatt_server_send_notification env (Some srv) h (Some v) (of_nat (length v)) = Some (True, Some srv1) \<and>
    can_write_data env (srv_att srv1) =
      (True, t, Att_send_pdu (BT_ATT_OP_HANDLE_VAL_NOT # put_le16 h @ take (unat (att_mtu (srv_att srv)) - 3) v) # es)"
proof -
  define m n where "m = unat (att_mtu (srv_att srv))" and "n = min (m - 1) (length v + 2)"
  let ?t = "srv_att srv" and ?w = "take (m - 3) v" and ?pdu = "put_le16 h @ take (m - 3) v"
  have ok: "att_io ?t" "e_mem env" "write_queue ?t = []" "\<And>bs. \<not> e_send env bs < 0"
    using assms(1,2) by (auto simp: srv_waits_def srv_ok_def link_env_def not_less)
  have m: "23 \<le> m" "m < 65536" using srv_ok_mtu [of srv] assms(1) unat_u16_less [of "att_mtu ?t"] by (auto simp: srv_waits_def m_def)
  have n: "2 \<le> n" "n < m" "n < 65536" "length ?pdu = n" "length ?w = n - 2" using m by (auto simp: n_def)
  have "n - 2 < 65536" "n - 2 \<le> length v" "take (n - 2) v = ?w" using n(5) m by (auto simp: n_def min_def numeral_3_eq_3)
  then have "src_bytes (Some v) (of_nat (n - 2)) = Some ?w" using src_bytes_take [of "n - 2" v] by simp
  moreover have "buf_write (map (e_junk env) [0..<n]) 0 (put_le16 h) = Some (put_le16 h @ map (e_junk env) [2..<n])"
    using n(1) by (simp add: buf_write_def drop_map numeral_2_eq_2)
  moreover have "buf_write (put_le16 h @ map (e_junk env) [2..<n]) 2 ?w = Some ?pdu"
    using n by (simp add: buf_write_def put_le16_def)
  moreover have pl: "min (unat (bt_att_get_mtu (Some ?t)) - 1) (unat (of_nat (length v) :: u16) + 2) = n"
    using assms(3) by (simp add: bt_att_get_mtu_def unat_of_nat_less m_def n_def)
  ultimately have pdu: "server_value_pdu env srv h (Some v) (of_nat (length v)) = Some (n, ?pdu)"
    unfolding server_value_pdu_def pl by (simp add: Let_def)
  have "src_bytes (Some ?pdu) (of_nat n) = Some ?pdu" using src_bytes_all [of ?pdu] n(3) unfolding n(4) by simp
  moreover have "unat (of_nat n :: u16) < unat (att_mtu ?t)" using n by (simp add: unat_of_nat_less m_def)
  ultimately have "encode_pdu env ?t BT_ATT_OP_HANDLE_VAL_NOT (Some ?pdu) (of_nat n) = Some (Some (BT_ATT_OP_HANDLE_VAL_NOT # ?pdu))"
    using encode_unsigned [OF notification_opcode(2) _ _ ok(2)] by blast
  then have c: "create_att_send_op env ?t BT_ATT_OP_HANDLE_VAL_NOT (Some ?pdu) (of_nat n) None None None =
      Some (Some \<lparr>op_id = 0, op_timeout_id = 0, op_type = ATT_OP_TYPE_NOT, op_opcode = BT_ATT_OP_HANDLE_VAL_NOT,
        op_pdu = BT_ATT_OP_HANDLE_VAL_NOT # ?pdu, op_callback = None, op_destroy = None, op_user_data = None\<rparr>)"
    by (simp add: create_att_send_op_def)
  let ?i = "next_id ?t"
  let ?t1 = "wakeup_writer env (?t\<lparr>next_send_id := ?i + 1, write_queue := [\<lparr>op_id = ?i, op_timeout_id = 0, op_type = ATT_OP_TYPE_NOT,
    op_opcode = BT_ATT_OP_HANDLE_VAL_NOT, op_pdu = BT_ATT_OP_HANDLE_VAL_NOT # ?pdu, op_callback = None, op_destroy = None, op_user_data = None\<rparr>]\<rparr>)"
  have "bt_att_send env (Some ?t) BT_ATT_OP_HANDLE_VAL_NOT (Some ?pdu) (of_nat n) None None None = Some (?i, Some ?t1)"
    using c ok(1,3) by (simp add: bt_att_send_def next_id_def Let_def)
  then have "bt_gatt_server_send_notification env (Some srv) h (Some v) (of_nat (length v)) = Some (True, Some (srv\<lparr>srv_att := ?t1\<rparr>))"
    using pdu ok(2) by (simp add: bt_gatt_server_send_notification_def)
  moreover have "\<exists>t es. can_write_data env ?t1 = (True, t, Att_send_pdu (BT_ATT_OP_HANDLE_VAL_NOT # ?pdu) # es)"
    using ok(4) by (simp add: can_write_data_def pick_next_send_op_def)
  ultimately show ?thesis unfolding m_def by fastforce
qed

text \<open>
  C18: a notification through both stacks.  A server that waits sends a notification of a value; the PDU goes
  through both ATT engines.  Exactly the functions registered with the client for that handle are
  called, each once and in the order of registration, with the value cut at the MTU of the server less
  three bytes; nothing else in the client changes.
\<close>

theorem notification_delivered:
  assumes "srv_waits srv" "link_env senv" "length v < 65536" "listening c" "registrations_ok c"
  shows "\<exists>srv1 t es pdu. bt_gatt_server_send_notification senv (Some srv) h (Some v) (of_nat (length v)) = Some (True, Some srv1) \<and>
    can_write_data senv (srv_att srv1) = (True, t, Att_send_pdu pdu # es) \<and>
    client_receive env c (Some pdu) =
      Some (c, concat (map (subscriber c h (take (unat (att_mtu (srv_att srv)) - 3) v)) (gc_notify_list c)))"
  using server_notifies [OF assms(1-3)] client_notified [OF assms(4,5)] by metis

text \<open>Witness of \<open>notification_delivered\<close>: a client with two registrations for the handle 3 and one for another handle.\<close>

definition gc_listener :: "nat gatt_client" where
  "gc_listener = set_att (gc_example
     \<lparr>gc_chrcs := [5 \<mapsto> \<lparr>nc_value_handle = 3, nc_ccc_handle = 4, nc_properties = 0x10, nc_notify_count = 2, nc_reg_notify_queue = [],
                      nc_ccc_write_id = 0\<rparr>,
                   6 \<mapsto> \<lparr>nc_value_handle = 7, nc_ccc_handle = 8, nc_properties = 0x10, nc_notify_count = 1, nc_reg_notify_queue = [],
                      nc_ccc_write_id = 0\<rparr>],
      gc_notify_chrcs := [5, 6], gc_notify_list := [1, 2, 3], gc_next := 7,
      gc_notify_data := [1 \<mapsto> \<lparr>nd_id = 1, nd_att_id = 0, nd_ref_count = 1, nd_chrc = 5, nd_callback = Some 10, nd_notify = Some 11,
                            nd_user_data = None, nd_destroy = None\<rparr>,
                         2 \<mapsto> \<lparr>nd_id = 2, nd_att_id = 0, nd_ref_count = 1, nd_chrc = 6, nd_callback = Some 10, nd_notify = Some 12,
                            nd_user_data = None, nd_destroy = None\<rparr>,
                         3 \<mapsto> \<lparr>nd_id = 3, nd_att_id = 0, nd_ref_count = 1, nd_chrc = 5, nd_callback = Some 10, nd_notify = Some 13,
                            nd_user_data = Some 20, nd_destroy = None\<rparr>]\<rparr>)
     (Some ((engine gc_example)\<lparr>att_notify_list := [\<lparr>an_id = 1, an_opcode = BT_ATT_OP_HANDLE_VAL_NOT,
        an_callback = Some (Client Notify_cb), an_destroy = None, an_user_data = Some (Client Client_ptr)\<rparr>]\<rparr>))"

theorem notification_delivered_witness:
  "\<exists>srv1 t es pdu. bt_gatt_server_send_notification srv_example_env (Some srv_example) 3 (Some [1, 2]) 2 = Some (True, Some srv1) \<and>
    can_write_data srv_example_env (srv_att srv1) = (True, t, Att_send_pdu pdu # es) \<and>
    client_receive gc_example_env gc_listener (Some pdu) = Some (gc_listener,
      [Gc_notify_callback 11 3 (Some [1, 2]) 2 None, Gc_notify_callback 13 3 (Some [1, 2]) 2 (Some 20)])"
proof -
  have "srv_waits srv_example" "link_env srv_example_env" using srv_example_facts
    by (simp_all add: srv_waits_def link_env_def srv_example_env_def)
  moreover have "listening gc_listener" "registrations_ok gc_listener"
    by (simp_all add: listening_def registrations_ok_def gc_listener_def set_att_def opcode_match_def)
  moreover have "concat (map (subscriber gc_listener 3 [1, 2]) (gc_notify_list gc_listener)) =
      [Gc_notify_callback 11 3 (Some [1, 2]) 2 None, Gc_notify_callback 13 3 (Some [1, 2]) 2 (Some 20)]"
    by (simp add: subscriber_def gc_listener_def set_att_def call_user_def)
  ultimately show ?thesis
    using notification_delivered [of srv_example srv_example_env "[1, 2]" gc_listener 3 gc_example_env] srv_example_facts(6) by simp
qed

section \<open>Registration\<close>

text \<open>An application registers several functions for the value of one characteristic, each with the callback that is told the result.\<close>

type_synonym 'd registration = "'d \<times> 'd option \<times> 'd option \<times> 'd option"

primrec register_all :: "gc_env \<Rightarrow> u16 \<Rightarrow> 'd registration list \<Rightarrow> 'd gatt_client \<Rightarrow> 'd gc_result" where
  "register_all env h [] c = Some (c, [])"
| "register_all env h (r # rs) c = (case r of (f, g, u, d) \<Rightarrow> do {
     (_, c, es) \<leftarrow> bt_gatt_client_register_notify env c h (Some f) g u d;
     (c, es') \<leftarrow> register_all env h rs c;
     Some (c, es @ es') })"

definition registered_as :: "'d gatt_client \<Rightarrow> ptr \<Rightarrow> ptr \<Rightarrow> 'd registration \<Rightarrow> bool" where
  "registered_as c q p r \<longleftrightarrow> (case r of (f, g, u, d) \<Rightarrow>
     \<exists>n. gc_notify_data c p = Some n \<and> nd_chrc n = q \<and> nd_callback n = Some f \<and> nd_user_data n = u)"

abbreviation ccc_op :: "u32 \<Rightarrow> notify_chrc \<Rightarrow> ptr \<Rightarrow> gfn hfn att_send_op" where
  "ccc_op i ch p \<equiv> queued_op i BT_ATT_OP_WRITE_REQ (put_le16 (nc_ccc_handle ch) @ [ccc_value ch, 0]) (Client Enable_ccc_callback)
     (Client (Notify_ptr p)) (Client Notify_data_unref)"

text \<open>The characteristic \<open>q\<close> of the value handle \<open>h\<close> is known to the client.\<close>

definition known_chrc :: "gc_env \<Rightarrow> 'd gatt_client \<Rightarrow> u16 \<Rightarrow> ptr \<Rightarrow> notify_chrc \<Rightarrow> bool" where
  "known_chrc env c h q ch \<longleftrightarrow> client_up env c \<and> \<not> gc_in_svc_chngd c \<and>
     find (match_notify_chrc_value_handle c h) (gc_notify_chrcs c) = Some q \<and> gc_chrcs c q = Some ch \<and> nc_value_handle ch = h"

text \<open>The write for the registration \<open>p\<close> is on its way; the registrations \<open>ps\<close> wait for it.\<close>

definition subscribing :: "gc_env \<Rightarrow> 'd gatt_client \<Rightarrow> u16 \<Rightarrow> ptr \<Rightarrow> notify_chrc \<Rightarrow> ptr \<Rightarrow> ptr list \<Rightarrow> 'd registration list \<Rightarrow> bool" where
  "subscribing env c h q ch p ps rs \<longleftrightarrow> known_chrc env c h q ch \<and> nc_ccc_write_id ch \<noteq> 0 \<and> nc_reg_notify_queue ch = ps \<and>
     req_queue (engine c) = [ccc_op (nc_ccc_write_id ch) ch p] \<and> distinct (p # ps) \<and> (\<forall>x \<in> set (p # ps). x < gc_next c) \<and>
     list_all2 (registered_as c q) (p # ps) rs \<and> (\<exists>n. gc_notify_data c p = Some n \<and> nd_ref_count n = 2) \<and>
     nc_notify_count ch = int (length rs)"

lemma put_chrc_simps [simp]:
  "gc_chrcs (put_chrc c q ch) = (gc_chrcs c)(q \<mapsto> ch)" "gc_hl (put_chrc c q ch) = gc_hl c" "gc_att (put_chrc c q ch) = gc_att c"
  "gc_notify_data (put_chrc c q ch) = gc_notify_data c" "gc_notify_list (put_chrc c q ch) = gc_notify_list c"
  "gc_notify_chrcs (put_chrc c q ch) = gc_notify_chrcs c" "gc_next (put_chrc c q ch) = gc_next c"
  "gc_in_svc_chngd (put_chrc c q ch) = gc_in_svc_chngd c" "client_up env (put_chrc c q ch) = client_up env c"
  by (simp_all add: put_chrc_def client_up_def)

lemma put_notify_data_simps [simp]:
  "gc_notify_data (put_notify_data c p n) = (gc_notify_data c)(p \<mapsto> n)" "gc_hl (put_notify_data c p n) = gc_hl c"
  "gc_att (put_notify_data c p n) = gc_att c" "gc_chrcs (put_notify_data c p n) = gc_chrcs c"
  "gc_notify_list (put_notify_data c p n) = gc_notify_list c" "gc_notify_chrcs (put_notify_data c p n) = gc_notify_chrcs c"
  "gc_next (put_notify_data c p n) = gc_next c" "gc_in_svc_chngd (put_notify_data c p n) = gc_in_svc_chngd c"
  "client_up env (put_notify_data c p n) = client_up env c"
  by (simp_all add: put_notify_data_def client_up_def)

lemma engine_only_simps [simp]:
  "gc_notify_data (enqueued env c x) = gc_notify_data c" "gc_chrcs (enqueued env c x) = gc_chrcs c"
  "gc_notify_list (enqueued env c x) = gc_notify_list c" "gc_notify_chrcs (enqueued env c x) = gc_notify_chrcs c"
  "gc_next (enqueued env c x) = gc_next c" "gc_in_svc_chngd (enqueued env c x) = gc_in_svc_chngd c"
  "gc_notify_data (quiet env c) = gc_notify_data c" "gc_chrcs (quiet env c) = gc_chrcs c"
  by (simp_all add: enqueued_def quiet_def set_att_def)

lemma match_value_handle_cong:
  assumes "gc_chrcs c' = (gc_chrcs c)(q \<mapsto> ch')" "gc_chrcs c q = Some ch" "nc_value_handle ch' = nc_value_handle ch"
  shows "match_notify_chrc_value_handle c' h = match_notify_chrc_value_handle c h"
  using assms by (auto simp: match_notify_chrc_value_handle_def fun_eq_iff)

lemma ccc_value_fields [simp]:
  "ccc_value (ch\<lparr>nc_notify_count := k\<rparr>) = ccc_value ch" "ccc_value (ch\<lparr>nc_ccc_write_id := i\<rparr>) = ccc_value ch"
  "ccc_value (ch\<lparr>nc_reg_notify_queue := ps\<rparr>) = ccc_value ch"
  by (simp_all add: ccc_value_def)

lemma new_notify_data_eval:
  "\<exists>i c0. new_notify_data c q f g u d = (gc_next c, i, c0) \<and> gc_hl c0 = gc_hl c \<and> client_up env c0 = client_up env c \<and>
     gc_chrcs c0 = gc_chrcs c \<and> gc_notify_chrcs c0 = gc_notify_chrcs c \<and> gc_in_svc_chngd c0 = gc_in_svc_chngd c \<and>
     gc_next c0 = gc_next c + 1 \<and> gc_notify_data c0 = (gc_notify_data c)(gc_next c \<mapsto>
       \<lparr>nd_id = i, nd_att_id = 0, nd_ref_count = 1, nd_chrc = q, nd_callback = f, nd_notify = g, nd_user_data = u, nd_destroy = d\<rparr>)"
  by (simp add: new_notify_data_def Let_def client_up_def)

lemma register_first:
  assumes "known_chrc env c h q ch" "nc_ccc_write_id ch = 0" "nc_notify_count ch = 0" "nc_reg_notify_queue ch = []"
    "nc_ccc_handle ch \<noteq> 0" "ccc_value ch \<noteq> 0" "req_queue (engine c) = []" "h \<noteq> 0"
  shows "\<exists>i c' ch'. bt_gatt_client_register_notify env c h (Some f) g u d = Some (i, c', []) \<and>
    subscribing env c' h q ch' (gc_next c) [] [(f, g, u, d)] \<and> nc_ccc_handle ch' = nc_ccc_handle ch \<and> nc_properties ch' = nc_properties ch"
proof -
  obtain i c0 where c0: "new_notify_data c q (Some f) g u d = (gc_next c, i, c0)" "gc_hl c0 = gc_hl c" "client_up env c0 = client_up env c"
    "gc_chrcs c0 = gc_chrcs c" "gc_notify_chrcs c0 = gc_notify_chrcs c" "gc_in_svc_chngd c0 = gc_in_svc_chngd c" "gc_next c0 = gc_next c + 1"
    "gc_notify_data c0 = (gc_notify_data c)(gc_next c \<mapsto>
       \<lparr>nd_id = i, nd_att_id = 0, nd_ref_count = 1, nd_chrc = q, nd_callback = Some f, nd_notify = g, nd_user_data = u, nd_destroy = d\<rparr>)"
    using new_notify_data_eval by metis
  let ?p = "gc_next c" and ?a = "next_id (engine c)"
  let ?n = "\<lparr>nd_id = i, nd_att_id = 0, nd_ref_count = 1, nd_chrc = q, nd_callback = Some f, nd_notify = g, nd_user_data = u, nd_destroy = d\<rparr>"
  let ?n2 = "?n\<lparr>nd_ref_count := 2, nd_att_id := ?a\<rparr>"
  let ?ch = "ch\<lparr>nc_notify_count := 1\<rparr>"
  define c1 where "c1 = put_chrc c0 q ?ch"
  define c2 where "c2 = put_notify_data c1 ?p (?n\<lparr>nd_ref_count := 2\<rparr>)"
  define c3 where "c3 = put_chrc (put_notify_data (enqueued env c2 (ccc_op ?a ch ?p)) ?p ?n2) q (?ch\<lparr>nc_ccc_write_id := ?a\<rparr>)"
  have known: "client_up env c" "\<not> gc_in_svc_chngd c" "find (match_notify_chrc_value_handle c h) (gc_notify_chrcs c) = Some q"
    "gc_chrcs c q = Some ch" "nc_value_handle ch = h" using assms(1) by (auto simp: known_chrc_def)
  have c1: "client_up env c1" "engine c1 = engine c" "gc_notify_data c1 ?p = Some ?n" "gc_chrcs c1 q = Some ?ch" "gc_next c1 = ?p + 1"
    "gc_notify_chrcs c1 = gc_notify_chrcs c" "gc_chrcs c1 = (gc_chrcs c)(q \<mapsto> ?ch)" "\<not> gc_in_svc_chngd c1"
    using known(1,2) c0 by (simp_all add: c1_def)
  have c2: "client_up env c2" "engine c2 = engine c" "gc_notify_data c2 ?p = Some (?n\<lparr>nd_ref_count := 2\<rparr>)"
    "notify_data_ref c1 ?p = Some c2" using c1(1-3) by (simp_all add: c2_def notify_data_ref_def)
  have "23 \<le> unat (att_mtu (engine c))" using known(1) by (simp add: client_up_def idle_link_def can_send_def)
  then have "length (put_le16 (nc_ccc_handle ch) @ [ccc_value ch, 0]) < unat (att_mtu (engine c2))" using c2(2) by simp
  from client_send_eval [OF c2(1) read_opcodes(4) this] have
    "notify_data_write_ccc env c1 ?p True Enable_ccc_callback = Some (True, c3)"
    using c1(3,4) c2(2-4) assms(5,6) by (simp add: notify_data_write_ccc_def c3_def)
  moreover have "register_notify env c h (Some f) g u d = do {
      (ok, c) \<leftarrow> notify_data_write_ccc env c1 ?p True Enable_ccc_callback;
      if ok then Some (i, c, [])
      else Some (0, c\<lparr>gc_notify_list := remove1 ?p (gc_notify_list c), gc_notify_data := (gc_notify_data c)(?p := None)\<rparr>, []) }"
    using known(3,4) assms(2,3,5) c0(1) by (simp add: register_notify_def c1_def INT_MAX_def)
  ultimately have "bt_gatt_client_register_notify env c h (Some f) g u d = Some (i, c3, [])"
    using assms(8) known(2) by (simp add: bt_gatt_client_register_notify_def)
  moreover have "subscribing env c3 h q (?ch\<lparr>nc_ccc_write_id := ?a\<rparr>) ?p [] [(f, g, u, d)]"
    using c1 c2 known assms(4,7) match_value_handle_cong [of c3 c q "?ch\<lparr>nc_ccc_write_id := ?a\<rparr>" ch h]
    by (simp add: subscribing_def known_chrc_def registered_as_def c3_def c2_def)
  ultimately show ?thesis by (intro exI [of _ i] exI [of _ c3] exI [of _ "?ch\<lparr>nc_ccc_write_id := ?a\<rparr>"]) simp
qed

lemma register_next:
  assumes "subscribing env c h q ch p ps rs" "int (length rs) < INT_MAX" "h \<noteq> 0"
  shows "\<exists>i c' ch' p'. bt_gatt_client_register_notify env c h (Some f) g u d = Some (i, c', []) \<and>
    subscribing env c' h q ch' p (ps @ [p']) (rs @ [(f, g, u, d)]) \<and> nc_ccc_handle ch' = nc_ccc_handle ch \<and> nc_properties ch' = nc_properties ch"
proof -
  let ?p = "gc_next c" and ?ch = "ch\<lparr>nc_notify_count := nc_notify_count ch + 1, nc_reg_notify_queue := ps @ [gc_next c]\<rparr>"
  obtain i c0 where c0: "new_notify_data c q (Some f) g u d = (gc_next c, i, c0)" "gc_hl c0 = gc_hl c" "client_up env c0 = client_up env c"
    "gc_chrcs c0 = gc_chrcs c" "gc_notify_chrcs c0 = gc_notify_chrcs c" "gc_in_svc_chngd c0 = gc_in_svc_chngd c" "gc_next c0 = gc_next c + 1"
    "gc_notify_data c0 = (gc_notify_data c)(gc_next c \<mapsto>
       \<lparr>nd_id = i, nd_att_id = 0, nd_ref_count = 1, nd_chrc = q, nd_callback = Some f, nd_notify = g, nd_user_data = u, nd_destroy = d\<rparr>)"
    using new_notify_data_eval by metis
  define c1 where "c1 = put_chrc c0 q ?ch"
  have sub: "client_up env c" "\<not> gc_in_svc_chngd c" "find (match_notify_chrc_value_handle c h) (gc_notify_chrcs c) = Some q"
    "gc_chrcs c q = Some ch" "nc_value_handle ch = h" "nc_ccc_write_id ch \<noteq> 0" "nc_reg_notify_queue ch = ps"
    "nc_notify_count ch = int (length rs)" using assms(1) by (auto simp: subscribing_def known_chrc_def)
  have fresh: "\<forall>x \<in> set (p # ps). x \<noteq> ?p" using assms(1) by (auto simp: subscribing_def)
  have c1: "client_up env c1" "engine c1 = engine c" "gc_chrcs c1 = (gc_chrcs c)(q \<mapsto> ?ch)" "gc_next c1 = ?p + 1"
    "gc_notify_chrcs c1 = gc_notify_chrcs c" "\<not> gc_in_svc_chngd c1" "\<And>x. x \<noteq> ?p \<Longrightarrow> gc_notify_data c1 x = gc_notify_data c x"
    "registered_as c1 q ?p (f, g, u, d)"
    using sub(1,2) c0 by (simp_all add: c1_def registered_as_def)
  have reg: "bt_gatt_client_register_notify env c h (Some f) g u d = Some (i, c1, [])"
    using sub assms(2,3) c0(1) by (simp add: bt_gatt_client_register_notify_def register_notify_def set_reg_queue_def c1_def)
      (simp add: put_chrc_def)
  have "list_all2 (registered_as c1 q) (p # ps) rs"
  proof (rule list.rel_mono_strong)
    show "list_all2 (registered_as c q) (p # ps) rs" using assms(1) by (simp add: subscribing_def)
    fix x r assume "x \<in> set (p # ps)" "registered_as c q x r"
    then show "registered_as c1 q x r" using fresh c1(7) [of x] by (auto simp: registered_as_def)
  qed
  from list_all2_appendI [OF this, of "[?p]" "[(f, g, u, d)]"] c1(8) have
    "list_all2 (registered_as c1 q) (p # ps @ [?p]) (rs @ [(f, g, u, d)])" by simp
  moreover have "gc_notify_data c1 p = gc_notify_data c p" using fresh c1(7) [of p] by simp
  ultimately show ?thesis
    using reg c1(1-6) sub fresh assms(1) match_value_handle_cong [of c1 c q ?ch ch h]
    by (intro exI [of _ i] exI [of _ c1] exI [of _ ?ch] exI [of _ ?p])
      (auto simp: subscribing_def known_chrc_def intro: less_SucI)
qed

lemma register_rest:
  assumes "subscribing env c h q ch p ps rs" "int (length (rs @ rs')) < INT_MAX" "h \<noteq> 0"
  shows "\<exists>c' ch' ps'. register_all env h rs' c = Some (c', []) \<and> subscribing env c' h q ch' p ps' (rs @ rs') \<and>
    nc_ccc_handle ch' = nc_ccc_handle ch \<and> nc_properties ch' = nc_properties ch"
  using assms(1,2)
proof (induction rs' arbitrary: c ch ps rs)
  case (Cons r rs')
  obtain f g u d where r: "r = (f, g, u, d)" by (cases r) auto
  have "int (length rs) < INT_MAX" using Cons.prems(2) by simp
  from register_next [OF Cons.prems(1) this assms(3), of f g u d] obtain i c1 ch1 p1 where
    c1: "bt_gatt_client_register_notify env c h (Some f) g u d = Some (i, c1, [])" "subscribing env c1 h q ch1 p (ps @ [p1]) (rs @ [r])"
    "nc_ccc_handle ch1 = nc_ccc_handle ch" "nc_properties ch1 = nc_properties ch" unfolding r by blast
  from Cons.IH [OF c1(2)] Cons.prems(2) c1 show ?case by (force simp: r)
qed auto

lemma complete_requests_eval:
  assumes "list_all2 (registered_as c q) ps rs" "distinct ps"
  shows "\<exists>c'. complete_notify_requests ps c = Some (c', map (\<lambda>(f, g, u, d). Gc_register_callback f 0 u) rs) \<and>
    (\<forall>x. x \<notin> set ps \<longrightarrow> gc_notify_data c' x = gc_notify_data c x)"
  using assms
proof (induction ps arbitrary: rs c)
  case (Cons p ps)
  obtain f g u d rs' where rs: "rs = (f, g, u, d) # rs'" "registered_as c q p (f, g, u, d)" "list_all2 (registered_as c q) ps rs'"
    using Cons.prems(1) by (auto simp: list_all2_Cons1)
  then obtain n where n: "gc_notify_data c p = Some n" "nd_callback n = Some f" "nd_user_data n = u" by (auto simp: registered_as_def)
  let ?c = "put_notify_data c p (n\<lparr>nd_att_id := 0\<rparr>)"
  have "list_all2 (registered_as ?c q) ps rs'"
    by (rule list.rel_mono_strong [OF rs(3)]) (use Cons.prems(2) in \<open>auto simp: registered_as_def\<close>)
  from Cons.IH [OF this] Cons.prems(2) obtain c' where
    "complete_notify_requests ps ?c = Some (c', map (\<lambda>(f, g, u, d). Gc_register_callback f 0 u) rs')"
    "\<forall>x. x \<notin> set ps \<longrightarrow> gc_notify_data c' x = gc_notify_data ?c x" by auto
  then show ?case using n by (auto simp: rs(1) complete_notify_request_def call_user_def)
qed simp

lemma ccc_written:
  assumes "subscribing env c h q ch p ps rs"
  shows "\<exists>c1 c'. enable_ccc_callback env (quiet env c) p BT_ATT_OP_WRITE_RSP None =
      Some (c1, map (\<lambda>(f, g, u, d). Gc_register_callback f 0 u) rs) \<and> notify_data_unref c1 p = Some (c', [])"
proof -
  have sub: "gc_chrcs c q = Some ch" "nc_ccc_write_id ch \<noteq> 0" "nc_reg_notify_queue ch = ps" "distinct (p # ps)"
    "list_all2 (registered_as c q) (p # ps) rs" using assms by (auto simp: subscribing_def known_chrc_def)
  obtain f g u d rs' where rs: "rs = (f, g, u, d) # rs'" "list_all2 (registered_as c q) ps rs'"
    using sub(5) by (auto simp: list_all2_Cons1)
  obtain n where n: "gc_notify_data c p = Some n" "nd_chrc n = q" "nd_callback n = Some f" "nd_user_data n = u" "nd_ref_count n = 2"
    using assms sub(5) rs(1) by (auto simp: subscribing_def registered_as_def)
  let ?n = "n\<lparr>nd_att_id := 0\<rparr>"
  let ?c = "put_chrc (put_notify_data (put_chrc (quiet env c) q (ch\<lparr>nc_ccc_write_id := 0\<rparr>)) p ?n) q (ch\<lparr>nc_ccc_write_id := 0, nc_reg_notify_queue := []\<rparr>)"
  have "list_all2 (registered_as ?c q) ps rs'"
    by (rule list.rel_mono_strong [OF rs(2)]) (use sub(4) in \<open>auto simp: registered_as_def\<close>)
  from complete_requests_eval [OF this] sub(4) obtain c1 where
    c1: "complete_notify_requests ps ?c = Some (c1, map (\<lambda>(f, g, u, d). Gc_register_callback f 0 u) rs')" "gc_notify_data c1 p = Some ?n"
    by auto
  have "enable_ccc_callback env (quiet env c) p BT_ATT_OP_WRITE_RSP None = Some (c1, map (\<lambda>(f, g, u, d). Gc_register_callback f 0 u) rs)"
    using n sub(1-3) c1(1) by (simp add: enable_ccc_callback_def complete_notify_request_def set_reg_queue_def call_user_def rs(1)
        BT_ATT_OP_WRITE_RSP_def BT_ATT_OP_ERROR_RSP_def)
  moreover have "\<exists>c'. notify_data_unref c1 p = Some (c', [])" using c1(2) n(5) by (simp add: notify_data_unref_def)
  ultimately show ?thesis by blast
qed

text \<open>
  C19: registrations for one characteristic share one write.  When an application registers functions for a
  characteristic with a configuration descriptor and no registration so far, the client sends exactly
  one write of the descriptor, with the bits for what the characteristic supports, however many
  functions are registered before the peer answers, and reports nothing before; when the peer confirms
  the write, every registration is told success, once and in the order of registration.
\<close>

theorem registrations_share_write:
  assumes "known_chrc env c h q ch" "nc_ccc_write_id ch = 0" "nc_notify_count ch = 0" "nc_reg_notify_queue ch = []"
    "nc_ccc_handle ch \<noteq> 0" "ccc_value ch \<noteq> 0" "req_queue (engine c) = []" "h \<noteq> 0" "link_env env"
    "rs \<noteq> []" "int (length rs) < INT_MAX"
    "peer s (BT_ATT_OP_WRITE_REQ # put_le16 (nc_ccc_handle ch) @ [ccc_value ch, 0]) = Some ([BT_ATT_OP_WRITE_RSP], s')"
  shows "\<exists>c1 c'. register_all env h rs c = Some (c1, []) \<and>
    map op_pdu (req_queue (engine c1)) = [BT_ATT_OP_WRITE_REQ # put_le16 (nc_ccc_handle ch) @ [ccc_value ch, 0]] \<and>
    client_round env peer (c1, s) = Some ((c', s'), map (\<lambda>(f, g, u, d). Gc_register_callback f 0 u) rs)"
proof -
  obtain f g u d rs' where rs: "rs = (f, g, u, d) # rs'" using assms(10) by (cases rs) auto
  from register_first [OF assms(1-8), of f g u d] obtain i c0 ch0 where
    c0: "bt_gatt_client_register_notify env c h (Some f) g u d = Some (i, c0, [])"
    "subscribing env c0 h q ch0 (gc_next c) [] [(f, g, u, d)]" "nc_ccc_handle ch0 = nc_ccc_handle ch" "nc_properties ch0 = nc_properties ch"
    by blast
  from register_rest [OF c0(2) _ assms(8), of rs'] assms(11) obtain c1 ch1 ps where
    c1: "register_all env h rs' c0 = Some (c1, [])" "subscribing env c1 h q ch1 (gc_next c) ps rs" "nc_ccc_handle ch1 = nc_ccc_handle ch"
    "nc_properties ch1 = nc_properties ch" using c0(3,4) by (auto simp: rs)
  have v: "ccc_value ch1 = ccc_value ch" using c1(4) by (simp add: ccc_value_def)
  have sub: "client_up env c1" "req_queue (engine c1) = [ccc_op (nc_ccc_write_id ch1) ch1 (gc_next c)]" "nc_ccc_write_id ch1 \<noteq> 0"
    using c1(2) by (auto simp: subscribing_def known_chrc_def)
  from ccc_written [OF c1(2)] obtain c2 c' where
    "enable_ccc_callback env (quiet env c1) (gc_next c) BT_ATT_OP_WRITE_RSP None =
      Some (c2, map (\<lambda>(f, g, u, d). Gc_register_callback f 0 u) rs)" "notify_data_unref c2 (gc_next c) = Some (c', [])" by blast
  moreover have "get_op_type BT_ATT_OP_WRITE_REQ = ATT_OP_TYPE_REQ" "get_op_type BT_ATT_OP_WRITE_RSP = ATT_OP_TYPE_RSP"
    "BT_ATT_OP_WRITE_RSP = BT_ATT_OP_WRITE_REQ + 1" "BT_ATT_OP_WRITE_RSP \<noteq> BT_ATT_OP_ERROR_RSP"
    by (simp_all add: opcode_eval BT_ATT_OP_WRITE_REQ_def BT_ATT_OP_WRITE_RSP_def)
  ultimately have "client_round env peer (c1, s) = Some ((c', s'), map (\<lambda>(f, g, u, d). Gc_register_callback f 0 u) rs)"
    using round_completes [where peer = peer, OF sub(1) assms(9) sub(2,3), of s BT_ATT_OP_WRITE_RSP "[]" s'] assms(12) v c1(3)
    by (simp add: client_call_def)
  moreover have "register_all env h rs c = Some (c1, [])" using c0(1) c1(1) by (simp add: rs)
  ultimately show ?thesis using sub(2) v c1(3) by (auto simp: queued_op_def)
qed

text \<open>Witness of \<open>registrations_share_write\<close>: two registrations for a characteristic with notifications and indications.\<close>

definition gc_known :: "nat gatt_client" where
  "gc_known = gc_example\<lparr>gc_chrcs := [5 \<mapsto> \<lparr>nc_value_handle = 3, nc_ccc_handle = 4, nc_properties = 0x30, nc_notify_count = 0,
     nc_reg_notify_queue = [], nc_ccc_write_id = 0\<rparr>], gc_notify_chrcs := [5]\<rparr>"

lemma gc_known_facts:
  "known_chrc gc_example_env gc_known 3 5 \<lparr>nc_value_handle = 3, nc_ccc_handle = 4, nc_properties = 0x30, nc_notify_count = 0,
     nc_reg_notify_queue = [], nc_ccc_write_id = 0\<rparr>"
  "req_queue (engine gc_known) = []"
proof -
  have "client_up gc_example_env gc_known" using gc_example_facts(1) by (simp add: gc_known_def client_up_def)
  moreover have "\<not> gc_in_svc_chngd gc_example" by (simp add: gc_example_def)
  ultimately show "known_chrc gc_example_env gc_known 3 5 \<lparr>nc_value_handle = 3, nc_ccc_handle = 4, nc_properties = 0x30,
      nc_notify_count = 0, nc_reg_notify_queue = [], nc_ccc_write_id = 0\<rparr>"
    by (simp add: known_chrc_def gc_known_def match_notify_chrc_value_handle_def)
  show "req_queue (engine gc_known) = []" using gc_example_facts(2) by (simp add: gc_known_def)
qed

theorem registrations_share_write_witness:
  "\<exists>c1 c'. register_all gc_example_env 3 [(10, Some 11, None, None), (12, Some 13, Some 14, None)] gc_known = Some (c1, []) \<and>
    map op_pdu (req_queue (engine c1)) = [[BT_ATT_OP_WRITE_REQ, 4, 0, 3, 0]] \<and>
    client_round gc_example_env (\<lambda>s req. Some ([BT_ATT_OP_WRITE_RSP], s)) (c1, ()) =
      Some ((c', ()), [Gc_register_callback 10 0 None, Gc_register_callback 12 0 (Some 14)])"
  using registrations_share_write [OF gc_known_facts(1) _ _ _ _ _ gc_known_facts(2) _ gc_example_facts(3),
      of "[(10, Some 11, None, None), (12, Some 13, Some 14, None)]" "\<lambda>s req. Some ([BT_ATT_OP_WRITE_RSP], s)" "()" "()"]
  by (simp add: ccc_value_def BT_GATT_CHRC_PROP_NOTIFY_def BT_GATT_CHRC_PROP_INDICATE_def INT_MAX_def put_le16_def)

section \<open>Where the client loses track\<close>

text \<open>
  C39: a failed registration is counted.  When the peer refuses the write of the configuration descriptor, the
  registration is told the error and dropped, but the count of registrations of the characteristic
  stays; the next registration is told success at once although no write is sent and the peer does not
  notify.
\<close>

theorem registration_after_error:
  assumes "known_chrc env c h q ch" "nc_ccc_write_id ch \<noteq> 0" "nc_notify_count ch = 1" "nc_reg_notify_queue ch = []" "h \<noteq> 0"
    "gc_notify_data c p = Some n" "nd_chrc n = q" "nd_callback n = Some f"
  shows "\<exists>c1 c2 i. enable_ccc_callback env c p BT_ATT_OP_ERROR_RSP pdu =
      Some (c1, [Gc_register_callback f (ucast (process_error pdu)) (nd_user_data n)]) \<and>
    bt_gatt_client_register_notify env c1 h (Some g) notify u d = Some (i, c2, [Gc_register_callback g 0 u]) \<and>
    engine c2 = engine c"
proof -
  let ?ch = "ch\<lparr>nc_ccc_write_id := 0\<rparr>"
  define c1 where "c1 = (put_chrc c q ?ch)\<lparr>gc_notify_list := remove1 p (gc_notify_list c)\<rparr>"
  have known: "\<not> gc_in_svc_chngd c" "find (match_notify_chrc_value_handle c h) (gc_notify_chrcs c) = Some q" "gc_chrcs c q = Some ch"
    using assms(1) by (auto simp: known_chrc_def)
  have c1: "gc_chrcs c1 q = Some ?ch" "\<not> gc_in_svc_chngd c1" "gc_notify_chrcs c1 = gc_notify_chrcs c" "gc_hl c1 = gc_hl c"
    "match_notify_chrc_value_handle c1 h = match_notify_chrc_value_handle c h"
    using known match_value_handle_cong [of c1 c q ?ch ch h] by (simp_all add: c1_def)
  have "enable_ccc_callback env c p BT_ATT_OP_ERROR_RSP pdu = Some (c1, [Gc_register_callback f (ucast (process_error pdu)) (nd_user_data n)])"
    using assms known by (simp add: enable_ccc_callback_def c1_def)
  moreover obtain i c0 where c0: "new_notify_data c1 q (Some g) notify u d = (gc_next c1, i, c0)" "gc_hl c0 = gc_hl c1"
    "gc_notify_data c0 (gc_next c1) = Some \<lparr>nd_id = i, nd_att_id = 0, nd_ref_count = 1, nd_chrc = q, nd_callback = Some g,
       nd_notify = notify, nd_user_data = u, nd_destroy = d\<rparr>"
    using new_notify_data_eval [of c1 q "Some g" notify u d env] by auto
  ultimately show ?thesis using assms(3,5) known c1
    by (simp add: bt_gatt_client_register_notify_def register_notify_def complete_notify_request_def call_user_def INT_MAX_def)
qed

text \<open>Witness of \<open>registration_after_error\<close>: the peer answers that writing is not permitted.\<close>

theorem registration_after_error_witness:
  "\<exists>(c :: nat gatt_client) c1 c2 i. enable_ccc_callback gc_example_env c 1 BT_ATT_OP_ERROR_RSP (Some [0x12, 4, 0, 3]) = Some (c1, [Gc_register_callback 10 3 None]) \<and>
    bt_gatt_client_register_notify gc_example_env c1 3 (Some 12) (Some 13) None None = Some (i, c2, [Gc_register_callback 12 0 None])"
proof -
  let ?ch = "\<lparr>nc_value_handle = 3, nc_ccc_handle = 4, nc_properties = 0x30, nc_notify_count = 1, nc_reg_notify_queue = [], nc_ccc_write_id = 9\<rparr>"
  let ?n = "\<lparr>nd_id = 1, nd_att_id = 9, nd_ref_count = 2, nd_chrc = 5, nd_callback = Some 10, nd_notify = Some 11, nd_user_data = None,
    nd_destroy = None\<rparr>"
  let ?c = "put_notify_data (put_chrc gc_known 5 ?ch) 1 ?n"
  have "known_chrc gc_example_env ?c 3 5 ?ch"
    using gc_known_facts(1) match_value_handle_cong [of ?c gc_known 5 ?ch _ 3] by (simp add: known_chrc_def)
  from registration_after_error [OF this, of 1 ?n 10 "Some [0x12, 4, 0, 3]" 12 "Some 13" None None] show ?thesis
    by (auto simp: process_error_def)
qed

text \<open>An operation whose PDU does not fit the MTU is not sent.\<close>

lemma client_send_too_long:
  assumes "gc_att c" "att_io (engine c)" "get_op_type opcode = ATT_OP_TYPE_REQ" "opcode AND ATT_OP_SIGNED_MASK = 0"
    "length pdu < 65535" "unat (att_mtu (engine c)) \<le> length pdu" "pdu \<noteq> []"
  shows "client_send env c opcode pdu (Some cb) ud d = Some (0, c)"
proof -
  have n: "unat (of_nat (length pdu) :: u16) = length pdu" using assms(5) by (intro unat_of_nat_less) simp
  then have "unat (1 + of_nat (length pdu) :: u16) = length pdu + 1" using assms(5) by (simp add: unat_word_ariths)
  then have "att_mtu (engine c) < 1 + of_nat (length pdu)" using assms(6) by (simp add: word_less_nat_alt)
  moreover have "(of_nat (length pdu) :: u16) \<noteq> 0" using n assms(7) by (metis length_0_conv unat_0)
  ultimately have "encode_pdu env (engine c) opcode (Some pdu) (of_nat (length pdu)) = Some None"
    using assms(4) by (simp add: encode_pdu_def Let_def)
  then show ?thesis
    using assms(1-3) by (simp add: client_send_def client_att_def bt_att_send_def create_att_send_op_def set_att_def)
qed

text \<open>A client that keeps a session whose request is gone.\<close>

lemma session_lost:
  assumes "gc_session_id c \<noteq> 0" "find (match_req_id c (gc_session_id c)) (gc_pending_requests c) = None"
  shows "bt_gatt_client_prepare_write env c j h off val n f u d = Some (0, c, [])"
    "bt_gatt_client_write_execute env c j f' u' d' = Some (0, c, [])"
    "bt_gatt_client_write_long_value env c rel h off val n f u d = Some (k, c2, es) \<Longrightarrow> engine c2 = engine c"
proof -
  show "bt_gatt_client_prepare_write env c j h off val n f u d = Some (0, c, [])"
    using assms by (simp add: bt_gatt_client_prepare_write_def get_reliable_request_def)
  show "bt_gatt_client_write_execute env c j f' u' d' = Some (0, c, [])"
    using assms by (auto simp: bt_gatt_client_write_execute_def)
  have "gc_session_id c > 0" using assms(1) by (simp add: word_neq_0_conv)
  then show "engine c2 = engine c" if "bt_gatt_client_write_long_value env c rel h off val n f u d = Some (k, c2, es)"
    using that by (auto simp: bt_gatt_client_write_long_value_def request_create_def Let_def bind_eq_Some_conv split: if_splits option.splits)
qed

text \<open>
  C40: a prepared write that cannot be sent ends the reliable session for good.  When a further prepared write of a
  session does not fit the MTU, the request of the session is freed, but the client keeps the session:
  every later prepared write and execute write is refused, and long writes are queued and never started.
  If an earlier prepared write is still unanswered, its response is handed to the freed request (\<open>None\<close>).
\<close>

theorem failed_prepare_blocks:
  assumes "gc_att c" "\<not> gc_in_long_write c" "gc_session_id c = i" "i \<noteq> 0" "att_io (engine c)" "e_mem env"
    "find (match_req_id c i) (gc_pending_requests c) = Some p" "\<forall>x \<in> set (gc_pending_requests c). match_req_id c i x \<longrightarrow> x = p"
    "gc_reqs c p = Some r" "r_ref_count r = 1" "\<not> r_removed r"
    "length v < 65531" "unat (att_mtu (engine c)) \<le> length v + 4"
  shows "\<exists>c'. bt_gatt_client_prepare_write env c i h off (Some v) (of_nat (length v)) f u d = Some (0, c', []) \<and>
    (\<forall>j h off v n f u d. bt_gatt_client_prepare_write env c' j h off v n f u d = Some (0, c', [])) \<and>
    (\<forall>j f u d. bt_gatt_client_write_execute env c' j f u d = Some (0, c', [])) \<and>
    (\<forall>rel h off v n f u d k c2 es. bt_gatt_client_write_long_value env c' rel h off v n f u d = Some (k, c2, es) \<longrightarrow>
      engine c2 = engine c') \<and>
    client_call env c' (Client gfn.Prep_write_cb) opcode rsp (Some (Client (Request_ptr p))) = None"
proof -
  define pdu where "pdu = put_le16 h @ put_le16 off @ v"
  define c' where "c' = c\<lparr>gc_reqs := (gc_reqs c)(p := None), gc_pending_requests := remove1 p (gc_pending_requests c)\<rparr>"
  have src: "src_bytes (Some v) (of_nat (length v)) = Some v" using src_bytes_all assms(12) by simp
  have pdu: "length pdu = length v + 4" "pdu \<noteq> []" by (simp_all add: pdu_def put_le16_def)
  have send: "client_send env x BT_ATT_OP_PREP_WRITE_REQ pdu (Some gfn.Prep_write_cb) ud None = Some (0, x)"
    if "gc_hl x = gc_hl c" "gc_att x" for x :: "'a gatt_client" and ud
    using that assms(5,12,13) pdu
    by (intro client_send_too_long) (simp_all add: opcode_eval BT_ATT_OP_PREP_WRITE_REQ_def ATT_OP_SIGNED_MASK_def)
  have "find (match_req_id c' i) (gc_pending_requests c') = None"
    using assms(8) by (auto simp: find_None_iff c'_def match_req_id_def dest!: notin_set_remove1 split: option.splits if_splits dest: set_remove1_subset [THEN subsetD])
  then have lost: "gc_session_id c' \<noteq> 0" "find (match_req_id c' (gc_session_id c')) (gc_pending_requests c') = None"
    using assms(3,4) by (simp_all add: c'_def)
  have "bt_gatt_client_prepare_write env c i h off (Some v) (of_nat (length v)) f u d = Some (0, c', [])"
    using assms(1-4,6,7,9-11) src send
    by (simp add: bt_gatt_client_prepare_write_def get_reliable_request_def set_data_def pdu_def [symmetric] send_request_def
        request_unref_def call_req_destroy_def no_destroy_def destroy_prep_write_op_def call_user_def)
      (simp add: c'_def put_request_def)
  moreover have "client_call env c' (Client gfn.Prep_write_cb) opcode rsp (Some (Client (Request_ptr p))) = None"
    by (simp add: client_call_def Gatt_Client.prep_write_cb_def c'_def)
  ultimately show ?thesis using session_lost [OF lost] by (intro exI [of _ c']) simp
qed

text \<open>Witness of \<open>failed_prepare_blocks\<close>: the second prepared write of a session has 19 bytes, the MTU is 23.\<close>

theorem failed_prepare_blocks_witness:
  "\<exists>(c :: nat gatt_client) c'. gc_session_id c = 1 \<and>
    bt_gatt_client_prepare_write gc_example_env c 1 3 0 (Some (replicate 19 7)) 19 (Some 10) None None = Some (0, c', []) \<and>
    bt_gatt_client_prepare_write gc_example_env c' 0 3 0 (Some [1]) 1 (Some 10) None None = Some (0, c', []) \<and>
    bt_gatt_client_write_execute gc_example_env c' 1 (Some 10) None None = Some (0, c', [])"
proof -
  let ?r = "\<lparr>r_long_write = False, r_prep_write = True, r_removed = False, r_ref_count = 1, r_id = 1, r_att_id = 1,
    r_data = Some (Prep_write_data \<lparr>pw_callback = Some 10, pw_user_data = None, pw_destroy = None, pw_pdu = [3, 0, 0, 0, 5]\<rparr>),
    r_destroy = Some Destroy_prep_write_op\<rparr>"
  define c :: "nat gatt_client" where "c = gc_example\<lparr>gc_reqs := [4 \<mapsto> ?r], gc_pending_requests := [4], gc_session_id := 1, gc_next := 5\<rparr>"
  have ex: "att_io (engine gc_example)" "e_mem gc_example_env" "\<not> gc_in_long_write gc_example"
    using gc_example_facts(1) by (simp_all add: client_up_def idle_link_def can_send_def, simp add: gc_example_def)
  have c: "gc_att c" "\<not> gc_in_long_write c" "gc_session_id c = 1" "att_io (engine c)" "gc_reqs c 4 = Some ?r"
    "find (match_req_id c 1) (gc_pending_requests c) = Some 4" "\<forall>x \<in> set (gc_pending_requests c). match_req_id c 1 x \<longrightarrow> x = 4"
    "unat (att_mtu (engine c)) \<le> length (replicate 19 (7 :: u8)) + 4" using ex gc_example_facts(4,5) by (simp_all add: c_def match_req_id_def)
  then obtain c' where "bt_gatt_client_prepare_write gc_example_env c 1 3 0 (Some (replicate 19 7)) (of_nat (length (replicate 19 (7 :: u8))))
      (Some 10) None None = Some (0, c', [])"
    "bt_gatt_client_prepare_write gc_example_env c' 0 3 0 (Some [1]) 1 (Some 10) None None = Some (0, c', [])"
    "bt_gatt_client_write_execute gc_example_env c' 1 (Some 10) None None = Some (0, c', [])"
    using failed_prepare_blocks [OF c(1-3) _ c(4) ex(2) c(6,7,5), of "replicate 19 7" 3 0 "Some 10" None None 0 None] by auto
  then show ?thesis using c(3) by (intro exI [of _ c] exI [of _ c']) simp
qed

end
