(* ===== verification/Spec2Isabelle.thy ===== *)
theory Spec2Isabelle
  imports Bt_Queue Bt_Ringbuf Bt_Uuid Gatt_Db_Values Bt_Att_Protocol Gatt_Server_Access Gatt_Helpers_Props Gatt_Discovery Eir_Oob Gatt_Client_Write
    Gatt_Client_Subscribe
begin

text \<open>
  A verification of the GATT stack of BlueZ 5.49, the Bluetooth stack this tutorial repository
  builds on: the code under \<^verbatim>\<open>src/bluez-5.49/src/shared\<close> that a peripheral like the one of the
  tutorial runs to serve its attributes, and that a central runs to discover them, with the
  library code it rests on.

  \<^bold>\<open>The parts and how they interact.\<close>  An application fills a database of attributes
  (\<^verbatim>\<open>gatt-db.c\<close>): services, characteristics and descriptors with handles, UUIDs, permissions and
  values or callbacks.  A connection is an ATT protocol engine (\<^verbatim>\<open>att.c\<close>), which queues the PDUs
  to send, pairs requests with responses, and calls registered handlers for the PDUs that arrive.
  The GATT server (\<^verbatim>\<open>gatt-server.c\<close>) registers a handler for every request, looks the attributes up
  in the database, and sends the responses through the engine.  On the other side of the link the
  client procedures (\<^verbatim>\<open>gatt-helpers.c\<close>) send one request after the other through their own engine,
  collect the responses, and hand them to the application with iterators; the client object
  (\<^verbatim>\<open>gatt-client.c\<close>) reads and writes values on behalf of the application and passes on the
  notifications of the server.  All of them use the linked queue of
  \<^verbatim>\<open>queue.c\<close>, the UUIDs of \<^verbatim>\<open>lib/uuid.c\<close> and the byte-order accessors of \<^verbatim>\<open>util.h\<close>; the ring
  buffer of \<^verbatim>\<open>ringbuf.c\<close> serves the byte streams of other profiles.

  \<^bold>\<open>The theories.\<close>
  \<^item> \<open>Bt_Prelude\<close>: machine integers as words, the byte-order accessors of \<^verbatim>\<open>src/shared/util.h\<close> and
    \<^verbatim>\<open>lib/bluetooth.h\<close>, bounds-checked models of \<^verbatim>\<open>memcpy\<close> and \<^verbatim>\<open>realloc\<close>, shared lemmas.
  \<^item> \<open>Bt_Queue\<close>: \<^verbatim>\<open>src/shared/queue.c\<close> on an explicit heap of entries with reference counts.  It
    refines the operations on lists under every sequence of calls, never faults, never loops, and
    stays safe when a callback destroys the queue.  The list-valued queues of the other theories
    rest on this refinement.
  \<^item> \<open>Bt_Ringbuf\<close>: \<^verbatim>\<open>src/shared/ringbuf.c\<close> with its two wrapping 64-bit counters; it refines a
    bounded byte FIFO, the bytes that leave through a descriptor and the error paths included.
  \<^item> \<open>Bt_Uuid\<close>: \<^verbatim>\<open>lib/uuid.c\<close>: conversion, comparison, printing and parsing of the three sizes.
  \<^item> \<open>Gatt_Db\<close> holds the model of \<^verbatim>\<open>src/shared/gatt-db.c\<close> (services by pointer in a map, attributes
    as slots of their service, callbacks as events of the result); \<open>Gatt_Db_Wf\<close> its invariant;
    \<open>Gatt_Db_Machine\<close> the machine of all operations and its safety; \<open>Gatt_Db_Lookup\<close> and
    \<open>Gatt_Db_Props\<close> lookups and searches against their specifications, on every
    database as far as they hold there and in full on those whose handles are in order, and the round
    trips of declarations; \<open>Gatt_Db_Values\<close> reads and writes of values.
  \<^item> \<open>Bt_Att\<close> holds the model of \<^verbatim>\<open>src/shared/att.c\<close> (the fields of \<^verbatim>\<open>struct bt_att\<close>, queues as lists,
    everything that leaves the engine as events); \<open>Bt_Att_Props\<close> its step function and the accounting
    of operations; \<open>Bt_Att_Machine\<close> its reachable states; \<open>Bt_Att_Protocol\<close> the protocol: layout
    of PDUs, pairing of requests and responses, retries after a security upgrade, progress of the writer.
  \<^item> \<open>Gatt_Server\<close> holds the model of \<^verbatim>\<open>src/shared/gatt-server.c\<close>, built on \<open>Gatt_Db\<close> and \<open>Bt_Att\<close>;
    \<open>Gatt_Server_Safe\<close> shows that every handler stays within its buffers and answers, but for one
    prepared write that is characterised exactly;
    \<open>Gatt_Server_Props\<close> states the interface between the engine and a request handler as the
    locale \<open>srv_request\<close>, interprets it on the eleven request handlers, and derives what a client
    sees; \<open>Gatt_Server_Access\<close> treats reads, long writes and permissions.
  \<^item> \<open>Bt_Att_Types\<close> holds the opcodes and error codes of \<^verbatim>\<open>src/shared/att-types.h\<close> that server and
    client share.
  \<^item> \<open>Gatt_Helpers\<close> holds the model of \<^verbatim>\<open>src/shared/gatt-helpers.c\<close>, built on \<open>Bt_Att\<close>: requests,
    results and the data of nested reads in maps with their reference counts, every callback as a
    function of its response.  \<open>Gatt_Helpers_Props\<close> shows that a response either ends a service
    discovery with one report or asks for a strictly later handle, so that it ends whatever the
    peer answers, and that the other procedures need not; the locale \<open>result_iterator\<close> is the
    contract of an iterator, interpreted on the iterators over services, descriptors and values.
  \<^item> \<open>Gatt_Discovery\<close> composes the two sides: every PDU of a discovery goes through both ATT engines,
    the procedures of the client and the handler and database of the server, and the client is
    told exactly the services of the database.
  \<^item> \<open>Gatt_Client\<close> and \<open>Gatt_Client_Notify\<close> hold the model of the operations of \<^verbatim>\<open>src/shared/gatt-client.c\<close>, built on
    \<open>Gatt_Helpers\<close>: requests and registrations in maps with their reference counts, the data behind
    \<^verbatim>\<open>req->data\<close> as a datatype with a constructor for every structure.  \<open>Gatt_Client_Link\<close> puts a client on
    a link: the locale \<open>readable_peer\<close> says what a long read relies on and is interpreted on the model of
    the server, so that a long read delivers the stored value.  \<open>Gatt_Client_Write\<close> does the same for
    long writes with the locale \<open>writable_peer\<close>.  \<open>Gatt_Client_Subscribe\<close> treats notifications and
    registrations, and two states in which the client loses track.
  \<^item> \<open>Bt_Ad\<close> models \<^verbatim>\<open>src/shared/ad.c\<close>, with which a peripheral makes itself known before there is a
    connection: the generated bytes are the structures of the object, and the cases in which the
    code leaves its buffer or removes the wrong entry are characterised exactly.
  \<^item> \<open>Uuid_Helper\<close> models \<^verbatim>\<open>src/uuid-helper.c\<close>, the strings of UUIDs in the daemon, which agree with those of
    the library.  \<open>Eir\<close> models \<^verbatim>\<open>src/eir.c\<close>, the parser for what a peripheral advertises; \<open>Eir_Props\<close> shows
    that it is safe on any input of up to 251 bytes and composes it with \<open>Bt_Ad\<close>: a scanner learns what the peripheral holds.
    \<open>Eir_Oob\<close> shows the bounds and the round trip of out-of-band data.

  \<^bold>\<open>Conventions.\<close>  Integers keep their C width (\<open>u8\<close>, \<open>u16\<close>, \<open>u32\<close>), so sums wrap where the C sums
  do; lengths that the code proves small are natural numbers.  An operation returns \<open>None\<close> exactly
  where C gives the step no meaning (an access outside an allocation, a dangling pointer, a shift
  by the width of the type); a result the code reports as a failure is a value of the result.
  Three steps deviate from this: a comparison with the UUID of a service whose declaration holds none,
  which reads an uninitialised variable, counts as no match; the search for a request of the client by its
  number skips requests that were freed; and \<^verbatim>\<open>1 << 31\<close> has the value GNU C gives it.
  Structures are records, pointers to services and attributes are pairs of a service identifier and
  an index, and functions and user data of the application are elements of a type parameter.
  Whatever the code cannot decide itself is a parameter: success of memory allocation (\<open>e_mem\<close>, and
  the argument \<open>mem\<close> of the database, for all allocations of a call at once), the contents of fresh memory (\<open>e_junk\<close>), the result of a
  write to the socket, timer identifiers, the security level of the link and the signing function.
  No definition uses fuel: recursions are structural, have a termination proof (the queue of long
  writes gets shorter), or are on the heap of the queue by the \<open>option\<close> monad with a proof that they return.

  \<^bold>\<open>Not modelled.\<close>  Of the GATT client object (\<^verbatim>\<open>gatt-client.c\<close>) the discovery that fills its database,
  the ready callbacks, clones, the reaction to Service Changed and its creation and release are left
  out; calls of the application back into the client from within a callback are steps of their own.
  Main loops, timers,
  sockets and D-Bus glue are input and output.  The daemon, profiles, mesh, OBEX, the Android port,
  the monitor, the emulator and the tools are separate programs; the tutorial's own \<^verbatim>\<open>Agent\<close> and
  \<^verbatim>\<open>Profile\<close> programs are generated D-Bus bindings with callbacks that print.  Memory that is only
  leaked has no effect in the model.
\<close>

end
